(* ===== verification/Prelude.thy ===== *)
theory Prelude
  imports Main "HOL-Library.Word"
begin

text \<open>
  Shared vocabulary of the development: results with thrown errors, byte lists, decimal
  numerals and the string and list helpers of the JavaScript standard library that the
  modelled TypeScript uses. A JavaScript string is a list of code units; the type
  \<^typ>\<open>string\<close> covers the code units below 256, which is what every modelled
  routine produces and accepts. A \<open>bigint\<close> is an \<^typ>\<open>int\<close>; a \<open>number\<close> that the
  code uses as an integer is an \<^typ>\<open>int\<close> or a \<^typ>\<open>nat\<close>.
\<close>

named_theorems result_simps
named_theorems digit_simps
named_theorems layout_simps

type_synonym byte = "8 word"
type_synonym bytes = "byte list"

text \<open>What a routine throws: an \<open>Error\<close> with its message, or the engine's \<open>RangeError\<close>.\<close>

datatype js_error = Error string | RangeError

type_synonym 'a result = "js_error + 'a"

definition andThen :: "'a result \<Rightarrow> ('a \<Rightarrow> 'b result) \<Rightarrow> 'b result" where
  "andThen m f = (case m of Inl e \<Rightarrow> Inl e | Inr x \<Rightarrow> f x)"

definition ensure :: "bool \<Rightarrow> js_error \<Rightarrow> 'a result \<Rightarrow> 'a result" where
  "ensure c e k = (if c then k else Inl e)"

lemma andThen_Inr [simp, result_simps]: "andThen (Inr x) f = f x"
  by (simp add: andThen_def)

lemma andThen_Inl [simp, result_simps]: "andThen (Inl e) f = Inl e"
  by (simp add: andThen_def)

lemma andThen_eq_Inr [result_simps]: "andThen m f = Inr y \<longleftrightarrow> (\<exists>x. m = Inr x \<and> f x = Inr y)"
  by (cases m) simp_all

lemma andThen_assoc: "andThen (andThen m f) g = andThen m (\<lambda>x. andThen (f x) g)"
  by (cases m) simp_all

lemma ensure_True [simp, result_simps]: "ensure True e k = k"
  by (simp add: ensure_def)

lemma ensure_False [simp, result_simps]: "ensure False e k = Inl e"
  by (simp add: ensure_def)

lemma ensure_eq_Inr [result_simps]: "ensure c e k = Inr y \<longleftrightarrow> c \<and> k = Inr y"
  by (simp add: ensure_def)

text \<open>A loop that pushes the result of a fallible call and stops at the first throw.\<close>

primrec traverse :: "('a \<Rightarrow> 'b result) \<Rightarrow> 'a list \<Rightarrow> 'b list result" where
  "traverse f [] = Inr []"
| "traverse f (x # xs) = andThen (f x) (\<lambda>y. andThen (traverse f xs) (\<lambda>ys. Inr (y # ys)))"

lemma traverse_Inr: "(\<And>x. x \<in> set xs \<Longrightarrow> f x = Inr (g x)) \<Longrightarrow> traverse f xs = Inr (map g xs)"
  by (induction xs) simp_all

lemma traverse_cong [fundef_cong]:
  "xs = ys \<Longrightarrow> (\<And>x. x \<in> set ys \<Longrightarrow> f x = g x) \<Longrightarrow> traverse f xs = traverse g ys"
  by (induction xs arbitrary: ys) auto

lemma traverse_length: "traverse f xs = Inr ys \<Longrightarrow> length ys = length xs"
  by (induction xs arbitrary: ys) (auto simp: andThen_eq_Inr)

lemma traverse_post:
  "traverse (\<lambda>x. andThen (f x) (\<lambda>y. Inr (g y))) xs = andThen (traverse f xs) (\<lambda>ys. Inr (map g ys))"
proof (induction xs)
  case (Cons x xs)
  then show ?case by (cases "f x"; cases "traverse f xs") simp_all
qed simp

text \<open>Records of a fixed size packed one after the other.\<close>

lemma concat_slot:
  assumes "\<And>x. x \<in> set xs \<Longrightarrow> length (f x) = w" "i < length xs"
  shows "take w (drop (i * w) (concat (map f xs) @ post)) = f (xs ! i)"
  using assms
proof (induction xs arbitrary: i)
  case (Cons x xs)
  then show ?case by (cases i) simp_all
qed simp

lemma length_concat_slots:
  "(\<And>x. x \<in> set xs \<Longrightarrow> length (f x) = w) \<Longrightarrow> length (concat (map f xs)) = length xs * w"
  by (induction xs) simp_all

definition is_ok :: "'a result \<Rightarrow> bool" where
  "is_ok r = (case r of Inl _ \<Rightarrow> False | Inr _ \<Rightarrow> True)"

lemma is_ok_simps [simp]: "is_ok (Inr x)" "\<not> is_ok (Inl e)"
  by (simp_all add: is_ok_def)

lemma is_ok_iff: "is_ok r \<longleftrightarrow> (\<exists>x. r = Inr x)"
  by (cases r) simp_all

text \<open>Machine words read as natural numbers.\<close>

lemma unat_bound: "unat (w :: 'a::len word) < 2 ^ LENGTH('a)"
  by (rule unsigned_less)

text \<open>Decimal numerals.\<close>

definition digit_char :: "nat \<Rightarrow> char" where
  "digit_char n = char_of (48 + n)"

definition is_digit :: "char \<Rightarrow> bool" where
  "is_digit c = (48 \<le> (of_char c :: nat) \<and> (of_char c :: nat) \<le> 57)"

definition digit_val :: "char \<Rightarrow> nat" where
  "digit_val c = of_char c - 48"

fun nat_str :: "nat \<Rightarrow> string" where
  "nat_str n = (if n < 10 then [digit_char n] else nat_str (n div 10) @ [digit_char (n mod 10)])"

declare nat_str.simps [simp del]

definition int_str :: "int \<Rightarrow> string" where
  "int_str i = (if i < 0 then CHR ''-'' # nat_str (nat (- i)) else nat_str (nat i))"

definition str_val :: "string \<Rightarrow> nat" where
  "str_val s = foldl (\<lambda>a c. 10 * a + digit_val c) 0 s"

definition all_digits :: "string \<Rightarrow> bool" where
  "all_digits s = list_all is_digit s"

text \<open>The string methods \<open>padStart\<close>, \<open>padEnd\<close>, \<open>replace(/0+$/, '')\<close> and \<open>trim\<close>.\<close>

definition padStart :: "nat \<Rightarrow> char \<Rightarrow> string \<Rightarrow> string" where
  "padStart n c s = replicate (n - length s) c @ s"

definition padEnd :: "nat \<Rightarrow> char \<Rightarrow> string \<Rightarrow> string" where
  "padEnd n c s = s @ replicate (n - length s) c"

definition strip_zeros :: "string \<Rightarrow> string" where
  "strip_zeros s = rev (dropWhile (\<lambda>c. c = CHR ''0'') (rev s))"

definition is_space :: "char \<Rightarrow> bool" where
  "is_space c = ((of_char c :: nat) \<in> {9, 10, 11, 12, 13, 32, 160})"

definition trim :: "string \<Rightarrow> string" where
  "trim s = rev (dropWhile is_space (rev (dropWhile is_space s)))"

text \<open>\<open>s.split(c)\<close> for a one-character separator.\<close>

fun split_on :: "char \<Rightarrow> string \<Rightarrow> string list" where
  "split_on c [] = [[]]"
| "split_on c (x # xs) =
     (if x = c then [] # split_on c xs
      else (case split_on c xs of [] \<Rightarrow> [[x]] | w # ws \<Rightarrow> (x # w) # ws))"

lemma of_char_digit_char: "n < 10 \<Longrightarrow> (of_char (digit_char n) :: nat) = 48 + n"
  by (simp add: digit_char_def)

lemma is_digit_digit_char [digit_simps]: "n < 10 \<Longrightarrow> is_digit (digit_char n)"
  by (simp add: is_digit_def of_char_digit_char)

lemma digit_val_digit_char [digit_simps]: "n < 10 \<Longrightarrow> digit_val (digit_char n) = n"
  by (simp add: digit_val_def of_char_digit_char)

lemma str_val_Nil [simp]: "str_val [] = 0"
  by (simp add: str_val_def)

lemma str_val_snoc [digit_simps]: "str_val (s @ [c]) = 10 * str_val s + digit_val c"
  by (simp add: str_val_def)

lemma str_val_append [digit_simps]:
  "str_val (s @ t) = str_val s * 10 ^ length t + str_val t"
  by (induction t rule: rev_induct)
    (simp_all add: append_assoc [symmetric] str_val_snoc algebra_simps del: append_assoc)

lemma str_val_nat_str [simp]: "str_val (nat_str n) = n"
proof (induction n rule: nat_str.induct)
  case (1 n)
  then show ?case
    by (cases "n < 10") (simp_all add: nat_str.simps [of n] str_val_snoc digit_val_digit_char
        str_val_snoc [of "[]", simplified])
qed

lemma nat_str_nonempty [simp]: "nat_str n \<noteq> []"
  by (simp add: nat_str.simps [of n])

lemma all_digits_nat_str [simp]: "all_digits (nat_str n)"
proof (induction n rule: nat_str.induct)
  case (1 n)
  then show ?case
    by (cases "n < 10") (simp_all add: nat_str.simps [of n] all_digits_def is_digit_digit_char)
qed

lemma nat_str_inj [simp]: "nat_str m = nat_str n \<longleftrightarrow> m = n"
  by (metis str_val_nat_str)

lemma is_digit_not_special:
  assumes "is_digit c"
  shows "c \<noteq> CHR ''.''" "c \<noteq> CHR ''-''" "c \<noteq> CHR ''+''" "c \<noteq> CHR '' ''" "\<not> is_space c"
  using assms by (auto simp: is_digit_def is_space_def)

lemma length_nat_str_le: "0 < d \<Longrightarrow> n < 10 ^ d \<Longrightarrow> length (nat_str n) \<le> d"
proof (induction n arbitrary: d rule: nat_str.induct)
  case (1 n)
  show ?case
  proof (cases "n < 10")
    case True
    with "1.prems" show ?thesis by (simp add: nat_str.simps [of n])
  next
    case False
    from False "1.prems" obtain e where d: "d = Suc e" and "0 < e"
      by (cases d; cases "d - 1") auto
    with "1.prems" have "n div 10 < 10 ^ e" by auto
    with "1.IH" False \<open>0 < e\<close> have "length (nat_str (n div 10)) \<le> e" by simp
    with False d show ?thesis by (simp add: nat_str.simps [of n])
  qed
qed

lemma digit_val_zero [simp]: "digit_val (CHR ''0'') = 0"
  by (simp add: digit_val_def)

lemma is_digit_zero [simp]: "is_digit (CHR ''0'')"
  by (simp add: is_digit_def)

lemma str_val_zeros [simp]: "str_val (replicate k (CHR ''0'')) = 0"
  by (induction k) (simp_all add: replicate_append_same [symmetric] str_val_snoc)

lemma str_val_padStart [simp]: "str_val (padStart n (CHR ''0'') s) = str_val s"
  by (simp add: padStart_def str_val_append)

lemma length_padStart: "length s \<le> n \<Longrightarrow> length (padStart n c s) = n"
  by (simp add: padStart_def)

lemma all_digits_append [simp]: "all_digits (s @ t) \<longleftrightarrow> all_digits s \<and> all_digits t"
  by (simp add: all_digits_def)

lemma all_digits_zeros [simp]: "all_digits (replicate k (CHR ''0''))"
  by (induction k) (simp_all add: all_digits_def)

lemma all_digits_padStart [simp]: "all_digits (padStart n (CHR ''0'') s) \<longleftrightarrow> all_digits s"
  by (simp add: padStart_def)

lemma strip_zeros_split:
  "s = strip_zeros s @ replicate (length s - length (strip_zeros s)) (CHR ''0'')"
proof -
  let ?p = "\<lambda>c. c = CHR ''0''"
  let ?t = "takeWhile ?p (rev s)" and ?d = "dropWhile ?p (rev s)"
  have split: "?t @ ?d = rev s" by (rule takeWhile_dropWhile_id)
  then have "length ?t + length ?d = length s"
    by (metis length_append length_rev)
  then have len: "length ?t = length s - length (strip_zeros s)"
    by (simp add: strip_zeros_def)
  have "\<forall>c \<in> set ?t. c = CHR ''0''"
    by (auto dest: set_takeWhileD)
  then have "?t = replicate (length ?t) (CHR ''0'')"
    by (simp add: replicate_length_same)
  with len have "?t = replicate (length s - length (strip_zeros s)) (CHR ''0'')"
    by simp
  moreover have "?d = rev (strip_zeros s)"
    by (simp add: strip_zeros_def)
  ultimately
  have "rev s = replicate (length s - length (strip_zeros s)) (CHR ''0'') @ rev (strip_zeros s)"
    using split by metis
  then show ?thesis by (metis rev_append rev_replicate rev_rev_ident)
qed

lemma length_strip_zeros: "length (strip_zeros s) \<le> length s"
  by (simp add: strip_zeros_def length_dropWhile_le [where xs = "rev s", simplified])

lemma padEnd_strip_zeros: "length s = n \<Longrightarrow> padEnd n (CHR ''0'') (strip_zeros s) = s"
  using strip_zeros_split [of s] by (simp add: padEnd_def)

lemma all_digits_strip_zeros: "all_digits s \<Longrightarrow> all_digits (strip_zeros s)"
  by (metis all_digits_append strip_zeros_split)

lemma strip_zeros_eq_Nil: "strip_zeros s = [] \<longleftrightarrow> (\<forall>c \<in> set s. c = CHR ''0'')"
  by (auto simp: strip_zeros_def)

lemma str_val_all_zero: "\<forall>c \<in> set s. c = CHR ''0'' \<Longrightarrow> str_val s = 0"
  by (metis replicate_length_same str_val_zeros)

lemma str_val_less: "all_digits s \<Longrightarrow> str_val s < 10 ^ length s"
proof (induction s rule: rev_induct)
  case (snoc c s)
  then have "(of_char c :: nat) \<le> 57" by (simp add: all_digits_def is_digit_def)
  then have "digit_val c \<le> 9" by (simp add: digit_val_def)
  with snoc show ?case by (simp add: str_val_snoc)
qed simp

lemma split_on_notin: "c \<notin> set s \<Longrightarrow> split_on c s = [s]"
  by (induction s) auto

lemma split_on_append: "c \<notin> set s \<Longrightarrow> split_on c (s @ c # t) = s # split_on c t"
  by (induction s) auto

lemma all_digits_notin:
  "all_digits s \<Longrightarrow> CHR ''.'' \<notin> set s" "all_digits s \<Longrightarrow> CHR ''-'' \<notin> set s"
  by (auto simp: all_digits_def list_all_iff dest: is_digit_not_special)

lemma trim_id:
  assumes "s \<noteq> []" "\<not> is_space (hd s)" "\<not> is_space (last s)"
  shows "trim s = s"
proof -
  have "dropWhile is_space s = s" using assms(1,2) by (cases s) simp_all
  moreover have "dropWhile is_space (rev s) = rev s"
    using assms(1,3) by (cases s rule: rev_cases) simp_all
  ultimately show ?thesis by (simp add: trim_def)
qed

end
