(* ===== verification/Layout.thy ===== *)
theory Layout
  imports Prelude
begin

text \<open>
  Bytes of an account: typed-array views as the phone app reads them
  (\<^verbatim>\<open>app/lib/constants.ts\<close>: \<open>viewAt\<close> and the little-endian readers and writers),
  Node buffers as the agent SDK reads them (\<^verbatim>\<open>sdk/src/layout.ts\<close>: \<open>need\<close> and
  the checked readers) and as the indexer reads them (\<^verbatim>\<open>indexer/src/constants.ts\<close>).
  The three families differ in what they check. The app's readers check against the underlying
  buffer of the view, the indexer's against an eight-byte copy of the slice, the SDK's against
  the buffer with an error message of their own.

  The locale \<open>le_codec\<close> is the contract a checked reader and the byte image of its
  type satisfy together; it is interpreted for every SDK reader.
\<close>

unbundle bit_operations_syntax

section \<open>Little-endian numbers\<close>

primrec le_val :: "bytes \<Rightarrow> nat" where
  "le_val [] = 0"
| "le_val (b # bs) = unat b + 256 * le_val bs"

primrec le_bytes :: "nat \<Rightarrow> nat \<Rightarrow> bytes" where
  "le_bytes 0 x = []"
| "le_bytes (Suc k) x = of_nat x # le_bytes k (x div 256)"

text \<open>The bytes of an ASCII literal.\<close>

definition ascii :: "string \<Rightarrow> bytes" where
  "ascii s = map of_char s"

definition i64_val :: "nat \<Rightarrow> int" where
  "i64_val n = (if n < 2 ^ 63 then int n else int n - 2 ^ 64)"

definition i64_nat :: "int \<Rightarrow> nat" where
  "i64_nat i = nat (i mod 2 ^ 64)"

lemma length_le_bytes [simp, layout_simps]: "length (le_bytes k x) = k"
  by (induction k arbitrary: x) simp_all

lemma unat_byte [simp]: "unat (of_nat x :: byte) = x mod 256"
  by (simp add: unat_of_nat)

lemma le_val_le_bytes: "le_val (le_bytes k x) = x mod 256 ^ k"
proof (induction k arbitrary: x)
  case (Suc k)
  have "x mod 256 ^ Suc k = 256 * (x div 256 mod 256 ^ k) + x mod 256"
    using mod_mult2_eq [of x 256 "256 ^ k"] by simp
  with Suc show ?case by simp
qed simp

lemma le_val_bound: "le_val bs < 256 ^ length bs"
proof (induction bs)
  case (Cons b bs)
  have "unat b < 256" using unat_bound [of b] by simp
  with Cons show ?case by simp
qed simp

lemma le_bytes_le_val: "le_bytes (length bs) (le_val bs) = bs"
proof (induction bs)
  case (Cons b bs)
  have "unat b < 256" using unat_bound [of b] by simp
  then have "(unat b + 256 * le_val bs) div 256 = le_val bs" by simp
  moreover have zero: "(256 :: byte) = 0" by simp
  have "(of_nat (unat b + 256 * le_val bs) :: byte) = b"
    by (simp add: of_nat_unat zero)
  ultimately show ?case using Cons by simp
qed simp

lemma i64_roundtrip: "- (2 ^ 63) \<le> i \<Longrightarrow> i < 2 ^ 63 \<Longrightarrow> i64_val (i64_nat i) = i"
proof -
  assume lo: "- (2 ^ 63) \<le> i" and hi: "i < 2 ^ 63"
  show ?thesis
  proof (cases "0 \<le> i")
    case True
    with hi have "i mod 2 ^ 64 = i" by simp
    with True hi show ?thesis by (simp add: i64_val_def i64_nat_def nat_less_iff)
  next
    case False
    have "i mod 2 ^ 64 = (i + 2 ^ 64) mod 2 ^ 64" by simp
    also have "\<dots> = i + 2 ^ 64" using False lo by (intro mod_pos_pos_trivial) simp_all
    finally have "i mod 2 ^ 64 = i + 2 ^ 64" .
    with False lo show ?thesis by (simp add: i64_val_def i64_nat_def nat_less_iff)
  qed
qed

lemma i64_nat_bound: "i64_nat i < 2 ^ 64"
  by (simp add: i64_nat_def nat_less_iff)

lemma le_val_word [simp, layout_simps]:
  "le_val (le_bytes 8 (unat (w :: 64 word))) = unat w"
  "le_val (le_bytes 4 (unat (x :: 32 word))) = unat x"
  "le_val (le_bytes 2 (unat (y :: 16 word))) = unat y"
  "le_val (le_bytes 8 (i64_nat i)) = i64_nat i"
  using unat_bound [of w] unat_bound [of x] unat_bound [of y] i64_nat_bound [of i]
  by (simp_all add: le_val_le_bytes)

section \<open>The phone app's typed-array views\<close>

text \<open>
  A \<open>Uint8Array\<close> is a window of a shared buffer. \<open>subarray\<close> clamps both ends and keeps the
  buffer; \<open>viewAt\<close> builds a \<open>DataView\<close> on the underlying buffer, so its bound is the end of
  the buffer, not the end of the array.
\<close>

record u8array =
  arr_buffer :: bytes
  arr_offset :: nat
  arr_length :: nat

definition arr_wf :: "u8array \<Rightarrow> bool" where
  "arr_wf v = (arr_offset v + arr_length v \<le> length (arr_buffer v))"

definition arr_bytes :: "u8array \<Rightarrow> bytes" where
  "arr_bytes v = take (arr_length v) (drop (arr_offset v) (arr_buffer v))"

definition whole :: "bytes \<Rightarrow> u8array" where
  "whole bs = \<lparr>arr_buffer = bs, arr_offset = 0, arr_length = length bs\<rparr>"

definition subarray :: "u8array \<Rightarrow> nat \<Rightarrow> nat \<Rightarrow> u8array" where
  "subarray v a b =
     v\<lparr>arr_offset := arr_offset v + min a (arr_length v),
       arr_length := min b (arr_length v) - min a (arr_length v)\<rparr>"

text \<open>\<open>data[i] ?? 0\<close>\<close>

definition byteOr0 :: "u8array \<Rightarrow> nat \<Rightarrow> nat" where
  "byteOr0 v i = (if i < arr_length v then unat (arr_buffer v ! (arr_offset v + i)) else 0)"

definition viewAt :: "u8array \<Rightarrow> nat \<Rightarrow> nat \<Rightarrow> bytes result" where
  "viewAt v p n =
     (if arr_offset v + p + n \<le> length (arr_buffer v)
      then Inr (take n (drop (arr_offset v + p) (arr_buffer v)))
      else Inl RangeError)"

definition readU64Le :: "u8array \<Rightarrow> nat \<Rightarrow> int result" where
  "readU64Le v p = andThen (viewAt v p 8) (\<lambda>bs. Inr (int (le_val bs)))"

definition readI64Le :: "u8array \<Rightarrow> nat \<Rightarrow> int result" where
  "readI64Le v p = andThen (viewAt v p 8) (\<lambda>bs. Inr (i64_val (le_val bs)))"

definition readU32Le :: "u8array \<Rightarrow> nat \<Rightarrow> int result" where
  "readU32Le v p = andThen (viewAt v p 4) (\<lambda>bs. Inr (int (le_val bs)))"

definition readU16Le :: "u8array \<Rightarrow> nat \<Rightarrow> int result" where
  "readU16Le v p = andThen (viewAt v p 2) (\<lambda>bs. Inr (int (le_val bs)))"

text \<open>\<open>setBigUint64\<close> and \<open>setBigInt64\<close> store the value modulo \<open>2 ^ 64\<close>, \<open>setUint32\<close> modulo \<open>2 ^ 32\<close>.\<close>

definition splice :: "bytes \<Rightarrow> nat \<Rightarrow> bytes \<Rightarrow> bytes" where
  "splice buf p new = take p buf @ new @ drop (p + length new) buf"

definition writeAt :: "u8array \<Rightarrow> nat \<Rightarrow> bytes \<Rightarrow> u8array result" where
  "writeAt v p new =
     andThen (viewAt v p (length new))
       (\<lambda>_. Inr (v\<lparr>arr_buffer := splice (arr_buffer v) (arr_offset v + p) new\<rparr>))"

definition writeU64Le :: "u8array \<Rightarrow> nat \<Rightarrow> int \<Rightarrow> u8array result" where
  "writeU64Le v p x = writeAt v p (le_bytes 8 (nat (x mod 2 ^ 64)))"

definition writeI64Le :: "u8array \<Rightarrow> nat \<Rightarrow> int \<Rightarrow> u8array result" where
  "writeI64Le v p x = writeAt v p (le_bytes 8 (i64_nat x))"

definition writeU32Le :: "u8array \<Rightarrow> nat \<Rightarrow> int \<Rightarrow> u8array result" where
  "writeU32Le v p x = writeAt v p (le_bytes 4 (nat (x mod 2 ^ 32)))"

definition u64Le :: "int \<Rightarrow> bytes result" where
  "u64Le x = andThen (writeU64Le (whole (replicate 8 0)) 0 x) (\<lambda>v. Inr (arr_bytes v))"

definition buffersEqual :: "bytes \<Rightarrow> bytes \<Rightarrow> bool" where
  "buffersEqual a b = (length a = length b \<and> list_all (\<lambda>i. a ! i = b ! i) [0..<length a])"

lemma buffersEqual_iff [simp]: "buffersEqual a b \<longleftrightarrow> a = b"
proof
  assume "buffersEqual a b"
  then show "a = b" by (intro nth_equalityI) (simp_all add: buffersEqual_def list_all_iff)
qed (simp add: buffersEqual_def list_all_iff)

lemma u64Le_eq: "u64Le x = Inr (le_bytes 8 (nat (x mod 2 ^ 64)))"
  by (simp add: u64Le_def writeU64Le_def writeAt_def viewAt_def whole_def arr_bytes_def splice_def)

lemma arr_bytes_whole [simp, layout_simps]: "arr_bytes (whole bs) = bs"
  by (simp add: arr_bytes_def whole_def)

lemma arr_wf_whole [simp]: "arr_wf (whole bs)"
  by (simp add: arr_wf_def whole_def)

lemma arr_wf_subarray [simp]: "arr_wf v \<Longrightarrow> arr_wf (subarray v a b)"
  by (auto simp: arr_wf_def subarray_def)

lemma arr_bytes_subarray [layout_simps]:
  "arr_wf v \<Longrightarrow> arr_bytes (subarray v a b) = take (b - a) (drop a (arr_bytes v))"
  by (cases "a \<le> arr_length v"; cases "b \<le> arr_length v")
    (auto simp: arr_wf_def arr_bytes_def subarray_def drop_take min_def add.commute)

lemma length_arr_bytes [simp, layout_simps]: "arr_wf v \<Longrightarrow> length (arr_bytes v) = arr_length v"
  by (simp add: arr_wf_def arr_bytes_def)

text \<open>Inside the array, a read through the underlying buffer reads the array's own bytes.\<close>

lemma viewAt_inside:
  assumes "arr_wf v" "p + n \<le> arr_length v"
  shows "viewAt v p n = Inr (take n (drop p (arr_bytes v)))"
  using assms by (simp add: viewAt_def arr_wf_def arr_bytes_def drop_take min_def add.commute)

lemma byteOr0_inside:
  assumes "arr_wf v" "i < arr_length v"
  shows "byteOr0 v i = unat (arr_bytes v ! i)"
  using assms by (simp add: byteOr0_def arr_bytes_def arr_wf_def)

lemmas app_read_defs = readU64Le_def readI64Le_def readU32Le_def readU16Le_def

lemma app_read_inside [layout_simps]:
  assumes "arr_wf v"
  shows "p + 8 \<le> arr_length v \<Longrightarrow> readU64Le v p = Inr (int (le_val (take 8 (drop p (arr_bytes v)))))"
    and "p + 8 \<le> arr_length v \<Longrightarrow> readI64Le v p = Inr (i64_val (le_val (take 8 (drop p (arr_bytes v)))))"
    and "p + 4 \<le> arr_length v \<Longrightarrow> readU32Le v p = Inr (int (le_val (take 4 (drop p (arr_bytes v)))))"
    and "p + 2 \<le> arr_length v \<Longrightarrow> readU16Le v p = Inr (int (le_val (take 2 (drop p (arr_bytes v)))))"
  using assms by (simp_all add: app_read_defs viewAt_inside)

section \<open>Node buffers: the indexer's readers\<close>

definition slice :: "bytes \<Rightarrow> nat \<Rightarrow> nat \<Rightarrow> bytes" where
  "slice bs a b = take (b - a) (drop a bs)"

text \<open>\<open>readBigUInt64LE\<close>, \<open>readBigInt64LE\<close>, \<open>readUInt32LE\<close>, \<open>readUInt16LE\<close>, \<open>readUInt8\<close>: bounds checked.\<close>

definition readUIntLE :: "nat \<Rightarrow> bytes \<Rightarrow> nat \<Rightarrow> int result" where
  "readUIntLE w bs p = (if p + w \<le> length bs then Inr (int (le_val (take w (drop p bs)))) else Inl RangeError)"

definition readIntLE64 :: "bytes \<Rightarrow> nat \<Rightarrow> int result" where
  "readIntLE64 bs p = (if p + 8 \<le> length bs then Inr (i64_val (le_val (take 8 (drop p bs)))) else Inl RangeError)"

definition idx_readU64Le :: "bytes \<Rightarrow> nat \<Rightarrow> int result" where
  "idx_readU64Le buf p = readUIntLE 8 (slice buf p (p + 8)) 0"

definition idx_readI64Le :: "bytes \<Rightarrow> nat \<Rightarrow> int result" where
  "idx_readI64Le buf p = readIntLE64 (slice buf p (p + 8)) 0"

lemma idx_read_inside [layout_simps]:
  "p + 8 \<le> length bs \<Longrightarrow> idx_readU64Le bs p = Inr (int (le_val (take 8 (drop p bs))))"
  "p + 8 \<le> length bs \<Longrightarrow> idx_readI64Le bs p = Inr (i64_val (le_val (take 8 (drop p bs))))"
  by (simp_all add: idx_readU64Le_def idx_readI64Le_def readUIntLE_def readIntLE64_def slice_def)

lemma node_read_inside [layout_simps]:
  "p + w \<le> length bs \<Longrightarrow> readUIntLE w bs p = Inr (int (le_val (take w (drop p bs))))"
  "p + 8 \<le> length bs \<Longrightarrow> readIntLE64 bs p = Inr (i64_val (le_val (take 8 (drop p bs))))"
  by (simp_all add: readUIntLE_def readIntLE64_def)

text \<open>\<open>writeBigUInt64LE\<close> throws on a value outside the type; the SDK's \<open>u64Le\<close> rests on it.\<close>

definition sdk_u64Le :: "int \<Rightarrow> bytes result" where
  "sdk_u64Le x = (if 0 \<le> x \<and> x < 2 ^ 64 then Inr (le_bytes 8 (nat x)) else Inl RangeError)"

section \<open>The SDK's checked readers\<close>

definition need :: "bytes \<Rightarrow> nat \<Rightarrow> nat \<Rightarrow> string \<Rightarrow> unit result" where
  "need bs p n what =
     (if length bs < p + n then Inl (Error (what @ '' overruns account data'')) else Inr ())"

definition requireDisc :: "bytes \<Rightarrow> bytes \<Rightarrow> string \<Rightarrow> unit result" where
  "requireDisc bs disc what =
     (if length bs < length disc \<or> take (length disc) bs \<noteq> disc
      then Inl (Error (what @ '' account discriminator mismatch'')) else Inr ())"

definition readPubkey :: "(bytes \<Rightarrow> 'k) \<Rightarrow> bytes \<Rightarrow> nat \<Rightarrow> string \<Rightarrow> ('k \<times> nat) result" where
  "readPubkey pk bs p what =
     andThen (need bs p 32 what) (\<lambda>_. Inr (pk (slice bs p (p + 32)), p + 32))"

definition readU64 :: "bytes \<Rightarrow> nat \<Rightarrow> string \<Rightarrow> (int \<times> nat) result" where
  "readU64 bs p what =
     andThen (need bs p 8 what) (\<lambda>_. andThen (readUIntLE 8 bs p) (\<lambda>v. Inr (v, p + 8)))"

definition readI64 :: "bytes \<Rightarrow> nat \<Rightarrow> string \<Rightarrow> (int \<times> nat) result" where
  "readI64 bs p what =
     andThen (need bs p 8 what) (\<lambda>_. andThen (readIntLE64 bs p) (\<lambda>v. Inr (v, p + 8)))"

definition readU32 :: "bytes \<Rightarrow> nat \<Rightarrow> string \<Rightarrow> (int \<times> nat) result" where
  "readU32 bs p what =
     andThen (need bs p 4 what) (\<lambda>_. andThen (readUIntLE 4 bs p) (\<lambda>v. Inr (v, p + 4)))"

definition readU8 :: "bytes \<Rightarrow> nat \<Rightarrow> string \<Rightarrow> (int \<times> nat) result" where
  "readU8 bs p what =
     andThen (need bs p 1 what) (\<lambda>_. andThen (readUIntLE 1 bs p) (\<lambda>v. Inr (v, p + 1)))"

definition readString :: "(bytes \<Rightarrow> string) \<Rightarrow> bytes \<Rightarrow> nat \<Rightarrow> (string \<times> nat) result" where
  "readString utf8 bs p =
     andThen (readU32 bs p ''purpose length'') (\<lambda>(len, mid).
       if len > 64 then Inl (Error (''purpose longer than on-chain max ('' @ int_str len @ '')''))
       else andThen (need bs mid (nat len) ''purpose'')
         (\<lambda>_. Inr (utf8 (slice bs mid (mid + nat len)), mid + nat len)))"

text \<open>
  The contract of a reader: at the position where the image of a value starts, whatever is before
  and after it, the reader gives that value and the position after the image.
\<close>

locale le_codec =
  fixes image :: "'a \<Rightarrow> bytes"
    and read :: "bytes \<Rightarrow> nat \<Rightarrow> string \<Rightarrow> ('b \<times> nat) result"
    and meaning :: "'a \<Rightarrow> 'b"
    and valid :: "'a \<Rightarrow> bool"
  assumes read_image:
    "valid x \<Longrightarrow> read (pre @ image x @ post) (length pre) what = Inr (meaning x, length pre + length (image x))"
begin

lemma read_at:
  assumes "valid x" "bs = pre @ image x @ post" "p = length pre"
  shows "read bs p what = Inr (meaning x, p + length (image x))"
  using assms read_image by simp

text \<open>One step of a decoder that reads field after field: where the rest of the buffer starts with an
  image, the decoder goes on after it with the value.\<close>

lemma read_step:
  assumes "drop p bs = image x @ rest" "p \<le> length bs" "valid x"
    and "\<And>q. drop q bs = rest \<Longrightarrow> q \<le> length bs \<Longrightarrow> k (meaning x) q = r"
  shows "andThen (read bs p what) (\<lambda>(v, q). k v q) = r"
proof -
  have "bs = take p bs @ image x @ rest" using assms(1) by (metis append_take_drop_id)
  then have "read bs p what = Inr (meaning x, p + length (image x))"
    using assms(2,3) by (intro read_at [of x bs "take p bs" rest]) simp_all
  moreover have "drop (p + length (image x)) bs = rest"
    using arg_cong [OF assms(1), of "drop (length (image x))"] by (simp add: add.commute)
  moreover have "p + length (image x) \<le> length bs"
    using arg_cong [OF assms(1), of length] assms(2) by simp
  ultimately show ?thesis using assms(4) by simp
qed

end

lemma le_read_exact:
  "take (length bs) (drop (length pre) (pre @ bs @ post)) = bs"
  by simp

interpretation u64_codec: le_codec "\<lambda>w :: 64 word. le_bytes 8 (unat w)" readU64 "\<lambda>w. int (unat w)" "\<lambda>_. True"
proof unfold_locales
  fix x :: "64 word" and pre post :: bytes and what :: string
  have "unat x < 256 ^ 8" using unat_bound [of x] by simp
  then show "readU64 (pre @ le_bytes 8 (unat x) @ post) (length pre) what =
      Inr (int (unat x), length pre + length (le_bytes 8 (unat x)))"
    by (simp add: readU64_def need_def readUIntLE_def le_val_le_bytes)
qed

interpretation i64_codec: le_codec "\<lambda>i. le_bytes 8 (i64_nat i)" readI64 "\<lambda>i. i" "\<lambda>i. - (2 ^ 63) \<le> i \<and> i < 2 ^ 63"
proof unfold_locales
  fix x :: int and pre post :: bytes and what :: string
  assume "- (2 ^ 63) \<le> x \<and> x < 2 ^ 63"
  moreover have "i64_nat x < 256 ^ 8" using i64_nat_bound [of x] by simp
  ultimately show "readI64 (pre @ le_bytes 8 (i64_nat x) @ post) (length pre) what =
      Inr (x, length pre + length (le_bytes 8 (i64_nat x)))"
    using i64_roundtrip [of x] by (simp add: readI64_def need_def readIntLE64_def le_val_le_bytes)
qed

interpretation u32_codec: le_codec "\<lambda>w :: 32 word. le_bytes 4 (unat w)" readU32 "\<lambda>w. int (unat w)" "\<lambda>_. True"
proof unfold_locales
  fix x :: "32 word" and pre post :: bytes and what :: string
  have "unat x < 256 ^ 4" using unat_bound [of x] by simp
  then show "readU32 (pre @ le_bytes 4 (unat x) @ post) (length pre) what =
      Inr (int (unat x), length pre + length (le_bytes 4 (unat x)))"
    by (simp add: readU32_def need_def readUIntLE_def le_val_le_bytes)
qed

interpretation u8_codec: le_codec "\<lambda>w :: 8 word. [w]" readU8 "\<lambda>w. int (unat w)" "\<lambda>_. True"
  by unfold_locales (simp add: readU8_def need_def readUIntLE_def)

interpretation key_codec: le_codec "\<lambda>k. k" "readPubkey pk" pk "\<lambda>k. length k = 32" for pk :: "bytes \<Rightarrow> 'k"
  by unfold_locales (simp add: readPubkey_def need_def slice_def)

text \<open>A purpose as the program stores it: its byte length, then its bytes.\<close>

definition string_image :: "bytes \<Rightarrow> bytes" where
  "string_image s = le_bytes 4 (length s) @ s"

interpretation string_codec: le_codec string_image "\<lambda>bs p what. readString utf8 bs p" utf8 "\<lambda>s. length s \<le> 64"
  for utf8 :: "bytes \<Rightarrow> string"
proof unfold_locales
  fix x pre post :: bytes and what :: string
  assume len: "length x \<le> 64"
  then have small: "length x < 2 ^ 32" by simp
  then have "readU32 (pre @ le_bytes 4 (length x) @ x @ post) (length pre) ''purpose length'' =
      Inr (int (length x), length pre + 4)"
    using u32_codec.read_image [where x = "of_nat (length x)" and pre = pre and post = "x @ post"
        and what = "''purpose length''"]
    by (simp add: unat_of_nat)
  then show "readString utf8 (pre @ string_image x @ post) (length pre) =
      Inr (utf8 x, length pre + length (string_image x))"
    using len by (simp add: readString_def string_image_def need_def slice_def)
qed

end
