(* ===== verification/Ring_Store.thy ===== *)
theory Ring_Store
  imports Prelude
begin

text \<open>
  The contract of a bounded decision ring: the program writes one entry at a time with
  \<open>put\<close>, a client reads the slots back oldest first. Three accounts of the program have this
  shape (the mandate ledger, the Hold ledger and the trade ledger), and four TypeScript decoders
  read it. The locale proves once that what a client reads is the most recent part of what was
  written; the interpretations are in the theories of the three writers.
\<close>

definition oldest_first :: "nat \<Rightarrow> 'e list \<Rightarrow> nat \<Rightarrow> nat \<Rightarrow> 'e list" where
  "oldest_first capacity slots written head =
     (let occupied = min written capacity;
          start = (if written \<ge> capacity then head mod capacity else 0)
      in map (\<lambda>i. slots ! ((start + i) mod capacity)) [0..<occupied])"

lemma oldest_first_map:
  assumes "length s = c"
  shows "oldest_first c (map f s) t h = map f (oldest_first c s t h)"
proof (cases "c = 0")
  case False
  then have "\<And>i. i mod c < length s" using assms by simp
  then show ?thesis by (simp add: oldest_first_def Let_def)
qed (simp add: oldest_first_def)

lemma length_oldest_first [simp]: "length (oldest_first c s t h) = min t c"
  by (simp add: oldest_first_def Let_def)

locale ring_store =
  fixes capacity :: nat
    and total_max :: nat
    and slots :: "'s \<Rightarrow> 'e list"
    and head :: "'s \<Rightarrow> nat"
    and written :: "'s \<Rightarrow> nat"
    and put :: "'s \<Rightarrow> 'e \<Rightarrow> 's"
  assumes capacity_pos: "0 < capacity"
    and total_max_ge: "capacity \<le> total_max"
    and put_slots: "slots (put s e) = (slots s)[head s mod capacity := e]"
    and put_head: "head (put s e) = (head s mod capacity + 1) mod capacity"
    and put_written: "written (put s e) = min total_max (written s + 1)"
begin

definition fresh :: "'s \<Rightarrow> bool" where
  "fresh s = (length (slots s) = capacity \<and> head s = 0 \<and> written s = 0)"

definition window :: "'s \<Rightarrow> 'e list" where
  "window s = oldest_first capacity (slots s) (written s) (head s)"

definition holds :: "'s \<Rightarrow> 'e list \<Rightarrow> bool" where
  "holds s es =
     (length (slots s) = capacity \<and> head s = length es mod capacity \<and>
      written s = min total_max (length es) \<and>
      (\<forall>j < length es. length es - capacity \<le> j \<longrightarrow> slots s ! (j mod capacity) = es ! j))"

lemma holds_fresh: "fresh s \<Longrightarrow> holds s []"
  by (simp add: fresh_def holds_def)

lemma mod_cong_window:
  assumes "j < n" "n - capacity \<le> j" "j mod capacity = n mod capacity"
  shows "j = n - capacity"
proof -
  from assms have "capacity dvd n - j" by (metis less_imp_le mod_eq_dvd_iff_nat)
  moreover have "0 < n - j" "n - j \<le> capacity" using assms by arith+
  ultimately have "n - j = capacity" by (metis dvd_imp_le le_antisym)
  then show ?thesis using assms(1) by arith
qed

lemma holds_put:
  assumes "holds s es"
  shows "holds (put s e) (es @ [e])"
proof -
  let ?n = "length es"
  have len: "length (slots s) = capacity" and hd: "head s = ?n mod capacity"
    and tot: "written s = min total_max ?n"
    and at: "\<And>j. j < ?n \<Longrightarrow> ?n - capacity \<le> j \<Longrightarrow> slots s ! (j mod capacity) = es ! j"
    using assms by (auto simp: holds_def)
  have "slots (put s e) ! (j mod capacity) = (es @ [e]) ! j"
    if j: "j < Suc ?n" "Suc ?n - capacity \<le> j" for j
  proof (cases "j = ?n")
    case True
    then show ?thesis using capacity_pos len hd by (simp add: put_slots)
  next
    case False
    then have lt: "j < ?n" using j by simp
    have "j mod capacity \<noteq> ?n mod capacity"
      using mod_cong_window [of j ?n] lt j capacity_pos by fastforce
    then show ?thesis using at [of j] lt j hd by (simp add: put_slots nth_append)
  qed
  moreover have "(?n mod capacity mod capacity + 1) mod capacity = Suc ?n mod capacity"
    by (simp add: mod_Suc_eq)
  ultimately show ?thesis
    using len hd tot by (auto simp: holds_def put_slots put_head put_written)
qed

lemma holds_puts: "holds s es \<Longrightarrow> holds (foldl put s fs) (es @ fs)"
proof (induction fs arbitrary: s es)
  case (Cons f fs)
  then show ?case using holds_put [of s es f] by fastforce
qed simp

lemma window_of_holds:
  assumes "holds s es"
  shows "window s = drop (length es - capacity) es"
proof (rule nth_equalityI)
  let ?n = "length es"
  have tot: "written s = min total_max ?n" and hd: "head s = ?n mod capacity"
    and at: "\<And>j. j < ?n \<Longrightarrow> ?n - capacity \<le> j \<Longrightarrow> slots s ! (j mod capacity) = es ! j"
    using assms by (auto simp: holds_def)
  show len: "length (window s) = length (drop (?n - capacity) es)"
    using tot total_max_ge by (simp add: window_def)
  fix i assume "i < length (window s)"
  then have i: "i < min ?n capacity" using tot total_max_ge by (simp add: window_def)
  let ?j = "?n - capacity + i"
  have j: "?j < ?n" "?n - capacity \<le> ?j" using i by auto
  have pos: "((if written s \<ge> capacity then head s mod capacity else 0) + i) mod capacity = ?j mod capacity"
  proof (cases "capacity \<le> ?n")
    case True
    then have "written s \<ge> capacity" using tot total_max_ge by simp
    moreover have "(?n + i) mod capacity = ?j mod capacity"
      using True mod_add_self2 [of "?n - capacity + i" capacity] by simp
    ultimately show ?thesis using hd by (simp add: mod_add_left_eq)
  next
    case False
    then have "\<not> written s \<ge> capacity" using tot by simp
    then show ?thesis using False by simp
  qed
  have "window s ! i = slots s ! (?j mod capacity)"
    using i tot total_max_ge pos by (simp add: window_def oldest_first_def Let_def)
  also have "\<dots> = es ! ?j" using at j by simp
  finally show "window s ! i = drop (?n - capacity) es ! i" using j by simp
qed

lemma window_puts:
  assumes "fresh s"
  shows "window (foldl put s es) = drop (length es - capacity) es"
  using window_of_holds [OF holds_puts [OF holds_fresh [OF assms]]] by simp

lemma last_window:
  assumes "fresh s" "es \<noteq> []"
  shows "window (foldl put s es) \<noteq> [] \<and> last (window (foldl put s es)) = last es"
proof -
  have "length es - capacity < length es"
    using assms(2) capacity_pos by (cases es) simp_all
  with assms show ?thesis by (simp add: window_puts last_drop)
qed

lemma written_puts: "fresh s \<Longrightarrow> written (foldl put s es) = min total_max (length es)"
  using holds_puts [OF holds_fresh, of s es] by (simp add: holds_def)

lemma slots_puts: "fresh s \<Longrightarrow> length (slots (foldl put s es)) = capacity"
  using holds_puts [OF holds_fresh, of s es] by (simp add: holds_def)

lemma head_puts: "fresh s \<Longrightarrow> head (foldl put s es) < capacity"
  using holds_puts [OF holds_fresh, of s es] capacity_pos by (simp add: holds_def)

end

end
