(* ===== verification/Mandate_Program.thy ===== *)
theory Mandate_Program
  imports Layout Ring_Store
begin

text \<open>
  The mandate part of the on-chain program (\<^verbatim>\<open>programs/veto/src/lib.rs\<close> and
  \<^verbatim>\<open>state.rs\<close>): the policy evaluation, \<open>open_mandate\<close>, \<open>charge\<close>, \<open>grant_override\<close>,
  \<open>revoke_mandate\<close> and the decision ledger. It is the counterpart every TypeScript client of the
  repository decodes, predicts and guards. \<open>u64\<close> values are \<^typ>\<open>64 word\<close>, so the checked and
  saturating additions of the source are written on the width they have. The clock value is an
  \<^typ>\<open>int\<close>. Code outside the repository is a parameter: \<open>pda\<close> is
  \<open>Pubkey::create_program_address\<close> on the mandate seeds, \<open>xfer\<close>, \<open>approve\<close> and \<open>revoke\<close> are the
  token program's \<open>transfer_checked\<close>, \<open>approve_checked\<close> and \<open>revoke\<close>.
\<close>

unbundle bit_operations_syntax

type_synonym u8 = "8 word"
type_synonym u16 = "16 word"
type_synonym u32 = "32 word"
type_synonym u64 = "64 word"
type_synonym pubkey = bytes

section \<open>State\<close>

definition STATUS_ACTIVE :: u8 where "STATUS_ACTIVE = 0"
definition STATUS_REVOKED :: u8 where "STATUS_REVOKED = 1"
definition STATUS_EXHAUSTED :: u8 where "STATUS_EXHAUSTED = 2"
definition STATUS_EXPIRED :: u8 where "STATUS_EXPIRED = 3"

definition KIND_OPENED :: u8 where "KIND_OPENED = 0"
definition KIND_PAID :: u8 where "KIND_PAID = 1"
definition KIND_REFUSED :: u8 where "KIND_REFUSED = 2"
definition KIND_OVERRIDE :: u8 where "KIND_OVERRIDE = 3"
definition KIND_REVOKED :: u8 where "KIND_REVOKED = 4"

definition REASON_OK :: u8 where "REASON_OK = 0"
definition REASON_NOT_ACTIVE :: u8 where "REASON_NOT_ACTIVE = 1"
definition REASON_EXPIRED :: u8 where "REASON_EXPIRED = 2"
definition REASON_STALE_NONCE :: u8 where "REASON_STALE_NONCE = 3"
definition REASON_MERCHANT_NOT_ALLOWED :: u8 where "REASON_MERCHANT_NOT_ALLOWED = 4"
definition REASON_OVER_PER_TX_MAX :: u8 where "REASON_OVER_PER_TX_MAX = 5"
definition REASON_OVER_CAP :: u8 where "REASON_OVER_CAP = 6"
definition REASON_DELEGATE_MISSING :: u8 where "REASON_DELEGATE_MISSING = 7"
definition REASON_INSUFFICIENT_FUNDS :: u8 where "REASON_INSUFFICIENT_FUNDS = 8"
definition REASON_ZERO_AMOUNT :: u8 where "REASON_ZERO_AMOUNT = 9"
definition REASON_ACCOUNT_FROZEN :: u8 where "REASON_ACCOUNT_FROZEN = 10"

lemmas status_defs = STATUS_ACTIVE_def STATUS_REVOKED_def STATUS_EXHAUSTED_def STATUS_EXPIRED_def
lemmas kind_defs = KIND_OPENED_def KIND_PAID_def KIND_REFUSED_def KIND_OVERRIDE_def KIND_REVOKED_def
lemmas reason_defs = REASON_OK_def REASON_NOT_ACTIVE_def REASON_EXPIRED_def REASON_STALE_NONCE_def
  REASON_MERCHANT_NOT_ALLOWED_def REASON_OVER_PER_TX_MAX_def REASON_OVER_CAP_def
  REASON_DELEGATE_MISSING_def REASON_INSUFFICIENT_FUNDS_def REASON_ZERO_AMOUNT_def
  REASON_ACCOUNT_FROZEN_def

record Mandate =
  m_owner :: pubkey
  m_agent :: pubkey
  m_mint :: pubkey
  m_source :: pubkey
  m_merchant :: pubkey
  m_mandate_id :: u64
  m_cap :: u64
  m_spent :: u64
  m_per_tx_max :: u64
  m_expires_at :: int
  m_override_amount :: u64
  m_override_nonce :: u64
  m_last_nonce :: u64
  m_purpose :: bytes
  m_status :: u8
  m_spend_count :: u32
  m_refusal_count :: u32
  m_bump :: u8

record Entry =
  en_ts :: int
  en_amount :: u64
  en_counterparty :: pubkey
  en_nonce :: u64
  en_suggested_override :: u64
  en_kind :: u8
  en_reason :: u8

record Ledger =
  l_mandate :: pubkey
  l_total :: u32
  l_head :: u16
  l_bump :: u8
  l_entries :: "Entry list"

definition LEDGER_CAPACITY :: nat where "LEDGER_CAPACITY = 32"

definition checked_add :: "u64 \<Rightarrow> u64 \<Rightarrow> u64 option" where
  "checked_add a b = (if unat a + unat b < 2 ^ 64 then Some (a + b) else None)"

definition saturating_add32 :: "u32 \<Rightarrow> u32 \<Rightarrow> u32" where
  "saturating_add32 a b = (if unat a + unat b < 2 ^ 32 then a + b else 4294967295)"

definition saturating_sub :: "u64 \<Rightarrow> u64 \<Rightarrow> u64" where
  "saturating_sub a b = (if b \<le> a then a - b else 0)"

definition effective_per_tx_max :: "Mandate \<Rightarrow> u64 \<Rightarrow> u64" where
  "effective_per_tx_max m nonce =
     (if m_override_nonce m \<noteq> 0 \<and> m_override_nonce m = nonce
      then max (m_per_tx_max m) (m_override_amount m) else m_per_tx_max m)"

definition remaining :: "Mandate \<Rightarrow> u64" where
  "remaining m = saturating_sub (m_cap m) (m_spent m)"

definition ledger_record :: "Ledger \<Rightarrow> Entry \<Rightarrow> Ledger" where
  "ledger_record l e =
     (let slot = unat (l_head l) mod LEDGER_CAPACITY
      in l\<lparr>l_entries := (l_entries l)[slot := e],
           l_head := of_nat ((slot + 1) mod LEDGER_CAPACITY),
           l_total := saturating_add32 (l_total l) 1\<rparr>)"

section \<open>Policy\<close>

text \<open>What the program reads of an SPL token account.\<close>

record token_account =
  t_key :: pubkey
  t_mint :: pubkey
  t_owner :: pubkey
  t_amount :: u64
  t_delegate :: "pubkey option"
  t_delegated_amount :: u64
  t_frozen :: bool

definition evaluate ::
  "Mandate \<Rightarrow> pubkey \<Rightarrow> token_account \<Rightarrow> token_account \<Rightarrow> u64 \<Rightarrow> u64 \<Rightarrow> int \<Rightarrow> u8" where
  "evaluate m key source destination amount nonce now =
     (if m_status m \<noteq> STATUS_ACTIVE then REASON_NOT_ACTIVE
      else if now \<ge> m_expires_at m then REASON_EXPIRED
      else if amount = 0 then REASON_ZERO_AMOUNT
      else if nonce \<le> m_last_nonce m then REASON_STALE_NONCE
      else if t_owner destination \<noteq> m_merchant m then REASON_MERCHANT_NOT_ALLOWED
      else if amount > effective_per_tx_max m nonce then REASON_OVER_PER_TX_MAX
      else if \<not> (case checked_add (m_spent m) amount of Some t \<Rightarrow> t \<le> m_cap m | None \<Rightarrow> False)
        then REASON_OVER_CAP
      else if t_delegate source \<noteq> Some key then REASON_DELEGATE_MISSING
      else if t_delegated_amount source < amount \<or> t_amount source < amount
        then REASON_INSUFFICIENT_FUNDS
      else if t_frozen source \<or> t_frozen destination then REASON_ACCOUNT_FROZEN
      else REASON_OK)"

definition suggested_override :: "Mandate \<Rightarrow> u8 \<Rightarrow> u64 \<Rightarrow> u64" where
  "suggested_override m reason amount =
     (if reason = REASON_OVER_PER_TX_MAX \<and> amount \<le> remaining m then amount else 0)"

section \<open>Instructions\<close>

datatype veto_error =
    CapMustBePositive | PerTxMaxMustBePositive | PerTxMaxAboveCap | ExpiryInThePast
  | PurposeTooLong | MerchantRequired | AgentMustNotBeOwner | MintMismatch | SourceMismatch
  | NotTheAgent | NotTheOwner | InvalidMandatePda | MandateNotActive | NonceRequired
  | AmountMustBePositive | OverrideAboveCap | MathOverflow | NonceAlreadySettled
  | TokenProgramError

record mandate_accounts =
  ca_signer :: pubkey
  ca_mandate_key :: pubkey
  ca_mandate :: Mandate
  ca_ledger :: Ledger
  ca_source :: token_account
  ca_destination :: token_account
  ca_mint :: pubkey

text \<open>\<open>purpose.chars().count()\<close>: the bytes of a UTF-8 string that are not continuation bytes.\<close>

definition utf8_chars :: "bytes \<Rightarrow> nat" where
  "utf8_chars s = length (filter (\<lambda>b. b AND 192 \<noteq> 128) s)"

record OpenMandateArgs =
  oa_mandate_id :: u64
  oa_agent :: pubkey
  oa_merchant :: pubkey
  oa_cap :: u64
  oa_per_tx_max :: u64
  oa_expires_at :: int
  oa_purpose :: bytes

definition opened_mandate :: "mandate_accounts \<Rightarrow> OpenMandateArgs \<Rightarrow> u8 \<Rightarrow> Mandate" where
  "opened_mandate acc args bump =
     \<lparr>m_owner = ca_signer acc, m_agent = oa_agent args, m_mint = ca_mint acc,
      m_source = t_key (ca_source acc), m_merchant = oa_merchant args,
      m_mandate_id = oa_mandate_id args, m_cap = oa_cap args, m_spent = 0,
      m_per_tx_max = oa_per_tx_max args, m_expires_at = oa_expires_at args,
      m_override_amount = 0, m_override_nonce = 0, m_last_nonce = 0,
      m_purpose = oa_purpose args, m_status = STATUS_ACTIVE, m_spend_count = 0,
      m_refusal_count = 0, m_bump = bump\<rparr>"

definition opened_entry :: "OpenMandateArgs \<Rightarrow> int \<Rightarrow> Entry" where
  "opened_entry args now =
     \<lparr>en_ts = now, en_amount = oa_cap args, en_counterparty = oa_merchant args, en_nonce = 0,
      en_suggested_override = 0, en_kind = KIND_OPENED, en_reason = REASON_OK\<rparr>"

definition open_mandate ::
  "(token_account \<Rightarrow> pubkey \<Rightarrow> u64 \<Rightarrow> token_account option) \<Rightarrow> mandate_accounts \<Rightarrow>
   OpenMandateArgs \<Rightarrow> u8 \<Rightarrow> u8 \<Rightarrow> int \<Rightarrow> veto_error + mandate_accounts" where
  "open_mandate approve acc args bump lbump now =
     (if \<not> oa_cap args > 0 then Inl CapMustBePositive
      else if \<not> oa_per_tx_max args > 0 then Inl PerTxMaxMustBePositive
      else if \<not> oa_per_tx_max args \<le> oa_cap args then Inl PerTxMaxAboveCap
      else if \<not> oa_expires_at args > now then Inl ExpiryInThePast
      else if \<not> utf8_chars (oa_purpose args) \<le> 64 then Inl PurposeTooLong
      else if oa_merchant args = replicate 32 0 then Inl MerchantRequired
      else if oa_agent args = ca_signer acc then Inl AgentMustNotBeOwner
      else
        let l0 = (ca_ledger acc)\<lparr>l_mandate := ca_mandate_key acc, l_head := 0, l_total := 0,
                   l_bump := lbump\<rparr>
        in case approve (ca_source acc) (ca_mandate_key acc) (oa_cap args) of
             None \<Rightarrow> Inl TokenProgramError
           | Some src \<Rightarrow> Inr (acc\<lparr>ca_mandate := opened_mandate acc args bump,
                                 ca_ledger := ledger_record l0 (opened_entry args now),
                                 ca_source := src\<rparr>))"

definition charge_entry :: "mandate_accounts \<Rightarrow> u64 \<Rightarrow> u64 \<Rightarrow> int \<Rightarrow> Entry" where
  "charge_entry acc amount nonce now =
     (let m = ca_mandate acc;
          r = evaluate m (ca_mandate_key acc) (ca_source acc) (ca_destination acc) amount nonce now
      in \<lparr>en_ts = now, en_amount = amount, en_counterparty = t_key (ca_destination acc),
          en_nonce = nonce,
          en_suggested_override = (if r = REASON_OK then 0 else suggested_override m r amount),
          en_kind = (if r = REASON_OK then KIND_PAID else KIND_REFUSED),
          en_reason = r\<rparr>)"

definition paid_mandate :: "Mandate \<Rightarrow> u64 \<Rightarrow> u64 \<Rightarrow> u64 \<Rightarrow> Mandate" where
  "paid_mandate m spent amount nonce =
     (let m1 = m\<lparr>m_spent := spent, m_spend_count := saturating_add32 (m_spend_count m) 1,
                 m_last_nonce := nonce\<rparr>;
          m2 = (if m_override_nonce m1 = nonce
                then m1\<lparr>m_override_nonce := 0, m_override_amount := 0\<rparr> else m1)
      in if m_spent m2 \<ge> m_cap m2 then m2\<lparr>m_status := STATUS_EXHAUSTED\<rparr> else m2)"

definition refused_mandate :: "Mandate \<Rightarrow> u8 \<Rightarrow> Mandate" where
  "refused_mandate m reason =
     (let m1 = (if reason = REASON_EXPIRED \<and> m_status m = STATUS_ACTIVE
                then m\<lparr>m_status := STATUS_EXPIRED\<rparr> else m)
      in m1\<lparr>m_refusal_count := saturating_add32 (m_refusal_count m1) 1\<rparr>)"

definition charge ::
  "(pubkey \<Rightarrow> u64 \<Rightarrow> u8 \<Rightarrow> pubkey option) \<Rightarrow>
   (token_account \<Rightarrow> token_account \<Rightarrow> u64 \<Rightarrow> (token_account \<times> token_account) option) \<Rightarrow>
   mandate_accounts \<Rightarrow> u64 \<Rightarrow> u64 \<Rightarrow> int \<Rightarrow> veto_error + mandate_accounts" where
  "charge pda xfer acc amount nonce now =
     (let m = ca_mandate acc in
      if m_agent m \<noteq> ca_signer acc then Inl NotTheAgent
      else if m_mint m \<noteq> ca_mint acc then Inl MintMismatch
      else if m_source m \<noteq> t_key (ca_source acc) then Inl SourceMismatch
      else if t_mint (ca_destination acc) \<noteq> m_mint m then Inl MintMismatch
      else if pda (m_owner m) (m_mandate_id m) (m_bump m) \<noteq> Some (ca_mandate_key acc)
        then Inl InvalidMandatePda
      else
        let r = evaluate m (ca_mandate_key acc) (ca_source acc) (ca_destination acc) amount nonce now;
            e = charge_entry acc amount nonce now
        in if r = REASON_OK then
             (case xfer (ca_source acc) (ca_destination acc) amount of
                None \<Rightarrow> Inl TokenProgramError
              | Some (src, dst) \<Rightarrow>
                  (case checked_add (m_spent m) amount of
                     None \<Rightarrow> Inl MathOverflow
                   | Some t \<Rightarrow> Inr (acc\<lparr>ca_mandate := paid_mandate m t amount nonce,
                                        ca_ledger := ledger_record (ca_ledger acc) e,
                                        ca_source := src, ca_destination := dst\<rparr>)))
           else Inr (acc\<lparr>ca_mandate := refused_mandate m r,
                         ca_ledger := ledger_record (ca_ledger acc) e\<rparr>))"

definition override_entry :: "Mandate \<Rightarrow> u64 \<Rightarrow> u64 \<Rightarrow> int \<Rightarrow> Entry" where
  "override_entry m amount nonce now =
     \<lparr>en_ts = now, en_amount = amount, en_counterparty = m_merchant m, en_nonce = nonce,
      en_suggested_override = amount, en_kind = KIND_OVERRIDE, en_reason = REASON_OK\<rparr>"

definition grant_override ::
  "mandate_accounts \<Rightarrow> u64 \<Rightarrow> u64 \<Rightarrow> int \<Rightarrow> veto_error + mandate_accounts" where
  "grant_override acc amount nonce now =
     (let m = ca_mandate acc in
      if m_owner m \<noteq> ca_signer acc then Inl NotTheOwner
      else if m_source m \<noteq> t_key (ca_source acc) then Inl SourceMismatch
      else if \<not> nonce \<noteq> 0 then Inl NonceRequired
      else if \<not> amount > 0 then Inl AmountMustBePositive
      else if \<not> m_status m = STATUS_ACTIVE then Inl MandateNotActive
      else if \<not> nonce > m_last_nonce m then Inl NonceAlreadySettled
      else if \<not> amount \<le> remaining m then Inl OverrideAboveCap
      else Inr (acc\<lparr>ca_mandate := m\<lparr>m_override_amount := amount, m_override_nonce := nonce\<rparr>,
                    ca_ledger := ledger_record (ca_ledger acc) (override_entry m amount nonce now)\<rparr>))"

definition revoked_entry :: "Mandate \<Rightarrow> int \<Rightarrow> Entry" where
  "revoked_entry m now =
     \<lparr>en_ts = now, en_amount = 0, en_counterparty = m_merchant m, en_nonce = 0,
      en_suggested_override = 0, en_kind = KIND_REVOKED, en_reason = REASON_OK\<rparr>"

definition revoke_mandate ::
  "(token_account \<Rightarrow> token_account option) \<Rightarrow> mandate_accounts \<Rightarrow> int \<Rightarrow>
   veto_error + mandate_accounts" where
  "revoke_mandate revoke acc now =
     (let m = ca_mandate acc in
      if m_owner m \<noteq> ca_signer acc then Inl NotTheOwner
      else if m_source m \<noteq> t_key (ca_source acc) then Inl SourceMismatch
      else if \<not> m_status m \<noteq> STATUS_REVOKED then Inl MandateNotActive
      else case revoke (ca_source acc) of
             None \<Rightarrow> Inl TokenProgramError
           | Some src \<Rightarrow>
               Inr (acc\<lparr>ca_mandate := m\<lparr>m_status := STATUS_REVOKED, m_override_amount := 0,
                                        m_override_nonce := 0\<rparr>,
                        ca_ledger := ledger_record (ca_ledger acc) (revoked_entry m now),
                        ca_source := src\<rparr>))"

section \<open>The ledger is a ring\<close>

lemma unat_saturating_add32: "unat (saturating_add32 a 1) = min 4294967295 (unat a + 1)"
proof (cases "unat a + 1 < 2 ^ 32")
  case True
  then show ?thesis by (simp add: saturating_add32_def unat_word_ariths)
next
  case False
  moreover have "unat a < 2 ^ 32" using unat_bound [of a] by simp
  ultimately have "unat a = 4294967295" by simp
  then show ?thesis by (simp add: saturating_add32_def)
qed

interpretation ledger: ring_store LEDGER_CAPACITY 4294967295 l_entries "\<lambda>l. unat (l_head l)" "\<lambda>l. unat (l_total l)" ledger_record
proof unfold_locales
  show "0 < LEDGER_CAPACITY" "LEDGER_CAPACITY \<le> 4294967295"
    by (simp_all add: LEDGER_CAPACITY_def)
  fix l e
  show "l_entries (ledger_record l e) = (l_entries l)[unat (l_head l) mod LEDGER_CAPACITY := e]"
    by (simp add: ledger_record_def Let_def)
  have "(unat (l_head l) mod LEDGER_CAPACITY + 1) mod LEDGER_CAPACITY < 2 ^ 16"
    by (simp add: LEDGER_CAPACITY_def)
  then show "unat (l_head (ledger_record l e)) =
      (unat (l_head l) mod LEDGER_CAPACITY + 1) mod LEDGER_CAPACITY"
    by (simp add: ledger_record_def Let_def unat_of_nat)
  show "unat (l_total (ledger_record l e)) = min 4294967295 (unat (l_total l) + 1)"
    by (simp add: ledger_record_def Let_def unat_saturating_add32)
qed

section \<open>Reachable mandates\<close>

text \<open>
  A mandate with its ledger after any sequence of successful instructions, together with every
  entry ever recorded, oldest first. Accounts other than the mandate and the ledger (signer,
  token accounts, clock) are whatever the transaction carries.
\<close>

inductive reach ::
  "(pubkey \<Rightarrow> u64 \<Rightarrow> u8 \<Rightarrow> pubkey option) \<Rightarrow>
   (token_account \<Rightarrow> token_account \<Rightarrow> u64 \<Rightarrow> (token_account \<times> token_account) option) \<Rightarrow>
   (token_account \<Rightarrow> pubkey \<Rightarrow> u64 \<Rightarrow> token_account option) \<Rightarrow>
   (token_account \<Rightarrow> token_account option) \<Rightarrow> OpenMandateArgs \<Rightarrow> Mandate \<Rightarrow> Ledger \<Rightarrow> Entry list \<Rightarrow> bool"
  for pda xfer approve revoke args where
  opened: "open_mandate approve acc args bump lbump now = Inr acc' \<Longrightarrow>
     length (l_entries (ca_ledger acc)) = LEDGER_CAPACITY \<Longrightarrow>
     reach pda xfer approve revoke args (ca_mandate acc') (ca_ledger acc') [opened_entry args now]"
| charged: "reach pda xfer approve revoke args (ca_mandate acc) (ca_ledger acc) es \<Longrightarrow>
     charge pda xfer acc amount nonce now = Inr acc' \<Longrightarrow>
     reach pda xfer approve revoke args (ca_mandate acc') (ca_ledger acc')
       (es @ [charge_entry acc amount nonce now])"
| granted: "reach pda xfer approve revoke args (ca_mandate acc) (ca_ledger acc) es \<Longrightarrow>
     grant_override acc amount nonce now = Inr acc' \<Longrightarrow>
     reach pda xfer approve revoke args (ca_mandate acc') (ca_ledger acc')
       (es @ [override_entry (ca_mandate acc) amount nonce now])"
| revoked: "reach pda xfer approve revoke args (ca_mandate acc) (ca_ledger acc) es \<Longrightarrow>
     revoke_mandate revoke acc now = Inr acc' \<Longrightarrow>
     reach pda xfer approve revoke args (ca_mandate acc') (ca_ledger acc')
       (es @ [revoked_entry (ca_mandate acc) now])"

definition paid_entries :: "Entry list \<Rightarrow> Entry list" where
  "paid_entries es = filter (\<lambda>e. en_kind e = KIND_PAID) es"

definition paid_total :: "Entry list \<Rightarrow> nat" where
  "paid_total es = sum_list (map (\<lambda>e. unat (en_amount e)) (paid_entries es))"

lemma paid_entries_snoc [simp]:
  "paid_entries (es @ [e]) = paid_entries es @ (if en_kind e = KIND_PAID then [e] else [])"
  by (simp add: paid_entries_def)

lemma paid_total_snoc [simp]:
  "paid_total (es @ [e]) = paid_total es + (if en_kind e = KIND_PAID then unat (en_amount e) else 0)"
  by (simp add: paid_total_def)

lemma entry_kinds [simp]:
  "en_kind (opened_entry args now) = KIND_OPENED"
  "en_kind (override_entry m a n now) = KIND_OVERRIDE"
  "en_kind (revoked_entry m now) = KIND_REVOKED"
  by (simp_all add: opened_entry_def override_entry_def revoked_entry_def)

lemma kind_distinct [simp]:
  "KIND_OPENED \<noteq> KIND_PAID" "KIND_OVERRIDE \<noteq> KIND_PAID" "KIND_REVOKED \<noteq> KIND_PAID"
  "KIND_REFUSED \<noteq> KIND_PAID" "KIND_PAID \<noteq> KIND_REFUSED"
  by (simp_all add: kind_defs)

text \<open>When \<open>evaluate\<close> answers OK, every limit holds; the checked addition did not overflow.\<close>

lemma checked_add_Some: "checked_add a b = Some t \<longleftrightarrow> unat a + unat b < 2 ^ 64 \<and> t = a + b"
  by (auto simp: checked_add_def)

lemma evaluate_OK_iff:
  "evaluate m key src dst amount nonce now = REASON_OK \<longleftrightarrow>
     m_status m = STATUS_ACTIVE \<and> now < m_expires_at m \<and> amount \<noteq> 0 \<and> m_last_nonce m < nonce \<and>
     t_owner dst = m_merchant m \<and> amount \<le> effective_per_tx_max m nonce \<and>
     unat (m_spent m) + unat amount < 2 ^ 64 \<and> m_spent m + amount \<le> m_cap m \<and>
     t_delegate src = Some key \<and> amount \<le> t_delegated_amount src \<and> amount \<le> t_amount src \<and>
     \<not> t_frozen src \<and> \<not> t_frozen dst"
proof -
  have cap: "(case checked_add (m_spent m) amount of Some t \<Rightarrow> t \<le> m_cap m | None \<Rightarrow> False) \<longleftrightarrow>
      unat (m_spent m) + unat amount < 2 ^ 64 \<and> m_spent m + amount \<le> m_cap m"
    by (simp add: checked_add_def)
  show ?thesis
    unfolding evaluate_def cap by (auto simp: reason_defs not_less not_le)
qed

text \<open>The shape of a successful charge: paid or refused, always with its entry recorded.\<close>

lemma charge_cases:
  assumes "charge pda xfer acc amount nonce now = Inr acc'"
  obtains (paid) src dst t where
      "evaluate (ca_mandate acc) (ca_mandate_key acc) (ca_source acc) (ca_destination acc) amount nonce now = REASON_OK"
      "xfer (ca_source acc) (ca_destination acc) amount = Some (src, dst)"
      "checked_add (m_spent (ca_mandate acc)) amount = Some t"
      "acc' = acc\<lparr>ca_mandate := paid_mandate (ca_mandate acc) t amount nonce,
                  ca_ledger := ledger_record (ca_ledger acc) (charge_entry acc amount nonce now),
                  ca_source := src, ca_destination := dst\<rparr>"
      "en_kind (charge_entry acc amount nonce now) = KIND_PAID"
    | (refused) r where
      "evaluate (ca_mandate acc) (ca_mandate_key acc) (ca_source acc) (ca_destination acc) amount nonce now = r"
      "r \<noteq> REASON_OK"
      "acc' = acc\<lparr>ca_mandate := refused_mandate (ca_mandate acc) r,
                  ca_ledger := ledger_record (ca_ledger acc) (charge_entry acc amount nonce now)\<rparr>"
      "en_kind (charge_entry acc amount nonce now) = KIND_REFUSED"
  using assms
  by (auto simp: charge_def charge_entry_def Let_def split: if_splits option.splits)

text \<open>No instruction after the opening changes what the owner agreed to.\<close>

definition terms :: "Mandate \<Rightarrow> pubkey \<times> pubkey \<times> pubkey \<times> pubkey \<times> pubkey \<times> u64 \<times> u64 \<times> u64 \<times> int \<times> bytes" where
  "terms m = (m_owner m, m_agent m, m_mint m, m_source m, m_merchant m, m_mandate_id m, m_cap m,
              m_per_tx_max m, m_expires_at m, m_purpose m)"

lemma terms_paid [simp]: "terms (paid_mandate m t a n) = terms m"
  by (simp add: terms_def paid_mandate_def Let_def)

lemma terms_refused [simp]: "terms (refused_mandate m r) = terms m"
  by (simp add: terms_def refused_mandate_def Let_def)

lemma charge_terms: "charge pda xfer acc amount nonce now = Inr acc' \<Longrightarrow> terms (ca_mandate acc') = terms (ca_mandate acc)"
  by (erule charge_cases) simp_all

lemma grant_ok:
  assumes "grant_override acc amount nonce now = Inr acc'"
  shows "ca_mandate acc' = (ca_mandate acc)\<lparr>m_override_amount := amount, m_override_nonce := nonce\<rparr>"
    and "ca_ledger acc' = ledger_record (ca_ledger acc) (override_entry (ca_mandate acc) amount nonce now)"
    and "m_last_nonce (ca_mandate acc) < nonce"
  using assms by (auto simp: grant_override_def Let_def split: if_splits)

lemma revoke_ok:
  assumes "revoke_mandate revoke acc now = Inr acc'"
  shows "ca_mandate acc' = (ca_mandate acc)\<lparr>m_status := STATUS_REVOKED, m_override_amount := 0, m_override_nonce := 0\<rparr>"
    and "ca_ledger acc' = ledger_record (ca_ledger acc) (revoked_entry (ca_mandate acc) now)"
  using assms by (auto simp: revoke_mandate_def Let_def split: if_splits option.splits)

lemma open_ok:
  assumes "open_mandate approve acc args bump lbump now = Inr acc'"
  shows "ca_mandate acc' = opened_mandate acc args bump"
    and "ca_ledger acc' = ledger_record ((ca_ledger acc)\<lparr>l_mandate := ca_mandate_key acc, l_head := 0,
           l_total := 0, l_bump := lbump\<rparr>) (opened_entry args now)"
    and "0 < oa_cap args" "oa_per_tx_max args \<le> oa_cap args" "now < oa_expires_at args"
  using assms by (auto simp: open_mandate_def Let_def split: if_splits option.splits)

lemma paid_mandate_simps [simp]:
  "m_spent (paid_mandate m t a n) = t" "m_last_nonce (paid_mandate m t a n) = n"
  "m_cap (paid_mandate m t a n) = m_cap m"
  by (simp_all add: paid_mandate_def Let_def)

lemma refused_mandate_simps [simp]:
  "m_spent (refused_mandate m r) = m_spent m" "m_last_nonce (refused_mandate m r) = m_last_nonce m"
  "m_cap (refused_mandate m r) = m_cap m"
  by (simp_all add: refused_mandate_def Let_def)

lemma charge_entry_simps [simp]:
  "en_amount (charge_entry acc a n now) = a" "en_nonce (charge_entry acc a n now) = n"
  "en_counterparty (charge_entry acc a n now) = t_key (ca_destination acc)"
  by (simp_all add: charge_entry_def Let_def)

text \<open>
  The invariant: the money counted is the money recorded, it never passes the cap, and the
  recorded payments have nonces that rise strictly up to the stored one.
\<close>

definition mandate_inv :: "Mandate \<Rightarrow> Entry list \<Rightarrow> bool" where
  "mandate_inv m es =
     (unat (m_spent m) = paid_total es \<and> m_spent m \<le> m_cap m \<and>
      sorted_wrt (<) (map en_nonce (paid_entries es)) \<and>
      (\<forall>e \<in> set (paid_entries es). en_nonce e \<le> m_last_nonce m))"

lemma mandate_inv_charge:
  assumes "mandate_inv (ca_mandate acc) es" "charge pda xfer acc amount nonce now = Inr acc'"
  shows "mandate_inv (ca_mandate acc') (es @ [charge_entry acc amount nonce now])"
  using assms(2)
proof (cases rule: charge_cases)
  case (paid src dst t)
  then have lim: "m_last_nonce (ca_mandate acc) < nonce" "m_spent (ca_mandate acc) + amount \<le> m_cap (ca_mandate acc)"
    and t: "t = m_spent (ca_mandate acc) + amount" "unat t = unat (m_spent (ca_mandate acc)) + unat amount"
    by (auto simp: evaluate_OK_iff checked_add_Some unat_word_ariths)
  with assms(1) paid show ?thesis
    by (fastforce simp: mandate_inv_def sorted_wrt_append)
next
  case (refused r)
  with assms(1) show ?thesis by (simp add: mandate_inv_def)
qed

lemma reach_inv: "reach pda xfer approve revoke args m l es \<Longrightarrow> mandate_inv m es"
proof (induction rule: reach.induct)
  case (opened acc bump lbump now acc')
  then show ?case
    by (simp add: open_ok mandate_inv_def opened_mandate_def paid_total_def paid_entries_def)
next
  case (charged acc es amount nonce now acc')
  then show ?case by (simp add: mandate_inv_charge)
next
  case (granted acc es amount nonce now acc')
  then show ?case by (simp add: grant_ok mandate_inv_def)
next
  case (revoked acc es now acc')
  then show ?case by (simp add: revoke_ok mandate_inv_def)
qed

lemma charge_ledger:
  "charge pda xfer acc amount nonce now = Inr acc' \<Longrightarrow>
   ca_ledger acc' = ledger_record (ca_ledger acc) (charge_entry acc amount nonce now)"
  by (erule charge_cases) simp_all

lemma reach_ledger_holds: "reach pda xfer approve revoke args m l es \<Longrightarrow> ledger.holds l es"
proof (induction rule: reach.induct)
  case (opened acc bump lbump now acc')
  have "ledger.fresh ((ca_ledger acc)\<lparr>l_mandate := ca_mandate_key acc, l_head := 0, l_total := 0, l_bump := lbump\<rparr>)"
    using opened by (simp add: ledger.fresh_def)
  from ledger.holds_put [OF ledger.holds_fresh [OF this]] opened show ?case by (simp add: open_ok)
next
  case (charged acc es amount nonce now acc')
  then show ?case by (simp add: charge_ledger ledger.holds_put)
next
  case (granted acc es amount nonce now acc')
  then show ?case by (simp add: grant_ok ledger.holds_put)
next
  case (revoked acc es now acc')
  then show ?case by (simp add: revoke_ok ledger.holds_put)
qed

lemma reach_terms:
  "reach pda xfer approve revoke args m l es \<Longrightarrow>
   m_cap m = oa_cap args \<and> m_per_tx_max m = oa_per_tx_max args \<and> m_merchant m = oa_merchant args \<and>
   m_agent m = oa_agent args \<and> m_expires_at m = oa_expires_at args \<and> m_purpose m = oa_purpose args"
proof (induction rule: reach.induct)
  case (charged acc es amount nonce now acc')
  then show ?case using charge_terms [of pda xfer acc amount nonce now acc'] by (simp add: terms_def)
qed (simp_all add: open_ok opened_mandate_def grant_ok revoke_ok)

text \<open>A payment above the per-payment maximum has an override for its nonce before it.\<close>

definition covers :: "Entry \<Rightarrow> Entry \<Rightarrow> bool" where
  "covers ov e = (en_kind ov = KIND_OVERRIDE \<and> en_nonce ov = en_nonce e \<and> en_amount e \<le> en_amount ov)"

definition overrides_inv :: "Mandate \<Rightarrow> Entry list \<Rightarrow> bool" where
  "overrides_inv m es =
     ((m_override_nonce m \<noteq> 0 \<longrightarrow>
        (\<exists>ov \<in> set es. en_kind ov = KIND_OVERRIDE \<and> en_nonce ov = m_override_nonce m \<and>
           en_amount ov = m_override_amount m)) \<and>
      (\<forall>xs e ys. es = xs @ e # ys \<longrightarrow> en_kind e = KIND_PAID \<longrightarrow>
         en_amount e \<le> m_per_tx_max m \<or> (\<exists>ov \<in> set xs. covers ov e)))"

lemma snoc_split: "es @ [e'] = xs @ e # ys \<longleftrightarrow> (ys = [] \<and> es = xs \<and> e' = e) \<or> (\<exists>zs. ys = zs @ [e'] \<and> es = xs @ e # zs)"
  by (cases ys rule: rev_cases) auto

lemma overrides_inv_snoc:
  assumes "overrides_inv m es"
    and "m_per_tx_max m' = m_per_tx_max m"
    and "m_override_nonce m' \<noteq> 0 \<Longrightarrow>
      (m_override_nonce m' = m_override_nonce m \<and> m_override_amount m' = m_override_amount m) \<or>
      (en_kind e = KIND_OVERRIDE \<and> en_nonce e = m_override_nonce m' \<and> en_amount e = m_override_amount m')"
    and "en_kind e = KIND_PAID \<Longrightarrow> en_amount e \<le> m_per_tx_max m \<or> (\<exists>ov \<in> set es. covers ov e)"
  shows "overrides_inv m' (es @ [e])"
  using assms by (auto simp: overrides_inv_def snoc_split)

lemma paid_mandate_override:
  "m_per_tx_max (paid_mandate m t a n) = m_per_tx_max m"
  "m_override_nonce (paid_mandate m t a n) \<noteq> 0 \<Longrightarrow>
     m_override_nonce (paid_mandate m t a n) = m_override_nonce m \<and>
     m_override_amount (paid_mandate m t a n) = m_override_amount m"
  by (auto simp: paid_mandate_def Let_def split: if_splits)

lemma refused_mandate_override:
  "m_per_tx_max (refused_mandate m r) = m_per_tx_max m"
  "m_override_nonce (refused_mandate m r) = m_override_nonce m"
  "m_override_amount (refused_mandate m r) = m_override_amount m"
  by (simp_all add: refused_mandate_def Let_def)

lemma paid_within_ceiling:
  assumes "overrides_inv m es" "en_amount e \<le> effective_per_tx_max m (en_nonce e)"
  shows "en_amount e \<le> m_per_tx_max m \<or> (\<exists>ov \<in> set es. covers ov e)"
  using assms
  by (fastforce simp: overrides_inv_def effective_per_tx_max_def covers_def max_def split: if_splits)

lemma overrides_inv_charge:
  assumes "overrides_inv (ca_mandate acc) es" "charge pda xfer acc amount nonce now = Inr acc'"
  shows "overrides_inv (ca_mandate acc') (es @ [charge_entry acc amount nonce now])"
  using assms(2)
proof (cases rule: charge_cases)
  case (paid src dst t)
  have "amount \<le> effective_per_tx_max (ca_mandate acc) nonce"
    using paid(1) by (simp add: evaluate_OK_iff)
  then show ?thesis
    using paid assms(1) paid_within_ceiling [OF assms(1), of "charge_entry acc amount nonce now"]
      paid_mandate_override [of "ca_mandate acc" t amount nonce]
    by (intro overrides_inv_snoc [OF assms(1)]) simp_all
next
  case (refused r)
  then show ?thesis
    by (intro overrides_inv_snoc [OF assms(1)]) (auto simp: refused_mandate_override)
qed

lemma reach_overrides: "reach pda xfer approve revoke args m l es \<Longrightarrow> overrides_inv m es"
proof (induction rule: reach.induct)
  case (opened acc bump lbump now acc')
  then show ?case
    by (auto simp: open_ok overrides_inv_def opened_mandate_def opened_entry_def kind_defs
        append_eq_Cons_conv Cons_eq_append_conv)
next
  case (charged acc es amount nonce now acc')
  then show ?case by (simp add: overrides_inv_charge)
next
  case (granted acc es amount nonce now acc')
  then show ?case
    by (intro overrides_inv_snoc [of "ca_mandate acc"]) (auto simp: grant_ok override_entry_def kind_defs)
next
  case (revoked acc es now acc')
  then show ?case
    by (intro overrides_inv_snoc [of "ca_mandate acc"]) (auto simp: revoke_ok kind_defs)
qed

lemma reach_window:
  assumes "reach pda xfer approve revoke args m l es"
  shows "oldest_first LEDGER_CAPACITY (l_entries l) (unat (l_total l)) (unat (l_head l)) =
    drop (length es - LEDGER_CAPACITY) es"
  using ledger.window_of_holds [OF reach_ledger_holds [OF assms]] unfolding ledger.window_def .

lemma cap_room:
  assumes "amount \<le> remaining m" "m_spent m \<le> m_cap m"
  shows "unat (m_spent m) + unat amount < 2 ^ 64" "m_spent m + amount \<le> m_cap m"
proof -
  have "unat (m_spent m) + unat amount \<le> unat (m_cap m)"
    using assms by (simp add: remaining_def saturating_sub_def word_le_nat_alt unat_sub)
  moreover have "unat (m_cap m) < 2 ^ 64" using unat_bound [of "m_cap m"] by simp
  ultimately show "unat (m_spent m) + unat amount < 2 ^ 64" "m_spent m + amount \<le> m_cap m"
    by (simp_all add: word_le_nat_alt unat_word_ariths)
qed

section \<open>Properties of the mandate program\<close>

text \<open>C1: in every reachable state the amount counted as spent is exactly the sum of the payments
  ever recorded, and that sum never exceeds the cap the owner opened the mandate with. The cap,
  the per-payment maximum, the payee, the agent, the expiry and the purpose are still those of
  the opening.\<close>

theorem spending_within_cap:
  assumes "reach pda xfer approve revoke args m l es"
  shows "paid_total es = unat (m_spent m) \<and> paid_total es \<le> unat (oa_cap args) \<and>
    m_cap m = oa_cap args \<and> m_per_tx_max m = oa_per_tx_max args \<and> m_merchant m = oa_merchant args \<and>
    m_agent m = oa_agent args \<and> m_expires_at m = oa_expires_at args \<and> m_purpose m = oa_purpose args"
  using reach_inv [OF assms] reach_terms [OF assms] by (auto simp: mandate_inv_def word_le_nat_alt)

text \<open>C2: a nonce is paid at most once. The payments recorded over the life of a mandate have
  strictly rising nonces, so a settled charge cannot be replayed.\<close>

theorem no_payment_is_replayed:
  assumes "reach pda xfer approve revoke args m l es"
  shows "sorted_wrt (<) (map en_nonce (paid_entries es)) \<and> distinct (map en_nonce (paid_entries es))"
  using reach_inv [OF assms] by (auto simp: mandate_inv_def strict_sorted_iff)

text \<open>C3: every recorded payment above the per-payment maximum was preceded by an override the owner
  recorded for the same nonce and for at least that amount.\<close>

theorem large_payment_was_overridden:
  assumes "reach pda xfer approve revoke args m l (xs @ e # ys)"
    and "en_kind e = KIND_PAID" and "oa_per_tx_max args < en_amount e"
  shows "\<exists>ov \<in> set xs. en_kind ov = KIND_OVERRIDE \<and> en_nonce ov = en_nonce e \<and> en_amount e \<le> en_amount ov"
proof -
  have "en_amount e \<le> m_per_tx_max m \<or> (\<exists>ov \<in> set xs. covers ov e)"
    using reach_overrides [OF assms(1)] assms(2) by (auto simp: overrides_inv_def)
  moreover have "m_per_tx_max m = oa_per_tx_max args" using reach_terms [OF assms(1)] by simp
  ultimately show ?thesis using assms(3) by (auto simp: covers_def)
qed


text \<open>C17: the override a refusal suggests does clear it. When the program refuses a charge as over the
  per-payment maximum and names a non-zero override, the owner can grant exactly that override,
  and the same charge is then neither over the per-payment maximum nor over the cap.\<close>

theorem suggested_override_clears:
  assumes "evaluate (ca_mandate acc) key src dst amount nonce now = REASON_OVER_PER_TX_MAX"
    and "suggested_override (ca_mandate acc) REASON_OVER_PER_TX_MAX amount \<noteq> 0"
    and "m_owner (ca_mandate acc) = ca_signer acc" and "m_source (ca_mandate acc) = t_key (ca_source acc)"
    and "m_spent (ca_mandate acc) \<le> m_cap (ca_mandate acc)"
  shows "\<exists>acc'. grant_override acc (suggested_override (ca_mandate acc) REASON_OVER_PER_TX_MAX amount) nonce now = Inr acc' \<and>
    evaluate (ca_mandate acc') key src dst amount nonce now \<in>
      {REASON_OK, REASON_DELEGATE_MISSING, REASON_INSUFFICIENT_FUNDS, REASON_ACCOUNT_FROZEN}"
proof -
  let ?m = "ca_mandate acc"
  have sug: "suggested_override ?m REASON_OVER_PER_TX_MAX amount = amount" and rem: "amount \<le> remaining ?m"
    using assms(2) by (auto simp: suggested_override_def split: if_splits)
  have pre: "m_status ?m = STATUS_ACTIVE" "now < m_expires_at ?m" "amount \<noteq> 0" "m_last_nonce ?m < nonce"
      "t_owner dst = m_merchant ?m"
    using assms(1) by (auto simp: evaluate_def reason_defs split: if_splits)
  note cap = cap_room [OF rem assms(5)]
  let ?m' = "?m\<lparr>m_override_amount := amount, m_override_nonce := nonce\<rparr>"
  have "grant_override acc amount nonce now =
      Inr (acc\<lparr>ca_mandate := ?m', ca_ledger := ledger_record (ca_ledger acc) (override_entry ?m amount nonce now)\<rparr>)"
    using pre rem assms(3,4) by (auto simp: grant_override_def Let_def word_gt_0)
  moreover have "evaluate ?m' key src dst amount nonce now \<in>
      {REASON_OK, REASON_DELEGATE_MISSING, REASON_INSUFFICIENT_FUNDS, REASON_ACCOUNT_FROZEN}"
    using pre cap by (auto simp: evaluate_def effective_per_tx_max_def checked_add_def)
  ultimately show ?thesis using sug by auto
qed

text \<open>What a client that reads the ring oldest first sees is the recent part of the full history:
  everything while at most 32 decisions were recorded, and the last 32 afterwards.\<close>

theorem ledger_shows_recent_history:
  assumes "reach pda xfer approve revoke args m l es"
  shows "oldest_first LEDGER_CAPACITY (l_entries l) (unat (l_total l)) (unat (l_head l)) = drop (length es - 32) es"
  using reach_window [OF assms] by (simp add: LEDGER_CAPACITY_def)

section \<open>A concrete run\<close>

text \<open>
  A mandate with cap 100 and per-payment maximum 10: a charge of 50 is refused, the owner grants
  the suggested override, and the retry at the same nonce is paid. The token program is the
  plain one: a transfer moves the amount and uses up the delegation.
\<close>

definition demo_key :: "byte \<Rightarrow> pubkey" where
  "demo_key b = replicate 32 b"

lemma demo_key_simps [simp]: "demo_key a = demo_key b \<longleftrightarrow> a = b" "length (demo_key a) = 32" "demo_key a \<noteq> []"
  "demo_key a = replicate 32 b \<longleftrightarrow> a = b"
  by (simp_all add: demo_key_def)

definition demo_pda :: "pubkey \<Rightarrow> u64 \<Rightarrow> u8 \<Rightarrow> pubkey option" where
  "demo_pda o1 i b = Some (demo_key 9)"

definition demo_xfer :: "token_account \<Rightarrow> token_account \<Rightarrow> u64 \<Rightarrow> (token_account \<times> token_account) option" where
  "demo_xfer s d a =
     Some (s\<lparr>t_amount := t_amount s - a, t_delegated_amount := t_delegated_amount s - a\<rparr>,
           d\<lparr>t_amount := t_amount d + a\<rparr>)"

definition demo_approve :: "token_account \<Rightarrow> pubkey \<Rightarrow> u64 \<Rightarrow> token_account option" where
  "demo_approve s k a = Some (s\<lparr>t_delegate := Some k, t_delegated_amount := a\<rparr>)"

definition demo_revoke :: "token_account \<Rightarrow> token_account option" where
  "demo_revoke s = Some (s\<lparr>t_delegate := None, t_delegated_amount := 0\<rparr>)"

definition demo_args :: OpenMandateArgs where
  "demo_args = \<lparr>oa_mandate_id = 1, oa_agent = demo_key 2, oa_merchant = demo_key 3, oa_cap = 100, oa_per_tx_max = 10,
                oa_expires_at = 1000, oa_purpose = []\<rparr>"

definition demo_entry0 :: Entry where
  "demo_entry0 = \<lparr>en_ts = 0, en_amount = 0, en_counterparty = demo_key 0, en_nonce = 0,
                  en_suggested_override = 0, en_kind = 0, en_reason = 0\<rparr>"

definition demo_acc0 :: mandate_accounts where
  "demo_acc0 =
     \<lparr>ca_signer = demo_key 1, ca_mandate_key = demo_key 9,
      ca_mandate = \<lparr>m_owner = [], m_agent = [], m_mint = [], m_source = [], m_merchant = [], m_mandate_id = 0,
        m_cap = 0, m_spent = 0, m_per_tx_max = 0, m_expires_at = 0, m_override_amount = 0, m_override_nonce = 0,
        m_last_nonce = 0, m_purpose = [], m_status = 0, m_spend_count = 0, m_refusal_count = 0, m_bump = 0\<rparr>,
      ca_ledger = \<lparr>l_mandate = [], l_total = 0, l_head = 0, l_bump = 0, l_entries = replicate 32 demo_entry0\<rparr>,
      ca_source = \<lparr>t_key = demo_key 4, t_mint = demo_key 5, t_owner = demo_key 1, t_amount = 500, t_delegate = None,
        t_delegated_amount = 0, t_frozen = False\<rparr>,
      ca_destination = \<lparr>t_key = demo_key 6, t_mint = demo_key 5, t_owner = demo_key 3, t_amount = 0, t_delegate = None,
        t_delegated_amount = 0, t_frozen = False\<rparr>,
      ca_mint = demo_key 5\<rparr>"

definition demo_acc1 :: mandate_accounts where
  "demo_acc1 = demo_acc0\<lparr>ca_signer := demo_key 2, ca_mandate := opened_mandate demo_acc0 demo_args 7,
     ca_ledger := ledger_record ((ca_ledger demo_acc0)\<lparr>l_mandate := demo_key 9, l_head := 0, l_total := 0, l_bump := 8\<rparr>)
       (opened_entry demo_args 0),
     ca_source := (ca_source demo_acc0)\<lparr>t_delegate := Some (demo_key 9), t_delegated_amount := 100\<rparr>\<rparr>"

definition demo_acc2 :: mandate_accounts where
  "demo_acc2 = demo_acc1\<lparr>ca_signer := demo_key 1,
     ca_mandate := refused_mandate (ca_mandate demo_acc1) REASON_OVER_PER_TX_MAX,
     ca_ledger := ledger_record (ca_ledger demo_acc1) (charge_entry demo_acc1 50 5 1)\<rparr>"

definition demo_acc3 :: mandate_accounts where
  "demo_acc3 = demo_acc2\<lparr>ca_signer := demo_key 2,
     ca_mandate := (ca_mandate demo_acc2)\<lparr>m_override_amount := 50, m_override_nonce := 5\<rparr>,
     ca_ledger := ledger_record (ca_ledger demo_acc2) (override_entry (ca_mandate demo_acc2) 50 5 2)\<rparr>"

definition demo_acc4 :: mandate_accounts where
  "demo_acc4 = demo_acc3\<lparr>ca_mandate := paid_mandate (ca_mandate demo_acc3) 50 50 5,
     ca_ledger := ledger_record (ca_ledger demo_acc3) (charge_entry demo_acc3 50 5 3),
     ca_source := (ca_source demo_acc3)\<lparr>t_amount := 450, t_delegated_amount := 50\<rparr>,
     ca_destination := (ca_destination demo_acc3)\<lparr>t_amount := 50\<rparr>\<rparr>"

definition demo_history :: "Entry list" where
  "demo_history = [opened_entry demo_args 0, charge_entry demo_acc1 50 5 1,
     override_entry (ca_mandate demo_acc2) 50 5 2, charge_entry demo_acc3 50 5 3]"

lemmas demo_defs = demo_pda_def demo_xfer_def demo_approve_def demo_args_def demo_acc0_def demo_acc1_def
  demo_acc2_def demo_acc3_def opened_mandate_def refused_mandate_def utf8_chars_def evaluate_def
  effective_per_tx_max_def checked_add_def remaining_def saturating_sub_def suggested_override_def
  reason_defs status_defs

lemma demo_evaluate:
  "evaluate (ca_mandate demo_acc1) (demo_key 9) (ca_source demo_acc1) (ca_destination demo_acc1) 50 5 1 = REASON_OVER_PER_TX_MAX"
  "evaluate (ca_mandate demo_acc2) (demo_key 9) (ca_source demo_acc2) (ca_destination demo_acc2) 50 5 2 = REASON_OVER_PER_TX_MAX"
  "evaluate (ca_mandate demo_acc3) (demo_key 9) (ca_source demo_acc3) (ca_destination demo_acc3) 50 5 3 = REASON_OK"
  by (simp_all add: demo_defs)

lemma demo_steps:
  "open_mandate demo_approve demo_acc0 demo_args 7 8 0 = Inr (demo_acc1\<lparr>ca_signer := demo_key 1\<rparr>)"
  "charge demo_pda demo_xfer demo_acc1 50 5 1 = Inr (demo_acc2\<lparr>ca_signer := demo_key 2\<rparr>)"
  "grant_override demo_acc2 50 5 2 = Inr (demo_acc3\<lparr>ca_signer := demo_key 1\<rparr>)"
  "charge demo_pda demo_xfer demo_acc3 50 5 3 = Inr demo_acc4"
  by (simp_all add: open_mandate_def charge_def grant_override_def demo_acc4_def Let_def demo_defs)

lemma demo_reach:
  "reach demo_pda demo_xfer demo_approve demo_revoke demo_args (ca_mandate demo_acc4) (ca_ledger demo_acc4) demo_history"
proof -
  let ?R = "reach demo_pda demo_xfer demo_approve demo_revoke demo_args"
  have "length (l_entries (ca_ledger demo_acc0)) = LEDGER_CAPACITY"
    by (simp add: demo_acc0_def LEDGER_CAPACITY_def)
  from reach.opened [OF demo_steps(1) this]
  have "?R (ca_mandate demo_acc1) (ca_ledger demo_acc1) [opened_entry demo_args 0]" by simp
  from reach.charged [OF this demo_steps(2)]
  have "?R (ca_mandate demo_acc2) (ca_ledger demo_acc2) [opened_entry demo_args 0, charge_entry demo_acc1 50 5 1]"
    by simp
  from reach.granted [OF this demo_steps(3)]
  have "?R (ca_mandate demo_acc3) (ca_ledger demo_acc3) [opened_entry demo_args 0,
      charge_entry demo_acc1 50 5 1, override_entry (ca_mandate demo_acc2) 50 5 2]" by simp
  from reach.charged [OF this demo_steps(4)] show ?thesis by (simp add: demo_history_def)
qed

lemma demo_keys [simp]: "ca_mandate_key demo_acc1 = demo_key 9" "ca_mandate_key demo_acc2 = demo_key 9" "ca_mandate_key demo_acc3 = demo_key 9"
  by (simp_all add: demo_defs)

lemma demo_entry_kinds:
  "en_kind (charge_entry demo_acc1 50 5 1) = KIND_REFUSED" "en_kind (charge_entry demo_acc3 50 5 3) = KIND_PAID"
  by (simp_all add: charge_entry_def Let_def demo_evaluate) (simp_all add: reason_defs)

lemma demo_paid: "paid_entries demo_history = [charge_entry demo_acc3 50 5 3]"
  by (simp add: paid_entries_def demo_history_def demo_entry_kinds)

theorem spending_within_cap_witness:
  "paid_total demo_history = 50 \<and> m_spent (ca_mandate demo_acc4) = 50 \<and> paid_total demo_history \<le> unat (oa_cap demo_args)"
proof -
  have "paid_total demo_history = 50" "m_spent (ca_mandate demo_acc4) = 50"
    by (simp_all add: paid_total_def demo_paid demo_acc4_def)
  with spending_within_cap [OF demo_reach] show ?thesis by simp
qed

theorem no_payment_is_replayed_witness:
  "map en_nonce (paid_entries demo_history) = [5] \<and> distinct (map en_nonce (paid_entries demo_history))"
proof -
  have "map en_nonce (paid_entries demo_history) = [5]" by (simp add: demo_paid)
  with no_payment_is_replayed [OF demo_reach] show ?thesis by simp
qed

theorem large_payment_was_overridden_witness:
  "\<exists>ov \<in> set (take 3 demo_history). en_kind ov = KIND_OVERRIDE \<and> en_nonce ov = 5 \<and> 50 \<le> en_amount ov"
proof -
  have h: "demo_history = take 3 demo_history @ charge_entry demo_acc3 50 5 3 # []"
    by (simp add: demo_history_def)
  have r: "reach demo_pda demo_xfer demo_approve demo_revoke demo_args (ca_mandate demo_acc4) (ca_ledger demo_acc4)
      (take 3 demo_history @ charge_entry demo_acc3 50 5 3 # [])"
    using demo_reach h by simp
  have "oa_per_tx_max demo_args < en_amount (charge_entry demo_acc3 50 5 3)" by (simp add: demo_args_def)
  from large_payment_was_overridden [OF r demo_entry_kinds(2) this] show ?thesis by simp
qed


theorem suggested_override_clears_witness:
  "\<exists>acc'. grant_override demo_acc2 50 5 2 = Inr acc' \<and>
     evaluate (ca_mandate acc') (ca_mandate_key demo_acc2) (ca_source demo_acc2) (ca_destination demo_acc2) 50 5 2 \<in>
       {REASON_OK, REASON_DELEGATE_MISSING, REASON_INSUFFICIENT_FUNDS, REASON_ACCOUNT_FROZEN}"
proof -
  have b: "suggested_override (ca_mandate demo_acc2) REASON_OVER_PER_TX_MAX 50 = 50"
    and c: "m_owner (ca_mandate demo_acc2) = ca_signer demo_acc2"
      "m_source (ca_mandate demo_acc2) = t_key (ca_source demo_acc2)"
      "m_spent (ca_mandate demo_acc2) \<le> m_cap (ca_mandate demo_acc2)"
    by (simp_all add: demo_defs)
  have "suggested_override (ca_mandate demo_acc2) REASON_OVER_PER_TX_MAX 50 \<noteq> 0" using b by simp
  from suggested_override_clears [OF demo_evaluate(2) this c] show ?thesis unfolding b by simp
qed


end
