(* ===== verification/Decision_Codes.thy ===== *)
theory Decision_Codes
  imports Prelude
begin

text \<open>
  Names of decision kinds, refusal reasons and mandate states, as the phone app
  (\<^verbatim>\<open>app/lib/constants.ts\<close>), the indexer (\<^verbatim>\<open>indexer/src/constants.ts\<close>), the agent SDK
  (\<^verbatim>\<open>sdk/src/reasons.ts\<close>), the watcher (\<^verbatim>\<open>watcher/src/reasons.ts\<close>) and the program's log lines
  (\<^verbatim>\<open>programs/veto/src/lib.rs\<close>) print them. A lookup with a default, \<open>TABLE[k] ?? d\<close>, is a
  lookup in an association list.
\<close>

definition lookup_or :: "(int \<times> string) list \<Rightarrow> int \<Rightarrow> string \<Rightarrow> string" where
  "lookup_or t k d = (case map_of t k of None \<Rightarrow> d | Some s \<Rightarrow> s)"

definition KIND_NAME :: "(int \<times> string) list" where
  "KIND_NAME = [(0, ''opened''), (1, ''paid''), (2, ''refused''), (3, ''override''), (4, ''revoked'')]"

definition kindName :: "int \<Rightarrow> string" where
  "kindName kind = lookup_or KIND_NAME kind (''kind:'' @ int_str kind)"

definition STATUS_NAME :: "(int \<times> string) list" where
  "STATUS_NAME = [(0, ''active''), (1, ''revoked''), (2, ''exhausted''), (3, ''expired'')]"

definition statusName :: "int \<Rightarrow> string" where
  "statusName status = lookup_or STATUS_NAME status (''status:'' @ int_str status)"

definition REASON_TEXT :: "(int \<times> string) list" where
  "REASON_TEXT =
    [(0, ''ok''), (1, ''mandate not active''), (2, ''past expiry''), (3, ''nonce already settled''),
     (4, ''merchant not allowed''), (5, ''over per-payment maximum''), (6, ''over remaining cap''),
     (7, ''delegation withdrawn''), (8, ''insufficient funds''), (9, ''zero amount''),
     (10, ''account frozen''), (11, ''output account not allowed''), (12, ''pool account not allowed''),
     (13, ''over daily limit''), (14, ''quote below floor'')]"

definition reasonText :: "int \<Rightarrow> string" where
  "reasonText reason = lookup_or REASON_TEXT reason ''unknown''"

definition sdk_REASON_TEXT :: "(int \<times> string) list" where
  "sdk_REASON_TEXT =
    [(0, ''ok''), (1, ''mandate not active''), (2, ''past expiry''), (3, ''nonce already settled''),
     (4, ''merchant not allowed''), (5, ''over per-payment maximum''), (6, ''over remaining cap''),
     (7, ''delegation withdrawn''), (8, ''insufficient funds''), (9, ''zero amount''),
     (10, ''account frozen''), (11, ''output account not allowed''), (12, ''pool account not allowed''),
     (13, ''over daily limit''), (14, ''quote below floor'')]"

definition sdk_reasonText :: "int \<Rightarrow> string" where
  "sdk_reasonText reason = lookup_or sdk_REASON_TEXT reason ''unknown''"

definition idx_REASON_TEXT :: "(int \<times> string) list" where
  "idx_REASON_TEXT =
    [(0, ''ok''), (1, ''mandate not active''), (2, ''past expiry''), (3, ''nonce already settled''),
     (4, ''merchant not allowed''), (5, ''over per-payment maximum''), (6, ''over remaining cap''),
     (7, ''delegation withdrawn''), (8, ''insufficient funds''), (9, ''zero amount''),
     (10, ''account frozen''), (11, ''destination not allowed''), (12, ''pool account not allowed''),
     (13, ''over daily limit''), (14, ''below price floor'')]"

definition idx_reasonText :: "int \<Rightarrow> string" where
  "idx_reasonText reason = lookup_or idx_REASON_TEXT reason ''unknown''"

definition watcher_REASON_TEXT :: "(int \<times> string) list" where
  "watcher_REASON_TEXT =
    [(0, ''ok''), (1, ''mandate not active''), (2, ''past expiry''), (3, ''nonce already settled''),
     (4, ''merchant not allowed''), (5, ''over per-payment maximum''), (6, ''over remaining cap''),
     (7, ''delegation withdrawn''), (8, ''insufficient funds''), (9, ''zero amount''),
     (10, ''account frozen'')]"

definition watcher_reasonText :: "int \<Rightarrow> string" where
  "watcher_reasonText code = lookup_or watcher_REASON_TEXT code ''unknown''"

text \<open>\<open>reason_text\<close> of the mandate program.\<close>

definition program_reason_text :: "8 word \<Rightarrow> string" where
  "program_reason_text r =
     (if r = 0 then ''ok''
      else if r = 1 then ''mandate not active''
      else if r = 2 then ''past expiry''
      else if r = 3 then ''nonce already settled''
      else if r = 4 then ''merchant not allowed''
      else if r = 5 then ''over per-payment maximum''
      else if r = 6 then ''over remaining cap''
      else if r = 7 then ''delegation withdrawn''
      else if r = 8 then ''insufficient funds''
      else if r = 9 then ''zero amount''
      else if r = 10 then ''account frozen''
      else ''unknown'')"

lemmas text_defs = reasonText_def sdk_reasonText_def idx_reasonText_def watcher_reasonText_def
  REASON_TEXT_def sdk_REASON_TEXT_def idx_REASON_TEXT_def watcher_REASON_TEXT_def lookup_or_def

lemma idx_reasonText_eq: "reason \<noteq> 11 \<Longrightarrow> reason \<noteq> 14 \<Longrightarrow> idx_reasonText reason = reasonText reason"
  by (simp add: text_defs)

lemma small_word_cases:
  assumes "(r :: 8 word) \<le> 10"
  shows "r = 0 \<or> r = 1 \<or> r = 2 \<or> r = 3 \<or> r = 4 \<or> r = 5 \<or> r = 6 \<or> r = 7 \<or> r = 8 \<or> r = 9 \<or> r = 10"
proof -
  have "unat r \<le> 10" using assms by (simp add: word_le_nat_alt)
  then have "unat r = 0 \<or> unat r = 1 \<or> unat r = 2 \<or> unat r = 3 \<or> unat r = 4 \<or> unat r = 5 \<or>
      unat r = 6 \<or> unat r = 7 \<or> unat r = 8 \<or> unat r = 9 \<or> unat r = 10" by arith
  moreover have "r = of_nat (unat r)" by (simp add: of_nat_unat)
  ultimately show ?thesis by (elim disjE) simp_all
qed

text \<open>For every reason the mandate program can record, all five components print the text the
  program logs.\<close>

theorem reason_texts_agree:
  "r \<le> 10 \<Longrightarrow>
   reasonText (int (unat r)) = program_reason_text r \<and> sdk_reasonText (int (unat r)) = program_reason_text r \<and>
   idx_reasonText (int (unat r)) = program_reason_text r \<and> watcher_reasonText (int (unat r)) = program_reason_text r"
  by (drule small_word_cases) (elim disjE; simp add: text_defs program_reason_text_def)


end
