(* ===== verification/Ledger_Decode.thy ===== *)
theory Ledger_Decode
  imports Mandate_Program Decision_Codes
begin

text \<open>
  Reading the mandate ledger account: the phone app (\<^verbatim>\<open>app/lib/ring.ts\<close>), the indexer
  (\<^verbatim>\<open>indexer/src/ring.ts\<close>) and the agent SDK (\<^verbatim>\<open>sdk/src/layout.ts\<close>), against the byte image the
  program's zero-copy account has (\<^verbatim>\<open>programs/veto/src/state.rs\<close>). \<open>pk\<close> is
  \<open>new PublicKey(bytes)\<close>, for the app and the indexer followed by \<open>toBase58()\<close>: both belong to a
  package outside the repository.

  \<open>attachSignatures\<close> pairs ring entries with the transactions that wrote them.
\<close>

section \<open>The account image\<close>

definition LEDGER_DISCRIMINATOR :: bytes where
  "LEDGER_DISCRIMINATOR = [43, 41, 21, 213, 180, 176, 95, 32]"

definition ENTRY_SIZE :: nat where "ENTRY_SIZE = 72"
definition LEDGER_HEADER_SIZE :: nat where "LEDGER_HEADER_SIZE = 40"
definition LEDGER_ACCOUNT_SIZE :: nat where
  "LEDGER_ACCOUNT_SIZE = 8 + LEDGER_HEADER_SIZE + LEDGER_CAPACITY * ENTRY_SIZE"

lemmas ledger_sizes = ENTRY_SIZE_def LEDGER_HEADER_SIZE_def LEDGER_ACCOUNT_SIZE_def LEDGER_CAPACITY_def

definition entry_image :: "Entry \<Rightarrow> bytes" where
  "entry_image e =
     le_bytes 8 (i64_nat (en_ts e)) @ le_bytes 8 (unat (en_amount e)) @ en_counterparty e @
     le_bytes 8 (unat (en_nonce e)) @ le_bytes 8 (unat (en_suggested_override e)) @
     [en_kind e, en_reason e] @ replicate 6 0"

definition ledger_image :: "Ledger \<Rightarrow> bytes" where
  "ledger_image l =
     LEDGER_DISCRIMINATOR @ l_mandate l @ le_bytes 4 (unat (l_total l)) @ le_bytes 2 (unat (l_head l)) @
     [l_bump l, 0] @ concat (map entry_image (l_entries l))"

definition entry_wf :: "Entry \<Rightarrow> bool" where
  "entry_wf e = (length (en_counterparty e) = 32 \<and> - (2 ^ 63) \<le> en_ts e \<and> en_ts e < 2 ^ 63)"

definition ledger_wf :: "Ledger \<Rightarrow> bool" where
  "ledger_wf l = (length (l_mandate l) = 32 \<and> length (l_entries l) = LEDGER_CAPACITY \<and>
     list_all entry_wf (l_entries l))"

section \<open>The app's decoder\<close>

record 'k RingEntry =
  r_ts :: int
  r_amount :: int
  r_counterparty :: 'k
  r_nonce :: int
  r_suggestedOverride :: int
  r_kind :: int
  r_kindName :: string
  r_reason :: int
  r_reasonText :: string

record 'k LedgerSnapshot =
  s_address :: string
  s_mandate :: 'k
  s_total :: int
  s_head :: int
  s_bump :: int
  s_entries :: "'k RingEntry list"

definition decodeEntry :: "(bytes \<Rightarrow> 'k) \<Rightarrow> u8array \<Rightarrow> 'k RingEntry result" where
  "decodeEntry pk raw =
     (let kind = int (byteOr0 raw 64); reason = int (byteOr0 raw 65) in
      andThen (readI64Le raw 0) (\<lambda>ts.
      andThen (readU64Le raw 8) (\<lambda>amount.
      andThen (readU64Le raw 48) (\<lambda>nonce.
      andThen (readU64Le raw 56) (\<lambda>suggested.
        Inr \<lparr>r_ts = ts, r_amount = amount, r_counterparty = pk (arr_bytes (subarray raw 16 48)),
             r_nonce = nonce, r_suggestedOverride = suggested, r_kind = kind,
             r_kindName = kindName kind, r_reason = reason, r_reasonText = reasonText reason\<rparr>)))))"

definition ring_positions :: "int \<Rightarrow> int \<Rightarrow> nat list" where
  "ring_positions tot head =
     (let occupied = min (nat tot) LEDGER_CAPACITY;
          start = (if tot \<ge> int LEDGER_CAPACITY then nat head mod LEDGER_CAPACITY else 0)
      in map (\<lambda>i. (start + i) mod LEDGER_CAPACITY) [0..<occupied])"

definition ledger_short :: "string \<Rightarrow> nat \<Rightarrow> js_error" where
  "ledger_short address n =
     Error (''ledger '' @ address @ '' is '' @ nat_str n @ '' bytes, expected '' @ nat_str LEDGER_ACCOUNT_SIZE)"

definition ledger_disc_error :: "string \<Rightarrow> js_error" where
  "ledger_disc_error address =
     Error (''ledger '' @ address @ '' does not have the Ledger discriminator'')"

definition decodeLedgerAccount :: "(bytes \<Rightarrow> 'k) \<Rightarrow> string \<Rightarrow> u8array \<Rightarrow> 'k LedgerSnapshot result" where
  "decodeLedgerAccount pk address data =
     (if arr_length data < LEDGER_ACCOUNT_SIZE then Inl (ledger_short address (arr_length data))
      else if \<not> buffersEqual (arr_bytes (subarray data 0 8)) LEDGER_DISCRIMINATOR
        then Inl (ledger_disc_error address)
      else
        let body = subarray data 8 (arr_length data);
            mandate = pk (arr_bytes (subarray body 0 32))
        in andThen (readU32Le body 32) (\<lambda>total.
           andThen (readU16Le body 36) (\<lambda>head.
           let bump = int (byteOr0 body 38)
           in andThen (traverse (\<lambda>idx. let off = LEDGER_HEADER_SIZE + idx * ENTRY_SIZE
                                       in decodeEntry pk (subarray body off (off + ENTRY_SIZE)))
                         (ring_positions total head))
                (\<lambda>entries. Inr \<lparr>s_address = address, s_mandate = mandate, s_total = total,
                                s_head = head, s_bump = bump, s_entries = entries\<rparr>))))"

section \<open>The indexer's decoder\<close>

definition byte_or_0 :: "bytes \<Rightarrow> nat \<Rightarrow> nat" where
  "byte_or_0 bs i = (if i < length bs then unat (bs ! i) else 0)"

definition idx_decodeEntry :: "(bytes \<Rightarrow> 'k) \<Rightarrow> bytes \<Rightarrow> 'k RingEntry result" where
  "idx_decodeEntry pk raw =
     (let kind = int (byte_or_0 raw 64); reason = int (byte_or_0 raw 65) in
      andThen (idx_readI64Le raw 0) (\<lambda>ts.
      andThen (idx_readU64Le raw 8) (\<lambda>amount.
      andThen (idx_readU64Le raw 48) (\<lambda>nonce.
      andThen (idx_readU64Le raw 56) (\<lambda>suggested.
        Inr \<lparr>r_ts = ts, r_amount = amount, r_counterparty = pk (slice raw 16 48),
             r_nonce = nonce, r_suggestedOverride = suggested, r_kind = kind,
             r_kindName = kindName kind, r_reason = reason, r_reasonText = idx_reasonText reason\<rparr>)))))"

definition idx_decodeLedgerAccount :: "(bytes \<Rightarrow> 'k) \<Rightarrow> string \<Rightarrow> bytes \<Rightarrow> 'k LedgerSnapshot result" where
  "idx_decodeLedgerAccount pk address data =
     (if length data < LEDGER_ACCOUNT_SIZE then Inl (ledger_short address (length data))
      else if \<not> buffersEqual (slice data 0 8) LEDGER_DISCRIMINATOR then Inl (ledger_disc_error address)
      else
        let body = slice data 8 (length data);
            mandate = pk (slice body 0 32)
        in andThen (readUIntLE 4 (slice body 32 36) 0) (\<lambda>total.
           andThen (readUIntLE 2 (slice body 36 38) 0) (\<lambda>head.
           let bump = int (byte_or_0 body 38)
           in andThen (traverse (\<lambda>idx. let off = LEDGER_HEADER_SIZE + idx * ENTRY_SIZE
                                       in idx_decodeEntry pk (slice body off (off + ENTRY_SIZE)))
                         (ring_positions total head))
                (\<lambda>entries. Inr \<lparr>s_address = address, s_mandate = mandate, s_total = total,
                                s_head = head, s_bump = bump, s_entries = entries\<rparr>))))"

section \<open>The SDK's decoder\<close>

record 'k LedgerEntry =
  le_ts :: int
  le_amount :: int
  le_counterparty :: 'k
  le_nonce :: int
  le_suggestedOverride :: int
  le_kind :: int
  le_reason :: int

record 'k LedgerAccount =
  la_mandate :: 'k
  la_total :: int
  la_head :: int
  la_bump :: int
  la_entries :: "'k LedgerEntry list"

definition sdk_decodeEntry :: "(bytes \<Rightarrow> 'k) \<Rightarrow> bytes \<Rightarrow> nat \<Rightarrow> 'k LedgerEntry result" where
  "sdk_decodeEntry pk data off =
     andThen (need data off ENTRY_SIZE ''ledger entry'') (\<lambda>_.
     andThen (readIntLE64 data off) (\<lambda>ts.
     andThen (readUIntLE 8 data (off + 8)) (\<lambda>amount.
     andThen (readUIntLE 8 data (off + 48)) (\<lambda>nonce.
     andThen (readUIntLE 8 data (off + 56)) (\<lambda>suggested.
     andThen (readUIntLE 1 data (off + 64)) (\<lambda>kind.
     andThen (readUIntLE 1 data (off + 65)) (\<lambda>reason.
       Inr \<lparr>le_ts = ts, le_amount = amount, le_counterparty = pk (slice data (off + 16) (off + 48)),
            le_nonce = nonce, le_suggestedOverride = suggested, le_kind = kind, le_reason = reason\<rparr>)))))))"

definition decodeLedger :: "(bytes \<Rightarrow> 'k) \<Rightarrow> bytes \<Rightarrow> 'k LedgerAccount result" where
  "decodeLedger pk data =
     andThen (requireDisc data LEDGER_DISCRIMINATOR ''Ledger'') (\<lambda>_.
       let minimum = 8 + LEDGER_HEADER_SIZE + LEDGER_CAPACITY * ENTRY_SIZE in
       if length data < minimum
       then Inl (Error (''Ledger account is '' @ nat_str (length data) @ '' bytes, need '' @ nat_str minimum))
       else
         andThen (readUIntLE 4 data 40) (\<lambda>total.
         andThen (readUIntLE 2 data 44) (\<lambda>head.
         andThen (readUIntLE 1 data 46) (\<lambda>bump.
         andThen (traverse (\<lambda>i. sdk_decodeEntry pk data (8 + LEDGER_HEADER_SIZE + i * ENTRY_SIZE))
                   [0..<LEDGER_CAPACITY])
           (\<lambda>entries. Inr \<lparr>la_mandate = pk (slice data 8 40), la_total = total, la_head = head,
                           la_bump = bump, la_entries = entries\<rparr>)))))"

section \<open>Pairing ring entries with transactions\<close>

record 'k DecodedTxDecision =
  tx_signature :: string
  tx_kind :: int
  tx_amount :: int
  tx_nonce :: int
  tx_reason :: int
  tx_blockTime :: "int option"
  tx_slot :: "int option"
  tx_suggestedOverride :: "int option"
  tx_counterparty :: "'k option"

definition SIGNATURE_SKEW_SEC :: int where "SIGNATURE_SKEW_SEC = 120"

definition decisionKeyMatches :: "'k DecodedTxDecision \<Rightarrow> 'k RingEntry \<Rightarrow> bool" where
  "decisionKeyMatches tx entry =
     (if tx_kind tx \<noteq> r_kind entry then False
      else if r_kind entry = 1 \<or> r_kind entry = 2 \<or> r_kind entry = 3
        then tx_amount tx = r_amount entry \<and> tx_nonce tx = r_nonce entry
      else True)"

text \<open>
  One pass of the inner loop. \<open>best\<close> is the index with the smallest skew so far and that skew,
  \<open>untimed\<close> the first unused match without a block time. \<open>Number(entry.ts)\<close> is exact for any
  time a cluster reports.
\<close>

definition pick_step ::
  "nat set \<Rightarrow> 'k DecodedTxDecision list \<Rightarrow> 'k RingEntry \<Rightarrow> nat \<Rightarrow>
   (nat \<times> int) option \<times> nat option \<Rightarrow> (nat \<times> int) option \<times> nat option" where
  "pick_step used txs entry index st =
     (case st of (best, untimed) \<Rightarrow>
        if index \<in> used then st
        else if \<not> decisionKeyMatches (txs ! index) entry then st
        else
          (case tx_blockTime (txs ! index) of
             None \<Rightarrow> (best, (case untimed of None \<Rightarrow> Some index | Some u \<Rightarrow> Some u))
           | Some bt \<Rightarrow>
               let skew = \<bar>bt - r_ts entry\<bar> in
               if skew > SIGNATURE_SKEW_SEC \<or>
                  (case best of None \<Rightarrow> False | Some (_, bestSkew) \<Rightarrow> skew \<ge> bestSkew)
               then st else (Some (index, skew), untimed)))"

definition pick :: "nat set \<Rightarrow> 'k DecodedTxDecision list \<Rightarrow> 'k RingEntry \<Rightarrow> nat option" where
  "pick used txs entry =
     (case fold (pick_step used txs entry) [0..<length txs] (None, None) of
        (best, untimed) \<Rightarrow> (case best of Some (i, _) \<Rightarrow> Some i | None \<Rightarrow> untimed))"

record 'k LedgerRow =
  row_entry :: "'k RingEntry"
  row_signature :: "string option"
  row_slot :: "int option"

fun attach_from ::
  "nat set \<Rightarrow> 'k DecodedTxDecision list \<Rightarrow> 'k RingEntry list \<Rightarrow> ('k LedgerRow \<times> nat option) list" where
  "attach_from used txs [] = []"
| "attach_from used txs (entry # entries) =
     (case pick used txs entry of
        Some chosen \<Rightarrow>
          (\<lparr>row_entry = entry, row_signature = Some (tx_signature (txs ! chosen)),
            row_slot = tx_slot (txs ! chosen)\<rparr>, Some chosen) # attach_from (insert chosen used) txs entries
      | None \<Rightarrow> (\<lparr>row_entry = entry, row_signature = None, row_slot = None\<rparr>, None) # attach_from used txs entries)"

definition attachSignatures :: "'k RingEntry list \<Rightarrow> 'k DecodedTxDecision list \<Rightarrow> 'k LedgerRow list" where
  "attachSignatures entries txs = map fst (attach_from {} txs entries)"

section \<open>Decoding what the program wrote\<close>

definition entry_view :: "(bytes \<Rightarrow> 'k) \<Rightarrow> Entry \<Rightarrow> 'k RingEntry" where
  "entry_view pk e =
     \<lparr>r_ts = en_ts e, r_amount = int (unat (en_amount e)), r_counterparty = pk (en_counterparty e),
      r_nonce = int (unat (en_nonce e)), r_suggestedOverride = int (unat (en_suggested_override e)),
      r_kind = int (unat (en_kind e)), r_kindName = kindName (int (unat (en_kind e))),
      r_reason = int (unat (en_reason e)), r_reasonText = reasonText (int (unat (en_reason e)))\<rparr>"

lemma length_entry_image [layout_simps]: "entry_wf e \<Longrightarrow> length (entry_image e) = 72"
  by (simp add: entry_image_def entry_wf_def)

lemma decodeEntry_image:
  assumes "arr_wf raw" "arr_bytes raw = entry_image e" "entry_wf e"
  shows "decodeEntry pk raw = Inr (entry_view pk e)"
proof -
  have len: "arr_length raw = 72"
    using assms by (metis length_arr_bytes length_entry_image)
  have cp: "length (en_counterparty e) = 32" and ts: "i64_val (i64_nat (en_ts e)) = en_ts e"
    using assms(3) i64_roundtrip by (simp_all add: entry_wf_def)
  have bytes: "byteOr0 raw 64 = unat (en_kind e)" "byteOr0 raw 65 = unat (en_reason e)"
    using assms(1,2) len cp by (simp_all add: byteOr0_inside entry_image_def nth_append)
  show ?thesis
    using assms(1,2) len cp ts
    by (simp add: decodeEntry_def bytes app_read_inside arr_bytes_subarray entry_view_def Let_def
        entry_image_def)
qed

text \<open>Any view that shows the account image, whatever follows it in the buffer.\<close>

definition shows_ledger :: "u8array \<Rightarrow> Ledger \<Rightarrow> bool" where
  "shows_ledger data l = (arr_wf data \<and> (\<exists>post. arr_bytes data = ledger_image l @ post))"

lemma ledger_image_split:
  "ledger_image l @ post = LEDGER_DISCRIMINATOR @ (l_mandate l @ le_bytes 4 (unat (l_total l)) @
     le_bytes 2 (unat (l_head l)) @ [l_bump l, 0] @ concat (map entry_image (l_entries l)) @ post)"
  by (simp add: ledger_image_def)

lemma length_disc [simp]: "length LEDGER_DISCRIMINATOR = 8"
  by (simp add: LEDGER_DISCRIMINATOR_def)

lemma length_entries_image:
  "ledger_wf l \<Longrightarrow> length (concat (map entry_image (l_entries l))) = 2304"
  by (subst length_concat_slots [where w = 72])
    (auto simp: ledger_wf_def list_all_iff length_entry_image LEDGER_CAPACITY_def)

lemma body_slot:
  assumes "ledger_wf l" "arr_wf body"
    and "arr_bytes body = l_mandate l @ le_bytes 4 (unat (l_total l)) @ le_bytes 2 (unat (l_head l)) @
           [l_bump l, 0] @ concat (map entry_image (l_entries l)) @ post"
    and "i < 32"
  shows "arr_bytes (subarray body (40 + i * 72) (112 + i * 72)) = entry_image (l_entries l ! i)"
proof -
  have "length (l_mandate l) = 32" using assms(1) by (simp add: ledger_wf_def)
  then have "drop (40 + i * 72) (arr_bytes body) = drop (i * 72) (concat (map entry_image (l_entries l)) @ post)"
    using assms(3) by (simp add: drop_append)
  then have "arr_bytes (subarray body (40 + i * 72) (112 + i * 72)) =
      take 72 (drop (i * 72) (concat (map entry_image (l_entries l)) @ post))"
    using assms(2) by (simp add: arr_bytes_subarray)
  also have "\<dots> = entry_image (l_entries l ! i)"
    using assms(1,4)
    by (intro concat_slot) (auto simp: ledger_wf_def list_all_iff length_entry_image LEDGER_CAPACITY_def)
  finally show ?thesis .
qed

lemma ring_positions_lt: "i \<in> set (ring_positions tot head) \<Longrightarrow> i < 32"
  by (auto simp: ring_positions_def Let_def LEDGER_CAPACITY_def)

lemma ring_positions_oldest_first:
  "map (\<lambda>i. xs ! i) (ring_positions (int t) (int h)) = oldest_first LEDGER_CAPACITY xs t h"
  by (simp add: ring_positions_def oldest_first_def Let_def)

lemma decodeLedgerAccount_image:
  assumes "shows_ledger data l" "ledger_wf l"
  shows "decodeLedgerAccount pk address data =
    Inr \<lparr>s_address = address, s_mandate = pk (l_mandate l), s_total = int (unat (l_total l)),
         s_head = int (unat (l_head l)), s_bump = int (unat (l_bump l)),
         s_entries = map (entry_view pk)
           (oldest_first LEDGER_CAPACITY (l_entries l) (unat (l_total l)) (unat (l_head l)))\<rparr>"
proof -
  obtain post where wf: "arr_wf data" and img: "arr_bytes data = ledger_image l @ post"
    using assms(1) by (auto simp: shows_ledger_def)
  have m: "length (l_mandate l) = 32" using assms(2) by (simp add: ledger_wf_def)
  have len: "arr_length data = 2352 + length post"
    using length_arr_bytes [OF wf] img m length_entries_image [OF assms(2)]
    by (simp add: ledger_image_def)
  let ?body = "subarray data 8 (arr_length data)"
  have bwf: "arr_wf ?body" and blen: "arr_length ?body = 2344 + length post"
    using wf len by (simp_all add: subarray_def arr_wf_def)
  have bimg: "arr_bytes ?body = l_mandate l @ le_bytes 4 (unat (l_total l)) @ le_bytes 2 (unat (l_head l)) @
      [l_bump l, 0] @ concat (map entry_image (l_entries l)) @ post"
    using wf len m img length_entries_image [OF assms(2)]
    by (simp add: arr_bytes_subarray ledger_image_split)
  have entries: "traverse (\<lambda>idx. decodeEntry pk (subarray ?body (40 + idx * 72) (112 + idx * 72)))
      (ring_positions t h) = Inr (map (\<lambda>i. entry_view pk (l_entries l ! i)) (ring_positions t h))" for t h
  proof (rule traverse_Inr)
    fix i assume "i \<in> set (ring_positions t h)"
    then have i: "i < 32" by (rule ring_positions_lt)
    then have "entry_wf (l_entries l ! i)"
      using assms(2) by (auto simp: ledger_wf_def list_all_iff LEDGER_CAPACITY_def)
    then show "decodeEntry pk (subarray ?body (40 + i * 72) (112 + i * 72)) = Inr (entry_view pk (l_entries l ! i))"
      using body_slot [OF assms(2) bwf bimg i] bwf by (intro decodeEntry_image) simp_all
  qed
  have disc: "arr_bytes (subarray data 0 8) = LEDGER_DISCRIMINATOR"
    using wf img by (simp add: arr_bytes_subarray ledger_image_split)
  have fields: "readU32Le ?body 32 = Inr (int (unat (l_total l)))" "readU16Le ?body 36 = Inr (int (unat (l_head l)))"
      "byteOr0 ?body 38 = unat (l_bump l)" "arr_bytes (subarray ?body 0 32) = l_mandate l"
    using bwf blen bimg m by (simp_all add: app_read_inside byteOr0_inside arr_bytes_subarray nth_append)
  have "\<not> arr_length data < LEDGER_ACCOUNT_SIZE"
    using len by (simp add: ledger_sizes)
  then show ?thesis
    using ring_positions_oldest_first [of "l_entries l" "unat (l_total l)" "unat (l_head l)", symmetric]
    by (simp add: decodeLedgerAccount_def Let_def disc fields entries ENTRY_SIZE_def LEDGER_HEADER_SIZE_def
        comp_def del: of_nat_unat)
qed

text \<open>The SDK reads the same fields, in slot order.\<close>

definition sdk_entry_view :: "(bytes \<Rightarrow> 'k) \<Rightarrow> Entry \<Rightarrow> 'k LedgerEntry" where
  "sdk_entry_view pk e =
     \<lparr>le_ts = en_ts e, le_amount = int (unat (en_amount e)), le_counterparty = pk (en_counterparty e),
      le_nonce = int (unat (en_nonce e)), le_suggestedOverride = int (unat (en_suggested_override e)),
      le_kind = int (unat (en_kind e)), le_reason = int (unat (en_reason e))\<rparr>"

lemma drop_take_shift: "take n (drop (k + p) bs) = take n (drop p (drop k bs))"
  by (simp add: add.commute)

lemma take_drop_inside: "n + m \<le> w \<Longrightarrow> take m (drop n (take w bs)) = take m (drop n bs)"
  by (simp add: take_drop min_def)

lemma slot_read:
  assumes "take w (drop off data) = img" "n + m \<le> w"
  shows "take m (drop (off + n) data) = take m (drop n img)"
  using assms(1) take_drop_inside [OF assms(2), of "drop off data"] by (simp add: add.commute)

lemma sdk_decodeEntry_image:
  assumes "take 72 (drop off data) = entry_image e" "entry_wf e" "off + 72 \<le> length data"
  shows "sdk_decodeEntry pk data off = Inr (sdk_entry_view pk e)"
proof -
  have cp: "length (en_counterparty e) = 32" and ts: "i64_val (i64_nat (en_ts e)) = en_ts e"
    using assms(2) i64_roundtrip by (simp_all add: entry_wf_def)
  have f: "take 8 (drop off data) = le_bytes 8 (i64_nat (en_ts e))"
      "take 8 (drop (off + 8) data) = le_bytes 8 (unat (en_amount e))"
      "take 32 (drop (off + 16) data) = en_counterparty e"
      "take 8 (drop (off + 48) data) = le_bytes 8 (unat (en_nonce e))"
      "take 8 (drop (off + 56) data) = le_bytes 8 (unat (en_suggested_override e))"
      "take 1 (drop (off + 64) data) = [en_kind e]" "take 1 (drop (off + 65) data) = [en_reason e]"
    using slot_read [OF assms(1), of 0 8] slot_read [OF assms(1), of 8 8] slot_read [OF assms(1), of 16 32]
      slot_read [OF assms(1), of 48 8] slot_read [OF assms(1), of 56 8] slot_read [OF assms(1), of 64 1]
      slot_read [OF assms(1), of 65 1] cp
    by (simp_all add: entry_image_def)
  show ?thesis
    using assms(3) ts
    by (simp add: sdk_decodeEntry_def need_def ENTRY_SIZE_def readIntLE64_def readUIntLE_def slice_def
        sdk_entry_view_def f f(6,7) [simplified])
qed

lemma decodeLedger_image:
  assumes "ledger_wf l"
  shows "decodeLedger pk (ledger_image l @ post) =
    Inr \<lparr>la_mandate = pk (l_mandate l), la_total = int (unat (l_total l)), la_head = int (unat (l_head l)),
         la_bump = int (unat (l_bump l)), la_entries = map (sdk_entry_view pk) (l_entries l)\<rparr>"
proof -
  have m: "length (l_mandate l) = 32" and n: "length (l_entries l) = 32"
    using assms by (simp_all add: ledger_wf_def LEDGER_CAPACITY_def)
  let ?d = "ledger_image l @ post"
  have len: "length ?d = 2352 + length post"
    using m length_entries_image [OF assms] by (simp add: ledger_image_def)
  have "sdk_decodeEntry pk ?d (48 + i * 72) = Inr (sdk_entry_view pk (l_entries l ! i))" if "i < 32" for i
  proof (rule sdk_decodeEntry_image)
    have "drop (48 + i * 72) ?d = drop (i * 72) (concat (map entry_image (l_entries l)) @ post)"
      using m by (simp add: ledger_image_split drop_append)
    moreover have "take 72 (drop (i * 72) (concat (map entry_image (l_entries l)) @ post)) = entry_image (l_entries l ! i)"
      using assms that n by (intro concat_slot) (auto simp: ledger_wf_def list_all_iff length_entry_image)
    ultimately show "take 72 (drop (48 + i * 72) ?d) = entry_image (l_entries l ! i)" by simp
    show "entry_wf (l_entries l ! i)" using assms that n by (auto simp: ledger_wf_def list_all_iff)
    show "48 + i * 72 + 72 \<le> length ?d" using that len by simp
  qed
  moreover have "map (\<lambda>i. sdk_entry_view pk (l_entries l ! i)) [0..<32] = map (sdk_entry_view pk) (l_entries l)"
    using n by (intro nth_equalityI) simp_all
  ultimately have entries: "traverse (\<lambda>i. sdk_decodeEntry pk ?d (48 + i * 72)) [0..<32] =
      Inr (map (sdk_entry_view pk) (l_entries l))"
    using traverse_Inr [of "[0..<32]" "\<lambda>i. sdk_decodeEntry pk ?d (48 + i * 72)"
        "\<lambda>i. sdk_entry_view pk (l_entries l ! i)"] by simp
  have fields: "take 4 (drop 40 ?d) = le_bytes 4 (unat (l_total l))" "take 2 (drop 44 ?d) = le_bytes 2 (unat (l_head l))"
      "take 1 (drop 46 ?d) = [l_bump l]" "take 32 (drop 8 ?d) = l_mandate l"
    using m by (simp_all add: ledger_image_split)
  have "take 8 ?d = LEDGER_DISCRIMINATOR" by (simp add: ledger_image_split)
  with len fields fields(3) [simplified] entries show ?thesis
    by (simp add: decodeLedger_def requireDisc_def Let_def readUIntLE_def slice_def ledger_sizes)
qed

section \<open>The indexer agrees with the app\<close>

text \<open>The two snapshots differ in one place, the wording of a reason.\<close>

definition idx_worded :: "'k RingEntry \<Rightarrow> 'k RingEntry" where
  "idx_worded e = e\<lparr>r_reasonText := idx_reasonText (r_reason e)\<rparr>"

lemma idx_entry_agrees:
  assumes "arr_wf raw" "arr_length raw = 72"
  shows "idx_decodeEntry pk (arr_bytes raw) =
    andThen (decodeEntry pk raw) (\<lambda>e. Inr (idx_worded e))"
proof -
  have "length (arr_bytes raw) = 72" using assms by simp
  moreover have "byte_or_0 (arr_bytes raw) i = byteOr0 raw i" for i
    using assms by (cases "i < 72") (simp_all add: byte_or_0_def byteOr0_inside, simp add: byteOr0_def)
  ultimately show ?thesis
    using assms
    by (simp add: idx_decodeEntry_def decodeEntry_def Let_def app_read_inside idx_read_inside slice_def
        arr_bytes_subarray idx_worded_def)
qed

text \<open>C19: on every account, well-formed or not, the indexer and the app reach the same result: the
  same error for a short account or a wrong discriminator, and otherwise the same address, mandate,
  counters and entries in the same order, except that each entry carries the indexer's wording of
  its reason code.\<close>

theorem indexer_decodes_like_app:
  assumes "arr_wf data"
  shows "idx_decodeLedgerAccount pk address (arr_bytes data) =
    andThen (decodeLedgerAccount pk address data)
      (\<lambda>s. Inr (s\<lparr>s_entries := map idx_worded (s_entries s)\<rparr>))"
proof (cases "arr_length data < LEDGER_ACCOUNT_SIZE")
  case True
  then show ?thesis using assms by (simp add: idx_decodeLedgerAccount_def decodeLedgerAccount_def)
next
  case False
  then have len: "2352 \<le> arr_length data" by (simp add: ledger_sizes)
  let ?body = "subarray data 8 (arr_length data)"
  have bwf: "arr_wf ?body" and blen: "arr_length ?body = arr_length data - 8"
    using assms len by (simp_all add: subarray_def arr_wf_def)
  have body: "slice (arr_bytes data) 8 (arr_length data) = arr_bytes ?body"
    using assms by (simp add: slice_def arr_bytes_subarray)
  have slot: "idx_decodeEntry pk (slice (arr_bytes ?body) (40 + i * 72) (112 + i * 72)) =
      andThen (decodeEntry pk (subarray ?body (40 + i * 72) (112 + i * 72))) (\<lambda>e. Inr (idx_worded e))"
    if "i \<in> set (ring_positions t h)" for i t h
  proof -
    have "arr_length (subarray ?body (40 + i * 72) (112 + i * 72)) = 72"
      using ring_positions_lt [OF that] blen len by (simp add: subarray_def [of ?body])
    from idx_entry_agrees [OF arr_wf_subarray [OF bwf] this, of pk] bwf show ?thesis
      by (simp add: arr_bytes_subarray [OF bwf] slice_def)
  qed
  have slots: "traverse (\<lambda>i. idx_decodeEntry pk (slice (arr_bytes ?body) (40 + i * 72) (112 + i * 72))) (ring_positions t h) =
      andThen (traverse (\<lambda>i. decodeEntry pk (subarray ?body (40 + i * 72) (112 + i * 72))) (ring_positions t h))
        (\<lambda>es. Inr (map idx_worded es))" for t h
    unfolding traverse_post [symmetric] using slot by (intro traverse_cong) simp_all
  have "38 < arr_length data - 8" using len by simp
  with bwf blen len assms
  have fields: "readUIntLE 4 (slice (arr_bytes ?body) 32 36) 0 = readU32Le ?body 32"
      "readUIntLE 2 (slice (arr_bytes ?body) 36 38) 0 = readU16Le ?body 36"
      "byte_or_0 (arr_bytes ?body) 38 = byteOr0 ?body 38" "slice (arr_bytes ?body) 0 32 = arr_bytes (subarray ?body 0 32)"
      "slice (arr_bytes data) 0 8 = arr_bytes (subarray data 0 8)"
    by (simp_all add: app_read_inside readUIntLE_def slice_def byte_or_0_def byteOr0_inside arr_bytes_subarray)
  show ?thesis
    using assms False
    by (simp add: idx_decodeLedgerAccount_def decodeLedgerAccount_def Let_def body fields slots andThen_assoc
        ENTRY_SIZE_def LEDGER_HEADER_SIZE_def)
qed


section \<open>Which transaction a row is paired with\<close>

definition candidate :: "nat set \<Rightarrow> 'k DecodedTxDecision list \<Rightarrow> 'k RingEntry \<Rightarrow> nat \<Rightarrow> bool" where
  "candidate used txs entry j = (j < length txs \<and> j \<notin> used \<and> decisionKeyMatches (txs ! j) entry)"

definition skew_of :: "'k DecodedTxDecision list \<Rightarrow> 'k RingEntry \<Rightarrow> nat \<Rightarrow> int option" where
  "skew_of txs entry j = map_option (\<lambda>bt. \<bar>bt - r_ts entry\<bar>) (tx_blockTime (txs ! j))"

definition scanned ::
  "nat set \<Rightarrow> 'k DecodedTxDecision list \<Rightarrow> 'k RingEntry \<Rightarrow> nat \<Rightarrow> (nat \<times> int) option \<times> nat option \<Rightarrow> bool" where
  "scanned used txs entry n st =
     ((case fst st of
         None \<Rightarrow> (\<forall>j<n. \<forall>s. candidate used txs entry j \<longrightarrow> skew_of txs entry j = Some s \<longrightarrow> s > SIGNATURE_SKEW_SEC)
       | Some (i, b) \<Rightarrow> i < n \<and> candidate used txs entry i \<and> skew_of txs entry i = Some b \<and> b \<le> SIGNATURE_SKEW_SEC \<and>
           (\<forall>j<n. \<forall>s. candidate used txs entry j \<longrightarrow> skew_of txs entry j = Some s \<longrightarrow> b \<le> s)) \<and>
      (case snd st of
         None \<Rightarrow> (\<forall>j<n. candidate used txs entry j \<longrightarrow> skew_of txs entry j \<noteq> None)
       | Some u \<Rightarrow> u < n \<and> candidate used txs entry u \<and> skew_of txs entry u = None \<and>
           (\<forall>j<u. candidate used txs entry j \<longrightarrow> skew_of txs entry j \<noteq> None)))"

lemma scanned_step:
  assumes "scanned used txs entry n st" "n < length txs"
  shows "scanned used txs entry (Suc n) (pick_step used txs entry n st)"
proof (cases "candidate used txs entry n")
  case False
  then have "pick_step used txs entry n st = st"
    using assms(2) by (auto simp: pick_step_def candidate_def split: prod.splits)
  then show ?thesis
    using assms(1) False by (auto simp: scanned_def less_Suc_eq split: option.splits)
next
  case True
  show ?thesis
  proof (cases "tx_blockTime (txs ! n)")
    case None
    with True assms show ?thesis
      by (cases st) (auto simp: scanned_def pick_step_def candidate_def skew_of_def less_Suc_eq split: option.splits)
  next
    case (Some bt)
    with True assms show ?thesis
      by (cases st) (auto simp: scanned_def pick_step_def candidate_def skew_of_def less_Suc_eq Let_def
          split: option.splits if_splits)
  qed
qed

lemma scanned_fold:
  "n \<le> length txs \<Longrightarrow> scanned used txs entry n (fold (pick_step used txs entry) [0..<n] (None, None))"
proof (induction n)
  case 0
  show ?case by (simp add: scanned_def)
next
  case (Suc n)
  then show ?case by (simp add: scanned_step)
qed

lemma pick_result:
  obtains best untimed where "scanned used txs entry (length txs) (best, untimed)"
    and "pick used txs entry = (case best of Some (i, _) \<Rightarrow> Some i | None \<Rightarrow> untimed)"
  using scanned_fold [of "length txs" txs used entry] unfolding pick_def
  by (cases "fold (pick_step used txs entry) [0..<length txs] (None, None)") auto

lemma all_candidates:
  "(\<forall>j<length txs. candidate used txs entry j \<longrightarrow> P j) \<longleftrightarrow> (\<forall>j. candidate used txs entry j \<longrightarrow> P j)"
  by (auto simp: candidate_def)

lemma pick_SomeD: "pick used txs entry = Some i \<Longrightarrow> candidate used txs entry i"
  by (rule pick_result [of used txs entry]) (auto simp: scanned_def split: option.splits)

lemma attach_from_rows: "map (\<lambda>p. row_entry (fst p)) (attach_from used txs entries) = entries"
  by (induction used txs entries rule: attach_from.induct) (simp_all split: option.splits)

lemma attach_from_used: "Some i \<in> set (map snd (attach_from used txs entries)) \<Longrightarrow> i \<notin> used"
  by (induction used txs entries rule: attach_from.induct)
    (auto simp: candidate_def dest!: pick_SomeD split: option.splits)

lemma attach_from_distinct:
  "distinct (filter (\<lambda>c. c \<noteq> None) (map snd (attach_from used txs entries)))"
proof (induction used txs entries rule: attach_from.induct)
  case (2 used txs entry entries)
  then show ?case
    using attach_from_used [of _ "insert _ used" txs entries] by (auto split: option.splits)
qed simp

lemma attach_from_row:
  assumes "(row, choice) \<in> set (attach_from used txs entries)"
  shows "case choice of
      None \<Rightarrow> row_signature row = None \<and> row_slot row = None
    | Some i \<Rightarrow> i < length txs \<and> decisionKeyMatches (txs ! i) (row_entry row) \<and>
        row_signature row = Some (tx_signature (txs ! i)) \<and> row_slot row = tx_slot (txs ! i)"
  using assms
  by (induction used txs entries rule: attach_from.induct)
    (auto simp: candidate_def dest!: pick_SomeD split: option.splits)


section \<open>Properties of the readers\<close>

text \<open>C18: the app reads back what the program recorded. Whatever sequence of instructions led to the
  ledger, a buffer that shows the account decodes without an error to the ledger's counters and to
  the last 32 decisions of the full history, oldest first, field for field.\<close>

theorem app_reads_program_history:
  assumes "reach pda xfer approve revoke args m l es" "ledger_wf l" "shows_ledger data l"
  shows "decodeLedgerAccount pk address data =
    Inr \<lparr>s_address = address, s_mandate = pk (l_mandate l), s_total = int (unat (l_total l)),
         s_head = int (unat (l_head l)), s_bump = int (unat (l_bump l)),
         s_entries = map (entry_view pk) (drop (length es - 32) es)\<rparr>"
  using decodeLedgerAccount_image [OF assms(3,2)] reach_window [OF assms(1)] by (simp add: LEDGER_CAPACITY_def)

text \<open>The SDK's decoder returns the 32 slots in storage order with the same counters; read oldest
  first from \<open>head\<close>, they are the recent history.\<close>

theorem sdk_reads_program_history:
  assumes "reach pda xfer approve revoke args m l es" "ledger_wf l"
  shows "\<exists>a. decodeLedger pk (ledger_image l @ post) = Inr a \<and> length (la_entries a) = 32 \<and>
    la_mandate a = pk (l_mandate l) \<and>
    oldest_first LEDGER_CAPACITY (la_entries a) (nat (la_total a)) (nat (la_head a)) =
      map (sdk_entry_view pk) (drop (length es - 32) es)"
proof -
  have n: "length (l_entries l) = LEDGER_CAPACITY" using assms(2) by (simp add: ledger_wf_def)
  then show ?thesis
    using decodeLedger_image [OF assms(2), of pk post] reach_window [OF assms(1)]
      oldest_first_map [OF n, of "sdk_entry_view pk"]
    by (simp add: LEDGER_CAPACITY_def del: of_nat_unat)
qed


text \<open>The transaction chosen for an entry is the best one left. A timed choice is within 120 seconds
  of the entry and no unused match is nearer; an untimed one is taken only when no unused match is
  within 120 seconds, and it is the first; nothing is chosen only when nothing qualifies.\<close>

theorem pick_is_nearest:
  "case pick used txs entry of
     None \<Rightarrow> (\<forall>j. candidate used txs entry j \<longrightarrow> (\<exists>s. skew_of txs entry j = Some s \<and> s > 120))
   | Some i \<Rightarrow> candidate used txs entry i \<and>
       (case skew_of txs entry i of
          Some b \<Rightarrow> b \<le> 120 \<and> (\<forall>j s. candidate used txs entry j \<longrightarrow> skew_of txs entry j = Some s \<longrightarrow> b \<le> s)
        | None \<Rightarrow> (\<forall>j s. candidate used txs entry j \<longrightarrow> skew_of txs entry j = Some s \<longrightarrow> s > 120) \<and>
            (\<forall>j<i. candidate used txs entry j \<longrightarrow> skew_of txs entry j \<noteq> None))"
proof (rule pick_result [of used txs entry])
  fix best untimed
  assume "scanned used txs entry (length txs) (best, untimed)"
    and "pick used txs entry = (case best of Some (i, _) \<Rightarrow> Some i | None \<Rightarrow> untimed)"
  then show ?thesis
    by (auto simp: scanned_def SIGNATURE_SKEW_SEC_def all_candidates split: option.splits)
qed

section \<open>The readers on the concrete run\<close>

definition demo_ledger :: Ledger where
  "demo_ledger = ca_ledger demo_acc4"

lemma ledger_wf_record: "ledger_wf l \<Longrightarrow> entry_wf e \<Longrightarrow> ledger_wf (ledger_record l e)"
  using set_update_subset_insert [of "l_entries l"]
  by (fastforce simp: ledger_wf_def ledger_record_def Let_def list_all_iff)

lemma demo_entries_wf:
  "entry_wf (opened_entry demo_args 0)" "entry_wf (charge_entry demo_acc1 50 5 1)"
  "entry_wf (override_entry (ca_mandate demo_acc2) 50 5 2)" "entry_wf (charge_entry demo_acc3 50 5 3)"
  by (simp_all add: entry_wf_def opened_entry_def charge_entry_def override_entry_def Let_def demo_args_def
      demo_acc3_def demo_acc2_def demo_acc1_def demo_acc0_def opened_mandate_def refused_mandate_def)

lemma demo_ledger_wf: "ledger_wf demo_ledger"
proof -
  have "ledger_wf ((ca_ledger demo_acc0)\<lparr>l_mandate := demo_key 9, l_head := 0, l_total := 0, l_bump := 8\<rparr>)"
    by (simp add: ledger_wf_def demo_acc0_def LEDGER_CAPACITY_def list_all_iff entry_wf_def demo_entry0_def)
  then have "ledger_wf (ca_ledger demo_acc1)" by (simp add: demo_acc1_def ledger_wf_record demo_entries_wf)
  then have "ledger_wf (ca_ledger demo_acc2)"
    using ledger_wf_record demo_entries_wf(2) by (simp add: demo_acc2_def)
  then have "ledger_wf (ca_ledger demo_acc3)"
    using ledger_wf_record demo_entries_wf(3) by (simp add: demo_acc3_def)
  then show ?thesis
    using ledger_wf_record demo_entries_wf(4) by (simp add: demo_ledger_def demo_acc4_def)
qed

lemma demo_shows: "shows_ledger (whole (ledger_image demo_ledger)) demo_ledger"
  by (simp add: shows_ledger_def)

theorem app_reads_program_history_witness:
  "\<exists>s. decodeLedgerAccount id ''L'' (whole (ledger_image demo_ledger)) = Inr s \<and>
     s_entries s = map (entry_view id) demo_history \<and> length (s_entries s) = 4"
  using app_reads_program_history [OF demo_reach, folded demo_ledger_def, OF demo_ledger_wf demo_shows, of id "''L''"]
  by (simp add: demo_history_def)


theorem indexer_decodes_like_app_witness:
  "\<exists>s. idx_decodeLedgerAccount id ''L'' (ledger_image demo_ledger) = Inr s \<and>
     map r_reason (s_entries s) = map (\<lambda>e. int (unat (en_reason e)))
       (oldest_first LEDGER_CAPACITY (l_entries demo_ledger) (unat (l_total demo_ledger)) (unat (l_head demo_ledger)))"
  using indexer_decodes_like_app [OF arr_wf_whole, of id "''L''" "ledger_image demo_ledger"]
  by (simp add: decodeLedgerAccount_image [OF demo_shows demo_ledger_wf] comp_def idx_worded_def entry_view_def)

definition demo_txs :: "unit DecodedTxDecision list" where
  "demo_txs =
     map (\<lambda>(sig, t). \<lparr>tx_signature = sig, tx_kind = 1, tx_amount = 5, tx_nonce = 7, tx_reason = 0, tx_blockTime = t,
            tx_slot = None, tx_suggestedOverride = None, tx_counterparty = None\<rparr>)
       [(''far'', Some 190), (''near'', Some 101), (''untimed'', None)]"

definition demo_row :: "unit RingEntry" where
  "demo_row = \<lparr>r_ts = 100, r_amount = 5, r_counterparty = (), r_nonce = 7, r_suggestedOverride = 0, r_kind = 1,
     r_kindName = ''paid'', r_reason = 0, r_reasonText = ''ok''\<rparr>"

lemmas demo_pick_simps = pick_def pick_step_def demo_txs_def demo_row_def upt_rec decisionKeyMatches_def
  SIGNATURE_SKEW_SEC_def Let_def

lemma demo_picks:
  "pick {} demo_txs demo_row = Some 1" "pick {1} demo_txs demo_row = Some 0" "pick {0, 1} demo_txs demo_row = Some 2"
  by (simp_all add: demo_pick_simps)



end
