(* ===== verification/Money.thy ===== *)
theory Money
  imports Prelude
begin

text \<open>
  Amounts as text: the phone app (\<^verbatim>\<open>app/lib/format.ts\<close>), the command line
  (\<^verbatim>\<open>cli/src/money.ts\<close>) and the watcher (\<^verbatim>\<open>watcher/src/money.ts\<close>). Amounts are bigints, so
  they are \<open>int\<close>; a mint's decimals are a small natural number. Dates need the host's calendar
  and are not modelled.
\<close>

section \<open>The app's formatter and parser\<close>

definition decimal_text :: "nat \<Rightarrow> nat \<Rightarrow> nat \<Rightarrow> string" where
  "decimal_text decimals whole frac =
     (if frac = 0 then nat_str whole
      else nat_str whole @ CHR ''.'' # strip_zeros (padStart decimals (CHR ''0'') (nat_str frac)))"

definition sign_text :: "bool \<Rightarrow> string" where
  "sign_text negative = (if negative then ''-'' else [])"

definition formatBaseUnits :: "int \<Rightarrow> nat \<Rightarrow> string" where
  "formatBaseUnits amount decimals =
     (let negative = amount < 0;
          abs = nat (if negative then - amount else amount);
          scale = 10 ^ decimals
      in sign_text negative @ decimal_text decimals (abs div scale) (abs mod scale))"

text \<open>\<open>/^\d+(\.\d+)?$/\<close>.\<close>

definition plain_decimal :: "string \<Rightarrow> bool" where
  "plain_decimal raw =
     (case split_on (CHR ''.'') raw of
        [w] \<Rightarrow> w \<noteq> [] \<and> all_digits w
      | [w, f] \<Rightarrow> w \<noteq> [] \<and> all_digits w \<and> f \<noteq> [] \<and> all_digits f
      | _ \<Rightarrow> False)"

definition whole_part :: "string \<Rightarrow> string" where
  "whole_part raw = hd (split_on (CHR ''.'') raw)"

definition frac_part :: "string \<Rightarrow> string" where
  "frac_part raw = (case split_on (CHR ''.'') raw of _ # f # _ \<Rightarrow> f | _ \<Rightarrow> [])"

definition starts_minus :: "string \<Rightarrow> bool" where
  "starts_minus s = (case s of [] \<Rightarrow> False | c # _ \<Rightarrow> c = CHR ''-'')"

definition parseBaseUnits :: "string \<Rightarrow> nat \<Rightarrow> int result" where
  "parseBaseUnits text decimals =
     (let trimmed = trim text in
      if trimmed = [] then Inl (Error ''amount is empty'')
      else
        let negative = starts_minus trimmed;
            raw = (if negative then tl trimmed else trimmed)
        in if \<not> plain_decimal raw then Inl (Error ''amount must be a non-negative decimal'')
           else if length (frac_part raw) > decimals
             then Inl (Error (''amount has more than '' @ nat_str decimals @ '' decimal places''))
           else
             let whole = str_val (whole_part raw);
                 frac = str_val (padEnd decimals (CHR ''0'') (frac_part raw));
                 v = int (whole * 10 ^ decimals + frac)
             in Inr (if negative then - v else v))"

definition remainingCap :: "int \<Rightarrow> int \<Rightarrow> int" where
  "remainingCap cap spent = (if cap > spent then cap - spent else 0)"

section \<open>Two decimals on screen\<close>

definition roundDecimalToken :: "string \<Rightarrow> string" where
  "roundDecimalToken token =
     (let negative = starts_minus token;
          body = (if negative then tl token else token);
          wholeRaw = whole_part body;
          fracRaw = frac_part body
      in if length fracRaw \<le> 2 then token
         else
           let cents0 = str_val (padEnd 2 (CHR ''0'') (take 2 fracRaw));
               whole0 = str_val wholeRaw;
               third = (if 2 < length fracRaw then fracRaw ! 2 else CHR ''0'');
               cents1 = (if (of_char third :: nat) \<ge> of_char (CHR ''5'') then cents0 + 1 else cents0);
               cents = (if cents1 \<ge> 100 then 0 else cents1);
               whole = (if cents1 \<ge> 100 then whole0 + 1 else whole0)
           in sign_text negative @
              (if cents = 0 then nat_str whole
               else nat_str whole @ CHR ''.'' # strip_zeros (padStart 2 (CHR ''0'') (nat_str cents))))"

text \<open>
  The match of \<open>/-?\d+\.\d{3,}/\<close> that starts at the head of the text, with what follows it. Every
  part of the pattern takes all it can, and what it leaves cannot start with a digit.
\<close>

definition money_token :: "string \<Rightarrow> (string \<times> string) option" where
  "money_token s =
     (let body = (if starts_minus s then tl s else s);
          w = takeWhile is_digit body;
          rest = dropWhile is_digit body
      in if w = [] then None
         else case rest of
             [] \<Rightarrow> None
           | c # after \<Rightarrow>
               (if c \<noteq> CHR ''.'' then None
                else let f = takeWhile is_digit after
                     in if length f < 3 then None
                        else Some (sign_text (starts_minus s) @ w @ CHR ''.'' # f, dropWhile is_digit after)))"

definition shown_token :: "string \<Rightarrow> string" where
  "shown_token token =
     (let rounded = roundDecimalToken token
      in if (rounded = ''0'' \<or> rounded = ''-0'') \<and> token \<noteq> ''0'' \<and> token \<noteq> ''-0'' then token else rounded)"

lemma money_token_shorter: "money_token s = Some (tok, rest) \<Longrightarrow> length rest < length s"
proof -
  assume tok: "money_token s = Some (tok, rest)"
  define body where "body = (if starts_minus s then tl s else s)"
  have "length body \<le> length s" by (simp add: body_def)
  moreover obtain c after where "dropWhile is_digit body = c # after" "rest = dropWhile is_digit after"
    using tok unfolding money_token_def body_def [symmetric]
    by (auto simp: Let_def split: list.splits if_splits)
  moreover have "length (dropWhile is_digit body) \<le> length body"
    "length (dropWhile is_digit after) \<le> length after"
    by (rule length_dropWhile_le)+
  ultimately show ?thesis by simp
qed

function roundShownAmounts :: "string \<Rightarrow> string" where
  "roundShownAmounts text =
     (case money_token text of
        Some (tok, rest) \<Rightarrow> shown_token tok @ roundShownAmounts rest
      | None \<Rightarrow> (case text of [] \<Rightarrow> [] | c # cs \<Rightarrow> c # roundShownAmounts cs))"
  by pat_completeness auto
termination
  by (relation "measure length") (auto dest: money_token_shorter)

declare roundShownAmounts.simps [simp del]

definition formatDisplayAmount :: "int \<Rightarrow> nat \<Rightarrow> string" where
  "formatDisplayAmount amount decimals = roundShownAmounts (formatBaseUnits amount decimals)"

section \<open>The command line's formatter and parser\<close>

definition U64_MAX :: int where "U64_MAX = 18446744073709551615"

definition cli_parseBaseUnits :: "string \<Rightarrow> string \<Rightarrow> int result" where
  "cli_parseBaseUnits text field =
     (let trimmed = trim text;
          bad = Inl (Error (field @ '' must be an integer in base units.''))
      in if \<not> (trimmed \<noteq> [] \<and> all_digits trimmed) then bad
         else let v = int (str_val trimmed)
              in if v \<le> 0 \<or> v > U64_MAX then bad else Inr v)"

text \<open>A number above the safe integers is above 3650 as well, so rounding in \<open>Number\<close> plays no part.\<close>

definition parseDays :: "string \<Rightarrow> int result" where
  "parseDays text =
     (let trimmed = trim text;
          bad = Inl (Error ''Days must be a whole number from 1 to 3650.'')
      in if \<not> (trimmed \<noteq> [] \<and> all_digits trimmed) then bad
         else let v = int (str_val trimmed) in if v < 1 \<or> v > 3650 then bad else Inr v)"

definition formatUnits :: "int \<Rightarrow> int \<Rightarrow> string result" where
  "formatUnits amount decimals =
     (if decimals < 0 \<or> decimals > 18 then Inl (Error ''Mint decimals are out of range.'')
      else
        let negative = amount < 0;
            abs = nat (if negative then - amount else amount);
            scale = 10 ^ nat decimals
        in Inr (sign_text negative @ decimal_text (nat decimals) (abs div scale) (abs mod scale)))"

definition formatTokenUnits :: "int \<Rightarrow> int \<Rightarrow> string result" where
  "formatTokenUnits amount decimals =
     andThen (formatUnits amount decimals) (\<lambda>exact.
       if CHR ''.'' \<notin> set exact then Inr exact
       else let frac = tl (dropWhile (\<lambda>c. c \<noteq> CHR ''.'') exact)
            in if length frac \<ge> 2 then Inr exact else Inr (exact @ replicate (2 - length frac) (CHR ''0'')))"

definition shortAddress :: "string \<Rightarrow> string" where
  "shortAddress address =
     (if length address \<le> 8 then address else take 4 address @ ''...'' @ drop (length address - 4) address)"

definition cli_isActive :: "int \<Rightarrow> int \<Rightarrow> int \<Rightarrow> bool" where
  "cli_isActive status expiresAt nowSec = (status = 0 \<and> expiresAt > nowSec)"

section \<open>The watcher's conversions\<close>

definition PRICE_SCALE :: nat where "PRICE_SCALE = 8"
definition KWH_MILLI_SCALE :: nat where "KWH_MILLI_SCALE = 3"

definition parse_err :: "string \<Rightarrow> 'a result" where
  "parse_err s = Inl (Error (''money.parseDecimalToScaled: '' @ s))"

definition parseDecimalToScaled :: "string \<Rightarrow> nat \<Rightarrow> int result" where
  "parseDecimalToScaled raw scale =
     (let trimmed = trim raw in
      if trimmed = [] then parse_err ''empty decimal''
      else if CHR ''e'' \<in> set trimmed \<or> CHR ''E'' \<in> set trimmed
        then parse_err (''scientific notation is not allowed: '' @ trimmed)
      else
        let negative = starts_minus trimmed;
            body = (if negative \<or> hd trimmed = CHR ''+'' then tl trimmed else trimmed);
            parts = split_on (CHR ''.'') body;
            wholeRaw = whole_part body;
            fracRaw = frac_part body
        in if length parts > 2 then parse_err (''bad decimal: '' @ trimmed)
           else if \<not> all_digits wholeRaw \<or> \<not> all_digits fracRaw then parse_err (''bad decimal: '' @ trimmed)
           else if wholeRaw = [] \<and> fracRaw = [] then parse_err (''bad decimal: '' @ trimmed)
           else
             let wholeDigits = (if wholeRaw = [] then ''0'' else wholeRaw);
                 fracDigits = (if length fracRaw > scale then take scale fracRaw else padEnd scale (CHR ''0'') fracRaw);
                 magnitude = int (str_val wholeDigits * 10 ^ scale + str_val fracDigits)
             in Inr ((if negative then - 1 else 1) * magnitude))"

definition amountBaseUnits :: "int \<Rightarrow> int \<Rightarrow> nat \<Rightarrow> int result" where
  "amountBaseUnits kwhMilli sekPerKwhScaled mintDecimals =
     (if kwhMilli \<le> 0 then Inl (Error ''money.amountBaseUnits: kWh volume must be positive'')
      else if sekPerKwhScaled < 0 then Inl (Error ''money.amountBaseUnits: negative price cannot become a charge'')
      else if sekPerKwhScaled = 0 then Inr 0
      else Inr ((kwhMilli * sekPerKwhScaled * 10 ^ mintDecimals) div (10 ^ KWH_MILLI_SCALE * 10 ^ PRICE_SCALE)))"

definition amountBaseUnitsUsd :: "int \<Rightarrow> int \<Rightarrow> int \<Rightarrow> int \<Rightarrow> nat \<Rightarrow> int result" where
  "amountBaseUnitsUsd kwhMilli sekPerKwhScaled usdRateScaled sekRateScaled mintDecimals =
     (if kwhMilli \<le> 0 then Inl (Error ''money.amountBaseUnitsUsd: kWh volume must be positive'')
      else if sekPerKwhScaled < 0 then Inl (Error ''money.amountBaseUnitsUsd: negative price cannot become a charge'')
      else if usdRateScaled < 0 then Inl (Error ''money.amountBaseUnitsUsd: negative USD rate cannot become a charge'')
      else if sekRateScaled \<le> 0 then Inl (Error ''money.amountBaseUnitsUsd: SEK rate must be positive'')
      else if sekPerKwhScaled = 0 \<or> usdRateScaled = 0 then Inr 0
      else Inr ((kwhMilli * sekPerKwhScaled * usdRateScaled * 10 ^ mintDecimals) div
                (10 ^ KWH_MILLI_SCALE * 10 ^ PRICE_SCALE * sekRateScaled)))"

definition usdPerSekDecimal :: "int \<Rightarrow> int \<Rightarrow> string result" where
  "usdPerSekDecimal usdRateScaled sekRateScaled =
     (if sekRateScaled \<le> 0 then Inl (Error ''money.usdPerSekDecimal: SEK rate must be positive'')
      else if usdRateScaled < 0 then Inl (Error ''money.usdPerSekDecimal: USD rate must be non-negative'')
      else
        let places = 8;
            scaled = (usdRateScaled * 10 ^ places) div sekRateScaled;
            digits = padStart (places + 1) (CHR ''0'') (nat_str (nat scaled))
        in Inr (take (length digits - places) digits @ CHR ''.'' # drop (length digits - places) digits))"

datatype SpotQuoteCurrency = SEK | USD

definition amountBaseUnitsQuoted ::
  "int \<Rightarrow> int \<Rightarrow> nat \<Rightarrow> SpotQuoteCurrency option \<Rightarrow> int option \<Rightarrow> int option \<Rightarrow> int result" where
  "amountBaseUnitsQuoted kwhMilli sekPerKwhScaled mintDecimals quoteCurrency usdRateScaled sekRateScaled =
     (if (case quoteCurrency of None \<Rightarrow> SEK | Some c \<Rightarrow> c) \<noteq> USD
      then amountBaseUnits kwhMilli sekPerKwhScaled mintDecimals
      else case (usdRateScaled, sekRateScaled) of
          (Some usd, Some sek) \<Rightarrow> amountBaseUnitsUsd kwhMilli sekPerKwhScaled usd sek mintDecimals
        | _ \<Rightarrow> Inl (Error ''money.amountBaseUnitsQuoted: USD quote needs both ECB rates''))"

section \<open>Formatting and parsing are inverse\<close>

lemma frac_digits:
  assumes "0 < f" "f < 10 ^ d"
  shows "strip_zeros (padStart d (CHR ''0'') (nat_str f)) \<noteq> []"
    and "all_digits (strip_zeros (padStart d (CHR ''0'') (nat_str f)))"
    and "length (strip_zeros (padStart d (CHR ''0'') (nat_str f))) \<le> d"
    and "str_val (padEnd d (CHR ''0'') (strip_zeros (padStart d (CHR ''0'') (nat_str f)))) = f"
proof -
  have "0 < d" using assms by (cases d) auto
  then have len: "length (padStart d (CHR ''0'') (nat_str f)) = d"
    using assms(2) by (intro length_padStart length_nat_str_le)
  show "strip_zeros (padStart d (CHR ''0'') (nat_str f)) \<noteq> []"
    using str_val_all_zero [of "padStart d (CHR ''0'') (nat_str f)"] assms(1)
    by (auto simp: strip_zeros_eq_Nil)
  show "all_digits (strip_zeros (padStart d (CHR ''0'') (nat_str f)))"
    by (intro all_digits_strip_zeros) simp
  show "length (strip_zeros (padStart d (CHR ''0'') (nat_str f))) \<le> d"
    using length_strip_zeros [of "padStart d (CHR ''0'') (nat_str f)"] len by simp
  show "str_val (padEnd d (CHR ''0'') (strip_zeros (padStart d (CHR ''0'') (nat_str f)))) = f"
    using len by (simp add: padEnd_strip_zeros)
qed

lemma decimal_parts:
  assumes "f < 10 ^ d"
  shows "plain_decimal (decimal_text d w f) \<and> whole_part (decimal_text d w f) = nat_str w \<and>
    length (frac_part (decimal_text d w f)) \<le> d \<and>
    str_val (padEnd d (CHR ''0'') (frac_part (decimal_text d w f))) = f"
proof (cases "f = 0")
  case True
  then have "split_on (CHR ''.'') (decimal_text d w f) = [nat_str w]"
    by (simp add: decimal_text_def split_on_notin all_digits_notin)
  with True show ?thesis by (simp add: plain_decimal_def whole_part_def frac_part_def padEnd_def)
next
  case False
  let ?f = "strip_zeros (padStart d (CHR ''0'') (nat_str f))"
  have fd: "?f \<noteq> []" "all_digits ?f" "length ?f \<le> d" "str_val (padEnd d (CHR ''0'') ?f) = f"
    using False assms frac_digits by simp_all
  have "split_on (CHR ''.'') (decimal_text d w f) = [nat_str w, ?f]"
    using False fd(2) by (simp add: decimal_text_def split_on_append split_on_notin all_digits_notin)
  with fd show ?thesis by (simp add: plain_decimal_def whole_part_def frac_part_def)
qed

lemma decimal_text_ends:
  assumes "f < 10 ^ d"
  shows "decimal_text d w f \<noteq> []" "is_digit (hd (decimal_text d w f))" "is_digit (last (decimal_text d w f))"
proof -
  have digs: "is_digit (hd s)" "is_digit (last s)" if "all_digits s" "s \<noteq> []" for s
    using that by (auto simp: all_digits_def list_all_iff)
  show "decimal_text d w f \<noteq> []" by (simp add: decimal_text_def)
  show "is_digit (hd (decimal_text d w f))" using digs by (simp add: decimal_text_def hd_append)
  show "is_digit (last (decimal_text d w f))"
    using digs frac_digits [of f d] assms by (auto simp: decimal_text_def)
qed

lemma not_starts_minus: "is_digit (hd s) \<Longrightarrow> s \<noteq> [] \<Longrightarrow> \<not> starts_minus s"
  by (auto simp: starts_minus_def dest: is_digit_not_special split: list.splits)


lemma parse_decimal_text:
  assumes "f < 10 ^ d"
  shows "parseBaseUnits (sign_text neg @ decimal_text d w f) d =
    Inr ((if neg then - 1 else 1) * int (w * 10 ^ d + f))"
proof -
  let ?t = "decimal_text d w f"
  have ends: "?t \<noteq> []" "is_digit (hd ?t)" "is_digit (last ?t)" using decimal_text_ends [OF assms] by simp_all
  have "trim (sign_text neg @ ?t) = sign_text neg @ ?t"
    using ends by (intro trim_id) (auto simp: sign_text_def is_space_def [of "CHR ''-''"] dest: is_digit_not_special)
  moreover have "starts_minus (sign_text neg @ ?t) = neg"
    using not_starts_minus [OF ends(2,1)] by (auto simp: sign_text_def starts_minus_def)
  moreover have "(if neg then tl (sign_text neg @ ?t) else sign_text neg @ ?t) = ?t"
    by (simp add: sign_text_def)
  ultimately show ?thesis
    using decimal_parts [OF assms, of w] ends(1) by (simp add: parseBaseUnits_def Let_def)
qed

text \<open>An amount the app prints is read back as the same amount, whatever its sign and the mint's
  decimals: the text loses nothing.\<close>

theorem parse_of_format:
  "parseBaseUnits (formatBaseUnits amount decimals) decimals = Inr amount"
proof -
  let ?a = "nat (if amount < 0 then - amount else amount)"
  have "?a mod 10 ^ decimals < 10 ^ decimals" by simp
  from parse_decimal_text [OF this, of "amount < 0" "?a div 10 ^ decimals"] show ?thesis
    unfolding formatBaseUnits_def Let_def by (simp only: div_mult_mod_eq) simp
qed

text \<open>The command line prints like the app wherever it prints.\<close>

lemma formatUnits_eq: "0 \<le> d \<Longrightarrow> d \<le> 18 \<Longrightarrow> formatUnits a d = Inr (formatBaseUnits a (nat d))"
  by (simp add: formatUnits_def formatBaseUnits_def Let_def)

section \<open>Rounding for the screen\<close>

lemma digit_val_le: "is_digit c \<Longrightarrow> digit_val c \<le> 9"
  unfolding is_digit_def digit_val_def by linarith

lemma digit_ge_five: "is_digit c \<Longrightarrow> (of_char c :: nat) \<ge> of_char (CHR ''5'') \<longleftrightarrow> 5 \<le> digit_val c"
  by (auto simp: is_digit_def digit_val_def)

lemma round_third_digit:
  fixes k t r :: nat
  assumes "t \<le> 9" "r < 10 ^ m"
  shows "((k * 10 + t) * 10 ^ m + r + 5 * 10 ^ m) div 10 ^ Suc m = (if 5 \<le> t then k + 1 else k)"
proof -
  have q: "((k * 10 + t) * 10 ^ m + r + 5 * 10 ^ m) div 10 ^ m = k * 10 + t + 5"
  proof -
    have "(k * 10 + t) * 10 ^ m + r + 5 * 10 ^ m = r + (k * 10 + t + 5) * 10 ^ m" by (simp add: algebra_simps)
    then show ?thesis using assms(2) by simp
  qed
  have "((k * 10 + t) * 10 ^ m + r + 5 * 10 ^ m) div 10 ^ Suc m = (k * 10 + t + 5) div 10"
    by (simp only: power_Suc2 div_mult2_eq q)
  then show ?thesis using assms(1) by auto
qed

lemma roundDecimalToken_eq:
  assumes "all_digits f" "length f = n" "3 \<le> n"
  shows "roundDecimalToken (sign_text neg @ nat_str w @ CHR ''.'' # f) =
    (let c = w * 100 + (str_val f + 5 * 10 ^ (n - 3)) div 10 ^ (n - 2)
     in sign_text neg @ decimal_text 2 (c div 100) (c mod 100))"
proof -
  obtain a b t r where f: "f = a # b # t # r" and r: "length r = n - 3"
    using assms(2,3) by (cases f; cases "tl f"; cases "tl (tl f)") auto
  let ?k = "str_val [a, b]"
  have dig: "is_digit t" "all_digits [a, b]" "all_digits r" using assms(1) f by (simp_all add: all_digits_def)
  have k: "?k < 100" using str_val_less [OF dig(2)] by simp
  have "str_val f = (?k * 10 + digit_val t) * 10 ^ (n - 3) + str_val r"
    using f r str_val_append [of "[a, b] @ [t]" r] str_val_snoc [of "[a, b]" t] by simp
  moreover have "n - 2 = Suc (n - 3)" using assms(3) by simp
  moreover have "str_val r < 10 ^ (n - 3)" using str_val_less [OF dig(3)] r by simp
  ultimately have round: "(str_val f + 5 * 10 ^ (n - 3)) div 10 ^ (n - 2) = (if 5 \<le> digit_val t then ?k + 1 else ?k)"
    using round_third_digit [OF digit_val_le [OF dig(1)]] by simp
  have minus: "starts_minus (sign_text neg @ nat_str w @ CHR ''.'' # f) = neg"
    using not_starts_minus [of "nat_str w"] decimal_text_ends(2) [of 0 0 w]
    by (auto simp: sign_text_def starts_minus_def decimal_text_def neq_Nil_conv split: list.splits)
  have parts: "split_on (CHR ''.'') (nat_str w @ CHR ''.'' # f) = [nat_str w, f]"
    using assms(1) by (simp add: split_on_append split_on_notin all_digits_notin)
  have body: "(if neg then tl (sign_text neg @ nat_str w @ CHR ''.'' # f) else sign_text neg @ nat_str w @ CHR ''.'' # f) =
      nat_str w @ CHR ''.'' # f" by (simp add: sign_text_def)
  define c1 where "c1 = (if 5 \<le> digit_val t then ?k + 1 else ?k)"
  have c1: "c1 \<le> 100" using k by (simp add: c1_def)
  have "roundDecimalToken (sign_text neg @ nat_str w @ CHR ''.'' # f) =
      sign_text neg @ decimal_text 2 (if c1 \<ge> 100 then w + 1 else w) (if c1 \<ge> 100 then 0 else c1)"
    using assms(2,3) f unfolding roundDecimalToken_def minus body Let_def whole_part_def frac_part_def parts
    by (simp add: digit_ge_five [OF dig(1), simplified] padEnd_def c1_def decimal_text_def)
  moreover have "(w * 100 + c1) div 100 = (if c1 \<ge> 100 then w + 1 else w)"
      "(w * 100 + c1) mod 100 = (if c1 \<ge> 100 then 0 else c1)"
    using c1 by (cases "c1 = 100"; simp)+
  ultimately show ?thesis by (simp add: round c1_def [symmetric] Let_def)
qed


lemma nat_str_0: "nat_str 0 = ''0''"
  by code_simp

lemma strip_zeros_last: "strip_zeros s \<noteq> [] \<Longrightarrow> last (strip_zeros s) \<noteq> CHR ''0''"
  using hd_dropWhile [of "\<lambda>c. c = CHR ''0''" "rev s"] by (simp add: strip_zeros_def last_rev)

lemma stripped_length:
  assumes "0 < f" "f < 10 ^ d" "2 \<le> d"
  shows "length (strip_zeros (padStart d (CHR ''0'') (nat_str f))) \<le> 2 \<longleftrightarrow> 10 ^ (d - 2) dvd f"
proof -
  let ?s = "strip_zeros (padStart d (CHR ''0'') (nat_str f))"
  have ne: "?s \<noteq> []" and digs: "all_digits ?s" and le: "length ?s \<le> d"
    and val: "f = str_val ?s * 10 ^ (d - length ?s)"
    using frac_digits [OF assms(1,2)] by (simp_all add: padEnd_def str_val_append)
  show ?thesis
  proof
    assume "length ?s \<le> 2"
    then have "10 ^ (d - 2) dvd (10 :: nat) ^ (d - length ?s)" by (intro le_imp_power_dvd) simp
    then show "10 ^ (d - 2) dvd f" by (subst val) (rule dvd_mult)
  next
    assume dvd: "10 ^ (d - 2) dvd f"
    show "length ?s \<le> 2"
    proof (rule ccontr)
      assume long: "\<not> length ?s \<le> 2"
      define k where "k = length ?s - 3"
      have k: "d - 2 = Suc k + (d - length ?s)" using le long by (simp add: k_def)
      have "10 ^ Suc k * 10 ^ (d - length ?s) dvd str_val ?s * 10 ^ (d - length ?s)"
        using dvd val k by (metis power_add)
      then have "10 ^ Suc k dvd str_val ?s" by simp
      then have ten: "10 dvd str_val ?s" by (metis dvd_mult_left power_Suc)
      obtain p c where pc: "?s = p @ [c]" using ne by (cases ?s rule: rev_cases) simp_all
      have c: "is_digit c" "c \<noteq> CHR ''0''"
        using digs strip_zeros_last [OF ne] pc by (simp_all add: all_digits_def)
      have "10 dvd digit_val c" using ten pc by (simp add: str_val_snoc dvd_add_right_iff)
      then have "digit_val c = 0" using digit_val_le [OF c(1)] by (auto dest: dvd_imp_le)
      then have "(of_char c :: nat) = of_char (CHR ''0'')"
        using c(1) by (simp add: digit_val_def is_digit_def)
      then show False using c(2) by (metis of_char_eq_iff)
    qed
  qed
qed

lemma roundShownAmounts_Nil: "roundShownAmounts [] = []"
  by (simp add: roundShownAmounts.simps [of "[]"] money_token_def starts_minus_def)

lemma no_token_id:
  "(\<And>xs ys. s = xs @ CHR ''.'' # ys \<Longrightarrow> length ys < 3) \<Longrightarrow> roundShownAmounts s = s"
proof (induction s)
  case Nil
  show ?case by (rule roundShownAmounts_Nil)
next
  case (Cons c s)
  have "money_token (c # s) = None"
  proof (rule ccontr)
    assume "money_token (c # s) \<noteq> None"
    then obtain body after where body: "body = (if starts_minus (c # s) then s else c # s)"
      and after: "dropWhile is_digit body = CHR ''.'' # after" "3 \<le> length (takeWhile is_digit after)"
      by (auto simp: money_token_def Let_def split: list.splits if_splits)
    have "body = takeWhile is_digit body @ CHR ''.'' # after"
      using after(1) takeWhile_dropWhile_id [of is_digit body] by simp
    then obtain xs where "c # s = xs @ CHR ''.'' # after"
      using body by (metis append_Cons)
    moreover have "3 \<le> length after" using after(2) length_takeWhile_le [of is_digit after] by simp
    ultimately show False using Cons.prems by fastforce
  qed
  moreover have "roundShownAmounts s = s" using Cons.prems by (intro Cons.IH) (metis append_Cons)
  ultimately show ?case by (simp add: roundShownAmounts.simps [of "c # s"])
qed


lemma money_token_whole:
  assumes "all_digits f" "3 \<le> length f"
  shows "money_token (sign_text neg @ nat_str w @ CHR ''.'' # f) = Some (sign_text neg @ nat_str w @ CHR ''.'' # f, [])"
proof -
  have w: "list_all is_digit (nat_str w)" using all_digits_nat_str [of w] by (simp add: all_digits_def)
  have dot: "\<not> is_digit (CHR ''.'')" by (simp add: is_digit_def)
  have tw: "takeWhile is_digit (nat_str w @ CHR ''.'' # f) = nat_str w"
      "dropWhile is_digit (nat_str w @ CHR ''.'' # f) = CHR ''.'' # f"
    using w dot by (simp_all add: list_all_iff takeWhile_append dropWhile_append)
  have ff: "takeWhile is_digit f = f" "dropWhile is_digit f = []"
    using assms(1) by (simp_all add: all_digits_def list_all_iff takeWhile_eq_all_conv)
  have minus: "starts_minus (sign_text neg @ nat_str w @ CHR ''.'' # f) = neg"
    using not_starts_minus [of "nat_str w"] decimal_text_ends(2) [of 0 0 w]
    by (auto simp: sign_text_def starts_minus_def decimal_text_def neq_Nil_conv split: list.splits)
  have body: "(if neg then tl (sign_text neg @ nat_str w @ CHR ''.'' # f) else sign_text neg @ nat_str w @ CHR ''.'' # f) =
      nat_str w @ CHR ''.'' # f" by (simp add: sign_text_def)
  show ?thesis
    unfolding money_token_def minus body Let_def using assms(2) by (simp add: tw ff)
qed

lemma shown_decimal:
  assumes "0 < f" "f < 10 ^ d" "3 \<le> d" "\<not> 10 ^ (d - 2) dvd f"
  shows "roundShownAmounts (sign_text neg @ decimal_text d w f) =
    (let c = (w * 10 ^ d + f + 10 ^ (d - 2) div 2) div 10 ^ (d - 2)
     in if c = 0 then sign_text neg @ decimal_text d w f else sign_text neg @ decimal_text 2 (c div 100) (c mod 100))"
proof -
  let ?s = "strip_zeros (padStart d (CHR ''0'') (nat_str f))" and ?n = "length (strip_zeros (padStart d (CHR ''0'') (nat_str f)))"
  let ?t = "sign_text neg @ nat_str w @ CHR ''.'' # ?s"
  define c where "c = w * 100 + (str_val ?s + 5 * 10 ^ (?n - 3)) div 10 ^ (?n - 2)"
  have digs: "all_digits ?s" "?n \<le> d" and val: "f = str_val ?s * 10 ^ (d - ?n)"
    using frac_digits [OF assms(1,2)] by (simp_all add: padEnd_def str_val_append)
  have n: "3 \<le> ?n" using stripped_length [OF assms(1,2)] assms(3,4) by simp
  have txt_eq: "sign_text neg @ decimal_text d w f = ?t" using assms(1) by (simp add: decimal_text_def)
  have "roundShownAmounts ?t = shown_token ?t"
    by (simp add: roundShownAmounts.simps [of ?t] money_token_whole [OF digs(1) n]
        roundShownAmounts_Nil)
  moreover have "roundDecimalToken ?t = sign_text neg @ decimal_text 2 (c div 100) (c mod 100)"
    using roundDecimalToken_eq [OF digs(1) refl n] by (simp add: c_def Let_def)
  moreover have "sign_text neg @ decimal_text 2 (c div 100) (c mod 100) = ''0'' \<or>
      sign_text neg @ decimal_text 2 (c div 100) (c mod 100) = ''-0'' \<longleftrightarrow> c = 0"
  proof -
    have nz: "nat_str x = ''0'' \<longleftrightarrow> x = 0" for x
      using nat_str_inj [of x 0] by (simp add: nat_str_0)
    have "CHR ''-'' \<notin> set (nat_str x)" for x by (rule all_digits_notin(2)) simp
    then have "nat_str x \<noteq> CHR ''-'' # r" for x r by (metis list.set_intros(1))
    with nz show ?thesis
      by (cases neg) (auto simp: sign_text_def decimal_text_def Cons_eq_append_conv append_eq_Cons_conv)
  qed
  moreover have "?t \<noteq> ''0''" "?t \<noteq> ''-0''"
    using n by (auto dest: arg_cong [where f = length] simp: sign_text_def split: if_splits)
  moreover have "c = (w * 10 ^ d + f + 10 ^ (d - 2) div 2) div 10 ^ (d - 2)"
  proof -
    define m where "m = ?n - 3"
    define k where "k = d - ?n"
    have d: "d = k + m + 3" "?n = m + 3" using n digs(2) by (simp_all add: m_def k_def)
    have pows: "10 ^ d = 10 ^ k * (10 :: nat) ^ (m + 3)" "10 ^ (d - 2) div 2 = 10 ^ k * (5 * 10 ^ m :: nat)"
      by (simp_all add: d(1) power_add)
    define v where "v = str_val ?s"
    have "f = 10 ^ k * v" using val unfolding k_def v_def by (metis mult.commute)
    then have "w * 10 ^ d + f + 10 ^ (d - 2) div 2 = 10 ^ k * (w * 10 ^ (m + 3) + (v + 5 * 10 ^ m))"
      unfolding pows by (simp add: algebra_simps)
    moreover have "10 ^ (d - 2) = 10 ^ k * (10 :: nat) ^ (m + 1)" by (simp add: d power_add)
    ultimately have "(w * 10 ^ d + f + 10 ^ (d - 2) div 2) div 10 ^ (d - 2) =
        (w * 10 ^ (m + 3) + (v + 5 * 10 ^ m)) div 10 ^ (m + 1)" by simp
    also have "w * 10 ^ (m + 3) = (w * 100) * 10 ^ (m + 1)" by (simp add: power_add)
    also have "((w * 100) * 10 ^ (m + 1) + (v + 5 * 10 ^ m)) div 10 ^ (m + 1) =
        w * 100 + (v + 5 * 10 ^ m) div 10 ^ (m + 1)" by (rule div_mult_self3) simp
    finally show ?thesis using d(2) by (simp add: c_def v_def)
  qed
  ultimately show ?thesis unfolding txt_eq by (simp add: shown_token_def Let_def)
qed


lemma shown_exact:
  assumes "f < 10 ^ d" "f = 0 \<or> length (strip_zeros (padStart d (CHR ''0'') (nat_str f))) \<le> 2"
  shows "roundShownAmounts (sign_text neg @ decimal_text d w f) = sign_text neg @ decimal_text d w f"
proof (rule no_token_id)
  fix xs ys
  let ?s = "strip_zeros (padStart d (CHR ''0'') (nat_str f))"
  assume eq: "sign_text neg @ decimal_text d w f = xs @ CHR ''.'' # ys"
  have sw: "CHR ''.'' \<notin> set (sign_text neg @ nat_str w)"
    using all_digits_notin(1) [of "nat_str w"] by (simp add: sign_text_def)
  show "length ys < 3"
  proof (cases "f = 0")
    case True
    with eq sw show ?thesis by (auto simp: decimal_text_def dest: arg_cong [where f = set])
  next
    case False
    then have "(sign_text neg @ nat_str w) @ CHR ''.'' # ?s = xs @ CHR ''.'' # ys"
      using eq by (simp add: decimal_text_def)
    moreover have "CHR ''.'' \<notin> set ?s"
      using False assms(1) frac_digits(2) [of f d] by (intro all_digits_notin) simp
    ultimately have "ys = ?s" using sw by (auto simp: append_eq_append_conv2 Cons_eq_append_conv append_eq_Cons_conv)
    then show ?thesis using assms(2) False by simp
  qed
qed

lemma formatBaseUnits_nonneg:
  "formatBaseUnits (if neg then - int n else int n) d = sign_text (neg \<and> n \<noteq> 0) @ decimal_text d (n div 10 ^ d) (n mod 10 ^ d)"
  by (simp add: formatBaseUnits_def Let_def)

text \<open>An amount on screen is exact when it has at most two decimals or would round to zero, and
  otherwise it is the amount rounded to hundredths, half away from zero, printed in the same
  format. So what is shown is never more than half a hundredth off, and a non-zero amount is never
  shown as zero.\<close>

theorem display_rounds_to_hundredths:
  "formatDisplayAmount amount decimals =
     (if decimals \<le> 2 \<or> 10 ^ (decimals - 2) dvd amount \<or> 2 * \<bar>amount\<bar> < 10 ^ (decimals - 2)
      then formatBaseUnits amount decimals
      else formatBaseUnits (sgn amount * ((\<bar>amount\<bar> + 10 ^ (decimals - 2) div 2) div 10 ^ (decimals - 2))) 2)"
proof -
  define n where "n = nat \<bar>amount\<bar>"
  define neg where "neg = (amount < 0)"
  have amount: "amount = (if neg then - int n else int n)" by (simp add: n_def neg_def)
  let ?d = decimals
  let ?w = "n div 10 ^ ?d" and ?f = "n mod 10 ^ ?d"
  have neg: "neg \<Longrightarrow> n \<noteq> 0" by (auto simp: n_def neg_def)
  have fmt: "formatBaseUnits amount ?d = sign_text neg @ decimal_text ?d ?w ?f"
    using neg by (simp add: formatBaseUnits_def Let_def n_def neg_def)
  have dvd: "10 ^ (?d - 2) dvd amount \<longleftrightarrow> 10 ^ (?d - 2) dvd ?f"
  proof -
    have "10 ^ (?d - 2) dvd (10 :: nat) ^ ?d" by (intro le_imp_power_dvd) simp
    then have "10 ^ (?d - 2) dvd ?f \<longleftrightarrow> 10 ^ (?d - 2) dvd n" by (rule dvd_mod_iff)
    also have "\<dots> \<longleftrightarrow> 10 ^ (?d - 2) dvd amount"
      by (simp add: n_def nat_dvd_iff [symmetric] flip: int_dvd_int_iff)
    finally show ?thesis by simp
  qed
  show ?thesis
  proof (cases "?f = 0 \<or> ?d \<le> 2 \<or> 10 ^ (?d - 2) dvd ?f")
    case True
    then have "?f = 0 \<or> length (strip_zeros (padStart ?d (CHR ''0'') (nat_str ?f))) \<le> 2"
      using frac_digits(3) [of ?f ?d] stripped_length [of ?f ?d] by (cases "?d \<le> 2") fastforce+
    then show ?thesis
      using shown_exact [of ?f ?d neg ?w] True dvd by (auto simp: formatDisplayAmount_def fmt)
  next
    case False
    let ?c = "(n + 10 ^ (?d - 2) div 2) div 10 ^ (?d - 2)"
    have "roundShownAmounts (sign_text neg @ decimal_text ?d ?w ?f) =
        (if ?c = 0 then sign_text neg @ decimal_text ?d ?w ?f else sign_text neg @ decimal_text 2 (?c div 100) (?c mod 100))"
      using shown_decimal [of ?f ?d neg ?w] False unfolding div_mult_mod_eq Let_def by simp
    moreover have "?c = 0 \<longleftrightarrow> 2 * \<bar>amount\<bar> < 10 ^ (?d - 2)"
    proof -
      have "even ((10 :: nat) ^ (?d - 2))" using False by simp
      then have "?c = 0 \<longleftrightarrow> 2 * n < 10 ^ (?d - 2)" by (auto simp: div_eq_0_iff elim!: evenE)
      also have "\<dots> \<longleftrightarrow> 2 * \<bar>amount\<bar> < 10 ^ (?d - 2)"
        using of_nat_less_iff [where 'a = int, of "2 * n" "10 ^ (?d - 2)"] by (simp add: n_def)
      finally show ?thesis .
    qed
    moreover have "formatBaseUnits (sgn amount * ((\<bar>amount\<bar> + 10 ^ (?d - 2) div 2) div 10 ^ (?d - 2))) 2 =
        sign_text (neg \<and> ?c \<noteq> 0) @ decimal_text 2 (?c div 100) (?c mod 100)"
    proof -
      have "sgn amount * ((\<bar>amount\<bar> + 10 ^ (?d - 2) div 2) div 10 ^ (?d - 2)) = (if neg then - int ?c else int ?c)"
        using False neg by (auto simp: amount zdiv_int)
      then show ?thesis using formatBaseUnits_nonneg [of neg ?c 2] by simp
    qed
    ultimately show ?thesis
      using False dvd neg by (auto simp: formatDisplayAmount_def fmt)
  qed
qed


section \<open>What the watcher asks for\<close>

text \<open>The exact price as a fraction of mint base units.\<close>

definition exact_price :: "int \<Rightarrow> int \<Rightarrow> nat \<Rightarrow> SpotQuoteCurrency option \<Rightarrow> int option \<Rightarrow> int option \<Rightarrow> int \<times> int" where
  "exact_price kwhMilli price decimals currency usd sek =
     (if currency = Some USD then (kwhMilli * price * the usd * 10 ^ decimals, 10 ^ 11 * the sek)
      else (kwhMilli * price * 10 ^ decimals, 10 ^ 11))"

lemma floor_fraction:
  fixes n d :: int
  assumes "0 < d" "0 \<le> n"
  shows "0 \<le> n div d \<and> n div d * d \<le> n \<and> n < (n div d + 1) * d"
proof -
  have e: "n div d * d + n mod d = n" by (rule div_mult_mod_eq)
  have m: "0 \<le> n mod d" "n mod d < d" using assms by simp_all
  have "(n div d + 1) * d = n div d * d + d" by (simp add: distrib_right)
  with e m have "n div d * d \<le> n" "n < (n div d + 1) * d" by linarith+
  then show ?thesis using assms by (simp add: pos_imp_zdiv_nonneg_iff)
qed

text \<open>A charge the watcher computes is the exact price rounded down to whole base units: never
  above the price, and less than one base unit below it.\<close>

theorem quoted_charge_rounds_down:
  assumes "amountBaseUnitsQuoted kwhMilli price decimals currency usd sek = Inr x"
    and "exact_price kwhMilli price decimals currency usd sek = (num, den)"
  shows "0 < den \<and> 0 \<le> x \<and> x * den \<le> num \<and> num < (x + 1) * den"
proof (cases "currency = Some USD")
  case True
  then obtain u s where us: "usd = Some u" "sek = Some s"
    and eq: "amountBaseUnitsUsd kwhMilli price u s decimals = Inr x"
    using assms(1) by (auto simp: amountBaseUnitsQuoted_def split: option.splits)
  have pos: "0 < kwhMilli" "0 \<le> price" "0 \<le> u" "0 < s"
    using eq by (auto simp: amountBaseUnitsUsd_def split: if_splits)
  have nd: "num = kwhMilli * price * u * 10 ^ decimals" "den = 10 ^ 11 * s"
    using assms(2) True us by (auto simp: exact_price_def)
  moreover have "x = num div den"
    using eq pos nd by (auto simp: amountBaseUnitsUsd_def KWH_MILLI_SCALE_def PRICE_SCALE_def split: if_splits)
  ultimately show ?thesis using floor_fraction [of den num] pos by simp
next
  case False
  then have eq: "amountBaseUnits kwhMilli price decimals = Inr x"
    using assms(1) by (auto simp: amountBaseUnitsQuoted_def split: option.splits SpotQuoteCurrency.splits)
  have pos: "0 < kwhMilli" "0 \<le> price" using eq by (auto simp: amountBaseUnits_def split: if_splits)
  have nd: "num = kwhMilli * price * 10 ^ decimals" "den = 10 ^ 11"
    using assms(2) False by (auto simp: exact_price_def)
  moreover have "x = num div den"
    using eq pos nd by (auto simp: amountBaseUnits_def KWH_MILLI_SCALE_def PRICE_SCALE_def split: if_splits)
  ultimately show ?thesis using floor_fraction [of den num] pos by simp
qed


lemma decimal_text_no_e:
  assumes "f < 10 ^ d" "c \<in> set (decimal_text d w f)"
  shows "is_digit c \<or> c = CHR ''.''"
  using assms frac_digits(2) [of f d] all_digits_nat_str [of w]
  by (auto simp: decimal_text_def all_digits_def list_all_iff split: if_splits)

text \<open>The watcher's decimal parser reads an amount the formatter printed exactly, at the same
  scale.\<close>

theorem watcher_reads_decimals:
  "parseDecimalToScaled (formatBaseUnits amount scale) scale = Inr amount"
proof -
  let ?a = "nat (if amount < 0 then - amount else amount)"
  let ?w = "?a div 10 ^ scale" and ?f = "?a mod 10 ^ scale" and ?neg = "amount < 0"
  let ?t = "decimal_text scale ?w ?f"
  have f: "?f < 10 ^ scale" by simp
  note parts = decimal_parts [OF f, of ?w] and ends = decimal_text_ends [OF f, of ?w]
  have trim: "trim (sign_text ?neg @ ?t) = sign_text ?neg @ ?t"
    using ends by (intro trim_id) (auto simp: sign_text_def is_space_def [of "CHR ''-''"] dest: is_digit_not_special)
  have minus: "starts_minus (sign_text ?neg @ ?t) = ?neg"
    using not_starts_minus [OF ends(2,1)] by (auto simp: sign_text_def starts_minus_def)
  have body: "(if ?neg \<or> hd (sign_text ?neg @ ?t) = CHR ''+'' then tl (sign_text ?neg @ ?t) else sign_text ?neg @ ?t) = ?t"
    using ends is_digit_not_special(3) [OF ends(2)] by (cases ?neg) (simp_all add: sign_text_def)
  have e: "CHR ''e'' \<notin> set (sign_text ?neg @ ?t)" "CHR ''E'' \<notin> set (sign_text ?neg @ ?t)"
    using decimal_text_no_e [OF f] by (force simp: sign_text_def is_digit_def)+
  have two: "length (split_on (CHR ''.'') ?t) \<le> 2" "all_digits (whole_part ?t)" "all_digits (frac_part ?t)" "whole_part ?t \<noteq> []"
    using parts by (auto simp: plain_decimal_def whole_part_def frac_part_def all_digits_def split: list.splits)
  have "int (?w * 10 ^ scale + ?f) = int ?a" by (simp only: div_mult_mod_eq)
  then have "(if ?neg then - 1 else 1) * int (?w * 10 ^ scale + ?f) = amount" by auto
  then show ?thesis
    unfolding formatBaseUnits_def parseDecimalToScaled_def Let_def trim minus body
    using e two parts ends(1) by (simp add: not_less)
qed

end
