(* ===== verification/Tokens.thy ===== *)
theory Tokens
  imports Money Decision_Codes
begin

text \<open>
  The app's lines of text about tokens, reasons and time: \<^verbatim>\<open>app/lib/tokens.ts\<close>,
  \<^verbatim>\<open>app/lib/reasons.ts\<close> and the calendar-free part of \<^verbatim>\<open>app/lib/format.ts\<close>. A mint that
  may be null or undefined is a \<open>string option\<close>.
\<close>

section \<open>Tokens\<close>

definition VTEST_MINT :: string where "VTEST_MINT = ''2dV6DLAUF63ugfD1sgNF8fUmQKr9pMDzeLxJGSwkMcCU''"
definition WSOL_MINT :: string where "WSOL_MINT = ''So11111111111111111111111111111111111111112''"
definition DEVNET_USDC_MINT :: string where "DEVNET_USDC_MINT = ''4zMMC9srt5Ri5X14GAgXhaHii3GnPAEERYPJgZJDncDU''"
definition MAINNET_USDC_MINT :: string where "MAINNET_USDC_MINT = ''EPjFWdd5AufqSSqeM2qN1xzybapC8G4wEGGkZwyTDt1v''"
definition SKR_MINT :: string where "SKR_MINT = ''SKRbvo6Gf7GondiT3BbTfuRDPqLWei4j2Qy2NPGZhW3''"

lemmas mint_defs = VTEST_MINT_def WSOL_MINT_def DEVNET_USDC_MINT_def MAINNET_USDC_MINT_def SKR_MINT_def

record KnownToken =
  kt_mint :: string
  kt_symbol :: string
  kt_name :: string

definition KNOWN_TOKENS :: "KnownToken list" where
  "KNOWN_TOKENS =
     [\<lparr>kt_mint = WSOL_MINT, kt_symbol = ''wrapped SOL'', kt_name = ''Wrapped SOL''\<rparr>,
      \<lparr>kt_mint = VTEST_MINT, kt_symbol = ''VTEST'', kt_name = ''Veto test token''\<rparr>,
      \<lparr>kt_mint = DEVNET_USDC_MINT, kt_symbol = ''USDC'', kt_name = ''USDC''\<rparr>,
      \<lparr>kt_mint = MAINNET_USDC_MINT, kt_symbol = ''USDC'', kt_name = ''USDC''\<rparr>,
      \<lparr>kt_mint = SKR_MINT, kt_symbol = ''SKR'', kt_name = ''SKR''\<rparr>]"

definition byMint :: "string \<Rightarrow> KnownToken option" where
  "byMint = map_of (map (\<lambda>row. (kt_mint row, row)) KNOWN_TOKENS)"

definition mint_key :: "string option \<Rightarrow> string" where
  "mint_key mint = (case mint of None \<Rightarrow> [] | Some m \<Rightarrow> trim m)"

definition knownToken :: "string option \<Rightarrow> KnownToken option" where
  "knownToken mint = (if mint_key mint = [] then None else byMint (mint_key mint))"

definition shortenMint :: "string \<Rightarrow> string" where
  "shortenMint mint = (if length mint \<le> 8 then mint else take 4 mint @ ''...'' @ drop (length mint - 4) mint)"

definition tokenSymbol :: "string option \<Rightarrow> string" where
  "tokenSymbol mint =
     (let key = mint_key mint in
      if key = [] then []
      else case byMint key of Some known \<Rightarrow> kt_symbol known | None \<Rightarrow> shortenMint key)"

definition tokenName :: "string option \<Rightarrow> string option" where
  "tokenName mint = map_option kt_name (knownToken mint)"

definition endsWith :: "string \<Rightarrow> string \<Rightarrow> bool" where
  "endsWith s t = (length t \<le> length s \<and> drop (length s - length t) s = t)"

definition withToken :: "string \<Rightarrow> string option \<Rightarrow> string" where
  "withToken amount mint =
     (let symbol = tokenSymbol mint in
      if symbol = [] \<or> amount = [] then amount
      else if endsWith amount (CHR '' '' # symbol) then amount
      else amount @ CHR '' '' # symbol)"

definition formatTokenAmount :: "int \<Rightarrow> nat \<Rightarrow> string option \<Rightarrow> string" where
  "formatTokenAmount amount decimals mint = withToken (formatBaseUnits amount decimals) mint"

definition formatTokenDisplay :: "int \<Rightarrow> nat \<Rightarrow> string option \<Rightarrow> string" where
  "formatTokenDisplay amount decimals mint = withToken (formatDisplayAmount amount decimals) mint"

definition devnetTestTokenNote :: "string option \<Rightarrow> string option \<Rightarrow> string option" where
  "devnetTestTokenNote mint cluster =
     (if mint_key cluster \<noteq> ''devnet'' then None
      else if mint_key mint = VTEST_MINT then Some ''VTEST is a devnet test token with no value.''
      else if mint_key mint = DEVNET_USDC_MINT then Some ''USDC on devnet is Circle's test token. It has no value.''
      else None)"

definition mainnetPreviewNote :: "string option \<Rightarrow> string option \<Rightarrow> string option" where
  "mainnetPreviewNote mint cluster =
     (if map_option trim mint = Some SKR_MINT \<and> map_option trim cluster = Some ''mainnet-beta''
      then Some ''Mainnet preview. Real SKR. Small caps on purpose.'' else None)"

text \<open>The loop keeps the mints in the order they first appear and counts each one.\<close>

fun tally :: "string list \<Rightarrow> string list \<times> (string \<Rightarrow> nat) \<Rightarrow> string list \<times> (string \<Rightarrow> nat)" where
  "tally [] st = st"
| "tally (mint # mints) (order, counts) =
     tally mints (if counts mint = 0 then order @ [mint] else order, counts(mint := counts mint + 1))"

definition join :: "string \<Rightarrow> string list \<Rightarrow> string" where
  "join sep parts = concat (case parts of [] \<Rightarrow> [] | p # ps \<Rightarrow> p # map (\<lambda>q. sep @ q) ps)"

definition rulesTokenSummary :: "string list \<Rightarrow> string option" where
  "rulesTokenSummary mints =
     (let present = filter (\<lambda>m. length m > 0) (map trim mints) in
      if present = [] then None
      else
        let (order, counts) = tally present ([], \<lambda>_. 0) in
        if length order = 1 then
          let symbol = tokenSymbol (Some (order ! 0)); count = length present
          in Some (if count = 1 then ''This rule uses '' @ symbol @ ''.''
                   else ''All '' @ nat_str count @ '' rules use '' @ symbol @ ''.'')
        else
          let parts = map (\<lambda>mint. let count = counts mint; symbol = tokenSymbol (Some mint)
                                  in if count = 1 then ''1 rule in '' @ symbol
                                     else nat_str count @ '' rules in '' @ symbol) order
          in Some (join ''. '' parts @ ''.''))"

section \<open>Reasons\<close>

record ReasonView =
  rv_reason :: int
  rv_text :: string
  rv_overrideLine :: "string option"

definition renderReason :: "int \<Rightarrow> int \<Rightarrow> nat \<Rightarrow> string option \<Rightarrow> ReasonView" where
  "renderReason reason suggestedOverride decimals mint =
     (let wording = reasonText reason in
      if reason \<noteq> 5 then \<lparr>rv_reason = reason, rv_text = wording, rv_overrideLine = None\<rparr>
      else if suggestedOverride > 0 then
        \<lparr>rv_reason = reason, rv_text = wording,
         rv_overrideLine = Some (''An override of '' @ formatTokenAmount suggestedOverride decimals mint @
           '' would have cleared it.'')\<rparr>
      else \<lparr>rv_reason = reason, rv_text = wording, rv_overrideLine = Some ''No override would have cleared this.''\<rparr>)"

definition extra_line :: "ReasonView \<Rightarrow> string" where
  "extra_line view = (case rv_overrideLine view of Some l \<Rightarrow> if l = [] then [] else CHR '' '' # l | None \<Rightarrow> [])"

datatype unit_noun = payment | trade

definition refusalWhyLine :: "int \<Rightarrow> int \<Rightarrow> int \<Rightarrow> nat \<Rightarrow> int option \<Rightarrow> string option \<Rightarrow> unit_noun option \<Rightarrow> string" where
  "refusalWhyLine reason amount suggestedOverride decimals perTxMax mint noun_unit =
     (let view = renderReason reason suggestedOverride decimals mint in
      case perTxMax of
        Some limit0 \<Rightarrow>
          (if reason = 5 then
             let a = formatTokenAmount amount decimals mint;
                 limit = formatTokenAmount limit0 decimals mint;
                 noun = (if noun_unit = Some trade then ''per-trade'' else ''per-payment'')
             in ''Asked for '' @ a @ '', over the '' @ limit @ '' '' @ noun @ '' maximum.'' @ extra_line view
           else trim (rv_text view @ ''.'' @ extra_line view))
      | None \<Rightarrow> trim (rv_text view @ ''.'' @ extra_line view))"

section \<open>Time left and decision counts\<close>

definition formatTimeLeft :: "int \<Rightarrow> int \<Rightarrow> string" where
  "formatTimeLeft expiresAt nowSec =
     (if nowSec \<ge> expiresAt then ''expired''
      else
        let sec = expiresAt - nowSec;
            days = sec div 86400;
            hours = (sec mod 86400) div 3600;
            minutes = (sec mod 3600) div 60
        in if days > 0 then int_str days @ ''d '' @ int_str hours @ ''h left''
           else if hours > 0 then int_str hours @ ''h '' @ int_str minutes @ ''m left''
           else if minutes > 0 then int_str minutes @ ''m left''
           else ''less than a minute left'')"

definition timeLeftParts :: "int \<Rightarrow> int \<Rightarrow> string \<times> string" where
  "timeLeftParts expiresAt nowSec =
     (if nowSec \<ge> expiresAt then (''0'', ''expired'')
      else
        let sec = expiresAt - nowSec; days = sec div 86400 in
        if days > 0 then (int_str days, if days = 1 then ''day left'' else ''days left'')
        else
          let hours = sec div 3600 in
          if hours > 0 then (int_str hours, if hours = 1 then ''hour left'' else ''hours left'')
          else
            let minutes = sec div 60 in
            if minutes > 0 then (int_str minutes, if minutes = 1 then ''minute left'' else ''minutes left'')
            else (''1'', ''minute left''))"

text \<open>\<open>KIND_ADVISORY_DECLINE\<close> is 100, a kind the program never writes.\<close>

definition isListedDecision :: "int \<Rightarrow> bool" where
  "isListedDecision kind = (kind = 1 \<or> kind = 2 \<or> kind = 3 \<or> kind = 100)"

fun decisionTotals_from :: "int list \<Rightarrow> nat \<times> nat \<times> nat \<Rightarrow> nat \<times> nat \<times> nat" where
  "decisionTotals_from [] c = c"
| "decisionTotals_from (kind # kinds) (paid, refused, override) =
     decisionTotals_from kinds
       (if kind = 1 then (paid + 1, refused, override)
        else if kind = 2 then (paid, refused + 1, override)
        else if kind = 3 then (paid, refused, override + 1)
        else (paid, refused, override))"

definition decisionTotals :: "int list \<Rightarrow> nat \<times> nat \<times> nat" where
  "decisionTotals kinds = decisionTotals_from kinds (0, 0, 0)"


section \<open>Facts\<close>

lemma tally_counts:
  "tally ms (order, counts) = (order', counts') \<Longrightarrow>
     counts' m = counts m + count_list ms m"
  by (induction ms arbitrary: order counts) (auto split: if_splits)

lemma tally_order:
  assumes "tally ms (order, counts) = (order', counts')" "distinct order" "\<And>m. m \<in> set order \<longleftrightarrow> counts m \<noteq> 0"
  shows "distinct order' \<and> set order' = set order \<union> set ms"
  using assms
proof (induction ms arbitrary: order counts)
  case (Cons m ms)
  let ?order = "if counts m = 0 then order @ [m] else order"
  have "tally ms (?order, counts(m := counts m + 1)) = (order', counts')" using Cons.prems(1) by simp
  then have "distinct order' \<and> set order' = set ?order \<union> set ms"
    by (rule Cons.IH) (use Cons.prems(2,3) in auto)
  moreover have "set ?order = insert m (set order)" using Cons.prems(3) [of m] by auto
  ultimately show ?case by simp
qed simp

lemma decisionTotals_from_counts:
  "decisionTotals_from kinds (p, r, v) =
     (p + count_list kinds 1, r + count_list kinds 2, v + count_list kinds 3)"
  by (induction kinds arbitrary: p r v) simp_all

lemma decisionTotals_counts:
  "decisionTotals kinds = (count_list kinds 1, count_list kinds 2, count_list kinds 3)"
  by (simp add: decisionTotals_def decisionTotals_from_counts)

text \<open>Labelling an amount twice labels it once.\<close>

lemma withToken_idem: "withToken (withToken amount mint) mint = withToken amount mint"
  by (auto simp: withToken_def Let_def endsWith_def)

lemma dot_in_shortened: "8 < length m \<Longrightarrow> CHR ''.'' \<in> set (shortenMint m)"
  by (simp add: shortenMint_def)

lemma known_symbols:
  "t \<in> set KNOWN_TOKENS \<Longrightarrow> kt_symbol t \<in> {''wrapped SOL'', ''VTEST'', ''USDC'', ''SKR''}"
  by (auto simp: KNOWN_TOKENS_def)

text \<open>A ticker is never guessed. When an address is shown under a symbol of the token table, the
  table has that address under that symbol; any other address is shown shortened.\<close>

theorem symbol_is_never_guessed:
  assumes "8 < length (mint_key mint)" "tokenSymbol mint = kt_symbol t" "t \<in> set KNOWN_TOKENS"
  shows "\<exists>u \<in> set KNOWN_TOKENS. kt_mint u = mint_key mint \<and> kt_symbol u = tokenSymbol mint"
proof (cases "byMint (mint_key mint)")
  case None
  then have "CHR ''.'' \<in> set (tokenSymbol mint)"
    using assms(1) dot_in_shortened by (auto simp: tokenSymbol_def Let_def)
  then show ?thesis using known_symbols [OF assms(3)] assms(2) by auto
next
  case (Some u)
  then have "u \<in> set KNOWN_TOKENS \<and> kt_mint u = mint_key mint"
    by (auto simp: byMint_def dest!: map_of_SomeD)
  then show ?thesis using Some assms(1) by (intro bexI [of _ u]) (auto simp: tokenSymbol_def Let_def)
qed


end
