(* ===== verification/Mandate_Decode.thy ===== *)
theory Mandate_Decode
  imports Mandate_Program Tokens
begin

text \<open>
  Reading a mandate account: the SDK's \<open>decodeMandate\<close> (\<^verbatim>\<open>sdk/src/layout.ts\<close>) and the app's
  \<open>decodeMandateAccount\<close> (\<^verbatim>\<open>app/lib/mandate.ts\<close>), against the account the program stores.
  \<open>pk\<close> is \<open>new PublicKey(bytes)\<close> (followed by \<open>toBase58()\<close> in the app) and \<open>utf8\<close> is
  \<open>Buffer.toString('utf8')\<close>.
\<close>

section \<open>The account image\<close>

definition MANDATE_DISCRIMINATOR :: bytes where
  "MANDATE_DISCRIMINATOR = [113, 216, 98, 159, 185, 63, 55, 18]"

lemma length_mandate_disc [simp]: "length MANDATE_DISCRIMINATOR = 8"
  by (simp add: MANDATE_DISCRIMINATOR_def)

definition mandate_image :: "Mandate \<Rightarrow> bytes" where
  "mandate_image m =
     MANDATE_DISCRIMINATOR @ m_owner m @ m_agent m @ m_mint m @ m_source m @ m_merchant m @
     le_bytes 8 (unat (m_mandate_id m)) @ le_bytes 8 (unat (m_cap m)) @ le_bytes 8 (unat (m_spent m)) @
     le_bytes 8 (unat (m_per_tx_max m)) @ le_bytes 8 (i64_nat (m_expires_at m)) @
     le_bytes 8 (unat (m_override_amount m)) @ le_bytes 8 (unat (m_override_nonce m)) @
     le_bytes 8 (unat (m_last_nonce m)) @ string_image (m_purpose m) @ [m_status m] @
     le_bytes 4 (unat (m_spend_count m)) @ le_bytes 4 (unat (m_refusal_count m)) @ [m_bump m]"

text \<open>What the account's types guarantee; the space of a purpose is 64 bytes.\<close>

definition mandate_wf :: "Mandate \<Rightarrow> bool" where
  "mandate_wf m =
     (length (m_owner m) = 32 \<and> length (m_agent m) = 32 \<and> length (m_mint m) = 32 \<and> length (m_source m) = 32 \<and>
      length (m_merchant m) = 32 \<and> length (m_purpose m) \<le> 64 \<and> - (2 ^ 63) \<le> m_expires_at m \<and> m_expires_at m < 2 ^ 63)"

section \<open>The decoders\<close>

record 'k MandateAccount =
  ma_owner :: 'k
  ma_agent :: 'k
  ma_mint :: 'k
  ma_source :: 'k
  ma_merchant :: 'k
  ma_mandateId :: int
  ma_cap :: int
  ma_spent :: int
  ma_perTxMax :: int
  ma_expiresAt :: int
  ma_overrideAmount :: int
  ma_overrideNonce :: int
  ma_lastNonce :: int
  ma_purpose :: string
  ma_status :: int
  ma_spendCount :: int
  ma_refusalCount :: int
  ma_bump :: int

definition decodeMandate :: "(bytes \<Rightarrow> 'k) \<Rightarrow> (bytes \<Rightarrow> string) \<Rightarrow> bytes \<Rightarrow> 'k MandateAccount result" where
  "decodeMandate pk utf8 data =
     andThen (requireDisc data MANDATE_DISCRIMINATOR ''Mandate'') (\<lambda>_.
     andThen (readPubkey pk data 8 ''owner'') (\<lambda>(owner, p).
     andThen (readPubkey pk data p ''agent'') (\<lambda>(agent, p).
     andThen (readPubkey pk data p ''mint'') (\<lambda>(mint, p).
     andThen (readPubkey pk data p ''source'') (\<lambda>(source, p).
     andThen (readPubkey pk data p ''merchant'') (\<lambda>(merchant, p).
     andThen (readU64 data p ''mandate_id'') (\<lambda>(mandateId, p).
     andThen (readU64 data p ''cap'') (\<lambda>(cap, p).
     andThen (readU64 data p ''spent'') (\<lambda>(spent, p).
     andThen (readU64 data p ''per_tx_max'') (\<lambda>(perTxMax, p).
     andThen (readI64 data p ''expires_at'') (\<lambda>(expiresAt, p).
     andThen (readU64 data p ''override_amount'') (\<lambda>(overrideAmount, p).
     andThen (readU64 data p ''override_nonce'') (\<lambda>(overrideNonce, p).
     andThen (readU64 data p ''last_nonce'') (\<lambda>(lastNonce, p).
     andThen (readString utf8 data p) (\<lambda>(purpose, p).
     andThen (readU8 data p ''status'') (\<lambda>(status, p).
     andThen (readU32 data p ''spend_count'') (\<lambda>(spendCount, p).
     andThen (readU32 data p ''refusal_count'') (\<lambda>(refusalCount, p).
     andThen (readU8 data p ''bump'') (\<lambda>(bump, p).
       Inr \<lparr>ma_owner = owner, ma_agent = agent, ma_mint = mint, ma_source = source, ma_merchant = merchant,
            ma_mandateId = mandateId, ma_cap = cap, ma_spent = spent, ma_perTxMax = perTxMax,
            ma_expiresAt = expiresAt, ma_overrideAmount = overrideAmount, ma_overrideNonce = overrideNonce,
            ma_lastNonce = lastNonce, ma_purpose = purpose, ma_status = status, ma_spendCount = spendCount,
            ma_refusalCount = refusalCount, ma_bump = bump\<rparr>)))))))))))))))))))"

text \<open>
  The app reads at running offsets through \<open>viewAt\<close>, and a byte past the end as 0. The address is
  the caller's.
\<close>

definition PURPOSE_MAX_LEN :: int where "PURPOSE_MAX_LEN = 64"

definition decodeMandateAccount ::
  "(bytes \<Rightarrow> 'k) \<Rightarrow> (bytes \<Rightarrow> string) \<Rightarrow> string \<Rightarrow> u8array \<Rightarrow> (string \<times> 'k MandateAccount) result" where
  "decodeMandateAccount pk utf8 address data =
     (if arr_length data < 8 \<or> \<not> buffersEqual (arr_bytes (subarray data 0 8)) MANDATE_DISCRIMINATOR
      then Inl (Error (''account '' @ address @ '' does not have the Mandate discriminator''))
      else
        let key = (\<lambda>p. pk (arr_bytes (subarray data p (p + 32)))) in
        andThen (readU64Le data 168) (\<lambda>mandateId.
        andThen (readU64Le data 176) (\<lambda>cap.
        andThen (readU64Le data 184) (\<lambda>spent.
        andThen (readU64Le data 192) (\<lambda>perTxMax.
        andThen (readI64Le data 200) (\<lambda>expiresAt.
        andThen (readU64Le data 208) (\<lambda>overrideAmount.
        andThen (readU64Le data 216) (\<lambda>overrideNonce.
        andThen (readU64Le data 224) (\<lambda>lastNonce.
        andThen (readU32Le data 232) (\<lambda>purposeLen.
          if purposeLen > PURPOSE_MAX_LEN
          then Inl (Error (''purpose longer than the on-chain max ('' @ int_str purposeLen @ '')''))
          else if 236 + nat purposeLen > arr_length data then Inl (Error ''purpose overruns account data'')
          else
            let purpose = utf8 (arr_bytes (subarray data 236 (236 + nat purposeLen)));
                p = 236 + nat purposeLen;
                status = int (byteOr0 data p)
            in andThen (readU32Le data (p + 1)) (\<lambda>spendCount.
               andThen (readU32Le data (p + 5)) (\<lambda>refusalCount.
                 Inr (address,
                   \<lparr>ma_owner = key 8, ma_agent = key 40, ma_mint = key 72, ma_source = key 104,
                    ma_merchant = key 136, ma_mandateId = mandateId, ma_cap = cap, ma_spent = spent,
                    ma_perTxMax = perTxMax, ma_expiresAt = expiresAt, ma_overrideAmount = overrideAmount,
                    ma_overrideNonce = overrideNonce, ma_lastNonce = lastNonce, ma_purpose = purpose,
                    ma_status = status, ma_spendCount = spendCount, ma_refusalCount = refusalCount,
                    ma_bump = int (byteOr0 data (p + 9))\<rparr>)))))))))))))"

definition mandateRemaining :: "'k MandateAccount \<Rightarrow> int" where
  "mandateRemaining mandate = remainingCap (ma_cap mandate) (ma_spent mandate)"

definition isActive :: "'k MandateAccount \<Rightarrow> int \<Rightarrow> bool" where
  "isActive mandate nowSec = (ma_status mandate = 0 \<and> nowSec < ma_expiresAt mandate)"

section \<open>Decoding what the program stored\<close>

definition mandate_view :: "(bytes \<Rightarrow> 'k) \<Rightarrow> (bytes \<Rightarrow> string) \<Rightarrow> Mandate \<Rightarrow> 'k MandateAccount" where
  "mandate_view pk utf8 m =
     \<lparr>ma_owner = pk (m_owner m), ma_agent = pk (m_agent m), ma_mint = pk (m_mint m), ma_source = pk (m_source m),
      ma_merchant = pk (m_merchant m), ma_mandateId = int (unat (m_mandate_id m)), ma_cap = int (unat (m_cap m)),
      ma_spent = int (unat (m_spent m)), ma_perTxMax = int (unat (m_per_tx_max m)), ma_expiresAt = m_expires_at m,
      ma_overrideAmount = int (unat (m_override_amount m)), ma_overrideNonce = int (unat (m_override_nonce m)),
      ma_lastNonce = int (unat (m_last_nonce m)), ma_purpose = utf8 (m_purpose m),
      ma_status = int (unat (m_status m)), ma_spendCount = int (unat (m_spend_count m)),
      ma_refusalCount = int (unat (m_refusal_count m)), ma_bump = int (unat (m_bump m))\<rparr>"

lemmas codec_steps = key_codec.read_step u64_codec.read_step i64_codec.read_step string_codec.read_step
  u8_codec.read_step u32_codec.read_step

lemma decodeMandate_image:
  assumes "mandate_wf m"
  shows "decodeMandate pk utf8 (mandate_image m @ post) = Inr (mandate_view pk utf8 m)"
proof -
  have wf: "length (m_owner m) = 32" "length (m_agent m) = 32" "length (m_mint m) = 32" "length (m_source m) = 32"
      "length (m_merchant m) = 32" "length (m_purpose m) \<le> 64" "- (2 ^ 63) \<le> m_expires_at m \<and> m_expires_at m < 2 ^ 63"
    using assms by (simp_all add: mandate_wf_def)
  define data where "data = mandate_image m @ post"
  have disc: "requireDisc data MANDATE_DISCRIMINATOR ''Mandate'' = Inr ()"
    by (simp add: data_def mandate_image_def requireDisc_def)
  have rest: "drop 8 data = m_owner m @ m_agent m @ m_mint m @ m_source m @ m_merchant m @
     le_bytes 8 (unat (m_mandate_id m)) @ le_bytes 8 (unat (m_cap m)) @ le_bytes 8 (unat (m_spent m)) @
     le_bytes 8 (unat (m_per_tx_max m)) @ le_bytes 8 (i64_nat (m_expires_at m)) @
     le_bytes 8 (unat (m_override_amount m)) @ le_bytes 8 (unat (m_override_nonce m)) @
     le_bytes 8 (unat (m_last_nonce m)) @ string_image (m_purpose m) @ [m_status m] @
     le_bytes 4 (unat (m_spend_count m)) @ le_bytes 4 (unat (m_refusal_count m)) @ [m_bump m] @ post"
    "8 \<le> length data"
    by (simp_all add: data_def mandate_image_def)
  show ?thesis
    unfolding decodeMandate_def mandate_view_def data_def [symmetric] disc andThen_Inr
    using rest by - ((rule codec_steps, assumption, assumption, simp only: wf)+, simp only:)
qed


lemma decodeMandateAccount_image:
  assumes "mandate_wf m" "arr_wf data" "arr_bytes data = mandate_image m @ post"
  shows "decodeMandateAccount pk utf8 address data = Inr (address, mandate_view pk utf8 m)"
proof -
  have wf: "length (m_owner m) = 32" "length (m_agent m) = 32" "length (m_mint m) = 32" "length (m_source m) = 32"
      "length (m_merchant m) = 32" "length (m_purpose m) \<le> 64" "i64_val (i64_nat (m_expires_at m)) = m_expires_at m"
    using assms(1) i64_roundtrip by (simp_all add: mandate_wf_def)
  have len: "arr_length data = 246 + length (m_purpose m) + length post"
    using length_arr_bytes [OF assms(2)] wf by (simp add: assms(3) mandate_image_def string_image_def)
  have small: "le_val (le_bytes 4 (length (m_purpose m))) = length (m_purpose m)"
    using wf(6) by (simp add: le_val_le_bytes)
  have reads: "readU64Le data 168 = Inr (int (unat (m_mandate_id m)))" "readU64Le data 176 = Inr (int (unat (m_cap m)))"
      "readU64Le data 184 = Inr (int (unat (m_spent m)))" "readU64Le data 192 = Inr (int (unat (m_per_tx_max m)))"
      "readI64Le data 200 = Inr (m_expires_at m)" "readU64Le data 208 = Inr (int (unat (m_override_amount m)))"
      "readU64Le data 216 = Inr (int (unat (m_override_nonce m)))" "readU64Le data 224 = Inr (int (unat (m_last_nonce m)))"
      "readU32Le data 232 = Inr (int (length (m_purpose m)))"
      "readU32Le data (237 + length (m_purpose m)) = Inr (int (unat (m_spend_count m)))"
      "readU32Le data (241 + length (m_purpose m)) = Inr (int (unat (m_refusal_count m)))"
    using len wf small
    by (simp_all add: app_read_inside [OF assms(2)] assms(3) mandate_image_def string_image_def)
  have bytes: "byteOr0 data (236 + length (m_purpose m)) = unat (m_status m)"
      "byteOr0 data (245 + length (m_purpose m)) = unat (m_bump m)"
    using len wf
    by (simp_all add: byteOr0_inside [OF assms(2)] assms(3) mandate_image_def string_image_def nth_append)
  have subs: "arr_bytes (subarray data 0 8) = MANDATE_DISCRIMINATOR" "arr_bytes (subarray data 8 40) = m_owner m"
      "arr_bytes (subarray data 40 72) = m_agent m" "arr_bytes (subarray data 72 104) = m_mint m"
      "arr_bytes (subarray data 104 136) = m_source m" "arr_bytes (subarray data 136 168) = m_merchant m"
      "arr_bytes (subarray data 236 (236 + length (m_purpose m))) = m_purpose m"
    using wf by (simp_all add: arr_bytes_subarray [OF assms(2)] assms(3) mandate_image_def string_image_def)
  show ?thesis
    using len wf(6)
    by (simp add: decodeMandateAccount_def subs reads bytes PURPOSE_MAX_LEN_def Let_def mandate_view_def
        del: of_nat_unat)
qed

lemma app_status:
  "mandateRemaining (mandate_view pk utf8 m) = int (unat (remaining m))"
  "isActive (mandate_view pk utf8 m) now \<longleftrightarrow> m_status m = STATUS_ACTIVE \<and> now < m_expires_at m"
proof -
  show "mandateRemaining (mandate_view pk utf8 m) = int (unat (remaining m))"
    by (auto simp: mandateRemaining_def mandate_view_def remainingCap_def remaining_def saturating_sub_def
        word_le_nat_alt unat_sub of_nat_diff uint_nat simp del: of_nat_unat)
  show "isActive (mandate_view pk utf8 m) now \<longleftrightarrow> m_status m = STATUS_ACTIVE \<and> now < m_expires_at m"
    by (auto simp: isActive_def mandate_view_def status_defs unat_eq_zero simp del: of_nat_unat)
qed

text \<open>Both mandate decoders read back the account the program stores, field for field, whatever
  padding follows it.\<close>

theorem mandate_decoders_read_program_account:
  assumes "mandate_wf m" "arr_wf data" "arr_bytes data = mandate_image m @ post"
  shows "decodeMandate pk utf8 (arr_bytes data) = Inr (mandate_view pk utf8 m) \<and>
    decodeMandateAccount pk utf8 address data = Inr (address, mandate_view pk utf8 m)"
  using decodeMandate_image [OF assms(1), of pk utf8 post] decodeMandateAccount_image [OF assms, of pk utf8 address] assms(3)
  by simp

text \<open>What the app says of a decoded mandate is what the program will do. The remaining amount is
  the program's, and the app calls a mandate active exactly when the program does not refuse a
  charge as inactive or expired.\<close>

theorem app_status_is_program_status:
  "mandateRemaining (mandate_view pk utf8 m) = int (unat (remaining m)) \<and>
   (isActive (mandate_view pk utf8 m) now \<longleftrightarrow>
      evaluate m key src dst amount nonce now \<noteq> REASON_NOT_ACTIVE \<and>
      evaluate m key src dst amount nonce now \<noteq> REASON_EXPIRED)"
  by (auto simp: app_status evaluate_def reason_defs)


end
