(* ===== verification/Override.thy ===== *)
theory Override
  imports Mandate_Decode
begin

text \<open>
  The owner's override, as the app offers it (\<^verbatim>\<open>app/lib/override.ts\<close>): when a refusal can be
  waived, what the confirmation screen says, and how the rows of one nonce are summed up. The
  theorems tie each answer to what \<open>grant_override\<close> and \<open>charge\<close> of the program then do.
\<close>

section \<open>Offer and guard\<close>

definition CAP_OVERRIDE_REFUSAL :: string where
  "CAP_OVERRIDE_REFUSAL = ''An override cannot raise the cap because the program will not accept one.''"

record OverrideSource =
  os_kind :: int
  os_reason :: int
  os_nonce :: int
  os_amount :: int
  os_suggestedOverride :: int

datatype OverrideOffer = Offer int | NoOffer string
datatype OverrideGuard = GuardOk | GuardNo string

definition overrideOfferForReason :: "int \<Rightarrow> int \<Rightarrow> OverrideOffer" where
  "overrideOfferForReason reason suggestedOverride =
     (if reason = 6 then NoOffer CAP_OVERRIDE_REFUSAL
      else if reason = 5 \<and> suggestedOverride \<le> 0 then NoOffer CAP_OVERRIDE_REFUSAL
      else if reason = 5 \<and> suggestedOverride > 0 then Offer suggestedOverride
      else NoOffer (''The program records no override for this reason ('' @ reasonText reason @ '').''))"

definition overrideGuard :: "'k MandateAccount \<Rightarrow> int \<Rightarrow> int \<Rightarrow> int option \<Rightarrow> OverrideGuard" where
  "overrideGuard mandate nonce amount nowSec =
     (if nonce = 0 then GuardNo ''This row has no nonce. The program will not accept an override.''
      else if amount = 0 then GuardNo ''This row has no override amount. The program will not accept an override.''
      else if ma_status mandate = 1 then GuardNo ''This rule is revoked on chain. An override cannot be granted.''
      else if ma_status mandate = 2 then GuardNo (''This rule is exhausted on chain. '' @ CAP_OVERRIDE_REFUSAL)
      else if ma_status mandate \<noteq> 0
        then GuardNo (''This rule is '' @ statusName (ma_status mandate) @ '' on chain. An override cannot be granted.'')
      else if (case nowSec of None \<Rightarrow> False | Some now \<Rightarrow> \<not> isActive mandate now)
        then GuardNo ''This rule is expired on chain. An override cannot be granted.''
      else if nonce \<le> ma_lastNonce mandate
        then GuardNo ''This nonce is already settled on chain. An override cannot be granted.''
      else if amount > mandateRemaining mandate
        then GuardNo (''The remaining cap is now below this amount. '' @ CAP_OVERRIDE_REFUSAL)
      else GuardOk)"

section \<open>The confirmation\<close>

record OverrideCommit =
  oc_title :: string
  oc_amount :: string
  oc_nonce :: string
  oc_paragraphs :: "string list"

definition overrideCommitCopy ::
  "int \<Rightarrow> int \<Rightarrow> int \<Rightarrow> int \<Rightarrow> int \<Rightarrow> nat \<Rightarrow> string option \<Rightarrow> int option \<Rightarrow> OverrideCommit" where
  "overrideCommitCopy amount0 nonce perTxMax0 remaining0 cap0 decimals mint pendingOtherNonce =
     (let amount = formatTokenAmount amount0 decimals mint;
          perTxMax = formatTokenAmount perTxMax0 decimals mint;
          left = formatTokenAmount remaining0 decimals mint;
          cap = formatTokenAmount cap0 decimals mint;
          first = [''You are about to grant an override of '' @ amount @ '' for nonce '' @ int_str nonce @ ''.'',
                   ''The per-payment maximum on this rule is '' @ perTxMax @
                   ''. It does not change. This override allows this one payment of '' @ amount @
                   '', used once, never above the remaining cap ('' @ left @ '' remaining of '' @ cap @ ''). '' @
                   CAP_OVERRIDE_REFUSAL];
          after = [''This is written to the ledger as an override, a recorded decision. It is not a settings change.'',
                   ''The owner signs once. The agent can then retry this nonce.''];
          pending = (case pendingOtherNonce of
                       Some n \<Rightarrow> if n \<noteq> 0 then [''This replaces the pending override for nonce '' @ int_str n @ ''.''] else []
                     | None \<Rightarrow> [])
      in \<lparr>oc_title = ''Grant this override'', oc_amount = amount, oc_nonce = int_str nonce,
          oc_paragraphs = first @ pending @ after\<rparr>)"

datatype OverrideAssessment =
    NoOverride string
  | Already int int string
  | Blocked string
  | Ready int int OverrideCommit

definition assessOverride :: "OverrideSource \<Rightarrow> string MandateAccount \<Rightarrow> nat \<Rightarrow> int option \<Rightarrow> OverrideAssessment" where
  "assessOverride row mandate decimals nowSec =
     (if os_kind row \<noteq> 2 then NoOverride ''An override is granted from a refused decision, not from this row.''
      else case overrideOfferForReason (os_reason row) (os_suggestedOverride row) of
          NoOffer why \<Rightarrow> NoOverride why
        | Offer offered \<Rightarrow>
            (case overrideGuard mandate (os_nonce row) offered nowSec of
               GuardNo why \<Rightarrow> Blocked why
             | GuardOk \<Rightarrow>
                 if ma_overrideNonce mandate = os_nonce row \<and> ma_overrideAmount mandate > 0 then
                   Already (ma_overrideAmount mandate) (os_nonce row)
                     (''This nonce already has an override of '' @
                      formatTokenAmount (ma_overrideAmount mandate) decimals (Some (ma_mint mandate)) @
                      '' on chain. The agent can retry it.'')
                 else
                   Ready offered (os_nonce row)
                     (overrideCommitCopy offered (os_nonce row) (ma_perTxMax mandate) (mandateRemaining mandate)
                        (ma_cap mandate) decimals (Some (ma_mint mandate))
                        (if ma_overrideNonce mandate \<noteq> 0 \<and> ma_overrideNonce mandate \<noteq> os_nonce row
                         then Some (ma_overrideNonce mandate) else None))))"

section \<open>Rows and their nonce\<close>

definition overrideRowProbeKey :: "int \<Rightarrow> OverrideSource \<Rightarrow> string" where
  "overrideRowProbeKey ts row =
     int_str ts @ '':'' @ int_str (os_kind row) @ '':'' @ int_str (os_nonce row) @ '':'' @ int_str (os_reason row) @ '':'' @
     int_str (os_suggestedOverride row)"

definition overrideMandateProbeKey :: "string \<Rightarrow> 'k MandateAccount \<Rightarrow> int option \<Rightarrow> string" where
  "overrideMandateProbeKey address mandate nowSec =
     address @ '':'' @ int_str (ma_status mandate) @ '':'' @ int_str (ma_lastNonce mandate) @ '':'' @
     int_str (ma_overrideNonce mandate) @ '':'' @ int_str (ma_spent mandate) @ '':'' @
     (case nowSec of None \<Rightarrow> [] | Some now \<Rightarrow> if isActive mandate now then ''live'' else ''expired'')"

definition overrideProbeKey :: "int \<Rightarrow> OverrideSource \<Rightarrow> string \<Rightarrow> 'k MandateAccount \<Rightarrow> int option \<Rightarrow> string" where
  "overrideProbeKey ts row address mandate nowSec =
     overrideRowProbeKey ts row @ ''|'' @ overrideMandateProbeKey address mandate nowSec"

record OverrideRowView =
  ov_say :: string
  ov_italic :: string
  ov_why :: string
  ov_amount :: string

definition overrideRowView :: "OverrideSource \<Rightarrow> nat \<Rightarrow> string option \<Rightarrow> OverrideRowView" where
  "overrideRowView row decimals mint =
     (let amount = formatTokenAmount (os_amount row) decimals mint
      in \<lparr>ov_say = ''Waived'', ov_italic = ''by the owner'',
          ov_why = ''An override of '' @ amount @ '' for nonce '' @ int_str (os_nonce row) @
            ''. This is a recorded decision, not a settings change. It allows this one payment, used once, never above the remaining cap. The per-payment maximum does not change. The total cap is unchanged.'',
          ov_amount = amount\<rparr>)"

record NonceSequence =
  ns_nonce :: int
  ns_asked :: "int option"
  ns_refused :: bool
  ns_waived :: bool
  ns_paid :: bool
  ns_reason :: "int option"

definition sequence_step :: "int \<Rightarrow> NonceSequence \<Rightarrow> OverrideSource \<Rightarrow> NonceSequence" where
  "sequence_step nonce s row =
     (if os_nonce row \<noteq> nonce then s
      else if os_kind row = 2 then s\<lparr>ns_refused := True, ns_asked := Some (os_amount row), ns_reason := Some (os_reason row)\<rparr>
      else if os_kind row = 3 then
        s\<lparr>ns_waived := True, ns_asked := (case ns_asked s of None \<Rightarrow> Some (os_amount row) | a \<Rightarrow> a)\<rparr>
      else if os_kind row = 1 then
        s\<lparr>ns_paid := True, ns_asked := (case ns_asked s of None \<Rightarrow> Some (os_amount row) | a \<Rightarrow> a)\<rparr>
      else s)"

definition nonceSequence :: "OverrideSource list \<Rightarrow> int \<Rightarrow> NonceSequence" where
  "nonceSequence rows nonce =
     foldl (sequence_step nonce)
       \<lparr>ns_nonce = nonce, ns_asked = None, ns_refused = False, ns_waived = False, ns_paid = False, ns_reason = None\<rparr> rows"

definition sequenceLine :: "NonceSequence \<Rightarrow> nat \<Rightarrow> string option \<Rightarrow> string option" where
  "sequenceLine seq decimals mint =
     (if of_bool (ns_refused seq) + of_bool (ns_waived seq) + of_bool (ns_paid seq) < (2 :: nat) then None
      else Some (join '' ''
        ((case ns_asked seq of Some a \<Rightarrow> [''Asked for '' @ formatTokenAmount a decimals mint @ ''.''] | None \<Rightarrow> []) @
         (if ns_refused seq
          then [''Refused'' @ (case ns_reason seq of Some r \<Rightarrow> '' ('' @ reasonText r @ '')'' | None \<Rightarrow> []) @ ''.''] else []) @
         (if ns_waived seq then [''Waived by the owner.''] else []) @
         (if ns_paid seq then [''Then paid.'']
          else if ns_waived seq then [''The agent can retry this nonce.''] else []))))"

section \<open>The guard is the program's\<close>

lemma word_order_int:
  "int (unat (a :: 64 word)) \<le> int (unat b) \<longleftrightarrow> a \<le> b" "int (unat (a :: 64 word)) = 0 \<longleftrightarrow> a = 0"
  by (simp_all add: word_le_nat_alt unat_eq_zero del: of_nat_unat)

lemma overrideGuard_ok:
  "overrideGuard (mandate_view pk utf8 m) (int (unat nonce)) (int (unat amount)) nowSec = GuardOk \<longleftrightarrow>
     nonce \<noteq> 0 \<and> amount \<noteq> 0 \<and> m_status m = STATUS_ACTIVE \<and> (\<forall>now. nowSec = Some now \<longrightarrow> now < m_expires_at m) \<and>
     m_last_nonce m < nonce \<and> amount \<le> remaining m"
  by (auto simp: overrideGuard_def app_status word_order_int not_less [symmetric] status_defs
      split: option.splits simp del: of_nat_unat)
    (auto simp: mandate_view_def unat_eq_zero not_le word_less_nat_alt simp del: of_nat_unat)



lemma charge_entry_suggestion:
  "en_kind (charge_entry acc amount nonce now) = KIND_REFUSED \<Longrightarrow>
   en_reason (charge_entry acc amount nonce now) = REASON_OVER_PER_TX_MAX \<Longrightarrow>
   en_suggested_override (charge_entry acc amount nonce now) \<noteq> 0 \<Longrightarrow>
   en_suggested_override (charge_entry acc amount nonce now) = amount"
  by (auto simp: charge_entry_def suggested_override_def Let_def split: if_splits)

definition source_of :: "Entry \<Rightarrow> OverrideSource" where
  "source_of e = \<lparr>os_kind = int (unat (en_kind e)), os_reason = int (unat (en_reason e)), os_nonce = int (unat (en_nonce e)),
     os_amount = int (unat (en_amount e)), os_suggestedOverride = int (unat (en_suggested_override e))\<rparr>"

lemma unat_u8_literal: "unat (b :: 8 word) = 2 \<longleftrightarrow> b = 2" "unat (b :: 8 word) = 5 \<longleftrightarrow> b = 5"
  by (simp_all add: word_unat_eq_iff)

lemma ready_facts:
  assumes "assessOverride (source_of e) mandate decimals nowSec = Ready amount nonce commit"
  shows "en_kind e = KIND_REFUSED" "en_reason e = REASON_OVER_PER_TX_MAX"
    "amount = int (unat (en_suggested_override e))" "en_suggested_override e \<noteq> 0" "nonce = int (unat (en_nonce e))"
    "overrideGuard mandate (int (unat (en_nonce e))) (int (unat (en_suggested_override e))) nowSec = GuardOk"
  using assms
  by (auto simp: assessOverride_def overrideOfferForReason_def source_of_def unat_u8_literal kind_defs reason_defs
      split: if_splits OverrideGuard.splits simp del: of_nat_unat)

text \<open>C34: an override the app offers does clear the refusal it is offered for. When the row is the
  program's record of a refused charge and the app answers that an override is ready, the program
  accepts that override, and the same charge, retried before anything else changes, is no longer
  refused for the rule's state, expiry, nonce, amount, per-payment maximum or cap.\<close>

theorem ready_override_clears_refusal:
  assumes "e = charge_entry acc0 amount nonce t0"
    and "assessOverride (source_of e) (mandate_view pk utf8 (ca_mandate acc)) decimals (Some now) = Ready offered row_nonce commit"
    and "m_owner (ca_mandate acc) = ca_signer acc" "m_source (ca_mandate acc) = t_key (ca_source acc)"
    and "m_spent (ca_mandate acc) \<le> m_cap (ca_mandate acc)"
  shows "offered = int (unat amount) \<and> row_nonce = int (unat nonce) \<and>
    (\<exists>acc'. grant_override acc amount nonce now = Inr acc' \<and>
       evaluate (ca_mandate acc') key src dst amount nonce now \<in>
         {REASON_OK, REASON_MERCHANT_NOT_ALLOWED, REASON_DELEGATE_MISSING, REASON_INSUFFICIENT_FUNDS, REASON_ACCOUNT_FROZEN})"
proof -
  note facts = ready_facts [OF assms(2)]
  have e: "en_nonce e = nonce" "en_suggested_override e = amount"
    using facts(1,2,4) charge_entry_suggestion [of acc0 amount nonce t0] assms(1) by (auto simp: charge_entry_def Let_def)
  have g: "amount \<noteq> 0" "nonce \<noteq> 0" "m_status (ca_mandate acc) = STATUS_ACTIVE" "now < m_expires_at (ca_mandate acc)"
      "m_last_nonce (ca_mandate acc) < nonce" "amount \<le> remaining (ca_mandate acc)"
    using facts(6) unfolding e overrideGuard_ok by auto
  let ?m' = "(ca_mandate acc)\<lparr>m_override_amount := amount, m_override_nonce := nonce\<rparr>"
  have "grant_override acc amount nonce now =
      Inr (acc\<lparr>ca_mandate := ?m', ca_ledger := ledger_record (ca_ledger acc) (override_entry (ca_mandate acc) amount nonce now)\<rparr>)"
    using g assms(3,4) by (simp add: grant_override_def Let_def word_gt_0)
  moreover have "evaluate ?m' key src dst amount nonce now \<in>
         {REASON_OK, REASON_MERCHANT_NOT_ALLOWED, REASON_DELEGATE_MISSING, REASON_INSUFFICIENT_FUNDS, REASON_ACCOUNT_FROZEN}"
    using g cap_room [OF g(6) assms(5)] by (auto simp: evaluate_def effective_per_tx_max_def checked_add_def)
  ultimately show ?thesis using facts(3,5) e by simp
qed


section \<open>One nonce in the record\<close>

text \<open>The summary of a nonce says what its rows say. It counts a refusal, a waiver or a payment
  exactly when a row of that nonce records one; the amount and the reason are those of the latest
  refusal, and without a refusal the amount is that of the first waiver or payment.\<close>

theorem nonceSequence_reports_rows:
  "nonceSequence rows nonce =
     (let mine = filter (\<lambda>r. os_nonce r = nonce) rows;
          refusals = filter (\<lambda>r. os_kind r = 2) mine;
          others = filter (\<lambda>r. os_kind r = 3 \<or> os_kind r = 1) mine
      in \<lparr>ns_nonce = nonce,
          ns_asked = (if refusals \<noteq> [] then Some (os_amount (last refusals))
                      else if others \<noteq> [] then Some (os_amount (hd others)) else None),
          ns_refused = (refusals \<noteq> []), ns_waived = (\<exists>r \<in> set mine. os_kind r = 3),
          ns_paid = (\<exists>r \<in> set mine. os_kind r = 1),
          ns_reason = (if refusals \<noteq> [] then Some (os_reason (last refusals)) else None)\<rparr>)"
proof (induction rows rule: rev_induct)
  case Nil
  show ?case by (simp add: nonceSequence_def Let_def)
next
  case (snoc row rows)
  have "nonceSequence (rows @ [row]) nonce = sequence_step nonce (nonceSequence rows nonce) row"
    by (simp add: nonceSequence_def)
  with snoc.IH show ?case by (auto simp: sequence_step_def Let_def hd_append)
qed


section \<open>The override on the concrete run\<close>


theorem ready_override_clears_refusal_witness:
  "\<exists>acc'. grant_override demo_acc2 50 5 2 = Inr acc' \<and>
     evaluate (ca_mandate acc') (demo_key 9) (ca_source demo_acc2) (ca_destination demo_acc2) 50 5 2 \<in>
       {REASON_OK, REASON_MERCHANT_NOT_ALLOWED, REASON_DELEGATE_MISSING, REASON_INSUFFICIENT_FUNDS, REASON_ACCOUNT_FROZEN}"
proof -
  let ?v = "mandate_view ((\<lambda>_. []) :: bytes \<Rightarrow> string) (\<lambda>_. []) (ca_mandate demo_acc2)"
  have o1: "m_owner (ca_mandate demo_acc2) = ca_signer demo_acc2"
    "m_source (ca_mandate demo_acc2) = t_key (ca_source demo_acc2)"
    "m_spent (ca_mandate demo_acc2) \<le> m_cap (ca_mandate demo_acc2)" "m_override_nonce (ca_mandate demo_acc2) = 0"
    by (simp_all add: demo_defs)
  have on: "ma_overrideNonce ?v = 0" using o1(4) by (simp add: mandate_view_def)
  have guard: "overrideGuard ?v 5 50 (Some 2) = GuardOk"
    using overrideGuard_ok [of "(\<lambda>_. []) :: bytes \<Rightarrow> string" "\<lambda>_. []" "ca_mandate demo_acc2" 5 50 "Some 2"]
    by (simp add: demo_defs)
  have row: "source_of (charge_entry demo_acc1 50 5 1) =
      \<lparr>os_kind = 2, os_reason = 5, os_nonce = 5, os_amount = 50, os_suggestedOverride = 50\<rparr>"
  proof -
    have "suggested_override (ca_mandate demo_acc1) REASON_OVER_PER_TX_MAX 50 = 50" by (simp add: demo_defs)
    then show ?thesis
      by (simp add: source_of_def charge_entry_def Let_def demo_evaluate) (simp add: reason_defs kind_defs)
  qed
  have "\<exists>c. assessOverride (source_of (charge_entry demo_acc1 50 5 1)) ?v 6 (Some 2) = Ready 50 5 c"
    using guard on unfolding row by (simp add: assessOverride_def overrideOfferForReason_def)
  then show ?thesis using ready_override_clears_refusal [OF refl _ o1(1,2,3)] by blast
qed

end
