(* ===== verification/Grade.thy ===== *)
theory Grade
  imports Tokens "HOL-Library.Char_ord" "HOL-Library.List_Lexorder" "HOL-Library.Product_Lexorder" "HOL-Library.Multiset"
begin

text \<open>
  The agent's grade and record (\<^verbatim>\<open>app/lib/grade.ts\<close>): how the rows of a rule are classified, which
  band an agent falls in, and the records the screen lists. JavaScript's \<open>sort\<close> is stable and so is
  \<open>sort_key\<close>; strings compare by code unit. The calendar functions at the end of the file need the
  host's time zone and are not modelled; \<open>canonicalAddress\<close> parses a key and is the parameter
  \<open>canonical\<close>.
\<close>

section \<open>Data\<close>

record GradeDecision =
  gd_kind :: int
  gd_ts :: int
  gd_amount :: int
  gd_nonce :: int
  gd_reason :: int
  gd_counterparty :: string

record ClassifiedRule =
  cl_paidInside :: "GradeDecision list"
  cl_refused :: "GradeDecision list"
  cl_allowances :: "GradeDecision list"
  cl_settlements :: "GradeDecision list"
  cl_declines :: "GradeDecision list"
  cl_openedAt :: "int option"

record RuleFacts =
  rf_address :: string
  rf_agent :: string
  rf_purpose :: string
  rf_cap :: int
  rf_spent :: int
  rf_perTxMax :: int
  rf_expiresAt :: int
  rf_status :: int
  rf_decimals :: nat
  rf_mint :: "string option"
  rf_merchant :: "string option"
  rf_rows :: "GradeDecision list"

record RuleSnapshot = RuleFacts +
  rs_shortAddress :: string
  rs_remainingLabel :: string
  rs_capLabel :: string
  rs_spentLabel :: string
  rs_perTxMaxLabel :: string
  rs_remainingRatio :: int
  rs_day :: "int option"
  rs_totalDays :: "int option"
  rs_dayLabel :: string
  rs_startedAt :: "int option"
  rs_classified :: ClassifiedRule

datatype GradedBand = stayed | tested | pushed

record Grade =
  g_id :: "GradedBand option"
  g_label :: string
  g_requests :: nat
  g_outside :: nat
  g_paid :: nat
  g_allowances :: nat
  g_declines :: nat
  g_daysRunning :: "int option"
  g_band :: "GradedBand option"
  g_steppedDown :: bool
  g_movedOutside :: nat

section \<open>Days\<close>

definition GRADE_MIN_REQUESTS :: nat where "GRADE_MIN_REQUESTS = 10"
definition GRADE_MIN_DAYS :: int where "GRADE_MIN_DAYS = 3"
definition MAX_SAFE_INTEGER :: int where "MAX_SAFE_INTEGER = 9007199254740991"

definition elapsedDays :: "int \<Rightarrow> int \<Rightarrow> int" where
  "elapsedDays startedAt nowSec =
     (if nowSec \<le> startedAt then 1
      else let whole = (nowSec - startedAt) div 86400
           in if whole > MAX_SAFE_INTEGER - 1 then MAX_SAFE_INTEGER else whole + 1)"

definition ruleTotalDays :: "int option \<Rightarrow> int \<Rightarrow> int option" where
  "ruleTotalDays startedAt expiresAt =
     (case startedAt of
        None \<Rightarrow> None
      | Some started \<Rightarrow>
          if expiresAt \<le> started then None
          else let total_days = (expiresAt - started + 86399) div 86400
               in if total_days \<le> 0 \<or> total_days > MAX_SAFE_INTEGER then None else Some total_days)"

definition ruleDayNumber :: "int option \<Rightarrow> int \<Rightarrow> int \<Rightarrow> int option" where
  "ruleDayNumber startedAt expiresAt nowSec =
     (case startedAt of
        None \<Rightarrow> None
      | Some started \<Rightarrow>
          let running = elapsedDays started nowSec in
          case ruleTotalDays startedAt expiresAt of
            None \<Rightarrow> Some running
          | Some t \<Rightarrow> if nowSec \<ge> expiresAt then Some t else Some (min running t))"

text \<open>A loop that keeps the smallest value seen.\<close>

definition keep_min :: "int option \<Rightarrow> int \<Rightarrow> int option" where
  "keep_min best x = (case best of None \<Rightarrow> Some x | Some b \<Rightarrow> if x < b then Some x else Some b)"

definition openedAtOf :: "GradeDecision list \<Rightarrow> int option" where
  "openedAtOf rows =
     foldl (\<lambda>opened row. if gd_kind row \<noteq> 0 \<or> gd_ts row \<le> 0 then opened else keep_min opened (gd_ts row)) None rows"

section \<open>Classification\<close>

record CountedRule = ClassifiedRule +
  cr_outsideFromMissingRefusal :: "GradeDecision list"

definition countRule :: "GradeDecision list \<Rightarrow> CountedRule" where
  "countRule rows =
     (let allowances = filter (\<lambda>row. gd_kind row = 3) rows;
          refused = filter (\<lambda>row. gd_kind row = 2) rows;
          allowanceNonces = set (map gd_nonce allowances);
          refusalNonces = set (map gd_nonce refused);
          paid = filter (\<lambda>row. gd_kind row = 1) rows
      in \<lparr>cl_paidInside = filter (\<lambda>row. gd_nonce row \<notin> allowanceNonces) paid,
          cl_refused = refused,
          cl_allowances = allowances,
          cl_settlements = filter (\<lambda>row. gd_nonce row \<in> allowanceNonces) paid,
          cl_declines = filter (\<lambda>row. gd_kind row = 100) rows,
          cl_openedAt = openedAtOf rows,
          cr_outsideFromMissingRefusal = filter (\<lambda>row. gd_nonce row \<notin> refusalNonces) allowances\<rparr>)"

definition classifyRule :: "GradeDecision list \<Rightarrow> ClassifiedRule" where
  "classifyRule rows =
     (let counted = countRule rows
      in \<lparr>cl_paidInside = cl_paidInside counted, cl_refused = cl_refused counted,
          cl_allowances = cl_allowances counted, cl_settlements = cl_settlements counted,
          cl_declines = cl_declines counted, cl_openedAt = cl_openedAt counted\<rparr>)"

definition daysForRules :: "GradeDecision list list \<Rightarrow> int \<Rightarrow> int option" where
  "daysForRules rules nowSec =
     (let earliestOpen = foldl (\<lambda>e rows. case openedAtOf rows of None \<Rightarrow> e | Some o1 \<Rightarrow> keep_min e o1) None rules;
          earliestStamp = foldl (\<lambda>e rows. foldl (\<lambda>e row. if gd_ts row \<le> 0 then e else keep_min e (gd_ts row)) e rows) None rules
      in case earliestOpen of
           Some o1 \<Rightarrow> Some (elapsedDays o1 nowSec)
         | None \<Rightarrow>
             (case earliestStamp of
                None \<Rightarrow> None
              | Some s \<Rightarrow> let span = elapsedDays s nowSec in if span \<ge> GRADE_MIN_DAYS then Some span else None))"

section \<open>The grade\<close>

definition GRADE_LABEL :: "GradedBand option \<Rightarrow> string" where
  "GRADE_LABEL g =
     (case g of
        Some stayed \<Rightarrow> ''Stayed inside its rule''
      | Some tested \<Rightarrow> ''Tested its limit now and then''
      | Some pushed \<Rightarrow> ''Pushed its limit often''
      | None \<Rightarrow> ''Too new to grade'')"

definition bandFor :: "nat \<Rightarrow> nat \<Rightarrow> GradedBand" where
  "bandFor outside requests =
     (if outside * 20 < requests then stayed
      else if outside * 20 \<le> requests * 4 then tested
      else pushed)"

definition BANDS :: "GradedBand list" where "BANDS = [stayed, tested, pushed]"

fun indexOf :: "'a list \<Rightarrow> 'a \<Rightarrow> int" where
  "indexOf [] x = - 1"
| "indexOf (y # ys) x = (if y = x then 0 else let i = indexOf ys x in if i < 0 then - 1 else i + 1)"

definition stepDown :: "GradedBand \<Rightarrow> nat \<Rightarrow> GradedBand \<times> bool" where
  "stepDown band allowances =
     (if allowances < 2 then (band, False)
      else
        let index = indexOf BANDS band;
            i = min (index + 1) (int (length BANDS) - 1);
            lower = (if 0 \<le> i \<and> i < int (length BANDS) then BANDS ! nat i else band)
        in (lower, lower \<noteq> band))"

definition gradeRules :: "GradeDecision list list \<Rightarrow> int \<Rightarrow> Grade" where
  "gradeRules rules nowSec =
     (let paid = sum_list (map (\<lambda>rows. length (cl_paidInside (countRule rows))) rules);
          outside = sum_list (map (\<lambda>rows. length (cl_refused (countRule rows)) +
                      length (cr_outsideFromMissingRefusal (countRule rows))) rules);
          allowances = sum_list (map (\<lambda>rows. length (cl_allowances (countRule rows))) rules);
          declines = sum_list (map (\<lambda>rows. length (cl_declines (countRule rows))) rules);
          requests = paid + outside;
          daysRunning = daysForRules rules nowSec
      in if requests < GRADE_MIN_REQUESTS \<or> (case daysRunning of None \<Rightarrow> True | Some d \<Rightarrow> d < GRADE_MIN_DAYS)
         then \<lparr>g_id = None, g_label = GRADE_LABEL None, g_requests = requests, g_outside = outside, g_paid = paid,
               g_allowances = allowances, g_declines = declines, g_daysRunning = daysRunning, g_band = None,
               g_steppedDown = False, g_movedOutside = 0\<rparr>
         else
           let band = bandFor outside requests; stepped = stepDown band allowances
           in \<lparr>g_id = Some (fst stepped), g_label = GRADE_LABEL (Some (fst stepped)), g_requests = requests,
               g_outside = outside, g_paid = paid, g_allowances = allowances, g_declines = declines,
               g_daysRunning = daysRunning, g_band = Some band, g_steppedDown = snd stepped, g_movedOutside = 0\<rparr>)"

definition gradeCardLine :: "Grade \<Rightarrow> string" where
  "gradeCardLine grade =
     (if g_id grade = None then
        nat_str (g_requests grade) @ '' of the 10 requests needed, '' @
        (case g_daysRunning grade of
           None \<Rightarrow> ''the start is not on the record, so the day count waits''
         | Some d \<Rightarrow> ''day '' @ int_str d @ '' of the 3 needed'') @ ''.''
      else
        let head = nat_str (g_outside grade) @ '' of its '' @ nat_str (g_requests grade) @ '' requests outside its rule.'' in
        if g_outside grade = 0 \<and> g_allowances grade = 0 then head
        else
          let tail0 = (if g_allowances grade = 1 then ''Allowed once.''
                       else if g_allowances grade > 1 then ''Allowed '' @ nat_str (g_allowances grade) @ '' times.''
                       else ''All refused.'');
              tail1 = (if g_steppedDown grade then tail0 @ '' The allowances move the grade one step lower.'' else tail0)
          in head @ '' '' @ tail1)"

definition RECORD_BAND :: "GradedBand \<Rightarrow> string" where
  "RECORD_BAND b =
     (case b of
        stayed \<Rightarrow> ''fewer than 1 request in 20 outside the rule''
      | tested \<Rightarrow> ''1 to 4 requests in 20 outside the rule''
      | pushed \<Rightarrow> ''more than 4 requests in 20 outside the rule'')"

definition gradeRecordLine :: "Grade \<Rightarrow> string" where
  "gradeRecordLine grade =
     (case g_id grade of
        None \<Rightarrow> gradeCardLine grade @ '' The facts still show; the label waits.''
      | Some b \<Rightarrow>
          let tail0 = (if g_allowances grade = 1 then '', allowed once''
                       else if g_allowances grade > 1 then '', allowed '' @ nat_str (g_allowances grade) @ '' times''
                       else if g_outside grade = 0 then []
                       else '', all '' @ nat_str (g_outside grade) @ '' refused'');
              step = (if g_steppedDown grade then '' Two or more allowances move it one step lower.'' else [])
          in ''Its rule: '' @ RECORD_BAND b @ ''. This agent: '' @ nat_str (g_outside grade) @ '' of '' @
             nat_str (g_requests grade) @ tail0 @ ''.'' @ step)"

section \<open>Ticks and reasons\<close>

datatype tick_kind = TickPaid | TickRefused

record RequestTick =
  tk_kind :: tick_kind
  tk_ts :: int

definition requestTicks :: "GradeDecision list \<Rightarrow> RequestTick list" where
  "requestTicks rows =
     (let facts = countRule rows;
          tick = (\<lambda>k row. \<lparr>tk_kind = k, tk_ts = gd_ts row\<rparr>)
      in sort_key tk_ts
           (map (tick TickPaid) (cl_paidInside facts) @ map (tick TickRefused) (cl_refused facts) @
            map (tick TickRefused) (cr_outsideFromMissingRefusal facts)))"

definition tickLabel :: "RequestTick list \<Rightarrow> string" where
  "tickLabel ticks =
     (if ticks = [] then ''No requests on the record yet.''
      else nat_str (length ticks) @ '' requests, oldest to newest: '' @
           join '', '' (map (\<lambda>tick. if tk_kind tick = TickPaid then ''paid'' else ''refused'') ticks) @ ''.'')"

definition recordReasonTitle :: "int \<Rightarrow> string \<Rightarrow> string" where
  "recordReasonTitle reason perTxMaxLabel =
     (if reason = 5 then ''Over your limit of '' @ perTxMaxLabel @ '' per payment''
      else if reason = 6 then ''Over what this rule has left''
      else if reason = 4 then ''A payee this rule does not name''
      else if reason = 2 then ''After this rule ended''
      else if reason = 1 then ''While this rule was not active''
      else if reason = 3 then ''A payment already settled''
      else if reason = 7 then ''After the permission was withdrawn''
      else if reason = 8 then ''More than the wallet could pay''
      else if reason = 9 then ''A payment of nothing''
      else if reason = 10 then ''While an account was frozen''
      else if reason = 11 then ''An output account this rule does not allow''
      else if reason = 12 then ''A pool account this rule does not allow''
      else if reason = 13 then ''Over the daily limit''
      else if reason = 14 then ''Below the price floor''
      else ''A reason saved on the record'')"

definition weekReasonTitle :: "int \<Rightarrow> string \<Rightarrow> string" where
  "weekReasonTitle reason perTxMaxLabel =
     (if reason = 5 then ''Asked more than '' @ perTxMaxLabel @ '' per payment''
      else if reason = 6 then ''Asked more than this rule has left''
      else if reason = 4 then ''Asked a payee this rule does not name''
      else if reason = 2 then ''Asked after this rule ended''
      else if reason = 1 then ''Asked while this rule was not active''
      else if reason = 3 then ''Asked to repeat a payment already settled''
      else if reason = 7 then ''Asked after the permission was withdrawn''
      else if reason = 8 then ''Asked more than the wallet could pay''
      else if reason = 9 then ''Asked to pay nothing''
      else if reason = 10 then ''Asked while an account was frozen''
      else if reason = 11 then ''Asked for an output account this rule does not allow''
      else if reason = 12 then ''Asked for a pool account this rule does not allow''
      else if reason = 13 then ''Asked more than the daily limit''
      else if reason = 14 then ''Asked below the price floor''
      else ''Refused, and the reason is on the record'')"

section \<open>Snapshots and records\<close>

text \<open>\<open>ratio\<close> in ten-thousandths, the precision it is computed in.\<close>

definition ratio :: "int \<Rightarrow> int \<Rightarrow> int" where
  "ratio part whole =
     (if whole \<le> 0 \<or> part \<le> 0 then 0 else if part \<ge> whole then 10000 else (part * 10000) div whole)"

definition truncateAddress :: "string \<Rightarrow> string" where
  "truncateAddress address =
     (if length address \<le> 4 * 2 then address else take 4 address @ ''...'' @ drop (length address - 4) address)"

definition snapshotRule :: "RuleFacts \<Rightarrow> int \<Rightarrow> RuleSnapshot" where
  "snapshotRule rule nowSec =
     (let startedAt = openedAtOf (rf_rows rule);
          day = ruleDayNumber startedAt (rf_expiresAt rule) nowSec;
          totalDays = ruleTotalDays startedAt (rf_expiresAt rule);
          left = remainingCap (rf_cap rule) (rf_spent rule);
          shown = (\<lambda>a. formatTokenDisplay a (rf_decimals rule) (rf_mint rule));
          dayLabel = (case day of
              None \<Rightarrow> ''The start is not on the record''
            | Some d \<Rightarrow> (case totalDays of
                  Some t \<Rightarrow> ''Day '' @ int_str d @ '' of '' @ int_str t
                | None \<Rightarrow> ''Day '' @ int_str d))
      in RuleFacts.extend rule
           \<lparr>rs_shortAddress = truncateAddress (rf_address rule), rs_remainingLabel = shown left,
            rs_capLabel = shown (rf_cap rule), rs_spentLabel = shown (rf_spent rule),
            rs_perTxMaxLabel = shown (rf_perTxMax rule), rs_remainingRatio = ratio left (rf_cap rule),
            rs_day = day, rs_totalDays = totalDays, rs_dayLabel = dayLabel, rs_startedAt = startedAt,
            rs_classified = classifyRule (rf_rows rule)\<rparr>)"

record ReasonTally =
  ry_reason :: int
  ry_ruleAddress :: string
  ry_label :: string
  ry_count :: nat

definition reasonTallies :: "RuleSnapshot list \<Rightarrow> ReasonTally list" where
  "reasonTallies rules =
     concat (map (\<lambda>rule.
       let codes = map gd_reason (cl_refused (rs_classified rule)) in
       map (\<lambda>reason. \<lparr>ry_reason = reason, ry_ruleAddress = rf_address rule,
                      ry_label = recordReasonTitle reason (rs_perTxMaxLabel rule),
                      ry_count = count_list codes reason\<rparr>)
         (sort (remdups codes))) rules)"

definition latestTs :: "GradeDecision list \<Rightarrow> int" where
  "latestTs rows = foldl (\<lambda>latest row. if gd_ts row > latest then gd_ts row else latest) 0 rows"

record SpendLine =
  sl_remainingLabel :: string
  sl_capLabel :: string
  sl_ratio :: int
  sl_sentence :: string

record AgentRecord =
  ar_agent :: string
  ar_name :: string
  ar_shortAddress :: string
  ar_grade :: Grade
  ar_cardLine :: string
  ar_recordLine :: string
  ar_rules :: "RuleSnapshot list"
  ar_ticks :: "RequestTick list"
  ar_tickLabel :: string
  ar_reasons :: "ReasonTally list"
  ar_spend :: "SpendLine option"
  ar_daysValue :: string
  ar_daysCaption :: string
  ar_named :: bool

text \<open>The \<open>Map\<close> from agent to rules, in insertion order.\<close>

fun add_rule :: "(string \<times> RuleFacts list) list \<Rightarrow> RuleFacts \<Rightarrow> (string \<times> RuleFacts list) list" where
  "add_rule [] rule = [(rf_agent rule, [rule])]"
| "add_rule ((agent, rules) # rest) rule =
     (if agent = rf_agent rule then (agent, rules @ [rule]) # rest else (agent, rules) # add_rule rest rule)"

definition stored_name :: "(string \<Rightarrow> string option) \<Rightarrow> (string \<Rightarrow> string option) \<Rightarrow> string \<Rightarrow> string option" where
  "stored_name canonical names agent =
     (case canonical agent of
        None \<Rightarrow> None
      | Some key \<Rightarrow> if key = [] then None else (case names key of None \<Rightarrow> None | Some n \<Rightarrow> if n = [] then None else Some n))"

definition UNNAMED_AGENT :: string where "UNNAMED_AGENT = ''Unnamed agent''"

definition agentName :: "(string \<Rightarrow> string option) \<Rightarrow> string \<Rightarrow> (string \<Rightarrow> string option) \<Rightarrow> string" where
  "agentName canonical agent names =
     (case stored_name canonical names agent of Some n \<Rightarrow> n | None \<Rightarrow> UNNAMED_AGENT)"

definition agent_record ::
  "(string \<Rightarrow> string option) \<Rightarrow> (string \<Rightarrow> string option) \<Rightarrow> int \<Rightarrow> string \<times> RuleFacts list \<Rightarrow> AgentRecord" where
  "agent_record canonical names nowSec = (\<lambda>(agent, agentRules).
     let snapshots = sort_key rf_purpose (map (\<lambda>rule. snapshotRule rule nowSec) agentRules);
         grade = gradeRules (map rf_rows snapshots) nowSec;
         ticks = sort_key tk_ts (concat (map (\<lambda>rule. requestTicks (rf_rows rule)) snapshots));
         storedName = stored_name canonical names agent;
         one = (if length snapshots = 1 then Some (snapshots ! 0) else None)
     in \<lparr>ar_agent = agent,
         ar_name = (case storedName of Some n \<Rightarrow> n | None \<Rightarrow> UNNAMED_AGENT),
         ar_shortAddress = truncateAddress agent,
         ar_grade = grade,
         ar_cardLine = gradeCardLine grade,
         ar_recordLine = gradeRecordLine grade,
         ar_rules = snapshots,
         ar_ticks = ticks,
         ar_tickLabel = tickLabel ticks,
         ar_reasons = reasonTallies snapshots,
         ar_spend = map_option (\<lambda>s. \<lparr>sl_remainingLabel = rs_remainingLabel s, sl_capLabel = rs_capLabel s,
            sl_ratio = rs_remainingRatio s,
            sl_sentence = ''Can still spend '' @ rs_remainingLabel s @ '' of your '' @ rs_capLabel s\<rparr>) one,
         ar_daysValue = (case one of
              None \<Rightarrow> nat_str (length snapshots)
            | Some s \<Rightarrow> (case rs_day s of
                  None \<Rightarrow> ''not on record''
                | Some d \<Rightarrow> (case rs_totalDays s of
                      Some t \<Rightarrow> int_str d @ '' of '' @ int_str t
                    | None \<Rightarrow> int_str d))),
         ar_daysCaption = (if one = None then ''rules'' else ''days running''),
         ar_named = (storedName \<noteq> None)\<rparr>)"

definition record_ts :: "AgentRecord \<Rightarrow> int" where
  "record_ts a = foldl (\<lambda>mx rule. let ts = latestTs (rf_rows rule) in if ts > mx then ts else mx) 0 (ar_rules a)"

definition buildAgentRecords ::
  "(string \<Rightarrow> string option) \<Rightarrow> RuleFacts list \<Rightarrow> (string \<Rightarrow> string option) \<Rightarrow> int \<Rightarrow> AgentRecord list" where
  "buildAgentRecords canonical rules names nowSec =
     sort_key (\<lambda>a. (- record_ts a, ar_name a))
       (map (agent_record canonical names nowSec) (foldl add_rule [] rules))"

definition agentsHeading :: "AgentRecord list \<Rightarrow> string" where
  "agentsHeading records =
     (let rules = sum_list (map (\<lambda>r. length (ar_rules r)) records) in
      if length records = 1 \<and> rules = 1 then ''1 running, under one rule''
      else if length records = rules then nat_str (length records) @ '' running, each under one rule''
      else nat_str (length records) @ '' running, across '' @ nat_str rules @ '' rules'')"

definition liveRulesLabel :: "nat \<Rightarrow> string" where
  "liveRulesLabel n =
     (if n = 0 then ''No rule live'' else if n = 1 then ''1 rule live'' else nat_str n @ '' rules live'')"


section \<open>Earliest times\<close>

lemma foldl_keep_min_Some: "foldl keep_min (Some b) xs = Some (Min (insert b (set xs)))"
proof (induction xs arbitrary: b)
  case (Cons x xs)
  have "foldl keep_min (Some b) (x # xs) = foldl keep_min (Some (min b x)) xs"
    by (simp add: keep_min_def min_def)
  also have "\<dots> = Some (Min (insert (min b x) (set xs)))" by (rule Cons.IH)
  also have "Min (insert (min b x) (set xs)) = Min (insert b (set (x # xs)))"
    by (cases "xs = []") (simp_all add: min.assoc)
  finally show ?case .
qed simp

lemma foldl_keep_min: "foldl keep_min None xs = (if xs = [] then None else Some (Min (set xs)))"
  by (cases xs) (simp_all add: keep_min_def foldl_keep_min_Some)

lemma foldl_keep_min_filter:
  "foldl (\<lambda>e x. if skip x then e else keep_min e (f x)) e xs = foldl keep_min e (map f (filter (\<lambda>x. \<not> skip x) xs))"
  by (induction xs arbitrary: e) simp_all

lemma foldl_keep_min_nested:
  "foldl (\<lambda>e xs. foldl keep_min e (h xs)) e xss = foldl keep_min e (concat (map h xss))"
  by (induction xss arbitrary: e) simp_all

definition opened_stamps :: "GradeDecision list \<Rightarrow> int list" where
  "opened_stamps rows = map gd_ts (filter (\<lambda>row. \<not> (gd_kind row \<noteq> 0 \<or> gd_ts row \<le> 0)) rows)"

definition stamps :: "GradeDecision list \<Rightarrow> int list" where
  "stamps rows = map gd_ts (filter (\<lambda>row. \<not> gd_ts row \<le> 0) rows)"

definition earliest :: "int set \<Rightarrow> int option" where
  "earliest A = (if A = {} then None else Some (Min A))"

lemma openedAtOf_eq: "openedAtOf rows = earliest (set (opened_stamps rows))"
  by (auto simp: openedAtOf_def foldl_keep_min_filter foldl_keep_min opened_stamps_def earliest_def filter_empty_conv)

lemma foldl_keep_min_earliest: "foldl keep_min (earliest A) xs = earliest (A \<union> set xs)" if "finite A"
proof (cases "A = {}")
  case True
  then show ?thesis by (auto simp: earliest_def foldl_keep_min)
next
  case False
  have "Min (insert (Min A) (set xs)) = Min (A \<union> set xs)"
    using False that by (cases "xs = []") (simp_all add: Min_Un)
  then show ?thesis using False by (simp add: earliest_def foldl_keep_min_Some)
qed

lemma earliest_open_eq:
  assumes "finite A"
  shows "foldl (\<lambda>e rows. case openedAtOf rows of None \<Rightarrow> e | Some o1 \<Rightarrow> keep_min e o1) (earliest A) rules =
    earliest (A \<union> (\<Union>rows \<in> set rules. set (opened_stamps rows)))"
  using assms
proof (induction rules arbitrary: A)
  case (Cons rows rules)
  have "(case openedAtOf rows of None \<Rightarrow> earliest A | Some o1 \<Rightarrow> keep_min (earliest A) o1) =
      earliest (A \<union> set (opened_stamps rows))"
  proof (cases "opened_stamps rows = []")
    case False
    have "keep_min (earliest A) (Min (set (opened_stamps rows))) = foldl keep_min (earliest A) [Min (set (opened_stamps rows))]"
      by simp
    also have "\<dots> = earliest (A \<union> {Min (set (opened_stamps rows))})"
      using foldl_keep_min_earliest [OF Cons.prems, of "[Min (set (opened_stamps rows))]"] by simp
    also have "\<dots> = earliest (A \<union> set (opened_stamps rows))"
      using False Cons.prems by (cases "A = {}") (simp_all add: earliest_def Min_Un)
    finally show ?thesis using False by (simp add: openedAtOf_eq earliest_def)
  qed (simp add: openedAtOf_eq earliest_def)
  then show ?case using Cons.IH [of "A \<union> set (opened_stamps rows)"] Cons.prems by (simp add: Un_assoc)
qed simp

definition days_from :: "int option \<Rightarrow> int option \<Rightarrow> int \<Rightarrow> int option" where
  "days_from opened stamp nowSec =
     (case opened of
        Some o1 \<Rightarrow> Some (elapsedDays o1 nowSec)
      | None \<Rightarrow> (case stamp of None \<Rightarrow> None
                 | Some s \<Rightarrow> if elapsedDays s nowSec \<ge> GRADE_MIN_DAYS then Some (elapsedDays s nowSec) else None))"

lemma daysForRules_eq:
  "daysForRules rules nowSec =
     days_from (earliest (\<Union>rows \<in> set rules. set (opened_stamps rows))) (earliest (\<Union>rows \<in> set rules. set (stamps rows))) nowSec"
proof -
  have e: "(None :: int option) = earliest {}" by (simp add: earliest_def)
  have "foldl (\<lambda>e rows. foldl (\<lambda>e row. if gd_ts row \<le> 0 then e else keep_min e (gd_ts row)) e rows) None rules =
      foldl keep_min (earliest {}) (concat (map stamps rules))"
    by (simp add: foldl_keep_min_filter foldl_keep_min_nested earliest_def stamps_def cong: map_cong)
  also have "\<dots> = earliest (\<Union>rows \<in> set rules. set (stamps rows))"
    by (subst foldl_keep_min_earliest) (simp_all)
  finally have stamp: "foldl (\<lambda>e rows. foldl (\<lambda>e row. if gd_ts row \<le> 0 then e else keep_min e (gd_ts row)) e rows) None rules =
      earliest (\<Union>rows \<in> set rules. set (stamps rows))" .
  have "foldl (\<lambda>e rows. case openedAtOf rows of None \<Rightarrow> e | Some o1 \<Rightarrow> keep_min e o1) None rules =
      earliest (\<Union>rows \<in> set rules. set (opened_stamps rows))"
    using earliest_open_eq [of "{}" rules] e by simp
  then show ?thesis
    by (simp add: daysForRules_def days_from_def stamp Let_def split: option.splits)
qed


section \<open>The grade does not depend on order\<close>

lemma length_filter_mset: "mset xs = mset ys \<Longrightarrow> length (filter P xs) = length (filter P ys)"
  by (metis mset_filter size_mset)

lemma countRule_mset:
  assumes "mset rows = mset rows'"
  shows "length (cl_paidInside (countRule rows)) = length (cl_paidInside (countRule rows'))"
    "length (cl_refused (countRule rows)) = length (cl_refused (countRule rows'))"
    "length (cl_allowances (countRule rows)) = length (cl_allowances (countRule rows'))"
    "length (cl_declines (countRule rows)) = length (cl_declines (countRule rows'))"
    "length (cr_outsideFromMissingRefusal (countRule rows)) = length (cr_outsideFromMissingRefusal (countRule rows'))"
  using length_filter_mset [OF assms] mset_eq_setD [OF assms]
  by (simp_all add: countRule_def Let_def image_def)

lemma stamps_mset:
  assumes "mset rows = mset rows'"
  shows "set (opened_stamps rows) = set (opened_stamps rows')" "set (stamps rows) = set (stamps rows')"
  using mset_eq_setD [OF assms] by (auto simp: opened_stamps_def stamps_def)

lemma sum_list_mset_map: "mset xs = mset ys \<Longrightarrow> sum_list (map f xs) = (sum_list (map f ys) :: nat)"
  by (metis mset_map sum_mset_sum_list)

lemma gradeRules_cong:
  assumes "list_all2 (\<lambda>rows rows'. mset rows = mset rows') rules rules'"
  shows "gradeRules rules now = gradeRules rules' now"
proof -
  have maps: "map f rules = map f rules'" if "\<And>rows rows'. mset rows = mset rows' \<Longrightarrow> f rows = f rows'"
    for f :: "GradeDecision list \<Rightarrow> 'b"
  proof -
    have "list_all2 (\<lambda>r r'. f r = f r') rules rules'" using assms by (rule list_all2_mono) (rule that)
    then show ?thesis by (simp add: list_all2_conv_all_nth list_eq_iff_nth_eq)
  qed
  have unions: "(\<Union>rows \<in> set rules. set (g rows)) = (\<Union>rows \<in> set rules'. set (g rows))"
    if "\<And>rows rows'. mset rows = mset rows' \<Longrightarrow> set (g rows) = set (g rows')" for g :: "GradeDecision list \<Rightarrow> int list"
    using arg_cong [OF maps [of "\<lambda>rows. set (g rows)", OF that], of "\<lambda>xs. \<Union>(set xs)"] by simp
  have days: "daysForRules rules now = daysForRules rules' now"
    by (simp add: daysForRules_eq unions [OF stamps_mset(1)] unions [OF stamps_mset(2)])
  have outside: "(map (\<lambda>rows. length (cl_refused (countRule rows)) + length (cr_outsideFromMissingRefusal (countRule rows))) rules) =
      (map (\<lambda>rows. length (cl_refused (countRule rows)) + length (cr_outsideFromMissingRefusal (countRule rows))) rules')"
    by (rule maps) (rule arg_cong2 [where f = "(+)", OF countRule_mset(2) countRule_mset(5)])
  have paid: "map (\<lambda>rows. length (cl_paidInside (countRule rows))) rules = map (\<lambda>rows. length (cl_paidInside (countRule rows))) rules'"
    by (rule maps) (rule countRule_mset(1))
  have allowances: "map (\<lambda>rows. length (cl_allowances (countRule rows))) rules = map (\<lambda>rows. length (cl_allowances (countRule rows))) rules'"
    by (rule maps) (rule countRule_mset(3))
  have declines: "map (\<lambda>rows. length (cl_declines (countRule rows))) rules = map (\<lambda>rows. length (cl_declines (countRule rows))) rules'"
    by (rule maps) (rule countRule_mset(4))
  show ?thesis by (simp only: gradeRules_def Let_def days outside paid allowances declines)
qed

lemma gradeRules_perm:
  assumes "mset rules = mset rules'"
  shows "gradeRules rules now = gradeRules rules' now"
proof -
  have "daysForRules rules now = daysForRules rules' now"
    by (simp add: daysForRules_eq mset_eq_setD [OF assms])
  then show ?thesis
    unfolding gradeRules_def Let_def by (simp add: sum_list_mset_map [OF assms])
qed


text \<open>The grade is a function of the decisions alone. Reordering the rows of any rule, and the rules
  among themselves, changes nothing in it.\<close>

theorem grade_ignores_order:
  assumes "list_all2 (\<lambda>rows rows'. mset rows = mset rows') rules rules''" "mset rules'' = mset rules'"
  shows "gradeRules rules now = gradeRules rules' now"
  using gradeRules_cong [OF assms(1)] gradeRules_perm [OF assms(2)] by simp

section \<open>One more refusal\<close>

definition paid_of :: "GradeDecision list list \<Rightarrow> nat" where
  "paid_of rules = sum_list (map (\<lambda>rows. length (cl_paidInside (countRule rows))) rules)"

definition outside_of :: "GradeDecision list list \<Rightarrow> nat" where
  "outside_of rules = sum_list (map (\<lambda>rows. length (cl_refused (countRule rows)) +
     length (cr_outsideFromMissingRefusal (countRule rows))) rules)"

definition allowed_of :: "GradeDecision list list \<Rightarrow> nat" where
  "allowed_of rules = sum_list (map (\<lambda>rows. length (cl_allowances (countRule rows))) rules)"

lemmas totals_of = paid_of_def outside_of_def allowed_of_def

lemma g_id_gradeRules:
  "g_id (gradeRules rules now) =
     (if paid_of rules + outside_of rules < 10 \<or> (case daysForRules rules now of None \<Rightarrow> True | Some d \<Rightarrow> d < 3) then None
      else Some (fst (stepDown (bandFor (outside_of rules) (paid_of rules + outside_of rules)) (allowed_of rules))))"
  "g_paid (gradeRules rules now) = paid_of rules" "g_outside (gradeRules rules now) = outside_of rules"
  by (simp_all add: gradeRules_def totals_of Let_def GRADE_MIN_REQUESTS_def GRADE_MIN_DAYS_def split: option.splits)

definition rank :: "GradedBand \<Rightarrow> nat" where
  "rank b = (case b of stayed \<Rightarrow> 0 | tested \<Rightarrow> 1 | pushed \<Rightarrow> 2)"

lemma rank_stepDown: "rank (fst (stepDown b a)) = (if a < 2 then rank b else min 2 (rank b + 1))"
  by (cases b) (simp_all add: stepDown_def rank_def BANDS_def Let_def)

lemma rank_bandFor_Suc: "rank (bandFor x y) \<le> rank (bandFor (Suc x) (Suc y))"
  by (auto simp: bandFor_def rank_def)

lemma elapsedDays_antimono: "s' \<le> s \<Longrightarrow> elapsedDays s now \<le> elapsedDays s' now"
proof -
  assume le: "s' \<le> s"
  have one: "1 \<le> elapsedDays s' now" by (simp add: elapsedDays_def MAX_SAFE_INTEGER_def Let_def pos_imp_zdiv_nonneg_iff)
  have "(now - s) div 86400 \<le> (now - s') div 86400" using le by (intro zdiv_mono1) simp_all
  then show ?thesis
    using one le by (cases "now \<le> s") (auto simp: elapsedDays_def Let_def)
qed

lemma countRule_refusal:
  assumes "gd_kind r = 2" "gd_nonce r \<notin> gd_nonce ` set (cl_allowances (countRule rows))"
  shows "cl_paidInside (countRule (rows @ [r])) = cl_paidInside (countRule rows)"
    "cl_refused (countRule (rows @ [r])) = cl_refused (countRule rows) @ [r]"
    "cl_allowances (countRule (rows @ [r])) = cl_allowances (countRule rows)"
    "cr_outsideFromMissingRefusal (countRule (rows @ [r])) = cr_outsideFromMissingRefusal (countRule rows)"
    "opened_stamps (rows @ [r]) = opened_stamps rows"
    "set (stamps rows) \<subseteq> set (stamps (rows @ [r]))"
  using assms by (auto simp: countRule_def Let_def opened_stamps_def stamps_def image_iff intro!: filter_cong)

lemma days_from_more:
  assumes "days_from op (earliest A) now = Some d" "3 \<le> d" "A \<subseteq> B" "finite B"
  shows "\<exists>d'. days_from op (earliest B) now = Some d' \<and> 3 \<le> d'"
proof (cases op)
  case (Some o1)
  with assms(1,2) show ?thesis by (simp add: days_from_def)
next
  case None
  then have A: "A \<noteq> {}" and d: "d = elapsedDays (Min A) now"
    using assms(1) by (auto simp: days_from_def earliest_def split: if_splits)
  have "Min B \<le> Min A" by (rule Min_antimono [OF assms(3) A assms(4)])
  then have "3 \<le> elapsedDays (Min B) now" using elapsedDays_antimono [of "Min B" "Min A" now] assms(2) d by simp
  then show ?thesis using None A assms(3) by (auto simp: days_from_def earliest_def GRADE_MIN_DAYS_def)
qed

text \<open>One more refusal never improves a grade. Once an agent is graded, a further refusal that the
  owner did not allow leaves it graded, in the same band or a worse one.\<close>

theorem refusal_never_improves_grade:
  assumes "gd_kind r = 2" "gd_nonce r \<notin> gd_nonce ` set (cl_allowances (countRule rows))"
    and "g_id (gradeRules (pre @ rows # post) now) = Some b"
  shows "\<exists>b'. g_id (gradeRules (pre @ (rows @ [r]) # post) now) = Some b' \<and> rank b \<le> rank b'"
proof -
  note c = countRule_refusal [OF assms(1,2)]
  let ?old = "pre @ rows # post" and ?new = "pre @ (rows @ [r]) # post"
  have sums: "paid_of ?new = paid_of ?old" "outside_of ?new = Suc (outside_of ?old)" "allowed_of ?new = allowed_of ?old"
    using c by (simp_all add: totals_of)
  obtain d where old: "\<not> paid_of ?old + outside_of ?old < 10" "daysForRules ?old now = Some d" "3 \<le> d"
      "b = fst (stepDown (bandFor (outside_of ?old) (paid_of ?old + outside_of ?old)) (allowed_of ?old))"
    using assms(3) by (auto simp: g_id_gradeRules split: if_splits option.splits)
  have "\<exists>d'. daysForRules ?new now = Some d' \<and> 3 \<le> d'"
    using old(2,3) c(6) unfolding daysForRules_eq
    by (intro days_from_more [of _ "\<Union>rows \<in> set ?old. set (stamps rows)"]) (auto simp: c(5))
  then have "g_id (gradeRules ?new now) =
      Some (fst (stepDown (bandFor (Suc (outside_of ?old)) (Suc (paid_of ?old + outside_of ?old))) (allowed_of ?old)))"
    using old(1) sums by (auto simp: g_id_gradeRules)
  moreover have "rank b \<le> rank (fst (stepDown (bandFor (Suc (outside_of ?old)) (Suc (paid_of ?old + outside_of ?old))) (allowed_of ?old)))"
    using rank_bandFor_Suc [of "outside_of ?old" "paid_of ?old + outside_of ?old"] old(4)
    by (simp add: rank_stepDown min_def)
  ultimately show ?thesis by blast
qed


section \<open>Records\<close>

lemma countRule_ticks:
  "length (filter (\<lambda>t. tk_kind t = TickPaid) (requestTicks rows)) = length (cl_paidInside (countRule rows))"
  "length (filter (\<lambda>t. tk_kind t = TickRefused) (requestTicks rows)) =
     length (cl_refused (countRule rows)) + length (cr_outsideFromMissingRefusal (countRule rows))"
proof -
  have len: "length (filter P (sort_key f xs)) = length (filter P xs)" for P and f :: "'b \<Rightarrow> int" and xs
    by (metis length_filter_mset mset_sort)
  show "length (filter (\<lambda>t. tk_kind t = TickPaid) (requestTicks rows)) = length (cl_paidInside (countRule rows))"
    "length (filter (\<lambda>t. tk_kind t = TickRefused) (requestTicks rows)) =
       length (cl_refused (countRule rows)) + length (cr_outsideFromMissingRefusal (countRule rows))"
    by (simp_all add: requestTicks_def Let_def len filter_map comp_def)
qed

text \<open>The ticks of a record and its grade count the same requests. Each record's ticks run from oldest
  to newest, with as many paid ticks as the grade counts paid inside the rule and as many refused
  ticks as it counts outside.\<close>

theorem ticks_match_grade:
  assumes "a \<in> set (buildAgentRecords canonical rules names now)"
  shows "sorted (map tk_ts (ar_ticks a)) \<and>
    length (filter (\<lambda>t. tk_kind t = TickPaid) (ar_ticks a)) = g_paid (ar_grade a) \<and>
    length (filter (\<lambda>t. tk_kind t = TickRefused) (ar_ticks a)) = g_outside (ar_grade a)"
proof -
  obtain agent rs where a: "a = agent_record canonical names now (agent, rs)"
    using assms by (auto simp: buildAgentRecords_def)
  define snaps where "snaps = sort_key rf_purpose (map (\<lambda>rule. snapshotRule rule now) rs)"
  have ticks: "ar_ticks a = sort_key tk_ts (concat (map (\<lambda>rule. requestTicks (rf_rows rule)) snaps))"
    and grade: "ar_grade a = gradeRules (map rf_rows snaps) now"
    by (simp_all add: a agent_record_def snaps_def Let_def)
  have len: "length (filter P (ar_ticks a)) = sum_list (map (\<lambda>rule. length (filter P (requestTicks (rf_rows rule)))) snaps)" for P
  proof -
    have "length (filter P (ar_ticks a)) = length (filter P (concat (map (\<lambda>rule. requestTicks (rf_rows rule)) snaps)))"
      unfolding ticks by (metis length_filter_mset mset_sort)
    then show ?thesis by (simp add: filter_concat length_concat comp_def)
  qed
  show ?thesis
    by (simp add: len countRule_ticks grade g_id_gradeRules totals_of comp_def) (simp add: ticks)
qed

lemma add_rule_agents:
  "map fst (add_rule groups r) =
     (if rf_agent r \<in> set (map fst groups) then map fst groups else map fst groups @ [rf_agent r])"
  by (induction groups r rule: add_rule.induct) force+

definition grouped :: "(string \<times> RuleFacts list) list \<Rightarrow> RuleFacts list \<Rightarrow> bool" where
  "grouped groups rules =
     (distinct (map fst groups) \<and> mset (concat (map snd groups)) = mset rules \<and>
      (\<forall>(agent, rs) \<in> set groups. \<forall>r \<in> set rs. rf_agent r = agent))"

lemma grouped_add:
  assumes "grouped groups rules"
  shows "grouped (add_rule groups rule) (rules @ [rule])"
proof -
  have "mset (concat (map snd (add_rule groups rule))) = add_mset rule (mset (concat (map snd groups)))"
    by (induction groups) auto
  moreover have "\<forall>(agent, rs) \<in> set (add_rule groups rule). \<forall>r \<in> set rs. rf_agent r = agent"
  proof -
    have "\<forall>(agent, rs) \<in> set groups. \<forall>r \<in> set rs. rf_agent r = agent" using assms by (simp add: grouped_def)
    then show ?thesis by (induction groups) (fastforce split: if_splits)+
  qed
  moreover have "distinct (map fst (add_rule groups rule))"
    using assms by (simp add: grouped_def add_rule_agents)
  ultimately show ?thesis using assms by (simp add: grouped_def)
qed

lemma grouped_all: "grouped (foldl add_rule [] rules) rules"
proof (induction rules rule: rev_induct)
  case (snoc rule rules)
  then show ?case by (simp add: grouped_add)
qed (simp add: grouped_def)

lemma snapshot_facts [simp]: "RuleFacts.truncate (snapshotRule rule now) = rule"
  by (simp add: snapshotRule_def Let_def RuleFacts.truncate_def RuleFacts.extend_def)

lemma agent_record_simps:
  "ar_rules (agent_record canonical names now g) = sort_key rf_purpose (map (\<lambda>r. snapshotRule r now) (snd g))"
  "ar_agent (agent_record canonical names now g) = fst g"
  by (simp_all add: agent_record_def Let_def split: prod.splits)

lemma agent_record_rules:
  "mset (map RuleFacts.truncate (ar_rules (agent_record canonical names now g))) = mset (snd g)"
  by (simp add: agent_record_simps comp_def image_mset.compositionality)

lemma sum_mset_map: "(\<Sum>a \<in># mset xs. f a) = sum_list (map f xs)"
  by (metis mset_map sum_mset_sum_list)

text \<open>The records cover the rules exactly. Every rule appears once, in the record of its own agent; no
  agent has two records; and the records are listed with the most recently active agent first.\<close>

theorem records_partition_rules:
  "(let records = buildAgentRecords canonical rules names now
    in mset (concat (map (\<lambda>a. map RuleFacts.truncate (ar_rules a)) records)) = mset rules \<and>
       distinct (map ar_agent records) \<and>
       list_all (\<lambda>a. list_all (\<lambda>r. rf_agent r = ar_agent a) (ar_rules a)) records \<and>
       sorted (map (\<lambda>a. - record_ts a) records))"
proof -
  let ?groups = "foldl add_rule [] rules"
  let ?recs = "map (agent_record canonical names now) ?groups"
  define records where "records = buildAgentRecords canonical rules names now"
  have perm: "mset records = mset ?recs" by (simp add: records_def buildAgentRecords_def)
  note g = grouped_all [of rules, unfolded grouped_def]
  have "mset (concat (map (\<lambda>a. map RuleFacts.truncate (ar_rules a)) records)) =
      (\<Sum>a \<in># mset records. mset (map RuleFacts.truncate (ar_rules a)))"
    by (simp add: mset_concat sum_mset_map comp_def)
  also have "\<dots> = sum_list (map (\<lambda>g. mset (map RuleFacts.truncate (ar_rules (agent_record canonical names now g)))) ?groups)"
    unfolding perm sum_mset_map by (simp add: comp_def)
  also have "\<dots> = mset (concat (map snd ?groups))"
    unfolding agent_record_rules by (simp add: mset_concat comp_def)
  finally have parts: "mset (concat (map (\<lambda>a. map RuleFacts.truncate (ar_rules a)) records)) = mset rules"
    using g by simp
  have "mset (map ar_agent records) = mset (map ar_agent ?recs)" using perm by (metis mset_map)
  moreover have "map ar_agent ?recs = map fst ?groups" by (simp add: agent_record_simps comp_def)
  ultimately have dist: "distinct (map ar_agent records)" using g by (metis mset_eq_imp_distinct_iff)
  have agents: "rf_agent r = ar_agent a" if a: "a \<in> set records" and r: "r \<in> set (ar_rules a)" for a r
  proof -
    obtain agent rs where grp: "(agent, rs) \<in> set ?groups" "a = agent_record canonical names now (agent, rs)"
      using a mset_eq_setD [OF perm] by auto
    have "RuleFacts.truncate r \<in> set rs"
      using r mset_eq_setD [OF agent_record_rules, of canonical names now "(agent, rs)"] grp(2) by auto
    then have "rf_agent (RuleFacts.truncate r) = agent" using g grp(1) by auto
    then show ?thesis using grp(2) by (simp add: agent_record_simps RuleFacts.truncate_def)
  qed
  have "sorted (map (\<lambda>a. (- record_ts a, ar_name a)) records)" by (simp add: records_def buildAgentRecords_def)
  then have "sorted (map (\<lambda>a. - record_ts a) records)"
    by (simp add: sorted_iff_nth_mono less_eq_prod_def) (meson less_imp_le)
  with parts dist agents show ?thesis
    unfolding records_def [symmetric] Let_def by (auto simp: list_all_iff)
qed


section \<open>A graded agent\<close>

definition demo_decision :: "int \<Rightarrow> int \<Rightarrow> int \<Rightarrow> GradeDecision" where
  "demo_decision kind nonce ts =
     \<lparr>gd_kind = kind, gd_ts = ts, gd_amount = 1, gd_nonce = nonce, gd_reason = 0, gd_counterparty = []\<rparr>"

definition demo_rows :: "GradeDecision list" where
  "demo_rows = demo_decision 0 0 1 # map (\<lambda>n. demo_decision 1 n 2) [1..10]"

lemma demo_rows_simps:
  "countRule demo_rows =
     \<lparr>cl_paidInside = map (\<lambda>n. demo_decision 1 n 2) [1..10], cl_refused = [], cl_allowances = [], cl_settlements = [],
      cl_declines = [], cl_openedAt = Some 1, cr_outsideFromMissingRefusal = []\<rparr>"
  by (simp add: countRule_def demo_rows_def demo_decision_def openedAtOf_def keep_min_def upto.simps Let_def)

lemma demo_grade: "g_id (gradeRules [demo_rows] 500000) = Some stayed"
proof -
  have "daysForRules [demo_rows] 500000 = Some 6"
    by (simp add: daysForRules_def openedAtOf_def demo_rows_def demo_decision_def keep_min_def upto.simps Let_def
        elapsedDays_def MAX_SAFE_INTEGER_def GRADE_MIN_DAYS_def)
  then show ?thesis
    by (simp add: g_id_gradeRules totals_of demo_rows_simps upto.simps bandFor_def stepDown_def)
qed



definition demo_rule :: RuleFacts where
  "demo_rule = \<lparr>rf_address = ''R'', rf_agent = ''A'', rf_purpose = [], rf_cap = 100, rf_spent = 10, rf_perTxMax = 5,
     rf_expiresAt = 900000, rf_status = 0, rf_decimals = 0, rf_mint = None, rf_merchant = None, rf_rows = demo_rows\<rparr>"


end
