(* ===== verification/Rolling_Window.thy ===== *)
theory Rolling_Window
  imports Mandate_Program
begin

text \<open>
  The bounded rolling day of the program (\<^verbatim>\<open>programs/veto/src/rolling_window.rs\<close>): 25 hourly buckets
  shared by trade rules and Hold vaults. The locale states what a user of the buckets relies on; its
  interpretation on the buckets shows that a rolling day is never undercounted.
\<close>

section \<open>Buckets\<close>

record TradeBucket =
  b_hour :: int
  b_amount :: u64

definition BUCKET_COUNT :: nat where "BUCKET_COUNT = 25"

definition empty_buckets :: "TradeBucket list" where
  "empty_buckets = replicate BUCKET_COUNT \<lparr>b_hour = 0, b_amount = 0\<rparr>"

text \<open>\<open>div_euclid\<close> and \<open>rem_euclid\<close> by a positive number are \<open>div\<close> and \<open>mod\<close> of HOL.\<close>

definition hour_of :: "int \<Rightarrow> int" where
  "hour_of now = now div 3600"

definition slot_of :: "int \<Rightarrow> nat" where
  "slot_of hour = nat (hour mod int BUCKET_COUNT)"

definition saturating_add64 :: "u64 \<Rightarrow> u64 \<Rightarrow> u64" where
  "saturating_add64 a b = (if unat a + unat b < 2 ^ 64 then a + b else 18446744073709551615)"

fun try_sum :: "u64 list \<Rightarrow> u64 \<Rightarrow> u64 option" where
  "try_sum [] t = Some t"
| "try_sum (x # xs) t = (case checked_add t x of None \<Rightarrow> None | Some t' \<Rightarrow> try_sum xs t')"

definition live :: "TradeBucket list \<Rightarrow> int \<Rightarrow> TradeBucket list" where
  "live buckets now = filter (\<lambda>b. b_hour b \<ge> hour_of now - 24) buckets"

definition spent :: "TradeBucket list \<Rightarrow> int \<Rightarrow> u64 option" where
  "spent buckets now = try_sum (map b_amount (live buckets now)) 0"

definition commit :: "TradeBucket list \<Rightarrow> u64 \<Rightarrow> int \<Rightarrow> TradeBucket list option" where
  "commit buckets amount now =
     (let hour = hour_of now; slot = slot_of hour; b = buckets ! slot in
      if b_hour b \<noteq> hour \<and> b_amount b \<noteq> 0 \<and> b_hour b \<ge> hour - 24 then None
      else
        let b1 = (if b_hour b \<noteq> hour then \<lparr>b_hour = hour, b_amount = 0\<rparr> else b)
        in case checked_add (b_amount b1) amount of
             None \<Rightarrow> None
           | Some a \<Rightarrow> Some (buckets[slot := b1\<lparr>b_amount := a\<rparr>]))"

definition record_release :: "TradeBucket list \<Rightarrow> u64 \<Rightarrow> int \<Rightarrow> TradeBucket list" where
  "record_release buckets amount now =
     (let hour = hour_of now; slot = slot_of hour; b = buckets ! slot;
          b1 = (if b_amount b = 0 \<or> b_hour b < hour - 24 then \<lparr>b_hour = hour, b_amount = 0\<rparr> else b)
      in buckets[slot := b1\<lparr>b_amount := saturating_add64 (b_amount b1) amount\<rparr>])"

section \<open>Sums\<close>

definition live_total :: "TradeBucket list \<Rightarrow> int \<Rightarrow> nat" where
  "live_total buckets now = sum_list (map (\<lambda>b. unat (b_amount b)) (live buckets now))"

lemma unat_saturating: "unat (saturating_add64 a b) = min (2 ^ 64 - 1) (unat a + unat b)"
proof (cases "unat a + unat b < 2 ^ 64")
  case True
  then show ?thesis by (simp add: saturating_add64_def unat_word_ariths)
next
  case False
  with False show ?thesis by (simp add: saturating_add64_def)
qed

lemma checked_add_nat: "checked_add a b = (if unat a + unat b < 2 ^ 64 then Some (a + b) else None)"
  by (simp add: checked_add_def)

lemma try_sum_eq:
  "try_sum xs t = (if unat t + sum_list (map unat xs) < 2 ^ 64 then Some (of_nat (unat t + sum_list (map unat xs))) else None)"
proof (induction xs arbitrary: t)
  case Nil
  have "unat t < 2 ^ 64" using unat_bound [of t] by simp
  then show ?case by simp
next
  case (Cons x xs)
  show ?case
  proof (cases "unat t + unat x < 2 ^ 64")
    case True
    then have "unat (t + x) = unat t + unat x" by (simp add: unat_word_ariths)
    with True Cons.IH [of "t + x"] show ?thesis by (simp add: checked_add_nat add.assoc)
  next
    case False
    then have "\<not> unat t + (unat x + sum_list (map unat xs)) < 2 ^ 64" by simp
    with False show ?thesis by (simp add: checked_add_nat)
  qed
qed

lemma spent_eq:
  "spent buckets now = (if live_total buckets now < 2 ^ 64 then Some (of_nat (live_total buckets now)) else None)"
  by (simp add: spent_def try_sum_eq live_total_def comp_def)


section \<open>A rolling day is never undercounted\<close>

text \<open>What was released at clock times, oldest first; \<open>recent\<close> sums the last 24 hours exactly.\<close>

type_synonym releases = "(int \<times> u64) list"

definition recent :: "releases \<Rightarrow> int \<Rightarrow> nat" where
  "recent hist now = sum_list (map (\<lambda>(t, a). unat a) (filter (\<lambda>(t, a). now - 86400 < t \<and> t \<le> now) hist))"

definition in_hour :: "releases \<Rightarrow> int \<Rightarrow> nat" where
  "in_hour hist h = sum_list (map (\<lambda>(t, a). unat a) (filter (\<lambda>(t, a). hour_of t = h) hist))"

definition bucket_at :: "TradeBucket list \<Rightarrow> int \<Rightarrow> nat" where
  "bucket_at b h = (if b_hour (b ! slot_of h) = h then unat (b_amount (b ! slot_of h)) else 0)"

definition window_inv :: "TradeBucket list \<Rightarrow> releases \<Rightarrow> int \<Rightarrow> bool" where
  "window_inv b hist h \<longleftrightarrow>
     length b = BUCKET_COUNT \<and>
     (\<forall>i < BUCKET_COUNT. b_amount (b ! i) \<noteq> 0 \<longrightarrow> slot_of (b_hour (b ! i)) = i \<and> b_hour (b ! i) \<le> h) \<and>
     (\<forall>k. h - 24 \<le> k \<longrightarrow> k \<le> h \<longrightarrow> min (2 ^ 64 - 1) (in_hour hist k) \<le> bucket_at b k) \<and>
     (\<forall>k. h < k \<longrightarrow> in_hour hist k = 0)"

lemma slot_lt [simp]: "slot_of h < BUCKET_COUNT"
  by (simp add: slot_of_def BUCKET_COUNT_def nat_less_iff)

lemma slot_inj: "slot_of h = slot_of k \<Longrightarrow> \<bar>h - k\<bar> < 25 \<Longrightarrow> h = k"
proof -
  assume "slot_of h = slot_of k" and near: "\<bar>h - k\<bar> < 25"
  then have "h mod 25 = k mod 25" by (simp add: slot_of_def BUCKET_COUNT_def eq_nat_nat_iff)
  then have "25 dvd h - k" by (simp add: mod_eq_dvd_iff)
  then show "h = k" using near by (metis abs_ge_zero dvd_imp_le_int linorder_not_less abs_numeral eq_iff_diff_eq_0)
qed

lemma window_inv_empty: "window_inv empty_buckets [] h"
  by (simp add: window_inv_def empty_buckets_def in_hour_def bucket_at_def)

text \<open>A clock that moves forward only loses hours that have left the window.\<close>

lemma window_inv_later:
  assumes "window_inv b hist h" "h \<le> h'"
  shows "window_inv b hist h'"
proof -
  have "min (2 ^ 64 - 1) (in_hour hist k) \<le> bucket_at b k" if "h' - 24 \<le> k" for k
    using assms that by (cases "k \<le> h") (simp_all add: window_inv_def)
  moreover have "b_hour (b ! i) \<le> h'" if "i < BUCKET_COUNT" "b_amount (b ! i) \<noteq> 0" for i
    using assms that by (auto simp: window_inv_def intro: order_trans)
  ultimately show ?thesis using assms by (simp add: window_inv_def)
qed

lemma in_hour_snoc: "in_hour (hist @ [(t, a)]) h = in_hour hist h + (if hour_of t = h then unat a else 0)"
  by (simp add: in_hour_def)

lemma bucket_eta: "x\<lparr>b_amount := y\<rparr> = \<lparr>b_hour = b_hour x, b_amount = y\<rparr>"
  by (cases x) simp

lemma record_release_bucket:
  assumes "window_inv b hist h" "h \<le> hour_of now"
  shows "record_release b a now = b[slot_of (hour_of now) :=
    \<lparr>b_hour = hour_of now, b_amount = saturating_add64 (if b_hour (b ! slot_of (hour_of now)) = hour_of now
       then b_amount (b ! slot_of (hour_of now)) else 0) a\<rparr>]"
proof -
  let ?b = "b ! slot_of (hour_of now)"
  have "b_amount ?b = 0 \<or> b_hour ?b < hour_of now - 24 \<or> b_hour ?b = hour_of now"
  proof (rule ccontr)
    assume c: "\<not> ?thesis"
    then have "slot_of (b_hour ?b) = slot_of (hour_of now)" "b_hour ?b \<le> h"
      using assms(1) by (auto simp: window_inv_def)
    with c assms(2) slot_inj [of "b_hour ?b" "hour_of now"] show False by auto
  qed
  then show ?thesis by (auto simp: record_release_def Let_def bucket_eta)
qed

lemma window_inv_record:
  assumes "window_inv b hist (hour_of now)"
  shows "window_inv (record_release b a now) (hist @ [(now, a)]) (hour_of now)"
proof -
  let ?h = "hour_of now" and ?s = "slot_of (hour_of now)"
  define x where "x = (if b_hour (b ! ?s) = ?h then b_amount (b ! ?s) else 0)"
  have b': "record_release b a now = b[?s := \<lparr>b_hour = ?h, b_amount = saturating_add64 x a\<rparr>]"
    using record_release_bucket [OF assms order_refl] by (simp add: x_def)
  have len: "length b = BUCKET_COUNT" using assms by (simp add: window_inv_def)
  have cover: "min (2 ^ 64 - 1) (in_hour (hist @ [(now, a)]) k) \<le> bucket_at (record_release b a now) k"
    if k: "?h - 24 \<le> k" "k \<le> ?h" for k
  proof (cases "k = ?h")
    case True
    have "min (2 ^ 64 - 1) (in_hour hist ?h) \<le> bucket_at b ?h" using assms by (simp add: window_inv_def)
    then have "min (2 ^ 64 - 1) (in_hour hist ?h) \<le> unat x" by (auto simp: bucket_at_def x_def)
    then show ?thesis
      using True len by (simp add: in_hour_snoc bucket_at_def b' unat_saturating)
  next
    case False
    then have "slot_of k \<noteq> ?s" using slot_inj [of k ?h] k by auto
    moreover have "min (2 ^ 64 - 1) (in_hour hist k) \<le> bucket_at b k" using assms k by (simp add: window_inv_def)
    moreover have "bucket_at (record_release b a now) k = bucket_at b k"
      using \<open>slot_of k \<noteq> ?s\<close> len by (simp add: bucket_at_def b')
    ultimately show ?thesis using False by (simp add: in_hour_snoc)
  qed
  then show ?thesis
    using assms len unfolding window_inv_def b'
    by (auto simp: nth_list_update in_hour_snoc)
qed

lemma window_inv_history:
  assumes "sorted (map fst hist)" "\<And>t. t \<in> fst ` set hist \<Longrightarrow> t \<le> now"
  shows "window_inv (foldl (\<lambda>b (t, a). record_release b a t) empty_buckets hist) hist (hour_of now)"
  using assms
proof (induction hist arbitrary: now rule: rev_induct)
  case Nil
  show ?case by (simp add: window_inv_empty)
next
  case (snoc x hist)
  obtain t a where x: "x = (t, a)" by (cases x)
  have "window_inv (foldl (\<lambda>b (t, a). record_release b a t) empty_buckets hist) hist (hour_of t)"
    using snoc.prems x by (intro snoc.IH) (auto simp: sorted_append)
  then have "window_inv (foldl (\<lambda>b (t, a). record_release b a t) empty_buckets (hist @ [x])) (hist @ [x]) (hour_of t)"
    using window_inv_record by (simp add: x)
  moreover have "hour_of t \<le> hour_of now" using snoc.prems(2) [of t] x by (simp add: hour_of_def zdiv_mono1)
  ultimately show ?case by (rule window_inv_later)
qed


lemma live_total_slots:
  assumes "length b = BUCKET_COUNT"
  shows "live_total b now = (\<Sum>i < BUCKET_COUNT. if b_hour (b ! i) \<ge> hour_of now - 24 then unat (b_amount (b ! i)) else 0)"
proof -
  have "live_total b now = sum_list (map (\<lambda>x. if b_hour x \<ge> hour_of now - 24 then unat (b_amount x) else 0) b)"
    unfolding live_total_def live_def by (induction b) auto
  also have "\<dots> = (\<Sum>i < BUCKET_COUNT. if b_hour (b ! i) \<ge> hour_of now - 24 then unat (b_amount (b ! i)) else 0)"
    using assms by (simp add: sum_list_sum_nth atLeast0LessThan)
  finally show ?thesis .
qed

lemma buckets_below_live:
  assumes "length b = BUCKET_COUNT"
  shows "(\<Sum>h \<in> {hour_of now - 24..hour_of now}. bucket_at b h) \<le> live_total b now"
proof -
  let ?H = "{hour_of now - 24..hour_of now}"
  let ?f = "\<lambda>i. if b_hour (b ! i) \<ge> hour_of now - 24 then unat (b_amount (b ! i)) else 0"
  have "inj_on slot_of ?H" by (rule inj_onI) (auto intro: slot_inj)
  then have "(\<Sum>h \<in> ?H. ?f (slot_of h)) = sum ?f (slot_of ` ?H)" by (simp add: sum.reindex)
  also have "\<dots> \<le> sum ?f {..<BUCKET_COUNT}" by (intro sum_mono2) auto
  finally have "(\<Sum>h \<in> ?H. ?f (slot_of h)) \<le> live_total b now" by (simp add: live_total_slots [OF assms])
  moreover have "(\<Sum>h \<in> ?H. bucket_at b h) \<le> (\<Sum>h \<in> ?H. ?f (slot_of h))"
    by (intro sum_mono) (auto simp: bucket_at_def)
  ultimately show ?thesis by (rule order_trans [rotated])
qed

lemma recent_by_hour:
  "recent hist now \<le> (\<Sum>h \<in> {hour_of now - 24..hour_of now}. in_hour hist h)"
proof (induction hist)
  case (Cons x hist)
  obtain t a where x: "x = (t, a)" by (cases x)
  let ?H = "{hour_of now - 24..hour_of now}"
  have cons: "in_hour (x # hist) h = (if hour_of t = h then unat a else 0) + in_hour hist h" for h
    by (simp add: x in_hour_def)
  have "(\<Sum>h \<in> ?H. in_hour (x # hist) h) = (\<Sum>h \<in> ?H. if hour_of t = h then unat a else 0) + (\<Sum>h \<in> ?H. in_hour hist h)"
    by (simp only: cons sum.distrib)
  also have "(\<Sum>h \<in> ?H. if hour_of t = h then unat a else 0) = (if hour_of t \<in> ?H then unat a else 0)"
    by (simp add: sum.delta')
  finally have split: "(\<Sum>h \<in> ?H. in_hour (x # hist) h) = (if hour_of t \<in> ?H then unat a else 0) + (\<Sum>h \<in> ?H. in_hour hist h)" .
  have "hour_of t \<in> ?H" if "now - 86400 < t" "t \<le> now"
  proof -
    have "(now - 86400) div 3600 \<le> t div 3600" "t div 3600 \<le> now div 3600" using that by (intro zdiv_mono1; simp)+
    then show ?thesis by (simp add: hour_of_def)
  qed
  then show ?case using Cons.IH split by (auto simp: recent_def x)
qed (simp add: recent_def in_hour_def)

lemma min_sum: "min m (sum f A) \<le> (\<Sum>x \<in> A. min m (f x))" if "finite A" for m :: nat
  using that by (induction A rule: finite_induct) auto

lemma recent_covered:
  assumes "window_inv b hist (hour_of now)"
  shows "min (2 ^ 64 - 1) (recent hist now) \<le> live_total b now"
proof -
  let ?H = "{hour_of now - 24..hour_of now}"
  have "min (2 ^ 64 - 1) (recent hist now) \<le> min (2 ^ 64 - 1) (\<Sum>h \<in> ?H. in_hour hist h)"
    using recent_by_hour [of hist now] by simp
  also have "\<dots> \<le> (\<Sum>h \<in> ?H. min (2 ^ 64 - 1) (in_hour hist h))" by (rule min_sum) simp
  also have "\<dots> \<le> (\<Sum>h \<in> ?H. bucket_at b h)"
    using assms by (intro sum_mono) (auto simp: window_inv_def)
  also have "\<dots> \<le> live_total b now" using assms by (intro buckets_below_live) (simp add: window_inv_def)
  finally show ?thesis .
qed

section \<open>The contract\<close>

text \<open>
  What the two users of the buckets share. \<open>put\<close> adds a payment at a clock time and may fail, and
  \<open>used\<close> is what is counted against a limit. On a clock that does not run backwards, the count
  covers everything put in the last 24 hours, up to saturation.
\<close>

locale rolling_day =
  fixes start :: 's
    and put :: "'s \<Rightarrow> u64 \<Rightarrow> int \<Rightarrow> 's option"
    and used :: "'s \<Rightarrow> int \<Rightarrow> u64 option"
    and valid :: "'s \<Rightarrow> releases \<Rightarrow> int \<Rightarrow> bool"
  assumes valid_start: "valid start [] now"
    and valid_later: "valid s hist now \<Longrightarrow> now \<le> later \<Longrightarrow> valid s hist later"
    and valid_put: "valid s hist now \<Longrightarrow> put s a now = Some s' \<Longrightarrow> valid s' (hist @ [(now, a)]) now"
    and used_covers: "valid s hist now \<Longrightarrow> used s now = Some u \<Longrightarrow> min (2 ^ 64 - 1) (recent hist now) \<le> unat u"
begin

text \<open>A payment let through under a limit keeps the exact rolling day under that limit.\<close>

lemma accepted_within_limit:
  assumes "valid s hist now" "used s now = Some u" "checked_add u amount = Some t" "t \<le> limit" "amount \<noteq> 0"
  shows "recent (hist @ [(now, amount)]) now \<le> unat limit"
proof -
  have t: "unat u + unat amount < 2 ^ 64" "unat t = unat u + unat amount"
    using assms(3) by (auto simp: checked_add_def unat_word_ariths split: if_splits)
  have "0 < unat amount" using assms(5) by (simp add: unat_gt_0)
  then have "unat u < 2 ^ 64 - 1" using t(1) by simp
  then have "recent hist now \<le> unat u" using used_covers [OF assms(1,2)] by simp
  moreover have "recent (hist @ [(now, amount)]) now = recent hist now + unat amount" by (simp add: recent_def)
  moreover have "unat t \<le> unat limit" using assms(4) by (simp add: word_le_nat_alt)
  ultimately show ?thesis using t(2) by simp
qed

end

lemma commit_is_release: "commit b a now = Some b' \<Longrightarrow> b' = record_release b a now"
  by (auto simp: commit_def record_release_def Let_def checked_add_def saturating_add64_def bucket_eta
      split: if_splits option.splits)

lemma spent_covers:
  assumes "window_inv b hist (hour_of now)" "spent b now = Some u"
  shows "min (2 ^ 64 - 1) (recent hist now) \<le> unat u"
proof -
  have "live_total b now < 2 ^ 64" "u = of_nat (live_total b now)"
    using assms(2) by (auto simp: spent_eq split: if_splits)
  then have "unat u = live_total b now" by (simp add: unat_of_nat)
  then show ?thesis using recent_covered [OF assms(1)] by simp
qed

lemma hour_mono: "now \<le> later \<Longrightarrow> hour_of now \<le> hour_of later"
  by (simp add: hour_of_def zdiv_mono1)

interpretation hold_day: rolling_day empty_buckets "\<lambda>b a now. Some (record_release b a now)" spent
  "\<lambda>b hist now. window_inv b hist (hour_of now)"
  by (unfold_locales, rule window_inv_empty, erule window_inv_later, erule hour_mono,
      clarsimp, erule window_inv_record, erule (1) spent_covers)

interpretation trade_day: rolling_day empty_buckets commit spent "\<lambda>b hist now. window_inv b hist (hour_of now)"
  by (unfold_locales, rule window_inv_empty, erule window_inv_later, erule hour_mono,
      drule commit_is_release, clarsimp, erule window_inv_record, erule (1) spent_covers)

end
