(* ===== verification/Hold.thy ===== *)
theory Hold
  imports Rolling_Window Layout Money "HOL-Library.Product_Lexorder"
begin

text \<open>
  The Hold vault: the program's withdrawal (\<^verbatim>\<open>programs/veto/src/hold.rs\<close>,
  \<^verbatim>\<open>programs/veto/src/hold_state.rs\<close>), the SDK's decoders and its preview of a withdrawal
  (\<^verbatim>\<open>sdk/src/hold.ts\<close>). The token transfer and the address derivation belong to other programs and are
  parameters; the other Hold instructions of the program are in \<open>Hold_Program\<close>.
\<close>

section \<open>The program's accounts\<close>

record PendingWithdrawal =
  pw_id :: u64
  pw_amount :: u64
  pw_destination :: pubkey
  pw_unlock_at :: int
  pw_status :: u8

record PendingChange =
  pc_active :: bool
  pc_fields :: u8
  pc_big_share_bps :: "16 word"
  pc_daily_limit :: u64
  pc_delay_secs :: int
  pc_guardian :: pubkey
  pc_safe_address :: pubkey
  pc_effective_at :: int

record HoldVault =
  hv_owner :: pubkey
  hv_guardian :: pubkey
  hv_safe_address :: pubkey
  hv_mint :: pubkey
  hv_vault_token :: pubkey
  hv_vault_id :: u64
  hv_daily_limit :: u64
  hv_window_spent :: u64
  hv_window_start :: int
  hv_delay_secs :: int
  hv_unfreeze_at :: int
  hv_next_withdrawal_id :: u64
  hv_big_share_bps :: "16 word"
  hv_frozen :: bool
  hv_known_len :: u8
  hv_bump :: u8
  hv_token_bump :: u8
  hv_ledger_bump :: u8
  hv_known :: "pubkey list"
  hv_pending :: "PendingWithdrawal list"
  hv_change :: PendingChange
  hv_daily_buckets :: "TradeBucket list"

record HoldEntry =
  he_ts :: int
  he_amount :: u64
  he_destination :: pubkey
  he_withdrawal_id :: u64
  he_kind :: u8
  he_reason :: u8

record HoldLedger =
  hl_vault :: pubkey
  hl_total :: u32
  hl_head :: "16 word"
  hl_bump :: u8
  hl_entries :: "HoldEntry list"

definition HOLD_KNOWN_CAPACITY :: nat where "HOLD_KNOWN_CAPACITY = 16"
definition HOLD_PENDING_CAPACITY :: nat where "HOLD_PENDING_CAPACITY = 8"
definition HOLD_LEDGER_CAPACITY :: nat where "HOLD_LEDGER_CAPACITY = 32"

definition hold_record :: "HoldLedger \<Rightarrow> HoldEntry \<Rightarrow> HoldLedger" where
  "hold_record l e =
     (let slot = unat (hl_head l) mod HOLD_LEDGER_CAPACITY
      in l\<lparr>hl_entries := (hl_entries l)[slot := e],
           hl_head := of_nat ((slot + 1) mod HOLD_LEDGER_CAPACITY),
           hl_total := saturating_add32 (hl_total l) 1\<rparr>)"

definition write_record :: "HoldLedger \<Rightarrow> int \<Rightarrow> u64 \<Rightarrow> pubkey \<Rightarrow> u64 \<Rightarrow> u8 \<Rightarrow> u8 \<Rightarrow> HoldLedger" where
  "write_record l ts amount destination wid kind reason =
     hold_record l \<lparr>he_ts = ts, he_amount = amount, he_destination = destination, he_withdrawal_id = wid,
       he_kind = kind, he_reason = reason\<rparr>"

section \<open>The withdrawal\<close>

datatype hold_error =
    PositiveAmountRequired | ShareOutOfRange | HoldMathOverflow | HoldTransferFailed
  | NotTheVaultOwner | HoldMintMismatch | VaultTokenMismatch | BadVaultAuthority | DestinationIsVault
  | ConstraintSeeds | InvalidVaultPda | NotOwnerOrGuardian | HoldSourceNotOwned | NotTheSafeAddress
  | WithdrawalNotPending | VaultFrozen | TooEarly | DestinationMismatch | HoldInsufficientFunds
  | NotFrozen | NotTheGuardian | BothKeysRequired | UnfreezeNotReady | NothingToRecover
  | DelayNotAllowed | SafeAddressRequired | GuardianIsOwner | ChangeUnchanged | ChangeAlreadyPending
  | NoPendingChange | ChangeNotReady

text \<open>A sequence of \<open>require!\<close> lines or account constraints: the first that fails is the error.\<close>

primrec require_all :: "(bool \<times> hold_error) list \<Rightarrow> hold_error option" where
  "require_all [] = None"
| "require_all (c # cs) = (if fst c then require_all cs else Some (snd c))"

lemma require_all_None: "require_all cs = None \<longleftrightarrow> (\<forall>c \<in> set cs. fst c)"
  by (induction cs) simp_all

lemma require_all_append:
  "require_all (cs @ ds) = (case require_all cs of None \<Rightarrow> require_all ds | Some e \<Rightarrow> Some e)"
  by (induction cs) simp_all

definition checked_mul :: "u64 \<Rightarrow> u64 \<Rightarrow> u64 option" where
  "checked_mul a b = (if unat a * unat b < 2 ^ 64 then Some (a * b) else None)"

definition share_cap :: "u64 \<Rightarrow> 16 word \<Rightarrow> hold_error + u64" where
  "share_cap balance bps =
     (let share = (ucast bps :: u64) in
      if \<not> share \<le> 10000 then Inl ShareOutOfRange
      else
        let whole = balance div 10000; rem = balance mod 10000 in
        case checked_mul whole share of
          None \<Rightarrow> Inl HoldMathOverflow
        | Some from_whole \<Rightarrow>
            (case checked_mul rem share of
               None \<Rightarrow> Inl HoldMathOverflow
             | Some scaled \<Rightarrow>
                 (case checked_add from_whole (scaled div 10000) of
                    None \<Rightarrow> Inl HoldMathOverflow
                  | Some cap \<Rightarrow> Inr cap)))"

definition is_known :: "HoldVault \<Rightarrow> pubkey \<Rightarrow> bool" where
  "is_known v destination = (destination \<in> set (take (min (unat (hv_known_len v)) HOLD_KNOWN_CAPACITY) (hv_known v)))"

definition can_pay_now :: "HoldVault \<Rightarrow> u64 \<Rightarrow> pubkey \<Rightarrow> u64 \<Rightarrow> int \<Rightarrow> hold_error + bool" where
  "can_pay_now v balance destination amount now =
     (if hv_frozen v \<or> \<not> is_known v destination then Inr False
      else case (case spent (hv_daily_buckets v) now of None \<Rightarrow> None | Some s \<Rightarrow> checked_add s amount) of
          None \<Rightarrow> Inr False
        | Some daily_next \<Rightarrow>
            if daily_next > hv_daily_limit v then Inr False
            else (case share_cap balance (hv_big_share_bps v) of
                    Inl e \<Rightarrow> Inl e
                  | Inr cap \<Rightarrow> Inr (daily_next \<le> cap)))"

fun position :: "('a \<Rightarrow> bool) \<Rightarrow> 'a list \<Rightarrow> nat option" where
  "position P [] = None"
| "position P (x # xs) = (if P x then Some 0 else map_option Suc (position P xs))"

definition first_empty :: "HoldVault \<Rightarrow> nat option" where
  "first_empty v = position (\<lambda>row. pw_status row = 0) (hv_pending v)"

definition checked_add_i64 :: "int \<Rightarrow> int \<Rightarrow> int option" where
  "checked_add_i64 a b = (if - (2 ^ 63) \<le> a + b \<and> a + b < 2 ^ 63 then Some (a + b) else None)"

text \<open>
  The accounts of an instruction: the signer named \<open>owner\<close> or \<open>authority\<close>, the second signer where
  the instruction has one, and the accounts with their keys. \<open>ha_source\<close> is the source of a deposit.
\<close>

record hold_accounts =
  ha_owner :: pubkey
  ha_guardian :: "pubkey option"
  ha_vault_key :: pubkey
  ha_ledger_key :: pubkey
  ha_vault :: HoldVault
  ha_ledger :: HoldLedger
  ha_vault_token :: token_account
  ha_destination :: token_account
  ha_source :: token_account
  ha_mint :: pubkey

type_synonym cpa = "bytes list \<Rightarrow> pubkey option"
type_synonym token_transfer = "token_account \<Rightarrow> token_account \<Rightarrow> u64 \<Rightarrow> (token_account \<times> token_account) option"

text \<open>
  \<open>cpa\<close> is \<open>Pubkey::create_program_address\<close> for this program, which both the \<open>seeds\<close> constraints and
  \<open>require_vault_signer\<close> call; \<open>xfer\<close> is \<open>transfer_checked\<close> of the token program. Constraints are
  checked account by account, the seeds of an account before its other constraints.
\<close>

definition vault_seeds :: "pubkey \<Rightarrow> HoldVault \<Rightarrow> bytes list" where
  "vault_seeds owner v = [ascii ''hold'', owner, le_bytes 8 (unat (hv_vault_id v)), [hv_bump v]]"

definition token_seeds :: "pubkey \<Rightarrow> HoldVault \<Rightarrow> bytes list" where
  "token_seeds key v = [ascii ''hold-token'', key, [hv_token_bump v]]"

definition ledger_seeds :: "pubkey \<Rightarrow> HoldVault \<Rightarrow> bytes list" where
  "ledger_seeds key v = [ascii ''hold-ledger'', key, [hv_ledger_bump v]]"

definition withdraw_constraints :: "cpa \<Rightarrow> hold_accounts \<Rightarrow> hold_error option" where
  "withdraw_constraints cpa acc =
     (let v = ha_vault acc in require_all
        [(cpa (vault_seeds (ha_owner acc) v) = Some (ha_vault_key acc), ConstraintSeeds),
         (hv_owner v = ha_owner acc, NotTheVaultOwner),
         (hv_mint v = ha_mint acc, HoldMintMismatch),
         (hv_vault_token v = t_key (ha_vault_token acc), VaultTokenMismatch),
         (cpa (ledger_seeds (ha_vault_key acc) v) = Some (ha_ledger_key acc), ConstraintSeeds),
         (cpa (token_seeds (ha_vault_key acc) v) = Some (t_key (ha_vault_token acc)), ConstraintSeeds),
         (t_owner (ha_vault_token acc) = ha_vault_key acc, BadVaultAuthority),
         (t_mint (ha_destination acc) = hv_mint v, HoldMintMismatch),
         (t_owner (ha_destination acc) \<noteq> ha_vault_key acc, DestinationIsVault),
         (t_key (ha_destination acc) \<noteq> t_key (ha_vault_token acc), DestinationIsVault)])"

definition require_vault_signer :: "cpa \<Rightarrow> pubkey \<Rightarrow> HoldVault \<Rightarrow> hold_error option" where
  "require_vault_signer cpa key v =
     require_all
       [(cpa (vault_seeds (hv_owner v) v) = Some key, InvalidVaultPda),
        (cpa (token_seeds key v) \<noteq> None, InvalidVaultPda),
        (cpa (token_seeds key v) = Some (hv_vault_token v), VaultTokenMismatch)]"

definition transfer_out_parts ::
  "cpa \<Rightarrow> token_transfer \<Rightarrow> hold_accounts \<Rightarrow> u64 \<Rightarrow> hold_error + (token_account \<times> token_account)" where
  "transfer_out_parts cpa xfer acc amount =
     (let v = ha_vault acc; key = ha_vault_key acc; tok = ha_vault_token acc; dst = ha_destination acc in
      case require_vault_signer cpa key v of
        Some e \<Rightarrow> Inl e
      | None \<Rightarrow>
          (case require_all
             [(t_key tok = hv_vault_token v, VaultTokenMismatch),
              (t_owner tok = key, BadVaultAuthority),
              (t_mint tok = hv_mint v, HoldMintMismatch),
              (ha_mint acc = hv_mint v, HoldMintMismatch),
              (t_mint dst = hv_mint v, HoldMintMismatch),
              (t_key dst \<noteq> t_key tok, DestinationIsVault),
              (t_owner dst \<noteq> key, DestinationIsVault)] of
             Some e \<Rightarrow> Inl e
           | None \<Rightarrow> (case xfer tok dst amount of None \<Rightarrow> Inl HoldTransferFailed | Some moved \<Rightarrow> Inr moved)))"

definition refuse :: "hold_accounts \<Rightarrow> u64 \<Rightarrow> u8 \<Rightarrow> int \<Rightarrow> hold_accounts" where
  "refuse acc amount reason now =
     acc\<lparr>ha_ledger := write_record (ha_ledger acc) now amount (t_key (ha_destination acc)) 0 12 reason\<rparr>"

definition paid_at_once :: "hold_accounts \<Rightarrow> u64 \<Rightarrow> int \<Rightarrow> token_account \<Rightarrow> token_account \<Rightarrow> hold_accounts" where
  "paid_at_once acc amount now src dst =
     acc\<lparr>ha_vault := (ha_vault acc)\<lparr>hv_daily_buckets := record_release (hv_daily_buckets (ha_vault acc)) amount now\<rparr>,
         ha_vault_token := src, ha_destination := dst,
         ha_ledger := write_record (ha_ledger acc) now amount (t_key (ha_destination acc)) 0 2 0\<rparr>"

definition held :: "hold_accounts \<Rightarrow> nat \<Rightarrow> u64 \<Rightarrow> int \<Rightarrow> int \<Rightarrow> hold_accounts" where
  "held acc index amount unlock_at now =
     (let v = ha_vault acc; wid = hv_next_withdrawal_id v; destination = t_key (ha_destination acc)
      in acc\<lparr>ha_vault := v\<lparr>hv_next_withdrawal_id := wid + 1,
               hv_pending := (hv_pending v)[index := \<lparr>pw_id = wid, pw_amount = amount, pw_destination = destination,
                 pw_unlock_at = unlock_at, pw_status = 1\<rparr>]\<rparr>,
             ha_ledger := write_record (ha_ledger acc) now amount destination wid 3 0\<rparr>)"

definition withdraw ::
  "cpa \<Rightarrow> token_transfer \<Rightarrow> hold_accounts \<Rightarrow> u64 \<Rightarrow> int \<Rightarrow> hold_error + hold_accounts" where
  "withdraw cpa xfer acc amount now =
     (case withdraw_constraints cpa acc of
        Some e \<Rightarrow> Inl e
      | None \<Rightarrow>
          if \<not> amount > 0 then Inl PositiveAmountRequired
          else
            let balance = t_amount (ha_vault_token acc) in
            if amount > balance then Inr (refuse acc amount 1 now)
            else (case can_pay_now (ha_vault acc) balance (t_key (ha_destination acc)) amount now of
                Inl e \<Rightarrow> Inl e
              | Inr True \<Rightarrow>
                  (case transfer_out_parts cpa xfer acc amount of
                     Inl e \<Rightarrow> Inl e
                   | Inr (src, dst) \<Rightarrow> Inr (paid_at_once acc amount now src dst))
              | Inr False \<Rightarrow>
                  (case checked_add_i64 now (hv_delay_secs (ha_vault acc)) of
                     None \<Rightarrow> Inl HoldMathOverflow
                   | Some unlock_at \<Rightarrow>
                       (case first_empty (ha_vault acc) of
                          None \<Rightarrow> Inr (refuse acc amount 2 now)
                        | Some index \<Rightarrow>
                            (case checked_add (hv_next_withdrawal_id (ha_vault acc)) 1 of
                               None \<Rightarrow> Inl HoldMathOverflow
                             | Some _ \<Rightarrow> Inr (held acc index amount unlock_at now))))))"

section \<open>The SDK's preview\<close>

text \<open>A \<open>bigint\<close>, a \<open>number\<close> that is a safe integer, or any other \<open>number\<close>.\<close>

datatype js_num = Big int | Safe int | OtherNumber

definition asU64 :: "js_num \<Rightarrow> string \<Rightarrow> int result" where
  "asU64 v field =
     (case v of
        Big i \<Rightarrow> if i < 0 \<or> i > U64_MAX then Inl (Error (field @ '' is outside u64'')) else Inr i
      | Safe i \<Rightarrow> if i < 0 then Inl (Error (field @ '' must be a non-negative safe integer or a bigint'')) else Inr i
      | OtherNumber \<Rightarrow> Inl (Error (field @ '' must be a non-negative safe integer or a bigint'')))"

definition asI64 :: "js_num \<Rightarrow> string \<Rightarrow> int result" where
  "asI64 v field =
     andThen (case v of
        Big i \<Rightarrow> Inr i
      | Safe i \<Rightarrow> Inr i
      | OtherNumber \<Rightarrow> Inl (Error (field @ '' must be a safe integer or a bigint'')))
       (\<lambda>i. if i < - (2 ^ 63) \<or> i > 2 ^ 63 - 1 then Inl (Error (field @ '' is outside i64'')) else Inr i)"

definition addI64 :: "int \<Rightarrow> int \<Rightarrow> string \<Rightarrow> int result" where
  "addI64 left right field =
     (let s = left + right in
      if s < - (2 ^ 63) \<or> s > 2 ^ 63 - 1 then Inl (Error (field @ '' overflows i64'')) else Inr s)"

text \<open>A key or its text; \<open>parse\<close> is the constructor \<open>new PublicKey(text)\<close>, which throws a message.\<close>

datatype 'k key_arg = IsKey 'k | KeyText string

definition toPublicKey :: "(string \<Rightarrow> string + 'k) \<Rightarrow> 'k key_arg \<Rightarrow> string \<Rightarrow> 'k result" where
  "toPublicKey parse v field =
     (case v of
        IsKey k \<Rightarrow> Inr k
      | KeyText t \<Rightarrow> (case parse t of
            Inl message \<Rightarrow> Inl (Error (field @ '' is not a public key: '' @ message))
          | Inr k \<Rightarrow> Inr k))"

record 'k SdkPending =
  sp_id :: int
  sp_amount :: int
  sp_destination :: 'k
  sp_unlockAt :: int
  sp_status :: int

record 'k SdkChange =
  sc_active :: bool
  sc_fields :: int
  sc_bigShareBps :: int
  sc_dailyLimit :: int
  sc_delaySecs :: int
  sc_guardian :: 'k
  sc_safeAddress :: 'k
  sc_effectiveAt :: int

record 'k HoldVaultAccount =
  va_address :: 'k
  va_owner :: 'k
  va_guardian :: 'k
  va_safeAddress :: 'k
  va_mint :: 'k
  va_vaultToken :: 'k
  va_vaultId :: int
  va_dailyLimit :: int
  va_dailyBuckets :: "(int \<times> int) list"
  va_windowSpent :: int
  va_windowStart :: int
  va_delaySecs :: int
  va_unfreezeAt :: int
  va_nextWithdrawalId :: int
  va_bigShareBps :: int
  va_frozen :: bool
  va_known :: "'k list"
  va_pending :: "'k SdkPending list"
  va_change :: "'k SdkChange"
  va_bump :: int
  va_tokenBump :: int
  va_ledgerBump :: int

datatype HoldWaitReason = frozen | new_address | over_daily_limit | over_share
datatype refusal_cause = insufficient_funds | pending_full
datatype WithdrawalOutlook = at_once | held_until "HoldWaitReason list" int | refused refusal_cause

definition shareCap :: "int \<Rightarrow> int \<Rightarrow> int result" where
  "shareCap balance bps =
     (if bps < 0 \<or> bps > 10000 then Inl (Error ''HoldVault.previewWithdrawal: big_share_bps is outside 0 to 10000'')
      else Inr (balance div 10000 * bps + (balance mod 10000 * bps) div 10000))"

text \<open>\<open>/\<close> on a bigint truncates; the source's correction for a negative clock is kept.\<close>

definition trunc_div :: "int \<Rightarrow> int \<Rightarrow> int" where
  "trunc_div a b = (if a \<ge> 0 then a div b else - ((- a) div b))"

definition withdrawalOutlook ::
  "(string \<Rightarrow> string + 'k) \<Rightarrow> 'k HoldVaultAccount \<Rightarrow> js_num \<Rightarrow> 'k key_arg \<Rightarrow> js_num \<Rightarrow> js_num \<Rightarrow> WithdrawalOutlook result" where
  "withdrawalOutlook parse vault amount0 destination0 balance0 now0 =
     andThen (asU64 amount0 ''HoldVault.previewWithdrawal amount'') (\<lambda>amount.
     andThen (asU64 balance0 ''HoldVault.previewWithdrawal balance'') (\<lambda>balance.
     andThen (asI64 now0 ''HoldVault.previewWithdrawal now'') (\<lambda>now.
     andThen (toPublicKey parse destination0 ''HoldVault.previewWithdrawal destination'') (\<lambda>destination.
       if amount = 0 then Inl (Error ''HoldVault.previewWithdrawal: amount must be positive'')
       else if amount > balance then Inr (refused insufficient_funds)
       else
         let hour = (if now \<ge> 0 then trunc_div now 3600 else trunc_div (now - 3600 + 1) 3600);
             dailyNext = foldl (\<lambda>s b. s + snd b) amount (filter (\<lambda>b. fst b \<ge> hour - 24) (va_dailyBuckets vault))
         in andThen (shareCap balance (va_bigShareBps vault)) (\<lambda>cap.
              let reasons = (if va_frozen vault then [frozen] else []) @
                            (if destination \<notin> set (va_known vault) then [new_address] else []) @
                            (if dailyNext > U64_MAX \<or> dailyNext > va_dailyLimit vault then [over_daily_limit] else []) @
                            (if dailyNext > cap then [over_share] else [])
              in if reasons = [] then Inr at_once
                 else if length (va_pending vault) \<ge> HOLD_PENDING_CAPACITY then Inr (refused pending_full)
                 else andThen (addI64 now (va_delaySecs vault) ''HoldVault.previewWithdrawal unlock'')
                        (\<lambda>unlockAt. Inr (held_until reasons unlockAt)))))))"


section \<open>The share\<close>

lemma split_share:
  fixes b s :: "'a::{euclidean_semiring_cancel, numeral}"
  assumes "(10000 :: 'a) \<noteq> 0"
  shows "b div 10000 * s + (b mod 10000 * s) div 10000 = (b * s) div 10000"
proof -
  have "b * s = (b div 10000 * 10000 + b mod 10000) * s" by (simp only: div_mult_mod_eq)
  also have "\<dots> = b div 10000 * s * 10000 + b mod 10000 * s" by (simp only: distrib_right) (simp only: ac_simps)
  finally have "(b * s) div 10000 = (b div 10000 * s * 10000 + b mod 10000 * s) div 10000" by simp
  also have "\<dots> = b div 10000 * s + (b mod 10000 * s) div 10000" using assms by (rule div_mult_self3)
  finally show ?thesis by simp
qed

lemma unat_div10000: "unat (x div 10000 :: u64) = unat x div 10000" "unat (x mod 10000 :: u64) = unat x mod 10000"
  by (simp_all add: unat_div_distrib unat_mod_distrib)

lemma unat_ucast16: "unat (ucast (b :: 16 word) :: u64) = unat b"
proof -
  have "unat b < 2 ^ 64" using unat_bound [of b] by simp
  then show ?thesis by (simp add: unsigned_ucast_eq take_bit_nat_eq_self)
qed

lemma checked_mul_Some: "unat a * unat b < 2 ^ 64 \<Longrightarrow> checked_mul a b = Some (a * b) \<and> unat (a * b) = unat a * unat b"
  by (simp add: checked_mul_def unat_word_ariths)

lemma share_cap_eq:
  assumes "unat bps \<le> 10000"
  shows "\<exists>cap. share_cap balance bps = Inr cap \<and> unat cap = (unat balance * unat bps) div 10000"
proof -
  let ?s = "ucast bps :: u64" and ?b = "unat balance"
  have s: "unat ?s = unat bps" by (rule unat_ucast16)
  have le: "?s \<le> 10000" using assms s by (simp add: word_le_nat_alt)
  have b: "?b < 2 ^ 64" using unat_bound [of balance] by simp
  have q: "unat (balance div 10000) * unat ?s \<le> ?b"
  proof -
    have "?b div 10000 * unat bps \<le> ?b div 10000 * 10000" using assms by simp
    also have "\<dots> \<le> ?b" by simp
    finally show ?thesis by (simp add: unat_div10000 s)
  qed
  have r: "unat (balance mod 10000) * unat ?s < 10000 * 10000 + 1"
  proof -
    have "?b mod 10000 * unat bps \<le> 10000 * 10000" using assms by (intro mult_le_mono) simp_all
    then show ?thesis by (simp add: unat_div10000 s)
  qed
  have m1: "checked_mul (balance div 10000) ?s = Some (balance div 10000 * ?s)"
      "unat (balance div 10000 * ?s) = ?b div 10000 * unat bps"
    using checked_mul_Some [of "balance div 10000" ?s] q b s by (simp_all add: unat_div10000)
  have m2: "checked_mul (balance mod 10000) ?s = Some (balance mod 10000 * ?s)"
      "unat (balance mod 10000 * ?s) = ?b mod 10000 * unat bps"
    using checked_mul_Some [of "balance mod 10000" ?s] r s by (simp_all add: unat_div10000)
  have total: "unat (balance div 10000 * ?s) + unat (balance mod 10000 * ?s div 10000) = (?b * unat bps) div 10000"
    by (simp add: m1(2) m2(2) unat_div10000 split_share)
  moreover have "(?b * unat bps) div 10000 \<le> ?b"
    using div_le_mono [OF mult_le_mono2 [OF assms, of ?b], of 10000] by simp
  ultimately have "checked_add (balance div 10000 * ?s) (balance mod 10000 * ?s div 10000) =
      Some (balance div 10000 * ?s + balance mod 10000 * ?s div 10000)"
      "unat (balance div 10000 * ?s + balance mod 10000 * ?s div 10000) = (?b * unat bps) div 10000"
    using b by (simp_all add: checked_add_nat unat_word_ariths)
  then show ?thesis using le m1(1) m2(1) by (simp add: share_cap_def Let_def)
qed

lemma shareCap_eq: "0 \<le> balance \<Longrightarrow> 0 \<le> bps \<Longrightarrow> bps \<le> 10000 \<Longrightarrow> shareCap balance bps = Inr ((balance * bps) div 10000)"
  by (simp add: shareCap_def split_share)


section \<open>The preview is the program's decision\<close>

definition pending_view :: "(pubkey \<Rightarrow> 'k) \<Rightarrow> PendingWithdrawal \<Rightarrow> 'k SdkPending" where
  "pending_view pk p =
     \<lparr>sp_id = int (unat (pw_id p)), sp_amount = int (unat (pw_amount p)), sp_destination = pk (pw_destination p),
      sp_unlockAt = pw_unlock_at p, sp_status = int (unat (pw_status p))\<rparr>"

definition change_view :: "(pubkey \<Rightarrow> 'k) \<Rightarrow> PendingChange \<Rightarrow> 'k SdkChange" where
  "change_view pk c =
     \<lparr>sc_active = pc_active c, sc_fields = int (unat (pc_fields c)), sc_bigShareBps = int (unat (pc_big_share_bps c)),
      sc_dailyLimit = int (unat (pc_daily_limit c)), sc_delaySecs = pc_delay_secs c, sc_guardian = pk (pc_guardian c),
      sc_safeAddress = pk (pc_safe_address c), sc_effectiveAt = pc_effective_at c\<rparr>"

definition known_keys :: "HoldVault \<Rightarrow> pubkey list" where
  "known_keys v = take (min (unat (hv_known_len v)) HOLD_KNOWN_CAPACITY) (hv_known v)"

definition hold_view :: "(pubkey \<Rightarrow> 'k) \<Rightarrow> 'k \<Rightarrow> HoldVault \<Rightarrow> 'k HoldVaultAccount" where
  "hold_view pk address v =
     \<lparr>va_address = address, va_owner = pk (hv_owner v), va_guardian = pk (hv_guardian v),
      va_safeAddress = pk (hv_safe_address v), va_mint = pk (hv_mint v), va_vaultToken = pk (hv_vault_token v),
      va_vaultId = int (unat (hv_vault_id v)), va_dailyLimit = int (unat (hv_daily_limit v)),
      va_dailyBuckets = map (\<lambda>b. (b_hour b, int (unat (b_amount b)))) (hv_daily_buckets v),
      va_windowSpent = int (unat (hv_window_spent v)), va_windowStart = hv_window_start v,
      va_delaySecs = hv_delay_secs v, va_unfreezeAt = hv_unfreeze_at v,
      va_nextWithdrawalId = int (unat (hv_next_withdrawal_id v)), va_bigShareBps = int (unat (hv_big_share_bps v)),
      va_frozen = hv_frozen v, va_known = map pk (known_keys v),
      va_pending = map (pending_view pk) (filter (\<lambda>p. pw_status p = 1) (hv_pending v)),
      va_change = change_view pk (hv_change v), va_bump = int (unat (hv_bump v)),
      va_tokenBump = int (unat (hv_token_bump v)), va_ledgerBump = int (unat (hv_ledger_bump v))\<rparr>"

text \<open>What the program keeps of every vault: the share it accepts at opening and in a change, and slots
  that are either empty or waiting.\<close>

definition hold_wf :: "HoldVault \<Rightarrow> bool" where
  "hold_wf v \<longleftrightarrow> length (hv_pending v) = HOLD_PENDING_CAPACITY \<and> unat (hv_big_share_bps v) \<le> 10000 \<and>
     (\<forall>p \<in> set (hv_pending v). pw_status p = 0 \<or> pw_status p = 1)"

lemma chain_hour: "(if now \<ge> 0 then trunc_div now 3600 else trunc_div (now - 3600 + 1) 3600) = hour_of now"
proof (cases "now \<ge> 0")
  case False
  have "(3599 - now) div 3600 = - (now div 3600)"
    by (rule int_div_pos_eq [where r = "3599 - now mod 3600"]) (use div_mult_mod_eq [of now 3600] in linarith, simp_all)
  with False show ?thesis by (simp add: trunc_div_def hour_of_def)
qed (simp add: trunc_div_def hour_of_def)

lemma foldl_sum_snd: "foldl (\<lambda>s b. s + snd b) (a :: int) xs = a + sum_list (map snd xs)"
  by (induction xs arbitrary: a) simp_all

lemma daily_next:
  "foldl (\<lambda>s b. s + snd b) a (filter (\<lambda>b. fst b \<ge> hour_of now - 24) (map (\<lambda>b. (b_hour b, int (unat (b_amount b)))) bs)) =
     a + int (live_total bs now)"
  unfolding foldl_sum_snd live_total_def live_def by (induction bs) simp_all

lemma can_pay_now_eq:
  assumes "unat (hv_big_share_bps v) \<le> 10000"
  shows "can_pay_now v balance destination amount now =
    Inr (\<not> hv_frozen v \<and> destination \<in> set (known_keys v) \<and>
         live_total (hv_daily_buckets v) now + unat amount \<le> unat (hv_daily_limit v) \<and>
         live_total (hv_daily_buckets v) now + unat amount \<le> (unat balance * unat (hv_big_share_bps v)) div 10000)"
proof -
  let ?n = "live_total (hv_daily_buckets v) now"
  obtain cap where cap: "share_cap balance (hv_big_share_bps v) = Inr cap"
      "unat cap = (unat balance * unat (hv_big_share_bps v)) div 10000"
    using share_cap_eq [OF assms] by blast
  show ?thesis
  proof (cases "?n + unat amount < 2 ^ 64")
    case True
    then have next_: "(case spent (hv_daily_buckets v) now of None \<Rightarrow> None | Some s \<Rightarrow> checked_add s amount) =
        Some (of_nat ?n + amount)" "unat (of_nat ?n + amount :: u64) = ?n + unat amount"
      by (simp_all add: spent_eq checked_add_nat unat_of_nat unat_word_ariths)
    then show ?thesis
      using cap by (auto simp: can_pay_now_def is_known_def known_keys_def word_le_nat_alt word_less_nat_alt)
  next
    case False
    then have none: "(case spent (hv_daily_buckets v) now of None \<Rightarrow> None | Some s \<Rightarrow> checked_add s amount) = None"
      by (auto simp: spent_eq checked_add_nat unat_of_nat split: option.splits)
    have "unat (hv_daily_limit v) < 2 ^ 64" using unat_bound [of "hv_daily_limit v"] by simp
    with False none show ?thesis by (auto simp: can_pay_now_def is_known_def known_keys_def)
  qed
qed

lemma position_None: "position P xs = None \<longleftrightarrow> (\<forall>x \<in> set xs. \<not> P x)"
  by (induction xs) auto

lemma position_bound: "position P xs = Some i \<Longrightarrow> i < length xs"
  by (induction xs arbitrary: i) (auto split: if_splits)

lemma full_pending:
  assumes "hold_wf v"
  shows "length (filter (\<lambda>p. pw_status p = 1) (hv_pending v)) \<ge> HOLD_PENDING_CAPACITY \<longleftrightarrow> first_empty v = None"
proof -
  have "length (filter (\<lambda>p. pw_status p = 1) (hv_pending v)) \<ge> length (hv_pending v) \<longleftrightarrow>
      (\<forall>p \<in> set (hv_pending v). pw_status p = 1)"
    by (metis (mono_tags, lifting) filter_id_conv filter_True length_filter_le length_filter_less not_le order_refl)
  then show ?thesis using assms by (fastforce simp: hold_wf_def first_empty_def position_None)
qed


lemma asU64_word [simp]: "asU64 (Big (int (unat (w :: u64)))) field = Inr (int (unat w))"
proof -
  have "unat w < 2 ^ 64" using unat_bound [of w] by simp
  then show ?thesis by (simp add: asU64_def U64_MAX_def del: of_nat_unat)
qed

lemma pk_mem: "inj pk \<Longrightarrow> pk d \<in> set (map pk ks) \<longleftrightarrow> d \<in> set ks"
  by (auto dest: injD)

text \<open>The preview on a decoded vault, with every quantity of the program.\<close>

lemma withdrawalOutlook_view:
  fixes amount balance :: u64
  assumes "hold_wf v" "inj pk" "- (2 ^ 63) \<le> now" "now < 2 ^ 63" "amount \<noteq> 0"
  shows "withdrawalOutlook parse (hold_view pk address v) (Big (int (unat amount))) (IsKey (pk d)) (Big (int (unat balance))) (Big now) =
    (if amount > balance then Inr (refused insufficient_funds)
     else let n = live_total (hv_daily_buckets v) now + unat amount;
              reasons = (if hv_frozen v then [frozen] else []) @ (if d \<notin> set (known_keys v) then [new_address] else []) @
                (if n > unat (hv_daily_limit v) then [over_daily_limit] else []) @
                (if n > (unat balance * unat (hv_big_share_bps v)) div 10000 then [over_share] else [])
          in if reasons = [] then Inr at_once
             else if first_empty v = None then Inr (refused pending_full)
             else andThen (addI64 now (hv_delay_secs v) ''HoldVault.previewWithdrawal unlock'') (\<lambda>u. Inr (held_until reasons u)))"
proof -
  let ?n = "live_total (hv_daily_buckets v) now + unat amount"
  have now: "asI64 (Big now) f = Inr now" for f using assms(3,4) by (simp add: asI64_def)
  have am: "int (unat amount) \<noteq> 0" "int (unat amount) > int (unat balance) \<longleftrightarrow> amount > balance"
    using assms(5) by (simp_all add: unat_eq_zero word_less_nat_alt del: of_nat_unat)
  have bps: "int (unat (hv_big_share_bps v)) \<le> 10000" using assms(1) by (simp add: hold_wf_def del: of_nat_unat)
  have cap: "shareCap (int (unat balance)) (int (unat (hv_big_share_bps v))) =
      Inr (int ((unat balance * unat (hv_big_share_bps v)) div 10000))"
    using shareCap_eq [OF _ _ bps, of "int (unat balance)"] by (simp add: zdiv_int del: of_nat_unat)
  have dn: "int (unat amount) + int (live_total (hv_daily_buckets v) now) = int ?n" by simp
  have lim: "U64_MAX < int ?n \<or> unat (hv_daily_limit v) < ?n \<longleftrightarrow> unat (hv_daily_limit v) < ?n"
    using unat_bound [of "hv_daily_limit v"] by (auto simp: U64_MAX_def simp del: of_nat_unat)
  show ?thesis
    unfolding withdrawalOutlook_def toPublicKey_def key_arg.case chain_hour asU64_word now andThen_Inr
    using am bps full_pending [OF assms(1)]
    by (simp add: hold_view_def daily_next dn lim cap pk_mem [OF assms(2)] Let_def cong: if_cong split del: if_split
        del: of_nat_unat of_nat_add set_map)
qed

text \<open>Under the constraints of a withdrawal the checks before the transfer repeat what already holds.\<close>

lemma transfer_out_allowed:
  assumes "withdraw_constraints cpa acc = None" "t_mint (ha_vault_token acc) = hv_mint (ha_vault acc)"
  shows "transfer_out_parts cpa xfer acc amount =
    (case xfer (ha_vault_token acc) (ha_destination acc) amount of None \<Rightarrow> Inl HoldTransferFailed | Some moved \<Rightarrow> Inr moved)"
  using assms
  by (simp add: transfer_out_parts_def require_vault_signer_def withdraw_constraints_def Let_def
      split: if_splits)

text \<open>C38: the preview is what the program does. For a vault as the program keeps it, a preview of paying at
  once means the withdrawal pays, moving exactly the tokens the token program moves; a preview of a
  wait means the withdrawal is recorded as pending with that unlock time and nothing moves; a
  refusal is recorded with the same cause. No other answer is given.\<close>

theorem preview_is_program_decision:
  assumes "hold_wf (ha_vault acc)" "inj pk" "- (2 ^ 63) \<le> now" "now + hv_delay_secs (ha_vault acc) < 2 ^ 63"
    and "0 \<le> hv_delay_secs (ha_vault acc)" "amount \<noteq> 0" "hv_next_withdrawal_id (ha_vault acc) \<noteq> 18446744073709551615"
    and "withdraw_constraints cpa acc = None"
    and "t_mint (ha_vault_token acc) = hv_mint (ha_vault acc)"
    and "xfer (ha_vault_token acc) (ha_destination acc) amount = Some (src, dst)"
  shows "case withdrawalOutlook parse (hold_view pk address (ha_vault acc)) (Big (int (unat amount))) (IsKey (pk (t_key (ha_destination acc))))
      (Big (int (unat (t_amount (ha_vault_token acc))))) (Big now) of
      Inr at_once \<Rightarrow> withdraw cpa xfer acc amount now = Inr (paid_at_once acc amount now src dst)
    | Inr (held_until reasons unlockAt) \<Rightarrow>
        reasons \<noteq> [] \<and> unlockAt = now + hv_delay_secs (ha_vault acc) \<and>
        (\<exists>index < HOLD_PENDING_CAPACITY. withdraw cpa xfer acc amount now = Inr (held acc index amount unlockAt now))
    | Inr (refused insufficient_funds) \<Rightarrow> withdraw cpa xfer acc amount now = Inr (refuse acc amount 1 now)
    | Inr (refused pending_full) \<Rightarrow> withdraw cpa xfer acc amount now = Inr (refuse acc amount 2 now)
    | Inl e \<Rightarrow> False"
proof -
  let ?v = "ha_vault acc" and ?b = "t_amount (ha_vault_token acc)" and ?d = "t_key (ha_destination acc)"
  have bps: "unat (hv_big_share_bps ?v) \<le> 10000" using assms(1) by (simp add: hold_wf_def)
  have unlock: "addI64 now (hv_delay_secs ?v) f = Inr (now + hv_delay_secs ?v)"
      "checked_add_i64 now (hv_delay_secs ?v) = Some (now + hv_delay_secs ?v)" for f
    using assms(3-5) by (simp_all add: addI64_def checked_add_i64_def)
  have nid: "checked_add (hv_next_withdrawal_id ?v) 1 \<noteq> None"
  proof -
    have "unat (hv_next_withdrawal_id ?v) \<noteq> unat (18446744073709551615 :: u64)"
      using assms(7) by (simp only: word_unat_eq_iff) simp
    then show ?thesis using unat_bound [of "hv_next_withdrawal_id ?v"] by (simp add: checked_add_nat)
  qed
  have index: "first_empty ?v = Some i \<Longrightarrow> i < HOLD_PENDING_CAPACITY" for i
    using position_bound [of "\<lambda>row. pw_status row = 0" "hv_pending ?v"] assms(1)
    by (simp add: first_empty_def hold_wf_def)
  note preview = withdrawalOutlook_view [OF assms(1,2,3) _ assms(6), of parse address ?d ?b]
  have now: "now < 2 ^ 63" using assms(4,5) by simp
  have pos: "amount > 0" using assms(6) by (simp add: word_gt_0)
  show ?thesis
    unfolding preview [OF now] withdraw_def assms(8) can_pay_now_eq [OF bps]
    unfolding transfer_out_allowed [OF assms(8,9)]
    using assms(10) pos unlock nid index
    by (auto simp: Let_def split: option.splits)
qed


text \<open>Money that leaves a vault at once stays inside the owner's day. Whatever the vault released
  before, when the program lets a withdrawal pay at once, everything released in the 24 hours up to
  that moment, this payment included, is at most the daily limit and at most the owner's share of the
  balance; and the buckets it stores go on counting every release.\<close>

theorem instant_payment_within_day:
  assumes "window_inv (hv_daily_buckets v) hist (hour_of now)" "unat (hv_big_share_bps v) \<le> 10000" "amount \<noteq> 0"
    and "can_pay_now v balance destination amount now = Inr True"
  shows "recent (hist @ [(now, amount)]) now \<le> unat (hv_daily_limit v) \<and>
    recent (hist @ [(now, amount)]) now * 10000 \<le> unat balance * unat (hv_big_share_bps v) \<and>
    window_inv (record_release (hv_daily_buckets v) amount now) (hist @ [(now, amount)]) (hour_of now)"
proof -
  let ?b = "hv_daily_buckets v" and ?n = "live_total (hv_daily_buckets v) now + unat amount"
  have le: "?n \<le> unat (hv_daily_limit v)" and share: "?n \<le> (unat balance * unat (hv_big_share_bps v)) div 10000"
    using assms(4) by (simp_all add: can_pay_now_eq [OF assms(2)])
  have small: "?n < 2 ^ 64" using le unat_bound [of "hv_daily_limit v"] by simp
  have used: "spent ?b now = Some (of_nat (live_total ?b now))" using small by (simp add: spent_eq)
  have added: "checked_add (of_nat (live_total ?b now)) amount = Some (of_nat ?n)" "unat (of_nat ?n :: u64) = ?n"
    using small by (simp_all add: checked_add_nat unat_of_nat del: of_nat_add) (simp add: unat_of_nat)
  have "recent (hist @ [(now, amount)]) now \<le> ?n"
    using hold_day.accepted_within_limit [OF assms(1) used added(1) order_refl assms(3)] added(2) by simp
  moreover have "?n * 10000 \<le> unat balance * unat (hv_big_share_bps v)"
    using share by (simp add: less_eq_div_iff_mult_less_eq)
  ultimately show ?thesis
    using le window_inv_record [OF assms(1)] by (meson mult_le_mono1 order_trans)
qed

section \<open>Example vault\<close>

definition demo_pending0 :: PendingWithdrawal where
  "demo_pending0 = \<lparr>pw_id = 0, pw_amount = 0, pw_destination = demo_key 0, pw_unlock_at = 0, pw_status = 0\<rparr>"

definition demo_vault :: HoldVault where
  "demo_vault =
     \<lparr>hv_owner = demo_key 1, hv_guardian = demo_key 2, hv_safe_address = demo_key 3, hv_mint = demo_key 4,
      hv_vault_token = demo_key 5, hv_vault_id = 1, hv_daily_limit = 100, hv_window_spent = 0, hv_window_start = 0,
      hv_delay_secs = 86400, hv_unfreeze_at = 0, hv_next_withdrawal_id = 1, hv_big_share_bps = 2500, hv_frozen = False,
      hv_known_len = 1, hv_bump = 7, hv_token_bump = 8, hv_ledger_bump = 9,
      hv_known = demo_key 6 # replicate 15 (demo_key 0), hv_pending = replicate 8 demo_pending0,
      hv_change = \<lparr>pc_active = False, pc_fields = 0, pc_big_share_bps = 0, pc_daily_limit = 0, pc_delay_secs = 0,
        pc_guardian = demo_key 0, pc_safe_address = demo_key 0, pc_effective_at = 0\<rparr>,
      hv_daily_buckets = empty_buckets\<rparr>"

definition demo_hold_entry0 :: HoldEntry where
  "demo_hold_entry0 = \<lparr>he_ts = 0, he_amount = 0, he_destination = demo_key 0, he_withdrawal_id = 0, he_kind = 0, he_reason = 0\<rparr>"

definition demo_hold :: hold_accounts where
  "demo_hold =
     \<lparr>ha_owner = demo_key 1, ha_guardian = None, ha_vault_key = demo_key 10, ha_ledger_key = demo_key 12, ha_vault = demo_vault,
      ha_ledger = \<lparr>hl_vault = demo_key 10, hl_total = 0, hl_head = 0, hl_bump = 9, hl_entries = replicate 32 demo_hold_entry0\<rparr>,
      ha_vault_token = \<lparr>t_key = demo_key 5, t_mint = demo_key 4, t_owner = demo_key 10, t_amount = 1000, t_delegate = None,
        t_delegated_amount = 0, t_frozen = False\<rparr>,
      ha_destination = \<lparr>t_key = demo_key 6, t_mint = demo_key 4, t_owner = demo_key 11, t_amount = 0, t_delegate = None,
        t_delegated_amount = 0, t_frozen = False\<rparr>,
      ha_source = \<lparr>t_key = demo_key 13, t_mint = demo_key 4, t_owner = demo_key 1, t_amount = 500, t_delegate = None,
        t_delegated_amount = 0, t_frozen = False\<rparr>,
      ha_mint = demo_key 4\<rparr>"

text \<open>An address for each kind of seed.\<close>

definition demo_cpa :: cpa where
  "demo_cpa seeds =
     (if length seeds = 4 then Some (demo_key 10)
      else if length (hd seeds) = 10 then Some (demo_key 5) else Some (demo_key 12))"

lemma demo_hold_wf: "hold_wf demo_vault"
  by (simp add: hold_wf_def demo_vault_def HOLD_PENDING_CAPACITY_def demo_pending0_def)

lemma demo_hold_allowed: "withdraw_constraints demo_cpa demo_hold = None"
  by (simp add: withdraw_constraints_def demo_hold_def demo_vault_def demo_cpa_def vault_seeds_def token_seeds_def
      ledger_seeds_def ascii_def)

lemma demo_hold_small: "live_total (hv_daily_buckets demo_vault) 5000 = 0"
  by (simp add: demo_vault_def live_total_def live_def empty_buckets_def BUCKET_COUNT_def)

lemma demo_hold_parts:
  "set (known_keys demo_vault) = {demo_key 6}" "first_empty demo_vault = Some 0" "hv_frozen demo_vault = False"
  "hv_daily_limit demo_vault = 100" "hv_big_share_bps demo_vault = 2500" "hv_delay_secs demo_vault = 86400"
  using replicate_Suc [of 7 demo_pending0]
  by (simp_all add: known_keys_def HOLD_KNOWN_CAPACITY_def demo_vault_def first_empty_def)
    (simp add: demo_pending0_def)

text \<open>100 to a remembered account pays at once; 101 waits a day.\<close>

definition demo_out :: "token_account \<Rightarrow> token_account \<Rightarrow> u64 \<Rightarrow> (token_account \<times> token_account) option" where
  "demo_out s d a = Some (s\<lparr>t_amount := t_amount s - a\<rparr>, d\<lparr>t_amount := t_amount d + a\<rparr>)"

theorem preview_is_program_decision_witness:
  "withdraw demo_cpa demo_out demo_hold 100 5000 =
     Inr (paid_at_once demo_hold 100 5000 ((ha_vault_token demo_hold)\<lparr>t_amount := 900\<rparr>) ((ha_destination demo_hold)\<lparr>t_amount := 100\<rparr>)) \<and>
   (\<exists>index < HOLD_PENDING_CAPACITY. withdraw demo_cpa demo_out demo_hold 101 5000 = Inr (held demo_hold index 101 91400 5000))"
proof -
  have vault: "ha_vault demo_hold = demo_vault" by (simp add: demo_hold_def)
  have view: "withdrawalOutlook (\<lambda>_. Inl []) (hold_view (\<lambda>k. k) (demo_key 10) demo_vault) (Big (int (unat a))) (IsKey (demo_key 6))
      (Big (int (unat (1000 :: u64)))) (Big 5000) = (if unat a \<le> 100 then Inr at_once
        else Inr (held_until [over_daily_limit] 91400))" if "a \<noteq> 0" "unat a \<le> 250" for a :: u64
    using that withdrawalOutlook_view [OF demo_hold_wf, of "\<lambda>k. k" 5000 a "\<lambda>_. Inl []" "demo_key 10" "demo_key 6" 1000]
    by (simp add: demo_hold_small demo_hold_parts word_less_nat_alt Let_def addI64_def)
  have bal: "t_amount (ha_vault_token demo_hold) = 1000" "t_key (ha_destination demo_hold) = demo_key 6"
    by (simp_all add: demo_hold_def)
  have hyps: "hold_wf (ha_vault demo_hold)" "inj (\<lambda>k :: pubkey. k)" "- (2 ^ 63) \<le> (5000 :: int)"
      "5000 + hv_delay_secs (ha_vault demo_hold) < 2 ^ 63" "0 \<le> hv_delay_secs (ha_vault demo_hold)"
      "hv_next_withdrawal_id (ha_vault demo_hold) \<noteq> 18446744073709551615"
      "t_mint (ha_vault_token demo_hold) = hv_mint (ha_vault demo_hold)"
    unfolding vault by (simp_all add: demo_hold_wf) (simp_all add: demo_vault_def demo_hold_def)
  have out: "demo_out (ha_vault_token demo_hold) (ha_destination demo_hold) a =
      Some ((ha_vault_token demo_hold)\<lparr>t_amount := 1000 - a\<rparr>, (ha_destination demo_hold)\<lparr>t_amount := a\<rparr>)" for a
    by (simp add: demo_out_def demo_hold_def)
  note decision = preview_is_program_decision [where xfer = demo_out and parse = "\<lambda>_. Inl []" and address = "demo_key 10",
      OF hyps(1-5) _ hyps(6) demo_hold_allowed hyps(7) out, unfolded vault bal]
  have "withdraw demo_cpa demo_out demo_hold 100 5000 = Inr (paid_at_once demo_hold 100 5000
      ((ha_vault_token demo_hold)\<lparr>t_amount := 1000 - 100\<rparr>) ((ha_destination demo_hold)\<lparr>t_amount := 100\<rparr>))"
    using decision [of 100] unfolding view [of 100, simplified] by (simp add: view [of 100, simplified])
  moreover have "\<exists>index < HOLD_PENDING_CAPACITY. withdraw demo_cpa demo_out demo_hold 101 5000 =
      Inr (held demo_hold index 101 91400 5000)"
    using decision [of 101] by (simp add: view [of 101, simplified])
  ultimately show ?thesis by simp
qed


end
