(* ===== verification/Hold_Decode.thy ===== *)
theory Hold_Decode
  imports Hold Ledger_Decode
begin

text \<open>
  The SDK's decoders of the Hold accounts (\<^verbatim>\<open>sdk/src/hold.ts\<close>: \<open>decodeHoldVault\<close>,
  \<open>decodeHoldLedger\<close>) against the bytes the program stores
  (\<^verbatim>\<open>programs/veto/src/hold_state.rs\<close>). \<open>pk\<close> is \<open>new PublicKey(bytes)\<close>. The Hold ledger is
  the second instance of the bounded ring.
\<close>

section \<open>Decoders\<close>

definition HOLD_VAULT_DISCRIMINATOR :: bytes where
  "HOLD_VAULT_DISCRIMINATOR = [225, 219, 122, 198, 245, 163, 91, 55]"

definition HOLD_LEDGER_DISCRIMINATOR :: bytes where
  "HOLD_LEDGER_DISCRIMINATOR = [195, 103, 143, 50, 70, 255, 84, 161]"

lemma length_hold_disc [simp]: "length HOLD_VAULT_DISCRIMINATOR = 8" "length HOLD_LEDGER_DISCRIMINATOR = 8"
  by (simp_all add: HOLD_VAULT_DISCRIMINATOR_def HOLD_LEDGER_DISCRIMINATOR_def)

definition needLen :: "bytes \<Rightarrow> nat \<Rightarrow> string \<Rightarrow> unit result" where
  "needLen data len what =
     (if length data < len
      then Inl (Error (what @ '' account is '' @ nat_str (length data) @ '' bytes, need '' @ nat_str len)) else Inr ())"

text \<open>One turn of the loop over the pending slots: an empty slot is left out.\<close>

definition pending_slot :: "(bytes \<Rightarrow> 'k) \<Rightarrow> bytes \<Rightarrow> nat \<Rightarrow> 'k SdkPending list result" where
  "pending_slot pk data i =
     (let off = 743 + i * 57 in
      andThen (readUIntLE 1 data (off + 56)) (\<lambda>status.
        if status \<noteq> 1 then Inr []
        else
          andThen (readUIntLE 8 data off) (\<lambda>wid.
          andThen (readUIntLE 8 data (off + 8)) (\<lambda>amount.
          andThen (readIntLE64 data (off + 48)) (\<lambda>unlockAt.
            Inr [\<lparr>sp_id = wid, sp_amount = amount, sp_destination = pk (slice data (off + 16) (off + 48)),
                  sp_unlockAt = unlockAt, sp_status = status\<rparr>])))))"

definition bucket_slot :: "bytes \<Rightarrow> nat \<Rightarrow> (int \<times> int) result" where
  "bucket_slot data i =
     andThen (readIntLE64 data (1291 + i * 16)) (\<lambda>hour.
     andThen (readUIntLE 8 data (1291 + i * 16 + 8)) (\<lambda>amount. Inr (hour, amount)))"

definition change_slot :: "(bytes \<Rightarrow> 'k) \<Rightarrow> bytes \<Rightarrow> nat \<Rightarrow> 'k SdkChange result" where
  "change_slot pk data changeAt =
     andThen (readUIntLE 1 data changeAt) (\<lambda>active.
     andThen (readUIntLE 1 data (changeAt + 1)) (\<lambda>fields.
     andThen (readUIntLE 2 data (changeAt + 2)) (\<lambda>bigShareBps.
     andThen (readUIntLE 8 data (changeAt + 4)) (\<lambda>dailyLimit.
     andThen (readIntLE64 data (changeAt + 12)) (\<lambda>delaySecs.
     andThen (readIntLE64 data (changeAt + 84)) (\<lambda>effectiveAt.
       Inr \<lparr>sc_active = active \<noteq> 0, sc_fields = fields, sc_bigShareBps = bigShareBps, sc_dailyLimit = dailyLimit,
            sc_delaySecs = delaySecs, sc_guardian = pk (slice data (changeAt + 20) (changeAt + 52)),
            sc_safeAddress = pk (slice data (changeAt + 52) (changeAt + 84)), sc_effectiveAt = effectiveAt\<rparr>))))))"

definition decodeHoldVault :: "(bytes \<Rightarrow> 'k) \<Rightarrow> bytes \<Rightarrow> 'k \<Rightarrow> 'k HoldVaultAccount result" where
  "decodeHoldVault pk data address =
     andThen (requireDisc data HOLD_VAULT_DISCRIMINATOR ''Hold vault'') (\<lambda>_.
     andThen (needLen data 1691 ''Hold vault'') (\<lambda>_.
     andThen (readUIntLE 1 data 227) (\<lambda>knownByte.
       let known = map (\<lambda>i. let off = 231 + i * 32 in pk (slice data off (off + 32)))
                     [0..<min (nat knownByte) HOLD_KNOWN_CAPACITY];
           key = (\<lambda>off. pk (slice data off (off + 32)))
       in
       andThen (traverse (pending_slot pk data) [0..<HOLD_PENDING_CAPACITY]) (\<lambda>pending.
       andThen (readUIntLE 8 data 168) (\<lambda>vaultId.
       andThen (readUIntLE 8 data 176) (\<lambda>dailyLimit.
       andThen (traverse (bucket_slot data) [0..<BUCKET_COUNT]) (\<lambda>dailyBuckets.
       andThen (readUIntLE 8 data 184) (\<lambda>windowSpent.
       andThen (readIntLE64 data 192) (\<lambda>windowStart.
       andThen (readIntLE64 data 200) (\<lambda>delaySecs.
       andThen (readIntLE64 data 208) (\<lambda>unfreezeAt.
       andThen (readUIntLE 8 data 216) (\<lambda>nextWithdrawalId.
       andThen (readUIntLE 2 data 224) (\<lambda>bigShareBps.
       andThen (readUIntLE 1 data 226) (\<lambda>frozenByte.
       andThen (change_slot pk data 1199) (\<lambda>change.
       andThen (readUIntLE 1 data 228) (\<lambda>bump.
       andThen (readUIntLE 1 data 229) (\<lambda>tokenBump.
       andThen (readUIntLE 1 data 230) (\<lambda>ledgerBump.
         Inr \<lparr>va_address = address, va_owner = key 8, va_guardian = key 40, va_safeAddress = key 72, va_mint = key 104,
              va_vaultToken = key 136, va_vaultId = vaultId, va_dailyLimit = dailyLimit, va_dailyBuckets = dailyBuckets,
              va_windowSpent = windowSpent, va_windowStart = windowStart, va_delaySecs = delaySecs,
              va_unfreezeAt = unfreezeAt, va_nextWithdrawalId = nextWithdrawalId, va_bigShareBps = bigShareBps,
              va_frozen = (frozenByte \<noteq> 0), va_known = known, va_pending = concat pending, va_change = change,
              va_bump = bump, va_tokenBump = tokenBump, va_ledgerBump = ledgerBump\<rparr>))))))))))))))))))"

record 'k HoldLedgerEntry =
  hle_ts :: int
  hle_amount :: int
  hle_destination :: 'k
  hle_withdrawalId :: int
  hle_kind :: int
  hle_reason :: int

record 'k HoldLedgerAccount =
  hla_address :: 'k
  hla_vault :: 'k
  hla_total :: int
  hla_head :: int
  hla_bump :: int
  hla_entries :: "'k HoldLedgerEntry list"

definition hold_slot :: "(bytes \<Rightarrow> 'k) \<Rightarrow> bytes \<Rightarrow> nat \<Rightarrow> 'k HoldLedgerEntry result" where
  "hold_slot pk data index =
     (let off = 48 + index * 64 in
      andThen (readIntLE64 data off) (\<lambda>ts.
      andThen (readUIntLE 8 data (off + 8)) (\<lambda>amount.
      andThen (readUIntLE 8 data (off + 48)) (\<lambda>withdrawalId.
      andThen (readUIntLE 1 data (off + 56)) (\<lambda>kind.
      andThen (readUIntLE 1 data (off + 57)) (\<lambda>reason.
        Inr \<lparr>hle_ts = ts, hle_amount = amount, hle_destination = pk (slice data (off + 16) (off + 48)),
             hle_withdrawalId = withdrawalId, hle_kind = kind, hle_reason = reason\<rparr>))))))"

definition decodeHoldLedger :: "(bytes \<Rightarrow> 'k) \<Rightarrow> bytes \<Rightarrow> 'k \<Rightarrow> 'k HoldLedgerAccount result" where
  "decodeHoldLedger pk data address =
     andThen (requireDisc data HOLD_LEDGER_DISCRIMINATOR ''Hold ledger'') (\<lambda>_.
     andThen (needLen data 2096 ''Hold ledger'') (\<lambda>_.
     andThen (readUIntLE 4 data 40) (\<lambda>tot.
     andThen (readUIntLE 2 data 44) (\<lambda>head.
       let alive = min (nat tot) HOLD_LEDGER_CAPACITY;
           start = (if tot \<ge> int HOLD_LEDGER_CAPACITY then nat head mod HOLD_LEDGER_CAPACITY else 0)
       in andThen (traverse (hold_slot pk data) (map (\<lambda>n. (start + n) mod HOLD_LEDGER_CAPACITY) [0..<alive])) (\<lambda>entries.
          andThen (readUIntLE 1 data 46) (\<lambda>bump.
            Inr \<lparr>hla_address = address, hla_vault = pk (slice data 8 40), hla_total = tot, hla_head = head,
                 hla_bump = bump, hla_entries = entries\<rparr>))))))"

section \<open>The bytes the program stores\<close>

definition pending_image :: "PendingWithdrawal \<Rightarrow> bytes" where
  "pending_image p =
     le_bytes 8 (unat (pw_id p)) @ le_bytes 8 (unat (pw_amount p)) @ pw_destination p @
     le_bytes 8 (i64_nat (pw_unlock_at p)) @ [pw_status p]"

definition bucket_image :: "TradeBucket \<Rightarrow> bytes" where
  "bucket_image b = le_bytes 8 (i64_nat (b_hour b)) @ le_bytes 8 (unat (b_amount b))"

definition bool_byte :: "bool \<Rightarrow> byte" where
  "bool_byte b = (if b then 1 else 0)"

definition change_image :: "PendingChange \<Rightarrow> bytes" where
  "change_image c =
     [bool_byte (pc_active c), pc_fields c] @ le_bytes 2 (unat (pc_big_share_bps c)) @
     le_bytes 8 (unat (pc_daily_limit c)) @ le_bytes 8 (i64_nat (pc_delay_secs c)) @ pc_guardian c @
     pc_safe_address c @ le_bytes 8 (i64_nat (pc_effective_at c))"

definition vault_head :: "HoldVault \<Rightarrow> bytes" where
  "vault_head v =
     HOLD_VAULT_DISCRIMINATOR @ hv_owner v @ hv_guardian v @ hv_safe_address v @ hv_mint v @ hv_vault_token v @
     le_bytes 8 (unat (hv_vault_id v)) @ le_bytes 8 (unat (hv_daily_limit v)) @ le_bytes 8 (unat (hv_window_spent v)) @
     le_bytes 8 (i64_nat (hv_window_start v)) @ le_bytes 8 (i64_nat (hv_delay_secs v)) @
     le_bytes 8 (i64_nat (hv_unfreeze_at v)) @ le_bytes 8 (unat (hv_next_withdrawal_id v)) @
     le_bytes 2 (unat (hv_big_share_bps v)) @
     [bool_byte (hv_frozen v), hv_known_len v, hv_bump v, hv_token_bump v, hv_ledger_bump v]"

definition vault_image :: "HoldVault \<Rightarrow> bytes" where
  "vault_image v =
     vault_head v @ concat (hv_known v) @ concat (map pending_image (hv_pending v)) @ change_image (hv_change v) @
     concat (map bucket_image (hv_daily_buckets v))"

definition hold_entry_image :: "HoldEntry \<Rightarrow> bytes" where
  "hold_entry_image e =
     le_bytes 8 (i64_nat (he_ts e)) @ le_bytes 8 (unat (he_amount e)) @ he_destination e @
     le_bytes 8 (unat (he_withdrawal_id e)) @ [he_kind e, he_reason e] @ replicate 6 0"

definition hold_ledger_image :: "HoldLedger \<Rightarrow> bytes" where
  "hold_ledger_image l =
     HOLD_LEDGER_DISCRIMINATOR @ hl_vault l @ le_bytes 4 (unat (hl_total l)) @ le_bytes 2 (unat (hl_head l)) @
     [hl_bump l, 0] @ concat (map hold_entry_image (hl_entries l))"

definition i64_ok :: "int \<Rightarrow> bool" where
  "i64_ok i \<longleftrightarrow> - (2 ^ 63) \<le> i \<and> i < 2 ^ 63"

definition pending_wf :: "PendingWithdrawal \<Rightarrow> bool" where
  "pending_wf p \<longleftrightarrow> length (pw_destination p) = 32 \<and> i64_ok (pw_unlock_at p)"

definition vault_wf :: "HoldVault \<Rightarrow> bool" where
  "vault_wf v \<longleftrightarrow>
     length (hv_owner v) = 32 \<and> length (hv_guardian v) = 32 \<and> length (hv_safe_address v) = 32 \<and>
     length (hv_mint v) = 32 \<and> length (hv_vault_token v) = 32 \<and> i64_ok (hv_window_start v) \<and>
     i64_ok (hv_delay_secs v) \<and> i64_ok (hv_unfreeze_at v) \<and>
     length (hv_known v) = HOLD_KNOWN_CAPACITY \<and> (\<forall>k \<in> set (hv_known v). length k = 32) \<and>
     length (hv_pending v) = HOLD_PENDING_CAPACITY \<and> (\<forall>p \<in> set (hv_pending v). pending_wf p) \<and>
     length (pc_guardian (hv_change v)) = 32 \<and> length (pc_safe_address (hv_change v)) = 32 \<and>
     i64_ok (pc_delay_secs (hv_change v)) \<and> i64_ok (pc_effective_at (hv_change v)) \<and>
     length (hv_daily_buckets v) = BUCKET_COUNT \<and> (\<forall>b \<in> set (hv_daily_buckets v). i64_ok (b_hour b))"

definition hold_entry_wf :: "HoldEntry \<Rightarrow> bool" where
  "hold_entry_wf e \<longleftrightarrow> length (he_destination e) = 32 \<and> i64_ok (he_ts e)"

definition hold_entry_view :: "(bytes \<Rightarrow> 'k) \<Rightarrow> HoldEntry \<Rightarrow> 'k HoldLedgerEntry" where
  "hold_entry_view pk e =
     \<lparr>hle_ts = he_ts e, hle_amount = int (unat (he_amount e)), hle_destination = pk (he_destination e),
      hle_withdrawalId = int (unat (he_withdrawal_id e)), hle_kind = int (unat (he_kind e)),
      hle_reason = int (unat (he_reason e))\<rparr>"

lemma i64_read: "i64_ok i \<Longrightarrow> i64_val (i64_nat i) = i"
  by (simp add: i64_ok_def i64_roundtrip)

text \<open>A read whose bytes are known.\<close>

lemma read_known:
  "take w (drop p data) = img \<Longrightarrow> p + w \<le> length data \<Longrightarrow> readUIntLE w data p = Inr (int (le_val img))"
  "take 8 (drop p data) = img \<Longrightarrow> p + 8 \<le> length data \<Longrightarrow> readIntLE64 data p = Inr (i64_val (le_val img))"
  by (simp_all add: node_read_inside)

lemma slice_known: "take w (drop p data) = img \<Longrightarrow> slice data p (p + w) = img"
  by (simp add: slice_def)


section \<open>Reading a slot\<close>

lemma byte_1 [simp]: "unat (w :: byte) = Suc 0 \<longleftrightarrow> w = 1"
  using word_unat_eq_iff [of w 1] by simp

lemma pending_slot_image:
  assumes "take 57 (drop (743 + i * 57) data) = pending_image p" "pending_wf p" "800 + i * 57 \<le> length data"
  shows "pending_slot pk data i = Inr (if pw_status p = 1 then [pending_view pk p] else [])"
proof -
  let ?off = "743 + i * 57"
  have d: "length (pw_destination p) = 32" and u: "i64_val (i64_nat (pw_unlock_at p)) = pw_unlock_at p"
    using assms(2) by (simp_all add: pending_wf_def i64_read)
  have f: "take 1 (drop (?off + 56) data) = [pw_status p]" "take 8 (drop ?off data) = le_bytes 8 (unat (pw_id p))"
      "take 8 (drop (?off + 8) data) = le_bytes 8 (unat (pw_amount p))"
      "take 32 (drop (?off + 16) data) = pw_destination p"
      "take 8 (drop (?off + 48) data) = le_bytes 8 (i64_nat (pw_unlock_at p))"
    using slot_read [OF assms(1), of 56 1] slot_read [OF assms(1), of 0 8] slot_read [OF assms(1), of 8 8]
      slot_read [OF assms(1), of 16 32] slot_read [OF assms(1), of 48 8] d
    by (simp_all add: pending_image_def)
  have r: "readUIntLE 1 data (?off + 56) = Inr (int (unat (pw_status p)))"
      "readUIntLE 8 data ?off = Inr (int (unat (pw_id p)))" "readUIntLE 8 data (?off + 8) = Inr (int (unat (pw_amount p)))"
      "readIntLE64 data (?off + 48) = Inr (pw_unlock_at p)" "slice data (?off + 16) (?off + 48) = pw_destination p"
    using read_known(1) [OF f(1)] read_known(1) [OF f(2)] read_known(1) [OF f(3)] read_known(2) [OF f(5)]
      slice_known [OF f(4)] assms(3) u by (simp_all del: of_nat_unat)
  show ?thesis
    unfolding pending_slot_def Let_def r andThen_Inr pending_view_def by (simp del: of_nat_unat)
qed

lemma bucket_slot_image:
  assumes "take 16 (drop (1291 + i * 16) data) = bucket_image b" "i64_ok (b_hour b)" "1307 + i * 16 \<le> length data"
  shows "bucket_slot data i = Inr (b_hour b, int (unat (b_amount b)))"
proof -
  let ?off = "1291 + i * 16"
  have f: "take 8 (drop ?off data) = le_bytes 8 (i64_nat (b_hour b))"
      "take 8 (drop (?off + 8) data) = le_bytes 8 (unat (b_amount b))"
    using slot_read [OF assms(1), of 0 8] slot_read [OF assms(1), of 8 8] by (simp_all add: bucket_image_def)
  show ?thesis
    using read_known(2) [OF f(1)] read_known(1) [OF f(2)] assms(2,3)
    by (simp add: bucket_slot_def i64_read del: of_nat_unat)
qed

lemma change_slot_image:
  assumes "take 92 (drop 1199 data) = change_image c" "length (pc_guardian c) = 32" "length (pc_safe_address c) = 32"
    and "i64_ok (pc_delay_secs c)" "i64_ok (pc_effective_at c)" "1291 \<le> length data"
  shows "change_slot pk data 1199 = Inr (change_view pk c)"
proof -
  have f: "take 1 (drop 1199 data) = [bool_byte (pc_active c)]" "take 1 (drop 1200 data) = [pc_fields c]"
      "take 2 (drop 1201 data) = le_bytes 2 (unat (pc_big_share_bps c))"
      "take 8 (drop 1203 data) = le_bytes 8 (unat (pc_daily_limit c))"
      "take 8 (drop 1211 data) = le_bytes 8 (i64_nat (pc_delay_secs c))"
      "take 32 (drop 1219 data) = pc_guardian c" "take 32 (drop 1251 data) = pc_safe_address c"
      "take 8 (drop 1283 data) = le_bytes 8 (i64_nat (pc_effective_at c))"
    using slot_read [OF assms(1), of 0 1] slot_read [OF assms(1), of 1 1] slot_read [OF assms(1), of 2 2]
      slot_read [OF assms(1), of 4 8] slot_read [OF assms(1), of 12 8] slot_read [OF assms(1), of 20 32]
      slot_read [OF assms(1), of 52 32] slot_read [OF assms(1), of 84 8] assms(2,3)
    by (simp_all add: change_image_def)
  show ?thesis
    using read_known(1) [OF f(1)] read_known(1) [OF f(2)] read_known(1) [OF f(3)] read_known(1) [OF f(4)]
      read_known(2) [OF f(5)] slice_known [OF f(6)] slice_known [OF f(7)] read_known(2) [OF f(8)] assms(4-6)
    by (simp add: change_slot_def change_view_def i64_read bool_byte_def del: of_nat_unat)
qed

lemma hold_slot_image:
  assumes "take 64 (drop (48 + i * 64) data) = hold_entry_image e" "hold_entry_wf e" "112 + i * 64 \<le> length data"
  shows "hold_slot pk data i = Inr (hold_entry_view pk e)"
proof -
  let ?off = "48 + i * 64"
  have d: "length (he_destination e) = 32" and u: "i64_val (i64_nat (he_ts e)) = he_ts e"
    using assms(2) by (simp_all add: hold_entry_wf_def i64_read)
  have f: "take 8 (drop ?off data) = le_bytes 8 (i64_nat (he_ts e))"
      "take 8 (drop (?off + 8) data) = le_bytes 8 (unat (he_amount e))" "take 32 (drop (?off + 16) data) = he_destination e"
      "take 8 (drop (?off + 48) data) = le_bytes 8 (unat (he_withdrawal_id e))"
      "take 1 (drop (?off + 56) data) = [he_kind e]" "take 1 (drop (?off + 57) data) = [he_reason e]"
    using slot_read [OF assms(1), of 0 8] slot_read [OF assms(1), of 8 8] slot_read [OF assms(1), of 16 32]
      slot_read [OF assms(1), of 48 8] slot_read [OF assms(1), of 56 1] slot_read [OF assms(1), of 57 1] d
    by (simp_all add: hold_entry_image_def)
  have r: "readIntLE64 data ?off = Inr (he_ts e)" "readUIntLE 8 data (?off + 8) = Inr (int (unat (he_amount e)))"
      "readUIntLE 8 data (?off + 48) = Inr (int (unat (he_withdrawal_id e)))"
      "readUIntLE 1 data (?off + 56) = Inr (int (unat (he_kind e)))"
      "readUIntLE 1 data (?off + 57) = Inr (int (unat (he_reason e)))" "slice data (?off + 16) (?off + 48) = he_destination e"
    using read_known(2) [OF f(1)] read_known(1) [OF f(2)] read_known(1) [OF f(4)] read_known(1) [OF f(5)]
      read_known(1) [OF f(6)] slice_known [OF f(3)] assms(3) u by (simp_all del: of_nat_unat)
  show ?thesis unfolding hold_slot_def Let_def r andThen_Inr hold_entry_view_def by (rule refl)
qed


section \<open>Reading the accounts\<close>

lemma packed_at:
  assumes "drop p data = concat (map f xs) @ post" "\<And>x. x \<in> set xs \<Longrightarrow> length (f x) = w" "i < length xs"
  shows "take w (drop (p + i * w) data) = f (xs ! i)"
proof -
  have "take w (drop (p + i * w) data) = take w (drop (i * w) (concat (map f xs) @ post))"
    using drop_take_shift [of w p "i * w" data] assms(1) by simp
  then show ?thesis using concat_slot [of xs f w i post, OF assms(2,3)] by simp
qed

lemma traverse_nth:
  "(\<And>i. i < n \<Longrightarrow> f i = Inr (g (xs ! i))) \<Longrightarrow> length xs = n \<Longrightarrow> traverse f [0..<n] = Inr (map g xs)"
  by (subst traverse_Inr [where g = "\<lambda>i. g (xs ! i)"]) (auto intro: nth_equalityI)

lemma concat_optional: "concat (map (\<lambda>x. if P x then [f x] else []) xs) = map f (filter P xs)"
  by (induction xs) simp_all

lemma length_images [layout_simps]:
  "pending_wf p \<Longrightarrow> length (pending_image p) = 57" "length (bucket_image b) = 16"
  "hold_entry_wf e \<Longrightarrow> length (hold_entry_image e) = 64"
  by (simp_all add: pending_image_def pending_wf_def bucket_image_def hold_entry_image_def hold_entry_wf_def)

lemma vault_parts:
  assumes "vault_wf v" "data = vault_image v @ post"
  shows "drop 231 data = concat (map (\<lambda>k. k) (hv_known v)) @ concat (map pending_image (hv_pending v)) @
      change_image (hv_change v) @ concat (map bucket_image (hv_daily_buckets v)) @ post"
    and "drop 743 data = concat (map pending_image (hv_pending v)) @
      change_image (hv_change v) @ concat (map bucket_image (hv_daily_buckets v)) @ post"
    and "drop 1199 data = change_image (hv_change v) @ concat (map bucket_image (hv_daily_buckets v)) @ post"
    and "drop 1291 data = concat (map bucket_image (hv_daily_buckets v)) @ post"
    and "1691 \<le> length data"
proof -
  have h: "length (vault_head v) = 231" using assms(1) by (simp add: vault_head_def vault_wf_def)
  have k: "length (concat (map (\<lambda>k. k) (hv_known v))) = 512"
    using assms(1) length_concat_slots [of "hv_known v" "\<lambda>k. k" 32] by (simp add: vault_wf_def HOLD_KNOWN_CAPACITY_def)
  have p: "length (concat (map pending_image (hv_pending v))) = 456"
    using assms(1) length_concat_slots [of "hv_pending v" pending_image 57]
    by (simp add: vault_wf_def HOLD_PENDING_CAPACITY_def length_images)
  have c: "length (change_image (hv_change v)) = 92" using assms(1) by (simp add: change_image_def vault_wf_def)
  have b: "length (concat (map bucket_image (hv_daily_buckets v))) = 400"
    using assms(1) length_concat_slots [of "hv_daily_buckets v" bucket_image 16]
    by (simp add: vault_wf_def BUCKET_COUNT_def length_images)
  show "drop 231 data = concat (map (\<lambda>k. k) (hv_known v)) @ concat (map pending_image (hv_pending v)) @
      change_image (hv_change v) @ concat (map bucket_image (hv_daily_buckets v)) @ post"
    using assms(2) h by (simp add: vault_image_def)
  then have 1: "drop 743 data = drop 512 (concat (map (\<lambda>k. k) (hv_known v)) @ concat (map pending_image (hv_pending v)) @
      change_image (hv_change v) @ concat (map bucket_image (hv_daily_buckets v)) @ post)"
    using drop_drop [of 512 231 data] by simp
  then show 2: "drop 743 data = concat (map pending_image (hv_pending v)) @
      change_image (hv_change v) @ concat (map bucket_image (hv_daily_buckets v)) @ post"
    using k by (simp only: drop_append) simp
  then have "drop 1199 data = drop 456 (concat (map pending_image (hv_pending v)) @
      change_image (hv_change v) @ concat (map bucket_image (hv_daily_buckets v)) @ post)"
    using drop_drop [of 456 743 data] by simp
  then show 3: "drop 1199 data = change_image (hv_change v) @ concat (map bucket_image (hv_daily_buckets v)) @ post"
    using p by (simp only: drop_append) simp
  then show "drop 1291 data = concat (map bucket_image (hv_daily_buckets v)) @ post"
    using c drop_drop [of 92 1199 data] by simp
  show "1691 \<le> length data"
    using assms(2) h k p c b by (simp add: vault_image_def)
qed

lemma vault_head_reads:
  assumes "vault_wf v" "data = vault_image v @ post"
  shows "requireDisc data HOLD_VAULT_DISCRIMINATOR ''Hold vault'' = Inr ()"
    "readUIntLE 1 data 227 = Inr (int (unat (hv_known_len v)))" "readUIntLE 8 data 168 = Inr (int (unat (hv_vault_id v)))"
    "readUIntLE 8 data 176 = Inr (int (unat (hv_daily_limit v)))" "readUIntLE 8 data 184 = Inr (int (unat (hv_window_spent v)))"
    "readIntLE64 data 192 = Inr (hv_window_start v)" "readIntLE64 data 200 = Inr (hv_delay_secs v)"
    "readIntLE64 data 208 = Inr (hv_unfreeze_at v)" "readUIntLE 8 data 216 = Inr (int (unat (hv_next_withdrawal_id v)))"
    "readUIntLE 2 data 224 = Inr (int (unat (hv_big_share_bps v)))"
    "readUIntLE 1 data 226 = Inr (int (unat (bool_byte (hv_frozen v))))" "readUIntLE 1 data 228 = Inr (int (unat (hv_bump v)))"
    "readUIntLE 1 data 229 = Inr (int (unat (hv_token_bump v)))" "readUIntLE 1 data 230 = Inr (int (unat (hv_ledger_bump v)))"
    "slice data 8 40 = hv_owner v" "slice data 40 72 = hv_guardian v" "slice data 72 104 = hv_safe_address v"
    "slice data 104 136 = hv_mint v" "slice data 136 168 = hv_vault_token v"
proof -
  have l: "length (hv_owner v) = 32" "length (hv_guardian v) = 32" "length (hv_safe_address v) = 32" "length (hv_mint v) = 32"
      "length (hv_vault_token v) = 32"
    using assms(1) by (simp_all add: vault_wf_def)
  have t: "i64_val (i64_nat (hv_window_start v)) = hv_window_start v" "i64_val (i64_nat (hv_delay_secs v)) = hv_delay_secs v"
      "i64_val (i64_nat (hv_unfreeze_at v)) = hv_unfreeze_at v"
    using assms(1) by (simp_all add: vault_wf_def i64_read)
  note parts = assms(2) vault_image_def vault_head_def
  show "requireDisc data HOLD_VAULT_DISCRIMINATOR ''Hold vault'' = Inr ()" by (simp add: parts requireDisc_def)
  have long: "1691 \<le> length data" by (rule vault_parts(5) [OF assms])
  then show "readUIntLE 1 data 227 = Inr (int (unat (hv_known_len v)))"
    "readUIntLE 8 data 168 = Inr (int (unat (hv_vault_id v)))"
    "readUIntLE 8 data 176 = Inr (int (unat (hv_daily_limit v)))" "readUIntLE 8 data 184 = Inr (int (unat (hv_window_spent v)))"
    "readIntLE64 data 192 = Inr (hv_window_start v)" "readIntLE64 data 200 = Inr (hv_delay_secs v)"
    "readIntLE64 data 208 = Inr (hv_unfreeze_at v)" "readUIntLE 8 data 216 = Inr (int (unat (hv_next_withdrawal_id v)))"
    "readUIntLE 2 data 224 = Inr (int (unat (hv_big_share_bps v)))"
    "readUIntLE 1 data 226 = Inr (int (unat (bool_byte (hv_frozen v))))" "readUIntLE 1 data 228 = Inr (int (unat (hv_bump v)))"
    "readUIntLE 1 data 229 = Inr (int (unat (hv_token_bump v)))" "readUIntLE 1 data 230 = Inr (int (unat (hv_ledger_bump v)))"
    using l t by (simp_all add: node_read_inside del: of_nat_unat) (simp_all add: parts del: of_nat_unat)
  show "slice data 8 40 = hv_owner v" "slice data 40 72 = hv_guardian v" "slice data 72 104 = hv_safe_address v"
    "slice data 104 136 = hv_mint v" "slice data 136 168 = hv_vault_token v"
    using l by (simp_all add: slice_def parts)
qed


lemma decodeHoldVault_image:
  assumes "vault_wf v"
  shows "decodeHoldVault pk (vault_image v @ post) address = Inr (hold_view pk address v)"
proof -
  define data where "data = vault_image v @ post"
  note parts = vault_parts [OF assms data_def] and reads = vault_head_reads [OF assms data_def]
  have sizes: "length (hv_known v) = 16" "length (hv_pending v) = 8" "length (hv_daily_buckets v) = 25"
    using assms by (simp_all add: vault_wf_def HOLD_KNOWN_CAPACITY_def HOLD_PENDING_CAPACITY_def BUCKET_COUNT_def)
  have known: "slice data (231 + i * 32) (231 + i * 32 + 32) = hv_known v ! i" if "i < 16" for i
    using packed_at [OF parts(1), of 32 i] assms that sizes by (simp add: slice_def vault_wf_def)
  have known_list: "map (\<lambda>i. pk (slice data (231 + i * 32) (263 + i * 32))) [0..<min (unat (hv_known_len v)) HOLD_KNOWN_CAPACITY] =
      map pk (known_keys v)"
    using known sizes by (intro nth_equalityI) (simp_all add: known_keys_def HOLD_KNOWN_CAPACITY_def)
  have pending: "traverse (pending_slot pk data) [0..<HOLD_PENDING_CAPACITY] =
      Inr (map (\<lambda>p. if pw_status p = 1 then [pending_view pk p] else []) (hv_pending v))"
  proof (rule traverse_nth)
    fix i assume "i < HOLD_PENDING_CAPACITY"
    then show "pending_slot pk data i =
        Inr (if pw_status (hv_pending v ! i) = 1 then [pending_view pk (hv_pending v ! i)] else [])"
      using assms packed_at [OF parts(2), of 57 i] parts(5) sizes
      by (intro pending_slot_image) (auto simp: vault_wf_def length_images HOLD_PENDING_CAPACITY_def HOLD_KNOWN_CAPACITY_def)
  qed (simp add: sizes HOLD_PENDING_CAPACITY_def)
  have buckets: "traverse (bucket_slot data) [0..<BUCKET_COUNT] =
      Inr (map (\<lambda>b. (b_hour b, int (unat (b_amount b)))) (hv_daily_buckets v))"
  proof (rule traverse_nth)
    fix i assume "i < BUCKET_COUNT"
    then show "bucket_slot data i = Inr (b_hour (hv_daily_buckets v ! i), int (unat (b_amount (hv_daily_buckets v ! i))))"
      using assms packed_at [OF parts(4), of 16 i] parts(5) sizes
      by (intro bucket_slot_image) (auto simp: vault_wf_def length_images BUCKET_COUNT_def HOLD_KNOWN_CAPACITY_def HOLD_PENDING_CAPACITY_def)
  qed (simp add: sizes BUCKET_COUNT_def)
  have change: "change_slot pk data 1199 = Inr (change_view pk (hv_change v))"
    using assms parts(3,5) by (intro change_slot_image) (simp_all add: vault_wf_def change_image_def)
  have long: "needLen data 1691 ''Hold vault'' = Inr ()" using parts(5) by (simp add: needLen_def)
  show ?thesis
    unfolding data_def [symmetric] decodeHoldVault_def reads long pending buckets change andThen_Inr Let_def
    by (simp add: hold_view_def reads known_list concat_optional bool_byte_def del: of_nat_unat)
qed

definition hold_ledger_wf :: "HoldLedger \<Rightarrow> bool" where
  "hold_ledger_wf l \<longleftrightarrow> length (hl_vault l) = 32 \<and> length (hl_entries l) = HOLD_LEDGER_CAPACITY \<and>
     (\<forall>e \<in> set (hl_entries l). hold_entry_wf e)"

lemma decodeHoldLedger_image:
  assumes "hold_ledger_wf l"
  shows "decodeHoldLedger pk (hold_ledger_image l @ post) address =
    Inr \<lparr>hla_address = address, hla_vault = pk (hl_vault l), hla_total = int (unat (hl_total l)),
         hla_head = int (unat (hl_head l)), hla_bump = int (unat (hl_bump l)),
         hla_entries = map (hold_entry_view pk)
           (oldest_first HOLD_LEDGER_CAPACITY (hl_entries l) (unat (hl_total l)) (unat (hl_head l)))\<rparr>"
proof -
  define data where "data = hold_ledger_image l @ post"
  have v: "length (hl_vault l) = 32" and n: "length (hl_entries l) = 32"
    using assms by (simp_all add: hold_ledger_wf_def HOLD_LEDGER_CAPACITY_def)
  have rest: "drop 48 data = concat (map hold_entry_image (hl_entries l)) @ post"
    by (simp add: data_def hold_ledger_image_def v)
  have "length (concat (map hold_entry_image (hl_entries l))) = 2048"
    using assms n length_concat_slots [of "hl_entries l" hold_entry_image 64] by (simp add: hold_ledger_wf_def length_images)
  then have long: "2096 \<le> length data" by (simp add: data_def hold_ledger_image_def v)
  have slot: "hold_slot pk data i = Inr (hold_entry_view pk (hl_entries l ! i))" if "i < 32" for i
    using assms that n long packed_at [OF rest, of 64 i]
    by (intro hold_slot_image) (auto simp: hold_ledger_wf_def length_images)
  have reads: "requireDisc data HOLD_LEDGER_DISCRIMINATOR ''Hold ledger'' = Inr ()" "needLen data 2096 ''Hold ledger'' = Inr ()"
      "readUIntLE 4 data 40 = Inr (int (unat (hl_total l)))" "readUIntLE 2 data 44 = Inr (int (unat (hl_head l)))"
      "readUIntLE 1 data 46 = Inr (int (unat (hl_bump l)))" "slice data 8 40 = hl_vault l"
    using long v by (simp_all add: node_read_inside needLen_def slice_def del: of_nat_unat)
      (simp_all add: data_def hold_ledger_image_def requireDisc_def del: of_nat_unat)
  have "traverse (hold_slot pk data) (map f [0..<k]) = Inr (map (\<lambda>i. hold_entry_view pk (hl_entries l ! f i)) [0..<k])"
    if "\<And>i. f i < 32" for f k
    using traverse_Inr [of "map f [0..<k]" "hold_slot pk data" "\<lambda>i. hold_entry_view pk (hl_entries l ! i)"] slot that
    by (auto simp: comp_def)
  then show ?thesis
    unfolding data_def [symmetric] decodeHoldLedger_def reads andThen_Inr Let_def
    by (simp add: oldest_first_def Let_def HOLD_LEDGER_CAPACITY_def reads del: of_nat_unat)
qed

interpretation hold_ring: ring_store HOLD_LEDGER_CAPACITY 4294967295 hl_entries "\<lambda>l. unat (hl_head l)"
  "\<lambda>l. unat (hl_total l)" hold_record
proof unfold_locales
  show "0 < HOLD_LEDGER_CAPACITY" "HOLD_LEDGER_CAPACITY \<le> 4294967295" by (simp_all add: HOLD_LEDGER_CAPACITY_def)
  fix l e
  show "hl_entries (hold_record l e) = (hl_entries l)[unat (hl_head l) mod HOLD_LEDGER_CAPACITY := e]"
    by (simp add: hold_record_def Let_def)
  show "unat (hl_head (hold_record l e)) = (unat (hl_head l) mod HOLD_LEDGER_CAPACITY + 1) mod HOLD_LEDGER_CAPACITY"
    by (simp add: hold_record_def Let_def HOLD_LEDGER_CAPACITY_def unat_of_nat)
  show "unat (hl_total (hold_record l e)) = min 4294967295 (unat (hl_total l) + 1)"
    by (simp add: hold_record_def Let_def unat_saturating_add32)
qed


lemma hold_ledger_wf_record: "hold_ledger_wf l \<Longrightarrow> hold_entry_wf e \<Longrightarrow> hold_ledger_wf (hold_record l e)"
  using set_update_subset_insert [of "hl_entries l"] by (fastforce simp: hold_ledger_wf_def hold_record_def Let_def)

lemma hold_ledger_wf_records:
  "hold_ledger_wf l \<Longrightarrow> (\<And>e. e \<in> set es \<Longrightarrow> hold_entry_wf e) \<Longrightarrow> hold_ledger_wf (foldl hold_record l es)"
  by (induction es arbitrary: l) (simp_all add: hold_ledger_wf_record)

text \<open>What the SDK shows of a Hold vault is what the program stored. The vault decodes to its owner's
  rules, remembered accounts, waiting withdrawals and hourly buckets; and after any sequence of
  records on a new ledger the decoded entries are the last 32 of them, oldest first.\<close>

theorem hold_decoders_read_program_accounts:
  assumes "vault_wf v" "hold_ledger_wf l" "hold_ring.fresh l" "\<forall>e \<in> set es. hold_entry_wf e"
  shows "decodeHoldVault pk (vault_image v @ post) address = Inr (hold_view pk address v) \<and>
    (\<exists>a. decodeHoldLedger pk (hold_ledger_image (foldl hold_record l es) @ post) address = Inr a \<and>
       hla_entries a = map (hold_entry_view pk) (drop (length es - HOLD_LEDGER_CAPACITY) es))"
proof -
  have "hold_ledger_wf (foldl hold_record l es)" using assms(2,4) by (simp add: hold_ledger_wf_records)
  moreover have "oldest_first HOLD_LEDGER_CAPACITY (hl_entries (foldl hold_record l es))
      (unat (hl_total (foldl hold_record l es))) (unat (hl_head (foldl hold_record l es))) =
      drop (length es - HOLD_LEDGER_CAPACITY) es"
    using hold_ring.window_puts [OF assms(3), of es] by (simp add: hold_ring.window_def)
  ultimately show ?thesis
    using decodeHoldVault_image [OF assms(1)] decodeHoldLedger_image [of "foldl hold_record l es" pk post address] by simp
qed


end
