(* ===== verification/Trade_Decode.thy ===== *)
theory Trade_Decode
  imports Hold_Decode Mandate_Decode
begin

text \<open>
  Trade rules as the SDK reads them (\<^verbatim>\<open>sdk/src/layout.ts\<close>: \<open>decodeTradeRule\<close>,
  \<open>decodeTradeLedger\<close>) against the accounts the program stores
  (\<^verbatim>\<open>programs/veto/src/trade_state.rs\<close>). The trade ledger is the third instance of the bounded ring.
\<close>

section \<open>The program's accounts\<close>

record TradeRule =
  tr_owner :: pubkey
  tr_agent :: pubkey
  tr_source :: pubkey
  tr_destination :: pubkey
  tr_in_mint :: pubkey
  tr_out_mint :: pubkey
  tr_exchange_program :: pubkey
  tr_exchange_kind :: u8
  tr_pool :: pubkey
  tr_pool_authority :: pubkey
  tr_pool_in_vault :: pubkey
  tr_pool_out_vault :: pubkey
  tr_pool_mint :: pubkey
  tr_pool_fee_account :: pubkey
  tr_rule_id :: u64
  tr_cap :: u64
  tr_spent :: u64
  tr_per_trade_max :: u64
  tr_daily_limit :: u64
  tr_daily_buckets :: "TradeBucket list"
  tr_floor_num :: u64
  tr_floor_den :: u64
  tr_expires_at :: int
  tr_override_amount :: u64
  tr_override_nonce :: u64
  tr_last_nonce :: u64
  tr_purpose :: bytes
  tr_status :: u8
  tr_trade_count :: u32
  tr_refusal_count :: u32
  tr_bump :: u8

record TradeEntry =
  te_ts :: int
  te_amount_in :: u64
  te_amount_out :: u64
  te_min_out :: u64
  te_counterparty :: pubkey
  te_nonce :: u64
  te_suggested_override :: u64
  te_kind :: u8
  te_reason :: u8

record TradeLedger =
  tl_rule :: pubkey
  tl_total :: u32
  tl_head :: "16 word"
  tl_bump :: u8
  tl_entries :: "TradeEntry list"

definition TRADE_LEDGER_CAPACITY :: nat where "TRADE_LEDGER_CAPACITY = 32"

definition trade_record :: "TradeLedger \<Rightarrow> TradeEntry \<Rightarrow> TradeLedger" where
  "trade_record l e =
     (let slot = unat (tl_head l) mod TRADE_LEDGER_CAPACITY
      in l\<lparr>tl_entries := (tl_entries l)[slot := e],
           tl_head := of_nat ((slot + 1) mod TRADE_LEDGER_CAPACITY),
           tl_total := saturating_add32 (tl_total l) 1\<rparr>)"

section \<open>The SDK's decoders\<close>

definition TRADE_RULE_DISCRIMINATOR :: bytes where
  "TRADE_RULE_DISCRIMINATOR = [71, 199, 163, 41, 101, 116, 241, 212]"

definition TRADE_LEDGER_DISCRIMINATOR :: bytes where
  "TRADE_LEDGER_DISCRIMINATOR = [200, 191, 201, 165, 93, 179, 79, 190]"

lemma length_trade_disc [simp]: "length TRADE_RULE_DISCRIMINATOR = 8" "length TRADE_LEDGER_DISCRIMINATOR = 8"
  by (simp_all add: TRADE_RULE_DISCRIMINATOR_def TRADE_LEDGER_DISCRIMINATOR_def)

record 'k TradeRuleAccount =
  ta_owner :: 'k
  ta_agent :: 'k
  ta_source :: 'k
  ta_destination :: 'k
  ta_inMint :: 'k
  ta_outMint :: 'k
  ta_exchangeProgram :: 'k
  ta_exchangeKind :: int
  ta_pool :: 'k
  ta_poolAuthority :: 'k
  ta_poolInVault :: 'k
  ta_poolOutVault :: 'k
  ta_poolMint :: 'k
  ta_poolFeeAccount :: 'k
  ta_ruleId :: int
  ta_cap :: int
  ta_spent :: int
  ta_perTradeMax :: int
  ta_dailyLimit :: int
  ta_dailyBuckets :: "(int \<times> int) list"
  ta_floorNum :: int
  ta_floorDen :: int
  ta_expiresAt :: int
  ta_overrideAmount :: int
  ta_overrideNonce :: int
  ta_lastNonce :: int
  ta_purpose :: string
  ta_status :: int
  ta_tradeCount :: int
  ta_refusalCount :: int
  ta_bump :: int

record 'k TradeLedgerEntry =
  tle_ts :: int
  tle_amountIn :: int
  tle_amountOut :: int
  tle_minOut :: int
  tle_counterparty :: 'k
  tle_nonce :: int
  tle_suggestedOverride :: int
  tle_kind :: int
  tle_reason :: int

record 'k TradeLedgerAccount =
  tla_rule :: 'k
  tla_total :: int
  tla_head :: int
  tla_bump :: int
  tla_entries :: "'k TradeLedgerEntry list"

primrec read_buckets :: "nat \<Rightarrow> bytes \<Rightarrow> nat \<Rightarrow> ((int \<times> int) list \<times> nat) result" where
  "read_buckets 0 data p = Inr ([], p)"
| "read_buckets (Suc n) data p =
     andThen (readI64 data p ''bucket hour'') (\<lambda>(hour, p).
     andThen (readU64 data p ''bucket amount'') (\<lambda>(amount, p).
     andThen (read_buckets n data p) (\<lambda>(rest, p). Inr ((hour, amount) # rest, p))))"

definition decodeTradeRule :: "(bytes \<Rightarrow> 'k) \<Rightarrow> (bytes \<Rightarrow> string) \<Rightarrow> bytes \<Rightarrow> 'k TradeRuleAccount result" where
  "decodeTradeRule pk utf8 data =
     andThen (requireDisc data TRADE_RULE_DISCRIMINATOR ''TradeRule'') (\<lambda>_.
     andThen (readPubkey pk data 8 ''owner'') (\<lambda>(owner, p).
     andThen (readPubkey pk data p ''agent'') (\<lambda>(agent, p).
     andThen (readPubkey pk data p ''source'') (\<lambda>(source, p).
     andThen (readPubkey pk data p ''destination'') (\<lambda>(destination, p).
     andThen (readPubkey pk data p ''in_mint'') (\<lambda>(inMint, p).
     andThen (readPubkey pk data p ''out_mint'') (\<lambda>(outMint, p).
     andThen (readPubkey pk data p ''exchange_program'') (\<lambda>(exchangeProgram, p).
     andThen (readU8 data p ''exchange_kind'') (\<lambda>(exchangeKind, p).
     andThen (readPubkey pk data p ''pool'') (\<lambda>(pool, p).
     andThen (readPubkey pk data p ''pool_authority'') (\<lambda>(poolAuthority, p).
     andThen (readPubkey pk data p ''pool_in_vault'') (\<lambda>(poolInVault, p).
     andThen (readPubkey pk data p ''pool_out_vault'') (\<lambda>(poolOutVault, p).
     andThen (readPubkey pk data p ''pool_mint'') (\<lambda>(poolMint, p).
     andThen (readPubkey pk data p ''pool_fee_account'') (\<lambda>(poolFeeAccount, p).
     andThen (readU64 data p ''rule_id'') (\<lambda>(ruleId, p).
     andThen (readU64 data p ''cap'') (\<lambda>(cap, p).
     andThen (readU64 data p ''spent'') (\<lambda>(spent, p).
     andThen (readU64 data p ''per_trade_max'') (\<lambda>(perTradeMax, p).
     andThen (readU64 data p ''daily_limit'') (\<lambda>(dailyLimit, p).
     andThen (read_buckets 25 data p) (\<lambda>(dailyBuckets, p).
     andThen (readU64 data p ''floor_num'') (\<lambda>(floorNum, p).
     andThen (readU64 data p ''floor_den'') (\<lambda>(floorDen, p).
     andThen (readI64 data p ''expires_at'') (\<lambda>(expiresAt, p).
     andThen (readU64 data p ''override_amount'') (\<lambda>(overrideAmount, p).
     andThen (readU64 data p ''override_nonce'') (\<lambda>(overrideNonce, p).
     andThen (readU64 data p ''last_nonce'') (\<lambda>(lastNonce, p).
     andThen (readString utf8 data p) (\<lambda>(purpose, p).
     andThen (readU8 data p ''status'') (\<lambda>(status, p).
     andThen (readU32 data p ''trade_count'') (\<lambda>(tradeCount, p).
     andThen (readU32 data p ''refusal_count'') (\<lambda>(refusalCount, p).
     andThen (readU8 data p ''bump'') (\<lambda>(bump, p).
       Inr \<lparr>ta_owner = owner, ta_agent = agent, ta_source = source, ta_destination = destination, ta_inMint = inMint,
            ta_outMint = outMint, ta_exchangeProgram = exchangeProgram, ta_exchangeKind = exchangeKind, ta_pool = pool,
            ta_poolAuthority = poolAuthority, ta_poolInVault = poolInVault, ta_poolOutVault = poolOutVault,
            ta_poolMint = poolMint, ta_poolFeeAccount = poolFeeAccount, ta_ruleId = ruleId, ta_cap = cap,
            ta_spent = spent, ta_perTradeMax = perTradeMax, ta_dailyLimit = dailyLimit, ta_dailyBuckets = dailyBuckets,
            ta_floorNum = floorNum, ta_floorDen = floorDen, ta_expiresAt = expiresAt, ta_overrideAmount = overrideAmount,
            ta_overrideNonce = overrideNonce, ta_lastNonce = lastNonce, ta_purpose = purpose, ta_status = status,
            ta_tradeCount = tradeCount, ta_refusalCount = refusalCount, ta_bump = bump\<rparr>))))))))))))))))))))))))))))))))"

definition decodeTradeEntry :: "(bytes \<Rightarrow> 'k) \<Rightarrow> bytes \<Rightarrow> nat \<Rightarrow> 'k TradeLedgerEntry result" where
  "decodeTradeEntry pk data off =
     andThen (need data off 88 ''trade ledger entry'') (\<lambda>_.
     andThen (readIntLE64 data off) (\<lambda>ts.
     andThen (readUIntLE 8 data (off + 8)) (\<lambda>amountIn.
     andThen (readUIntLE 8 data (off + 16)) (\<lambda>amountOut.
     andThen (readUIntLE 8 data (off + 24)) (\<lambda>minOut.
     andThen (readUIntLE 8 data (off + 64)) (\<lambda>nonce.
     andThen (readUIntLE 8 data (off + 72)) (\<lambda>suggestedOverride.
     andThen (readUIntLE 1 data (off + 80)) (\<lambda>kind.
     andThen (readUIntLE 1 data (off + 81)) (\<lambda>reason.
       Inr \<lparr>tle_ts = ts, tle_amountIn = amountIn, tle_amountOut = amountOut, tle_minOut = minOut,
            tle_counterparty = pk (slice data (off + 32) (off + 64)), tle_nonce = nonce,
            tle_suggestedOverride = suggestedOverride, tle_kind = kind, tle_reason = reason\<rparr>)))))))))"

definition decodeTradeLedger :: "(bytes \<Rightarrow> 'k) \<Rightarrow> bytes \<Rightarrow> 'k TradeLedgerAccount result" where
  "decodeTradeLedger pk data =
     andThen (requireDisc data TRADE_LEDGER_DISCRIMINATOR ''TradeLedger'') (\<lambda>_.
       let least = 8 + 40 + TRADE_LEDGER_CAPACITY * 88 in
       if length data < least
       then Inl (Error (''TradeLedger account is '' @ nat_str (length data) @ '' bytes, need '' @ nat_str least))
       else
         andThen (readUIntLE 4 data 40) (\<lambda>tot.
         andThen (readUIntLE 2 data 44) (\<lambda>head.
           let alive = min (nat tot) TRADE_LEDGER_CAPACITY;
               start = (if tot \<ge> int TRADE_LEDGER_CAPACITY then nat head mod TRADE_LEDGER_CAPACITY else 0)
           in andThen (traverse (\<lambda>n. decodeTradeEntry pk data (48 + (start + n) mod TRADE_LEDGER_CAPACITY * 88)) [0..<alive]) (\<lambda>entries.
              andThen (readUIntLE 1 data 46) (\<lambda>bump.
                Inr \<lparr>tla_rule = pk (slice data 8 40), tla_total = tot, tla_head = head, tla_bump = bump,
                     tla_entries = entries\<rparr>)))))"


section \<open>The bytes the program stores\<close>

definition trade_rule_image :: "TradeRule \<Rightarrow> bytes" where
  "trade_rule_image r =
     TRADE_RULE_DISCRIMINATOR @ tr_owner r @ tr_agent r @ tr_source r @ tr_destination r @ tr_in_mint r @ tr_out_mint r @
     tr_exchange_program r @ [tr_exchange_kind r] @ tr_pool r @ tr_pool_authority r @ tr_pool_in_vault r @
     tr_pool_out_vault r @ tr_pool_mint r @ tr_pool_fee_account r @
     le_bytes 8 (unat (tr_rule_id r)) @ le_bytes 8 (unat (tr_cap r)) @ le_bytes 8 (unat (tr_spent r)) @
     le_bytes 8 (unat (tr_per_trade_max r)) @ le_bytes 8 (unat (tr_daily_limit r)) @
     concat (map bucket_image (tr_daily_buckets r)) @ le_bytes 8 (unat (tr_floor_num r)) @ le_bytes 8 (unat (tr_floor_den r)) @
     le_bytes 8 (i64_nat (tr_expires_at r)) @ le_bytes 8 (unat (tr_override_amount r)) @
     le_bytes 8 (unat (tr_override_nonce r)) @ le_bytes 8 (unat (tr_last_nonce r)) @ string_image (tr_purpose r) @
     [tr_status r] @ le_bytes 4 (unat (tr_trade_count r)) @ le_bytes 4 (unat (tr_refusal_count r)) @ [tr_bump r]"

definition trade_rule_wf :: "TradeRule \<Rightarrow> bool" where
  "trade_rule_wf r \<longleftrightarrow>
     (\<forall>k \<in> {tr_owner r, tr_agent r, tr_source r, tr_destination r, tr_in_mint r, tr_out_mint r, tr_exchange_program r,
        tr_pool r, tr_pool_authority r, tr_pool_in_vault r, tr_pool_out_vault r, tr_pool_mint r, tr_pool_fee_account r}.
        length k = 32) \<and>
     length (tr_daily_buckets r) = 25 \<and> (\<forall>b \<in> set (tr_daily_buckets r). i64_ok (b_hour b)) \<and>
     i64_ok (tr_expires_at r) \<and> length (tr_purpose r) \<le> 64"

definition trade_entry_image :: "TradeEntry \<Rightarrow> bytes" where
  "trade_entry_image e =
     le_bytes 8 (i64_nat (te_ts e)) @ le_bytes 8 (unat (te_amount_in e)) @ le_bytes 8 (unat (te_amount_out e)) @
     le_bytes 8 (unat (te_min_out e)) @ te_counterparty e @ le_bytes 8 (unat (te_nonce e)) @
     le_bytes 8 (unat (te_suggested_override e)) @ [te_kind e, te_reason e] @ replicate 6 0"

definition trade_ledger_image :: "TradeLedger \<Rightarrow> bytes" where
  "trade_ledger_image l =
     TRADE_LEDGER_DISCRIMINATOR @ tl_rule l @ le_bytes 4 (unat (tl_total l)) @ le_bytes 2 (unat (tl_head l)) @
     [tl_bump l, 0] @ concat (map trade_entry_image (tl_entries l))"

definition trade_entry_wf :: "TradeEntry \<Rightarrow> bool" where
  "trade_entry_wf e \<longleftrightarrow> length (te_counterparty e) = 32 \<and> i64_ok (te_ts e)"

definition trade_ledger_wf :: "TradeLedger \<Rightarrow> bool" where
  "trade_ledger_wf l \<longleftrightarrow> length (tl_rule l) = 32 \<and> length (tl_entries l) = TRADE_LEDGER_CAPACITY \<and>
     (\<forall>e \<in> set (tl_entries l). trade_entry_wf e)"

definition bucket_view :: "TradeBucket \<Rightarrow> int \<times> int" where
  "bucket_view b = (b_hour b, int (unat (b_amount b)))"

definition trade_rule_view :: "(bytes \<Rightarrow> 'k) \<Rightarrow> (bytes \<Rightarrow> string) \<Rightarrow> TradeRule \<Rightarrow> 'k TradeRuleAccount" where
  "trade_rule_view pk utf8 r =
     \<lparr>ta_owner = pk (tr_owner r), ta_agent = pk (tr_agent r), ta_source = pk (tr_source r),
      ta_destination = pk (tr_destination r), ta_inMint = pk (tr_in_mint r), ta_outMint = pk (tr_out_mint r),
      ta_exchangeProgram = pk (tr_exchange_program r), ta_exchangeKind = int (unat (tr_exchange_kind r)),
      ta_pool = pk (tr_pool r), ta_poolAuthority = pk (tr_pool_authority r), ta_poolInVault = pk (tr_pool_in_vault r),
      ta_poolOutVault = pk (tr_pool_out_vault r), ta_poolMint = pk (tr_pool_mint r),
      ta_poolFeeAccount = pk (tr_pool_fee_account r), ta_ruleId = int (unat (tr_rule_id r)), ta_cap = int (unat (tr_cap r)),
      ta_spent = int (unat (tr_spent r)), ta_perTradeMax = int (unat (tr_per_trade_max r)),
      ta_dailyLimit = int (unat (tr_daily_limit r)), ta_dailyBuckets = map bucket_view (tr_daily_buckets r),
      ta_floorNum = int (unat (tr_floor_num r)), ta_floorDen = int (unat (tr_floor_den r)), ta_expiresAt = tr_expires_at r,
      ta_overrideAmount = int (unat (tr_override_amount r)), ta_overrideNonce = int (unat (tr_override_nonce r)),
      ta_lastNonce = int (unat (tr_last_nonce r)), ta_purpose = utf8 (tr_purpose r), ta_status = int (unat (tr_status r)),
      ta_tradeCount = int (unat (tr_trade_count r)), ta_refusalCount = int (unat (tr_refusal_count r)),
      ta_bump = int (unat (tr_bump r))\<rparr>"

definition trade_entry_view :: "(bytes \<Rightarrow> 'k) \<Rightarrow> TradeEntry \<Rightarrow> 'k TradeLedgerEntry" where
  "trade_entry_view pk e =
     \<lparr>tle_ts = te_ts e, tle_amountIn = int (unat (te_amount_in e)), tle_amountOut = int (unat (te_amount_out e)),
      tle_minOut = int (unat (te_min_out e)), tle_counterparty = pk (te_counterparty e), tle_nonce = int (unat (te_nonce e)),
      tle_suggestedOverride = int (unat (te_suggested_override e)), tle_kind = int (unat (te_kind e)),
      tle_reason = int (unat (te_reason e))\<rparr>"

section \<open>Reading the accounts\<close>

lemma read_buckets_image:
  assumes "\<And>b. b \<in> set bs \<Longrightarrow> i64_ok (b_hour b)"
  shows "read_buckets (length bs) (pre @ concat (map bucket_image bs) @ post) (length pre) =
    Inr (map bucket_view bs, length pre + length (concat (map bucket_image bs)))"
  using assms
proof (induction bs arbitrary: pre)
  case (Cons b bs)
  let ?h = "le_bytes 8 (i64_nat (b_hour b))" and ?a = "le_bytes 8 (unat (b_amount b))"
  let ?rest = "concat (map bucket_image bs) @ post"
  have h: "- (2 ^ 63) \<le> b_hour b \<and> b_hour b < 2 ^ 63" using Cons.prems by (simp add: i64_ok_def)
  have image: "pre @ concat (map bucket_image (b # bs)) @ post = pre @ ?h @ ?a @ ?rest" by (simp add: bucket_image_def)
  have hour: "readI64 (pre @ ?h @ ?a @ ?rest) (length pre) w = Inr (b_hour b, length pre + 8)" for w
    using i64_codec.read_image [where pre = pre and post = "?a @ ?rest" and what = w, OF h] by simp
  have amount: "readU64 (pre @ ?h @ ?a @ ?rest) (length pre + 8) w = Inr (int (unat (b_amount b)), length pre + 16)" for w
    using u64_codec.read_image [where x = "b_amount b" and pre = "pre @ ?h" and post = ?rest and what = w] by (simp add: add.assoc)
  have rest: "read_buckets (length bs) (pre @ ?h @ ?a @ ?rest) (length pre + 16) =
      Inr (map bucket_view bs, length pre + 16 + length (concat (map bucket_image bs)))"
    using Cons.IH [of "pre @ ?h @ ?a"] Cons.prems by (simp add: add.assoc)
  show ?case
    unfolding image list.size(4) add_Suc_right add_0_right read_buckets.simps
    by (simp only: hour amount rest andThen_Inr prod.case) (simp add: bucket_view_def length_images)
qed simp

interpretation bucket_codec: le_codec "\<lambda>bs. concat (map bucket_image bs)" "\<lambda>data p what. read_buckets 25 data p"
  "map bucket_view" "\<lambda>bs. length bs = 25 \<and> (\<forall>b \<in> set bs. i64_ok (b_hour b))"
  by unfold_locales (metis read_buckets_image)

lemma decodeTradeRule_image:
  assumes "trade_rule_wf r"
  shows "decodeTradeRule pk utf8 (trade_rule_image r @ post) = Inr (trade_rule_view pk utf8 r)"
proof -
  define data where "data = trade_rule_image r @ post"
  have wf: "length (tr_owner r) = 32" "length (tr_agent r) = 32" "length (tr_source r) = 32" "length (tr_destination r) = 32"
      "length (tr_in_mint r) = 32" "length (tr_out_mint r) = 32" "length (tr_exchange_program r) = 32"
      "length (tr_pool r) = 32" "length (tr_pool_authority r) = 32" "length (tr_pool_in_vault r) = 32"
      "length (tr_pool_out_vault r) = 32" "length (tr_pool_mint r) = 32" "length (tr_pool_fee_account r) = 32"
      "length (tr_daily_buckets r) = 25 \<and> (\<forall>b \<in> set (tr_daily_buckets r). i64_ok (b_hour b))"
      "- (2 ^ 63) \<le> tr_expires_at r \<and> tr_expires_at r < 2 ^ 63" "length (tr_purpose r) \<le> 64"
    using assms by (simp_all add: trade_rule_wf_def i64_ok_def)
  have disc: "requireDisc data TRADE_RULE_DISCRIMINATOR ''TradeRule'' = Inr ()"
    by (simp add: data_def trade_rule_image_def requireDisc_def)
  have rest: "drop 8 data = tr_owner r @ tr_agent r @ tr_source r @ tr_destination r @ tr_in_mint r @ tr_out_mint r @
     tr_exchange_program r @ [tr_exchange_kind r] @ tr_pool r @ tr_pool_authority r @ tr_pool_in_vault r @
     tr_pool_out_vault r @ tr_pool_mint r @ tr_pool_fee_account r @
     le_bytes 8 (unat (tr_rule_id r)) @ le_bytes 8 (unat (tr_cap r)) @ le_bytes 8 (unat (tr_spent r)) @
     le_bytes 8 (unat (tr_per_trade_max r)) @ le_bytes 8 (unat (tr_daily_limit r)) @
     concat (map bucket_image (tr_daily_buckets r)) @ le_bytes 8 (unat (tr_floor_num r)) @ le_bytes 8 (unat (tr_floor_den r)) @
     le_bytes 8 (i64_nat (tr_expires_at r)) @ le_bytes 8 (unat (tr_override_amount r)) @
     le_bytes 8 (unat (tr_override_nonce r)) @ le_bytes 8 (unat (tr_last_nonce r)) @ string_image (tr_purpose r) @
     [tr_status r] @ le_bytes 4 (unat (tr_trade_count r)) @ le_bytes 4 (unat (tr_refusal_count r)) @ [tr_bump r] @ post"
    "8 \<le> length data"
    by (simp_all add: data_def trade_rule_image_def)
  show ?thesis
    unfolding decodeTradeRule_def trade_rule_view_def data_def [symmetric] disc andThen_Inr
    using rest by - ((rule codec_steps bucket_codec.read_step, assumption, assumption, rule wf TrueI)+, simp only:)
qed

lemma decodeTradeEntry_image:
  assumes "take 88 (drop off data) = trade_entry_image e" "trade_entry_wf e" "off + 88 \<le> length data"
  shows "decodeTradeEntry pk data off = Inr (trade_entry_view pk e)"
proof -
  have d: "length (te_counterparty e) = 32" and u: "i64_val (i64_nat (te_ts e)) = te_ts e"
    using assms(2) by (simp_all add: trade_entry_wf_def i64_read)
  have f: "take 8 (drop off data) = le_bytes 8 (i64_nat (te_ts e))"
      "take 8 (drop (off + 8) data) = le_bytes 8 (unat (te_amount_in e))"
      "take 8 (drop (off + 16) data) = le_bytes 8 (unat (te_amount_out e))"
      "take 8 (drop (off + 24) data) = le_bytes 8 (unat (te_min_out e))" "take 32 (drop (off + 32) data) = te_counterparty e"
      "take 8 (drop (off + 64) data) = le_bytes 8 (unat (te_nonce e))"
      "take 8 (drop (off + 72) data) = le_bytes 8 (unat (te_suggested_override e))"
      "take 1 (drop (off + 80) data) = [te_kind e]" "take 1 (drop (off + 81) data) = [te_reason e]"
    using slot_read [OF assms(1), of 0 8] slot_read [OF assms(1), of 8 8] slot_read [OF assms(1), of 16 8]
      slot_read [OF assms(1), of 24 8] slot_read [OF assms(1), of 32 32] slot_read [OF assms(1), of 64 8]
      slot_read [OF assms(1), of 72 8] slot_read [OF assms(1), of 80 1] slot_read [OF assms(1), of 81 1] d
    by (simp_all add: trade_entry_image_def)
  show ?thesis
    using read_known(2) [OF f(1)] read_known(1) [OF f(2)] read_known(1) [OF f(3)] read_known(1) [OF f(4)]
      slice_known [OF f(5)] read_known(1) [OF f(6)] read_known(1) [OF f(7)] read_known(1) [OF f(8)]
      read_known(1) [OF f(9)] assms(3) u
    by (simp add: decodeTradeEntry_def need_def trade_entry_view_def add.commute del: of_nat_unat)
qed


lemma length_trade_entry [layout_simps]: "trade_entry_wf e \<Longrightarrow> length (trade_entry_image e) = 88"
  by (simp add: trade_entry_image_def trade_entry_wf_def)

lemma decodeTradeLedger_image:
  assumes "trade_ledger_wf l"
  shows "decodeTradeLedger pk (trade_ledger_image l @ post) =
    Inr \<lparr>tla_rule = pk (tl_rule l), tla_total = int (unat (tl_total l)), tla_head = int (unat (tl_head l)),
         tla_bump = int (unat (tl_bump l)), tla_entries = map (trade_entry_view pk)
           (oldest_first TRADE_LEDGER_CAPACITY (tl_entries l) (unat (tl_total l)) (unat (tl_head l)))\<rparr>"
proof -
  define data where "data = trade_ledger_image l @ post"
  have v: "length (tl_rule l) = 32" and n: "length (tl_entries l) = 32"
    using assms by (simp_all add: trade_ledger_wf_def TRADE_LEDGER_CAPACITY_def)
  have rest: "drop 48 data = concat (map trade_entry_image (tl_entries l)) @ post"
    by (simp add: data_def trade_ledger_image_def v)
  have "length (concat (map trade_entry_image (tl_entries l))) = 2816"
    using assms n length_concat_slots [of "tl_entries l" trade_entry_image 88]
    by (simp add: trade_ledger_wf_def length_trade_entry)
  then have long: "2864 \<le> length data" by (simp add: data_def trade_ledger_image_def v)
  have slot: "decodeTradeEntry pk data (48 + i * 88) = Inr (trade_entry_view pk (tl_entries l ! i))" if "i < 32" for i
    using assms that n long packed_at [OF rest, of 88 i]
    by (intro decodeTradeEntry_image) (auto simp: trade_ledger_wf_def length_trade_entry)
  have reads: "requireDisc data TRADE_LEDGER_DISCRIMINATOR ''TradeLedger'' = Inr ()"
      "readUIntLE 4 data 40 = Inr (int (unat (tl_total l)))" "readUIntLE 2 data 44 = Inr (int (unat (tl_head l)))"
      "readUIntLE 1 data 46 = Inr (int (unat (tl_bump l)))" "slice data 8 40 = tl_rule l"
    using long v by (simp_all add: node_read_inside slice_def del: of_nat_unat)
      (simp_all add: data_def trade_ledger_image_def requireDisc_def del: of_nat_unat)
  have "traverse (\<lambda>n. decodeTradeEntry pk data (48 + f n * 88)) [0..<k] =
      Inr (map (\<lambda>i. trade_entry_view pk (tl_entries l ! f i)) [0..<k])" if "\<And>i. f i < 32" for f k
    by (rule traverse_Inr) (rule slot, rule that)
  then show ?thesis
    unfolding data_def [symmetric] decodeTradeLedger_def reads andThen_Inr Let_def
    using long by (simp add: oldest_first_def Let_def TRADE_LEDGER_CAPACITY_def reads del: of_nat_unat)
qed

interpretation trade_ring: ring_store TRADE_LEDGER_CAPACITY 4294967295 tl_entries "\<lambda>l. unat (tl_head l)"
  "\<lambda>l. unat (tl_total l)" trade_record
proof unfold_locales
  show "0 < TRADE_LEDGER_CAPACITY" "TRADE_LEDGER_CAPACITY \<le> 4294967295" by (simp_all add: TRADE_LEDGER_CAPACITY_def)
  fix l e
  show "tl_entries (trade_record l e) = (tl_entries l)[unat (tl_head l) mod TRADE_LEDGER_CAPACITY := e]"
    by (simp add: trade_record_def Let_def)
  show "unat (tl_head (trade_record l e)) = (unat (tl_head l) mod TRADE_LEDGER_CAPACITY + 1) mod TRADE_LEDGER_CAPACITY"
    by (simp add: trade_record_def Let_def TRADE_LEDGER_CAPACITY_def unat_of_nat)
  show "unat (tl_total (trade_record l e)) = min 4294967295 (unat (tl_total l) + 1)"
    by (simp add: trade_record_def Let_def unat_saturating_add32)
qed

lemma trade_ledger_wf_records:
  "trade_ledger_wf l \<Longrightarrow> (\<And>e. e \<in> set es \<Longrightarrow> trade_entry_wf e) \<Longrightarrow> trade_ledger_wf (foldl trade_record l es)"
proof (induction es arbitrary: l)
  case (Cons e es)
  have "trade_ledger_wf (trade_record l e)"
    using Cons.prems set_update_subset_insert [of "tl_entries l"]
    by (fastforce simp: trade_ledger_wf_def trade_record_def Let_def)
  then show ?case using Cons by simp
qed simp

text \<open>The SDK reads trade accounts as the program stored them. The trade rule decodes to every field
  the program keeps, in order; and after any sequence of records on a new ledger the decoded
  entries are the last 32 of them, oldest first.\<close>

theorem trade_decoders_read_program_accounts:
  assumes "trade_rule_wf r" "trade_ledger_wf l" "trade_ring.fresh l" "\<forall>e \<in> set es. trade_entry_wf e"
  shows "decodeTradeRule pk utf8 (trade_rule_image r @ post) = Inr (trade_rule_view pk utf8 r) \<and>
    (\<exists>a. decodeTradeLedger pk (trade_ledger_image (foldl trade_record l es) @ post) = Inr a \<and>
       tla_entries a = map (trade_entry_view pk) (drop (length es - TRADE_LEDGER_CAPACITY) es))"
proof -
  have "trade_ledger_wf (foldl trade_record l es)" using assms(2,4) by (simp add: trade_ledger_wf_records)
  moreover have "oldest_first TRADE_LEDGER_CAPACITY (tl_entries (foldl trade_record l es))
      (unat (tl_total (foldl trade_record l es))) (unat (tl_head (foldl trade_record l es))) =
      drop (length es - TRADE_LEDGER_CAPACITY) es"
    using trade_ring.window_puts [OF assms(3), of es] by (simp add: trade_ring.window_def)
  ultimately show ?thesis
    using decodeTradeRule_image [OF assms(1)] decodeTradeLedger_image [of "foldl trade_record l es" pk post] by simp
qed

definition demo_trade_rule :: TradeRule where
  "demo_trade_rule =
     \<lparr>tr_owner = demo_key 1, tr_agent = demo_key 2, tr_source = demo_key 3, tr_destination = demo_key 4,
      tr_in_mint = demo_key 5, tr_out_mint = demo_key 6, tr_exchange_program = demo_key 7, tr_exchange_kind = 0,
      tr_pool = demo_key 8, tr_pool_authority = demo_key 9, tr_pool_in_vault = demo_key 10, tr_pool_out_vault = demo_key 11,
      tr_pool_mint = demo_key 12, tr_pool_fee_account = demo_key 13, tr_rule_id = 1, tr_cap = 100, tr_spent = 40,
      tr_per_trade_max = 50, tr_daily_limit = 60, tr_daily_buckets = empty_buckets, tr_floor_num = 3, tr_floor_den = 2,
      tr_expires_at = 90000, tr_override_amount = 0, tr_override_nonce = 0, tr_last_nonce = 7, tr_purpose = [104, 105],
      tr_status = 0, tr_trade_count = 1, tr_refusal_count = 0, tr_bump = 255\<rparr>"

definition demo_trade_entry :: TradeEntry where
  "demo_trade_entry = \<lparr>te_ts = 5, te_amount_in = 40, te_amount_out = 80, te_min_out = 60, te_counterparty = demo_key 8,
     te_nonce = 7, te_suggested_override = 0, te_kind = 1, te_reason = 0\<rparr>"

definition demo_trade_ledger :: TradeLedger where
  "demo_trade_ledger = \<lparr>tl_rule = demo_key 20, tl_total = 0, tl_head = 0, tl_bump = 3,
     tl_entries = replicate 32 demo_trade_entry\<rparr>"


end
