(* ===== verification/Hold_Read.thy ===== *)
theory Hold_Read
  imports Hold_Decode
begin

text \<open>
  The phone app's own reading of Hold accounts (\<^verbatim>\<open>app/lib/holdRead.ts\<close>): byte loops with shifts
  and masks in place of the \<open>Buffer\<close> readers, the account decoders and the preview of a withdrawal.
  The theorems show that the app and the SDK never disagree about an account.
\<close>

section \<open>Byte loops\<close>

text \<open>\<open>data[i] ?? 0\<close>, and an assignment to a byte of the buffer, which does nothing past the end.\<close>

definition byteAt :: "bytes \<Rightarrow> nat \<Rightarrow> int" where
  "byteAt data i = (if i < length data then int (unat (data ! i)) else 0)"

definition app_readU64 :: "bytes \<Rightarrow> nat \<Rightarrow> int" where
  "app_readU64 data off = foldl (\<lambda>v i. v OR push_bit (8 * i) (byteAt data (off + i))) 0 [0..<8]"

definition app_readI64 :: "bytes \<Rightarrow> nat \<Rightarrow> int" where
  "app_readI64 data off =
     (let v = app_readU64 data off in if v \<ge> 0x8000000000000000 then v - 0x10000000000000000 else v)"

primrec write_bytes :: "nat \<Rightarrow> bytes \<Rightarrow> nat \<Rightarrow> int \<Rightarrow> bytes" where
  "write_bytes 0 data off rest = data"
| "write_bytes (Suc n) data off rest = write_bytes n (data[off := word_of_int (rest AND 255)]) (Suc off) (drop_bit 8 rest)"

definition app_writeU64 :: "bytes \<Rightarrow> nat \<Rightarrow> int \<Rightarrow> bytes" where
  "app_writeU64 data off v = write_bytes 8 data off v"

definition app_writeI64 :: "bytes \<Rightarrow> nat \<Rightarrow> int \<Rightarrow> bytes" where
  "app_writeI64 data off v = app_writeU64 data off (if v < 0 then v + 0x10000000000000000 else v)"

definition hold_u64le :: "int \<Rightarrow> bytes" where
  "hold_u64le v = app_writeU64 (replicate 8 0) 0 v"

definition sameBytes :: "bytes \<Rightarrow> bytes \<Rightarrow> bool" where
  "sameBytes left right = (length left = length right \<and> list_all (\<lambda>i. left ! i = right ! i) [0..<length left])"

definition app_requireDisc :: "bytes \<Rightarrow> bytes \<Rightarrow> string \<Rightarrow> unit result" where
  "app_requireDisc data expected what =
     (if length data < length expected \<or> \<not> sameBytes (slice data 0 (length expected)) expected
      then Inl (Error (what @ '' account discriminator mismatch'')) else Inr ())"

lemma sameBytes_eq: "sameBytes a b \<longleftrightarrow> a = b"
  using buffersEqual_iff [of a b] by (simp only: sameBytes_def buffersEqual_def)

lemma app_requireDisc_eq: "app_requireDisc = requireDisc"
  by (intro ext) (simp add: app_requireDisc_def requireDisc_def sameBytes_eq slice_def)

lemma le_val_snoc: "le_val (xs @ [b]) = le_val xs + 256 ^ length xs * unat b"
  by (induction xs) simp_all

lemma or_shift:
  fixes v b :: int
  assumes "0 \<le> v" "v < 2 ^ k"
  shows "v OR push_bit k b = v + b * 2 ^ k"
proof -
  have "v = take_bit k v" using assms by (simp add: take_bit_int_eq_self)
  then have "v AND push_bit k b = 0"
    by (intro bit_eqI) (metis bit_and_iff bit_push_bit_iff bit_take_bit_iff bit_0_eq bot_apply bot_bool_def not_less)
  then have "v + push_bit k b = v OR push_bit k b" by (rule disjunctive_add_eq_or)
  then show ?thesis by (simp add: push_bit_eq_mult)
qed

lemma app_readU64_prefix:
  assumes "off + k \<le> length data"
  shows "foldl (\<lambda>v i. v OR push_bit (8 * i) (byteAt data (off + i))) 0 [0..<k] = int (le_val (take k (drop off data)))"
  using assms
proof (induction k)
  case (Suc k)
  let ?xs = "take k (drop off data)"
  have len: "length ?xs = k" using Suc.prems by simp
  have "take (Suc k) (drop off data) = ?xs @ [data ! (off + k)]"
    using Suc.prems by (simp add: take_Suc_conv_app_nth)
  moreover have "int (le_val ?xs) OR push_bit (8 * k) c = int (le_val ?xs) + c * 256 ^ k" for c
    using or_shift [of "int (le_val ?xs)" "8 * k" c] le_val_bound [of ?xs] len by (simp add: power_mult flip: of_nat_less_iff)
  ultimately show ?case using Suc len by (simp add: byteAt_def le_val_snoc mult.commute)
qed simp

lemma app_reads:
  assumes "off + 8 \<le> length data"
  shows "readUIntLE 8 data off = Inr (app_readU64 data off)" "readIntLE64 data off = Inr (app_readI64 data off)"
proof -
  have v: "app_readU64 data off = int (le_val (take 8 (drop off data)))"
    unfolding app_readU64_def by (rule app_readU64_prefix [OF assms])
  then show "readUIntLE 8 data off = Inr (app_readU64 data off)" using assms by (simp add: readUIntLE_def)
  show "readIntLE64 data off = Inr (app_readI64 data off)"
    using assms by (simp add: readIntLE64_def app_readI64_def v Let_def i64_val_def)
qed

lemma mask_byte: "(v :: int) AND 255 = v mod 256"
  using take_bit_eq_mask [of 8 v] by (simp add: take_bit_eq_mod mask_eq_exp_minus_1)

lemma le_bytes_int: "le_bytes (Suc n) (nat (v mod 256 ^ Suc n)) = word_of_int v # le_bytes n (nat (v div 256 mod 256 ^ n))"
proof -
  have "v mod 256 ^ Suc n = 256 * (v div 256 mod 256 ^ n) + v mod 256"
    using zmod_zmult2_eq [of "256 ^ n" v 256] by simp
  then have "nat (v mod 256 ^ Suc n) div 256 = nat (v div 256 mod 256 ^ n)"
    by (simp add: nat_div_distrib flip: nat_div_distrib)
  moreover have "(word_of_int (v mod 256 ^ Suc n) :: byte) = word_of_int v"
    by (simp add: word_of_int_eq_iff take_bit_eq_mod mod_mod_cancel)
  ultimately show ?thesis by simp
qed

lemma write_bytes_splice:
  "off + n \<le> length data \<Longrightarrow> write_bytes n data off v = splice data off (le_bytes n (nat (v mod 256 ^ n)))"
proof (induction n arbitrary: data off v)
  case 0
  then show ?case by (simp add: splice_def)
next
  case (Suc n)
  have byte: "(word_of_int (v mod 256) :: byte) = word_of_int v" by (simp add: word_of_int_eq_iff take_bit_eq_mod)
  have "take (Suc off) (data[off := word_of_int v]) = take off data @ [word_of_int v]"
    using Suc.prems by (simp add: take_Suc_conv_app_nth)
  then show ?case
    using Suc by (simp add: splice_def mask_byte byte drop_bit_eq_div le_bytes_int del: le_bytes.simps power_Suc)
qed


section \<open>The app's decoders\<close>

definition app_pending_slot :: "(bytes \<Rightarrow> 'k) \<Rightarrow> bytes \<Rightarrow> nat \<Rightarrow> 'k SdkPending list result" where
  "app_pending_slot pk data i =
     (let off = 743 + i * 57 in
      andThen (readUIntLE 1 data (off + 56)) (\<lambda>status.
        if status \<noteq> 1 then Inr []
        else Inr [\<lparr>sp_id = app_readU64 data off, sp_amount = app_readU64 data (off + 8),
                   sp_destination = pk (slice data (off + 16) (off + 48)),
                   sp_unlockAt = app_readI64 data (off + 48), sp_status = status\<rparr>]))"

definition app_bucket_slot :: "bytes \<Rightarrow> nat \<Rightarrow> int \<times> int" where
  "app_bucket_slot data i = (app_readI64 data (1291 + i * 16), app_readU64 data (1291 + i * 16 + 8))"

definition app_change_slot :: "(bytes \<Rightarrow> 'k) \<Rightarrow> bytes \<Rightarrow> nat \<Rightarrow> 'k SdkChange result" where
  "app_change_slot pk data changeAt =
     andThen (readUIntLE 1 data changeAt) (\<lambda>active.
     andThen (readUIntLE 1 data (changeAt + 1)) (\<lambda>fields.
     andThen (readUIntLE 2 data (changeAt + 2)) (\<lambda>bigShareBps.
       Inr \<lparr>sc_active = active \<noteq> 0, sc_fields = fields, sc_bigShareBps = bigShareBps,
            sc_dailyLimit = app_readU64 data (changeAt + 4), sc_delaySecs = app_readI64 data (changeAt + 12),
            sc_guardian = pk (slice data (changeAt + 20) (changeAt + 52)),
            sc_safeAddress = pk (slice data (changeAt + 52) (changeAt + 84)),
            sc_effectiveAt = app_readI64 data (changeAt + 84)\<rparr>)))"

definition app_decodeHoldVault :: "(bytes \<Rightarrow> 'k) \<Rightarrow> bytes \<Rightarrow> 'k \<Rightarrow> 'k HoldVaultAccount result" where
  "app_decodeHoldVault pk data address =
     andThen (app_requireDisc data HOLD_VAULT_DISCRIMINATOR ''Hold vault'') (\<lambda>_.
       if length data < 1691
       then Inl (Error (''Hold vault account is '' @ nat_str (length data) @ '' bytes, need '' @ nat_str 1691))
       else
       andThen (readUIntLE 1 data 227) (\<lambda>knownByte.
         let known = map (\<lambda>i. let off = 231 + i * 32 in pk (slice data off (off + 32)))
                       [0..<min (nat knownByte) HOLD_KNOWN_CAPACITY];
             key = (\<lambda>off. pk (slice data off (off + 32)))
         in
         andThen (traverse (app_pending_slot pk data) [0..<HOLD_PENDING_CAPACITY]) (\<lambda>pending.
         andThen (readUIntLE 2 data 224) (\<lambda>bigShareBps.
         andThen (readUIntLE 1 data 226) (\<lambda>frozenByte.
         andThen (app_change_slot pk data 1199) (\<lambda>change.
         andThen (readUIntLE 1 data 228) (\<lambda>bump.
         andThen (readUIntLE 1 data 229) (\<lambda>tokenBump.
         andThen (readUIntLE 1 data 230) (\<lambda>ledgerBump.
           Inr \<lparr>va_address = address, va_owner = key 8, va_guardian = key 40, va_safeAddress = key 72,
                va_mint = key 104, va_vaultToken = key 136, va_vaultId = app_readU64 data 168,
                va_dailyLimit = app_readU64 data 176, va_dailyBuckets = map (app_bucket_slot data) [0..<BUCKET_COUNT],
                va_windowSpent = app_readU64 data 184, va_windowStart = app_readI64 data 192,
                va_delaySecs = app_readI64 data 200, va_unfreezeAt = app_readI64 data 208,
                va_nextWithdrawalId = app_readU64 data 216, va_bigShareBps = bigShareBps,
                va_frozen = (frozenByte \<noteq> 0), va_known = known, va_pending = concat pending, va_change = change,
                va_bump = bump, va_tokenBump = tokenBump, va_ledgerBump = ledgerBump\<rparr>)))))))))"

definition app_hold_slot :: "(bytes \<Rightarrow> 'k) \<Rightarrow> bytes \<Rightarrow> nat \<Rightarrow> 'k HoldLedgerEntry result" where
  "app_hold_slot pk data index =
     (let off = 48 + index * 64 in
      andThen (readUIntLE 1 data (off + 56)) (\<lambda>kind.
      andThen (readUIntLE 1 data (off + 57)) (\<lambda>reason.
        Inr \<lparr>hle_ts = app_readI64 data off, hle_amount = app_readU64 data (off + 8),
             hle_destination = pk (slice data (off + 16) (off + 48)), hle_withdrawalId = app_readU64 data (off + 48),
             hle_kind = kind, hle_reason = reason\<rparr>)))"

definition app_decodeHoldLedger :: "(bytes \<Rightarrow> 'k) \<Rightarrow> bytes \<Rightarrow> 'k \<Rightarrow> 'k HoldLedgerAccount result" where
  "app_decodeHoldLedger pk data address =
     andThen (app_requireDisc data HOLD_LEDGER_DISCRIMINATOR ''Hold ledger'') (\<lambda>_.
       if length data < 2096
       then Inl (Error (''Hold ledger account is '' @ nat_str (length data) @ '' bytes, need '' @ nat_str 2096))
       else
       andThen (readUIntLE 4 data 40) (\<lambda>tot.
       andThen (readUIntLE 2 data 44) (\<lambda>head.
         let alive = min (nat tot) HOLD_LEDGER_CAPACITY;
             start = (if tot \<ge> int HOLD_LEDGER_CAPACITY then nat head mod HOLD_LEDGER_CAPACITY else 0)
         in andThen (traverse (app_hold_slot pk data) (map (\<lambda>n. (start + n) mod HOLD_LEDGER_CAPACITY) [0..<alive])) (\<lambda>entries.
            andThen (readUIntLE 1 data 46) (\<lambda>bump.
              Inr \<lparr>hla_address = address, hla_vault = pk (slice data 8 40), hla_total = tot, hla_head = head,
                   hla_bump = bump, hla_entries = entries\<rparr>)))))"

section \<open>The app's preview\<close>

definition app_shareCap :: "int \<Rightarrow> int \<Rightarrow> int result" where
  "app_shareCap balance bps =
     (if bps < 0 \<or> bps > 10000 then Inl (Error ''big share is outside 0 to 10000'')
      else Inr (balance div 10000 * bps + (balance mod 10000 * bps) div 10000))"

definition app_addI64 :: "int \<Rightarrow> int \<Rightarrow> int result" where
  "app_addI64 left right =
     (let s = left + right in
      if s < - (2 ^ 63) \<or> s > 2 ^ 63 - 1 then Inl (Error ''unlock time overflows'') else Inr s)"

definition holdWithdrawalOutlook :: "'k HoldVaultAccount \<Rightarrow> int \<Rightarrow> 'k \<Rightarrow> int \<Rightarrow> int \<Rightarrow> WithdrawalOutlook result" where
  "holdWithdrawalOutlook vault amount destination balance now =
     (if amount \<le> 0 then Inl (Error ''amount must be positive'')
      else if amount > balance then Inr (refused insufficient_funds)
      else
        let hour = (if now \<ge> 0 then trunc_div now 3600 else trunc_div (now - 3600 + 1) 3600);
            dailyNext = foldl (\<lambda>s b. s + snd b) amount (filter (\<lambda>b. fst b \<ge> hour - 24) (va_dailyBuckets vault))
        in andThen (app_shareCap balance (va_bigShareBps vault)) (\<lambda>cap.
             let reasons = (if va_frozen vault then [frozen] else []) @
                           (if destination \<notin> set (va_known vault) then [new_address] else []) @
                           (if dailyNext > U64_MAX \<or> dailyNext > va_dailyLimit vault then [over_daily_limit] else []) @
                           (if dailyNext > cap then [over_share] else [])
             in if reasons = [] then Inr at_once
                else if length (va_pending vault) \<ge> HOLD_PENDING_CAPACITY then Inr (refused pending_full)
                else andThen (app_addI64 now (va_delaySecs vault)) (\<lambda>unlockAt. Inr (held_until reasons unlockAt))))"

definition holdCreatedAt :: "'k HoldVaultAccount \<Rightarrow> 'k SdkPending \<Rightarrow> 'k HoldLedgerEntry list \<Rightarrow> int" where
  "holdCreatedAt vault row entries =
     (case foldl (\<lambda>ts e. if hle_kind e = 3 \<and> hle_withdrawalId e = sp_id row then Some (hle_ts e) else ts) None entries of
        Some ts \<Rightarrow> ts
      | None \<Rightarrow> if sp_unlockAt row \<ge> va_delaySecs vault then sp_unlockAt row - va_delaySecs vault else sp_unlockAt row)"

section \<open>The app and the SDK agree\<close>

lemma app_pending_slot_eq: "i < 8 \<Longrightarrow> 1691 \<le> length data \<Longrightarrow> app_pending_slot pk data i = pending_slot pk data i"
  by (simp add: app_pending_slot_def pending_slot_def Let_def app_reads cong: if_cong)

lemma app_change_slot_eq: "1691 \<le> length data \<Longrightarrow> app_change_slot pk data 1199 = change_slot pk data 1199"
  by (simp add: app_change_slot_def change_slot_def app_reads)

lemma app_bucket_slot_eq: "i < 25 \<Longrightarrow> 1691 \<le> length data \<Longrightarrow> bucket_slot data i = Inr (app_bucket_slot data i)"
  by (simp add: bucket_slot_def app_bucket_slot_def app_reads)

lemma app_hold_slot_eq: "i < 32 \<Longrightarrow> 2096 \<le> length data \<Longrightarrow> app_hold_slot pk data i = hold_slot pk data i"
  by (simp add: app_hold_slot_def hold_slot_def Let_def app_reads)

lemma app_decodeHoldVault_eq: "app_decodeHoldVault pk data address = decodeHoldVault pk data address"
proof (cases "1691 \<le> length data")
  case True
  have "traverse (app_pending_slot pk data) [0..<HOLD_PENDING_CAPACITY] = traverse (pending_slot pk data) [0..<HOLD_PENDING_CAPACITY]"
    by (rule traverse_cong) (use True in \<open>simp_all add: app_pending_slot_eq HOLD_PENDING_CAPACITY_def\<close>)
  moreover have "traverse (bucket_slot data) [0..<BUCKET_COUNT] = Inr (map (app_bucket_slot data) [0..<BUCKET_COUNT])"
    by (rule traverse_Inr) (use True in \<open>simp add: app_bucket_slot_eq BUCKET_COUNT_def\<close>)
  ultimately show ?thesis
    using True
    by (simp add: app_decodeHoldVault_def decodeHoldVault_def app_requireDisc_eq needLen_def app_change_slot_eq app_reads Let_def)
qed (simp add: app_decodeHoldVault_def decodeHoldVault_def app_requireDisc_eq needLen_def)

lemma app_decodeHoldLedger_eq: "app_decodeHoldLedger pk data address = decodeHoldLedger pk data address"
proof (cases "2096 \<le> length data")
  case True
  have "traverse (app_hold_slot pk data) (map (\<lambda>n. (s + n) mod HOLD_LEDGER_CAPACITY) xs) =
      traverse (hold_slot pk data) (map (\<lambda>n. (s + n) mod HOLD_LEDGER_CAPACITY) xs)" for s xs
    by (rule traverse_cong) (use True in \<open>auto simp: app_hold_slot_eq HOLD_LEDGER_CAPACITY_def\<close>)
  then show ?thesis
    using True by (simp add: app_decodeHoldLedger_def decodeHoldLedger_def app_requireDisc_eq needLen_def)
qed (simp add: app_decodeHoldLedger_def decodeHoldLedger_def app_requireDisc_eq needLen_def)


lemma app_outlook_eq:
  assumes "0 \<le> va_bigShareBps vault" "va_bigShareBps vault \<le> 10000"
    and "0 < amount" "amount \<le> U64_MAX" "0 \<le> balance" "balance \<le> U64_MAX" "- (2 ^ 63) \<le> now" "now < 2 ^ 63"
    and "- (2 ^ 63) \<le> now + va_delaySecs vault" "now + va_delaySecs vault < 2 ^ 63"
  shows "holdWithdrawalOutlook vault amount destination balance now =
    withdrawalOutlook parse vault (Big amount) (IsKey destination) (Big balance) (Big now)"
proof -
  have args: "asU64 (Big amount) f = Inr amount" "asU64 (Big balance) f = Inr balance" "asI64 (Big now) f = Inr now" for f
    using assms by (simp_all add: asU64_def asI64_def)
  have cap: "app_shareCap balance (va_bigShareBps vault) = shareCap balance (va_bigShareBps vault)"
    using assms(1,2) by (simp add: app_shareCap_def shareCap_def)
  have unlock: "app_addI64 now (va_delaySecs vault) = addI64 now (va_delaySecs vault) ''HoldVault.previewWithdrawal unlock''"
    using assms(9,10) by (simp add: app_addI64_def addI64_def)
  have pos: "(amount \<le> 0) = False" "(amount = 0) = False" using assms(3) by simp_all
  show ?thesis
    unfolding holdWithdrawalOutlook_def withdrawalOutlook_def args toPublicKey_def key_arg.case andThen_Inr cap unlock pos if_False
    by (rule refl)
qed

text \<open>The phone and the SDK never disagree about a vault. On any bytes at all the app's hand-written
  byte loops decode a Hold account to the same value, or the same error, as the SDK; and for amounts,
  balances and clocks of the chain's width the two previews of a withdrawal are equal.\<close>

theorem app_and_sdk_agree_on_hold:
  assumes "0 \<le> va_bigShareBps vault" "va_bigShareBps vault \<le> 10000"
    and "0 < amount" "amount \<le> U64_MAX" "0 \<le> balance" "balance \<le> U64_MAX" "- (2 ^ 63) \<le> now" "now < 2 ^ 63"
    and "- (2 ^ 63) \<le> now + va_delaySecs vault" "now + va_delaySecs vault < 2 ^ 63"
  shows "app_decodeHoldVault pk data address = decodeHoldVault pk data address \<and>
    app_decodeHoldLedger pk data address = decodeHoldLedger pk data address \<and>
    holdWithdrawalOutlook vault amount destination balance now =
      withdrawalOutlook parse vault (Big amount) (IsKey destination) (Big balance) (Big now)"
  by (intro conjI app_decodeHoldVault_eq app_decodeHoldLedger_eq app_outlook_eq [OF assms])


text \<open>The app says when a held withdrawal was made. When the program holds a withdrawal, the app, reading
  the ledger and the pending row the program stored, shows the chain clock of that moment.\<close>

theorem created_at_is_hold_time:
  assumes "\<forall>e \<in> set es. he_kind e = 3 \<longrightarrow> he_withdrawal_id e \<noteq> wid"
  shows "holdCreatedAt vault (pending_view pk \<lparr>pw_id = wid, pw_amount = amount, pw_destination = d, pw_unlock_at = u, pw_status = 1\<rparr>)
    (map (hold_entry_view pk) (ds @ \<lparr>he_ts = now, he_amount = amount, he_destination = d, he_withdrawal_id = wid,
       he_kind = 3, he_reason = 0\<rparr> # es)) = now"
proof -
  let ?f = "\<lambda>ts e. if hle_kind e = 3 \<and> hle_withdrawalId e = int (unat wid) then Some (hle_ts e) else ts"
  have skip: "foldl ?f t (map (hold_entry_view pk) xs) = t"
    if "\<forall>e \<in> set xs. he_kind e = 3 \<longrightarrow> he_withdrawal_id e \<noteq> wid" for xs t
    using that
  proof (induction xs)
    case (Cons e xs)
    have "unat (he_kind e) = 3 \<longleftrightarrow> he_kind e = 3" using word_unat_eq_iff [of "he_kind e" 3] by simp
    moreover have "unat (he_withdrawal_id e) = unat wid \<longleftrightarrow> he_withdrawal_id e = wid" by (simp add: word_unat_eq_iff)
    ultimately show ?case using Cons by (auto simp: hold_entry_view_def simp del: of_nat_unat)
  qed simp
  show ?thesis
    using skip [OF assms, of "Some now"]
    by (simp add: holdCreatedAt_def pending_view_def del: of_nat_unat) (simp add: hold_entry_view_def del: of_nat_unat)
qed


end
