(* ===== verification/Instructions.thy ===== *)
theory Instructions
  imports Hold_Read Trade_Decode
begin

text \<open>
  The instructions the clients build: the phone app's mandate and trade-rule instructions
  (\<^verbatim>\<open>app/lib/instructions.ts\<close>) with the arguments the program deserializes
  (\<^verbatim>\<open>programs/veto/src/lib.rs\<close>, \<^verbatim>\<open>programs/veto/src/trade.rs\<close>). A public key is its 32 bytes,
  \<open>fpa\<close> is the address part of \<open>PublicKey.findProgramAddressSync\<close>, \<open>utf8\<close> is \<open>Buffer.from(text, 'utf8')\<close>
  and \<open>system\<close> is \<open>SystemProgram.programId\<close>.
\<close>

section \<open>Instructions and addresses\<close>

type_synonym account_meta = "pubkey \<times> bool \<times> bool"
type_synonym finder = "bytes list \<Rightarrow> pubkey \<Rightarrow> pubkey"

record instruction =
  ix_programId :: pubkey
  ix_keys :: "account_meta list"
  ix_data :: bytes

definition mandatePda :: "finder \<Rightarrow> pubkey \<Rightarrow> pubkey \<Rightarrow> int \<Rightarrow> pubkey result" where
  "mandatePda fpa programId owner mandateId =
     andThen (u64Le mandateId) (\<lambda>seed. Inr (fpa [ascii ''mandate'', owner, seed] programId))"

definition ledgerPda :: "finder \<Rightarrow> pubkey \<Rightarrow> pubkey \<Rightarrow> pubkey" where
  "ledgerPda fpa programId mandate = fpa [ascii ''ledger'', mandate] programId"

definition tradeLedgerPda :: "finder \<Rightarrow> pubkey \<Rightarrow> pubkey \<Rightarrow> pubkey" where
  "tradeLedgerPda fpa programId rl = fpa [ascii ''trade-ledger'', rl] programId"

section \<open>Filling a buffer\<close>

text \<open>\<open>Buffer.alloc(n)\<close> and \<open>source.copy(target, start)\<close>, which stops at the end of the target.\<close>

definition alloc :: "nat \<Rightarrow> u8array" where
  "alloc n = whole (replicate n 0)"

definition copyTo :: "u8array \<Rightarrow> nat \<Rightarrow> bytes \<Rightarrow> u8array" where
  "copyTo v p src = v\<lparr>arr_buffer := splice (arr_buffer v) (arr_offset v + p) (take (arr_length v - p) src)\<rparr>"

definition writeByte :: "u8array \<Rightarrow> nat \<Rightarrow> int \<Rightarrow> u8array" where
  "writeByte v p x = (if p < arr_length v then v\<lparr>arr_buffer := (arr_buffer v)[arr_offset v + p := word_of_int x]\<rparr> else v)"

definition filled :: "bytes \<Rightarrow> nat \<Rightarrow> u8array" where
  "filled pre n = whole (pre @ replicate n 0)"

lemma alloc_filled: "alloc n = filled [] n"
  by (simp add: alloc_def filled_def)

lemma filled_done [simp]: "arr_bytes (filled pre 0) = pre"
  by (simp add: filled_def)

lemma splice_filled: "length new \<le> n \<Longrightarrow> splice (pre @ replicate n 0) (length pre) new = pre @ new @ replicate (n - length new) 0"
  by (simp add: splice_def)

lemma copyTo_filled: "p = length pre \<Longrightarrow> length src \<le> n \<Longrightarrow> copyTo (filled pre n) p src = filled (pre @ src) (n - length src)"
  by (simp add: copyTo_def filled_def whole_def splice_filled)

lemma writeAt_filled:
  "p = length pre \<Longrightarrow> length new \<le> n \<Longrightarrow> writeAt (filled pre n) p new = Inr (filled (pre @ new) (n - length new))"
  by (simp add: writeAt_def viewAt_def filled_def whole_def splice_filled)

lemma writeByte_filled: "p = length pre \<Longrightarrow> 1 \<le> n \<Longrightarrow> writeByte (filled pre n) p x = filled (pre @ [word_of_int x]) (n - 1)"
  by (cases n) (simp_all add: writeByte_def filled_def whole_def)

lemma writes_filled:
  "p = length pre \<Longrightarrow> 8 \<le> n \<Longrightarrow> writeU64Le (filled pre n) p x = Inr (filled (pre @ le_bytes 8 (nat (x mod 2 ^ 64))) (n - 8))"
  "p = length pre \<Longrightarrow> 8 \<le> n \<Longrightarrow> writeI64Le (filled pre n) p x = Inr (filled (pre @ le_bytes 8 (i64_nat x)) (n - 8))"
  "p = length pre \<Longrightarrow> 4 \<le> n \<Longrightarrow> writeU32Le (filled pre n) p x = Inr (filled (pre @ le_bytes 4 (nat (x mod 2 ^ 32))) (n - 4))"
  by (simp_all add: writeU64Le_def writeI64Le_def writeU32Le_def writeAt_filled)

section \<open>The app's mandate instructions\<close>

definition OPEN_MANDATE_DISC :: bytes where "OPEN_MANDATE_DISC = [116, 145, 190, 28, 86, 223, 105, 74]"
definition REVOKE_MANDATE_DISC :: bytes where "REVOKE_MANDATE_DISC = [252, 97, 140, 119, 67, 43, 177, 108]"
definition CLOSE_MANDATE_DISC :: bytes where "CLOSE_MANDATE_DISC = [117, 87, 189, 5, 254, 125, 248, 180]"
definition GRANT_OVERRIDE_DISC :: bytes where "GRANT_OVERRIDE_DISC = [225, 146, 123, 110, 56, 16, 99, 141]"
definition OPEN_TRADE_RULE_DISC :: bytes where "OPEN_TRADE_RULE_DISC = [109, 183, 63, 166, 60, 202, 82, 15]"
definition GRANT_TRADE_OVERRIDE_DISC :: bytes where "GRANT_TRADE_OVERRIDE_DISC = [133, 223, 203, 45, 174, 92, 157, 151]"
definition REVOKE_TRADE_RULE_DISC :: bytes where "REVOKE_TRADE_RULE_DISC = [112, 252, 178, 223, 55, 115, 217, 201]"
definition CLOSE_TRADE_RULE_DISC :: bytes where "CLOSE_TRADE_RULE_DISC = [93, 102, 200, 106, 195, 121, 250, 120]"

lemmas disc_defs = OPEN_MANDATE_DISC_def REVOKE_MANDATE_DISC_def CLOSE_MANDATE_DISC_def GRANT_OVERRIDE_DISC_def
  OPEN_TRADE_RULE_DISC_def GRANT_TRADE_OVERRIDE_DISC_def REVOKE_TRADE_RULE_DISC_def CLOSE_TRADE_RULE_DISC_def

lemma length_ix_discs [simp]:
  "length OPEN_MANDATE_DISC = 8" "length GRANT_OVERRIDE_DISC = 8" "length OPEN_TRADE_RULE_DISC = 8"
  "length GRANT_TRADE_OVERRIDE_DISC = 8"
  by (simp_all add: disc_defs)

record OpenMandateIxArgs =
  om_programId :: pubkey
  om_owner :: pubkey
  om_agent :: pubkey
  om_merchant :: pubkey
  om_mint :: pubkey
  om_source :: pubkey
  om_tokenProgram :: pubkey
  om_mandateId :: int
  om_cap :: int
  om_perTxMax :: int
  om_expiresAt :: int
  om_purpose :: string

definition encodeOpenMandateData ::
  "(string \<Rightarrow> bytes) \<Rightarrow> int \<Rightarrow> pubkey \<Rightarrow> pubkey \<Rightarrow> int \<Rightarrow> int \<Rightarrow> int \<Rightarrow> string \<Rightarrow> bytes result" where
  "encodeOpenMandateData utf8 mandateId agent merchant cap perTxMax expiresAt purposeText =
     (let purpose = utf8 purposeText;
          buf = copyTo (alloc (8 + 8 + 32 + 32 + 8 + 8 + 8 + 4 + length purpose)) 0 OPEN_MANDATE_DISC
      in andThen (writeU64Le buf 8 mandateId) (\<lambda>buf.
         let buf = copyTo (copyTo buf 16 agent) 48 merchant in
         andThen (writeU64Le buf 80 cap) (\<lambda>buf.
         andThen (writeU64Le buf 88 perTxMax) (\<lambda>buf.
         andThen (writeI64Le buf 96 expiresAt) (\<lambda>buf.
         andThen (writeU32Le buf 104 (int (length purpose))) (\<lambda>buf.
           Inr (arr_bytes (copyTo buf 108 purpose))))))))"

definition openMandateInstruction ::
  "finder \<Rightarrow> (string \<Rightarrow> bytes) \<Rightarrow> pubkey \<Rightarrow> OpenMandateIxArgs \<Rightarrow> (instruction \<times> pubkey \<times> pubkey) result" where
  "openMandateInstruction fpa utf8 system a =
     andThen (mandatePda fpa (om_programId a) (om_owner a) (om_mandateId a)) (\<lambda>mandate.
       let ledger = ledgerPda fpa (om_programId a) mandate in
       andThen (encodeOpenMandateData utf8 (om_mandateId a) (om_agent a) (om_merchant a) (om_cap a) (om_perTxMax a)
                  (om_expiresAt a) (om_purpose a)) (\<lambda>data.
         Inr (\<lparr>ix_programId = om_programId a,
               ix_keys = [(om_owner a, True, True), (mandate, False, True), (ledger, False, True),
                          (om_source a, False, True), (om_mint a, False, False), (om_tokenProgram a, False, False),
                          (system, False, False)],
               ix_data = data\<rparr>, mandate, ledger)))"

definition closeMandateInstruction :: "finder \<Rightarrow> pubkey \<Rightarrow> pubkey \<Rightarrow> pubkey \<Rightarrow> instruction" where
  "closeMandateInstruction fpa programId owner mandate =
     \<lparr>ix_programId = programId,
      ix_keys = [(owner, True, True), (mandate, False, True), (ledgerPda fpa programId mandate, False, True)],
      ix_data = CLOSE_MANDATE_DISC\<rparr>"

definition ownerActionKeys :: "finder \<Rightarrow> pubkey \<Rightarrow> pubkey \<Rightarrow> pubkey \<Rightarrow> pubkey \<Rightarrow> pubkey \<Rightarrow> account_meta list" where
  "ownerActionKeys fpa programId owner mandate source tokenProgram =
     [(owner, True, False), (mandate, False, True), (ledgerPda fpa programId mandate, False, True),
      (source, False, True), (tokenProgram, False, False)]"

definition revokeMandateInstruction :: "finder \<Rightarrow> pubkey \<Rightarrow> pubkey \<Rightarrow> pubkey \<Rightarrow> pubkey \<Rightarrow> pubkey \<Rightarrow> instruction" where
  "revokeMandateInstruction fpa programId owner mandate source tokenProgram =
     \<lparr>ix_programId = programId, ix_keys = ownerActionKeys fpa programId owner mandate source tokenProgram,
      ix_data = REVOKE_MANDATE_DISC\<rparr>"

text \<open>The two override instructions write the same 24 bytes but for the discriminator.\<close>

definition override_data :: "bytes \<Rightarrow> int \<Rightarrow> int \<Rightarrow> bytes result" where
  "override_data disc amount nonce =
     andThen (writeU64Le (copyTo (alloc 24) 0 disc) 8 amount) (\<lambda>buf.
     andThen (writeU64Le buf 16 nonce) (\<lambda>buf. Inr (arr_bytes buf)))"

definition encodeGrantOverrideData :: "int \<Rightarrow> int \<Rightarrow> bytes result" where
  "encodeGrantOverrideData amount nonce = override_data GRANT_OVERRIDE_DISC amount nonce"

definition grantOverrideInstruction ::
  "finder \<Rightarrow> pubkey \<Rightarrow> pubkey \<Rightarrow> pubkey \<Rightarrow> pubkey \<Rightarrow> pubkey \<Rightarrow> int \<Rightarrow> int \<Rightarrow> instruction result" where
  "grantOverrideInstruction fpa programId owner mandate source tokenProgram amount nonce =
     andThen (encodeGrantOverrideData amount nonce) (\<lambda>data.
       Inr \<lparr>ix_programId = programId, ix_keys = ownerActionKeys fpa programId owner mandate source tokenProgram,
            ix_data = data\<rparr>)"

section \<open>The app's trade instructions\<close>

record OpenTradeArgs =
  ot_programId :: pubkey
  ot_owner :: pubkey
  ot_rule :: pubkey
  ot_ledger :: pubkey
  ot_source :: pubkey
  ot_destination :: pubkey
  ot_inMint :: pubkey
  ot_outMint :: pubkey
  ot_exchangeProgram :: pubkey
  ot_pool :: pubkey
  ot_poolAuthority :: pubkey
  ot_poolInVault :: pubkey
  ot_poolOutVault :: pubkey
  ot_poolMint :: pubkey
  ot_poolFeeAccount :: pubkey
  ot_tokenProgram :: pubkey
  ot_ruleId :: int
  ot_agent :: pubkey
  ot_exchangeKind :: int
  ot_cap :: int
  ot_perTradeMax :: int
  ot_dailyLimit :: int
  ot_floorNum :: int
  ot_floorDen :: int
  ot_expiresAt :: int
  ot_purpose :: string

definition encodeOpenTradeData :: "(string \<Rightarrow> bytes) \<Rightarrow> OpenTradeArgs \<Rightarrow> bytes result" where
  "encodeOpenTradeData utf8 a =
     (let purpose = utf8 (ot_purpose a);
          buf = copyTo (alloc (8 + 8 + 32 + 1 + 8 + 8 + 8 + 8 + 8 + 8 + 4 + length purpose)) 0 OPEN_TRADE_RULE_DISC
      in andThen (writeU64Le buf 8 (ot_ruleId a)) (\<lambda>buf.
         let buf = writeByte (copyTo buf 16 (ot_agent a)) 48 (ot_exchangeKind a) in
         andThen (writeU64Le buf 49 (ot_cap a)) (\<lambda>buf.
         andThen (writeU64Le buf 57 (ot_perTradeMax a)) (\<lambda>buf.
         andThen (writeU64Le buf 65 (ot_dailyLimit a)) (\<lambda>buf.
         andThen (writeU64Le buf 73 (ot_floorNum a)) (\<lambda>buf.
         andThen (writeU64Le buf 81 (ot_floorDen a)) (\<lambda>buf.
         andThen (writeI64Le buf 89 (ot_expiresAt a)) (\<lambda>buf.
         andThen (writeU32Le buf 97 (int (length purpose))) (\<lambda>buf.
           Inr (arr_bytes (copyTo buf 101 purpose)))))))))))"

definition openTradeRuleInstruction :: "(string \<Rightarrow> bytes) \<Rightarrow> pubkey \<Rightarrow> OpenTradeArgs \<Rightarrow> instruction result" where
  "openTradeRuleInstruction utf8 system a =
     andThen (encodeOpenTradeData utf8 a) (\<lambda>data.
       Inr \<lparr>ix_programId = ot_programId a,
            ix_keys = [(ot_owner a, True, True), (ot_rule a, False, True), (ot_ledger a, False, True),
                       (ot_source a, False, True), (ot_destination a, False, False), (ot_inMint a, False, False),
                       (ot_outMint a, False, False), (ot_exchangeProgram a, False, False), (ot_pool a, False, False),
                       (ot_poolAuthority a, False, False), (ot_poolInVault a, False, False),
                       (ot_poolOutVault a, False, False), (ot_poolMint a, False, False),
                       (ot_poolFeeAccount a, False, False), (ot_tokenProgram a, False, False), (system, False, False)],
            ix_data = data\<rparr>)"

definition grantTradeOverrideInstruction :: "finder \<Rightarrow> pubkey \<Rightarrow> pubkey \<Rightarrow> pubkey \<Rightarrow> int \<Rightarrow> int \<Rightarrow> instruction result" where
  "grantTradeOverrideInstruction fpa programId owner rl amount nonce =
     andThen (override_data GRANT_TRADE_OVERRIDE_DISC amount nonce) (\<lambda>data.
       Inr \<lparr>ix_programId = programId,
            ix_keys = [(owner, True, False), (rl, False, True), (tradeLedgerPda fpa programId rl, False, True)],
            ix_data = data\<rparr>)"

definition revokeTradeRuleInstruction :: "finder \<Rightarrow> pubkey \<Rightarrow> pubkey \<Rightarrow> pubkey \<Rightarrow> pubkey \<Rightarrow> pubkey \<Rightarrow> instruction" where
  "revokeTradeRuleInstruction fpa programId owner rl source tokenProgram =
     \<lparr>ix_programId = programId,
      ix_keys = [(owner, True, False), (rl, False, True), (tradeLedgerPda fpa programId rl, False, True),
                 (source, False, True), (tokenProgram, False, False)],
      ix_data = REVOKE_TRADE_RULE_DISC\<rparr>"

definition closeTradeRuleInstruction :: "finder \<Rightarrow> pubkey \<Rightarrow> pubkey \<Rightarrow> pubkey \<Rightarrow> pubkey \<Rightarrow> pubkey \<Rightarrow> instruction" where
  "closeTradeRuleInstruction fpa programId owner rl source tokenProgram =
     \<lparr>ix_programId = programId,
      ix_keys = [(owner, True, True), (rl, False, True), (tradeLedgerPda fpa programId rl, False, True),
                 (source, False, True), (tokenProgram, False, False)],
      ix_data = CLOSE_TRADE_RULE_DISC\<rparr>"

section \<open>What the program reads\<close>

text \<open>
  Anchor takes the eight discriminator bytes off and deserializes the arguments in the order of the
  struct: integers little-endian, a key as 32 bytes, a string as its length and its bytes.
  \<open>valid\<close> is the UTF-8 check of a \<open>String\<close>.
\<close>

definition take_u64 :: "bytes \<Rightarrow> (u64 \<times> bytes) option" where
  "take_u64 bs = (if length bs < 8 then None else Some (of_nat (le_val (take 8 bs)), drop 8 bs))"

definition take_i64 :: "bytes \<Rightarrow> (int \<times> bytes) option" where
  "take_i64 bs = (if length bs < 8 then None else Some (i64_val (le_val (take 8 bs)), drop 8 bs))"

definition take_u8 :: "bytes \<Rightarrow> (u8 \<times> bytes) option" where
  "take_u8 bs = (case bs of [] \<Rightarrow> None | b # rest \<Rightarrow> Some (b, rest))"

definition take_key :: "bytes \<Rightarrow> (pubkey \<times> bytes) option" where
  "take_key bs = (if length bs < 32 then None else Some (take 32 bs, drop 32 bs))"

definition take_string :: "(bytes \<Rightarrow> bool) \<Rightarrow> bytes \<Rightarrow> (bytes \<times> bytes) option" where
  "take_string valid bs =
     (if length bs < 4 then None
      else let n = le_val (take 4 bs); s = take n (drop 4 bs) in
           if length bs < 4 + n \<or> \<not> valid s then None else Some (s, drop (4 + n) bs))"

definition read_open_mandate :: "(bytes \<Rightarrow> bool) \<Rightarrow> bytes \<Rightarrow> OpenMandateArgs option" where
  "read_open_mandate valid bs =
     Option.bind (take_u64 bs) (\<lambda>(mid, bs).
      Option.bind (take_key bs) (\<lambda>(agent, bs).
      Option.bind (take_key bs) (\<lambda>(merchant, bs).
      Option.bind (take_u64 bs) (\<lambda>(cap, bs).
      Option.bind (take_u64 bs) (\<lambda>(per_tx_max, bs).
      Option.bind (take_i64 bs) (\<lambda>(expires_at, bs).
      Option.bind (take_string valid bs) (\<lambda>(purpose, bs).
        Some \<lparr>oa_mandate_id = mid, oa_agent = agent, oa_merchant = merchant, oa_cap = cap, oa_per_tx_max = per_tx_max,
              oa_expires_at = expires_at, oa_purpose = purpose\<rparr>)))))))"

definition read_two_u64 :: "bytes \<Rightarrow> (u64 \<times> u64) option" where
  "read_two_u64 bs =
     Option.bind (take_u64 bs) (\<lambda>(a, bs).
      Option.bind (take_u64 bs) (\<lambda>(n, bs). Some (a, n)))"

record OpenTradeRuleArgs =
  oo_rule_id :: u64
  oo_agent :: pubkey
  oo_exchange_kind :: u8
  oo_cap :: u64
  oo_per_trade_max :: u64
  oo_daily_limit :: u64
  oo_floor_num :: u64
  oo_floor_den :: u64
  oo_expires_at :: int
  oo_purpose :: bytes

definition read_open_trade :: "(bytes \<Rightarrow> bool) \<Rightarrow> bytes \<Rightarrow> OpenTradeRuleArgs option" where
  "read_open_trade valid bs =
     Option.bind (take_u64 bs) (\<lambda>(rid, bs).
      Option.bind (take_key bs) (\<lambda>(agent, bs).
      Option.bind (take_u8 bs) (\<lambda>(kind, bs).
      Option.bind (take_u64 bs) (\<lambda>(cap, bs).
      Option.bind (take_u64 bs) (\<lambda>(per_trade_max, bs).
      Option.bind (take_u64 bs) (\<lambda>(daily_limit, bs).
      Option.bind (take_u64 bs) (\<lambda>(floor_num, bs).
      Option.bind (take_u64 bs) (\<lambda>(floor_den, bs).
      Option.bind (take_i64 bs) (\<lambda>(expires_at, bs).
      Option.bind (take_string valid bs) (\<lambda>(purpose, bs).
        Some \<lparr>oo_rule_id = rid, oo_agent = agent, oo_exchange_kind = kind, oo_cap = cap, oo_per_trade_max = per_trade_max,
              oo_daily_limit = daily_limit, oo_floor_num = floor_num, oo_floor_den = floor_den,
              oo_expires_at = expires_at, oo_purpose = purpose\<rparr>))))))))))"


lemma word_of_mod: "(word_of_int (x mod 18446744073709551616) :: u64) = word_of_int x"
  by (simp add: word_of_int_eq_iff take_bit_eq_mod)

lemma word_fits: "int (unat (word_of_int x :: u64)) = x \<longleftrightarrow> 0 \<le> x \<and> x < 2 ^ 64"
proof -
  have "int (unat (word_of_int x :: u64)) = x mod 2 ^ 64" by (simp add: uint_word_of_int)
  moreover have "x mod 2 ^ 64 = x \<longleftrightarrow> 0 \<le> x \<and> x < 2 ^ 64"
    using mod_pos_pos_trivial [of x "2 ^ 64"] pos_mod_bound [of "2 ^ 64" x] pos_mod_sign [of "2 ^ 64" x] by auto
  ultimately show ?thesis by simp
qed

lemma take_images:
  "take_u64 (le_bytes 8 (nat (x mod 2 ^ 64)) @ rest) = Some (word_of_int x, rest)"
  "- (2 ^ 63) \<le> t \<Longrightarrow> t < 2 ^ 63 \<Longrightarrow> take_i64 (le_bytes 8 (i64_nat t) @ rest) = Some (t, rest)"
  "length k = 32 \<Longrightarrow> take_key (k @ rest) = Some (k, rest)"
  "valid s \<Longrightarrow> length s < 2 ^ 32 \<Longrightarrow> take_string valid (le_bytes 4 (nat (int (length s) mod 2 ^ 32)) @ s) = Some (s, [])"
  "take_u8 (b # rest) = Some (b, rest)"
proof -
  have "nat (x mod 2 ^ 64) mod 256 ^ 8 = nat (x mod 2 ^ 64)" by (simp add: nat_mod_distrib nat_less_iff)
  then show "take_u64 (le_bytes 8 (nat (x mod 2 ^ 64)) @ rest) = Some (word_of_int x, rest)"
    by (simp add: take_u64_def le_val_le_bytes word_of_mod)
  show "take_i64 (le_bytes 8 (i64_nat t) @ rest) = Some (t, rest)" if "- (2 ^ 63) \<le> t" "t < 2 ^ 63"
    using that by (simp add: take_i64_def i64_roundtrip)
  show "take_key (k @ rest) = Some (k, rest)" if "length k = 32" using that by (simp add: take_key_def)
  show "take_string valid (le_bytes 4 (nat (int (length s) mod 2 ^ 32)) @ s) = Some (s, [])" if "valid s" "length s < 2 ^ 32"
    using that by (simp add: take_string_def le_val_le_bytes Let_def nat_mod_distrib)
  show "take_u8 (b # rest) = Some (b, rest)" by (simp add: take_u8_def)
qed

lemma encodeOpenMandateData_eq:
  assumes "length agent = 32" "length merchant = 32"
  shows "encodeOpenMandateData utf8 mandateId agent merchant cap perTxMax expiresAt purpose =
    Inr (OPEN_MANDATE_DISC @ le_bytes 8 (nat (mandateId mod 2 ^ 64)) @ agent @ merchant @ le_bytes 8 (nat (cap mod 2 ^ 64)) @
      le_bytes 8 (nat (perTxMax mod 2 ^ 64)) @ le_bytes 8 (i64_nat expiresAt) @
      le_bytes 4 (nat (int (length (utf8 purpose)) mod 2 ^ 32)) @ utf8 purpose)"
  using assms unfolding encodeOpenMandateData_def Let_def alloc_filled
  by (simp add: copyTo_filled writes_filled)

lemma override_data_eq:
  assumes "length disc = 8"
  shows "override_data disc amount nonce =
    Inr (disc @ le_bytes 8 (nat (amount mod 2 ^ 64)) @ le_bytes 8 (nat (nonce mod 2 ^ 64)))"
  using assms unfolding override_data_def alloc_filled by (simp add: copyTo_filled writes_filled)

lemma encodeOpenTradeData_eq:
  assumes "length (ot_agent a) = 32"
  shows "encodeOpenTradeData utf8 a =
    Inr (OPEN_TRADE_RULE_DISC @ le_bytes 8 (nat (ot_ruleId a mod 2 ^ 64)) @ ot_agent a @ [word_of_int (ot_exchangeKind a)] @
      le_bytes 8 (nat (ot_cap a mod 2 ^ 64)) @ le_bytes 8 (nat (ot_perTradeMax a mod 2 ^ 64)) @
      le_bytes 8 (nat (ot_dailyLimit a mod 2 ^ 64)) @ le_bytes 8 (nat (ot_floorNum a mod 2 ^ 64)) @
      le_bytes 8 (nat (ot_floorDen a mod 2 ^ 64)) @ le_bytes 8 (i64_nat (ot_expiresAt a)) @
      le_bytes 4 (nat (int (length (utf8 (ot_purpose a))) mod 2 ^ 32)) @ utf8 (ot_purpose a))"
  using assms unfolding encodeOpenTradeData_def Let_def alloc_filled
  by (simp add: copyTo_filled writes_filled writeByte_filled)


section \<open>The program reads what the owner asked for\<close>

text \<open>C40: the mandate the owner signs is the mandate the program opens. From the instruction the app
  builds, the program reads the agent, payee, expiry and purpose that were asked for; and it reads
  the cap and the per-payment maximum exactly when they fit in 64 bits.\<close>

theorem program_reads_open_mandate:
  assumes "length (om_agent a) = 32" "length (om_merchant a) = 32" "- (2 ^ 63) \<le> om_expiresAt a" "om_expiresAt a < 2 ^ 63"
    and "valid (utf8 (om_purpose a))" "length (utf8 (om_purpose a)) < 2 ^ 32"
  shows "\<exists>i mandate ledger args. openMandateInstruction fpa utf8 system a = Inr (i, mandate, ledger) \<and>
    take 8 (ix_data i) = OPEN_MANDATE_DISC \<and> read_open_mandate valid (drop 8 (ix_data i)) = Some args \<and>
    oa_agent args = om_agent a \<and> oa_merchant args = om_merchant a \<and> oa_expires_at args = om_expiresAt a \<and>
    oa_purpose args = utf8 (om_purpose a) \<and> (int (unat (oa_cap args)) = om_cap a \<longleftrightarrow> 0 \<le> om_cap a \<and> om_cap a < 2 ^ 64) \<and>
    (int (unat (oa_per_tx_max args)) = om_perTxMax a \<longleftrightarrow> 0 \<le> om_perTxMax a \<and> om_perTxMax a < 2 ^ 64) \<and>
    map snd (ix_keys i) = [(True, True), (False, True), (False, True), (False, True), (False, False), (False, False), (False, False)] \<and>
    ledger = fpa [ascii ''ledger'', mandate] (om_programId a)"
proof -
  let ?rest = "le_bytes 8 (nat (om_mandateId a mod 2 ^ 64)) @ om_agent a @ om_merchant a @ le_bytes 8 (nat (om_cap a mod 2 ^ 64)) @
      le_bytes 8 (nat (om_perTxMax a mod 2 ^ 64)) @ le_bytes 8 (i64_nat (om_expiresAt a)) @
      le_bytes 4 (nat (int (length (utf8 (om_purpose a))) mod 2 ^ 32)) @ utf8 (om_purpose a)"
  let ?args = "\<lparr>oa_mandate_id = word_of_int (om_mandateId a), oa_agent = om_agent a,
      oa_merchant = om_merchant a, oa_cap = word_of_int (om_cap a), oa_per_tx_max = word_of_int (om_perTxMax a),
      oa_expires_at = om_expiresAt a, oa_purpose = utf8 (om_purpose a)\<rparr>"
  have read: "read_open_mandate valid ?rest = Some ?args"
    unfolding read_open_mandate_def take_images(1) take_images(2) [OF assms(3,4)] take_images(3) [OF assms(1)]
      take_images(3) [OF assms(2)] take_images(4) [where valid = valid, OF assms(5,6)] bind.bind_lunit prod.case by (rule refl)
  have parts: "take 8 (OPEN_MANDATE_DISC @ xs) = OPEN_MANDATE_DISC" "drop 8 (OPEN_MANDATE_DISC @ xs) = xs" for xs
    by simp_all
  show ?thesis
    unfolding openMandateInstruction_def mandatePda_def u64Le_eq andThen_Inr Let_def encodeOpenMandateData_eq [OF assms(1,2)]
    by (intro exI conjI, rule refl, unfold instruction.simps parts, rule refl, rule read, unfold OpenMandateArgs.simps word_fits)
      (simp_all only: ledgerPda_def list.map snd_conv)
qed


definition demo_open :: OpenMandateIxArgs where
  "demo_open = \<lparr>om_programId = demo_key 9, om_owner = demo_key 1, om_agent = demo_key 2, om_merchant = demo_key 3,
     om_mint = demo_key 4, om_source = demo_key 5, om_tokenProgram = demo_key 6, om_mandateId = 7, om_cap = 100,
     om_perTxMax = 10, om_expiresAt = 90000, om_purpose = ''rent''\<rparr>"

theorem program_reads_open_mandate_witness:
  "\<exists>i mandate ledger args. openMandateInstruction (\<lambda>seeds p. concat seeds) ascii (demo_key 0) demo_open = Inr (i, mandate, ledger) \<and>
     read_open_mandate (\<lambda>_. True) (drop 8 (ix_data i)) = Some args \<and> int (unat (oa_cap args)) = 100 \<and> oa_agent args = demo_key 2"
proof -
  have parts: "om_agent demo_open = demo_key 2" "om_cap demo_open = 100" by (simp_all add: demo_open_def)
  from program_reads_open_mandate [of demo_open "\<lambda>_. True" ascii "\<lambda>seeds p. concat seeds" "demo_key 0"]
  show ?thesis by (fastforce simp: parts demo_open_def ascii_def)
qed

text \<open>An override the owner signs reaches the program unchanged. From either override instruction the
  program reads back the amount and the nonce (as 64-bit numbers), with the owner as the only signer
  and the ledger of that very mandate or rule.\<close>

theorem program_reads_overrides:
  "(\<exists>i. grantOverrideInstruction fpa programId owner mandate source tokenProgram amount nonce = Inr i \<and>
      take 8 (ix_data i) = GRANT_OVERRIDE_DISC \<and>
      read_two_u64 (drop 8 (ix_data i)) = Some (word_of_int amount, word_of_int nonce) \<and>
      filter (\<lambda>k. fst (snd k)) (ix_keys i) = [(owner, True, False)] \<and>
      ix_keys i ! 2 = (ledgerPda fpa programId mandate, False, True)) \<and>
   (\<exists>i. grantTradeOverrideInstruction fpa programId owner rl amount nonce = Inr i \<and>
      take 8 (ix_data i) = GRANT_TRADE_OVERRIDE_DISC \<and>
      read_two_u64 (drop 8 (ix_data i)) = Some (word_of_int amount, word_of_int nonce) \<and>
      filter (\<lambda>k. fst (snd k)) (ix_keys i) = [(owner, True, False)] \<and>
      ix_keys i ! 2 = (tradeLedgerPda fpa programId rl, False, True))"
proof -
  let ?body = "le_bytes 8 (nat (amount mod 2 ^ 64)) @ le_bytes 8 (nat (nonce mod 2 ^ 64))"
  have read: "read_two_u64 ?body = Some (word_of_int amount, word_of_int nonce)"
    unfolding read_two_u64_def take_images(1) take_images(1) [of nonce "[]", unfolded append_Nil2] bind.bind_lunit prod.case
    by (rule refl)
  have parts: "take 8 (GRANT_OVERRIDE_DISC @ xs) = GRANT_OVERRIDE_DISC" "drop 8 (GRANT_OVERRIDE_DISC @ xs) = xs"
      "take 8 (GRANT_TRADE_OVERRIDE_DISC @ xs) = GRANT_TRADE_OVERRIDE_DISC" "drop 8 (GRANT_TRADE_OVERRIDE_DISC @ xs) = xs" for xs
    by simp_all
  note built = grantOverrideInstruction_def grantTradeOverrideInstruction_def encodeGrantOverrideData_def
    override_data_eq [OF length_ix_discs(2)] override_data_eq [OF length_ix_discs(4)] andThen_Inr
  let ?i = "\<lparr>ix_programId = programId, ix_keys = ownerActionKeys fpa programId owner mandate source tokenProgram,
      ix_data = GRANT_OVERRIDE_DISC @ ?body\<rparr>"
  let ?j = "\<lparr>ix_programId = programId,
      ix_keys = [(owner, True, False), (rl, False, True), (tradeLedgerPda fpa programId rl, False, True)],
      ix_data = GRANT_TRADE_OVERRIDE_DISC @ ?body\<rparr>"
  have i: "grantOverrideInstruction fpa programId owner mandate source tokenProgram amount nonce = Inr ?i"
    and j: "grantTradeOverrideInstruction fpa programId owner rl amount nonce = Inr ?j"
    by (simp_all only: built)
  have "filter (\<lambda>k. fst (snd k)) (ix_keys ?i) = [(owner, True, False)]" "filter (\<lambda>k. fst (snd k)) (ix_keys ?j) = [(owner, True, False)]"
      "ix_keys ?i ! 2 = (ledgerPda fpa programId mandate, False, True)" "ix_keys ?j ! 2 = (tradeLedgerPda fpa programId rl, False, True)"
    by (simp_all add: ownerActionKeys_def)
  then show ?thesis
    by (intro conjI exI [of _ ?i] exI [of _ ?j] i j) (simp_all only: instruction.simps parts read)
qed

text \<open>The trade rule the owner signs is the trade rule the program opens: agent, exchange kind, limits,
  price floor, expiry and purpose are read back from the instruction (numbers as 64-bit numbers).\<close>

theorem program_reads_open_trade:
  assumes "length (ot_agent a) = 32" "- (2 ^ 63) \<le> ot_expiresAt a" "ot_expiresAt a < 2 ^ 63"
    and "valid (utf8 (ot_purpose a))" "length (utf8 (ot_purpose a)) < 2 ^ 32"
  shows "\<exists>i. openTradeRuleInstruction utf8 system a = Inr i \<and> take 8 (ix_data i) = OPEN_TRADE_RULE_DISC \<and>
    read_open_trade valid (drop 8 (ix_data i)) = Some
      \<lparr>oo_rule_id = word_of_int (ot_ruleId a), oo_agent = ot_agent a, oo_exchange_kind = word_of_int (ot_exchangeKind a),
       oo_cap = word_of_int (ot_cap a), oo_per_trade_max = word_of_int (ot_perTradeMax a),
       oo_daily_limit = word_of_int (ot_dailyLimit a), oo_floor_num = word_of_int (ot_floorNum a),
       oo_floor_den = word_of_int (ot_floorDen a), oo_expires_at = ot_expiresAt a, oo_purpose = utf8 (ot_purpose a)\<rparr>"
proof -
  have parts: "take 8 (OPEN_TRADE_RULE_DISC @ xs) = OPEN_TRADE_RULE_DISC" "drop 8 (OPEN_TRADE_RULE_DISC @ xs) = xs" for xs
    by simp_all
  have byte: "take_u8 ([b] @ rest) = Some (b, rest)" for b rest by (simp add: take_u8_def)
  show ?thesis
    unfolding openTradeRuleInstruction_def encodeOpenTradeData_eq [OF assms(1)] andThen_Inr
    by (intro exI conjI, rule refl, unfold instruction.simps parts, rule refl,
        unfold read_open_trade_def take_images(1) take_images(2) [OF assms(2,3)] take_images(3) [OF assms(1)] byte
          take_images(4) [where valid = valid, OF assms(4,5)] bind.bind_lunit prod.case, rule refl)
qed


end
