(* ===== verification/Hold_Tx.thy ===== *)
theory Hold_Tx
  imports Instructions
begin

text \<open>
  The Hold instructions as the phone app builds them (\<^verbatim>\<open>app/lib/holdTx.ts\<close>, with the addresses of
  \<^verbatim>\<open>app/lib/holdRead.ts\<close>) and as the SDK's \<open>HoldVault\<close> class builds them before it signs and sends
  (\<^verbatim>\<open>sdk/src/hold.ts\<close>). Sending is network traffic and is not modelled. \<open>fpa\<close> is the address part of
  \<open>findProgramAddressSync\<close>, \<open>tokenId\<close> is \<open>TOKEN_PROGRAM_ID\<close>, \<open>system\<close> is \<open>SystemProgram.programId\<close> and \<open>parse\<close> is
  the key constructor.
\<close>

section \<open>Addresses and discriminators\<close>

definition app_holdVaultPda :: "finder \<Rightarrow> pubkey \<Rightarrow> pubkey \<Rightarrow> int \<Rightarrow> pubkey" where
  "app_holdVaultPda fpa programId owner vaultId = fpa [ascii ''hold'', owner, hold_u64le vaultId] programId"

definition holdLedgerPda :: "finder \<Rightarrow> pubkey \<Rightarrow> pubkey \<Rightarrow> pubkey" where
  "holdLedgerPda fpa programId vault = fpa [ascii ''hold-ledger'', vault] programId"

definition holdTokenPda :: "finder \<Rightarrow> pubkey \<Rightarrow> pubkey \<Rightarrow> pubkey" where
  "holdTokenPda fpa programId vault = fpa [ascii ''hold-token'', vault] programId"

definition holdVaultPda :: "finder \<Rightarrow> pubkey \<Rightarrow> pubkey \<Rightarrow> int \<Rightarrow> pubkey result" where
  "holdVaultPda fpa programId owner vaultId =
     andThen (sdk_u64Le vaultId) (\<lambda>seed. Inr (fpa [ascii ''hold'', owner, seed] programId))"

definition INIT_VAULT_DISC :: bytes where "INIT_VAULT_DISC = [77, 79, 85, 150, 33, 217, 52, 106]"
definition DEPOSIT_DISC :: bytes where "DEPOSIT_DISC = [242, 35, 198, 137, 82, 225, 242, 182]"
definition WITHDRAW_DISC :: bytes where "WITHDRAW_DISC = [183, 18, 70, 156, 148, 109, 161, 34]"
definition STOP_DISC :: bytes where "STOP_DISC = [42, 133, 32, 60, 171, 253, 184, 155]"
definition FREEZE_DISC :: bytes where "FREEZE_DISC = [255, 91, 207, 84, 251, 194, 254, 63]"
definition UNFREEZE_DISC :: bytes where "UNFREEZE_DISC = [133, 160, 68, 253, 80, 232, 218, 247]"
definition SKIP_DISC :: bytes where "SKIP_DISC = [154, 63, 181, 53, 19, 26, 117, 45]"
definition RECOVER_DISC :: bytes where "RECOVER_DISC = [108, 216, 38, 58, 109, 146, 116, 17]"
definition EXECUTE_HOLD_DISC :: bytes where "EXECUTE_HOLD_DISC = [130, 221, 242, 154, 13, 193, 189, 29]"
definition PROPOSE_CHANGE_DISC :: bytes where "PROPOSE_CHANGE_DISC = [167, 211, 18, 222, 93, 215, 74, 159]"
definition APPLY_CHANGE_DISC :: bytes where "APPLY_CHANGE_DISC = [248, 177, 9, 41, 50, 98, 255, 50]"
definition CANCEL_CHANGE_DISC :: bytes where "CANCEL_CHANGE_DISC = [100, 30, 4, 148, 3, 244, 243, 168]"

lemma length_hold_ix_discs [simp]:
  "length INIT_VAULT_DISC = 8" "length DEPOSIT_DISC = 8" "length WITHDRAW_DISC = 8" "length STOP_DISC = 8"
  "length SKIP_DISC = 8" "length EXECUTE_HOLD_DISC = 8" "length PROPOSE_CHANGE_DISC = 8"
  by (simp_all add: INIT_VAULT_DISC_def DEPOSIT_DISC_def WITHDRAW_DISC_def STOP_DISC_def SKIP_DISC_def
      EXECUTE_HOLD_DISC_def PROPOSE_CHANGE_DISC_def)

section \<open>The phone app\<close>

record HoldWhere =
  hw_vault :: pubkey
  hw_ledger :: pubkey
  hw_vaultToken :: pubkey

definition holdWhere :: "finder \<Rightarrow> pubkey \<Rightarrow> pubkey \<Rightarrow> int \<Rightarrow> HoldWhere" where
  "holdWhere fpa programId owner vaultId =
     (let vault = app_holdVaultPda fpa programId owner vaultId
      in \<lparr>hw_vault = vault, hw_ledger = holdLedgerPda fpa programId vault, hw_vaultToken = holdTokenPda fpa programId vault\<rparr>)"

definition bcopy :: "bytes \<Rightarrow> nat \<Rightarrow> bytes \<Rightarrow> bytes" where
  "bcopy data p src = splice data p (take (length data - p) src)"

definition writeUInt16LE :: "bytes \<Rightarrow> int \<Rightarrow> nat \<Rightarrow> bytes result" where
  "writeUInt16LE data v p =
     (if 0 \<le> v \<and> v \<le> 65535 \<and> p + 2 \<le> length data then Inr (splice data p (le_bytes 2 (nat v))) else Inl RangeError)"

definition app_u64Data :: "bytes \<Rightarrow> int \<Rightarrow> bytes" where
  "app_u64Data disc v = app_writeU64 (bcopy (replicate 16 0) 0 disc) 8 v"

definition token_or :: "pubkey \<Rightarrow> pubkey option \<Rightarrow> pubkey" where
  "token_or tokenId t = (case t of None \<Rightarrow> tokenId | Some k \<Rightarrow> k)"

definition initVaultInstruction ::
  "finder \<Rightarrow> pubkey \<Rightarrow> pubkey \<Rightarrow> pubkey \<Rightarrow> pubkey \<Rightarrow> int \<Rightarrow> pubkey \<Rightarrow> pubkey \<Rightarrow> int \<Rightarrow> int \<Rightarrow> int \<Rightarrow> pubkey \<Rightarrow> pubkey option \<Rightarrow>
   instruction result" where
  "initVaultInstruction fpa tokenId system programId owner vaultId guardian safeAddress dailyLimit delaySecs bigShareBps mint tp =
     (let place = holdWhere fpa programId owner vaultId;
          data = bcopy (replicate 98 0) 0 INIT_VAULT_DISC;
          data = app_writeU64 data 8 vaultId;
          data = bcopy (bcopy data 16 guardian) 48 safeAddress;
          data = app_writeI64 (app_writeU64 data 80 dailyLimit) 88 delaySecs
      in andThen (writeUInt16LE data bigShareBps 96) (\<lambda>data.
           Inr \<lparr>ix_programId = programId,
                ix_keys = [(owner, True, True), (hw_vault place, False, True), (hw_ledger place, False, True),
                           (hw_vaultToken place, False, True), (mint, False, False), (token_or tokenId tp, False, False),
                           (system, False, False)],
                ix_data = data\<rparr>))"

definition depositInstruction ::
  "finder \<Rightarrow> pubkey \<Rightarrow> pubkey \<Rightarrow> pubkey \<Rightarrow> int \<Rightarrow> pubkey \<Rightarrow> pubkey \<Rightarrow> int \<Rightarrow> pubkey option \<Rightarrow> instruction" where
  "depositInstruction fpa tokenId programId owner vaultId source mint amount tp =
     (let place = holdWhere fpa programId owner vaultId
      in \<lparr>ix_programId = programId,
          ix_keys = [(owner, True, False), (hw_vault place, False, True), (hw_ledger place, False, True),
                     (source, False, True), (hw_vaultToken place, False, True), (mint, False, False),
                     (token_or tokenId tp, False, False)],
          ix_data = app_u64Data DEPOSIT_DISC amount\<rparr>)"

definition withdrawInstruction ::
  "finder \<Rightarrow> pubkey \<Rightarrow> pubkey \<Rightarrow> pubkey \<Rightarrow> int \<Rightarrow> pubkey \<Rightarrow> pubkey \<Rightarrow> int \<Rightarrow> pubkey option \<Rightarrow> instruction" where
  "withdrawInstruction fpa tokenId programId owner vaultId destination mint amount tp =
     (let place = holdWhere fpa programId owner vaultId
      in \<lparr>ix_programId = programId,
          ix_keys = [(owner, True, False), (hw_vault place, False, True), (hw_ledger place, False, True),
                     (hw_vaultToken place, False, True), (destination, False, True), (mint, False, False),
                     (token_or tokenId tp, False, False)],
          ix_data = app_u64Data WITHDRAW_DISC amount\<rparr>)"

definition stopInstruction :: "finder \<Rightarrow> pubkey \<Rightarrow> pubkey \<Rightarrow> pubkey \<Rightarrow> int \<Rightarrow> int \<Rightarrow> instruction" where
  "stopInstruction fpa programId authority owner vaultId wid =
     (let place = holdWhere fpa programId owner vaultId
      in \<lparr>ix_programId = programId,
          ix_keys = [(authority, True, False), (hw_vault place, False, True), (hw_ledger place, False, True)],
          ix_data = app_u64Data STOP_DISC wid\<rparr>)"

definition freezeInstruction :: "finder \<Rightarrow> pubkey \<Rightarrow> pubkey \<Rightarrow> pubkey \<Rightarrow> int \<Rightarrow> instruction" where
  "freezeInstruction fpa programId authority owner vaultId =
     (let place = holdWhere fpa programId owner vaultId
      in \<lparr>ix_programId = programId,
          ix_keys = [(authority, True, False), (hw_vault place, False, True), (hw_ledger place, False, True)],
          ix_data = FREEZE_DISC\<rparr>)"

definition recoverInstruction ::
  "finder \<Rightarrow> pubkey \<Rightarrow> pubkey \<Rightarrow> pubkey \<Rightarrow> pubkey \<Rightarrow> int \<Rightarrow> pubkey \<Rightarrow> pubkey \<Rightarrow> pubkey option \<Rightarrow> instruction" where
  "recoverInstruction fpa tokenId programId authority owner vaultId destination mint tp =
     (let place = holdWhere fpa programId owner vaultId
      in \<lparr>ix_programId = programId,
          ix_keys = [(authority, True, False), (hw_vault place, False, True), (hw_ledger place, False, True),
                     (hw_vaultToken place, False, True), (destination, False, True), (mint, False, False),
                     (token_or tokenId tp, False, False)],
          ix_data = RECOVER_DISC\<rparr>)"

definition skipInstruction ::
  "finder \<Rightarrow> pubkey \<Rightarrow> pubkey \<Rightarrow> pubkey \<Rightarrow> pubkey \<Rightarrow> int \<Rightarrow> pubkey \<Rightarrow> pubkey \<Rightarrow> int \<Rightarrow> pubkey option \<Rightarrow> instruction" where
  "skipInstruction fpa tokenId programId owner guardian vaultId destination mint wid tp =
     (let place = holdWhere fpa programId owner vaultId
      in \<lparr>ix_programId = programId,
          ix_keys = [(owner, True, False), (guardian, True, False), (hw_vault place, False, True),
                     (hw_ledger place, False, True), (hw_vaultToken place, False, True), (destination, False, True),
                     (mint, False, False), (token_or tokenId tp, False, False)],
          ix_data = app_u64Data SKIP_DISC wid\<rparr>)"

definition unfreezeInstruction :: "finder \<Rightarrow> pubkey \<Rightarrow> pubkey \<Rightarrow> pubkey option \<Rightarrow> int \<Rightarrow> instruction" where
  "unfreezeInstruction fpa programId owner guardian vaultId =
     (let place = holdWhere fpa programId owner vaultId;
          g = (case guardian of None \<Rightarrow> (programId, False, False) | Some k \<Rightarrow> (k, True, False))
      in \<lparr>ix_programId = programId,
          ix_keys = [(owner, True, False), g, (hw_vault place, False, True), (hw_ledger place, False, True)],
          ix_data = UNFREEZE_DISC\<rparr>)"

section \<open>The SDK\<close>

text \<open>\<open>writeBigUInt64LE\<close> and \<open>writeBigInt64LE\<close> throw on a value outside the type.\<close>

definition writeBigUInt64LE :: "bytes \<Rightarrow> int \<Rightarrow> nat \<Rightarrow> bytes result" where
  "writeBigUInt64LE data v p =
     (if 0 \<le> v \<and> v < 2 ^ 64 \<and> p + 8 \<le> length data then Inr (splice data p (le_bytes 8 (nat v))) else Inl RangeError)"

definition writeBigInt64LE :: "bytes \<Rightarrow> int \<Rightarrow> nat \<Rightarrow> bytes result" where
  "writeBigInt64LE data v p =
     (if - (2 ^ 63) \<le> v \<and> v < 2 ^ 63 \<and> p + 8 \<le> length data then Inr (splice data p (le_bytes 8 (i64_nat v))) else Inl RangeError)"

text \<open>A \<open>number\<close> that must be an integer of 16 bits: \<open>Safe\<close> is an integer, \<open>OtherNumber\<close> is not.\<close>

definition asU16 :: "js_num \<Rightarrow> string \<Rightarrow> int result" where
  "asU16 v field =
     (case v of
        Safe i \<Rightarrow> if i < 0 \<or> i > 65535 then Inl (Error (field @ '' must be an integer from 0 to 65535'')) else Inr i
      | _ \<Rightarrow> Inl (Error (field @ '' must be an integer from 0 to 65535'')))"

definition tokenProgramOf :: "(string \<Rightarrow> string + pubkey) \<Rightarrow> pubkey \<Rightarrow> pubkey key_arg option \<Rightarrow> string \<Rightarrow> pubkey result" where
  "tokenProgramOf parse tokenId v field = (case v of None \<Rightarrow> Inr tokenId | Some k \<Rightarrow> toPublicKey parse k field)"

definition u64Data :: "bytes \<Rightarrow> int \<Rightarrow> bytes result" where
  "u64Data disc v = writeBigUInt64LE (bcopy (replicate 16 0) 0 disc) v 8"

definition derived :: "finder \<Rightarrow> pubkey \<Rightarrow> pubkey \<Rightarrow> int \<Rightarrow> HoldWhere result" where
  "derived fpa programId owner vaultId =
     andThen (holdVaultPda fpa programId owner vaultId) (\<lambda>vault.
       Inr \<lparr>hw_vault = vault, hw_ledger = holdLedgerPda fpa programId vault, hw_vaultToken = holdTokenPda fpa programId vault\<rparr>)"

definition sdk_initVault ::
  "finder \<Rightarrow> (string \<Rightarrow> string + pubkey) \<Rightarrow> pubkey \<Rightarrow> pubkey \<Rightarrow> pubkey \<Rightarrow> pubkey \<Rightarrow> js_num \<Rightarrow> pubkey key_arg option \<Rightarrow> pubkey key_arg \<Rightarrow>
   js_num \<Rightarrow> js_num \<Rightarrow> js_num \<Rightarrow> pubkey key_arg \<Rightarrow> pubkey key_arg option \<Rightarrow> instruction result" where
  "sdk_initVault fpa parse tokenId system programId owner vaultId0 guardian0 safe0 dailyLimit0 delaySecs0 bps0 mint0 tp0 =
     (let label = ''HoldVault.initVault'' in
      andThen (asU64 vaultId0 (label @ '' vaultId'')) (\<lambda>vaultId.
      andThen (case guardian0 of None \<Rightarrow> Inr (replicate 32 0) | Some g \<Rightarrow> toPublicKey parse g (label @ '' guardian'')) (\<lambda>guardian.
      andThen (toPublicKey parse safe0 (label @ '' safeAddress'')) (\<lambda>safeAddress.
      andThen (asU64 dailyLimit0 (label @ '' dailyLimit'')) (\<lambda>dailyLimit.
      andThen (asI64 delaySecs0 (label @ '' delaySecs'')) (\<lambda>delaySecs.
      andThen (asU16 bps0 (label @ '' bigShareBps'')) (\<lambda>bigShareBps.
      andThen (toPublicKey parse mint0 (label @ '' mint'')) (\<lambda>mint.
      andThen (tokenProgramOf parse tokenId tp0 (label @ '' tokenProgram'')) (\<lambda>tokenProgram.
      andThen (derived fpa programId owner vaultId) (\<lambda>place.
      andThen (writeBigUInt64LE (bcopy (replicate 98 0) 0 INIT_VAULT_DISC) vaultId 8) (\<lambda>data.
      andThen (writeBigUInt64LE (bcopy (bcopy data 16 guardian) 48 safeAddress) dailyLimit 80) (\<lambda>data.
      andThen (writeBigInt64LE data delaySecs 88) (\<lambda>data.
      andThen (writeUInt16LE data bigShareBps 96) (\<lambda>data.
        Inr \<lparr>ix_programId = programId,
             ix_keys = [(owner, True, True), (hw_vault place, False, True), (hw_ledger place, False, True),
                        (hw_vaultToken place, False, True), (mint, False, False), (tokenProgram, False, False),
                        (system, False, False)],
             ix_data = data\<rparr>))))))))))))))"

definition sdk_deposit ::
  "finder \<Rightarrow> (string \<Rightarrow> string + pubkey) \<Rightarrow> pubkey \<Rightarrow> pubkey \<Rightarrow> pubkey \<Rightarrow> js_num \<Rightarrow> pubkey key_arg \<Rightarrow> pubkey key_arg \<Rightarrow> js_num \<Rightarrow>
   pubkey key_arg option \<Rightarrow> instruction result" where
  "sdk_deposit fpa parse tokenId programId owner vaultId0 source0 mint0 amount0 tp0 =
     (let label = ''HoldVault.deposit'' in
      andThen (asU64 vaultId0 (label @ '' vaultId'')) (\<lambda>vaultId.
      andThen (derived fpa programId owner vaultId) (\<lambda>place.
      andThen (asU64 amount0 (label @ '' amount'')) (\<lambda>amount.
      andThen (toPublicKey parse source0 (label @ '' source'')) (\<lambda>source.
      andThen (toPublicKey parse mint0 (label @ '' mint'')) (\<lambda>mint.
      andThen (tokenProgramOf parse tokenId tp0 (label @ '' tokenProgram'')) (\<lambda>tokenProgram.
      andThen (u64Data DEPOSIT_DISC amount) (\<lambda>data.
        Inr \<lparr>ix_programId = programId,
             ix_keys = [(owner, True, False), (hw_vault place, False, True), (hw_ledger place, False, True),
                        (source, False, True), (hw_vaultToken place, False, True), (mint, False, False),
                        (tokenProgram, False, False)],
             ix_data = data\<rparr>))))))))"

definition sdk_withdraw ::
  "finder \<Rightarrow> (string \<Rightarrow> string + pubkey) \<Rightarrow> pubkey \<Rightarrow> pubkey \<Rightarrow> pubkey \<Rightarrow> js_num \<Rightarrow> pubkey key_arg \<Rightarrow> pubkey key_arg \<Rightarrow> js_num \<Rightarrow>
   pubkey key_arg option \<Rightarrow> instruction result" where
  "sdk_withdraw fpa parse tokenId programId owner vaultId0 destination0 mint0 amount0 tp0 =
     (let label = ''HoldVault.withdraw'' in
      andThen (asU64 vaultId0 (label @ '' vaultId'')) (\<lambda>vaultId.
      andThen (derived fpa programId owner vaultId) (\<lambda>place.
      andThen (asU64 amount0 (label @ '' amount'')) (\<lambda>amount.
      andThen (toPublicKey parse destination0 (label @ '' destination'')) (\<lambda>destination.
      andThen (toPublicKey parse mint0 (label @ '' mint'')) (\<lambda>mint.
      andThen (tokenProgramOf parse tokenId tp0 (label @ '' tokenProgram'')) (\<lambda>tokenProgram.
      andThen (u64Data WITHDRAW_DISC amount) (\<lambda>data.
        Inr \<lparr>ix_programId = programId,
             ix_keys = [(owner, True, False), (hw_vault place, False, True), (hw_ledger place, False, True),
                        (hw_vaultToken place, False, True), (destination, False, True), (mint, False, False),
                        (tokenProgram, False, False)],
             ix_data = data\<rparr>))))))))"

definition sdk_execute ::
  "finder \<Rightarrow> (string \<Rightarrow> string + pubkey) \<Rightarrow> pubkey \<Rightarrow> pubkey \<Rightarrow> pubkey key_arg \<Rightarrow> js_num \<Rightarrow> pubkey key_arg \<Rightarrow> pubkey key_arg \<Rightarrow> js_num \<Rightarrow>
   pubkey key_arg option \<Rightarrow> instruction result" where
  "sdk_execute fpa parse tokenId programId owner0 vaultId0 destination0 mint0 wid0 tp0 =
     (let label = ''HoldVault.execute'' in
      andThen (toPublicKey parse owner0 (label @ '' owner'')) (\<lambda>owner.
      andThen (asU64 vaultId0 (label @ '' vaultId'')) (\<lambda>vaultId.
      andThen (derived fpa programId owner vaultId) (\<lambda>place.
      andThen (toPublicKey parse destination0 (label @ '' destination'')) (\<lambda>destination.
      andThen (toPublicKey parse mint0 (label @ '' mint'')) (\<lambda>mint.
      andThen (tokenProgramOf parse tokenId tp0 (label @ '' tokenProgram'')) (\<lambda>tokenProgram.
      andThen (asU64 wid0 (label @ '' id'')) (\<lambda>wid.
      andThen (u64Data EXECUTE_HOLD_DISC wid) (\<lambda>data.
        Inr \<lparr>ix_programId = programId,
             ix_keys = [(hw_vault place, False, True), (hw_ledger place, False, True), (hw_vaultToken place, False, True),
                        (destination, False, True), (mint, False, False), (tokenProgram, False, False)],
             ix_data = data\<rparr>)))))))))"

definition sdk_authorityIx ::
  "finder \<Rightarrow> (string \<Rightarrow> string + pubkey) \<Rightarrow> pubkey \<Rightarrow> string \<Rightarrow> bytes \<Rightarrow> pubkey \<Rightarrow> pubkey key_arg \<Rightarrow> js_num \<Rightarrow> int option \<Rightarrow> instruction result" where
  "sdk_authorityIx fpa parse programId label disc authority owner0 vaultId0 wid =
     andThen (toPublicKey parse owner0 (label @ '' owner'')) (\<lambda>owner.
     andThen (asU64 vaultId0 (label @ '' vaultId'')) (\<lambda>vaultId.
     andThen (derived fpa programId owner vaultId) (\<lambda>place.
     andThen (case wid of None \<Rightarrow> Inr disc | Some w \<Rightarrow> u64Data disc w) (\<lambda>data.
       Inr \<lparr>ix_programId = programId,
            ix_keys = [(authority, True, False), (hw_vault place, False, True), (hw_ledger place, False, True)],
            ix_data = data\<rparr>))))"

definition sdk_stop ::
  "finder \<Rightarrow> (string \<Rightarrow> string + pubkey) \<Rightarrow> pubkey \<Rightarrow> pubkey \<Rightarrow> pubkey key_arg \<Rightarrow> js_num \<Rightarrow> js_num \<Rightarrow> instruction result" where
  "sdk_stop fpa parse programId authority owner0 vaultId0 wid0 =
     andThen (asU64 wid0 ''HoldVault.stop id'') (\<lambda>wid.
       sdk_authorityIx fpa parse programId ''HoldVault.stop'' STOP_DISC authority owner0 vaultId0 (Some wid))"

definition sdk_freeze ::
  "finder \<Rightarrow> (string \<Rightarrow> string + pubkey) \<Rightarrow> pubkey \<Rightarrow> pubkey \<Rightarrow> pubkey key_arg \<Rightarrow> js_num \<Rightarrow> instruction result" where
  "sdk_freeze fpa parse programId authority owner0 vaultId0 =
     sdk_authorityIx fpa parse programId ''HoldVault.freeze'' FREEZE_DISC authority owner0 vaultId0 None"

definition sdk_cancelChange ::
  "finder \<Rightarrow> (string \<Rightarrow> string + pubkey) \<Rightarrow> pubkey \<Rightarrow> pubkey \<Rightarrow> pubkey key_arg \<Rightarrow> js_num \<Rightarrow> instruction result" where
  "sdk_cancelChange fpa parse programId authority owner0 vaultId0 =
     sdk_authorityIx fpa parse programId ''HoldVault.cancelChange'' CANCEL_CHANGE_DISC authority owner0 vaultId0 None"

definition sdk_unfreeze :: "finder \<Rightarrow> pubkey \<Rightarrow> pubkey \<Rightarrow> pubkey option \<Rightarrow> js_num \<Rightarrow> instruction result" where
  "sdk_unfreeze fpa programId owner guardian vaultId0 =
     andThen (asU64 vaultId0 ''HoldVault.unfreeze vaultId'') (\<lambda>vaultId.
     andThen (derived fpa programId owner vaultId) (\<lambda>place.
       let g = (case guardian of None \<Rightarrow> (programId, False, False) | Some k \<Rightarrow> (k, True, False))
       in Inr \<lparr>ix_programId = programId,
               ix_keys = [(owner, True, False), g, (hw_vault place, False, True), (hw_ledger place, False, True)],
               ix_data = UNFREEZE_DISC\<rparr>))"

definition sdk_skip ::
  "finder \<Rightarrow> (string \<Rightarrow> string + pubkey) \<Rightarrow> pubkey \<Rightarrow> pubkey \<Rightarrow> pubkey \<Rightarrow> pubkey \<Rightarrow> js_num \<Rightarrow> pubkey key_arg \<Rightarrow> pubkey key_arg \<Rightarrow> js_num \<Rightarrow>
   pubkey key_arg option \<Rightarrow> instruction result" where
  "sdk_skip fpa parse tokenId programId owner guardian vaultId0 destination0 mint0 wid0 tp0 =
     (let label = ''HoldVault.skip'' in
      andThen (asU64 vaultId0 (label @ '' vaultId'')) (\<lambda>vaultId.
      andThen (derived fpa programId owner vaultId) (\<lambda>place.
      andThen (toPublicKey parse destination0 (label @ '' destination'')) (\<lambda>destination.
      andThen (toPublicKey parse mint0 (label @ '' mint'')) (\<lambda>mint.
      andThen (tokenProgramOf parse tokenId tp0 (label @ '' tokenProgram'')) (\<lambda>tokenProgram.
      andThen (asU64 wid0 (label @ '' id'')) (\<lambda>wid.
      andThen (u64Data SKIP_DISC wid) (\<lambda>data.
        Inr \<lparr>ix_programId = programId,
             ix_keys = [(owner, True, False), (guardian, True, False), (hw_vault place, False, True),
                        (hw_ledger place, False, True), (hw_vaultToken place, False, True), (destination, False, True),
                        (mint, False, False), (tokenProgram, False, False)],
             ix_data = data\<rparr>))))))))"

definition sdk_recover ::
  "finder \<Rightarrow> (string \<Rightarrow> string + pubkey) \<Rightarrow> pubkey \<Rightarrow> pubkey \<Rightarrow> pubkey \<Rightarrow> pubkey key_arg \<Rightarrow> js_num \<Rightarrow> pubkey key_arg \<Rightarrow> pubkey key_arg \<Rightarrow>
   pubkey key_arg option \<Rightarrow> instruction result" where
  "sdk_recover fpa parse tokenId programId authority owner0 vaultId0 destination0 mint0 tp0 =
     (let label = ''HoldVault.recover'' in
      andThen (toPublicKey parse owner0 (label @ '' owner'')) (\<lambda>owner.
      andThen (asU64 vaultId0 (label @ '' vaultId'')) (\<lambda>vaultId.
      andThen (derived fpa programId owner vaultId) (\<lambda>place.
      andThen (toPublicKey parse destination0 (label @ '' destination'')) (\<lambda>destination.
      andThen (toPublicKey parse mint0 (label @ '' mint'')) (\<lambda>mint.
      andThen (tokenProgramOf parse tokenId tp0 (label @ '' tokenProgram'')) (\<lambda>tokenProgram.
        Inr \<lparr>ix_programId = programId,
             ix_keys = [(authority, True, False), (hw_vault place, False, True), (hw_ledger place, False, True),
                        (hw_vaultToken place, False, True), (destination, False, True), (mint, False, False),
                        (tokenProgram, False, False)],
             ix_data = RECOVER_DISC\<rparr>)))))))"

definition sdk_proposeChange ::
  "finder \<Rightarrow> (string \<Rightarrow> string + pubkey) \<Rightarrow> pubkey \<Rightarrow> pubkey \<Rightarrow> js_num \<Rightarrow> js_num \<Rightarrow> js_num \<Rightarrow> js_num \<Rightarrow> pubkey key_arg \<Rightarrow> pubkey key_arg \<Rightarrow>
   instruction result" where
  "sdk_proposeChange fpa parse programId owner vaultId0 dailyLimit0 delaySecs0 bps0 guardian0 safe0 =
     (let label = ''HoldVault.proposeChange'' in
      andThen (asU64 vaultId0 (label @ '' vaultId'')) (\<lambda>vaultId.
      andThen (derived fpa programId owner vaultId) (\<lambda>place.
      andThen (asU64 dailyLimit0 (label @ '' dailyLimit'')) (\<lambda>dailyLimit.
      andThen (asI64 delaySecs0 (label @ '' delaySecs'')) (\<lambda>delaySecs.
      andThen (asU16 bps0 (label @ '' bigShareBps'')) (\<lambda>bigShareBps.
      andThen (toPublicKey parse guardian0 (label @ '' guardian'')) (\<lambda>guardian.
      andThen (toPublicKey parse safe0 (label @ '' safeAddress'')) (\<lambda>safeAddress.
      andThen (writeBigUInt64LE (bcopy (replicate 90 0) 0 PROPOSE_CHANGE_DISC) dailyLimit 8) (\<lambda>data.
      andThen (writeBigInt64LE data delaySecs 16) (\<lambda>data.
      andThen (writeUInt16LE data bigShareBps 24) (\<lambda>data.
        Inr \<lparr>ix_programId = programId,
             ix_keys = [(owner, True, False), (hw_vault place, False, True), (hw_ledger place, False, True)],
             ix_data = bcopy (bcopy data 26 guardian) 58 safeAddress\<rparr>)))))))))))"

definition sdk_applyChange ::
  "finder \<Rightarrow> (string \<Rightarrow> string + pubkey) \<Rightarrow> pubkey \<Rightarrow> pubkey key_arg \<Rightarrow> js_num \<Rightarrow> instruction result" where
  "sdk_applyChange fpa parse programId owner0 vaultId0 =
     (let label = ''HoldVault.applyChange'' in
      andThen (toPublicKey parse owner0 (label @ '' owner'')) (\<lambda>owner.
      andThen (asU64 vaultId0 (label @ '' vaultId'')) (\<lambda>vaultId.
      andThen (derived fpa programId owner vaultId) (\<lambda>place.
        Inr \<lparr>ix_programId = programId, ix_keys = [(hw_vault place, False, True), (hw_ledger place, False, True)],
             ix_data = APPLY_CHANGE_DISC\<rparr>))))"


section \<open>The two clients build the same instructions\<close>

definition zpad :: "bytes \<Rightarrow> nat \<Rightarrow> bytes" where
  "zpad pre n = pre @ replicate n 0"

lemma zpad_start: "replicate n 0 = zpad [] n"
  by (simp add: zpad_def)

lemma zpad_done: "zpad pre 0 = pre"
  by (simp add: zpad_def)

lemma splice_zpad: "p = length pre \<Longrightarrow> length new \<le> n \<Longrightarrow> splice (zpad pre n) p new = zpad (pre @ new) (n - length new)"
  by (simp add: zpad_def splice_filled)

lemma app_writeU64_eq: "off + 8 \<le> length data \<Longrightarrow> app_writeU64 data off v = splice data off (le_bytes 8 (nat (v mod 2 ^ 64)))"
  unfolding app_writeU64_def by (simp only: write_bytes_splice) simp

lemma writes_zpad:
  "p = length pre \<Longrightarrow> length src \<le> n \<Longrightarrow> bcopy (zpad pre n) p src = zpad (pre @ src) (n - length src)"
  "p = length pre \<Longrightarrow> 8 \<le> n \<Longrightarrow> app_writeU64 (zpad pre n) p v = zpad (pre @ le_bytes 8 (nat (v mod 2 ^ 64))) (n - 8)"
  "p = length pre \<Longrightarrow> 8 \<le> n \<Longrightarrow> 0 \<le> v \<Longrightarrow> v < 2 ^ 64 \<Longrightarrow>
     writeBigUInt64LE (zpad pre n) v p = Inr (zpad (pre @ le_bytes 8 (nat (v mod 2 ^ 64))) (n - 8))"
  "p = length pre \<Longrightarrow> 8 \<le> n \<Longrightarrow> - (2 ^ 63) \<le> v \<Longrightarrow> v < 2 ^ 63 \<Longrightarrow>
     writeBigInt64LE (zpad pre n) v p = Inr (zpad (pre @ le_bytes 8 (i64_nat v)) (n - 8))"
  "p = length pre \<Longrightarrow> 2 \<le> n \<Longrightarrow> 0 \<le> v \<Longrightarrow> v \<le> 65535 \<Longrightarrow>
     writeUInt16LE (zpad pre n) v p = Inr (zpad (pre @ le_bytes 2 (nat v)) (n - 2))"
proof -
  have len: "length (zpad pre n) = length pre + n" by (simp add: zpad_def)
  show "bcopy (zpad pre n) p src = zpad (pre @ src) (n - length src)" if "p = length pre" "length src \<le> n"
    using that by (simp add: bcopy_def len splice_zpad)
  show "app_writeU64 (zpad pre n) p v = zpad (pre @ le_bytes 8 (nat (v mod 2 ^ 64))) (n - 8)" if "p = length pre" "8 \<le> n"
    using that by (subst app_writeU64_eq) (simp_all only: len splice_zpad length_le_bytes add_le_cancel_left)
  show "writeBigUInt64LE (zpad pre n) v p = Inr (zpad (pre @ le_bytes 8 (nat (v mod 2 ^ 64))) (n - 8))"
    if "p = length pre" "8 \<le> n" "0 \<le> v" "v < 2 ^ 64"
    using that by (simp add: writeBigUInt64LE_def len splice_zpad)
  show "writeBigInt64LE (zpad pre n) v p = Inr (zpad (pre @ le_bytes 8 (i64_nat v)) (n - 8))"
    if "p = length pre" "8 \<le> n" "- (2 ^ 63) \<le> v" "v < 2 ^ 63"
    using that by (simp add: writeBigInt64LE_def len splice_zpad)
  show "writeUInt16LE (zpad pre n) v p = Inr (zpad (pre @ le_bytes 2 (nat v)) (n - 2))"
    if "p = length pre" "2 \<le> n" "0 \<le> v" "v \<le> 65535"
    using that by (simp add: writeUInt16LE_def len splice_zpad)
qed

lemma app_writeI64_zpad:
  assumes "p = length pre" "8 \<le> n" "- (2 ^ 63) \<le> v" "v < 2 ^ 63"
  shows "app_writeI64 (zpad pre n) p v = zpad (pre @ le_bytes 8 (i64_nat v)) (n - 8)"
proof -
  have "(if v < 0 then v + 0x10000000000000000 else v) mod 2 ^ 64 = v mod 2 ^ 64" by simp
  then show ?thesis
    unfolding app_writeI64_def writes_zpad(2) [OF assms(1,2)] i64_nat_def by (simp only:)
qed

lemma hold_u64le_eq: "hold_u64le v = le_bytes 8 (nat (v mod 2 ^ 64))"
  unfolding hold_u64le_def zpad_start by (simp add: writes_zpad zpad_done)

lemma u64Data_eq:
  assumes "length disc = 8"
  shows "app_u64Data disc v = disc @ le_bytes 8 (nat (v mod 2 ^ 64))"
    and "0 \<le> v \<Longrightarrow> v < 2 ^ 64 \<Longrightarrow> u64Data disc v = Inr (app_u64Data disc v)"
  using assms unfolding app_u64Data_def u64Data_def zpad_start by (simp_all add: writes_zpad zpad_done)

lemma derived_eq:
  assumes "0 \<le> vaultId" "vaultId < 2 ^ 64"
  shows "derived fpa programId owner vaultId = Inr (holdWhere fpa programId owner vaultId)"
  using assms by (simp add: derived_def holdVaultPda_def sdk_u64Le_def holdWhere_def app_holdVaultPda_def hold_u64le_eq Let_def)

lemma args_pass [simp]:
  "0 \<le> v \<Longrightarrow> v < 2 ^ 64 \<Longrightarrow> asU64 (Big v) f = Inr v" "- (2 ^ 63) \<le> t \<Longrightarrow> t < 2 ^ 63 \<Longrightarrow> asI64 (Big t) f = Inr t"
  "0 \<le> b \<Longrightarrow> b \<le> 65535 \<Longrightarrow> asU16 (Safe b) f = Inr b" "toPublicKey parse (IsKey k) f = Inr k"
  "tokenProgramOf parse tokenId (map_option IsKey tp) f = Inr (token_or tokenId tp)"
  by (simp_all add: asU64_def asI64_def asU16_def toPublicKey_def tokenProgramOf_def token_or_def U64_MAX_def split: option.splits)

definition u64_range :: "int \<Rightarrow> bool" where
  "u64_range v \<longleftrightarrow> 0 \<le> v \<and> v < 2 ^ 64"

lemma init_data:
  assumes "u64_range vaultId" "u64_range dailyLimit" "i64_ok delaySecs" "0 \<le> bps" "bps \<le> 65535" "length g = 32" "length safe = 32"
  shows "sdk_initVault fpa parse tokenId system programId owner (Big vaultId) (Some (IsKey g)) (IsKey safe) (Big dailyLimit)
      (Big delaySecs) (Safe bps) (IsKey mint) (map_option IsKey tp) =
    initVaultInstruction fpa tokenId system programId owner vaultId g safe dailyLimit delaySecs bps mint tp"
  using assms unfolding sdk_initVault_def initVaultInstruction_def zpad_start u64_range_def i64_ok_def
  by (simp add: Let_def derived_eq writes_zpad app_writeI64_zpad zpad_done)

text \<open>C39: the phone and the SDK ask the program for the same thing. For numbers in range and real keys, every
  Hold instruction the app can build is, byte for byte and account for account, the one the SDK
  signs and sends for the same request.\<close>

theorem app_and_sdk_build_same_hold_instructions:
  assumes "u64_range vaultId" "u64_range amount" "u64_range wid" "u64_range dailyLimit" "i64_ok delaySecs"
    and "0 \<le> bps" "bps \<le> 65535" "length g = 32" "length safe = 32"
  shows "sdk_initVault fpa parse tokenId system programId owner (Big vaultId) (Some (IsKey g)) (IsKey safe) (Big dailyLimit)
      (Big delaySecs) (Safe bps) (IsKey mint) (map_option IsKey tp) =
      initVaultInstruction fpa tokenId system programId owner vaultId g safe dailyLimit delaySecs bps mint tp \<and>
    sdk_deposit fpa parse tokenId programId owner (Big vaultId) (IsKey acct) (IsKey mint) (Big amount) (map_option IsKey tp) =
      Inr (depositInstruction fpa tokenId programId owner vaultId acct mint amount tp) \<and>
    sdk_withdraw fpa parse tokenId programId owner (Big vaultId) (IsKey acct) (IsKey mint) (Big amount) (map_option IsKey tp) =
      Inr (withdrawInstruction fpa tokenId programId owner vaultId acct mint amount tp) \<and>
    sdk_stop fpa parse programId signer (IsKey owner) (Big vaultId) (Big wid) =
      Inr (stopInstruction fpa programId signer owner vaultId wid) \<and>
    sdk_freeze fpa parse programId signer (IsKey owner) (Big vaultId) =
      Inr (freezeInstruction fpa programId signer owner vaultId) \<and>
    sdk_recover fpa parse tokenId programId signer (IsKey owner) (Big vaultId) (IsKey acct) (IsKey mint) (map_option IsKey tp) =
      Inr (recoverInstruction fpa tokenId programId signer owner vaultId acct mint tp) \<and>
    sdk_skip fpa parse tokenId programId owner signer (Big vaultId) (IsKey acct) (IsKey mint) (Big wid) (map_option IsKey tp) =
      Inr (skipInstruction fpa tokenId programId owner signer vaultId acct mint wid tp) \<and>
    sdk_unfreeze fpa programId owner cosigner (Big vaultId) = Inr (unfreezeInstruction fpa programId owner cosigner vaultId)"
proof -
  note built = depositInstruction_def withdrawInstruction_def stopInstruction_def freezeInstruction_def recoverInstruction_def
    skipInstruction_def unfreezeInstruction_def sdk_deposit_def sdk_withdraw_def sdk_stop_def sdk_freeze_def sdk_recover_def
    sdk_skip_def sdk_unfreeze_def sdk_authorityIx_def
  have r: "0 \<le> vaultId" "vaultId < 2 ^ 64" "0 \<le> amount" "amount < 2 ^ 64" "0 \<le> wid" "wid < 2 ^ 64"
    using assms by (simp_all add: u64_range_def)
  have data: "u64Data DEPOSIT_DISC amount = Inr (app_u64Data DEPOSIT_DISC amount)"
      "u64Data WITHDRAW_DISC amount = Inr (app_u64Data WITHDRAW_DISC amount)" "u64Data STOP_DISC wid = Inr (app_u64Data STOP_DISC wid)"
      "u64Data SKIP_DISC wid = Inr (app_u64Data SKIP_DISC wid)"
    using r by (simp_all add: u64Data_eq)
  show ?thesis
    by (intro conjI init_data assms) (simp_all only: built Let_def args_pass derived_eq data r andThen_Inr option.case)
qed

theorem app_and_sdk_build_same_hold_instructions_witness:
  "sdk_withdraw (\<lambda>seeds p. concat seeds) (\<lambda>_. Inl []) (demo_key 30) (demo_key 9) (demo_key 1) (Big 1) (IsKey (demo_key 6))
     (IsKey (demo_key 4)) (Big 100) None =
   Inr (withdrawInstruction (\<lambda>seeds p. concat seeds) (demo_key 30) (demo_key 9) (demo_key 1) 1 (demo_key 6) (demo_key 4) 100 None)"
proof -
  have r: "u64_range 1" "u64_range 100" "i64_ok 86400" "length (demo_key 2) = 32" by (simp_all add: u64_range_def i64_ok_def)
  note all = app_and_sdk_build_same_hold_instructions [OF r(1,2,1,2,3) _ _ r(4,4), of 2500 "\<lambda>seeds p. concat seeds" "\<lambda>_. Inl []"
      "demo_key 30" "demo_key 0" "demo_key 9" "demo_key 1" "demo_key 4" None "demo_key 6"]
  then show ?thesis by (simp only: option.map)
qed

end
