(* ===== verification/Js_Text.thy ===== *)
theory Js_Text
  imports Prelude
begin

text \<open>
  JavaScript text as the engine keeps it, a list of UTF-16 code units, with the library
  routines the request links use: iteration by code points, the UTF-8 bytes of a text,
  \<open>encodeURIComponent\<close> and \<open>decodeURIComponent\<close> (None where the engine throws a
  \<open>URIError\<close>), \<open>split\<close>, \<open>indexOf\<close> and \<open>trim\<close>. The main lemma is
  \<open>decode_encode\<close>: a text without a lone surrogate survives percent-encoding.
\<close>

named_theorems text_simps

type_synonym unit16 = "16 word"
type_synonym jtext = "unit16 list"

text \<open>An ASCII literal of the source.\<close>

definition unit_of :: "char \<Rightarrow> unit16" where
  "unit_of c = of_nat (of_char c)"

definition js :: "string \<Rightarrow> jtext" where
  "js s = map unit_of s"

lemma unat_unit_of [text_simps]: "unat (unit_of c) = of_char c"
proof -
  have "(of_char c :: nat) < 65536" using nat_of_char_less_256 [of c] by linarith
  then show ?thesis by (simp add: unit_of_def unat_of_nat)
qed

lemma unit_of_inj [simp]: "unit_of c = unit_of d \<longleftrightarrow> c = d"
  by (metis unat_unit_of of_char_eq_iff)

lemma js_inj [simp]: "js s = js t \<longleftrightarrow> s = t"
  unfolding js_def by (rule inj_map_eq_map) (simp add: inj_def)

lemma js_Nil [simp]: "js [] = []" "js s = [] \<longleftrightarrow> s = []"
  by (simp_all add: js_def)

lemma js_append: "js (s @ t) = js s @ js t"
  by (simp add: js_def)

lemma js_Cons: "js (c # s) = unit_of c # js s"
  by (simp add: js_def)

text \<open>The code points of a text, as \<open>[...value]\<close> iterates them: a surrogate pair is one
  code point, and a lone surrogate stands for itself.\<close>

definition hi_surrogate :: "unit16 \<Rightarrow> bool" where
  "hi_surrogate u = (0xD800 \<le> unat u \<and> unat u < 0xDC00)"

definition lo_surrogate :: "unit16 \<Rightarrow> bool" where
  "lo_surrogate u = (0xDC00 \<le> unat u \<and> unat u \<le> 0xDFFF)"

definition pair_point :: "unit16 \<Rightarrow> unit16 \<Rightarrow> nat" where
  "pair_point h l = 0x10000 + (unat h - 0xD800) * 0x400 + (unat l - 0xDC00)"

fun code_points :: "jtext \<Rightarrow> nat list" where
  "code_points [] = []"
| "code_points [u] = [unat u]"
| "code_points (u # v # us) =
     (if hi_surrogate u \<and> lo_surrogate v then pair_point u v # code_points us
      else unat u # code_points (v # us))"

fun well_formed :: "jtext \<Rightarrow> bool" where
  "well_formed [] = True"
| "well_formed [u] = (\<not> hi_surrogate u \<and> \<not> lo_surrogate u)"
| "well_formed (u # v # us) =
     (if hi_surrogate u then lo_surrogate v \<and> well_formed us
      else \<not> lo_surrogate u \<and> well_formed (v # us))"

text \<open>The code units of a code point.\<close>

definition units_of_point :: "nat \<Rightarrow> jtext" where
  "units_of_point p =
     (if p < 0x10000 then [of_nat p]
      else [of_nat (0xD800 + (p - 0x10000) div 0x400), of_nat (0xDC00 + (p - 0x10000) mod 0x400)])"

definition scalar :: "nat \<Rightarrow> bool" where
  "scalar p = (p < 0xD800 \<or> (0xE000 \<le> p \<and> p < 0x110000))"

lemma unat16: "unat (u :: unit16) < 0x10000"
  using unat_bound [of u] by simp

lemma well_formed_points: "well_formed s \<Longrightarrow> p \<in> set (code_points s) \<Longrightarrow> scalar p"
proof (induction s arbitrary: p rule: code_points.induct)
  case (2 u)
  then show ?case using unat16 [of u] by (auto simp: scalar_def hi_surrogate_def lo_surrogate_def)
next
  case (3 u v us)
  show ?case
  proof (cases "hi_surrogate u")
    case True
    with 3 have lo: "lo_surrogate v" and "well_formed us" by simp_all
    with 3 True have "p = pair_point u v \<or> scalar p" by auto
    then show ?thesis
      using True lo by (auto simp: pair_point_def scalar_def hi_surrogate_def lo_surrogate_def)
  next
    case False
    with 3 have "p = unat u \<or> scalar p" by auto
    then show ?thesis
      using 3(3) False unat16 [of u] by (auto simp: scalar_def hi_surrogate_def lo_surrogate_def)
  qed
qed simp

lemma units_of_unat: "units_of_point (unat (u :: unit16)) = [u]"
  using unat16 [of u] by (simp add: units_of_point_def)

lemma units_of_pair:
  assumes "hi_surrogate u" "lo_surrogate v"
  shows "units_of_point (pair_point u v) = [u, v]"
proof -
  have l: "unat v - 0xDC00 < 0x400" and h: "0xD800 \<le> unat u" "0xDC00 \<le> unat v"
    using assms by (auto simp: hi_surrogate_def lo_surrogate_def)
  have "(pair_point u v - 0x10000) div 0x400 = unat u - 0xD800"
    "(pair_point u v - 0x10000) mod 0x400 = unat v - 0xDC00"
    using l by (simp_all add: pair_point_def)
  with h show ?thesis by (simp add: units_of_point_def) (simp add: pair_point_def)
qed

lemma units_of_points: "concat (map units_of_point (code_points s)) = s"
  by (induction s rule: code_points.induct) (simp_all add: units_of_unat units_of_pair)

text \<open>The bytes of a code point; \<open>Buffer.byteLength(text, 'utf8')\<close> counts them, a lone surrogate
  as the three bytes of the replacement character.\<close>

definition utf8_point :: "nat \<Rightarrow> nat list" where
  "utf8_point p =
     (if p < 0x80 then [p]
      else if p < 0x800 then [0xC0 + p div 0x40, 0x80 + p mod 0x40]
      else if \<not> scalar p then [0xEF, 0xBF, 0xBD]
      else if p < 0x10000 then [0xE0 + p div 0x1000, 0x80 + p div 0x40 mod 0x40, 0x80 + p mod 0x40]
      else [0xF0 + p div 0x40000, 0x80 + p div 0x1000 mod 0x40, 0x80 + p div 0x40 mod 0x40, 0x80 + p mod 0x40])"

definition byteLength :: "jtext \<Rightarrow> nat" where
  "byteLength s = length (concat (map utf8_point (code_points s)))"

definition continuation :: "nat \<Rightarrow> bool" where
  "continuation b = (0x80 \<le> b \<and> b < 0xC0)"

text \<open>The reader accepts a sequence only in its shortest form, and no surrogate.\<close>

fun point_of_utf8 :: "nat list \<Rightarrow> nat option" where
  "point_of_utf8 [a] = (if a < 0x80 then Some a else None)"
| "point_of_utf8 [a, b] =
     (let p = (a - 0xC0) * 0x40 + (b - 0x80)
      in if continuation b \<and> 0x80 \<le> p then Some p else None)"
| "point_of_utf8 [a, b, c] =
     (let p = (a - 0xE0) * 0x1000 + (b - 0x80) * 0x40 + (c - 0x80)
      in if continuation b \<and> continuation c \<and> 0x800 \<le> p \<and> scalar p then Some p else None)"
| "point_of_utf8 [a, b, c, d] =
     (let p = (a - 0xF0) * 0x40000 + (b - 0x80) * 0x1000 + (c - 0x80) * 0x40 + (d - 0x80)
      in if continuation b \<and> continuation c \<and> continuation d \<and> 0x10000 \<le> p \<and> scalar p then Some p
         else None)"
| "point_of_utf8 _ = None"

text \<open>The length of the sequence a first byte opens; \<open>None\<close> for a continuation byte and for the
  bytes from \<open>0xF8\<close>.\<close>

definition utf8_length :: "nat \<Rightarrow> nat option" where
  "utf8_length b =
     (if b < 0x80 then Some 1 else if b < 0xC0 then None else if b < 0xE0 then Some 2
      else if b < 0xF0 then Some 3 else if b < 0xF8 then Some 4 else None)"

lemma div_64_64: "(p :: nat) div 0x1000 = p div 0x40 div 0x40" "p div 0x40000 = p div 0x40 div 0x40 div 0x40"
  by (simp_all add: div_mult2_eq [symmetric])

lemma split_64: "(p :: nat) div 0x40 * 0x40 + p mod 0x40 = p"
  by simp

lemma split_4096: "(p :: nat) div 0x1000 * 0x1000 + p div 0x40 mod 0x40 * 0x40 + p mod 0x40 = p"
proof -
  have "p div 0x1000 * 0x40 + p div 0x40 mod 0x40 = p div 0x40"
    by (simp add: div_64_64)
  then have "(p div 0x1000 * 0x40 + p div 0x40 mod 0x40) * 0x40 + p mod 0x40 = p" by simp
  then show ?thesis by (simp add: algebra_simps)
qed

lemma split_262144:
  "(p :: nat) div 0x40000 * 0x40000 + p div 0x1000 mod 0x40 * 0x1000 + p div 0x40 mod 0x40 * 0x40 + p mod 0x40 = p"
proof -
  have "p div 0x40000 * 0x40 + p div 0x1000 mod 0x40 = p div 0x1000"
    by (simp add: div_64_64)
  then have "(p div 0x40000 * 0x40 + p div 0x1000 mod 0x40) * 0x1000 = p div 0x1000 * 0x1000" by simp
  with split_4096 [of p] show ?thesis by (simp add: algebra_simps)
qed

lemma utf8_mod_bound: "(p :: nat) mod 0x40 < 0x40"
  by simp

lemma point_of_utf8_point: "scalar p \<Longrightarrow> point_of_utf8 (utf8_point p) = Some p"
  using split_64 [of p] split_4096 [of p] split_262144 [of p]
    utf8_mod_bound [of p] utf8_mod_bound [of "p div 0x40"] utf8_mod_bound [of "p div 0x1000"]
  by (simp add: utf8_point_def continuation_def Let_def del: div_mult_mod_eq mod_less_divisor)

lemma utf8_length_point: "scalar p \<Longrightarrow> utf8_length (hd (utf8_point p)) = Some (length (utf8_point p))"
proof -
  assume p: "scalar p"
  have "p < 0x800 \<Longrightarrow> p div 0x40 < 0x20" "p < 0x10000 \<Longrightarrow> p div 0x1000 < 0x10"
    "p < 0x110000 \<Longrightarrow> p div 0x40000 < 5"
    by (simp_all add: div_less_iff_less_mult)
  with p show ?thesis by (auto simp: utf8_point_def utf8_length_def scalar_def)
qed

lemma utf8_point_bytes: "scalar p \<Longrightarrow> b \<in> set (utf8_point p) \<Longrightarrow> b < 256"
proof -
  assume p: "scalar p" and b: "b \<in> set (utf8_point p)"
  have "p < 0x800 \<Longrightarrow> p div 0x40 < 0x20" "p < 0x10000 \<Longrightarrow> p div 0x1000 < 0x10"
    "p < 0x110000 \<Longrightarrow> p div 0x40000 < 5"
    by (simp_all add: div_less_iff_less_mult)
  with p b utf8_mod_bound [of p] utf8_mod_bound [of "p div 0x40"] utf8_mod_bound [of "p div 0x1000"]
  show ?thesis
    by (auto simp: utf8_point_def scalar_def simp del: mod_less_divisor split: if_splits)
qed

lemma utf8_point_nonempty: "utf8_point p \<noteq> []"
  by (simp add: utf8_point_def)

text \<open>Percent-encoding. The unreserved marks are letters, digits and \<open>- _ . ! ~ * ' ( )\<close>.\<close>

definition unreserved :: "nat \<Rightarrow> bool" where
  "unreserved p =
     ((48 \<le> p \<and> p \<le> 57) \<or> (65 \<le> p \<and> p \<le> 90) \<or> (97 \<le> p \<and> p \<le> 122)
      \<or> p \<in> {33, 39, 40, 41, 42, 45, 46, 95, 126})"

definition hex_unit :: "nat \<Rightarrow> unit16" where
  "hex_unit n = of_nat (if n < 10 then 48 + n else 55 + n)"

definition hex_value :: "unit16 \<Rightarrow> nat option" where
  "hex_value u =
     (let n = unat u
      in if 48 \<le> n \<and> n \<le> 57 then Some (n - 48)
         else if 65 \<le> n \<and> n \<le> 70 then Some (n - 55)
         else if 97 \<le> n \<and> n \<le> 102 then Some (n - 87) else None)"

definition percent :: unit16 where "percent = 37"

definition pct_byte :: "nat \<Rightarrow> jtext" where
  "pct_byte b = [percent, hex_unit (b div 16), hex_unit (b mod 16)]"

definition encode_point :: "nat \<Rightarrow> jtext" where
  "encode_point p = (if unreserved p then [of_nat p] else concat (map pct_byte (utf8_point p)))"

definition encodeURIComponent :: "jtext \<Rightarrow> jtext option" where
  "encodeURIComponent s = (if well_formed s then Some (concat (map encode_point (code_points s))) else None)"

text \<open>One escape, then as many escapes as the first byte announces.\<close>

fun read_pct :: "jtext \<Rightarrow> (nat \<times> jtext) option" where
  "read_pct (c # a # b # s) =
     (if c = percent then
        (case (hex_value a, hex_value b) of (Some x, Some y) \<Rightarrow> Some (16 * x + y, s) | _ \<Rightarrow> None)
      else None)"
| "read_pct _ = None"

fun read_pcts :: "nat \<Rightarrow> jtext \<Rightarrow> (nat list \<times> jtext) option" where
  "read_pcts 0 s = Some ([], s)"
| "read_pcts (Suc n) s =
     (case read_pct s of None \<Rightarrow> None
      | Some (b, r) \<Rightarrow> (case read_pcts n r of None \<Rightarrow> None | Some (bs, r') \<Rightarrow> Some (b # bs, r')))"

definition read_escape :: "jtext \<Rightarrow> (nat \<times> jtext) option" where
  "read_escape s =
     (case read_pct s of None \<Rightarrow> None
      | Some (b, r) \<Rightarrow>
          (case utf8_length b of None \<Rightarrow> None
           | Some n \<Rightarrow>
               (case read_pcts n s of None \<Rightarrow> None
                | Some (bs, r') \<Rightarrow> (case point_of_utf8 bs of None \<Rightarrow> None | Some p \<Rightarrow> Some (p, r')))))"

lemma read_pct_shorter: "read_pct s = Some (b, r) \<Longrightarrow> length r < length s"
  by (induction s rule: read_pct.induct) (auto split: if_splits option.splits)

lemma read_pcts_shorter: "read_pcts n s = Some (bs, r) \<Longrightarrow> length r \<le> length s"
proof (induction n arbitrary: s bs)
  case (Suc n)
  then obtain b r' bs' where "read_pct s = Some (b, r')" "read_pcts n r' = Some (bs', r)"
    by (auto split: option.splits)
  with Suc.IH [of r' bs'] read_pct_shorter [of s b r'] show ?case by simp
qed simp

lemma read_escape_shorter: "read_escape s = Some (p, r) \<Longrightarrow> length r < length s"
proof -
  assume "read_escape s = Some (p, r)"
  then obtain b r0 n bs where b: "read_pct s = Some (b, r0)" and n: "utf8_length b = Some n"
    and bs: "read_pcts n s = Some (bs, r)" and p: "point_of_utf8 bs = Some p"
    by (auto simp: read_escape_def split: option.splits prod.splits)
  from n obtain m where m: "n = Suc m" by (cases n) (auto simp: utf8_length_def split: if_splits)
  with b bs obtain bs' where "read_pcts m r0 = Some (bs', r)" by (auto split: option.splits)
  with read_pcts_shorter read_pct_shorter [OF b] show ?thesis by (metis le_less_trans)
qed

function decodeURIComponent :: "jtext \<Rightarrow> jtext option" where
  "decodeURIComponent s =
     (case s of [] \<Rightarrow> Some []
      | c # r \<Rightarrow>
          if c = percent then
            (case read_escape s of None \<Rightarrow> None
             | Some (p, r') \<Rightarrow> map_option (\<lambda>t. units_of_point p @ t) (decodeURIComponent r'))
          else map_option (\<lambda>t. c # t) (decodeURIComponent r))"
  by pat_completeness auto
termination
  by (relation "measure length") (auto dest: read_escape_shorter)

declare decodeURIComponent.simps [simp del]

lemma hex_value_unit [text_simps]: "n < 16 \<Longrightarrow> hex_value (hex_unit n) = Some n"
  by (auto simp: hex_value_def hex_unit_def unat_of_nat Let_def)

lemma read_pct_byte [text_simps]: "b < 256 \<Longrightarrow> read_pct (pct_byte b @ s) = Some (b, s)"
proof -
  assume "b < 256"
  then have "b div 16 < 16" by (simp add: div_less_iff_less_mult)
  then show ?thesis by (simp add: pct_byte_def hex_value_unit)
qed

lemma read_pcts_bytes:
  "(\<And>b. b \<in> set bs \<Longrightarrow> b < 256) \<Longrightarrow> read_pcts (length bs) (concat (map pct_byte bs) @ s) = Some (bs, s)"
  by (induction bs) (simp_all add: read_pct_byte)

lemma read_escape_point:
  assumes "scalar p"
  shows "read_escape (concat (map pct_byte (utf8_point p)) @ s) = Some (p, s)"
proof -
  obtain b bs where u: "utf8_point p = b # bs" using utf8_point_nonempty [of p] by (cases "utf8_point p") auto
  have bytes: "\<And>x. x \<in> set (b # bs) \<Longrightarrow> x < 256" using utf8_point_bytes [OF assms] u by simp
  have "read_pct (concat (map pct_byte (b # bs)) @ s) = Some (b, concat (map pct_byte bs) @ s)"
    using bytes by (simp add: read_pct_byte)
  moreover have "utf8_length b = Some (length (b # bs))" using utf8_length_point [OF assms] u by simp
  moreover have "read_pcts (length (b # bs)) (concat (map pct_byte (b # bs)) @ s) = Some (b # bs, s)"
    using bytes by (rule read_pcts_bytes)
  ultimately show ?thesis
    using point_of_utf8_point [OF assms] unfolding u by (simp add: read_escape_def del: read_pcts.simps)
qed

lemma decode_encode_point:
  assumes "scalar p"
  shows "decodeURIComponent (encode_point p @ s) = map_option (\<lambda>t. units_of_point p @ t) (decodeURIComponent s)"
proof (cases "unreserved p")
  case True
  then have "p < 128" "p \<noteq> 37" by (auto simp: unreserved_def)
  then have "unat (of_nat p :: unit16) \<noteq> unat percent"
    by (simp add: percent_def unat_of_nat)
  then have "(of_nat p :: unit16) \<noteq> percent" by auto
  with True \<open>p < 128\<close> show ?thesis
    by (simp add: encode_point_def units_of_point_def decodeURIComponent.simps [of "of_nat p # s"])
next
  case False
  let ?e = "concat (map pct_byte (utf8_point p)) @ s"
  obtain r where r: "?e = percent # r"
    using utf8_point_nonempty [of p] by (cases "utf8_point p") (auto simp: pct_byte_def)
  have "read_escape (percent # r) = Some (p, s)"
    using read_escape_point [OF assms, of s] unfolding r .
  then have "decodeURIComponent ?e = map_option (\<lambda>t. units_of_point p @ t) (decodeURIComponent s)"
    unfolding r by (simp add: decodeURIComponent.simps [of "percent # r"])
  with False show ?thesis by (simp add: encode_point_def)
qed

lemma decode_encode_points:
  "(\<And>p. p \<in> set ps \<Longrightarrow> scalar p) \<Longrightarrow>
     decodeURIComponent (concat (map encode_point ps)) = Some (concat (map units_of_point ps))"
  by (induction ps) (simp_all add: decode_encode_point, simp add: decodeURIComponent.simps)

lemma decode_encode: "encodeURIComponent s = Some e \<Longrightarrow> decodeURIComponent e = Some s"
  using decode_encode_points [of "code_points s"] well_formed_points [of s]
  by (auto simp: encodeURIComponent_def units_of_points split: if_splits)

text \<open>What percent-encoding writes: unreserved units and escapes.\<close>

definition link_unit :: "unit16 \<Rightarrow> bool" where
  "link_unit u = (unreserved (unat u) \<or> u = percent)"

lemma hex_unit_link: "n < 16 \<Longrightarrow> link_unit (hex_unit n)"
  by (simp add: link_unit_def hex_unit_def unreserved_def unat_of_nat)

lemma pct_byte_link: "b < 256 \<Longrightarrow> u \<in> set (pct_byte b) \<Longrightarrow> link_unit u"
proof -
  assume "b < 256" "u \<in> set (pct_byte b)"
  moreover from \<open>b < 256\<close> have "b div 16 < 16" by (simp add: div_less_iff_less_mult)
  ultimately show ?thesis
    using hex_unit_link [of "b div 16"] hex_unit_link [of "b mod 16"] 
    by (auto simp: pct_byte_def) (simp add: link_unit_def)
qed

lemma encode_point_link: "scalar p \<Longrightarrow> u \<in> set (encode_point p) \<Longrightarrow> link_unit u"
proof (cases "unreserved p")
  case True
  moreover from True have "p < 128" by (auto simp: unreserved_def)
  moreover assume "u \<in> set (encode_point p)"
  ultimately show ?thesis by (simp add: encode_point_def link_unit_def unat_of_nat)
next
  case False
  assume "scalar p" "u \<in> set (encode_point p)"
  with False obtain b where "b \<in> set (utf8_point p)" "u \<in> set (pct_byte b)"
    by (auto simp: encode_point_def)
  with utf8_point_bytes [OF \<open>scalar p\<close>] show ?thesis by (blast intro: pct_byte_link)
qed

lemma encode_link: "encodeURIComponent s = Some e \<Longrightarrow> u \<in> set e \<Longrightarrow> link_unit u"
proof -
  assume "encodeURIComponent s = Some e" "u \<in> set e"
  then obtain p where "well_formed s" "p \<in> set (code_points s)" "u \<in> set (encode_point p)"
    by (auto simp: encodeURIComponent_def split: if_splits)
  then show ?thesis by (blast intro: encode_point_link [OF well_formed_points])
qed

lemma encode_defined: "(\<exists>e. encodeURIComponent s = Some e) \<longleftrightarrow> well_formed s"
  by (simp add: encodeURIComponent_def)

text \<open>The index loop both packages use to find a lone surrogate, and its meaning.\<close>

function well_formed_from :: "jtext \<Rightarrow> nat \<Rightarrow> bool" where
  "well_formed_from s i =
     (if length s \<le> i then True
      else let u = unat (s ! i)
        in if u < 0xD800 \<or> 0xDFFF < u then well_formed_from s (i + 1)
           else if 0xDC00 \<le> u \<or> length s \<le> i + 1 then False
           else if unat (s ! (i + 1)) < 0xDC00 \<or> 0xDFFF < unat (s ! (i + 1)) then False
           else well_formed_from s (i + 2))"
  by pat_completeness auto
termination
  by (relation "measure (\<lambda>(s, i). length s - i)") auto

declare well_formed_from.simps [simp del]

lemma well_formed_Cons:
  "well_formed (u # us) =
     (if hi_surrogate u then (case us of [] \<Rightarrow> False | v # vs \<Rightarrow> lo_surrogate v \<and> well_formed vs)
      else \<not> lo_surrogate u \<and> well_formed us)"
  by (cases us) auto

lemma well_formed_loop: "well_formed_from s i = well_formed (drop i s)"
proof (induction s i rule: well_formed_from.induct)
  case (1 s i)
  show ?case
  proof (cases "length s \<le> i")
    case False
    then have d: "drop i s = s ! i # drop (i + 1) s" by (simp add: Cons_nth_drop_Suc)
    have d': "length s \<le> i + 1 \<or> drop (i + 1) s = s ! (i + 1) # drop (i + 2) s"
      using Cons_nth_drop_Suc [of "Suc i" s] by (cases "length s \<le> Suc i") simp_all
    consider (plain) "unat (s ! i) < 0xD800 \<or> 0xDFFF < unat (s ! i)" | (low) "lo_surrogate (s ! i)"
      | (high) "hi_surrogate (s ! i)"
      unfolding lo_surrogate_def hi_surrogate_def by linarith
    then show ?thesis
    proof cases
      case plain
      then have "\<not> hi_surrogate (s ! i)" "\<not> lo_surrogate (s ! i)"
        by (auto simp: lo_surrogate_def hi_surrogate_def)
      with plain False 1 d show ?thesis by (simp add: well_formed_from.simps [of s i] well_formed_Cons)
    next
      case low
      with False d show ?thesis
        by (simp add: well_formed_from.simps [of s i] well_formed_Cons lo_surrogate_def hi_surrogate_def)
    next
      case high
      with False d d' 1(2) show ?thesis
        by (auto simp: well_formed_from.simps [of s i] well_formed_Cons lo_surrogate_def hi_surrogate_def)
    qed
  qed (simp add: well_formed_from.simps)
qed

text \<open>\<open>text.split(u)\<close>, and the two halves around the first \<open>u\<close>: the code slices at
  \<open>indexOf\<close>, and takes the whole text and an empty rest where there is none.\<close>

fun split_at :: "unit16 \<Rightarrow> jtext \<Rightarrow> jtext list" where
  "split_at c [] = [[]]"
| "split_at c (x # xs) =
     (if x = c then [] # split_at c xs
      else (case split_at c xs of [] \<Rightarrow> [[x]] | w # ws \<Rightarrow> (x # w) # ws))"

fun cut_at :: "unit16 \<Rightarrow> jtext \<Rightarrow> jtext \<times> jtext" where
  "cut_at c [] = ([], [])"
| "cut_at c (x # xs) = (if x = c then ([], xs) else (case cut_at c xs of (a, b) \<Rightarrow> (x # a, b)))"

fun join_with :: "unit16 \<Rightarrow> jtext list \<Rightarrow> jtext" where
  "join_with c [] = []"
| "join_with c [x] = x"
| "join_with c (x # xs) = x @ c # join_with c xs"

lemma split_at_notin: "c \<notin> set s \<Longrightarrow> split_at c s = [s]"
  by (induction s) auto

lemma split_at_append: "c \<notin> set s \<Longrightarrow> split_at c (s @ c # t) = s # split_at c t"
  by (induction s) auto

lemma split_join: "xs \<noteq> [] \<Longrightarrow> (\<And>x. x \<in> set xs \<Longrightarrow> c \<notin> set x) \<Longrightarrow> split_at c (join_with c xs) = xs"
  by (induction c xs rule: join_with.induct) (simp_all add: split_at_notin split_at_append)

lemma cut_at_append: "c \<notin> set s \<Longrightarrow> cut_at c (s @ c # t) = (s, t)"
  by (induction s) auto

lemma cut_at_notin: "c \<notin> set s \<Longrightarrow> cut_at c s = (s, [])"
  by (induction s) auto

text \<open>\<open>trim\<close> with the white space and line terminators of ECMAScript.\<close>

definition js_space :: "unit16 \<Rightarrow> bool" where
  "js_space u =
     (let n = unat u
      in n \<in> {9, 10, 11, 12, 13, 32, 160, 0x1680, 0x2028, 0x2029, 0x202F, 0x205F, 0x3000, 0xFEFF}
         \<or> (0x2000 \<le> n \<and> n \<le> 0x200A))"

definition js_trim :: "jtext \<Rightarrow> jtext" where
  "js_trim s = rev (dropWhile js_space (rev (dropWhile js_space s)))"

lemma js_trim_id: "(\<And>u. u \<in> set s \<Longrightarrow> \<not> js_space u) \<Longrightarrow> js_trim s = s"
proof -
  assume none: "\<And>u. u \<in> set s \<Longrightarrow> \<not> js_space u"
  have drop: "dropWhile js_space t = t" if "set t \<subseteq> set s" for t
    using that none by (cases t) auto
  show ?thesis by (simp add: js_trim_def drop)
qed

text \<open>Decimal numerals in a text, and \<open>/^[1-9][0-9]*$/\<close>.\<close>

definition digit_unit :: "unit16 \<Rightarrow> bool" where
  "digit_unit u = (48 \<le> unat u \<and> unat u \<le> 57)"

definition plain_number :: "jtext \<Rightarrow> bool" where
  "plain_number s = (case s of [] \<Rightarrow> False | u # us \<Rightarrow> digit_unit u \<and> unat u \<noteq> 48 \<and> list_all digit_unit us)"

definition text_value :: "jtext \<Rightarrow> int" where
  "text_value s = foldl (\<lambda>a u. 10 * a + int (unat u - 48)) 0 s"

lemma text_value_js: "text_value (js s) = int (str_val s)"
proof -
  have "foldl (\<lambda>a u. 10 * a + int (unat u - 48)) (int n) (js s) = int (foldl (\<lambda>a c. 10 * a + digit_val c) n s)" for n
  proof (induction s arbitrary: n)
    case (Cons c s)
    show ?case using Cons.IH [of "10 * n + digit_val c"]
      by (simp add: js_Cons unat_unit_of digit_val_def)
  qed simp
  from this [of 0] show ?thesis by (simp add: text_value_def str_val_def)
qed

lemma hd_nat_str: "0 < n \<Longrightarrow> hd (nat_str n) \<noteq> CHR ''0''"
proof (induction n rule: nat_str.induct)
  case (1 n)
  show ?case
  proof (cases "n < 10")
    case True
    have "(of_char (digit_char n) :: nat) \<noteq> of_char (CHR ''0'')"
      using True "1.prems" by (simp add: of_char_digit_char)
    then have "digit_char n \<noteq> CHR ''0''" by metis
    with True show ?thesis by (simp add: nat_str.simps [of n])
  next
    case False
    then have "0 < n div 10" by (simp add: div_greater_zero_iff)
    with 1 False show ?thesis by (simp add: nat_str.simps [of n])
  qed
qed

lemma digit_unit_of: "digit_unit (unit_of c) = is_digit c"
  by (simp add: digit_unit_def is_digit_def unat_unit_of)

lemma plain_number_nat_str: "0 < n \<Longrightarrow> plain_number (js (nat_str n))"
proof -
  assume n: "0 < n"
  obtain c cs where s: "nat_str n = c # cs" using nat_str_nonempty [of n] by (cases "nat_str n") auto
  have "c \<noteq> CHR ''0''" using hd_nat_str [OF n] s by simp
  then have "(of_char c :: nat) \<noteq> of_char (CHR ''0'')" by (metis of_char_eq_iff)
  moreover have "all_digits (c # cs)" using all_digits_nat_str [of n] s by simp
  ultimately show ?thesis
    by (simp add: s plain_number_def js_def unat_unit_of digit_unit_of all_digits_def list_all_iff)
qed

lemma int_str_nonneg: "0 \<le> i \<Longrightarrow> int_str i = nat_str (nat i)"
  by (simp add: int_str_def)

lemma text_value_int_str: "0 \<le> i \<Longrightarrow> text_value (js (int_str i)) = i"
  by (simp add: int_str_nonneg text_value_js)

lemma plain_number_int_str: "0 < i \<Longrightarrow> plain_number (js (int_str i))"
  by (simp add: int_str_nonneg plain_number_nat_str)

text \<open>An ASCII text has no surrogate.\<close>

lemma well_formed_ascii: "(\<And>u. u \<in> set s \<Longrightarrow> unat u < 0xD800) \<Longrightarrow> well_formed s"
proof (induction s rule: well_formed.induct)
  case (3 u v us)
  then have "unat u < 0xD800" by simp
  then have "\<not> hi_surrogate u" "\<not> lo_surrogate u" by (simp_all add: hi_surrogate_def lo_surrogate_def)
  with 3 show ?case by simp
qed (simp_all add: hi_surrogate_def lo_surrogate_def)

lemma well_formed_js: "well_formed (js s)"
proof (rule well_formed_ascii)
  fix u assume "u \<in> set (js s)"
  then obtain c where "u = unit_of c" by (auto simp: js_def)
  moreover have "(of_char c :: nat) < 0xD800" using nat_of_char_less_256 [of c] by linarith
  ultimately show "unat u < 0xD800" by (simp add: unat_unit_of)
qed

end
