(* ===== verification/Rule_Request.thy ===== *)
theory Rule_Request
  imports Js_Text
begin

text \<open>
  The request links of the SDK (\<open>sdk/src/rule-request.ts\<close>): \<open>createRuleRequest\<close> checks an
  operator's limits and writes a \<open>veto://rule-request\<close> link, \<open>parseRuleRequest\<close> reads one and
  reports the first problem. Texts are UTF-16 lists (Js_Text); field names, problems and messages
  are the string literals of the source. Two parts of the runtime are parameters: \<open>base58\<close> is
  \<open>new PublicKey(text).toBase58()\<close> (None where the constructor throws) and \<open>parseUrl\<close> is
  \<open>new URL(text)\<close> (None where it throws).
\<close>

named_theorems request_simps

text \<open>Results with a failure of any type, and the early return on a failure.\<close>

definition go_on :: "'e + 'a \<Rightarrow> ('a \<Rightarrow> 'e + 'b) \<Rightarrow> 'e + 'b" where
  "go_on m f = (case m of Inl e \<Rightarrow> Inl e | Inr x \<Rightarrow> f x)"

lemma go_on_simps [simp]: "go_on (Inr x) f = f x" "go_on (Inl e) f = Inl e"
  by (simp_all add: go_on_def)

lemma go_on_eq_Inr [request_simps]: "go_on m f = Inr y \<longleftrightarrow> (\<exists>x. m = Inr x \<and> f x = Inr y)"
  by (cases m) simp_all

lemma go_on_Inr: "go_on m f = Inr y \<Longrightarrow> (\<And>x. m = Inr x \<Longrightarrow> f x = Inr y \<Longrightarrow> P) \<Longrightarrow> P"
  by (cases m) simp_all

definition PURPOSE_MAX_BYTES :: nat where "PURPOSE_MAX_BYTES = 64"
definition LABEL_MAX_CHARS :: nat where "LABEL_MAX_CHARS = 64"
definition RULE_REQUEST_DAYS_MIN :: int where "RULE_REQUEST_DAYS_MIN = 1"
definition RULE_REQUEST_DAYS_MAX :: int where "RULE_REQUEST_DAYS_MAX = 3650"
definition REQUEST_U64_MAX :: int where "REQUEST_U64_MAX = 2 ^ 64 - 1"

definition QUERY_KEYS :: "string list" where
  "QUERY_KEYS =
     [''v'', ''agent'', ''payee'', ''mint'', ''cap'', ''max'', ''days'', ''purpose'', ''agentLabel'',
      ''payeeLabel'']"

definition RULE_REQUEST_CHECK_ORDER :: "string list" where
  "RULE_REQUEST_CHECK_ORDER =
     [''not_a_url'', ''scheme'', ''userinfo'', ''port'', ''host'', ''path'',
      ''duplicate_v'', ''missing_v'', ''bad_v'',
      ''duplicate_agent'', ''missing_agent'', ''bad_agent'',
      ''duplicate_payee'', ''missing_payee'', ''bad_payee'',
      ''duplicate_mint'', ''missing_mint'', ''bad_mint'',
      ''duplicate_cap'', ''missing_cap'', ''bad_cap'',
      ''duplicate_max'', ''missing_max'', ''bad_max'', ''max_above_cap'',
      ''duplicate_days'', ''missing_days'', ''bad_days'',
      ''duplicate_purpose'', ''missing_purpose'', ''bad_purpose'', ''purpose_too_long'',
      ''duplicate_agent_label'', ''bad_agent_label'', ''agent_label_too_long'',
      ''duplicate_payee_label'', ''bad_payee_label'', ''payee_label_too_long'']"

text \<open>A problem is one of the string literals of the order; the trade links have their own.\<close>

record RuleRequestError =
  problem :: string
  message :: string

record RuleRequest =
  rr_v :: int
  rr_agent :: jtext
  rr_payee :: jtext
  rr_mint :: jtext
  rr_cap :: int
  rr_max :: int
  rr_days :: int
  rr_purpose :: jtext
  rr_agentLabel :: "jtext option"
  rr_payeeLabel :: "jtext option"

text \<open>An argument whose type the code tests at run time. A \<open>number\<close> is an integral one or any
  other (a fraction, \<open>NaN\<close>, an infinity).\<close>

datatype js_value = Undefined | BigInt int | IntegralNumber int | OtherNumber | Text jtext | OtherValue

record RuleRequestInput =
  in_agent :: js_value
  in_payee :: js_value
  in_mint :: js_value
  in_cap :: js_value
  in_max :: js_value
  in_days :: js_value
  in_purpose :: js_value
  in_agentLabel :: js_value
  in_payeeLabel :: js_value

definition FIELD_NAME :: "string \<Rightarrow> string" where
  "FIELD_NAME key = (if key = ''v'' then ''version'' else key)"

record Slot =
  slot_count :: nat
  slot_value :: "jtext option"
  slot_bad :: bool

type_synonym slots = "string \<Rightarrow> Slot option"

definition request_fail :: "string \<Rightarrow> string \<Rightarrow> RuleRequestError" where
  "request_fail p m = \<lparr>problem = p, message = m\<rparr>"

definition amountMessage :: "string \<Rightarrow> string" where
  "amountMessage noun = noun @ '' must be a base-unit integer greater than 0 and at most the u64 maximum''"

definition daysMessage :: string where
  "daysMessage =
     ''days must be an integer from '' @ int_str RULE_REQUEST_DAYS_MIN @ '' to '' @ int_str RULE_REQUEST_DAYS_MAX"

definition purposeTooLongMessage :: string where
  "purposeTooLongMessage = ''purpose is longer than '' @ nat_str PURPOSE_MAX_BYTES @ '' bytes''"

definition labelTooLongMessage :: "string \<Rightarrow> string" where
  "labelTooLongMessage noun = noun @ '' is longer than '' @ nat_str LABEL_MAX_CHARS @ '' characters''"

definition canonicalAddress :: "(jtext \<Rightarrow> jtext option) \<Rightarrow> jtext \<Rightarrow> bool" where
  "canonicalAddress base58 v = (base58 v = Some v)"

definition parsePositiveU64 :: "jtext \<Rightarrow> int option" where
  "parsePositiveU64 raw =
     (if \<not> plain_number raw then None
      else let amount = text_value raw in if REQUEST_U64_MAX < amount then None else Some amount)"

text \<open>\<open>Number(raw)\<close> is exact for every value up to the bound that is tested.\<close>

definition parseDaysToken :: "jtext \<Rightarrow> int option" where
  "parseDaysToken raw =
     (if \<not> plain_number raw then None
      else let days = text_value raw
        in if days < RULE_REQUEST_DAYS_MIN \<or> RULE_REQUEST_DAYS_MAX < days then None else Some days)"

fun coercePositiveU64 :: "js_value \<Rightarrow> int option" where
  "coercePositiveU64 (BigInt n) = (if n < 1 \<or> REQUEST_U64_MAX < n then None else Some n)"
| "coercePositiveU64 (IntegralNumber n) = (if 2 ^ 53 \<le> \<bar>n\<bar> \<or> n < 1 then None else Some n)"
| "coercePositiveU64 (Text s) = parsePositiveU64 s"
| "coercePositiveU64 _ = None"

fun coerceDays :: "js_value \<Rightarrow> int option" where
  "coerceDays (BigInt n) = (if n < RULE_REQUEST_DAYS_MIN \<or> RULE_REQUEST_DAYS_MAX < n then None else Some n)"
| "coerceDays (IntegralNumber n) = (if n < RULE_REQUEST_DAYS_MIN \<or> RULE_REQUEST_DAYS_MAX < n then None else Some n)"
| "coerceDays (Text s) = parseDaysToken s"
| "coerceDays _ = None"

definition codePointLength :: "jtext \<Rightarrow> nat" where
  "codePointLength s = length (code_points s)"

definition isWellFormedUtf16 :: "jtext \<Rightarrow> bool" where
  "isWellFormedUtf16 s = well_formed_from s 0"

lemma isWellFormedUtf16_iff [request_simps]: "isWellFormedUtf16 s = well_formed s"
  by (simp add: isWellFormedUtf16_def well_formed_loop)

definition purposeTooLong :: "jtext \<Rightarrow> bool" where
  "purposeTooLong s = (PURPOSE_MAX_BYTES < byteLength s)"

text \<open>The slots of a query: how often each known key occurs, and its first value decoded.\<close>

definition amp :: unit16 where "amp = unit_of (CHR ''&'')"
definition equals_sign :: unit16 where "equals_sign = unit_of (CHR ''='')"
definition question :: unit16 where "question = unit_of (CHR ''?'')"

definition known_key :: "string list \<Rightarrow> jtext \<Rightarrow> string option" where
  "known_key keys t = List.find (\<lambda>k. js k = t) keys"

definition add_part :: "string list \<Rightarrow> slots \<Rightarrow> jtext \<Rightarrow> slots" where
  "add_part keys slots part =
     (if part = [] then slots
      else let (rawKey, rawValue) = cut_at equals_sign part
        in case decodeURIComponent rawKey of None \<Rightarrow> slots
           | Some key \<Rightarrow>
               (case known_key keys key of None \<Rightarrow> slots
                | Some known \<Rightarrow>
                    let old = (case slots known of None \<Rightarrow> \<lparr>slot_count = 0, slot_value = None, slot_bad = False\<rparr>
                               | Some s \<Rightarrow> s);
                        slot = old\<lparr>slot_count := slot_count old + 1\<rparr>
                    in if 1 < slot_count slot then slots(known \<mapsto> slot)
                       else (case decodeURIComponent rawValue of
                               Some v \<Rightarrow> slots(known \<mapsto> slot\<lparr>slot_value := Some v\<rparr>)
                             | None \<Rightarrow> slots(known \<mapsto> slot\<lparr>slot_bad := True\<rparr>))))"

definition slots_of :: "string list \<Rightarrow> jtext \<Rightarrow> slots" where
  "slots_of keys search =
     (let body = (case search of [] \<Rightarrow> [] | u # us \<Rightarrow> if u = question then us else search)
      in if body = [] then Map.empty else foldl (add_part keys) Map.empty (split_at amp body))"

definition parseSlots :: "jtext \<Rightarrow> slots" where
  "parseSlots search = slots_of QUERY_KEYS search"

definition readRequired ::
  "slots \<Rightarrow> string \<Rightarrow> string \<Rightarrow> string \<Rightarrow> string \<Rightarrow> string \<Rightarrow> RuleRequestError + jtext" where
  "readRequired slots key duplicate missing bad badMessage =
     (let name = FIELD_NAME key
      in case slots key of
           None \<Rightarrow> Inl (request_fail missing (name @ '' is missing''))
         | Some slot \<Rightarrow>
             if slot_count slot = 0 then Inl (request_fail missing (name @ '' is missing''))
             else if 1 < slot_count slot then Inl (request_fail duplicate (name @ '' is repeated''))
             else if slot_bad slot then Inl (request_fail bad badMessage)
             else (case slot_value slot of None \<Rightarrow> Inl (request_fail bad badMessage) | Some v \<Rightarrow> Inr v))"

definition readOptional ::
  "slots \<Rightarrow> string \<Rightarrow> string \<Rightarrow> string \<Rightarrow> string \<Rightarrow> RuleRequestError + jtext option" where
  "readOptional slots key duplicate bad badMessage =
     (let name = FIELD_NAME key
      in case slots key of
           None \<Rightarrow> Inr None
         | Some slot \<Rightarrow>
             if slot_count slot = 0 then Inr None
             else if 1 < slot_count slot then Inl (request_fail duplicate (name @ '' is repeated''))
             else if slot_bad slot then Inl (request_fail bad badMessage)
             else (case slot_value slot of None \<Rightarrow> Inl (request_fail bad badMessage) | Some v \<Rightarrow> Inr (Some v)))"

definition readAddressField ::
  "(jtext \<Rightarrow> jtext option) \<Rightarrow> slots \<Rightarrow> string \<Rightarrow> string \<Rightarrow> string \<Rightarrow> string \<Rightarrow> RuleRequestError + jtext" where
  "readAddressField base58 slots key duplicate missing bad =
     (let m = FIELD_NAME key @ '' must be a canonical base58 address''
      in go_on (readRequired slots key duplicate missing bad m) (\<lambda>raw.
           if \<not> canonicalAddress base58 raw then Inl (request_fail bad m) else Inr raw))"

definition readAmountField ::
  "slots \<Rightarrow> string \<Rightarrow> string \<Rightarrow> string \<Rightarrow> string \<Rightarrow> RuleRequestError + int" where
  "readAmountField slots key duplicate missing bad =
     (let m = amountMessage (FIELD_NAME key)
      in go_on (readRequired slots key duplicate missing bad m) (\<lambda>raw.
           case parsePositiveU64 raw of None \<Rightarrow> Inl (request_fail bad m) | Some amount \<Rightarrow> Inr amount))"

definition readDaysField :: "slots \<Rightarrow> RuleRequestError + int" where
  "readDaysField slots =
     go_on (readRequired slots ''days'' ''duplicate_days'' ''missing_days'' ''bad_days'' daysMessage) (\<lambda>raw.
       case parseDaysToken raw of None \<Rightarrow> Inl (request_fail ''bad_days'' daysMessage) | Some days \<Rightarrow> Inr days)"

definition readPurposeField :: "slots \<Rightarrow> RuleRequestError + jtext" where
  "readPurposeField slots =
     (let m = ''purpose is not percent-encoded UTF-8''
      in go_on (readRequired slots ''purpose'' ''duplicate_purpose'' ''missing_purpose'' ''bad_purpose'' m) (\<lambda>raw.
           if \<not> isWellFormedUtf16 raw then Inl (request_fail ''bad_purpose'' m)
           else if purposeTooLong raw then Inl (request_fail ''purpose_too_long'' purposeTooLongMessage)
           else Inr raw))"

definition readLabelField ::
  "slots \<Rightarrow> string \<Rightarrow> string \<Rightarrow> string \<Rightarrow> string \<Rightarrow> RuleRequestError + jtext option" where
  "readLabelField slots key duplicate bad tooLong =
     (let noun = FIELD_NAME key; m = noun @ '' is not percent-encoded UTF-8''
      in go_on (readOptional slots key duplicate bad m) (\<lambda>raw.
           case raw of None \<Rightarrow> Inr None
           | Some v \<Rightarrow>
               if v = [] then Inr None
               else if \<not> isWellFormedUtf16 v then Inl (request_fail bad m)
               else if LABEL_MAX_CHARS < codePointLength v then Inl (request_fail tooLong (labelTooLongMessage noun))
               else Inr (Some v)))"

definition readFields :: "(jtext \<Rightarrow> jtext option) \<Rightarrow> slots \<Rightarrow> RuleRequestError + RuleRequest" where
  "readFields base58 slots =
     go_on (readRequired slots ''v'' ''duplicate_v'' ''missing_v'' ''bad_v'' ''version must be 1'') (\<lambda>version.
     if version \<noteq> js ''1'' then Inl (request_fail ''bad_v'' ''version must be 1'') else
     go_on (readAddressField base58 slots ''agent'' ''duplicate_agent'' ''missing_agent'' ''bad_agent'') (\<lambda>agent.
     go_on (readAddressField base58 slots ''payee'' ''duplicate_payee'' ''missing_payee'' ''bad_payee'') (\<lambda>payee.
     go_on (readAddressField base58 slots ''mint'' ''duplicate_mint'' ''missing_mint'' ''bad_mint'') (\<lambda>mint.
     go_on (readAmountField slots ''cap'' ''duplicate_cap'' ''missing_cap'' ''bad_cap'') (\<lambda>cap.
     go_on (readAmountField slots ''max'' ''duplicate_max'' ''missing_max'' ''bad_max'') (\<lambda>largest.
     if cap < largest then Inl (request_fail ''max_above_cap'' ''max is greater than cap'') else
     go_on (readDaysField slots) (\<lambda>days.
     go_on (readPurposeField slots) (\<lambda>purpose.
     go_on (readLabelField slots ''agentLabel'' ''duplicate_agent_label'' ''bad_agent_label'' ''agent_label_too_long'')
       (\<lambda>agentLabel.
     go_on (readLabelField slots ''payeeLabel'' ''duplicate_payee_label'' ''bad_payee_label'' ''payee_label_too_long'')
       (\<lambda>payeeLabel.
     Inr \<lparr>rr_v = 1, rr_agent = agent, rr_payee = payee, rr_mint = mint, rr_cap = cap, rr_max = largest,
          rr_days = days, rr_purpose = purpose, rr_agentLabel = agentLabel, rr_payeeLabel = payeeLabel\<rparr>))))))))))"

text \<open>The parts of a URL the structure check looks at. For the host, lower case over the ASCII
  letters decides the comparison: no other code point has a lower case made of the letters of
  \<open>rule-request\<close>.\<close>

record Url =
  url_protocol :: jtext
  url_username :: jtext
  url_password :: jtext
  url_port :: jtext
  url_hostname :: jtext
  url_pathname :: jtext
  url_search :: jtext

definition lower_unit :: "unit16 \<Rightarrow> unit16" where
  "lower_unit u = (if 65 \<le> unat u \<and> unat u \<le> 90 then u + 32 else u)"

definition checkStructure :: "Url \<Rightarrow> RuleRequestError option" where
  "checkStructure url =
     (if url_protocol url \<noteq> js ''veto:'' then Some (request_fail ''scheme'' ''the scheme must be veto'')
      else if url_username url \<noteq> [] \<or> url_password url \<noteq> [] then
        Some (request_fail ''userinfo'' ''the request must not include user info'')
      else if url_port url \<noteq> [] then Some (request_fail ''port'' ''the request must not include a port'')
      else if map lower_unit (url_hostname url) \<noteq> js ''rule-request'' then
        Some (request_fail ''host'' ''the host must be rule-request'')
      else if url_pathname url \<noteq> [] \<and> url_pathname url \<noteq> js ''/'' then
        Some (request_fail ''path'' ''the path must be empty'')
      else None)"

definition label_pair :: "string \<Rightarrow> jtext option \<Rightarrow> (string \<times> jtext) list" where
  "label_pair key label = (case label of None \<Rightarrow> [] | Some v \<Rightarrow> if v = [] then [] else [(key, v)])"

text \<open>The query of a link; None is the \<open>URIError\<close> of a lone surrogate.\<close>

definition encode_pair :: "string \<times> jtext \<Rightarrow> jtext option" where
  "encode_pair kv = map_option (\<lambda>e. js (fst kv) @ [equals_sign] @ e) (encodeURIComponent (snd kv))"

definition encode_query :: "(string \<times> jtext) list \<Rightarrow> jtext option" where
  "encode_query pairs = map_option (join_with amp) (those (map encode_pair pairs))"

definition request_pairs :: "RuleRequest \<Rightarrow> (string \<times> jtext) list" where
  "request_pairs r =
     [(''v'', js ''1''), (''agent'', rr_agent r), (''payee'', rr_payee r), (''mint'', rr_mint r),
      (''cap'', js (int_str (rr_cap r))), (''max'', js (int_str (rr_max r))),
      (''days'', js (int_str (rr_days r))), (''purpose'', rr_purpose r)]
     @ label_pair ''agentLabel'' (rr_agentLabel r) @ label_pair ''payeeLabel'' (rr_payeeLabel r)"

definition formatRequest :: "RuleRequest \<Rightarrow> jtext option" where
  "formatRequest r = map_option (\<lambda>q. js ''veto://rule-request?'' @ q) (encode_query (request_pairs r))"

definition readInputAddress ::
  "(jtext \<Rightarrow> jtext option) \<Rightarrow> js_value \<Rightarrow> string \<Rightarrow> string \<Rightarrow> string \<Rightarrow> RuleRequestError + jtext" where
  "readInputAddress base58 v missing bad noun =
     (case v of
        Undefined \<Rightarrow> Inl (request_fail missing (noun @ '' is missing''))
      | Text s \<Rightarrow> if canonicalAddress base58 s then Inr s
                 else Inl (request_fail bad (noun @ '' must be a canonical base58 address''))
      | _ \<Rightarrow> Inl (request_fail bad (noun @ '' must be a canonical base58 address'')))"

definition readInputAmount :: "js_value \<Rightarrow> string \<Rightarrow> string \<Rightarrow> string \<Rightarrow> RuleRequestError + int" where
  "readInputAmount v missing bad noun =
     (if v = Undefined then Inl (request_fail missing (noun @ '' is missing''))
      else case coercePositiveU64 v of None \<Rightarrow> Inl (request_fail bad (amountMessage noun)) | Some a \<Rightarrow> Inr a)"

definition readInputDays :: "js_value \<Rightarrow> RuleRequestError + int" where
  "readInputDays v =
     (if v = Undefined then Inl (request_fail ''missing_days'' ''days is missing'')
      else case coerceDays v of None \<Rightarrow> Inl (request_fail ''bad_days'' daysMessage) | Some d \<Rightarrow> Inr d)"

definition readInputPurpose :: "js_value \<Rightarrow> RuleRequestError + jtext" where
  "readInputPurpose v =
     (case v of
        Undefined \<Rightarrow> Inl (request_fail ''missing_purpose'' ''purpose is missing'')
      | Text s \<Rightarrow>
          if \<not> isWellFormedUtf16 s then Inl (request_fail ''bad_purpose'' ''purpose must be UTF-8 text'')
          else if purposeTooLong s then Inl (request_fail ''purpose_too_long'' purposeTooLongMessage)
          else Inr s
      | _ \<Rightarrow> Inl (request_fail ''bad_purpose'' ''purpose must be UTF-8 text''))"

definition readInputLabel :: "js_value \<Rightarrow> string \<Rightarrow> string \<Rightarrow> string \<Rightarrow> RuleRequestError + jtext option" where
  "readInputLabel v bad tooLong noun =
     (case v of
        Undefined \<Rightarrow> Inr None
      | Text s \<Rightarrow>
          if \<not> isWellFormedUtf16 s then Inl (request_fail bad (noun @ '' must be UTF-8 text''))
          else if s = [] then Inr None
          else if LABEL_MAX_CHARS < codePointLength s then Inl (request_fail tooLong (labelTooLongMessage noun))
          else Inr (Some s)
      | _ \<Rightarrow> Inl (request_fail bad (noun @ '' must be UTF-8 text'')))"

definition readInput :: "(jtext \<Rightarrow> jtext option) \<Rightarrow> RuleRequestInput \<Rightarrow> RuleRequestError + RuleRequest" where
  "readInput base58 inp =
     go_on (readInputAddress base58 (in_agent inp) ''missing_agent'' ''bad_agent'' ''agent'') (\<lambda>agent.
     go_on (readInputAddress base58 (in_payee inp) ''missing_payee'' ''bad_payee'' ''payee'') (\<lambda>payee.
     go_on (readInputAddress base58 (in_mint inp) ''missing_mint'' ''bad_mint'' ''mint'') (\<lambda>mint.
     go_on (readInputAmount (in_cap inp) ''missing_cap'' ''bad_cap'' ''cap'') (\<lambda>cap.
     go_on (readInputAmount (in_max inp) ''missing_max'' ''bad_max'' ''max'') (\<lambda>largest.
     if cap < largest then Inl (request_fail ''max_above_cap'' ''max is greater than cap'') else
     go_on (readInputDays (in_days inp)) (\<lambda>days.
     go_on (readInputPurpose (in_purpose inp)) (\<lambda>purpose.
     go_on (readInputLabel (in_agentLabel inp) ''bad_agent_label'' ''agent_label_too_long'' ''agentLabel'') (\<lambda>agentLabel.
     go_on (readInputLabel (in_payeeLabel inp) ''bad_payee_label'' ''payee_label_too_long'' ''payeeLabel'') (\<lambda>payeeLabel.
     Inr \<lparr>rr_v = 1, rr_agent = agent, rr_payee = payee, rr_mint = mint, rr_cap = cap, rr_max = largest,
          rr_days = days, rr_purpose = purpose, rr_agentLabel = agentLabel, rr_payeeLabel = payeeLabel\<rparr>)))))))))"

text \<open>What \<open>createRuleRequest\<close> throws: the rejection, or the \<open>URIError\<close> of a lone surrogate.\<close>

datatype 'e create_error = Rejected 'e | UriError

definition createRuleRequest ::
  "(jtext \<Rightarrow> jtext option) \<Rightarrow> RuleRequestInput \<Rightarrow> RuleRequestError create_error + jtext" where
  "createRuleRequest base58 inp =
     (case readInput base58 inp of Inl e \<Rightarrow> Inl (Rejected e)
      | Inr r \<Rightarrow> (case formatRequest r of None \<Rightarrow> Inl UriError | Some url \<Rightarrow> Inr url))"

definition parseRuleRequest ::
  "(jtext \<Rightarrow> jtext option) \<Rightarrow> (jtext \<Rightarrow> Url option) \<Rightarrow> jtext \<Rightarrow> RuleRequestError + RuleRequest" where
  "parseRuleRequest base58 parseUrl url =
     (case parseUrl url of None \<Rightarrow> Inl (request_fail ''not_a_url'' ''the request is not a URL'')
      | Some parsed \<Rightarrow>
          (case checkStructure parsed of Some e \<Rightarrow> Inl e
           | None \<Rightarrow> readFields base58 (parseSlots (url_search parsed))))"

end
