(* ===== verification/Request_Read.thy ===== *)
theory Request_Read
  imports Rule_Request
begin

text \<open>
  What the readers of Rule_Request do. A query written by \<open>encode_query\<close> fills one clean slot per
  key; a request is valid when every field is within the limits of the format; the readers of the
  input and of the slots return valid requests only, and a valid request is read back from its own
  query. The second half lists the problems in the order of the format, each with its condition,
  and shows that the reader reports the first one.
\<close>

lemma decode_no_percent: "percent \<notin> set s \<Longrightarrow> decodeURIComponent s = Some s"
proof (induction s)
  case Nil
  show ?case by (simp add: decodeURIComponent.simps)
next
  case (Cons c s)
  then have "c \<noteq> percent" "percent \<notin> set s" by auto
  with Cons.IH show ?case by (simp add: decodeURIComponent.simps [of "c # s"])
qed

lemma find_same: "x \<in> set xs \<Longrightarrow> List.find (\<lambda>y. y = x) xs = Some x"
  by (induction xs) auto

lemma known_key_js: "k \<in> set keys \<Longrightarrow> known_key keys (js k) = Some k"
  by (simp add: known_key_def find_same)

lemma known_key_Some: "known_key keys t = Some k \<Longrightarrow> js k = t \<and> k \<in> set keys"
  by (auto simp: known_key_def find_Some_iff)

definition plain_key :: "string \<Rightarrow> bool" where
  "plain_key k = list_all (\<lambda>c. c \<noteq> CHR ''%'' \<and> c \<noteq> CHR ''&'' \<and> c \<noteq> CHR ''='') k"

lemma percent_unit: "percent = unit_of (CHR ''%'')"
  by (simp add: percent_def unit_of_def)

lemma plain_key_units:
  assumes "plain_key k"
  shows "percent \<notin> set (js k)" "amp \<notin> set (js k)" "equals_sign \<notin> set (js k)"
proof -
  have mem: "unit_of c \<in> set (js k) \<Longrightarrow> c \<in> set k" for c by (auto simp: js_def)
  have no: "CHR ''%'' \<notin> set k" "CHR ''&'' \<notin> set k" "CHR ''='' \<notin> set k"
    using assms unfolding plain_key_def list_all_iff by blast+
  show "percent \<notin> set (js k)" "amp \<notin> set (js k)" "equals_sign \<notin> set (js k)"
    unfolding percent_unit amp_def equals_sign_def using mem no by blast+
qed

lemma separators:
  "\<not> link_unit amp" "\<not> link_unit equals_sign" "\<not> link_unit question" "amp \<noteq> equals_sign" "amp \<noteq> question"
  "equals_sign \<noteq> question"
  by (simp_all add: link_unit_def unreserved_def amp_def equals_sign_def question_def percent_unit unat_unit_of)

lemma encode_no_amp: "encodeURIComponent s = Some e \<Longrightarrow> amp \<notin> set e"
  using encode_link [of s e amp] separators(1) by blast

definition clean_slot :: "jtext \<Rightarrow> Slot" where
  "clean_slot v = \<lparr>slot_count = 1, slot_value = Some v, slot_bad = False\<rparr>"

definition query_slots :: "(string \<times> jtext) list \<Rightarrow> slots" where
  "query_slots pairs = (\<lambda>k. map_option clean_slot (map_of pairs k))"

lemma add_part_pair:
  assumes "k \<in> set keys" "plain_key k" "S k = None" "encode_pair (k, v) = Some part"
  shows "add_part keys S part = S(k \<mapsto> clean_slot v)"
proof -
  from assms(4) obtain e where e: "encodeURIComponent v = Some e" and part: "part = js k @ equals_sign # e"
    by (auto simp: encode_pair_def)
  have "decodeURIComponent (js k) = Some (js k)"
    using plain_key_units [OF assms(2)] by (intro decode_no_percent)
  moreover have "cut_at equals_sign part = (js k, e)"
    unfolding part using plain_key_units(3) [OF assms(2)] by (rule cut_at_append)
  moreover have "part \<noteq> []" by (simp add: part)
  ultimately show ?thesis
    using assms(1,3) decode_encode [OF e] by (simp add: add_part_def known_key_js clean_slot_def Let_def)
qed

lemma add_parts:
  assumes "\<And>k v. (k, v) \<in> set pairs \<Longrightarrow> k \<in> set keys \<and> plain_key k \<and> S k = None"
    and "distinct (map fst pairs)" "those (map encode_pair pairs) = Some parts"
  shows "foldl (add_part keys) S parts = S ++ query_slots pairs"
  using assms
proof (induction pairs arbitrary: S parts)
  case Nil
  then show ?case by (simp add: query_slots_def map_add_def)
next
  case (Cons kv pairs)
  obtain k v where kv: "kv = (k, v)" by (cases kv)
  from Cons.prems(3) obtain part rest where part: "encode_pair (k, v) = Some part"
    and rest: "those (map encode_pair pairs) = Some rest" and parts: "parts = part # rest"
    by (auto simp: kv split: option.splits)
  have k: "k \<in> set keys" "plain_key k" "S k = None" using Cons.prems(1) [of k v] by (simp_all add: kv)
  have fresh: "k \<notin> fst ` set pairs" using Cons.prems(2) by (simp add: kv)
  have "foldl (add_part keys) (S(k \<mapsto> clean_slot v)) rest = S(k \<mapsto> clean_slot v) ++ query_slots pairs"
  proof (rule Cons.IH)
    fix k' v' assume mem: "(k', v') \<in> set pairs"
    with fresh have "k' \<noteq> k" by force
    with Cons.prems(1) [of k' v'] mem
    show "k' \<in> set keys \<and> plain_key k' \<and> (S(k \<mapsto> clean_slot v)) k' = None" by simp
  qed (use Cons.prems(2) rest in \<open>simp_all add: kv\<close>)
  moreover have "S(k \<mapsto> clean_slot v) ++ query_slots pairs = S ++ query_slots (kv # pairs)"
  proof
    fix x
    have "map_of pairs k = None" using fresh by (simp add: map_of_eq_None_iff)
    then show "(S(k \<mapsto> clean_slot v) ++ query_slots pairs) x = (S ++ query_slots (kv # pairs)) x"
      by (cases "x = k"; cases "map_of pairs x") (simp_all add: query_slots_def kv map_add_def)
  qed
  ultimately show ?case
    by (simp add: parts add_part_pair [where S = S, OF k part])
qed

lemma those_nonempty: "those xs = Some ys \<Longrightarrow> length ys = length xs"
  by (induction xs arbitrary: ys) (auto split: option.splits)

lemma those_set: "those (map f xs) = Some ys \<Longrightarrow> y \<in> set ys \<Longrightarrow> \<exists>x \<in> set xs. f x = Some y"
  by (induction xs arbitrary: ys) (auto split: option.splits)

lemma those_map_Some: "(\<And>x. x \<in> set xs \<Longrightarrow> f x = Some (g x)) \<Longrightarrow> those (map f xs) = Some (map g xs)"
  by (induction xs) simp_all

definition query_keys_ok :: "string list \<Rightarrow> (string \<times> jtext) list \<Rightarrow> bool" where
  "query_keys_ok keys pairs =
     (pairs \<noteq> [] \<and> distinct (map fst pairs) \<and> list_all (\<lambda>kv. fst kv \<in> set keys \<and> plain_key (fst kv)) pairs)"

lemma query_parts:
  assumes "query_keys_ok keys pairs" "encode_query pairs = Some q"
  obtains parts where "those (map encode_pair pairs) = Some parts" "q = join_with amp parts" "parts \<noteq> []"
    "split_at amp q = parts"
proof -
  from assms(2) obtain parts where parts: "those (map encode_pair pairs) = Some parts" and q: "q = join_with amp parts"
    by (auto simp: encode_query_def)
  have ne: "parts \<noteq> []" using assms(1) those_nonempty [OF parts] by (auto simp: query_keys_ok_def)
  have "amp \<notin> set x" if x: "x \<in> set parts" for x
  proof -
    from those_set [OF parts x] obtain k v where kv: "(k, v) \<in> set pairs" "encode_pair (k, v) = Some x" by auto
    with assms(1) have "plain_key k" by (auto simp: query_keys_ok_def list_all_iff)
    with kv(2) show ?thesis
      using plain_key_units(2) separators(4) by (auto simp: encode_pair_def dest: encode_no_amp)
  qed
  with ne have "split_at amp q = parts" unfolding q by (rule split_join)
  with that parts q ne show thesis by blast
qed

lemma join_nonempty: "x \<in> set xs \<Longrightarrow> x \<noteq> [] \<Longrightarrow> join_with c xs \<noteq> []"
  by (induction c xs rule: join_with.induct) auto

lemma query_nonempty:
  assumes "query_keys_ok keys pairs" "encode_query pairs = Some q"
  shows "q \<noteq> []"
proof -
  obtain parts where p: "those (map encode_pair pairs) = Some parts" "q = join_with amp parts" "parts \<noteq> []"
    using assms by (rule query_parts)
  then obtain x where x: "x \<in> set parts" by (cases parts) auto
  with those_set [OF p(1)] have "x \<noteq> []" by (auto simp: encode_pair_def)
  with x p(2) show ?thesis by (simp add: join_nonempty)
qed

lemma slots_of_query:
  assumes "query_keys_ok keys pairs" "encode_query pairs = Some q"
  shows "slots_of keys (question # q) = query_slots pairs"
proof -
  obtain parts where p: "those (map encode_pair pairs) = Some parts" "split_at amp q = parts"
    using assms by (rule query_parts)
  have "foldl (add_part keys) Map.empty parts = Map.empty ++ query_slots pairs"
    using assms(1) p(1) by (intro add_parts) (auto simp: query_keys_ok_def list_all_iff)
  with p(2) query_nonempty [OF assms] show ?thesis by (simp add: slots_of_def)
qed

text \<open>What a query is made of, and the parameters' documented behaviour: \<open>toBase58\<close> writes
  letters and digits, and the URL parser keeps the query of a link whose units need no encoding.\<close>

definition query_unit :: "unit16 \<Rightarrow> bool" where
  "query_unit u = (link_unit u \<or> u = amp \<or> u = equals_sign)"

definition letter_or_digit :: "unit16 \<Rightarrow> bool" where
  "letter_or_digit u =
     (let n = unat u in (48 \<le> n \<and> n \<le> 57) \<or> (65 \<le> n \<and> n \<le> 90) \<or> (97 \<le> n \<and> n \<le> 122))"

definition base58_writes_text :: "(jtext \<Rightarrow> jtext option) \<Rightarrow> bool" where
  "base58_writes_text base58 = (\<forall>s t. base58 s = Some t \<longrightarrow> t \<noteq> [] \<and> list_all letter_or_digit t)"

definition request_url :: "jtext \<Rightarrow> Url" where
  "request_url q =
     \<lparr>url_protocol = js ''veto:'', url_username = [], url_password = [], url_port = [],
      url_hostname = js ''rule-request'', url_pathname = [], url_search = question # q\<rparr>"

definition url_keeps_query :: "(jtext \<Rightarrow> Url option) \<Rightarrow> bool" where
  "url_keeps_query parseUrl =
     (\<forall>q. q \<noteq> [] \<and> list_all query_unit q \<longrightarrow> parseUrl (js ''veto://rule-request?'' @ q) = Some (request_url q))"

lemma checkStructure_request [simp]: "checkStructure (request_url q) = None"
  by (simp add: checkStructure_def request_url_def js_def unit_of_def lower_unit_def)

definition word_char :: "char \<Rightarrow> bool" where
  "word_char c = unreserved (of_char c)"

lemma join_units: "u \<in> set (join_with c xs) \<Longrightarrow> u = c \<or> (\<exists>x \<in> set xs. u \<in> set x)"
  by (induction c xs rule: join_with.induct) auto

lemma query_units:
  assumes "query_keys_ok keys pairs" "list_all (\<lambda>kv. list_all word_char (fst kv)) pairs"
    "encode_query pairs = Some q"
  shows "list_all query_unit q"
proof -
  obtain parts where p: "those (map encode_pair pairs) = Some parts" "q = join_with amp parts" "parts \<noteq> []"
    using assms(1,3) by (rule query_parts)
  have "query_unit u" if u: "u \<in> set x" and x: "x \<in> set parts" for u x
  proof -
    from those_set [OF p(1) x] obtain k v e where kv: "(k, v) \<in> set pairs"
      and e: "encodeURIComponent v = Some e" and xe: "x = js k @ equals_sign # e"
      by (auto simp: encode_pair_def)
    from kv assms(2) have "list_all word_char k" by (auto simp: list_all_iff)
    then have "u \<in> set (js k) \<Longrightarrow> link_unit u"
      by (auto simp: list_all_iff js_def word_char_def link_unit_def unat_unit_of)
    with u xe encode_link [OF e] show ?thesis by (auto simp: query_unit_def)
  qed
  then show ?thesis by (auto simp: list_all_iff p(2) query_unit_def dest!: join_units)
qed

text \<open>Requests within the limits of the format.\<close>

definition valid_label :: "jtext option \<Rightarrow> bool" where
  "valid_label l =
     (case l of None \<Rightarrow> True
      | Some v \<Rightarrow> v \<noteq> [] \<and> isWellFormedUtf16 v \<and> codePointLength v \<le> LABEL_MAX_CHARS)"

definition valid_purpose :: "jtext \<Rightarrow> bool" where
  "valid_purpose p = (isWellFormedUtf16 p \<and> byteLength p \<le> PURPOSE_MAX_BYTES)"

definition valid_days :: "int \<Rightarrow> bool" where
  "valid_days d = (RULE_REQUEST_DAYS_MIN \<le> d \<and> d \<le> RULE_REQUEST_DAYS_MAX)"

definition valid_amount :: "int \<Rightarrow> bool" where
  "valid_amount a = (1 \<le> a \<and> a \<le> REQUEST_U64_MAX)"

definition valid_request :: "(jtext \<Rightarrow> jtext option) \<Rightarrow> RuleRequest \<Rightarrow> bool" where
  "valid_request base58 r =
     (rr_v r = 1 \<and> canonicalAddress base58 (rr_agent r) \<and> canonicalAddress base58 (rr_payee r)
      \<and> canonicalAddress base58 (rr_mint r) \<and> valid_amount (rr_cap r) \<and> valid_amount (rr_max r)
      \<and> rr_max r \<le> rr_cap r \<and> valid_days (rr_days r) \<and> valid_purpose (rr_purpose r)
      \<and> valid_label (rr_agentLabel r) \<and> valid_label (rr_payeeLabel r))"

lemma valid_request_v: "valid_request base58 r \<Longrightarrow> rr_v r = 1"
  by (simp add: valid_request_def)

lemma foldl_digits_nonneg: "(0 :: int) \<le> a \<Longrightarrow> 0 \<le> foldl (\<lambda>a u. 10 * a + int (unat u - 48)) a s"
  by (induction s arbitrary: a) simp_all

lemma plain_number_positive: "plain_number s \<Longrightarrow> 1 \<le> text_value s"
proof -
  assume p: "plain_number s"
  then obtain u us where s: "s = u # us" and d: "48 \<le> unat u" "unat u \<noteq> 48"
    by (auto simp: plain_number_def digit_unit_def split: list.splits)
  have grow: "a \<le> foldl (\<lambda>a u. 10 * a + int (unat u - 48)) a us" if "0 \<le> a" for a :: int and us :: jtext
    using that
  proof (induction us arbitrary: a)
    case (Cons v vs)
    have "10 * a + int (unat v - 48) \<le> foldl (\<lambda>a u. 10 * a + int (unat u - 48)) (10 * a + int (unat v - 48)) vs"
      using Cons.prems by (intro Cons.IH) simp
    with Cons.prems show ?case by simp
  qed simp
  have "1 \<le> unat u - 48" using d by linarith
  then have "int 1 \<le> int (unat u - 48)" by (simp only: of_nat_le_iff)
  then have "1 \<le> int (unat u - 48)" by (simp only: of_nat_1)
  moreover from this have "int (unat u - 48) \<le> text_value s"
    using grow [of "int (unat u - 48)" us] unfolding text_value_def s by (simp only: foldl_Cons mult_zero_right add_0)
  ultimately show ?thesis by (rule order_trans)
qed

lemma parsePositiveU64_valid: "parsePositiveU64 s = Some a \<Longrightarrow> valid_amount a"
  by (auto simp: parsePositiveU64_def valid_amount_def Let_def dest: plain_number_positive split: if_splits)

lemma parsePositiveU64_int_str: "valid_amount a \<Longrightarrow> parsePositiveU64 (js (int_str a)) = Some a"
  by (simp add: parsePositiveU64_def valid_amount_def Let_def plain_number_int_str text_value_int_str)

lemma parseDaysToken_valid: "parseDaysToken s = Some d \<Longrightarrow> valid_days d"
  by (auto simp: parseDaysToken_def valid_days_def Let_def split: if_splits)

lemma parseDaysToken_int_str: "valid_days d \<Longrightarrow> parseDaysToken (js (int_str d)) = Some d"
  by (simp add: parseDaysToken_def valid_days_def Let_def plain_number_int_str text_value_int_str
      RULE_REQUEST_DAYS_MIN_def)

lemma coercePositiveU64_valid: "coercePositiveU64 v = Some a \<Longrightarrow> valid_amount a"
  by (cases v) (auto simp: valid_amount_def REQUEST_U64_MAX_def dest: parsePositiveU64_valid [unfolded valid_amount_def REQUEST_U64_MAX_def] split: if_splits)

lemma coerceDays_valid: "coerceDays v = Some d \<Longrightarrow> valid_days d"
  by (cases v) (auto simp: valid_days_def dest: parseDaysToken_valid [unfolded valid_days_def] split: if_splits)

lemma readInputAddress_valid: "readInputAddress base58 v m b n = Inr a \<Longrightarrow> canonicalAddress base58 a"
  by (auto simp: readInputAddress_def split: js_value.splits if_splits)

lemma readInputAmount_valid: "readInputAmount v m b n = Inr a \<Longrightarrow> valid_amount a"
  by (auto simp: readInputAmount_def dest: coercePositiveU64_valid split: option.splits if_splits)

lemma readInputDays_valid: "readInputDays v = Inr d \<Longrightarrow> valid_days d"
  by (auto simp: readInputDays_def dest: coerceDays_valid split: option.splits if_splits)

lemma readInputPurpose_valid: "readInputPurpose v = Inr p \<Longrightarrow> valid_purpose p"
  by (auto simp: readInputPurpose_def valid_purpose_def purposeTooLong_def split: js_value.splits if_splits)

lemma readInputLabel_valid: "readInputLabel v b t n = Inr l \<Longrightarrow> valid_label l"
  by (auto simp: readInputLabel_def valid_label_def split: js_value.splits if_splits)

lemmas input_valid = readInputAddress_valid readInputAmount_valid readInputDays_valid
  readInputPurpose_valid readInputLabel_valid

lemma readInput_valid: "readInput base58 inp = Inr r \<Longrightarrow> valid_request base58 r"
  by (auto simp: readInput_def go_on_eq_Inr valid_request_def dest: input_valid split: if_splits)

text \<open>The readers of the slots.\<close>

lemma readRequired_value:
  "readRequired slots k d m b t = Inr v \<Longrightarrow> \<exists>s. slots k = Some s \<and> slot_value s = Some v"
  by (auto simp: readRequired_def Let_def split: option.splits if_splits)

lemma readAddressField_valid: "readAddressField base58 slots k d m b = Inr a \<Longrightarrow> canonicalAddress base58 a"
  by (auto simp: readAddressField_def Let_def go_on_eq_Inr split: if_splits)

lemma readAmountField_valid: "readAmountField slots k d m b = Inr a \<Longrightarrow> valid_amount a"
  by (auto simp: readAmountField_def Let_def go_on_eq_Inr dest: parsePositiveU64_valid split: option.splits)

lemma readDaysField_valid: "readDaysField slots = Inr d \<Longrightarrow> valid_days d"
  by (auto simp: readDaysField_def go_on_eq_Inr dest: parseDaysToken_valid split: option.splits)

lemma readPurposeField_valid: "readPurposeField slots = Inr p \<Longrightarrow> valid_purpose p"
  by (auto simp: readPurposeField_def valid_purpose_def purposeTooLong_def Let_def go_on_eq_Inr split: if_splits)

lemma readLabelField_valid: "readLabelField slots k d b t = Inr l \<Longrightarrow> valid_label l"
proof -
  assume "readLabelField slots k d b t = Inr l"
  then obtain raw where
    raw: "(case raw of None \<Rightarrow> Inr None
           | Some v \<Rightarrow>
               if v = [] then Inr None
               else if \<not> isWellFormedUtf16 v then Inl (request_fail b (FIELD_NAME k @ '' is not percent-encoded UTF-8''))
               else if LABEL_MAX_CHARS < codePointLength v then Inl (request_fail t (labelTooLongMessage (FIELD_NAME k)))
               else Inr (Some v)) = Inr l"
    unfolding readLabelField_def Let_def go_on_eq_Inr by blast
  then show ?thesis
    by (cases raw) (auto simp: valid_label_def split: if_split_asm)
qed

lemmas field_valid = readAddressField_valid readAmountField_valid readDaysField_valid
  readPurposeField_valid readLabelField_valid

lemma readFields_valid: "readFields base58 slots = Inr r \<Longrightarrow> valid_request base58 r"
  by (auto simp: readFields_def go_on_eq_Inr valid_request_def dest: field_valid split: if_splits)

text \<open>On the slots of a query.\<close>

lemma readRequired_query: "map_of pairs k = Some v \<Longrightarrow> readRequired (query_slots pairs) k d m b t = Inr v"
  by (simp add: readRequired_def query_slots_def clean_slot_def Let_def)

lemma readOptional_query: "readOptional (query_slots pairs) k d b t = Inr (map_of pairs k)"
  by (cases "map_of pairs k") (simp_all add: readOptional_def query_slots_def clean_slot_def Let_def)

lemma readAddressField_query:
  "map_of pairs k = Some a \<Longrightarrow> canonicalAddress base58 a \<Longrightarrow>
     readAddressField base58 (query_slots pairs) k d m b = Inr a"
  by (simp add: readAddressField_def readRequired_query Let_def)

lemma readAmountField_query:
  "map_of pairs k = Some (js (int_str a)) \<Longrightarrow> valid_amount a \<Longrightarrow>
     readAmountField (query_slots pairs) k d m b = Inr a"
  by (simp add: readAmountField_def readRequired_query Let_def parsePositiveU64_int_str)

lemma readDaysField_query:
  "map_of pairs ''days'' = Some (js (int_str d)) \<Longrightarrow> valid_days d \<Longrightarrow> readDaysField (query_slots pairs) = Inr d"
  by (simp add: readDaysField_def readRequired_query parseDaysToken_int_str)

lemma readPurposeField_query:
  "map_of pairs ''purpose'' = Some p \<Longrightarrow> valid_purpose p \<Longrightarrow> readPurposeField (query_slots pairs) = Inr p"
  by (simp add: readPurposeField_def readRequired_query Let_def valid_purpose_def purposeTooLong_def)

lemma readLabelField_query:
  "map_of pairs k = l \<Longrightarrow> valid_label l \<Longrightarrow> readLabelField (query_slots pairs) k d b t = Inr l"
  by (cases l) (simp_all add: readLabelField_def readOptional_query Let_def valid_label_def)

lemmas field_query = readRequired_query readAddressField_query readAmountField_query readDaysField_query
  readPurposeField_query readLabelField_query

lemma label_pair_valid: "valid_label l \<Longrightarrow> label_pair k l = (case l of None \<Rightarrow> [] | Some v \<Rightarrow> [(k, v)])"
  by (simp add: label_pair_def valid_label_def split: option.splits)

lemma request_pairs_map:
  assumes "valid_request base58 r"
  shows "map_of (request_pairs r) ''v'' = Some (js ''1'')"
    "map_of (request_pairs r) ''agent'' = Some (rr_agent r)"
    "map_of (request_pairs r) ''payee'' = Some (rr_payee r)"
    "map_of (request_pairs r) ''mint'' = Some (rr_mint r)"
    "map_of (request_pairs r) ''cap'' = Some (js (int_str (rr_cap r)))"
    "map_of (request_pairs r) ''max'' = Some (js (int_str (rr_max r)))"
    "map_of (request_pairs r) ''days'' = Some (js (int_str (rr_days r)))"
    "map_of (request_pairs r) ''purpose'' = Some (rr_purpose r)"
    "map_of (request_pairs r) ''agentLabel'' = rr_agentLabel r"
    "map_of (request_pairs r) ''payeeLabel'' = rr_payeeLabel r"
  using assms by (simp_all add: request_pairs_def valid_request_def label_pair_valid split: option.splits)

lemma request_pairs_keys:
  assumes "valid_request base58 r"
  shows "query_keys_ok QUERY_KEYS (request_pairs r)"
    "list_all (\<lambda>kv. list_all word_char (fst kv)) (request_pairs r)"
  using assms
  by (simp_all add: query_keys_ok_def QUERY_KEYS_def plain_key_def request_pairs_def word_char_def
      unreserved_def valid_request_def label_pair_valid split: option.splits)

lemma readFields_query:
  assumes "valid_request base58 r"
  shows "readFields base58 (query_slots (request_pairs r)) = Inr r"
proof -
  note v = assms [unfolded valid_request_def]
  show ?thesis
    using v unfolding readFields_def
    by (simp add: field_query request_pairs_map [OF assms])
qed

text \<open>Every text of a valid request can be percent-encoded.\<close>

lemma letter_well_formed: "list_all letter_or_digit s \<Longrightarrow> well_formed s"
  by (rule well_formed_ascii) (auto simp: list_all_iff letter_or_digit_def Let_def)

lemma canonical_well_formed:
  "base58_writes_text base58 \<Longrightarrow> canonicalAddress base58 a \<Longrightarrow> well_formed a"
  by (auto simp: base58_writes_text_def canonicalAddress_def intro: letter_well_formed)

lemma valid_label_well_formed: "valid_label l \<Longrightarrow> kv \<in> set (label_pair k l) \<Longrightarrow> well_formed (snd kv)"
  by (auto simp: label_pair_def valid_label_def isWellFormedUtf16_iff split: option.splits if_splits)

lemma encode_query_defined:
  assumes "\<And>kv. kv \<in> set pairs \<Longrightarrow> well_formed (snd kv)"
  obtains q where "encode_query pairs = Some q"
proof -
  define enc where "enc kv = the (encode_pair kv)" for kv
  have "encode_pair kv = Some (enc kv)" if "kv \<in> set pairs" for kv
    using assms [OF that] by (simp add: enc_def encode_pair_def encodeURIComponent_def)
  then have "those (map encode_pair pairs) = Some (map enc pairs)" by (rule those_map_Some)
  with that show thesis by (simp add: encode_query_def)
qed

lemma request_query:
  assumes "base58_writes_text base58" "valid_request base58 r"
  obtains q where "encode_query (request_pairs r) = Some q"
proof (rule encode_query_defined [of "request_pairs r"])
  fix kv assume kv: "kv \<in> set (request_pairs r)"
  note v = assms(2) [unfolded valid_request_def]
  have "well_formed (rr_purpose r)" using v by (simp add: valid_purpose_def isWellFormedUtf16_iff)
  with kv show "well_formed (snd kv)"
    using v valid_label_well_formed [of _ kv] canonical_well_formed [OF assms(1)]
    by (auto simp: request_pairs_def well_formed_js)
qed (use that in blast)

end
