(* ===== verification/Request_Check.thy ===== *)
theory Request_Check
  imports Request_Read
begin

text \<open>
  The problems of a request link in the order the format gives them, each with the condition under
  which it is present, and the proof that the reader reports the first one that is.
\<close>

definition problem_of :: "RuleRequestError + 'a \<Rightarrow> string option" where
  "problem_of m = (case m of Inl e \<Rightarrow> Some (problem e) | Inr _ \<Rightarrow> None)"

fun first_of :: "(string \<times> bool) list \<Rightarrow> string option" where
  "first_of [] = None"
| "first_of ((p, present) # ps) = (if present then Some p else first_of ps)"

lemma first_of_append: "first_of (ps @ qs) = (case first_of ps of None \<Rightarrow> first_of qs | Some p \<Rightarrow> Some p)"
  by (induction ps rule: first_of.induct) auto

lemma problem_of_simps [simp]: "problem_of (Inr x) = None" "problem_of (Inl e) = Some (problem e)"
  by (simp_all add: problem_of_def)

lemma problem_request_fail [simp]: "problem (request_fail p m) = p"
  by (simp add: request_fail_def)

lemma problem_go_on:
  assumes "problem_of m = first_of ps" "\<And>x. m = Inr x \<Longrightarrow> problem_of (f x) = first_of qs"
  shows "problem_of (go_on m f) = first_of (ps @ qs)"
  using assms by (cases m) (auto simp: first_of_append split: option.splits dest: sym)

lemma problem_if:
  assumes "c = present" "\<not> c \<Longrightarrow> problem_of m = first_of qs"
  shows "problem_of (if c then Inl (request_fail p t) else m) = first_of ([(p, present)] @ qs)"
  using assms by simp

definition slot_uses :: "slots \<Rightarrow> string \<Rightarrow> nat" where
  "slot_uses slots k = (case slots k of None \<Rightarrow> 0 | Some s \<Rightarrow> slot_count s)"

definition slot_text :: "slots \<Rightarrow> string \<Rightarrow> jtext option" where
  "slot_text slots k = (case slots k of None \<Rightarrow> None | Some s \<Rightarrow> if slot_bad s then None else slot_value s)"

text \<open>A required field is repeated, missing, or unfit; an optional one is repeated or unfit.\<close>

definition required_problems :: "slots \<Rightarrow> string \<Rightarrow> string \<Rightarrow> string \<Rightarrow> string \<Rightarrow> (jtext \<Rightarrow> bool) \<Rightarrow> (string \<times> bool) list" where
  "required_problems slots k d m b fit =
     [(d, 1 < slot_uses slots k), (m, slot_uses slots k = 0),
      (b, case slot_text slots k of None \<Rightarrow> True | Some v \<Rightarrow> \<not> fit v)]"

definition label_problems :: "slots \<Rightarrow> string \<Rightarrow> string \<Rightarrow> string \<Rightarrow> string \<Rightarrow> (string \<times> bool) list" where
  "label_problems slots k d b t =
     [(d, 1 < slot_uses slots k),
      (b, slot_uses slots k = 1 \<and> (case slot_text slots k of None \<Rightarrow> True | Some v \<Rightarrow> \<not> well_formed v)),
      (t, slot_uses slots k = 1 \<and>
          (case slot_text slots k of None \<Rightarrow> False | Some v \<Rightarrow> well_formed v \<and> 64 < length (code_points v)))]"

definition slot_amount :: "slots \<Rightarrow> string \<Rightarrow> int" where
  "slot_amount slots k = (case slot_text slots k of None \<Rightarrow> 0 | Some v \<Rightarrow> text_value v)"

definition amount_fit :: "jtext \<Rightarrow> bool" where
  "amount_fit v = (plain_number v \<and> text_value v < 2 ^ 64)"

definition days_fit :: "jtext \<Rightarrow> bool" where
  "days_fit v = (plain_number v \<and> text_value v \<le> 3650)"

definition purpose_problems :: "slots \<Rightarrow> (string \<times> bool) list" where
  "purpose_problems slots =
     required_problems slots ''purpose'' ''duplicate_purpose'' ''missing_purpose'' ''bad_purpose'' well_formed
     @ [(''purpose_too_long'', case slot_text slots ''purpose'' of None \<Rightarrow> False | Some v \<Rightarrow> 64 < byteLength v)]"

definition field_problems :: "(jtext \<Rightarrow> jtext option) \<Rightarrow> slots \<Rightarrow> (string \<times> bool) list" where
  "field_problems base58 slots =
     required_problems slots ''v'' ''duplicate_v'' ''missing_v'' ''bad_v'' (\<lambda>v. v = js ''1'')
     @ required_problems slots ''agent'' ''duplicate_agent'' ''missing_agent'' ''bad_agent'' (\<lambda>v. base58 v = Some v)
     @ required_problems slots ''payee'' ''duplicate_payee'' ''missing_payee'' ''bad_payee'' (\<lambda>v. base58 v = Some v)
     @ required_problems slots ''mint'' ''duplicate_mint'' ''missing_mint'' ''bad_mint'' (\<lambda>v. base58 v = Some v)
     @ required_problems slots ''cap'' ''duplicate_cap'' ''missing_cap'' ''bad_cap'' amount_fit
     @ required_problems slots ''max'' ''duplicate_max'' ''missing_max'' ''bad_max'' amount_fit
     @ [(''max_above_cap'', slot_amount slots ''cap'' < slot_amount slots ''max'')]
     @ required_problems slots ''days'' ''duplicate_days'' ''missing_days'' ''bad_days'' days_fit
     @ purpose_problems slots
     @ label_problems slots ''agentLabel'' ''duplicate_agent_label'' ''bad_agent_label'' ''agent_label_too_long''
     @ label_problems slots ''payeeLabel'' ''duplicate_payee_label'' ''bad_payee_label'' ''payee_label_too_long''"

text \<open>The structural problems, on the URL where there is one.\<close>

definition structure_problems :: "Url option \<Rightarrow> (string \<times> bool) list" where
  "structure_problems u =
     (let on = (\<lambda>c. case u of None \<Rightarrow> False | Some url \<Rightarrow> c url)
      in [(''not_a_url'', u = None),
          (''scheme'', on (\<lambda>url. url_protocol url \<noteq> js ''veto:'')),
          (''userinfo'', on (\<lambda>url. url_username url \<noteq> [] \<or> url_password url \<noteq> [])),
          (''port'', on (\<lambda>url. url_port url \<noteq> [])),
          (''host'', on (\<lambda>url. map lower_unit (url_hostname url) \<noteq> js ''rule-request'')),
          (''path'', on (\<lambda>url. url_pathname url \<noteq> [] \<and> url_pathname url \<noteq> js ''/''))])"

definition link_slots :: "Url option \<Rightarrow> slots" where
  "link_slots u = (case u of None \<Rightarrow> Map.empty | Some url \<Rightarrow> parseSlots (url_search url))"

definition request_problems :: "(jtext \<Rightarrow> jtext option) \<Rightarrow> Url option \<Rightarrow> (string \<times> bool) list" where
  "request_problems base58 u = structure_problems u @ field_problems base58 (link_slots u)"

lemma problem_readRequired:
  assumes "\<And>v. slot_text slots k = Some v \<Longrightarrow> slot_uses slots k = 1 \<Longrightarrow> problem_of (f v) = first_of ([(b, \<not> fit v)] @ qs)"
  shows "problem_of (go_on (readRequired slots k d m b t) f) = first_of (required_problems slots k d m b fit @ qs)"
proof (cases "slots k")
  case None
  then show ?thesis by (simp add: readRequired_def required_problems_def slot_uses_def Let_def)
next
  case (Some s)
  consider "slot_count s = 0" | "slot_count s = 1" | "1 < slot_count s" by linarith
  then show ?thesis
  proof cases
    case 2
    with Some assms show ?thesis
      by (auto simp: readRequired_def required_problems_def slot_uses_def slot_text_def Let_def split: option.splits)
  qed (simp_all add: Some readRequired_def required_problems_def slot_uses_def Let_def)
qed

lemma problem_readRequired_last:
  assumes "\<And>v. slot_text slots k = Some v \<Longrightarrow> slot_uses slots k = 1 \<Longrightarrow> problem_of (f v) = first_of [(b, \<not> fit v)]"
  shows "problem_of (go_on (readRequired slots k d m b t) f) = first_of (required_problems slots k d m b fit)"
  using problem_readRequired [of slots k f b fit "[]"] assms by simp

lemma problem_address:
  "problem_of (readAddressField base58 slots k d m b) = first_of (required_problems slots k d m b (\<lambda>v. base58 v = Some v))"
  unfolding readAddressField_def Let_def
  by (rule problem_readRequired_last) (simp add: canonicalAddress_def)

lemma problem_amount:
  "problem_of (readAmountField slots k d m b) = first_of (required_problems slots k d m b amount_fit)"
  unfolding readAmountField_def Let_def
  by (rule problem_readRequired_last) (simp add: parsePositiveU64_def amount_fit_def REQUEST_U64_MAX_def Let_def)

lemma problem_days:
  "problem_of (readDaysField slots) =
     first_of (required_problems slots ''days'' ''duplicate_days'' ''missing_days'' ''bad_days'' days_fit)"
  unfolding readDaysField_def
proof (rule problem_readRequired_last)
  fix v
  show "problem_of (case parseDaysToken v of None \<Rightarrow> Inl (request_fail ''bad_days'' daysMessage) | Some days \<Rightarrow> Inr days) =
          first_of [(''bad_days'', \<not> days_fit v)]"
    using plain_number_positive [of v]
    by (auto simp: parseDaysToken_def days_fit_def RULE_REQUEST_DAYS_MIN_def RULE_REQUEST_DAYS_MAX_def Let_def)
qed

lemma problem_purpose: "problem_of (readPurposeField slots) = first_of (purpose_problems slots)"
  unfolding readPurposeField_def purpose_problems_def Let_def
  by (rule problem_readRequired) (simp add: isWellFormedUtf16_iff purposeTooLong_def PURPOSE_MAX_BYTES_def)

lemma problem_label:
  "problem_of (readLabelField slots k d b t) = first_of (label_problems slots k d b t)"
proof (cases "slots k")
  case None
  then show ?thesis by (simp add: readLabelField_def readOptional_def label_problems_def slot_uses_def Let_def)
next
  case (Some s)
  consider "slot_count s = 0" | "slot_count s = 1" | "1 < slot_count s" by linarith
  then show ?thesis
  proof cases
    case 2
    then have uses: "slot_uses slots k = 1" using Some by (simp add: slot_uses_def)
    show ?thesis
    proof (cases "slot_text slots k")
      case None
      then have "problem_of (readLabelField slots k d b t) = Some b"
        using Some 2 by (auto simp: readLabelField_def readOptional_def slot_text_def Let_def split: option.splits if_splits)
      with None uses show ?thesis by (simp add: label_problems_def)
    next
      case (Some v)
      then have "readOptional slots k d b u = Inr (Some v)" for u
        using \<open>slots k = Some s\<close> 2
        by (auto simp: readOptional_def slot_text_def Let_def split: option.splits if_splits)
      with Some uses show ?thesis
        by (simp add: readLabelField_def label_problems_def Let_def isWellFormedUtf16_iff LABEL_MAX_CHARS_def
            codePointLength_def)
    qed
  qed (simp_all add: Some readLabelField_def readOptional_def label_problems_def slot_uses_def Let_def)
qed

lemma readAmountField_amount:
  "readAmountField slots k d m b = Inr a \<Longrightarrow> slot_amount slots k = a"
  by (auto simp: readAmountField_def readRequired_def parsePositiveU64_def slot_amount_def slot_text_def Let_def
      go_on_eq_Inr split: option.splits if_splits)

lemma problem_go_on_last:
  "problem_of m = first_of ps \<Longrightarrow> problem_of (go_on m (\<lambda>x. Inr (f x))) = first_of ps"
  by (cases m) simp_all

lemma problem_readFields: "problem_of (readFields base58 slots) = first_of (field_problems base58 slots)"
  unfolding readFields_def field_problems_def
  by (intro problem_readRequired problem_if problem_go_on_last problem_go_on problem_address problem_amount
      problem_days problem_purpose problem_label refl)
    (simp_all add: readAmountField_amount)

lemma problem_checkStructure:
  "first_of (structure_problems (Some url)) = map_option problem (checkStructure url)"
  by (simp add: structure_problems_def checkStructure_def)

text \<open>The list of conditions has exactly the names of the published order, one each, and for
  every text the SDK either accepts it or reports the problem of the first condition that holds;
  it accepts exactly when none does. A parser that changes the order of two checks, or drops one,
  breaks this.\<close>

theorem first_problem_is_reported:
  "map fst (request_problems base58 (parseUrl link)) = RULE_REQUEST_CHECK_ORDER
   \<and> (case parseRuleRequest base58 parseUrl link of
        Inl e \<Rightarrow> first_of (request_problems base58 (parseUrl link)) = Some (problem e)
      | Inr r \<Rightarrow> first_of (request_problems base58 (parseUrl link)) = None)"
proof
  show "map fst (request_problems base58 (parseUrl link)) = RULE_REQUEST_CHECK_ORDER"
    by (simp add: request_problems_def structure_problems_def field_problems_def required_problems_def
        purpose_problems_def label_problems_def RULE_REQUEST_CHECK_ORDER_def Let_def)
  have "problem_of (parseRuleRequest base58 parseUrl link) = first_of (request_problems base58 (parseUrl link))"
  proof (cases "parseUrl link")
    case None
    then show ?thesis by (simp add: parseRuleRequest_def request_problems_def structure_problems_def Let_def)
  next
    case (Some url)
    then show ?thesis
      using problem_checkStructure [of url] problem_readFields [of base58 "parseSlots (url_search url)"]
      by (cases "checkStructure url")
        (simp_all add: parseRuleRequest_def request_problems_def first_of_append link_slots_def)
  qed
  then show "case parseRuleRequest base58 parseUrl link of
        Inl e \<Rightarrow> first_of (request_problems base58 (parseUrl link)) = Some (problem e)
      | Inr r \<Rightarrow> first_of (request_problems base58 (parseUrl link)) = None"
    by (auto simp: problem_of_def split: sum.splits)
qed

end
