(* ===== verification/Event_Log.thy ===== *)
theory Event_Log
  imports Prelude
begin

text \<open>
  The lines of a transaction log (\<open>sdk/src/events.ts\<close>, \<open>indexer/src/events.ts\<close>): the three regular
  expressions for frames and event data, and \<open>linesForProgram\<close>, which keeps a stack of the programs
  that are running and gives the log and data lines written while a given program is on cur.

  The runtime side is a tree of program calls with the lines each writes, rendered the way the
  runtime prints it. \<open>frames_render\<close> says that the stack machine finds exactly the lines of the
  program's own frames, whatever other programs write into theirs.
\<close>

definition b58_char :: "char \<Rightarrow> bool" where
  "b58_char c = (c \<in> set ''123456789ABCDEFGHJKLMNPQRSTUVWXYZabcdefghijkmnopqrstuvwxyz'')"

definition b64_char :: "char \<Rightarrow> bool" where
  "b64_char c = (c \<in> set ''ABCDEFGHIJKLMNOPQRSTUVWXYZabcdefghijklmnopqrstuvwxyz0123456789+/='')"

definition after :: "string \<Rightarrow> string \<Rightarrow> string option" where
  "after p s = (if take (length p) s = p then Some (drop (length p) s) else None)"

lemma after_append [simp]: "after p (p @ s) = Some s"
  by (simp add: after_def)

lemma after_Some: "after p s = Some r \<longleftrightarrow> s = p @ r"
proof
  assume "after p s = Some r"
  then have "take (length p) s = p" "drop (length p) s = r" by (auto simp: after_def split: if_split_asm)
  then show "s = p @ r" using append_take_drop_id [of "length p" s] by simp
qed simp

definition LOG_PREFIX :: string where "LOG_PREFIX = ''Program ''"

text \<open>\<open>/^Program ([1-9A-HJ-NP-Za-km-z]+) invoke \[(\d+)\]$/\<close>, its first group. A space cannot be in the
  group, so the greedy match is the only one.\<close>

definition split_pid :: "string \<Rightarrow> (string \<times> string) option" where
  "split_pid line =
     (case after LOG_PREFIX line of None \<Rightarrow> None
      | Some s \<Rightarrow> let pid = takeWhile b58_char s in if pid = [] then None else Some (pid, drop (length pid) s))"

definition depth_ok :: "string \<Rightarrow> bool" where
  "depth_ok s =
     (case after '' invoke ['' s of None \<Rightarrow> False
      | Some r \<Rightarrow> takeWhile is_digit r \<noteq> [] \<and> dropWhile is_digit r = '']'')"

definition PROGRAM_INVOKE :: "string \<Rightarrow> string option" where
  "PROGRAM_INVOKE line =
     (case split_pid line of None \<Rightarrow> None | Some (pid, r) \<Rightarrow> if depth_ok r then Some pid else None)"

text \<open>\<open>/^Program ([1-9A-HJ-NP-Za-km-z]+) (?:success|failed\b.*)$/\<close>. The dot matches no line break.\<close>

definition word_unit :: "char \<Rightarrow> bool" where
  "word_unit c = (is_digit c \<or> c = CHR ''_'' \<or> (65 \<le> (of_char c :: nat) \<and> (of_char c :: nat) \<le> 90) \<or>
     (97 \<le> (of_char c :: nat) \<and> (of_char c :: nat) \<le> 122))"

definition outcome_ok :: "string \<Rightarrow> bool" where
  "outcome_ok r =
     (r = '' success'' \<or>
      (case after '' failed'' r of None \<Rightarrow> False
       | Some m \<Rightarrow> (case m of [] \<Rightarrow> True | c # _ \<Rightarrow> \<not> word_unit c) \<and> CHR 0x0A \<notin> set m \<and> CHR 0x0D \<notin> set m))"

definition PROGRAM_END :: "string \<Rightarrow> string option" where
  "PROGRAM_END line =
     (case split_pid line of None \<Rightarrow> None | Some (pid, r) \<Rightarrow> if outcome_ok r then Some pid else None)"

text \<open>\<open>/^Program data: ([A-Za-z0-9+/=]+)$/\<close>\<close>

definition PROGRAM_DATA :: "string \<Rightarrow> string option" where
  "PROGRAM_DATA line =
     (case after ''Program data: '' line of None \<Rightarrow> None
      | Some s \<Rightarrow> if s \<noteq> [] \<and> list_all b64_char s then Some s else None)"

definition own_line :: "string \<Rightarrow> bool" where
  "own_line line = (after ''Program log:'' line \<noteq> None \<or> after ''Program data:'' line \<noteq> None)"

text \<open>The stack machine, its cur first.\<close>

fun frames :: "string \<Rightarrow> string list \<Rightarrow> string list \<Rightarrow> string list" where
  "frames pid stack [] = []"
| "frames pid stack (line # lines) =
     (case PROGRAM_INVOKE line of
        Some p \<Rightarrow> frames pid (p # stack) lines
      | None \<Rightarrow>
          (case (PROGRAM_END line, stack) of
             (Some p, cur # rest) \<Rightarrow>
               if cur = p then frames pid rest lines
               else if own_line line \<and> cur = pid then line # frames pid stack lines
               else frames pid stack lines
           | (_, cur # rest) \<Rightarrow>
               if own_line line \<and> cur = pid then line # frames pid stack lines else frames pid stack lines
           | (_, []) \<Rightarrow> frames pid stack lines))"

definition framed :: "string list \<Rightarrow> bool" where
  "framed logs = list_ex (\<lambda>line. PROGRAM_INVOKE line \<noteq> None) logs"

definition sdk_linesForProgram :: "string list \<Rightarrow> string \<Rightarrow> string list" where
  "sdk_linesForProgram logs pid = (if \<not> framed logs then logs else frames pid [] logs)"

definition idx_linesForProgram :: "string list \<Rightarrow> string \<Rightarrow> string list" where
  "idx_linesForProgram logs pid = (if \<not> framed logs then [] else frames pid [] logs)"

section \<open>What the runtime writes\<close>

text \<open>A call of a program, with what happens inside it in order. A program chooses the texts of its
  \<open>Log\<close> lines freely.\<close>

datatype log_item =
    Log string
  | Data string
  | Consumed nat nat
  | Return string
  | Invoke string "log_item list" "string option"

fun render :: "nat \<Rightarrow> string \<Rightarrow> log_item \<Rightarrow> string list" where
  "render d cur (Log m) = [''Program log: '' @ m]"
| "render d cur (Data b) = [''Program data: '' @ b]"
| "render d cur (Consumed n m) =
     [LOG_PREFIX @ cur @ '' consumed '' @ nat_str n @ '' of '' @ nat_str m @ '' compute units'']"
| "render d cur (Return b) = [''Program return: '' @ cur @ '' '' @ b]"
| "render d cur (Invoke p items failure) =
     [LOG_PREFIX @ p @ '' invoke ['' @ nat_str (d + 1) @ '']'']
     @ concat (map (render (d + 1) p) items)
     @ [LOG_PREFIX @ p @ (case failure of None \<Rightarrow> '' success'' | Some why \<Rightarrow> '' failed: '' @ why)]"

definition pid_ok :: "string \<Rightarrow> bool" where
  "pid_ok p = (p \<noteq> [] \<and> list_all b58_char p)"

fun item_ok :: "log_item \<Rightarrow> bool" where
  "item_ok (Invoke p items failure) =
     (pid_ok p \<and> list_all item_ok items
      \<and> (case failure of None \<Rightarrow> True | Some why \<Rightarrow> CHR 0x0A \<notin> set why \<and> CHR 0x0D \<notin> set why))"
| "item_ok _ = True"

text \<open>The lines the frames of a program wrote themselves.\<close>

fun own_lines :: "string \<Rightarrow> string \<Rightarrow> log_item \<Rightarrow> string list" where
  "own_lines pid cur (Log m) = (if cur = pid then [''Program log: '' @ m] else [])"
| "own_lines pid cur (Data b) = (if cur = pid then [''Program data: '' @ b] else [])"
| "own_lines pid cur (Invoke p items failure) = concat (map (own_lines pid p) items)"
| "own_lines pid cur _ = []"

lemma b58_space: "\<not> b58_char (CHR '' '')" "\<not> b58_char (CHR '':'')"
  by (simp_all add: b58_char_def)

lemma takeWhile_stop: "list_all P xs \<Longrightarrow> \<not> P c \<Longrightarrow> takeWhile P (xs @ c # r) = xs"
  by (induction xs) auto

lemma split_pid_ok: "pid_ok p \<Longrightarrow> split_pid (LOG_PREFIX @ p @ CHR '' '' # r) = Some (p, CHR '' '' # r)"
  by (simp add: split_pid_def pid_ok_def takeWhile_stop b58_space Let_def)

lemma split_pid_colon: "list_all b58_char w \<Longrightarrow> w \<noteq> [] \<Longrightarrow> split_pid (LOG_PREFIX @ w @ CHR '':'' # r) = Some (w, CHR '':'' # r)"
  by (simp add: split_pid_def takeWhile_stop b58_space Let_def)

lemma not_outcome_colon: "\<not> outcome_ok (CHR '':'' # r)" "\<not> depth_ok (CHR '':'' # r)"
  by (simp_all add: outcome_ok_def depth_ok_def after_def)

lemma word_line:
  assumes "list_all b58_char w" "w \<noteq> []"
  shows "PROGRAM_INVOKE (LOG_PREFIX @ w @ CHR '':'' # r) = None" "PROGRAM_END (LOG_PREFIX @ w @ CHR '':'' # r) = None"
  using assms by (simp_all add: PROGRAM_INVOKE_def PROGRAM_END_def split_pid_colon not_outcome_colon)

text \<open>\<open>log\<close> has the letter \<open>l\<close>, which base58 leaves out: the group of the expressions stops before it.\<close>

lemma log_word: "\<not> b58_char (CHR ''l'')"
  by (simp add: b58_char_def)

lemma log_line: "PROGRAM_INVOKE (''Program log: '' @ m) = None" "PROGRAM_END (''Program log: '' @ m) = None"
  "own_line (''Program log: '' @ m)"
proof -
  have "split_pid (''Program log: '' @ m) = None"
    by (simp add: split_pid_def LOG_PREFIX_def after_def log_word)
  then show "PROGRAM_INVOKE (''Program log: '' @ m) = None" "PROGRAM_END (''Program log: '' @ m) = None"
    by (simp_all add: PROGRAM_INVOKE_def PROGRAM_END_def)
  show "own_line (''Program log: '' @ m)" by (simp add: own_line_def after_def)
qed

lemma data_line: "PROGRAM_INVOKE (''Program data: '' @ m) = None" "PROGRAM_END (''Program data: '' @ m) = None"
  "own_line (''Program data: '' @ m)"
proof -
  have "list_all b58_char ''data''" by (simp add: b58_char_def)
  from word_line [OF this, of "'' '' @ m"]
  show "PROGRAM_INVOKE (''Program data: '' @ m) = None" "PROGRAM_END (''Program data: '' @ m) = None"
    by (simp_all add: LOG_PREFIX_def)
  show "own_line (''Program data: '' @ m)" by (simp add: own_line_def after_def)
qed

lemma return_line: "PROGRAM_INVOKE (''Program return: '' @ m) = None" "PROGRAM_END (''Program return: '' @ m) = None"
  "\<not> own_line (''Program return: '' @ m)"
proof -
  have "list_all b58_char ''return''" by (simp add: b58_char_def)
  from word_line [OF this, of "'' '' @ m"]
  show "PROGRAM_INVOKE (''Program return: '' @ m) = None" "PROGRAM_END (''Program return: '' @ m) = None"
    by (simp_all add: LOG_PREFIX_def)
  show "\<not> own_line (''Program return: '' @ m)" by (simp add: own_line_def after_def)
qed

lemma pid_line_not_own:
  assumes "pid_ok p"
  shows "\<not> own_line (LOG_PREFIX @ p @ CHR '' '' # r)"
proof
  assume "own_line (LOG_PREFIX @ p @ CHR '' '' # r)"
  then consider t where "LOG_PREFIX @ p @ CHR '' '' # r = ''Program log:'' @ t"
    | t where "LOG_PREFIX @ p @ CHR '' '' # r = ''Program data:'' @ t"
    by (auto simp: own_line_def after_Some)
  then have "p @ CHR '' '' # r \<in> range (\<lambda>t. ''log:'' @ t) \<union> range (\<lambda>t. ''data:'' @ t)"
    by cases (auto simp: LOG_PREFIX_def)
  then have "takeWhile b58_char (p @ CHR '' '' # r) \<in> {[], ''data''}"
    and colon: "dropWhile b58_char (p @ CHR '' '' # r) \<noteq> CHR '' '' # r"
    using log_word b58_space by (auto simp: b58_char_def)
  moreover have "dropWhile b58_char (p @ CHR '' '' # r) = CHR '' '' # r"
    using assms b58_space by (simp add: pid_ok_def list_all_iff)
  ultimately show False by simp
qed

lemma consumed_line:
  assumes "pid_ok p"
  shows "PROGRAM_INVOKE (LOG_PREFIX @ p @ '' consumed '' @ s) = None" "PROGRAM_END (LOG_PREFIX @ p @ '' consumed '' @ s) = None"
    "\<not> own_line (LOG_PREFIX @ p @ '' consumed '' @ s)"
  using split_pid_ok [OF assms, of "''consumed '' @ s"] pid_line_not_own [OF assms, of "''consumed '' @ s"]
  by (simp_all add: PROGRAM_INVOKE_def PROGRAM_END_def depth_ok_def outcome_ok_def after_def)

lemma takeWhile_digits_nat_str: "takeWhile is_digit (nat_str n @ '']'') = nat_str n" "dropWhile is_digit (nat_str n @ '']'') = '']''"
proof -
  have d: "list_all is_digit (nat_str n)" using all_digits_nat_str [of n] by (simp add: all_digits_def)
  have nd: "\<not> is_digit (CHR '']'')" by (simp add: is_digit_def)
  show "takeWhile is_digit (nat_str n @ '']'') = nat_str n" using d nd by (rule takeWhile_stop)
  show "dropWhile is_digit (nat_str n @ '']'') = '']''"
    using d nd by (simp add: list_all_iff)
qed

lemma invoke_line:
  assumes "pid_ok p"
  shows "PROGRAM_INVOKE (LOG_PREFIX @ p @ '' invoke ['' @ nat_str n @ '']'') = Some p"
  using split_pid_ok [OF assms, of "''invoke ['' @ nat_str n @ '']''"] takeWhile_digits_nat_str [of n]
  by (simp add: PROGRAM_INVOKE_def depth_ok_def after_def)

lemma end_line:
  assumes "pid_ok p" "case failure of None \<Rightarrow> True | Some why \<Rightarrow> CHR 0x0A \<notin> set why \<and> CHR 0x0D \<notin> set why"
  defines "line \<equiv> LOG_PREFIX @ p @ (case failure of None \<Rightarrow> '' success'' | Some why \<Rightarrow> '' failed: '' @ why)"
  shows "PROGRAM_INVOKE line = None" "PROGRAM_END line = Some p"
proof -
  have "PROGRAM_INVOKE line = None \<and> PROGRAM_END line = Some p"
  proof (cases failure)
    case None
    then show ?thesis
      using split_pid_ok [OF assms(1), of "''success''"]
      by (simp add: line_def PROGRAM_INVOKE_def PROGRAM_END_def depth_ok_def outcome_ok_def after_def)
  next
    case (Some why)
    then show ?thesis
      using split_pid_ok [OF assms(1), of "''failed: '' @ why"] assms(2)
      by (simp add: line_def PROGRAM_INVOKE_def PROGRAM_END_def depth_ok_def outcome_ok_def after_def word_unit_def is_digit_def)
  qed
  then show "PROGRAM_INVOKE line = None" "PROGRAM_END line = Some p" by simp_all
qed

lemma frames_own:
  "PROGRAM_INVOKE line = None \<Longrightarrow> PROGRAM_END line = None \<Longrightarrow>
     frames pid (cur # stack) (line # lines) =
       (if own_line line \<and> cur = pid then [line] else []) @ frames pid (cur # stack) lines"
  by simp

lemma frames_render:
  assumes "item_ok item" "pid_ok cur"
  shows "frames pid (cur # stack) (render d cur item @ rest) = own_lines pid cur item @ frames pid (cur # stack) rest"
  using assms
proof (induction item arbitrary: cur stack d rest)
  case (Log m)
  then show ?case using log_line [of m] by (simp add: frames_own del: frames.simps(2))
next
  case (Data b)
  then show ?case using data_line [of b] by (simp add: frames_own del: frames.simps(2))
next
  case (Consumed n m)
  then show ?case
    using consumed_line [OF Consumed(2), of "nat_str n @ '' of '' @ nat_str m @ '' compute units''"]
    by (simp add: frames_own del: frames.simps(2))
next
  case (Return b)
  then show ?case using return_line [of "cur @ '' '' @ b"] by (simp add: frames_own del: frames.simps(2))
next
  case (Invoke p items failure)
  from Invoke.prems(1) have p: "pid_ok p" and items: "list_all item_ok items"
    and f: "case failure of None \<Rightarrow> True | Some why \<Rightarrow> CHR 0x0A \<notin> set why \<and> CHR 0x0D \<notin> set why" by auto
  have inner: "frames pid (p # cur # stack) (concat (map (render (d + 1) p) items) @ more)
      = concat (map (own_lines pid p) items) @ frames pid (p # cur # stack) more" for more
    using items Invoke.IH p
    by (induction items arbitrary: more) (simp_all del: frames.simps)
  define fin where "fin = LOG_PREFIX @ p @ (case failure of None \<Rightarrow> '' success'' | Some why \<Rightarrow> '' failed: '' @ why)"
  have "frames pid (p # cur # stack) (fin # rest) = frames pid (cur # stack) rest"
    using end_line [OF p f] by (simp add: fin_def)
  with inner [of "fin # rest"] invoke_line [OF p, of "d + 1"] show ?case
    by (simp add: fin_def [symmetric])
qed

lemma frames_transaction:
  assumes "list_all (\<lambda>i. item_ok i \<and> (\<exists>p items f. i = Invoke p items f)) calls"
  shows "frames pid [] (concat (map (render 0 []) calls)) = concat (map (own_lines pid []) calls)"
  using assms
proof (induction calls)
  case (Cons call calls)
  then obtain p items failure where c: "call = Invoke p items failure" and ok: "item_ok call" by auto
  from ok c have p: "pid_ok p" and items: "list_all item_ok items"
    and f: "case failure of None \<Rightarrow> True | Some why \<Rightarrow> CHR 0x0A \<notin> set why \<and> CHR 0x0D \<notin> set why" by auto
  have inner: "frames pid [p] (concat (map (render 1 p) items) @ more)
      = concat (map (own_lines pid p) items) @ frames pid [p] more" for more
    using items p by (induction items arbitrary: more) (simp_all add: frames_render del: frames.simps)
  define fin where "fin = LOG_PREFIX @ p @ (case failure of None \<Rightarrow> '' success'' | Some why \<Rightarrow> '' failed: '' @ why)"
  define rest where "rest = concat (map (render 0 []) calls)"
  have "frames pid [p] (fin # rest) = frames pid [] rest"
    using end_line [OF p f] by (simp add: fin_def)
  with inner [of "fin # rest"] invoke_line [OF p, of 1] Cons show ?case
    by (simp add: c fin_def [symmetric] rest_def)
qed simp

end
