(* ===== verification/Watch_Chain.thy ===== *)
theory Watch_Chain
  imports Ledger_Decode Mandate_Decode
begin

text \<open>
  How the watcher reads the chain (\<^verbatim>\<open>watcher/src/parse.ts\<close>, \<^verbatim>\<open>watcher/src/chain.ts\<close>,
  \<^verbatim>\<open>watcher/src/journalRepair.ts\<close>): the log line of a charge, the ring rows of a nonce, the last settled
  nonce, the charge inside a transaction and the walk over a mandate's transactions. RPC calls are
  parameters that give a page of signatures or a transaction, or throw. A thrown value is its \<open>name\<close>
  and \<open>message\<close>.
\<close>

section \<open>Thrown errors\<close>

record js_exn =
  ex_name :: string
  ex_message :: string

definition plainError :: "string \<Rightarrow> js_exn" where
  "plainError m = \<lparr>ex_name = ''Error'', ex_message = m\<rparr>"

text \<open>\<open>RATE_LIMIT_RE\<close> is \<open>/\b429\b|too many requests|rate limit/i\<close>.\<close>

definition lower :: "char \<Rightarrow> char" where
  "lower c = (if 65 \<le> (of_char c :: nat) \<and> (of_char c :: nat) \<le> 90 then char_of ((of_char c :: nat) + 32) else c)"

definition word_char :: "char \<Rightarrow> bool" where
  "word_char c = (is_digit c \<or> c = CHR ''_'' \<or> (65 \<le> (of_char c :: nat) \<and> (of_char c :: nat) \<le> 90) \<or>
     (97 \<le> (of_char c :: nat) \<and> (of_char c :: nat) \<le> 122))"

fun starts_with :: "string \<Rightarrow> string \<Rightarrow> bool" where
  "starts_with [] s = True"
| "starts_with (p # ps) [] = False"
| "starts_with (p # ps) (c # cs) = (p = c \<and> starts_with ps cs)"

text \<open>What follows each occurrence of a text, first occurrence first.\<close>

fun after_each :: "string \<Rightarrow> string \<Rightarrow> string list" where
  "after_each p [] = (if p = [] then [[]] else [])"
| "after_each p (c # cs) =
     (if starts_with p (c # cs) then [drop (length p) (c # cs)] else []) @ after_each p cs"

fun word_429 :: "bool \<Rightarrow> string \<Rightarrow> bool" where
  "word_429 prev_word [] = False"
| "word_429 prev_word (c # cs) =
     (\<not> prev_word \<and> starts_with ''429'' (c # cs) \<and>
        (case drop 3 (c # cs) of [] \<Rightarrow> True | d # _ \<Rightarrow> \<not> word_char d) \<or> word_429 (word_char c) cs)"

definition isRateLimitError :: "js_exn \<Rightarrow> bool" where
  "isRateLimitError e =
     (ex_name e = ''RateLimitedError'' \<or> word_429 False (ex_message e) \<or>
      after_each ''too many requests'' (map lower (ex_message e)) \<noteq> [] \<or>
      after_each ''rate limit'' (map lower (ex_message e)) \<noteq> [])"

section \<open>The log line of a charge\<close>

datatype charge_decision = cd_paid | cd_refused

record ChargeOutcome =
  co_decision :: charge_decision
  co_reason :: string
  co_reasonCode :: int
  co_suggestedOverride :: "int option"

definition digits_of :: "string \<Rightarrow> string" where
  "digits_of s = takeWhile is_digit s"

text \<open>\<open>/VETO PAID amount=(\d+)/\<close> matches after the first occurrence that a digit follows.\<close>

definition paid_line :: "string \<Rightarrow> bool" where
  "paid_line line = list_ex (\<lambda>r. digits_of r \<noteq> []) (after_each ''VETO PAID amount='' line)"

text \<open>
  \<open>/VETO REFUSED reason=(\d+) \(([^)]*)\) amount=(\d+).*override_to_clear=(\d+)/\<close>, tried after an occurrence
  of the first literal. \<open>.*\<close> is greedy, so the last clearing amount of the line counts.
\<close>

definition refused_match :: "string \<Rightarrow> (string \<times> string \<times> string) option" where
  "refused_match r =
     (let code = digits_of r; r1 = drop (length code) r in
      if code = [] \<or> \<not> starts_with '' ('' r1 then None
      else
        let r2 = drop 2 r1; reason = takeWhile (\<lambda>c. c \<noteq> CHR '')'') r2; r3 = drop (length reason) r2 in
        if \<not> starts_with '') amount='' r3 then None
        else
          let r4 = drop 9 r3; amount = digits_of r4;
              rest = takeWhile (\<lambda>c. c \<noteq> CHR 0x0A \<and> c \<noteq> CHR 0x0D) (drop (length amount) r4);
              clears = filter (\<lambda>x. digits_of x \<noteq> []) (after_each ''override_to_clear='' rest)
          in if amount = [] \<or> clears = [] then None else Some (code, reason, digits_of (last clears)))"

definition refused_line :: "string \<Rightarrow> (string \<times> string \<times> string) option" where
  "refused_line line =
     (case List.map_filter refused_match (after_each ''VETO REFUSED reason='' line) of [] \<Rightarrow> None | m # _ \<Rightarrow> Some m)"

fun parseChargeLogs :: "string list \<Rightarrow> js_exn + ChargeOutcome" where
  "parseChargeLogs [] = Inl (plainError ''parse.parseChargeLogs: confirmed transaction had neither PAID nor REFUSED'')"
| "parseChargeLogs (line # lines) =
     (if paid_line line
      then Inr \<lparr>co_decision = cd_paid, co_reason = ''ok'', co_reasonCode = 0, co_suggestedOverride = None\<rparr>
      else case refused_line line of
          Some (code, reason, clear) \<Rightarrow>
            Inr \<lparr>co_decision = cd_refused,
                 co_reason = (if reason \<noteq> [] then reason else watcher_reasonText (int (str_val code))),
                 co_reasonCode = int (str_val code), co_suggestedOverride = Some (int (str_val clear))\<rparr>
        | None \<Rightarrow> parseChargeLogs lines)"

section \<open>Ring rows\<close>

record ChargeReceipt = ChargeOutcome +
  cr_signature :: string

record RecoveredCharge = ChargeReceipt +
  rc_amount :: int

definition RECOVERED_SIGNATURE :: string where "RECOVERED_SIGNATURE = ''recovered-from-chain''"

definition watch_U64 :: "bytes \<Rightarrow> nat \<Rightarrow> int" where
  "watch_U64 raw off = int (le_val (slice raw off (off + 8)))"

text \<open>The rows of the ring in its order, as far as the account reaches.\<close>

definition ring_rows :: "bytes \<Rightarrow> bytes list" where
  "ring_rows body =
     (let tot = int (le_val (slice body 32 36)); head = int (le_val (slice body 36 38))
      in filter (\<lambda>raw. \<not> length raw < ENTRY_SIZE)
           (map (\<lambda>idx. let off = LEDGER_HEADER_SIZE + idx * ENTRY_SIZE in slice body off (off + ENTRY_SIZE))
             (ring_positions tot head)))"

definition ledger_readable :: "bytes \<Rightarrow> bool" where
  "ledger_readable data \<longleftrightarrow>
     \<not> length data < 8 + LEDGER_HEADER_SIZE + ENTRY_SIZE \<and> LEDGER_DISCRIMINATOR = slice data 0 8"

definition row_is :: "nat \<Rightarrow> int \<Rightarrow> bytes \<Rightarrow> bool" where
  "row_is kind nonce raw \<longleftrightarrow> watch_U64 raw 48 = nonce \<and> byte_or_0 raw 64 = kind"

definition findPaidInLedgerBytes :: "bytes \<Rightarrow> int \<Rightarrow> (int \<times> int) option" where
  "findPaidInLedgerBytes data nonce =
     (if \<not> ledger_readable data then None
      else case filter (row_is 1 nonce) (ring_rows (slice data 8 (length data))) of
          [] \<Rightarrow> None
        | raw # _ \<Rightarrow> Some (watch_U64 raw 8, watch_U64 raw 56))"

definition findRefusedInLedgerBytes :: "bytes \<Rightarrow> int \<Rightarrow> (int \<times> int \<times> int) option" where
  "findRefusedInLedgerBytes data nonce =
     (if \<not> ledger_readable data then None
      else case rev (filter (row_is 2 nonce) (ring_rows (slice data 8 (length data)))) of
          [] \<Rightarrow> None
        | raw # _ \<Rightarrow> Some (watch_U64 raw 8, int (byte_or_0 raw 65), watch_U64 raw 56))"

definition zero_none :: "int \<Rightarrow> int option" where
  "zero_none i = (if i = 0 then None else Some i)"

definition recordedFromLedgerBytes :: "bytes \<Rightarrow> int \<Rightarrow> RecoveredCharge option" where
  "recordedFromLedgerBytes data nonce =
     (case findPaidInLedgerBytes data nonce of
        Some (amount, suggested) \<Rightarrow>
          Some \<lparr>co_decision = cd_paid, co_reason = ''ok'', co_reasonCode = 0, co_suggestedOverride = zero_none suggested,
                cr_signature = RECOVERED_SIGNATURE, rc_amount = amount\<rparr>
      | None \<Rightarrow>
          (case findRefusedInLedgerBytes data nonce of
             None \<Rightarrow> None
           | Some (amount, reason, suggested) \<Rightarrow>
               Some \<lparr>co_decision = cd_refused, co_reason = watcher_reasonText reason, co_reasonCode = reason,
                     co_suggestedOverride = zero_none suggested, cr_signature = RECOVERED_SIGNATURE, rc_amount = amount\<rparr>))"

definition decodeMandateLastNonce :: "bytes \<Rightarrow> js_exn + int" where
  "decodeMandateLastNonce data =
     (if length data < 224 + 8 then Inl (plainError ''mandate account too small to read last_nonce'')
      else Inr (watch_U64 (slice data 224 232) 0))"

text \<open>Times are milliseconds, as in a \<open>Date\<close>.\<close>

record ChainDecision =
  hd_nonce :: int
  hd_decision :: charge_decision
  hd_amount :: int
  hd_ts :: int
  hd_reason :: int
  hd_suggestedOverride :: int
  hd_signature :: "string option"

definition ledgerDecodeError :: "string \<Rightarrow> string \<Rightarrow> js_exn" where
  "ledgerDecodeError account reason =
     \<lparr>ex_name = ''LedgerDecodeError'',
      ex_message = ''journal repair: account '' @ account @ '' is not a Ledger'' @ (if reason = [] then [] else '': '' @ reason)\<rparr>"

definition decision_row :: "bytes \<Rightarrow> ChainDecision option" where
  "decision_row raw =
     (let kind = byte_or_0 raw 64 in
      if kind \<noteq> 1 \<and> kind \<noteq> 2 then None
      else Some \<lparr>hd_nonce = watch_U64 raw 48, hd_decision = (if kind = 1 then cd_paid else cd_refused),
                hd_amount = watch_U64 raw 8, hd_ts = i64_val (le_val (slice raw 0 8)) * 1000,
                hd_reason = int (byte_or_0 raw 65), hd_suggestedOverride = watch_U64 raw 56, hd_signature = None\<rparr>)"

definition decodeLedgerDecisions :: "bytes \<Rightarrow> string \<Rightarrow> js_exn + ChainDecision list" where
  "decodeLedgerDecisions data account =
     (if length data < 8 + LEDGER_HEADER_SIZE then Inl (ledgerDecodeError account ''ledger account is too small'')
      else if \<not> buffersEqual (slice data 0 8) LEDGER_DISCRIMINATOR then Inl (ledgerDecodeError account [])
      else Inr (List.map_filter decision_row (ring_rows (slice data 8 (length data)))))"


section \<open>The watcher reads what the program recorded\<close>

lemma slice_entry:
  assumes "length (en_counterparty e) = 32"
  shows "watch_U64 (entry_image e) 8 = int (unat (en_amount e))" "watch_U64 (entry_image e) 48 = int (unat (en_nonce e))"
    "watch_U64 (entry_image e) 56 = int (unat (en_suggested_override e))"
    "byte_or_0 (entry_image e) 64 = unat (en_kind e)" "byte_or_0 (entry_image e) 65 = unat (en_reason e)"
    "le_val (slice (entry_image e) 0 8) = i64_nat (en_ts e)"
  using assms by (simp_all add: watch_U64_def slice_def entry_image_def byte_or_0_def nth_append)

lemma ring_rows_image:
  assumes "ledger_wf l"
  shows "ring_rows (slice (ledger_image l @ post) 8 (length (ledger_image l @ post))) =
    map entry_image (oldest_first LEDGER_CAPACITY (l_entries l) (unat (l_total l)) (unat (l_head l)))"
proof -
  let ?body = "l_mandate l @ le_bytes 4 (unat (l_total l)) @ le_bytes 2 (unat (l_head l)) @
     [l_bump l, 0] @ concat (map entry_image (l_entries l)) @ post"
  have m: "length (l_mandate l) = 32" using assms by (simp add: ledger_wf_def)
  have body: "slice (ledger_image l @ post) 8 (length (ledger_image l @ post)) = ?body"
    by (simp add: slice_def ledger_image_def)
  have nums: "le_val (slice ?body 32 36) = unat (l_total l)" "le_val (slice ?body 36 38) = unat (l_head l)"
    using m by (simp_all add: slice_def)
  have slot: "slice ?body (40 + i * 72) (112 + i * 72) = entry_image (l_entries l ! i)" if "i < 32" for i
    using body_slot [OF assms arr_wf_whole, of ?body post i] that by (simp add: arr_bytes_subarray slice_def)
  have len: "length (entry_image (l_entries l ! i)) = 72" if "i < 32" for i
    using assms that by (intro length_entry_image) (auto simp: ledger_wf_def list_all_iff LEDGER_CAPACITY_def entry_wf_def)
  let ?ps = "ring_positions (int (unat (l_total l))) (int (unat (l_head l)))"
  have rows: "map (\<lambda>idx. slice ?body (LEDGER_HEADER_SIZE + idx * ENTRY_SIZE) (LEDGER_HEADER_SIZE + idx * ENTRY_SIZE + ENTRY_SIZE)) ?ps =
      map (\<lambda>i. entry_image (l_entries l ! i)) ?ps"
    by (rule map_cong [OF refl], drule ring_positions_lt) (simp add: slot [simplified] ENTRY_SIZE_def LEDGER_HEADER_SIZE_def)
  have keep: "filter (\<lambda>raw. \<not> length raw < ENTRY_SIZE) (map (\<lambda>i. entry_image (l_entries l ! i)) ?ps) =
      map (\<lambda>i. entry_image (l_entries l ! i)) ?ps"
    by (rule filter_True) (auto simp: len ENTRY_SIZE_def dest: ring_positions_lt)
  have "ring_rows ?body = map (\<lambda>i. entry_image (l_entries l ! i)) ?ps"
    unfolding ring_rows_def nums Let_def rows keep ..
  then show ?thesis
    unfolding body ring_positions_oldest_first [symmetric] by simp
qed

definition decision_of :: "Entry \<Rightarrow> ChainDecision" where
  "decision_of e =
     \<lparr>hd_nonce = int (unat (en_nonce e)), hd_decision = (if en_kind e = 1 then cd_paid else cd_refused),
      hd_amount = int (unat (en_amount e)), hd_ts = en_ts e * 1000, hd_reason = int (unat (en_reason e)),
      hd_suggestedOverride = int (unat (en_suggested_override e)), hd_signature = None\<rparr>"

lemma kind_nat: "unat (k :: 8 word) = Suc 0 \<longleftrightarrow> k = 1" "unat (k :: 8 word) = 2 \<longleftrightarrow> k = 2"
  by (simp_all add: word_unat_eq_iff)

lemma decision_row_entry:
  assumes "entry_wf e"
  shows "decision_row (entry_image e) = (if en_kind e = 1 \<or> en_kind e = 2 then Some (decision_of e) else None)"
proof -
  have "i64_val (i64_nat (en_ts e)) = en_ts e" using assms i64_roundtrip by (simp add: entry_wf_def)
  then show ?thesis
    using slice_entry [of e] assms by (simp add: decision_row_def decision_of_def Let_def kind_nat entry_wf_def)
qed

lemma map_filter_images:
  "list_all entry_wf es \<Longrightarrow> List.map_filter decision_row (map entry_image es) =
     map decision_of (filter (\<lambda>e. en_kind e = 1 \<or> en_kind e = 2) es)"
  by (induction es) (simp_all add: List.map_filter_def decision_row_entry)

lemma filter_images:
  "list_all entry_wf es \<Longrightarrow> k = 1 \<or> k = 2 \<Longrightarrow> filter (row_is k n) (map entry_image es) =
     map entry_image (filter (\<lambda>e. int (unat (en_nonce e)) = n \<and> unat (en_kind e) = k) es)"
  by (induction es) (auto simp: row_is_def slice_entry entry_wf_def)

lemma ledger_image_readable: "ledger_wf l \<Longrightarrow> ledger_readable (ledger_image l @ post)"
  using length_entries_image [of l]
  by (simp add: ledger_readable_def ledger_image_def slice_def ledger_wf_def LEDGER_HEADER_SIZE_def ENTRY_SIZE_def)

lemma oldest_first_wf:
  assumes "ledger_wf l"
  shows "list_all entry_wf (oldest_first LEDGER_CAPACITY (l_entries l) t h)"
proof -
  have "length (l_entries l) = 32" "\<forall>e \<in> set (l_entries l). entry_wf e"
    using assms by (simp_all add: ledger_wf_def LEDGER_CAPACITY_def list_all_iff)
  then show ?thesis by (auto simp: oldest_first_def list_all_iff LEDGER_CAPACITY_def)
qed

lemma decodeLedgerDecisions_image:
  assumes "reach pda xfer approve revoke args m l es" "ledger_wf l"
  shows "decodeLedgerDecisions (ledger_image l @ post) account =
    Inr (map decision_of (filter (\<lambda>e. en_kind e = 1 \<or> en_kind e = 2) (drop (length es - 32) es)))"
proof -
  have recent: "oldest_first LEDGER_CAPACITY (l_entries l) (unat (l_total l)) (unat (l_head l)) = drop (length es - 32) es"
    using reach_window [OF assms(1)] by (simp add: LEDGER_CAPACITY_def)
  have wf: "list_all entry_wf (drop (length es - 32) es)" using oldest_first_wf [OF assms(2)] recent by metis
  have len: "\<not> length (ledger_image l @ post) < 8 + LEDGER_HEADER_SIZE" "slice (ledger_image l @ post) 0 8 = LEDGER_DISCRIMINATOR"
    using ledger_image_readable [OF assms(2), of post] by (auto simp: ledger_readable_def)
  show ?thesis
    unfolding decodeLedgerDecisions_def ring_rows_image [OF assms(2), of post, unfolded recent]
    using len map_filter_images [OF wf] by (simp add: buffersEqual_def)
qed

text \<open>C25: what the watcher takes from the ring is what the program recorded. Whatever calls led to the
  ledger, the repair list holds exactly the payments and refusals among the last 32 records, in
  order, and the answer for a nonce is its payment if one of them is in the ring, else its refusal,
  else nothing.\<close>

theorem watcher_reads_program_history:
  assumes "reach pda xfer approve revoke args m l es" "ledger_wf l"
  defines "recent \<equiv> drop (length es - 32) es"
  defines "at k n \<equiv> filter (\<lambda>e. int (unat (en_nonce e)) = n \<and> unat (en_kind e) = k) (drop (length es - 32) es)"
  shows "decodeLedgerDecisions (ledger_image l @ post) account =
      Inr (map decision_of (filter (\<lambda>e. en_kind e = 1 \<or> en_kind e = 2) recent)) \<and>
    map_option (\<lambda>r. (co_decision r, rc_amount r)) (recordedFromLedgerBytes (ledger_image l @ post) n) =
      (if at 1 n \<noteq> [] then Some (cd_paid, int (unat (en_amount (hd (at 1 n)))))
       else if at 2 n \<noteq> [] then Some (cd_refused, int (unat (en_amount (last (at 2 n)))))
       else None)"
proof -
  have recent: "oldest_first LEDGER_CAPACITY (l_entries l) (unat (l_total l)) (unat (l_head l)) = recent"
    using reach_window [OF assms(1)] by (simp add: recent_def LEDGER_CAPACITY_def)
  have wf: "list_all entry_wf recent" using oldest_first_wf [OF assms(2)] recent by metis
  note rows = ring_rows_image [OF assms(2), of post, unfolded recent]
  have list: "decodeLedgerDecisions (ledger_image l @ post) account =
      Inr (map decision_of (filter (\<lambda>e. en_kind e = 1 \<or> en_kind e = 2) recent))"
    using decodeLedgerDecisions_image [OF assms(1,2)] by (simp add: recent_def)
  have kinds: "filter (row_is k n) (map entry_image recent) = map entry_image (at k n)" if "k = 1 \<or> k = 2" for k
    using filter_images [OF wf that] by (simp add: at_def recent_def)
  have wf_at: "entry_wf e" if "e \<in> set (at k n)" for e k
    using that wf by (auto simp: at_def recent_def list_all_iff)
  have paid: "findPaidInLedgerBytes (ledger_image l @ post) n =
      (case at 1 n of [] \<Rightarrow> None | e # _ \<Rightarrow> Some (int (unat (en_amount e)), int (unat (en_suggested_override e))))"
    unfolding findPaidInLedgerBytes_def rows kinds [OF disjI1 [OF refl]]
    using ledger_image_readable [OF assms(2)] wf_at [of _ 1] by (auto simp: slice_entry entry_wf_def split: list.splits)
  have refused: "findRefusedInLedgerBytes (ledger_image l @ post) n =
      (if at 2 n = [] then None else let e = last (at 2 n) in
         Some (int (unat (en_amount e)), int (unat (en_reason e)), int (unat (en_suggested_override e))))"
  proof (cases "at 2 n = []")
    case False
    then obtain front e where e: "at 2 n = front @ [e]" by (cases "at 2 n" rule: rev_cases) auto
    then show ?thesis
      unfolding findRefusedInLedgerBytes_def rows kinds [OF disjI2 [OF refl]]
      using ledger_image_readable [OF assms(2)] wf_at [of e 2] by (simp add: slice_entry entry_wf_def)
  next
    case True
    then show ?thesis unfolding findRefusedInLedgerBytes_def rows kinds [OF disjI2 [OF refl]] by simp
  qed
  show ?thesis
    using list by (simp add: recordedFromLedgerBytes_def paid refused Let_def split: list.splits)
qed


lemma watcher_reads_last_nonce:
  assumes "mandate_wf m"
  shows "decodeMandateLastNonce (mandate_image m @ post) = Inr (int (unat (m_last_nonce m)))"
proof -
  have "length (m_owner m) = 32" "length (m_agent m) = 32" "length (m_mint m) = 32" "length (m_source m) = 32"
      "length (m_merchant m) = 32"
    using assms by (simp_all add: mandate_wf_def)
  then show ?thesis
    by (simp add: decodeMandateLastNonce_def watch_U64_def slice_def mandate_image_def)
qed

section \<open>The watcher understands the program's log lines\<close>

text \<open>The two \<open>msg!\<close> lines of \<open>charge\<close>; the runtime puts \<open>Program log: \<close> before them.\<close>

definition paid_log :: "Mandate \<Rightarrow> u64 \<Rightarrow> string" where
  "paid_log m amount =
     ''Program log: VETO PAID amount='' @ nat_str (unat amount) @ '' spent='' @ nat_str (unat (m_spent m)) @ '' of cap='' @
     nat_str (unat (m_cap m)) @ '' remaining='' @ nat_str (unat (remaining m))"

definition refused_log :: "Mandate \<Rightarrow> u8 \<Rightarrow> u64 \<Rightarrow> u64 \<Rightarrow> u64 \<Rightarrow> string" where
  "refused_log m reason amount nonce suggestion =
     ''Program log: VETO REFUSED reason='' @ nat_str (unat reason) @ '' ('' @ program_reason_text reason @ '') amount='' @
     nat_str (unat amount) @ '' per_tx_max='' @ nat_str (unat (effective_per_tx_max m nonce)) @ '' remaining='' @
     nat_str (unat (remaining m)) @ '' override_to_clear='' @ nat_str (unat suggestion)"

lemma after_each_none: "hd p \<notin> set s \<Longrightarrow> p \<noteq> [] \<Longrightarrow> after_each p s = []"
  by (induction s) (auto simp: neq_Nil_conv)

lemma after_each_skip: "hd p \<notin> set a \<Longrightarrow> p \<noteq> [] \<Longrightarrow> after_each p (a @ s) = after_each p s"
  by (induction a) (auto simp: neq_Nil_conv)

lemma digit_not: "c \<in> set (nat_str n) \<Longrightarrow> is_digit c"
  using all_digits_nat_str [of n] by (simp add: all_digits_def list_all_iff)

lemma notin_nat_str [simp]: "\<not> is_digit c \<Longrightarrow> c \<notin> set (nat_str n)"
  using digit_not by blast

lemma digits_of_nat_str: "\<not> is_digit c \<Longrightarrow> digits_of (nat_str n @ c # s) = nat_str n"
  using digit_not [of _ n] by (simp add: digits_of_def takeWhile_append2)

lemma digits_of_nat_str_end: "digits_of (nat_str n) = nat_str n"
  using digit_not [of _ n] by (simp add: digits_of_def takeWhile_eq_all_conv)

lemma reason_text_chars:
  "CHR ''V'' \<notin> set (program_reason_text r)" "CHR '')'' \<notin> set (program_reason_text r)" "program_reason_text r \<noteq> []"
  by (simp_all add: program_reason_text_def)

lemma takeWhile_to: "c \<notin> set s \<Longrightarrow> takeWhile (\<lambda>x. x \<noteq> c) (s @ c # t) = s"
  by (induction s) auto

lemma paid_log_parses: "paid_line (paid_log m amount)"
proof -
  have "after_each ''VETO PAID amount='' (paid_log m amount) =
      (nat_str (unat amount) @ '' spent='' @ nat_str (unat (m_spent m)) @ '' of cap='' @
       nat_str (unat (m_cap m)) @ '' remaining='' @ nat_str (unat (remaining m))) #
      after_each ''VETO PAID amount='' (nat_str (unat amount) @ '' spent='' @ nat_str (unat (m_spent m)) @ '' of cap='' @
       nat_str (unat (m_cap m)) @ '' remaining='' @ nat_str (unat (remaining m)))"
    by (simp add: paid_log_def)
  then show ?thesis by (simp add: paid_line_def digits_of_nat_str is_digit_def)
qed


lemma refused_log_parses:
  "refused_line (refused_log m reason amount nonce suggestion) =
     Some (nat_str (unat reason), program_reason_text reason, nat_str (unat suggestion))"
  "\<not> paid_line (refused_log m reason amount nonce suggestion)"
proof -
  let ?tail = "'' override_to_clear='' @ nat_str (unat suggestion)"
  define mid where "mid = '' per_tx_max='' @ nat_str (unat (effective_per_tx_max m nonce)) @ '' remaining='' @ nat_str (unat (remaining m)) @ ?tail"
  define rest where "rest = nat_str (unat amount) @ mid"
  let ?R = "nat_str (unat reason) @ '' ('' @ program_reason_text reason @ '') amount='' @ rest"
  have noV: "CHR ''V'' \<notin> set ?R" by (simp add: rest_def mid_def reason_text_chars is_digit_def)
  have log: "refused_log m reason amount nonce suggestion = ''Program log: VETO REFUSED reason='' @ ?R"
    by (simp add: refused_log_def rest_def mid_def)
  have each: "after_each ''VETO REFUSED reason='' (refused_log m reason amount nonce suggestion) = [?R]"
    using after_each_none [of "''VETO REFUSED reason=''" ?R] noV by (simp add: log)
  have "after_each ''VETO PAID amount='' (refused_log m reason amount nonce suggestion) = []"
    using after_each_none [of "''VETO PAID amount=''" ?R] noV by (simp add: log)
  then show "\<not> paid_line (refused_log m reason amount nonce suggestion)" by (simp add: paid_line_def)
  have code: "digits_of ?R = nat_str (unat reason)"
    using digits_of_nat_str [of "CHR '' ''" "unat reason"] by (simp add: is_digit_def)
  have amt: "digits_of rest = nat_str (unat amount)" "drop (length (nat_str (unat amount))) rest = mid"
    using digits_of_nat_str [of "CHR '' ''" "unat amount"] by (simp_all add: rest_def mid_def is_digit_def)
  have upto: "takeWhile (\<lambda>c. c \<noteq> CHR '')'') (program_reason_text reason @ CHR '')'' # t) = program_reason_text reason" for t
    by (rule takeWhile_to [OF reason_text_chars(2)])
  have line: "takeWhile (\<lambda>c. c \<noteq> CHR 0x0A \<and> c \<noteq> CHR 0x0D) mid = mid"
    unfolding mid_def by (subst takeWhile_eq_all_conv) (auto dest: digit_not simp: is_digit_def)
  have noO: "hd ''override_to_clear='' \<notin> set ('' per_tx_max='' @ nat_str (unat (effective_per_tx_max m nonce)) @
      '' remaining='' @ nat_str (unat (remaining m)))"
    by (simp add: is_digit_def)
  have clear: "after_each ''override_to_clear='' mid = [nat_str (unat suggestion)]"
    using after_each_skip [OF noO, of ?tail] after_each_none [of "''override_to_clear=''" "nat_str (unat suggestion)"]
    by (simp add: mid_def is_digit_def)
  have "refused_match ?R = Some (nat_str (unat reason), program_reason_text reason, nat_str (unat suggestion))"
    unfolding refused_match_def code Let_def
    by (simp add: amt upto line clear digits_of_nat_str_end)
  then show "refused_line (refused_log m reason amount nonce suggestion) =
      Some (nat_str (unat reason), program_reason_text reason, nat_str (unat suggestion))"
    unfolding refused_line_def each by (simp add: List.map_filter_def)
qed

text \<open>The watcher reads a charge's outcome out of the log as the program decided it. A transaction whose
  log holds the program's line, after lines of other programs that say neither, parses to paid when the
  line is the payment's, and otherwise to a refusal with the program's reason code, its text and the
  amount that would clear it.\<close>

theorem log_lines_are_understood:
  assumes "\<forall>line \<in> set before. \<not> paid_line line \<and> refused_line line = None"
  shows "parseChargeLogs (before @ paid_log m amount # later) =
      Inr \<lparr>co_decision = cd_paid, co_reason = ''ok'', co_reasonCode = 0, co_suggestedOverride = None\<rparr> \<and>
    parseChargeLogs (before @ refused_log m reason amount nonce suggestion # later) =
      Inr \<lparr>co_decision = cd_refused, co_reason = program_reason_text reason, co_reasonCode = int (unat reason),
           co_suggestedOverride = Some (int (unat suggestion))\<rparr>"
  using assms
proof (induction before)
  case Nil
  show ?case by (simp add: paid_log_parses refused_log_parses reason_text_chars del: of_nat_unat)
qed simp


theorem watcher_reads_program_history_witness:
  "map_option (\<lambda>r. (co_decision r, rc_amount r)) (recordedFromLedgerBytes (ledger_image demo_ledger) 5) = Some (cd_paid, 50)"
proof -
  have "en_nonce (charge_entry demo_acc1 50 5 1) = 5" "en_nonce (charge_entry demo_acc3 50 5 3) = 5"
    "en_amount (charge_entry demo_acc3 50 5 3) = 50"
    by (simp_all add: charge_entry_def Let_def)
  then show ?thesis
    using watcher_reads_program_history [OF demo_reach, folded demo_ledger_def, OF demo_ledger_wf, of "[]" "''L''" 5]
    by (simp add: demo_history_def demo_entry_kinds opened_entry_def override_entry_def reason_defs KIND_PAID_def KIND_REFUSED_def KIND_OVERRIDE_def KIND_OPENED_def)
qed

end
