(* ===== verification/Event_Decode.thy ===== *)
theory Event_Decode
  imports Event_Log Watch_Chain Instructions
begin

text \<open>
  The events of the program and their three readers: the SDK (\<open>sdk/src/events.ts\<close>), the indexer
  (\<open>indexer/src/events.ts\<close>) and the app (\<open>app/lib/events.ts\<close>). \<open>pk\<close> is \<open>new PublicKey(bytes).toBase58()\<close>
  and \<open>fromBase64\<close> is \<open>Buffer.from(text, 'base64')\<close>. Every read of a number stands behind a test of
  the length that covers it, so it is a total function here.
\<close>

definition u64_at :: "bytes \<Rightarrow> nat \<Rightarrow> int" where
  "u64_at raw off = int (le_val (slice raw off (off + 8)))"

definition PAID_EVENT_DISC :: bytes where "PAID_EVENT_DISC = [240, 193, 17, 238, 238, 210, 129, 235]"
definition REFUSED_EVENT_DISC :: bytes where "REFUSED_EVENT_DISC = [230, 49, 133, 208, 106, 62, 106, 169]"
definition TRADED_EVENT_DISC :: bytes where "TRADED_EVENT_DISC = [225, 202, 73, 175, 147, 43, 160, 150]"
definition TRADE_REFUSED_EVENT_DISC :: bytes where "TRADE_REFUSED_EVENT_DISC = [97, 219, 5, 169, 115, 219, 109, 235]"
definition CHARGE_IX_DISC :: bytes where "CHARGE_IX_DISC = [26, 55, 197, 209, 93, 77, 242, 15]"
definition TRADE_IX_DISC :: bytes where "TRADE_IX_DISC = [178, 144, 26, 216, 241, 187, 206, 130]"

lemmas event_discs = PAID_EVENT_DISC_def REFUSED_EVENT_DISC_def TRADED_EVENT_DISC_def TRADE_REFUSED_EVENT_DISC_def

section \<open>The SDK\<close>

text \<open>The kinds of both \<open>DecisionKind\<close> types: the SDK's has no \<open>traded\<close>, its trade events do; the indexer's
  has no \<open>advisory_declined\<close>, which neither reader of events writes.\<close>

datatype DecisionKind = dk_paid | dk_refused | dk_traded | dk_advisory_declined

record DecodedEvent =
  ev_kind :: DecisionKind
  ev_mandate :: string
  ev_amount :: int
  ev_nonce :: int
  ev_reason :: int
  ev_suggestedOverride :: int

definition decodeEventBytes :: "(bytes \<Rightarrow> string) \<Rightarrow> bytes \<Rightarrow> DecodedEvent option" where
  "decodeEventBytes pk raw =
     (if length raw < 8 then None
      else let disc = slice raw 0 8
        in if buffersEqual disc PAID_EVENT_DISC then
             (if length raw < 64 then None
              else Some \<lparr>ev_kind = dk_paid, ev_mandate = pk (slice raw 8 40), ev_amount = u64_at raw 40,
                         ev_nonce = u64_at raw 48, ev_reason = 0, ev_suggestedOverride = 0\<rparr>)
           else if buffersEqual disc REFUSED_EVENT_DISC then
             (if length raw < 65 then None
              else Some \<lparr>ev_kind = dk_refused, ev_mandate = pk (slice raw 8 40), ev_amount = u64_at raw 40,
                         ev_nonce = u64_at raw 48, ev_reason = int (byte_or_0 raw 56),
                         ev_suggestedOverride = u64_at raw 57\<rparr>)
           else None)"

record TradeEvent =
  te_kind :: DecisionKind
  te_rule :: string
  te_amountIn :: int
  te_amountOut :: int
  te_minOut :: int
  te_nonce :: int
  te_reason :: int
  te_reasonText :: string
  te_suggestedOverride :: int

definition decodeTradeEventBytes :: "(bytes \<Rightarrow> string) \<Rightarrow> bytes \<Rightarrow> TradeEvent option" where
  "decodeTradeEventBytes pk raw =
     (if length raw < 8 then None
      else let disc = slice raw 0 8
        in if buffersEqual disc TRADED_EVENT_DISC then
             (if length raw < 72 then None
              else Some \<lparr>te_kind = dk_traded, te_rule = pk (slice raw 8 40), te_amountIn = u64_at raw 40,
                         te_amountOut = u64_at raw 48, te_minOut = 0, te_nonce = u64_at raw 56, te_reason = 0,
                         te_reasonText = sdk_reasonText 0, te_suggestedOverride = 0\<rparr>)
           else if buffersEqual disc TRADE_REFUSED_EVENT_DISC then
             (if length raw < 73 then None
              else let reason = int (byte_or_0 raw 64)
                in Some \<lparr>te_kind = dk_refused, te_rule = pk (slice raw 8 40), te_amountIn = u64_at raw 40,
                         te_amountOut = 0, te_minOut = u64_at raw 48, te_nonce = u64_at raw 56, te_reason = reason,
                         te_reasonText = sdk_reasonText reason, te_suggestedOverride = u64_at raw 65\<rparr>)
           else None)"

text \<open>Every line that is event data, decoded, without those that are not an event.\<close>

definition events_of_lines :: "(string \<Rightarrow> bytes) \<Rightarrow> (bytes \<Rightarrow> 'e option) \<Rightarrow> string list \<Rightarrow> 'e list" where
  "events_of_lines fromBase64 decode lines =
     List.map_filter (\<lambda>line. case PROGRAM_DATA line of None \<Rightarrow> None | Some b \<Rightarrow> decode (fromBase64 b)) lines"

definition sdk_source :: "string list \<Rightarrow> string option \<Rightarrow> string list" where
  "sdk_source logs programId = (case programId of None \<Rightarrow> logs | Some p \<Rightarrow> sdk_linesForProgram logs p)"

definition tradeEventsFromLogs ::
  "(bytes \<Rightarrow> string) \<Rightarrow> (string \<Rightarrow> bytes) \<Rightarrow> string list \<Rightarrow> string option \<Rightarrow> TradeEvent list" where
  "tradeEventsFromLogs pk fromBase64 logs programId =
     events_of_lines fromBase64 (decodeTradeEventBytes pk) (sdk_source logs programId)"

definition decodeEventsFromLogs ::
  "(bytes \<Rightarrow> string) \<Rightarrow> (string \<Rightarrow> bytes) \<Rightarrow> string list \<Rightarrow> string option \<Rightarrow> DecodedEvent list" where
  "decodeEventsFromLogs pk fromBase64 logs programId =
     events_of_lines fromBase64 (decodeEventBytes pk) (sdk_source logs programId)"

record CompiledIx =
  ci_programId :: string
  ci_accounts :: "string list"
  ci_data :: bytes

record TxMessageHeader =
  numRequiredSignatures :: int
  numReadonlySignedAccounts :: int
  numReadonlyUnsignedAccounts :: int

text \<open>\<open>err\<close> is whether the transaction failed.\<close>

record TxView =
  v_signature :: string
  v_slot :: int
  v_blockTime :: "int option"
  v_err :: bool
  v_logs :: "string list"
  v_accountKeys :: "string list"
  v_instructions :: "CompiledIx list"
  v_header :: "TxMessageHeader option"
  v_staticKeyCount :: nat
  v_loadedWritableCount :: nat

text \<open>A filter that is absent or the empty string keeps everything.\<close>

definition filtered :: "string option \<Rightarrow> string \<Rightarrow> bool" where
  "filtered flt k = (case flt of None \<Rightarrow> False | Some f \<Rightarrow> f \<noteq> [] \<and> k \<noteq> f)"

definition tradeDecisionsFromTx ::
  "(bytes \<Rightarrow> string) \<Rightarrow> (string \<Rightarrow> bytes) \<Rightarrow> TxView \<Rightarrow> string \<Rightarrow> string option \<Rightarrow> TradeEvent list" where
  "tradeDecisionsFromTx pk fromBase64 tx programId ruleFilter =
     (if v_err tx then []
      else filter (\<lambda>e. \<not> filtered ruleFilter (te_rule e)) (tradeEventsFromLogs pk fromBase64 (v_logs tx) (Some programId)))"

definition isChargeIx :: "CompiledIx \<Rightarrow> bool" where
  "isChargeIx ix = (8 \<le> length (ci_data ix) \<and> buffersEqual (slice (ci_data ix) 0 8) CHARGE_IX_DISC)"

definition account_at :: "CompiledIx \<Rightarrow> nat \<Rightarrow> string" where
  "account_at ix i = (if i < length (ci_accounts ix) then ci_accounts ix ! i else [])"

definition counterpartyFromCharge :: "TxView \<Rightarrow> string \<Rightarrow> string" where
  "counterpartyFromCharge tx mandate =
     (case List.find (\<lambda>ix. isChargeIx ix \<and> \<not> length (ci_accounts ix) < 5 \<and> mandate \<in> set (ci_accounts ix))
             (v_instructions tx) of
        Some ix \<Rightarrow> account_at ix 4
      | None \<Rightarrow> (case List.find isChargeIx (v_instructions tx) of None \<Rightarrow> [] | Some ix \<Rightarrow> account_at ix 4))"

text \<open>Without \<open>advisoryReason\<close> and \<open>descriptionSha256\<close>, which only an advisory refusal has.\<close>

record Decision =
  d_signature :: string
  d_slot :: int
  d_timestamp :: "int option"
  d_mandate :: string
  d_amount :: int
  d_nonce :: int
  d_counterparty :: string
  d_kind :: DecisionKind
  d_reason :: int
  d_reasonText :: string
  d_suggestedOverride :: int

definition decisionsFromTx ::
  "(bytes \<Rightarrow> string) \<Rightarrow> (string \<Rightarrow> bytes) \<Rightarrow> TxView \<Rightarrow> string \<Rightarrow> string option \<Rightarrow> Decision list" where
  "decisionsFromTx pk fromBase64 tx programId mandateFilter =
     (if v_err tx then []
      else map (\<lambda>e. \<lparr>d_signature = v_signature tx, d_slot = v_slot tx, d_timestamp = v_blockTime tx,
                     d_mandate = ev_mandate e, d_amount = ev_amount e, d_nonce = ev_nonce e,
                     d_counterparty = counterpartyFromCharge tx (ev_mandate e), d_kind = ev_kind e,
                     d_reason = ev_reason e, d_reasonText = sdk_reasonText (ev_reason e),
                     d_suggestedOverride = ev_suggestedOverride e\<rparr>)
             (filter (\<lambda>e. \<not> filtered mandateFilter (ev_mandate e))
               (decodeEventsFromLogs pk fromBase64 (v_logs tx) (Some programId))))"

text \<open>\<open>decodeBase58\<close>: the digits as one number, its bytes, and a zero byte for each leading \<open>1\<close>.\<close>

definition B58 :: string where "B58 = ''123456789ABCDEFGHJKLMNPQRSTUVWXYZabcdefghijkmnopqrstuvwxyz''"

fun index_of :: "char \<Rightarrow> string \<Rightarrow> nat option" where
  "index_of c [] = None"
| "index_of c (x # xs) = (if x = c then Some 0 else map_option Suc (index_of c xs))"

fun base58_number :: "nat \<Rightarrow> string \<Rightarrow> nat result" where
  "base58_number n [] = Inr n"
| "base58_number n (c # cs) =
     (case index_of c B58 of None \<Rightarrow> Inl (Error (''invalid base58 character: '' @ [c]))
      | Some i \<Rightarrow> base58_number (n * 58 + i) cs)"

fun number_bytes :: "nat \<Rightarrow> bytes" where
  "number_bytes n = (if n = 0 then [] else of_nat (n mod 256) # number_bytes (n div 256))"

declare number_bytes.simps [simp del]

definition decodeBase58 :: "string \<Rightarrow> bytes result" where
  "decodeBase58 s =
     andThen (base58_number 0 s) (\<lambda>n.
       Inr (replicate (length (takeWhile (\<lambda>c. c = CHR ''1'') s)) 0 @ rev (number_bytes n)))"

text \<open>The answer of the RPC. A key is a text or an object that gives one; None is an object that is
  no key, on which \<open>keyToBase58\<close> throws. An absent list is None.\<close>

datatype ix_data = IxText string | IxBytes bytes

record RpcInstruction =
  ri_programIdIndex :: nat
  ri_accounts :: "nat list option"
  ri_accountKeyIndexes :: "nat list option"
  ri_data :: ix_data

record RpcMessage =
  rm_header :: "(int option \<times> int option \<times> int option) option"
  rm_accountKeys :: "string option list option"
  rm_staticAccountKeys :: "string option list option"
  rm_instructions :: "RpcInstruction list option"
  rm_compiledInstructions :: "RpcInstruction list option"

record RpcMeta =
  rt_err :: bool
  rt_logMessages :: "string list option"
  rt_loadedWritable :: "string option list option"
  rt_loadedReadonly :: "string option list option"

record RpcTransaction =
  rx_slot :: "int option"
  rx_blockTime :: "int option"
  rx_meta :: "RpcMeta option"
  rx_signatures :: "string list option"
  rx_message :: "RpcMessage option"

definition keyToBase58 :: "string option \<Rightarrow> string result" where
  "keyToBase58 key = (case key of None \<Rightarrow> Inl (Error ''events.keyToBase58: not a public key'') | Some k \<Rightarrow> Inr k)"

definition or_empty :: "'a list option \<Rightarrow> 'a list" where
  "or_empty l = (case l of None \<Rightarrow> [] | Some xs \<Rightarrow> xs)"

definition messageKeys :: "RpcTransaction \<Rightarrow> (string list \<times> nat \<times> nat) result" where
  "messageKeys tx =
     (let staticKeys = (case rx_message tx of None \<Rightarrow> []
                        | Some m \<Rightarrow> (case rm_staticAccountKeys m of Some ks \<Rightarrow> ks | None \<Rightarrow> or_empty (rm_accountKeys m)));
          loadedW = (case rx_meta tx of None \<Rightarrow> [] | Some m \<Rightarrow> or_empty (rt_loadedWritable m));
          loadedR = (case rx_meta tx of None \<Rightarrow> [] | Some m \<Rightarrow> or_empty (rt_loadedReadonly m))
      in andThen (traverse keyToBase58 (staticKeys @ loadedW @ loadedR)) (\<lambda>keys.
           Inr (keys, length staticKeys, length loadedW)))"

definition headerOf :: "RpcMessage option \<Rightarrow> TxMessageHeader option" where
  "headerOf message =
     (case message of None \<Rightarrow> None
      | Some m \<Rightarrow>
          (case rm_header m of
             Some (Some a, Some b, Some c) \<Rightarrow>
               Some \<lparr>numRequiredSignatures = a, numReadonlySignedAccounts = b, numReadonlyUnsignedAccounts = c\<rparr>
           | _ \<Rightarrow> None))"

definition key_at :: "string list \<Rightarrow> nat \<Rightarrow> string" where
  "key_at keys i = (if i < length keys then keys ! i else [])"

definition ixData :: "ix_data \<Rightarrow> bytes result" where
  "ixData d = (case d of IxText s \<Rightarrow> decodeBase58 s | IxBytes b \<Rightarrow> Inr b)"

definition instructionsOf :: "RpcMessage option \<Rightarrow> string list \<Rightarrow> CompiledIx list result" where
  "instructionsOf message keys =
     (let compiled = (case message of None \<Rightarrow> None | Some m \<Rightarrow> rm_compiledInstructions m);
          legacy = (case message of None \<Rightarrow> None | Some m \<Rightarrow> rm_instructions m);
          raw = (if or_empty compiled \<noteq> [] then or_empty compiled else or_empty legacy)
      in traverse (\<lambda>ix.
           let indexes = (case ri_accountKeyIndexes ix of Some is \<Rightarrow> is | None \<Rightarrow> or_empty (ri_accounts ix))
           in andThen (ixData (ri_data ix)) (\<lambda>d.
                Inr \<lparr>ci_programId = key_at keys (ri_programIdIndex ix), ci_accounts = map (key_at keys) indexes,
                     ci_data = d\<rparr>)) raw)"

definition viewFromRpc :: "RpcTransaction \<Rightarrow> string \<Rightarrow> int \<Rightarrow> TxView result" where
  "viewFromRpc tx fallbackSignature fallbackSlot =
     andThen (messageKeys tx) (\<lambda>(keys, statics, loaded).
     andThen (instructionsOf (rx_message tx) keys) (\<lambda>ixs.
       Inr \<lparr>v_signature = (case or_empty (rx_signatures tx) of s # _ \<Rightarrow> if s \<noteq> [] then s else fallbackSignature
                                                           | [] \<Rightarrow> fallbackSignature),
            v_slot = (case rx_slot tx of Some n \<Rightarrow> n | None \<Rightarrow> fallbackSlot),
            v_blockTime = rx_blockTime tx,
            v_err = (case rx_meta tx of None \<Rightarrow> False | Some m \<Rightarrow> rt_err m),
            v_logs = (case rx_meta tx of None \<Rightarrow> [] | Some m \<Rightarrow> or_empty (rt_logMessages m)),
            v_accountKeys = keys, v_instructions = ixs, v_header = headerOf (rx_message tx),
            v_staticKeyCount = statics, v_loadedWritableCount = loaded\<rparr>))"

text \<open>\<open>localeCompare\<close> belongs to the host.\<close>

definition compareDecisions :: "(string \<Rightarrow> string \<Rightarrow> int) \<Rightarrow> Decision \<Rightarrow> Decision \<Rightarrow> int" where
  "compareDecisions localeCompare a b =
     (let ta = (case d_timestamp a of None \<Rightarrow> 0 | Some t \<Rightarrow> t); tb = (case d_timestamp b of None \<Rightarrow> 0 | Some t \<Rightarrow> t)
      in if ta \<noteq> tb then ta - tb
         else if d_slot a \<noteq> d_slot b then d_slot a - d_slot b
         else if d_nonce a \<noteq> d_nonce b then (if d_nonce a < d_nonce b then - 1 else 1)
         else localeCompare (d_signature a) (d_signature b))"

section \<open>The app\<close>

definition app_decision :: "string \<Rightarrow> int \<Rightarrow> int \<Rightarrow> int \<Rightarrow> int \<Rightarrow> int option \<Rightarrow> string DecodedTxDecision" where
  "app_decision signature kind amount nonce reason suggested =
     \<lparr>tx_signature = signature, tx_kind = kind, tx_amount = amount, tx_nonce = nonce, tx_reason = reason,
      tx_blockTime = None, tx_slot = None, tx_suggestedOverride = suggested, tx_counterparty = None\<rparr>"

definition app_decodeEventBytes :: "string \<Rightarrow> bytes \<Rightarrow> string DecodedTxDecision option" where
  "app_decodeEventBytes signature raw =
     (if length raw < 8 then None
      else let disc = slice raw 0 8
        in if buffersEqual disc PAID_EVENT_DISC then
             (if length raw < 64 then None
              else Some (app_decision signature 1 (u64_at raw 40) (u64_at raw 48) 0 None))
           else if buffersEqual disc REFUSED_EVENT_DISC then
             (if length raw < 65 then None
              else Some (app_decision signature 2 (u64_at raw 40) (u64_at raw 48) (int (byte_or_0 raw 56))
                          (Some (u64_at raw 57))))
           else if buffersEqual disc TRADED_EVENT_DISC then
             (if length raw < 72 then None
              else Some (app_decision signature 1 (u64_at raw 40) (u64_at raw 56) 0 None))
           else if buffersEqual disc TRADE_REFUSED_EVENT_DISC then
             (if length raw < 73 then None
              else Some (app_decision signature 2 (u64_at raw 40) (u64_at raw 56) (int (byte_or_0 raw 64))
                          (Some (u64_at raw 65))))
           else None)"

definition app_decodeEventsFromLogs ::
  "(string \<Rightarrow> bytes) \<Rightarrow> string \<Rightarrow> string list \<Rightarrow> string DecodedTxDecision list" where
  "app_decodeEventsFromLogs fromBase64 signature logs =
     events_of_lines fromBase64 (app_decodeEventBytes signature) logs"

definition override_kind :: "string \<Rightarrow> bytes \<Rightarrow> string DecodedTxDecision" where
  "override_kind signature data =
     (if length data < 24 then app_decision signature 3 0 0 0 None
      else app_decision signature 3 (u64_at data 8) (u64_at data 16) 0 None)"

definition decodeInstructionKind :: "string \<Rightarrow> bytes \<Rightarrow> string DecodedTxDecision option" where
  "decodeInstructionKind signature data =
     (if length data < 8 then None
      else let disc = slice data 0 8
        in if buffersEqual disc OPEN_MANDATE_DISC then Some (app_decision signature 0 0 0 0 None)
           else if buffersEqual disc REVOKE_MANDATE_DISC then Some (app_decision signature 4 0 0 0 None)
           else if buffersEqual disc GRANT_OVERRIDE_DISC then Some (override_kind signature data)
           else if buffersEqual disc CHARGE_IX_DISC \<or> buffersEqual disc CLOSE_TRADE_RULE_DISC then None
           else if buffersEqual disc OPEN_TRADE_RULE_DISC then Some (app_decision signature 0 0 0 0 None)
           else if buffersEqual disc REVOKE_TRADE_RULE_DISC then Some (app_decision signature 4 0 0 0 None)
           else if buffersEqual disc GRANT_TRADE_OVERRIDE_DISC then Some (override_kind signature data)
           else None)"

section \<open>The indexer\<close>

record IdxEvent =
  ie_rule :: "string option"
  ie_amountIn :: "int option"
  ie_amountOut :: "int option"
  ie_minOut :: "int option"
  ie_kind :: DecisionKind
  ie_kindCode :: int
  ie_mandate :: string
  ie_amount :: int
  ie_nonce :: int
  ie_reason :: int
  ie_suggestedOverride :: int

definition idx_decodeEventBytes :: "(bytes \<Rightarrow> string) \<Rightarrow> bytes \<Rightarrow> IdxEvent option" where
  "idx_decodeEventBytes pk raw =
     (if length raw < 8 then None
      else let disc = slice raw 0 8; traded = buffersEqual disc TRADED_EVENT_DISC;
               refusedTrade = buffersEqual disc TRADE_REFUSED_EVENT_DISC
        in if traded \<or> refusedTrade then
             (if length raw \<noteq> (if traded then 72 else 73) then None
              else let rule_key = pk (slice raw 8 40)
                in Some \<lparr>ie_rule = Some rule_key, ie_amountIn = Some (u64_at raw 40),
                         ie_amountOut = Some (if traded then u64_at raw 48 else 0),
                         ie_minOut = (if refusedTrade then Some (u64_at raw 48) else None),
                         ie_kind = (if traded then dk_traded else dk_refused), ie_kindCode = (if traded then 1 else 2),
                         ie_mandate = rule_key, ie_amount = u64_at raw 40, ie_nonce = u64_at raw 56,
                         ie_reason = (if traded then 0 else int (byte_or_0 raw 64)),
                         ie_suggestedOverride = (if traded then 0 else u64_at raw 65)\<rparr>)
           else if buffersEqual disc PAID_EVENT_DISC then
             (if length raw < 64 then None
              else Some \<lparr>ie_rule = None, ie_amountIn = None, ie_amountOut = None, ie_minOut = None,
                         ie_kind = dk_paid, ie_kindCode = 1, ie_mandate = pk (slice raw 8 40),
                         ie_amount = u64_at raw 40, ie_nonce = u64_at raw 48, ie_reason = 0,
                         ie_suggestedOverride = 0\<rparr>)
           else if buffersEqual disc REFUSED_EVENT_DISC then
             (if length raw < 65 then None
              else Some \<lparr>ie_rule = None, ie_amountIn = None, ie_amountOut = None, ie_minOut = None,
                         ie_kind = dk_refused, ie_kindCode = 2, ie_mandate = pk (slice raw 8 40),
                         ie_amount = u64_at raw 40, ie_nonce = u64_at raw 48, ie_reason = int (byte_or_0 raw 56),
                         ie_suggestedOverride = u64_at raw 57\<rparr>)
           else None)"

definition idx_decodeEventsFromLogs ::
  "(bytes \<Rightarrow> string) \<Rightarrow> (string \<Rightarrow> bytes) \<Rightarrow> string list \<Rightarrow> string option \<Rightarrow> IdxEvent list" where
  "idx_decodeEventsFromLogs pk fromBase64 logs programId =
     events_of_lines fromBase64 (idx_decodeEventBytes pk)
       (case programId of None \<Rightarrow> logs | Some p \<Rightarrow> idx_linesForProgram logs p)"

record IdxDecision = Decision +
  di_rule :: "string option"
  di_amountIn :: "int option"
  di_amountOut :: "int option"
  di_minOut :: "int option"

text \<open>\<open>/VETO PAID amount=(\d+)/\<close> and
  \<open>/VETO REFUSED reason=(\d+) \([^)]*\) amount=(\d+).*override_to_clear=(\d+)/\<close>.\<close>

definition idx_paid_amount :: "string \<Rightarrow> string option" where
  "idx_paid_amount line =
     (case filter (\<lambda>r. digits_of r \<noteq> []) (after_each ''VETO PAID amount='' line) of [] \<Rightarrow> None | r # _ \<Rightarrow> Some (digits_of r))"

definition idx_refused_match :: "string \<Rightarrow> (string \<times> string \<times> string) option" where
  "idx_refused_match r =
     (let code = digits_of r; r1 = drop (length code) r in
      if code = [] \<or> \<not> starts_with '' ('' r1 then None
      else
        let r3 = dropWhile (\<lambda>c. c \<noteq> CHR '')'') (drop 2 r1) in
        if \<not> starts_with '') amount='' r3 then None
        else
          let r4 = drop 9 r3; amount = digits_of r4;
              tl_text = takeWhile (\<lambda>c. c \<noteq> CHR 0x0A \<and> c \<noteq> CHR 0x0D) (drop (length amount) r4);
              clears = filter (\<lambda>x. digits_of x \<noteq> []) (after_each ''override_to_clear='' tl_text)
          in if amount = [] \<or> clears = [] then None else Some (code, amount, digits_of (last clears)))"

fun parseVetoTextLog :: "string list \<Rightarrow> (DecisionKind \<times> int \<times> int \<times> int) option" where
  "parseVetoTextLog [] = None"
| "parseVetoTextLog (line # lines) =
     (case idx_paid_amount line of
        Some amount \<Rightarrow> Some (dk_paid, 0, int (str_val amount), 0)
      | None \<Rightarrow>
          (case List.map_filter idx_refused_match (after_each ''VETO REFUSED reason='' line) of
             (code, amount, clear) # _ \<Rightarrow> Some (dk_refused, int (str_val code), int (str_val amount), int (str_val clear))
           | [] \<Rightarrow> parseVetoTextLog lines))"

definition decisionFromChargeLog :: "TxView \<Rightarrow> string \<Rightarrow> IdxDecision option" where
  "decisionFromChargeLog tx programId =
     (case parseVetoTextLog (idx_linesForProgram (v_logs tx) programId) of None \<Rightarrow> None
      | Some (kind, reason, amount_text, suggested) \<Rightarrow>
          (case List.find (\<lambda>ix. ci_programId ix = programId \<and> isChargeIx ix \<and> 5 \<le> length (ci_accounts ix)
                               \<and> 24 \<le> length (ci_data ix)) (v_instructions tx) of
             None \<Rightarrow> None
           | Some ix \<Rightarrow>
               let amount = u64_at (ci_data ix) 8; nonce = u64_at (ci_data ix) 16; mandate = account_at ix 1
               in if amount \<noteq> amount_text then None
                  else if mandate = [] then None
                  else Some \<lparr>d_signature = v_signature tx, d_slot = v_slot tx, d_timestamp = v_blockTime tx,
                             d_mandate = mandate, d_amount = amount, d_nonce = nonce,
                             d_counterparty = account_at ix 4, d_kind = kind, d_reason = reason,
                             d_reasonText = idx_reasonText reason, d_suggestedOverride = suggested,
                             di_rule = None, di_amountIn = None, di_amountOut = None, di_minOut = None\<rparr>))"

definition idx_event_decision :: "TxView \<Rightarrow> string \<Rightarrow> IdxEvent \<Rightarrow> IdxDecision" where
  "idx_event_decision tx programId e =
     (let trade = (case ie_rule e of None \<Rightarrow> None
                   | Some rule_key \<Rightarrow>
                       List.find (\<lambda>ix. ci_programId ix = programId \<and> 1 < length (ci_accounts ix) \<and> account_at ix 1 = rule_key
                          \<and> length (ci_data ix) = 32 \<and> slice (ci_data ix) 0 8 = TRADE_IX_DISC
                          \<and> Some (u64_at (ci_data ix) 8) = ie_amountIn e \<and> u64_at (ci_data ix) 24 = ie_nonce e)
                         (v_instructions tx))
      in \<lparr>d_signature = v_signature tx, d_slot = v_slot tx, d_timestamp = v_blockTime tx,
          d_mandate = ie_mandate e, d_amount = ie_amount e, d_nonce = ie_nonce e,
          d_counterparty =
            (if ie_rule e \<noteq> None then
               (if ie_reason e = 12 then []
                else case trade of None \<Rightarrow> [] | Some ix \<Rightarrow> account_at ix (if ie_reason e = 11 then 4 else 6))
             else counterpartyFromCharge tx (ie_mandate e)),
          d_kind = ie_kind e, d_reason = ie_reason e,
          d_reasonText =
            (if ie_rule e \<noteq> None \<and> ie_reason e = 1 then ''rule not active''
             else if ie_rule e \<noteq> None \<and> ie_reason e = 5 then ''over per-trade maximum''
             else idx_reasonText (ie_reason e)),
          d_suggestedOverride = ie_suggestedOverride e,
          di_rule = ie_rule e,
          di_amountIn = (if ie_rule e \<noteq> None then ie_amountIn e else None),
          di_amountOut = (if ie_rule e \<noteq> None then ie_amountOut e else None),
          di_minOut = (if ie_rule e \<noteq> None then
                         (case ie_minOut e of Some m \<Rightarrow> Some m | None \<Rightarrow> map_option (\<lambda>ix. u64_at (ci_data ix) 16) trade)
                       else None)\<rparr>)"

text \<open>The decisions, and the mark that the runtime cut the log.\<close>

definition idx_decisionsFromTx ::
  "(bytes \<Rightarrow> string) \<Rightarrow> (string \<Rightarrow> bytes) \<Rightarrow> TxView \<Rightarrow> string \<Rightarrow> string option \<Rightarrow> IdxDecision list \<times> bool" where
  "idx_decisionsFromTx pk fromBase64 tx programId mandateFilter =
     (if v_err tx then ([], False)
      else let cut = (''Log truncated'' \<in> set (v_logs tx)); events = idx_decodeEventsFromLogs pk fromBase64 (v_logs tx) (Some programId)
        in if events \<noteq> [] then
             (map (idx_event_decision tx programId) (filter (\<lambda>e. \<not> filtered mandateFilter (ie_mandate e)) events), cut)
           else (case decisionFromChargeLog tx programId of
                   None \<Rightarrow> ([], cut)
                 | Some d \<Rightarrow> if filtered mandateFilter (d_mandate d) then ([], cut) else ([d], cut)))"

section \<open>Ring against history\<close>

definition kind_text :: "DecisionKind \<Rightarrow> string" where
  "kind_text k = (case k of dk_paid \<Rightarrow> ''paid'' | dk_refused \<Rightarrow> ''refused'' | dk_traded \<Rightarrow> ''traded''
     | dk_advisory_declined \<Rightarrow> ''advisory_declined'')"

definition decisionFieldsMatch :: "string RingEntry \<Rightarrow> IdxDecision \<Rightarrow> bool" where
  "decisionFieldsMatch r d =
     (r_amount r = d_amount d \<and> r_nonce r = d_nonce d \<and> r_counterparty r = d_counterparty d
      \<and> kindName (r_kind r) = kind_text (d_kind d) \<and> r_reason r = d_reason d
      \<and> r_suggestedOverride r = d_suggestedOverride d)"

definition field_diff :: "string \<times> string \<times> string \<Rightarrow> string list" where
  "field_diff c = (case c of (name, left, right) \<Rightarrow>
     if left \<noteq> right then [name @ '': ring='' @ left @ '' indexer='' @ right] else [])"

definition fieldDiffs :: "string RingEntry \<Rightarrow> IdxDecision option \<Rightarrow> string list" where
  "fieldDiffs r indexed =
     (case indexed of None \<Rightarrow> [''missing from indexer'']
      | Some d \<Rightarrow>
          concat (map field_diff
            [(''amount'', int_str (r_amount r), int_str (d_amount d)),
             (''nonce'', int_str (r_nonce r), int_str (d_nonce d)),
             (''counterparty'', r_counterparty r, d_counterparty d),
             (''kind'', kindName (r_kind r), kind_text (d_kind d)),
             (''reason'', int_str (r_reason r), int_str (d_reason d)),
             (''suggestedOverride'', int_str (r_suggestedOverride r), int_str (d_suggestedOverride d))])
          @ (case d_timestamp d of None \<Rightarrow> []
             | Some t \<Rightarrow> field_diff (''timestamp'', int_str (r_ts r), int_str t)))"

record OverlapRow =
  or_ring :: "string RingEntry"
  or_indexed :: "IdxDecision option"
  or_equal :: bool
  or_diffs :: "string list"

fun take_first :: "('a \<Rightarrow> bool) \<Rightarrow> 'a list \<Rightarrow> ('a \<times> 'a list) option" where
  "take_first P [] = None"
| "take_first P (x # xs) = (if P x then Some (x, xs) else map_option (\<lambda>(y, ys). (y, x # ys)) (take_first P xs))"

definition take_match :: "string RingEntry \<Rightarrow> IdxDecision list \<Rightarrow> (IdxDecision \<times> IdxDecision list) option" where
  "take_match r unused =
     (case take_first (decisionFieldsMatch r) unused of
        Some m \<Rightarrow> Some m
      | None \<Rightarrow> take_first (\<lambda>d. d_nonce d = r_nonce r \<and> kind_text (d_kind d) = kindName (r_kind r) \<and> d_amount d = r_amount r) unused)"

fun compare_rows :: "string RingEntry list \<Rightarrow> IdxDecision list \<Rightarrow> OverlapRow list \<times> IdxDecision list" where
  "compare_rows [] unused = ([], unused)"
| "compare_rows (r # rs) unused =
     (case take_match r unused of
        None \<Rightarrow>
          (case compare_rows rs unused of (rows, extra) \<Rightarrow>
             (\<lparr>or_ring = r, or_indexed = None, or_equal = False, or_diffs = fieldDiffs r None\<rparr> # rows, extra))
      | Some (d, unused') \<Rightarrow>
          let diffs = fieldDiffs r (Some d); equal = (filter (\<lambda>s. \<not> starts_with ''timestamp:'' s) diffs = [])
          in (case compare_rows rs unused' of (rows, extra) \<Rightarrow>
                (\<lparr>or_ring = r, or_indexed = Some d, or_equal = equal, or_diffs = diffs\<rparr> # rows, extra)))"

record Comparison =
  cmp_ringDecisions :: nat
  cmp_matched :: nat
  cmp_ok :: bool
  cmp_rows :: "OverlapRow list"
  cmp_extraInIndexer :: "IdxDecision list"

definition compareRingToHistory :: "string RingEntry list \<Rightarrow> IdxDecision list \<Rightarrow> Comparison" where
  "compareRingToHistory ringEntries history =
     (let decisions = filter (\<lambda>e. r_kind e = 1 \<or> r_kind e = 2) ringEntries;
          (rows, extra) = compare_rows decisions history
      in \<lparr>cmp_ringDecisions = length decisions, cmp_matched = length (filter or_equal rows),
          cmp_ok = list_all or_equal rows, cmp_rows = rows, cmp_extraInIndexer = extra\<rparr>)"

end
