(* ===== verification/Event_Compare.thy ===== *)
theory Event_Compare
  imports Event_Decode "HOL-Library.Multiset"
begin

text \<open>
  What the comparison of a ledger ring with the indexed history means (\<open>indexer/src/compare.ts\<close>): the
  greedy pairing of the code is ok exactly when the ring's decisions are a part of the history's,
  counted with their repetitions.
\<close>

text \<open>What a decision and a ring entry have in common.\<close>

type_synonym decision_key = "int \<times> int \<times> string \<times> string \<times> int \<times> int"

definition ring_key :: "string RingEntry \<Rightarrow> decision_key" where
  "ring_key r = (r_amount r, r_nonce r, r_counterparty r, kindName (r_kind r), r_reason r, r_suggestedOverride r)"

definition decision_key :: "'a Decision_scheme \<Rightarrow> decision_key" where
  "decision_key d =
     (d_amount d, d_nonce d, d_counterparty d, kind_text (d_kind d), d_reason d, d_suggestedOverride d)"

lemma decisionFieldsMatch_iff: "decisionFieldsMatch r d \<longleftrightarrow> decision_key d = ring_key r"
  by (auto simp: decisionFieldsMatch_def decision_key_def ring_key_def)

lemma nat_str_no_minus: "nat_str n \<noteq> CHR ''-'' # s" "CHR ''-'' # s \<noteq> nat_str n"
  using all_digits_nat_str [of n] by (auto simp: all_digits_def is_digit_def dest: sym)

lemma int_str_eq: "int_str a = int_str b \<longleftrightarrow> a = b"
  by (auto simp: int_str_def nat_str_no_minus dest: arg_cong [where f = str_val])

lemma field_diff_kept:
  "hd name \<noteq> CHR ''t'' \<Longrightarrow> name \<noteq> [] \<Longrightarrow>
     filter (\<lambda>s. \<not> starts_with ''timestamp:'' s) (field_diff (name, a, b)) = field_diff (name, a, b)"
  by (cases name) (auto simp: field_diff_def)

lemma field_diff_dropped: "filter (\<lambda>s. \<not> starts_with ''timestamp:'' s) (field_diff (''timestamp'', a, b)) = []"
  by (simp add: field_diff_def)

lemma field_diff_same: "field_diff (name, a, b) = [] \<longleftrightarrow> a = b"
  by (simp add: field_diff_def)

lemma fieldDiffs_match:
  "filter (\<lambda>s. \<not> starts_with ''timestamp:'' s) (fieldDiffs r (Some d)) = [] \<longleftrightarrow> decision_key d = ring_key r"
proof -
  have t: "filter (\<lambda>s. \<not> starts_with ''timestamp:'' s)
      (case d_timestamp d of None \<Rightarrow> [] | Some t \<Rightarrow> field_diff (''timestamp'', int_str (r_ts r), int_str t)) = []"
    by (simp add: field_diff_dropped split: option.split)
  show ?thesis
    by (auto simp add: fieldDiffs_def t field_diff_kept field_diff_same int_str_eq decision_key_def ring_key_def
        simp del: filter_empty_conv)
qed

lemma take_first_Some: "take_first P xs = Some (x, ys) \<Longrightarrow> P x \<and> mset xs = add_mset x (mset ys)"
  by (induction xs arbitrary: ys) (auto split: if_split_asm)

lemma take_first_None: "take_first P xs = None \<longleftrightarrow> (\<forall>x\<in>set xs. \<not> P x)"
  by (induction xs) auto

text \<open>The decision taken for a ring entry: an exact one when there is one.\<close>

lemma take_match_exact:
  assumes "ring_key r \<in> decision_key ` set unused"
  obtains d unused' where "take_match r unused = Some (d, unused')" "decision_key d = ring_key r"
    "mset unused = add_mset d (mset unused')"
proof -
  have "take_first (decisionFieldsMatch r) unused \<noteq> None"
    using assms unfolding take_first_None by (auto simp: decisionFieldsMatch_iff)
  then obtain d u where t: "take_first (decisionFieldsMatch r) unused = Some (d, u)" by auto
  with take_first_Some [OF t] show thesis
    by (intro that [of d u]) (auto simp: take_match_def decisionFieldsMatch_iff)
qed

lemma take_match_from: "take_match r unused = Some (d, unused') \<Longrightarrow> mset unused = add_mset d (mset unused')"
  by (auto simp: take_match_def dest: take_first_Some split: option.split_asm)

lemma not_matched:
  assumes "ring_key r \<notin> decision_key ` set unused" "compare_rows (r # rs) unused = (rows, extra)"
  shows "\<not> list_all or_equal rows"
proof (cases "take_match r unused")
  case (Some m)
  obtain d u where m: "m = (d, u)" by force
  from take_match_from [OF Some [unfolded m]] have "d \<in># mset unused" by simp
  with assms(1) have "decision_key d \<noteq> ring_key r" by (auto simp: image_iff)
  with assms(2) Some m show ?thesis
    by (auto simp: Let_def fieldDiffs_match simp del: filter_empty_conv split: prod.splits)
qed (use assms(2) in \<open>auto split: prod.splits\<close>)

lemma compare_rows_equal:
  assumes "compare_rows rs unused = (rows, extra)"
  shows "length rows = length rs"
    and "list_all or_equal rows \<longleftrightarrow> image_mset ring_key (mset rs) \<subseteq># image_mset decision_key (mset unused)"
    and "list_all or_equal rows \<Longrightarrow>
      image_mset decision_key (mset extra) = image_mset decision_key (mset unused) - image_mset ring_key (mset rs)"
  using assms
proof (induction rs arbitrary: unused rows extra)
  case (Cons r rs)
  {
    case 1
    then show ?case using Cons.IH(1)
      by (cases "take_match r unused") (auto simp: Let_def split: prod.splits)
  next
    case 2
    show ?case
    proof (cases "ring_key r \<in> decision_key ` set unused")
      case True
      then obtain d u where t: "take_match r unused = Some (d, u)" "decision_key d = ring_key r"
        and m: "mset unused = add_mset d (mset u)" by (rule take_match_exact)
      obtain rows' extra' where c: "compare_rows rs u = (rows', extra')" by force
      show ?thesis using 2 Cons.IH(2) [OF c] t c by (auto simp: m Let_def fieldDiffs_match simp del: filter_empty_conv)
    next
      case False
      then have "\<not> image_mset ring_key (mset (r # rs)) \<subseteq># image_mset decision_key (mset unused)"
        by (auto dest!: insert_subset_eq_iff [THEN iffD1])
      with not_matched [OF False 2] show ?thesis by simp
    qed
  next
    case 3
    then have all: "list_all or_equal rows" by simp
    have "ring_key r \<in> decision_key ` set unused"
      using 3 not_matched by blast
    then obtain d u where t: "take_match r unused = Some (d, u)" "decision_key d = ring_key r"
      and m: "mset unused = add_mset d (mset u)" by (rule take_match_exact)
    obtain rows' extra' where c: "compare_rows rs u = (rows', extra')" by force
    show ?case using 3 Cons.IH(3) [OF _ c] t c by (auto simp: m Let_def fieldDiffs_match simp del: filter_empty_conv)
  }
qed auto

definition ring_decisions :: "string RingEntry list \<Rightarrow> string RingEntry list" where
  "ring_decisions ring = filter (\<lambda>e. r_kind e = 1 \<or> r_kind e = 2) ring"

text \<open>C16: the comparison of a ring with the indexed history is ok if and only if every decision of the
  ring, with its repetitions, is a decision of the history: amount, nonce, counterparty, kind, reason
  and suggested override. The pairing takes one decision after another and never back, and falls back
  to a decision that only resembles the entry; neither makes it miss an exact pairing that exists.
\<close>
theorem comparison_ok_iff_ring_in_history:
  "cmp_ok (compareRingToHistory ring history) \<longleftrightarrow>
     image_mset ring_key (mset (ring_decisions ring)) \<subseteq># image_mset decision_key (mset history)"
  by (auto simp: compareRingToHistory_def ring_decisions_def Let_def compare_rows_equal(2) split: prod.split)

lemma compared:
  assumes "image_mset ring_key (mset (ring_decisions ring)) \<subseteq># image_mset decision_key (mset history)"
  defines "c \<equiv> compareRingToHistory ring history"
  shows "cmp_ok c" "cmp_matched c = length (ring_decisions ring)" "cmp_ringDecisions c = length (ring_decisions ring)"
    "length (cmp_extraInIndexer c) = length history - length (ring_decisions ring)"
proof -
  obtain rows extra where rows: "compare_rows (ring_decisions ring) history = (rows, extra)" by force
  from assms(1) have all: "list_all or_equal rows" using compare_rows_equal(2) [OF rows] by simp
  from arg_cong [where f = size, OF compare_rows_equal(3) [OF rows all]] assms(1)
  have "length extra = length history - length (ring_decisions ring)" by (simp add: size_Diff_submset)
  moreover have "filter or_equal rows = rows" using all by (simp add: list_all_iff)
  ultimately show "cmp_ok c" "cmp_matched c = length (ring_decisions ring)" "cmp_ringDecisions c = length (ring_decisions ring)"
    "length (cmp_extraInIndexer c) = length history - length (ring_decisions ring)"
    using rows all compare_rows_equal(1) [OF rows]
    by (simp_all add: c_def compareRingToHistory_def ring_decisions_def [symmetric] Let_def)
qed

end
