(* ===== verification/Event_Flow.thy ===== *)
theory Event_Flow
  imports Event_Compare
begin

text \<open>
  From the program's \<open>emit!\<close> to the readers: the bytes of the event a charge emits
  (\<open>programs/veto/src/lib.rs\<close>), what the three decoders make of them, and what the SDK and the
  indexer report for a transaction in which the charge ran among other programs' calls.
\<close>

definition paid_event :: "pubkey \<Rightarrow> u64 \<Rightarrow> u64 \<Rightarrow> u64 \<Rightarrow> bytes" where
  "paid_event mandate amount nonce total_spent =
     PAID_EVENT_DISC @ mandate @ le_bytes 8 (unat amount) @ le_bytes 8 (unat nonce) @ le_bytes 8 (unat total_spent)"

definition refused_event :: "pubkey \<Rightarrow> u64 \<Rightarrow> u64 \<Rightarrow> u8 \<Rightarrow> u64 \<Rightarrow> bytes" where
  "refused_event mandate amount nonce reason suggested =
     REFUSED_EVENT_DISC @ mandate @ le_bytes 8 (unat amount) @ le_bytes 8 (unat nonce) @ [reason]
     @ le_bytes 8 (unat suggested)"

definition charge_event :: "mandate_accounts \<Rightarrow> mandate_accounts \<Rightarrow> u64 \<Rightarrow> u64 \<Rightarrow> int \<Rightarrow> bytes" where
  "charge_event acc acc' amount nonce now =
     (let e = charge_entry acc amount nonce now
      in if en_reason e = REASON_OK
         then paid_event (ca_mandate_key acc) amount nonce (m_spent (ca_mandate acc'))
         else refused_event (ca_mandate_key acc) amount nonce (en_reason e) (en_suggested_override e))"

lemma slice_at: "length pre = a \<Longrightarrow> length x = b - a \<Longrightarrow> a \<le> b \<Longrightarrow> slice (pre @ x @ post) a b = x"
  by (simp add: slice_def)

lemma event_heads: "PAID_EVENT_DISC \<noteq> TRADED_EVENT_DISC" "PAID_EVENT_DISC \<noteq> TRADE_REFUSED_EVENT_DISC"
  "REFUSED_EVENT_DISC \<noteq> PAID_EVENT_DISC" "REFUSED_EVENT_DISC \<noteq> TRADED_EVENT_DISC"
  "REFUSED_EVENT_DISC \<noteq> TRADE_REFUSED_EVENT_DISC"
  by (simp_all add: event_discs)

lemma length_event_discs: "length PAID_EVENT_DISC = 8" "length REFUSED_EVENT_DISC = 8"
  by (simp_all add: event_discs)

lemma paid_event_fields:
  assumes "length key = 32"
  shows "length (paid_event key a n s) = 64" "slice (paid_event key a n s) 0 8 = PAID_EVENT_DISC"
    "slice (paid_event key a n s) 8 40 = key" "u64_at (paid_event key a n s) 40 = int (unat a)"
    "u64_at (paid_event key a n s) 48 = int (unat n)"
  using assms by (simp_all add: paid_event_def slice_def u64_at_def length_event_discs)

lemma refused_event_fields:
  assumes "length key = 32"
  shows "length (refused_event key a n r s) = 65" "slice (refused_event key a n r s) 0 8 = REFUSED_EVENT_DISC"
    "slice (refused_event key a n r s) 8 40 = key" "u64_at (refused_event key a n r s) 40 = int (unat a)"
    "u64_at (refused_event key a n r s) 48 = int (unat n)" "byte_or_0 (refused_event key a n r s) 56 = unat r"
    "u64_at (refused_event key a n r s) 57 = int (unat s)"
  using assms by (simp_all add: refused_event_def slice_def u64_at_def length_event_discs byte_or_0_def nth_append)

lemmas event_fields = paid_event_fields refused_event_fields

text \<open>The decision of a charge, as an event reader should report it.\<close>

definition charge_decoded :: "(bytes \<Rightarrow> string) \<Rightarrow> mandate_accounts \<Rightarrow> u64 \<Rightarrow> u64 \<Rightarrow> int \<Rightarrow> DecodedEvent" where
  "charge_decoded pk acc amount nonce now =
     (let e = charge_entry acc amount nonce now
      in \<lparr>ev_kind = (if en_reason e = REASON_OK then dk_paid else dk_refused), ev_mandate = pk (ca_mandate_key acc),
          ev_amount = int (unat amount), ev_nonce = int (unat nonce), ev_reason = int (unat (en_reason e)),
          ev_suggestedOverride = int (unat (en_suggested_override e))\<rparr>)"

lemma paid_entry_fields: "en_reason (charge_entry acc a n t) = REASON_OK \<Longrightarrow> en_suggested_override (charge_entry acc a n t) = 0"
  by (simp add: charge_entry_def Let_def)

lemma uint_REASON_OK: "uint REASON_OK = 0"
  by (simp add: REASON_OK_def)

lemma sdk_decodes_charge_event:
  assumes "length (ca_mandate_key acc) = 32"
  shows "decodeEventBytes pk (charge_event acc acc' amount nonce now) = Some (charge_decoded pk acc amount nonce now)"
  using paid_entry_fields [of acc amount nonce now]
  by (simp add: charge_event_def charge_decoded_def decodeEventBytes_def event_fields [OF assms] event_heads Let_def uint_REASON_OK)

lemma idx_decodes_charge_event:
  assumes "length (ca_mandate_key acc) = 32"
    and "d = charge_decoded pk acc amount nonce now"
  shows "idx_decodeEventBytes pk (charge_event acc acc' amount nonce now) =
     Some \<lparr>ie_rule = None, ie_amountIn = None, ie_amountOut = None, ie_minOut = None, ie_kind = ev_kind d,
           ie_kindCode = (if ev_kind d = dk_paid then 1 else 2), ie_mandate = ev_mandate d, ie_amount = ev_amount d,
           ie_nonce = ev_nonce d, ie_reason = ev_reason d, ie_suggestedOverride = ev_suggestedOverride d\<rparr>"
  using paid_entry_fields [of acc amount nonce now]
  by (simp add: assms(2) charge_event_def charge_decoded_def idx_decodeEventBytes_def event_fields [OF assms(1)] event_heads
      Let_def uint_REASON_OK)

lemma app_decodes_charge_event:
  assumes "length (ca_mandate_key acc) = 32"
    and "d = charge_decoded pk acc amount nonce now"
  shows "app_decodeEventBytes signature (charge_event acc acc' amount nonce now) =
     Some (app_decision signature (if ev_kind d = dk_paid then 1 else 2) (ev_amount d) (ev_nonce d) (ev_reason d)
       (if ev_kind d = dk_paid then None else Some (ev_suggestedOverride d)))"
  using paid_entry_fields [of acc amount nonce now]
  by (simp add: assms(2) charge_event_def charge_decoded_def app_decodeEventBytes_def event_fields [OF assms(1)] event_heads
      Let_def uint_REASON_OK)

text \<open>The data payloads a program's own frames wrote, in order.\<close>

fun own_data :: "string \<Rightarrow> string \<Rightarrow> log_item \<Rightarrow> string list" where
  "own_data pid cur (Data b) = (if cur = pid then [b] else [])"
| "own_data pid cur (Invoke p items failure) = concat (map (own_data pid p) items)"
| "own_data pid cur _ = []"

definition b64_text :: "string \<Rightarrow> bool" where
  "b64_text b = (b \<noteq> [] \<and> list_all b64_char b)"

lemma PROGRAM_DATA_log: "PROGRAM_DATA (''Program log: '' @ m) = None"
  by (simp add: PROGRAM_DATA_def after_def)

lemma PROGRAM_DATA_data: "PROGRAM_DATA (''Program data: '' @ b) = (if b64_text b then Some b else None)"
  by (simp add: PROGRAM_DATA_def after_def b64_text_def)

lemma map_filter_append: "List.map_filter f (xs @ ys) = List.map_filter f xs @ List.map_filter f ys"
  by (simp add: List.map_filter_def)

lemma own_lines_data:
  "List.map_filter (\<lambda>line. case PROGRAM_DATA line of None \<Rightarrow> None | Some b \<Rightarrow> f b) (own_lines pid cur item)
     = List.map_filter (\<lambda>b. if b64_text b then f b else None) (own_data pid cur item)"
proof (induction item arbitrary: cur)
  case (Log m)
  then show ?case by (simp add: PROGRAM_DATA_log [simplified] List.map_filter_def)
next
  case (Data b)
  then show ?case using PROGRAM_DATA_data [of b] by (simp add: List.map_filter_def)
next
  case (Invoke p items failure)
  then show ?case by (induction items) (simp_all add: map_filter_append)
qed (simp_all add: List.map_filter_def)

definition transaction_logs :: "log_item list \<Rightarrow> string list" where
  "transaction_logs calls = concat (map (render 0 []) calls)"

fun is_call :: "log_item \<Rightarrow> bool" where
  "is_call (Invoke p items failure) = True"
| "is_call _ = False"

lemma is_call_iff: "is_call i \<longleftrightarrow> (\<exists>p items f. i = Invoke p items f)"
  by (cases i) simp_all

definition transaction_ok :: "log_item list \<Rightarrow> bool" where
  "transaction_ok calls = (calls \<noteq> [] \<and> list_all (\<lambda>i. item_ok i \<and> is_call i) calls)"

lemma transaction_framed:
  assumes "transaction_ok calls"
  shows "framed (transaction_logs calls)" "frames pid [] (transaction_logs calls) = concat (map (own_lines pid []) calls)"
proof -
  have inv: "list_all (\<lambda>i. item_ok i \<and> (\<exists>p items f. i = Invoke p items f)) calls"
    using assms by (simp add: transaction_ok_def is_call_iff)
  from assms obtain p items f more where calls: "calls = Invoke p items f # more" and "item_ok (Invoke p items f)"
    using inv by (cases calls) (auto simp: transaction_ok_def)
  then have "PROGRAM_INVOKE (LOG_PREFIX @ p @ '' invoke ['' @ nat_str 1 @ '']'') = Some p"
    by (intro invoke_line) simp
  then show "framed (transaction_logs calls)" by (simp add: framed_def transaction_logs_def calls)
  show "frames pid [] (transaction_logs calls) = concat (map (own_lines pid []) calls)"
    unfolding transaction_logs_def using inv by (rule frames_transaction)
qed

definition program_data :: "string \<Rightarrow> log_item list \<Rightarrow> string list" where
  "program_data pid calls = concat (map (own_data pid []) calls)"

lemma events_of_transaction:
  assumes "transaction_ok calls"
  shows "events_of_lines fromBase64 decode (sdk_linesForProgram (transaction_logs calls) pid) =
      List.map_filter (\<lambda>b. if b64_text b then decode (fromBase64 b) else None) (program_data pid calls)"
    "events_of_lines fromBase64 decode (idx_linesForProgram (transaction_logs calls) pid) =
      List.map_filter (\<lambda>b. if b64_text b then decode (fromBase64 b) else None) (program_data pid calls)"
proof -
  have "events_of_lines fromBase64 decode (concat (map (own_lines pid []) calls)) =
      List.map_filter (\<lambda>b. if b64_text b then decode (fromBase64 b) else None) (program_data pid calls)"
    unfolding program_data_def events_of_lines_def
    by (induction calls) (simp_all add: map_filter_append own_lines_data)
  then show "events_of_lines fromBase64 decode (sdk_linesForProgram (transaction_logs calls) pid) =
      List.map_filter (\<lambda>b. if b64_text b then decode (fromBase64 b) else None) (program_data pid calls)"
    "events_of_lines fromBase64 decode (idx_linesForProgram (transaction_logs calls) pid) =
      List.map_filter (\<lambda>b. if b64_text b then decode (fromBase64 b) else None) (program_data pid calls)"
    using transaction_framed [OF assms] by (simp_all add: sdk_linesForProgram_def idx_linesForProgram_def)
qed

section \<open>From the charge to the reported decision\<close>

text \<open>The transaction in which a charge ran: it did not fail, its logs are the calls', the program's own
  frames wrote one event, and the first charge instruction that names the mandate is the charge's.\<close>

definition carries_charge ::
  "(bytes \<Rightarrow> string) \<Rightarrow> (string \<Rightarrow> bytes) \<Rightarrow> TxView \<Rightarrow> string \<Rightarrow> log_item list \<Rightarrow> CompiledIx \<Rightarrow>
   mandate_accounts \<Rightarrow> mandate_accounts \<Rightarrow> u64 \<Rightarrow> u64 \<Rightarrow> int \<Rightarrow> bool" where
  "carries_charge pk fromBase64 tx pid calls ix acc acc' amount nonce now =
     (\<not> v_err tx \<and> transaction_ok calls \<and> v_logs tx = transaction_logs calls
      \<and> (case program_data pid calls of [b] \<Rightarrow> b64_text b \<and> fromBase64 b = charge_event acc acc' amount nonce now | _ \<Rightarrow> False)
      \<and> length (ca_mandate_key acc) = 32
      \<and> List.find (\<lambda>i. isChargeIx i \<and> 5 \<le> length (ci_accounts i) \<and> pk (ca_mandate_key acc) \<in> set (ci_accounts i))
           (v_instructions tx) = Some ix
      \<and> account_at ix 4 = pk (t_key (ca_destination acc)))"

lemma carried_counterparty:
  "carries_charge pk fromBase64 tx pid calls ix acc acc' amount nonce now \<Longrightarrow>
     counterpartyFromCharge tx (pk (ca_mandate_key acc)) = pk (t_key (ca_destination acc))"
  by (simp add: carries_charge_def counterpartyFromCharge_def not_less)

lemma carried_events:
  assumes "carries_charge pk fromBase64 tx pid calls ix acc acc' amount nonce now"
  shows "events_of_lines fromBase64 decode (sdk_linesForProgram (v_logs tx) pid) =
      (case decode (charge_event acc acc' amount nonce now) of None \<Rightarrow> [] | Some e \<Rightarrow> [e])"
    "events_of_lines fromBase64 decode (idx_linesForProgram (v_logs tx) pid) =
      (case decode (charge_event acc acc' amount nonce now) of None \<Rightarrow> [] | Some e \<Rightarrow> [e])"
  using assms
  by (auto simp: carries_charge_def events_of_transaction List.map_filter_def split: list.splits option.splits)

lemma charge_entry_view:
  "ring_key (entry_view pk (charge_entry acc amount nonce now)) =
     (int (unat amount), int (unat nonce), pk (t_key (ca_destination acc)),
      kind_text (ev_kind (charge_decoded pk acc amount nonce now)),
      ev_reason (charge_decoded pk acc amount nonce now), ev_suggestedOverride (charge_decoded pk acc amount nonce now))"
  by (simp add: ring_key_def entry_view_def charge_decoded_def charge_entry_def Let_def kindName_def KIND_NAME_def
      lookup_or_def kind_defs kind_text_def)

lemma carried_charge_reported:
  assumes "carries_charge pk fromBase64 tx pid calls ix acc acc' amount nonce now"
  shows "\<exists>d. decisionsFromTx pk fromBase64 tx pid (Some (pk (ca_mandate_key acc))) = [d]
      \<and> decision_key d = ring_key (entry_view pk (charge_entry acc amount nonce now))
      \<and> d_mandate d = pk (ca_mandate_key acc) \<and> d_signature d = v_signature tx"
    and "\<exists>d. fst (idx_decisionsFromTx pk fromBase64 tx pid (Some (pk (ca_mandate_key acc)))) = [d]
      \<and> decision_key d = ring_key (entry_view pk (charge_entry acc amount nonce now))
      \<and> d_mandate d = pk (ca_mandate_key acc) \<and> d_signature d = v_signature tx"
proof -
  have len: "length (ca_mandate_key acc) = 32" and ok: "\<not> v_err tx" using assms by (simp_all add: carries_charge_def)
  show "\<exists>d. decisionsFromTx pk fromBase64 tx pid (Some (pk (ca_mandate_key acc))) = [d]
      \<and> decision_key d = ring_key (entry_view pk (charge_entry acc amount nonce now))
      \<and> d_mandate d = pk (ca_mandate_key acc) \<and> d_signature d = v_signature tx"
    using ok carried_counterparty [OF assms] charge_entry_view [of pk acc amount nonce now]
    by (simp add: decisionsFromTx_def decodeEventsFromLogs_def sdk_source_def carried_events [OF assms]
        sdk_decodes_charge_event [OF len] filtered_def decision_key_def charge_decoded_def Let_def)
  show "\<exists>d. fst (idx_decisionsFromTx pk fromBase64 tx pid (Some (pk (ca_mandate_key acc)))) = [d]
      \<and> decision_key d = ring_key (entry_view pk (charge_entry acc amount nonce now))
      \<and> d_mandate d = pk (ca_mandate_key acc) \<and> d_signature d = v_signature tx"
    using ok carried_counterparty [OF assms] charge_entry_view [of pk acc amount nonce now]
    by (simp add: idx_decisionsFromTx_def idx_decodeEventsFromLogs_def carried_events [OF assms] Let_def
        idx_decodes_charge_event [OF len refl] filtered_def decision_key_def charge_decoded_def idx_event_decision_def)
qed


text \<open>A transaction that carries one charge of a mandate, by the entry it left.\<close>

definition carries_entry ::
  "(bytes \<Rightarrow> string) \<Rightarrow> (string \<Rightarrow> bytes) \<Rightarrow> string \<Rightarrow> pubkey \<Rightarrow> TxView \<Rightarrow> Entry \<Rightarrow> bool" where
  "carries_entry pk fromBase64 pid mandate tx e =
     (\<exists>calls ix acc acc' amount nonce now. carries_charge pk fromBase64 tx pid calls ix acc acc' amount nonce now
        \<and> ca_mandate_key acc = mandate \<and> e = charge_entry acc amount nonce now)"

definition indexed_history ::
  "(bytes \<Rightarrow> string) \<Rightarrow> (string \<Rightarrow> bytes) \<Rightarrow> string \<Rightarrow> string \<Rightarrow> TxView list \<Rightarrow> IdxDecision list" where
  "indexed_history pk fromBase64 pid mandate txs =
     concat (map (\<lambda>tx. fst (idx_decisionsFromTx pk fromBase64 tx pid (Some mandate))) txs)"

lemma history_keys:
  assumes "list_all2 (carries_entry pk fromBase64 pid mandate) txs es"
  shows "map decision_key (indexed_history pk fromBase64 pid (pk mandate) txs) = map (\<lambda>e. ring_key (entry_view pk e)) es"
  using assms
proof (induction txs es rule: list_all2_induct)
  case (Cons tx txs e es)
  from Cons.hyps(1) obtain calls ix acc acc' amount nonce now
    where c: "carries_charge pk fromBase64 tx pid calls ix acc acc' amount nonce now"
      and "ca_mandate_key acc = mandate" "e = charge_entry acc amount nonce now"
    by (auto simp: carries_entry_def)
  with carried_charge_reported(2) [OF c] Cons.IH show ?case by (auto simp: indexed_history_def)
qed (simp add: indexed_history_def)

lemma entry_is_decision:
  assumes "carries_entry pk fromBase64 pid mandate tx e"
  shows "r_kind (entry_view pk e) = 1 \<or> r_kind (entry_view pk e) = 2"
proof -
  have "en_kind (charge_entry acc amount nonce now) \<in> {KIND_PAID, KIND_REFUSED}" for acc amount nonce now
    by (simp add: charge_entry_def Let_def)
  with assms have "en_kind e \<in> {KIND_PAID, KIND_REFUSED}" by (auto simp: carries_entry_def)
  then show ?thesis by (auto simp: entry_view_def kind_defs)
qed

lemma carriesI:
  "carries_charge pk fromBase64 tx pid calls ix acc acc' amount nonce now \<Longrightarrow>
     carries_entry pk fromBase64 pid (ca_mandate_key acc) tx (charge_entry acc amount nonce now)"
  unfolding carries_entry_def by blast


section \<open>Witnesses\<close>

text \<open>The two charges of the example mandate: a refusal inside another program's call, which writes
  event data of its own, and a payment.\<close>

definition demo_pk :: "bytes \<Rightarrow> string" where
  "demo_pk b = ''K'' @ map (\<lambda>w. char_of (unat w)) (take 1 b)"

definition demo_fromBase64 :: "string \<Rightarrow> bytes" where
  "demo_fromBase64 s =
     (if s = ''AA=='' then charge_event demo_acc1 demo_acc2 50 5 1 else charge_event demo_acc3 demo_acc4 50 5 3)"

definition demo_ix :: CompiledIx where
  "demo_ix = \<lparr>ci_programId = ''Veto'', ci_accounts = [''A'', demo_pk (demo_key 9), ''L'', ''S'', demo_pk (demo_key 6)],
     ci_data = CHARGE_IX_DISC @ replicate 16 0\<rparr>"

definition demo_calls1 :: "log_item list" where
  "demo_calls1 = [Invoke ''Wrap'' [Data ''BB=='', Invoke ''Veto'' [Log ''VETO REFUSED'', Data ''AA==''] None, Data ''BB==''] None]"

definition demo_calls2 :: "log_item list" where
  "demo_calls2 = [Invoke ''Veto'' [Invoke ''Token'' [Log ''Transfer''] None, Data ''BB==''] None]"

definition demo_tx :: "log_item list \<Rightarrow> TxView" where
  "demo_tx calls = \<lparr>v_signature = ''sig'', v_slot = 1, v_blockTime = None, v_err = False, v_logs = transaction_logs calls,
     v_accountKeys = [], v_instructions = [demo_ix], v_header = None, v_staticKeyCount = 0, v_loadedWritableCount = 0\<rparr>"

lemma demo_carries:
  "carries_charge demo_pk demo_fromBase64 (demo_tx demo_calls1) ''Veto'' demo_calls1 demo_ix demo_acc1 demo_acc2 50 5 1"
  "carries_charge demo_pk demo_fromBase64 (demo_tx demo_calls2) ''Veto'' demo_calls2 demo_ix demo_acc3 demo_acc4 50 5 3"
proof -
  have ix: "isChargeIx demo_ix" "demo_pk (demo_key 9) \<in> set (ci_accounts demo_ix)" "length (ci_accounts demo_ix) = 5"
    "account_at demo_ix 4 = demo_pk (demo_key 6)"
    by (simp_all add: isChargeIx_def demo_ix_def CHARGE_IX_DISC_def slice_def account_at_def)
  have calls: "transaction_ok demo_calls1" "transaction_ok demo_calls2"
    "program_data ''Veto'' demo_calls1 = [''AA=='']" "program_data ''Veto'' demo_calls2 = [''BB=='']"
    by (simp_all add: transaction_ok_def demo_calls1_def demo_calls2_def pid_ok_def b58_char_def program_data_def)
  have keys: "ca_mandate_key demo_acc1 = demo_key 9" "ca_mandate_key demo_acc3 = demo_key 9"
    "t_key (ca_destination demo_acc1) = demo_key 6" "t_key (ca_destination demo_acc3) = demo_key 6"
    by (simp_all add: demo_acc0_def demo_acc1_def demo_acc2_def demo_acc3_def)
  show "carries_charge demo_pk demo_fromBase64 (demo_tx demo_calls1) ''Veto'' demo_calls1 demo_ix demo_acc1 demo_acc2 50 5 1"
    "carries_charge demo_pk demo_fromBase64 (demo_tx demo_calls2) ''Veto'' demo_calls2 demo_ix demo_acc3 demo_acc4 50 5 3"
    by (simp_all add: carries_charge_def demo_tx_def calls keys ix demo_fromBase64_def b64_text_def b64_char_def)
qed



section \<open>The app's reader\<close>

text \<open>The app decodes the event data of every line: of the transaction in which another program wrote
  a decision of its own making, it shows that decision, and the SDK and the indexer do not.\<close>

lemma not_data_line: "\<not> own_line line \<Longrightarrow> PROGRAM_DATA line = None"
  by (auto simp: own_line_def PROGRAM_DATA_def after_Some split: option.split)

lemma app_reads_foreign_event:
  assumes "pid_ok other" "other \<noteq> pid" "length key = 32" "b64_text b" "fromBase64 b = refused_event key a n r s"
  defines "calls \<equiv> [Invoke other [Data b] None]"
  shows "app_decodeEventsFromLogs fromBase64 signature (transaction_logs calls) =
      [app_decision signature 2 (int (unat a)) (int (unat n)) (int (unat r)) (Some (int (unat s)))]"
    and "decodeEventsFromLogs pk fromBase64 (transaction_logs calls) (Some pid) = []"
    and "idx_decodeEventsFromLogs pk fromBase64 (transaction_logs calls) (Some pid) = []"
proof -
  have frame: "PROGRAM_DATA (LOG_PREFIX @ other @ '' invoke [1]'') = None" "PROGRAM_DATA (LOG_PREFIX @ other @ '' success'') = None"
    using pid_line_not_own [OF assms(1)] by (auto intro!: not_data_line)
  have data: "PROGRAM_DATA (''Program data: '' @ b) = Some b" using PROGRAM_DATA_data [of b] assms(4) by argo
  have one: "nat_str 1 = ''1''" by code_simp
  have logs: "transaction_logs calls =
      [LOG_PREFIX @ other @ '' invoke [1]'', ''Program data: '' @ b, LOG_PREFIX @ other @ '' success'']"
    using one by (simp add: transaction_logs_def calls_def)
  show "app_decodeEventsFromLogs fromBase64 signature (transaction_logs calls) =
      [app_decision signature 2 (int (unat a)) (int (unat n)) (int (unat r)) (Some (int (unat s)))]"
    unfolding logs
    by (simp add: app_decodeEventsFromLogs_def events_of_lines_def List.map_filter_def frame [simplified] data [simplified] assms(5)
        app_decodeEventBytes_def event_fields [OF assms(3)] event_heads)
  have ok: "transaction_ok calls" and none: "program_data pid calls = []"
    using assms(1,2) by (simp_all add: calls_def transaction_ok_def program_data_def)
  show "decodeEventsFromLogs pk fromBase64 (transaction_logs calls) (Some pid) = []"
    "idx_decodeEventsFromLogs pk fromBase64 (transaction_logs calls) (Some pid) = []"
    by (simp_all add: decodeEventsFromLogs_def idx_decodeEventsFromLogs_def sdk_source_def events_of_transaction [OF ok] none
        List.map_filter_def)
qed

end
