(* ===== verification/Hold_Program.thy ===== *)
theory Hold_Program
  imports Hold
begin

text \<open>
  The other instructions of the Hold program (\<^verbatim>\<open>programs/veto/src/hold.rs\<close>): opening a vault,
  deposits, the execution of a held withdrawal, stopping, freezing and unfreezing, skipping the
  wait with both keys, recovery to the safe address, and changes of the rules. Each handler is a
  function from its accounts to an error or the changed accounts; the account constraints are those
  of \<^verbatim>\<open>programs/veto/src/lib.rs\<close>. The reachable vaults are an inductive relation on the vault, its
  ledger and the records written so far.
\<close>

section \<open>Rules\<close>

definition default_key :: pubkey where "default_key = replicate 32 0"

definition zero_pending :: PendingWithdrawal where
  "zero_pending = \<lparr>pw_id = 0, pw_amount = 0, pw_destination = default_key, pw_unlock_at = 0, pw_status = 0\<rparr>"

definition zero_change :: PendingChange where
  "zero_change = \<lparr>pc_active = False, pc_fields = 0, pc_big_share_bps = 0, pc_daily_limit = 0, pc_delay_secs = 0,
     pc_guardian = default_key, pc_safe_address = default_key, pc_effective_at = 0\<rparr>"

definition zero_entry :: HoldEntry where
  "zero_entry = \<lparr>he_ts = 0, he_amount = 0, he_destination = default_key, he_withdrawal_id = 0, he_kind = 0, he_reason = 0\<rparr>"

definition delay_allowed :: "int \<Rightarrow> bool" where
  "delay_allowed d \<longleftrightarrow> d = 24 * 60 * 60 \<or> d = 2 * (24 * 60 * 60) \<or> d = 3 * (24 * 60 * 60)"

definition require_rules :: "int \<Rightarrow> 16 word \<Rightarrow> pubkey \<Rightarrow> pubkey \<Rightarrow> pubkey \<Rightarrow> pubkey \<Rightarrow> hold_error option" where
  "require_rules delay_secs big_share_bps safe_address guardian owner vault =
     require_all
       [(delay_allowed delay_secs, DelayNotAllowed),
        ((ucast big_share_bps :: u64) \<le> 10000, ShareOutOfRange),
        (safe_address \<noteq> default_key, SafeAddressRequired),
        (safe_address \<noteq> vault, SafeAddressRequired),
        (guardian = default_key \<or> guardian \<noteq> owner, GuardianIsOwner)]"

section \<open>Opening and paying in\<close>

record InitVaultArgs =
  iv_vault_id :: u64
  iv_guardian :: pubkey
  iv_safe_address :: pubkey
  iv_daily_limit :: u64
  iv_delay_secs :: int
  iv_big_share_bps :: "16 word"

text \<open>\<open>fpa\<close> is \<open>find_program_address\<close>, which the \<open>init\<close> constraints call: an address and its bump. A
  new account starts as zero bytes.\<close>

definition opened_vault :: "(bytes list \<Rightarrow> pubkey \<times> u8) \<Rightarrow> hold_accounts \<Rightarrow> InitVaultArgs \<Rightarrow> HoldVault" where
  "opened_vault fpa acc args =
     \<lparr>hv_owner = ha_owner acc, hv_guardian = iv_guardian args, hv_safe_address = iv_safe_address args,
      hv_mint = ha_mint acc, hv_vault_token = t_key (ha_vault_token acc), hv_vault_id = iv_vault_id args,
      hv_daily_limit = iv_daily_limit args, hv_window_spent = 0, hv_window_start = 0,
      hv_delay_secs = iv_delay_secs args, hv_unfreeze_at = 0, hv_next_withdrawal_id = 1,
      hv_big_share_bps = iv_big_share_bps args, hv_frozen = False, hv_known_len = 0,
      hv_bump = snd (fpa [ascii ''hold'', ha_owner acc, le_bytes 8 (unat (iv_vault_id args))]),
      hv_token_bump = snd (fpa [ascii ''hold-token'', ha_vault_key acc]),
      hv_ledger_bump = snd (fpa [ascii ''hold-ledger'', ha_vault_key acc]),
      hv_known = replicate HOLD_KNOWN_CAPACITY default_key,
      hv_pending = replicate HOLD_PENDING_CAPACITY zero_pending, hv_change = zero_change,
      hv_daily_buckets = empty_buckets\<rparr>"

definition init_vault ::
  "(bytes list \<Rightarrow> pubkey \<times> u8) \<Rightarrow> hold_accounts \<Rightarrow> InitVaultArgs \<Rightarrow> int \<Rightarrow> hold_error + hold_accounts" where
  "init_vault fpa acc args now =
     (case require_all
        [(fst (fpa [ascii ''hold'', ha_owner acc, le_bytes 8 (unat (iv_vault_id args))]) = ha_vault_key acc, ConstraintSeeds),
         (fst (fpa [ascii ''hold-ledger'', ha_vault_key acc]) = ha_ledger_key acc, ConstraintSeeds),
         (fst (fpa [ascii ''hold-token'', ha_vault_key acc]) = t_key (ha_vault_token acc), ConstraintSeeds)] of
        Some e \<Rightarrow> Inl e
      | None \<Rightarrow>
          (case require_rules (iv_delay_secs args) (iv_big_share_bps args) (iv_safe_address args) (iv_guardian args)
                  (ha_owner acc) (ha_vault_key acc) of
             Some e \<Rightarrow> Inl e
           | None \<Rightarrow>
               Inr (acc\<lparr>ha_vault := opened_vault fpa acc args,
                 ha_vault_token := (ha_vault_token acc)\<lparr>t_mint := ha_mint acc, t_owner := ha_vault_key acc, t_amount := 0,
                   t_delegate := None, t_delegated_amount := 0, t_frozen := False\<rparr>,
                 ha_ledger := write_record \<lparr>hl_vault = ha_vault_key acc, hl_total = 0, hl_head = 0,
                     hl_bump = snd (fpa [ascii ''hold-ledger'', ha_vault_key acc]),
                     hl_entries = replicate HOLD_LEDGER_CAPACITY zero_entry\<rparr>
                   now 0 (iv_safe_address args) 0 0 0\<rparr>)))"

definition deposit :: "cpa \<Rightarrow> token_transfer \<Rightarrow> hold_accounts \<Rightarrow> u64 \<Rightarrow> int \<Rightarrow> hold_error + hold_accounts" where
  "deposit cpa xfer acc amount now =
     (let v = ha_vault acc; key = ha_vault_key acc in
      case require_all
        [(cpa (vault_seeds (ha_owner acc) v) = Some key, ConstraintSeeds),
         (hv_owner v = ha_owner acc, NotTheVaultOwner),
         (hv_mint v = ha_mint acc, HoldMintMismatch),
         (hv_vault_token v = t_key (ha_vault_token acc), VaultTokenMismatch),
         (cpa (ledger_seeds key v) = Some (ha_ledger_key acc), ConstraintSeeds),
         (t_mint (ha_source acc) = hv_mint v, HoldMintMismatch),
         (t_owner (ha_source acc) = ha_owner acc, HoldSourceNotOwned),
         (cpa (token_seeds key v) = Some (t_key (ha_vault_token acc)), ConstraintSeeds),
         (amount > 0, PositiveAmountRequired)] of
        Some e \<Rightarrow> Inl e
      | None \<Rightarrow>
          (case xfer (ha_source acc) (ha_vault_token acc) amount of
             None \<Rightarrow> Inl HoldTransferFailed
           | Some (src, tok) \<Rightarrow>
               Inr (acc\<lparr>ha_source := src, ha_vault_token := tok,
                 ha_ledger := write_record (ha_ledger acc) now amount key 0 1 0\<rparr>)))"

section \<open>Paying a held withdrawal\<close>

definition find_pending :: "HoldVault \<Rightarrow> u64 \<Rightarrow> hold_error + nat" where
  "find_pending v wid =
     (case position (\<lambda>row. pw_status row = 1 \<and> pw_id row = wid) (hv_pending v) of
        Some index \<Rightarrow> Inr index | None \<Rightarrow> Inl WithdrawalNotPending)"

definition remember :: "HoldVault \<Rightarrow> pubkey \<Rightarrow> HoldVault" where
  "remember v destination =
     (if is_known v destination then v
      else
        let len = unat (hv_known_len v) in
        if len \<ge> HOLD_KNOWN_CAPACITY then v
        else v\<lparr>hv_known := (hv_known v)[len := destination],
               hv_known_len := (if unat (hv_known_len v) < 255 then hv_known_len v + 1 else 255)\<rparr>)"

definition clear_row :: "HoldVault \<Rightarrow> nat \<Rightarrow> HoldVault" where
  "clear_row v index = v\<lparr>hv_pending := (hv_pending v)[index := zero_pending]\<rparr>"

definition pay_row ::
  "cpa \<Rightarrow> token_transfer \<Rightarrow> hold_accounts \<Rightarrow> nat \<Rightarrow> u64 \<Rightarrow> u8 \<Rightarrow> int \<Rightarrow> hold_error + hold_accounts" where
  "pay_row cpa xfer acc index wid kind now =
     (let row = hv_pending (ha_vault acc) ! index;
          v1 = (ha_vault acc)\<lparr>hv_daily_buckets := record_release (hv_daily_buckets (ha_vault acc)) (pw_amount row) now\<rparr>
      in case transfer_out_parts cpa xfer (acc\<lparr>ha_vault := v1\<rparr>) (pw_amount row) of
           Inl e \<Rightarrow> Inl e
         | Inr (src, dst) \<Rightarrow>
             Inr (acc\<lparr>ha_vault := clear_row (remember v1 (pw_destination row)) index,
               ha_vault_token := src, ha_destination := dst,
               ha_ledger := write_record (ha_ledger acc) now (pw_amount row) (pw_destination row) wid kind 0\<rparr>))"

definition execute_constraints :: "cpa \<Rightarrow> hold_accounts \<Rightarrow> (bool \<times> hold_error) list" where
  "execute_constraints cpa acc =
     (let v = ha_vault acc; key = ha_vault_key acc in
        [(cpa (vault_seeds (hv_owner v) v) = Some key, ConstraintSeeds),
         (hv_mint v = ha_mint acc, HoldMintMismatch),
         (hv_vault_token v = t_key (ha_vault_token acc), VaultTokenMismatch),
         (cpa (ledger_seeds key v) = Some (ha_ledger_key acc), ConstraintSeeds),
         (cpa (token_seeds key v) = Some (t_key (ha_vault_token acc)), ConstraintSeeds),
         (t_owner (ha_vault_token acc) = key, BadVaultAuthority),
         (t_mint (ha_destination acc) = hv_mint v, HoldMintMismatch),
         (t_owner (ha_destination acc) \<noteq> key, DestinationIsVault)])"

definition execute :: "cpa \<Rightarrow> token_transfer \<Rightarrow> hold_accounts \<Rightarrow> u64 \<Rightarrow> int \<Rightarrow> hold_error + hold_accounts" where
  "execute cpa xfer acc wid now =
     (case require_all (execute_constraints cpa acc) of
        Some e \<Rightarrow> Inl e
      | None \<Rightarrow>
          (case find_pending (ha_vault acc) wid of
             Inl e \<Rightarrow> Inl e
           | Inr index \<Rightarrow>
               let row = hv_pending (ha_vault acc) ! index in
               (case require_all
                  [(\<not> hv_frozen (ha_vault acc), VaultFrozen),
                   (now \<ge> pw_unlock_at row, TooEarly),
                   (t_key (ha_destination acc) = pw_destination row, DestinationMismatch),
                   (t_amount (ha_vault_token acc) \<ge> pw_amount row, HoldInsufficientFunds)] of
                  Some e \<Rightarrow> Inl e
                | None \<Rightarrow> pay_row cpa xfer acc index wid 2 now)))"

definition skip :: "cpa \<Rightarrow> token_transfer \<Rightarrow> hold_accounts \<Rightarrow> u64 \<Rightarrow> int \<Rightarrow> hold_error + hold_accounts" where
  "skip cpa xfer acc wid now =
     (let v = ha_vault acc in
      case require_all
        ([(cpa (vault_seeds (ha_owner acc) v) = Some (ha_vault_key acc), ConstraintSeeds),
          (hv_owner v = ha_owner acc, NotTheVaultOwner)] @ tl (execute_constraints cpa acc) @
         [(hv_guardian v \<noteq> default_key, BothKeysRequired),
          (ha_guardian acc = Some (hv_guardian v), NotTheGuardian),
          (ha_guardian acc \<noteq> Some (ha_owner acc), BothKeysRequired),
          (\<not> hv_frozen v, VaultFrozen)]) of
        Some e \<Rightarrow> Inl e
      | None \<Rightarrow>
          (case find_pending v wid of
             Inl e \<Rightarrow> Inl e
           | Inr index \<Rightarrow>
               let row = hv_pending v ! index in
               (case require_all
                  [(t_key (ha_destination acc) = pw_destination row, DestinationMismatch),
                   (t_amount (ha_vault_token acc) \<ge> pw_amount row, HoldInsufficientFunds)] of
                  Some e \<Rightarrow> Inl e
                | None \<Rightarrow> pay_row cpa xfer acc index wid 7 now)))"

section \<open>Stopping, freezing, recovering\<close>

definition authority_constraints :: "cpa \<Rightarrow> hold_accounts \<Rightarrow> (bool \<times> hold_error) list" where
  "authority_constraints cpa acc =
     (let v = ha_vault acc in
        [(cpa (vault_seeds (hv_owner v) v) = Some (ha_vault_key acc), ConstraintSeeds),
         (ha_owner acc = hv_owner v \<or> ha_owner acc = hv_guardian v, NotOwnerOrGuardian),
         (cpa (ledger_seeds (ha_vault_key acc) v) = Some (ha_ledger_key acc), ConstraintSeeds)])"

definition stop :: "cpa \<Rightarrow> hold_accounts \<Rightarrow> u64 \<Rightarrow> int \<Rightarrow> hold_error + hold_accounts" where
  "stop cpa acc wid now =
     (case require_all (authority_constraints cpa acc) of
        Some e \<Rightarrow> Inl e
      | None \<Rightarrow>
          (case find_pending (ha_vault acc) wid of
             Inl e \<Rightarrow> Inl e
           | Inr index \<Rightarrow>
               let row = hv_pending (ha_vault acc) ! index in
               Inr (acc\<lparr>ha_vault := clear_row (ha_vault acc) index,
                 ha_ledger := write_record (ha_ledger acc) now (pw_amount row) (pw_destination row) wid 4 0\<rparr>)))"

definition freeze :: "cpa \<Rightarrow> hold_accounts \<Rightarrow> int \<Rightarrow> hold_error + hold_accounts" where
  "freeze cpa acc now =
     (case require_all (authority_constraints cpa acc @ [(\<not> hv_frozen (ha_vault acc), VaultFrozen)]) of
        Some e \<Rightarrow> Inl e
      | None \<Rightarrow>
          Inr (acc\<lparr>ha_vault := (ha_vault acc)\<lparr>hv_frozen := True\<rparr>,
            ha_ledger := write_record (ha_ledger acc) now 0 (ha_owner acc) 0 5 0\<rparr>))"

definition finish_unfreeze :: "hold_accounts \<Rightarrow> int \<Rightarrow> hold_accounts" where
  "finish_unfreeze acc now =
     acc\<lparr>ha_vault := (ha_vault acc)\<lparr>hv_frozen := False, hv_unfreeze_at := 0\<rparr>,
         ha_ledger := write_record (ha_ledger acc) now 0 default_key 0 6 0\<rparr>"

definition owner_constraints :: "cpa \<Rightarrow> hold_accounts \<Rightarrow> (bool \<times> hold_error) list" where
  "owner_constraints cpa acc =
     (let v = ha_vault acc in
        [(cpa (vault_seeds (ha_owner acc) v) = Some (ha_vault_key acc), ConstraintSeeds),
         (hv_owner v = ha_owner acc, NotTheVaultOwner),
         (cpa (ledger_seeds (ha_vault_key acc) v) = Some (ha_ledger_key acc), ConstraintSeeds)])"

definition unfreeze :: "cpa \<Rightarrow> hold_accounts \<Rightarrow> int \<Rightarrow> hold_error + hold_accounts" where
  "unfreeze cpa acc now =
     (let v = ha_vault acc in
      case require_all (owner_constraints cpa acc @ [(hv_frozen v, NotFrozen)]) of
        Some e \<Rightarrow> Inl e
      | None \<Rightarrow>
          (case ha_guardian acc of
             Some guardian \<Rightarrow>
               (case require_all
                  [(hv_guardian v \<noteq> default_key, NotTheGuardian),
                   (guardian = hv_guardian v, NotTheGuardian),
                   (guardian \<noteq> ha_owner acc, BothKeysRequired)] of
                  Some e \<Rightarrow> Inl e
                | None \<Rightarrow> Inr (finish_unfreeze acc now))
           | None \<Rightarrow>
               if \<not> hv_guardian v = default_key then Inl BothKeysRequired
               else if hv_unfreeze_at v = 0 then
                 (case checked_add_i64 now (hv_delay_secs v) of
                    None \<Rightarrow> Inl HoldMathOverflow
                  | Some effective_at \<Rightarrow>
                      Inr (acc\<lparr>ha_vault := v\<lparr>hv_unfreeze_at := effective_at\<rparr>,
                        ha_ledger := write_record (ha_ledger acc) now 0 default_key 0 13 0\<rparr>))
               else if \<not> now \<ge> hv_unfreeze_at v then Inl UnfreezeNotReady
               else Inr (finish_unfreeze acc now)))"

definition recover :: "cpa \<Rightarrow> token_transfer \<Rightarrow> hold_accounts \<Rightarrow> int \<Rightarrow> hold_error + hold_accounts" where
  "recover cpa xfer acc now =
     (let v = ha_vault acc; key = ha_vault_key acc; amount = t_amount (ha_vault_token acc);
          v1 = v\<lparr>hv_pending := map (\<lambda>_. zero_pending) (hv_pending v)\<rparr>
      in case require_all
        [(cpa (vault_seeds (hv_owner v) v) = Some key, ConstraintSeeds),
         (hv_mint v = ha_mint acc, HoldMintMismatch),
         (hv_vault_token v = t_key (ha_vault_token acc), VaultTokenMismatch),
         (ha_owner acc = hv_owner v \<or> ha_owner acc = hv_guardian v, NotOwnerOrGuardian),
         (cpa (ledger_seeds key v) = Some (ha_ledger_key acc), ConstraintSeeds),
         (cpa (token_seeds key v) = Some (t_key (ha_vault_token acc)), ConstraintSeeds),
         (t_owner (ha_vault_token acc) = key, BadVaultAuthority),
         (t_mint (ha_destination acc) = hv_mint v, HoldMintMismatch),
         (t_owner (ha_destination acc) = hv_safe_address v, NotTheSafeAddress),
         (t_owner (ha_destination acc) \<noteq> key, DestinationIsVault),
         (amount > 0, NothingToRecover),
         (t_owner (ha_destination acc) = hv_safe_address v, NotTheSafeAddress)] of
        Some e \<Rightarrow> Inl e
      | None \<Rightarrow>
          (case transfer_out_parts cpa xfer (acc\<lparr>ha_vault := v1\<rparr>) amount of
             Inl e \<Rightarrow> Inl e
           | Inr (src, dst) \<Rightarrow>
               Inr (acc\<lparr>ha_vault := v1, ha_vault_token := src, ha_destination := dst,
                 ha_ledger := write_record (ha_ledger acc) now amount (t_key (ha_destination acc)) 0 8 0\<rparr>)))"

section \<open>Changes of the rules\<close>

record HoldChange =
  hc_daily_limit :: u64
  hc_delay_secs :: int
  hc_big_share_bps :: "16 word"
  hc_guardian :: pubkey
  hc_safe_address :: pubkey

text \<open>Which fields a proposal tightens and which it loosens, as bits: 1 daily limit, 2 delay, 4 share,
  8 guardian, 16 safe address.\<close>

definition tighten_bits :: "HoldVault \<Rightarrow> HoldChange \<Rightarrow> u8" where
  "tighten_bits v c =
     (if hc_daily_limit c < hv_daily_limit v then 1 else 0) OR
     (if hc_delay_secs c > hv_delay_secs v then 2 else 0) OR
     (if hc_big_share_bps c < hv_big_share_bps v then 4 else 0) OR
     (if hc_guardian c \<noteq> hv_guardian v \<and> hv_guardian v = default_key \<and> hc_guardian c \<noteq> default_key then 8 else 0)"

definition loosen_bits :: "HoldVault \<Rightarrow> HoldChange \<Rightarrow> u8" where
  "loosen_bits v c =
     (if \<not> hc_daily_limit c < hv_daily_limit v \<and> hc_daily_limit c > hv_daily_limit v then 1 else 0) OR
     (if \<not> hc_delay_secs c > hv_delay_secs v \<and> hc_delay_secs c < hv_delay_secs v then 2 else 0) OR
     (if \<not> hc_big_share_bps c < hv_big_share_bps v \<and> hc_big_share_bps c > hv_big_share_bps v then 4 else 0) OR
     (if hc_guardian c \<noteq> hv_guardian v \<and> \<not> (hv_guardian v = default_key \<and> hc_guardian c \<noteq> default_key) then 8 else 0) OR
     (if hc_safe_address c \<noteq> hv_safe_address v then 16 else 0)"

definition tightened :: "HoldVault \<Rightarrow> HoldChange \<Rightarrow> u8 \<Rightarrow> HoldVault" where
  "tightened v c bits =
     v\<lparr>hv_daily_limit := (if bits AND 1 \<noteq> 0 then hc_daily_limit c else hv_daily_limit v),
       hv_delay_secs := (if bits AND 2 \<noteq> 0 then hc_delay_secs c else hv_delay_secs v),
       hv_big_share_bps := (if bits AND 4 \<noteq> 0 then hc_big_share_bps c else hv_big_share_bps v),
       hv_guardian := (if bits AND 8 \<noteq> 0 then hc_guardian c else hv_guardian v)\<rparr>"

definition proposed_change :: "HoldChange \<Rightarrow> u8 \<Rightarrow> int \<Rightarrow> PendingChange" where
  "proposed_change c bits effective_at =
     \<lparr>pc_active = True, pc_fields = bits, pc_big_share_bps = hc_big_share_bps c, pc_daily_limit = hc_daily_limit c,
      pc_delay_secs = hc_delay_secs c, pc_guardian = hc_guardian c, pc_safe_address = hc_safe_address c,
      pc_effective_at = effective_at\<rparr>"

definition propose_change :: "cpa \<Rightarrow> hold_accounts \<Rightarrow> HoldChange \<Rightarrow> int \<Rightarrow> hold_error + hold_accounts" where
  "propose_change cpa acc c now =
     (case require_all (owner_constraints cpa acc) of
        Some e \<Rightarrow> Inl e
      | None \<Rightarrow>
          (case require_rules (hc_delay_secs c) (hc_big_share_bps c) (hc_safe_address c) (hc_guardian c)
                  (ha_owner acc) (ha_vault_key acc) of
             Some e \<Rightarrow> Inl e
           | None \<Rightarrow>
               let v = ha_vault acc; tighten = tighten_bits v c; loosen = loosen_bits v c in
               (case require_all
                  [(tighten \<noteq> 0 \<or> loosen \<noteq> 0, ChangeUnchanged),
                   (loosen = 0 \<or> \<not> pc_active (hv_change v), ChangeAlreadyPending)] of
                  Some e \<Rightarrow> Inl e
                | None \<Rightarrow>
                    let v1 = tightened v c tighten;
                        l1 = (if tighten \<noteq> 0 then write_record (ha_ledger acc) now 0 default_key 0 10 tighten
                              else ha_ledger acc)
                    in if loosen = 0 then Inr (acc\<lparr>ha_vault := v1, ha_ledger := l1\<rparr>)
                       else (case checked_add_i64 now (hv_delay_secs v1) of
                               None \<Rightarrow> Inl HoldMathOverflow
                             | Some effective_at \<Rightarrow>
                                 Inr (acc\<lparr>ha_vault := v1\<lparr>hv_change := proposed_change c loosen effective_at\<rparr>,
                                   ha_ledger := write_record l1 now 0 (hc_safe_address c) 0 9 loosen\<rparr>)))))"

definition changed :: "HoldVault \<Rightarrow> HoldVault" where
  "changed v =
     (let p = hv_change v; bits = pc_fields p in
      v\<lparr>hv_daily_limit := (if bits AND 1 \<noteq> 0 then pc_daily_limit p else hv_daily_limit v),
        hv_delay_secs := (if bits AND 2 \<noteq> 0 then pc_delay_secs p else hv_delay_secs v),
        hv_big_share_bps := (if bits AND 4 \<noteq> 0 then pc_big_share_bps p else hv_big_share_bps v),
        hv_guardian := (if bits AND 8 \<noteq> 0 then pc_guardian p else hv_guardian v),
        hv_safe_address := (if bits AND 16 \<noteq> 0 then pc_safe_address p else hv_safe_address v),
        hv_change := zero_change\<rparr>)"

definition apply_change :: "cpa \<Rightarrow> hold_accounts \<Rightarrow> int \<Rightarrow> hold_error + hold_accounts" where
  "apply_change cpa acc now =
     (let v = ha_vault acc; p = hv_change v; bits = pc_fields p in
      case require_all
        [(cpa (vault_seeds (hv_owner v) v) = Some (ha_vault_key acc), ConstraintSeeds),
         (cpa (ledger_seeds (ha_vault_key acc) v) = Some (ha_ledger_key acc), ConstraintSeeds),
         (pc_active p, NoPendingChange),
         (now \<ge> pc_effective_at p, ChangeNotReady),
         (bits AND 2 = 0 \<or> delay_allowed (pc_delay_secs p), DelayNotAllowed),
         (bits AND 4 = 0 \<or> (ucast (pc_big_share_bps p) :: u64) \<le> 10000, ShareOutOfRange),
         (bits AND 8 = 0 \<or> pc_guardian p = default_key \<or> pc_guardian p \<noteq> hv_owner v, GuardianIsOwner),
         (bits AND 16 = 0 \<or> pc_safe_address p \<noteq> default_key, SafeAddressRequired),
         (bits AND 16 = 0 \<or> pc_safe_address p \<noteq> ha_vault_key acc, SafeAddressRequired)] of
        Some e \<Rightarrow> Inl e
      | None \<Rightarrow>
          Inr (acc\<lparr>ha_vault := changed v,
            ha_ledger := write_record (ha_ledger acc) now 0 (pc_safe_address p) 0 10 bits\<rparr>))"

definition cancel_change :: "cpa \<Rightarrow> hold_accounts \<Rightarrow> int \<Rightarrow> hold_error + hold_accounts" where
  "cancel_change cpa acc now =
     (case require_all (authority_constraints cpa acc @ [(pc_active (hv_change (ha_vault acc)), NoPendingChange)]) of
        Some e \<Rightarrow> Inl e
      | None \<Rightarrow>
          Inr (acc\<lparr>ha_vault := (ha_vault acc)\<lparr>hv_change := zero_change\<rparr>,
            ha_ledger := write_record (ha_ledger acc) now 0 default_key 0 11 0\<rparr>))"

section \<open>Calls and reachable vaults\<close>

datatype hold_ix =
    IxDeposit u64 | IxWithdraw u64 | IxExecute u64 | IxStop u64 | IxFreeze | IxUnfreeze | IxSkip u64
  | IxRecover | IxProposeChange HoldChange | IxApplyChange | IxCancelChange

fun hold_call :: "cpa \<Rightarrow> token_transfer \<Rightarrow> hold_accounts \<Rightarrow> hold_ix \<Rightarrow> int \<Rightarrow> hold_error + hold_accounts" where
  "hold_call cpa xfer acc (IxDeposit amount) now = deposit cpa xfer acc amount now"
| "hold_call cpa xfer acc (IxWithdraw amount) now = withdraw cpa xfer acc amount now"
| "hold_call cpa xfer acc (IxExecute wid) now = execute cpa xfer acc wid now"
| "hold_call cpa xfer acc (IxStop wid) now = stop cpa acc wid now"
| "hold_call cpa xfer acc IxFreeze now = freeze cpa acc now"
| "hold_call cpa xfer acc IxUnfreeze now = unfreeze cpa acc now"
| "hold_call cpa xfer acc (IxSkip wid) now = skip cpa xfer acc wid now"
| "hold_call cpa xfer acc IxRecover now = recover cpa xfer acc now"
| "hold_call cpa xfer acc (IxProposeChange c) now = propose_change cpa acc c now"
| "hold_call cpa xfer acc IxApplyChange now = apply_change cpa acc now"
| "hold_call cpa xfer acc IxCancelChange now = cancel_change cpa acc now"

text \<open>The records a call added, read from the ledger before and after it.\<close>

definition written :: "HoldLedger \<Rightarrow> HoldLedger \<Rightarrow> HoldEntry list" where
  "written l l' =
     map (\<lambda>i. hl_entries l' ! ((unat (hl_head l) + i) mod HOLD_LEDGER_CAPACITY))
       [0..<(unat (hl_head l') + HOLD_LEDGER_CAPACITY - unat (hl_head l)) mod HOLD_LEDGER_CAPACITY]"

inductive hold_reach :: "cpa \<Rightarrow> token_transfer \<Rightarrow> HoldVault \<Rightarrow> HoldLedger \<Rightarrow> HoldEntry list \<Rightarrow> int \<Rightarrow> bool"
  for cpa xfer where
  opened: "init_vault fpa acc args now = Inr acc' \<Longrightarrow>
     hold_reach cpa xfer (ha_vault acc') (ha_ledger acc') [hl_entries (ha_ledger acc') ! 0] now"
| called: "hold_reach cpa xfer (ha_vault acc) (ha_ledger acc) es before \<Longrightarrow> before \<le> now \<Longrightarrow>
     hold_call cpa xfer acc ix now = Inr acc' \<Longrightarrow>
     hold_reach cpa xfer (ha_vault acc') (ha_ledger acc') (es @ written (ha_ledger acc) (ha_ledger acc')) now"

end
