(* ===== verification/Hold_Safety.thy ===== *)
theory Hold_Safety
  imports Hold_Program
begin

text \<open>
  What every reachable Hold vault satisfies, and what follows for its money: a payment by the owner
  alone goes to an account that was paid before after a wait, a held withdrawal is paid only after
  its wait and only while nobody stopped it, rules loosen only after a wait, every token that leaves
  is recorded, and a held withdrawal can be paid once its wait is over.
\<close>

section \<open>Records\<close>

definition ledger_ok :: "HoldLedger \<Rightarrow> bool" where
  "ledger_ok l \<longleftrightarrow> length (hl_entries l) = HOLD_LEDGER_CAPACITY \<and> unat (hl_head l) < HOLD_LEDGER_CAPACITY"

abbreviation hentry :: "int \<Rightarrow> u64 \<Rightarrow> pubkey \<Rightarrow> u64 \<Rightarrow> u8 \<Rightarrow> u8 \<Rightarrow> HoldEntry" where
  "hentry ts amount destination wid kind reason \<equiv>
     \<lparr>he_ts = ts, he_amount = amount, he_destination = destination, he_withdrawal_id = wid, he_kind = kind, he_reason = reason\<rparr>"

lemma record_head:
  "ledger_ok l \<Longrightarrow> unat (hl_head (hold_record l e)) = Suc (unat (hl_head l)) mod 32"
  by (simp add: hold_record_def ledger_ok_def HOLD_LEDGER_CAPACITY_def Let_def unat_of_nat)

lemma record_entries:
  "ledger_ok l \<Longrightarrow> hl_entries (hold_record l e) = (hl_entries l)[unat (hl_head l) := e]"
  by (simp add: hold_record_def ledger_ok_def HOLD_LEDGER_CAPACITY_def Let_def)

lemma ledger_ok_record [simp]: "ledger_ok l \<Longrightarrow> ledger_ok (hold_record l e)"
  using record_head [of l e] record_entries [of l e] by (simp add: ledger_ok_def HOLD_LEDGER_CAPACITY_def)

lemma ring_next:
  fixes h :: nat
  assumes "h < 32"
  shows "(Suc h mod 32 + 32 - h) mod 32 = 1" "(Suc (Suc h mod 32) mod 32 + 32 - h) mod 32 = 2"
    "Suc h mod 32 \<noteq> h" "(h + 1) mod 32 = Suc h mod 32"
proof -
  consider "h = 31" | "h = 30" | "h < 30" using assms by linarith
  then show "(Suc h mod 32 + 32 - h) mod 32 = 1" "(Suc (Suc h mod 32) mod 32 + 32 - h) mod 32 = 2"
    by (cases; simp add: Suc_diff_le)+
  show "Suc h mod 32 \<noteq> h" "(h + 1) mod 32 = Suc h mod 32" using assms by (cases "h = 31"; simp)+
qed

lemma written_one: "ledger_ok l \<Longrightarrow> written l (hold_record l e) = [e]"
  using ring_next(1) [of "unat (hl_head l)"]
  by (simp add: written_def record_head record_entries) (simp add: ledger_ok_def HOLD_LEDGER_CAPACITY_def)

lemma written_two: "ledger_ok l \<Longrightarrow> written l (hold_record (hold_record l e) f) = [e, f]"
proof -
  assume ok: "ledger_ok l"
  have h: "unat (hl_head l) < 32" "length (hl_entries l) = 32" using ok by (simp_all add: ledger_ok_def HOLD_LEDGER_CAPACITY_def)
  have len: "(unat (hl_head (hold_record (hold_record l e) f)) + 32 - unat (hl_head l)) mod 32 = 2"
    using ring_next(2) [OF h(1)] ok by (simp add: record_head)
  have upt: "[0..<2] = [0, 1 :: nat]" by (simp add: numeral_2_eq_2)
  show ?thesis
    unfolding written_def HOLD_LEDGER_CAPACITY_def len upt
    using ok h ring_next(3,4) [OF h(1)] by (simp add: record_entries record_head)
qed

section \<open>What the records say\<close>

text \<open>\<open>closes wid e\<close>: the record ends the wait of withdrawal \<open>wid\<close>, being its payment, its stop, its skip or
  a recovery, which clears every waiting withdrawal.\<close>

definition closes :: "u64 \<Rightarrow> HoldEntry \<Rightarrow> bool" where
  "closes wid e \<longleftrightarrow> he_kind e \<in> {2, 4, 7} \<and> he_withdrawal_id e = wid \<or> he_kind e = 8"

definition waiting :: "HoldEntry list \<Rightarrow> u64 \<Rightarrow> u64 \<Rightarrow> pubkey \<Rightarrow> int \<Rightarrow> bool" where
  "waiting es wid amount destination until \<longleftrightarrow>
     (\<exists>earlier e later. es = earlier @ e # later \<and> he_kind e = 3 \<and> he_withdrawal_id e = wid \<and> he_amount e = amount \<and>
        he_destination e = destination \<and> he_ts e + 24 * 60 * 60 \<le> until \<and> (\<forall>f \<in> set later. \<not> closes wid f))"

definition paid_after_wait :: "HoldEntry list \<Rightarrow> pubkey \<Rightarrow> bool" where
  "paid_after_wait es destination \<longleftrightarrow>
     (\<exists>e \<in> set es. (he_kind e = 2 \<or> he_kind e = 7) \<and> he_withdrawal_id e \<noteq> 0 \<and> he_destination e = destination)"

definition justified :: "HoldEntry list \<Rightarrow> HoldEntry \<Rightarrow> bool" where
  "justified es e \<longleftrightarrow>
     (he_kind e = 2 \<longrightarrow> he_withdrawal_id e = 0 \<longrightarrow> paid_after_wait es (he_destination e)) \<and>
     (he_kind e = 2 \<longrightarrow> he_withdrawal_id e \<noteq> 0 \<longrightarrow>
        waiting es (he_withdrawal_id e) (he_amount e) (he_destination e) (he_ts e)) \<and>
     (he_kind e = 7 \<longrightarrow> he_withdrawal_id e \<noteq> 0 \<and>
        (\<exists>until. waiting es (he_withdrawal_id e) (he_amount e) (he_destination e) until))"

definition sound :: "HoldEntry list \<Rightarrow> bool" where
  "sound es \<longleftrightarrow> (\<forall>i < length es. justified (take i es) (es ! i))"

lemma sound_snoc: "sound (es @ [e]) \<longleftrightarrow> sound es \<and> justified es e"
  by (auto simp: sound_def nth_append less_Suc_eq all_conj_distrib)

lemma sound_other: "he_kind e \<noteq> 2 \<Longrightarrow> he_kind e \<noteq> 7 \<Longrightarrow> sound (es @ [e]) \<longleftrightarrow> sound es"
  by (simp add: sound_snoc justified_def)

lemma waiting_snoc:
  assumes "waiting es wid amount d u" "\<not> closes wid e"
  shows "waiting (es @ [e]) wid amount d u"
proof -
  obtain earlier h later where "es = earlier @ h # later" "he_kind h = 3" "he_withdrawal_id h = wid" "he_amount h = amount"
      "he_destination h = d" "he_ts h + 24 * 60 * 60 \<le> u" "\<forall>f \<in> set later. \<not> closes wid f"
    using assms(1) by (auto simp: waiting_def)
  then show ?thesis
    unfolding waiting_def using assms(2) by (intro exI [of _ earlier] exI [of _ h] exI [of _ "later @ [e]"]) auto
qed

lemma waiting_mono: "waiting es wid amount d u \<Longrightarrow> u \<le> t \<Longrightarrow> waiting es wid amount d t"
  by (force simp: waiting_def)

lemma waiting_held: "ts + 24 * 60 * 60 \<le> u \<Longrightarrow> waiting (es @ [hentry ts amount d wid 3 r]) wid amount d u"
  unfolding waiting_def by (intro exI [of _ es] exI [of _ "hentry ts amount d wid 3 r"] exI [of _ "[]"]) simp

lemma paid_after_wait_snoc: "paid_after_wait es d \<Longrightarrow> paid_after_wait (es @ [e]) d"
  by (auto simp: paid_after_wait_def)

section \<open>The invariant\<close>

definition rows_ok :: "HoldVault \<Rightarrow> HoldEntry list \<Rightarrow> bool" where
  "rows_ok v es \<longleftrightarrow>
     length (hv_pending v) = HOLD_PENDING_CAPACITY \<and> hv_next_withdrawal_id v \<noteq> 0 \<and>
     (\<forall>i < length (hv_pending v). pw_status (hv_pending v ! i) = 0 \<or> pw_status (hv_pending v ! i) = 1) \<and>
     (\<forall>i < length (hv_pending v). pw_status (hv_pending v ! i) = 1 \<longrightarrow>
        pw_id (hv_pending v ! i) \<noteq> 0 \<and> pw_id (hv_pending v ! i) < hv_next_withdrawal_id v \<and>
        waiting es (pw_id (hv_pending v ! i)) (pw_amount (hv_pending v ! i)) (pw_destination (hv_pending v ! i))
          (pw_unlock_at (hv_pending v ! i))) \<and>
     (\<forall>i < length (hv_pending v). \<forall>j < length (hv_pending v). i \<noteq> j \<longrightarrow> pw_status (hv_pending v ! i) = 1 \<longrightarrow>
        pw_status (hv_pending v ! j) = 1 \<longrightarrow> pw_id (hv_pending v ! i) \<noteq> pw_id (hv_pending v ! j))"

definition known_ok :: "HoldVault \<Rightarrow> HoldEntry list \<Rightarrow> bool" where
  "known_ok v es \<longleftrightarrow>
     length (hv_known v) = HOLD_KNOWN_CAPACITY \<and> unat (hv_known_len v) \<le> HOLD_KNOWN_CAPACITY \<and>
     (\<forall>d \<in> set (known_keys v). paid_after_wait es d)"

definition rules_ok :: "HoldVault \<Rightarrow> bool" where
  "rules_ok v \<longleftrightarrow>
     delay_allowed (hv_delay_secs v) \<and> unat (hv_big_share_bps v) \<le> 10000 \<and> hv_safe_address v \<noteq> default_key \<and>
     (hv_guardian v = default_key \<or> hv_guardian v \<noteq> hv_owner v)"

definition change_ok :: "HoldVault \<Rightarrow> HoldEntry list \<Rightarrow> bool" where
  "change_ok v es \<longleftrightarrow>
     (pc_active (hv_change v) \<longrightarrow>
        (\<exists>e \<in> set es. he_kind e = 9 \<and> he_reason e = pc_fields (hv_change v) \<and>
           he_ts e + 24 * 60 * 60 \<le> pc_effective_at (hv_change v)))"

definition hold_inv :: "HoldVault \<Rightarrow> HoldEntry list \<Rightarrow> bool" where
  "hold_inv v es \<longleftrightarrow> rows_ok v es \<and> known_ok v es \<and> rules_ok v \<and> change_ok v es \<and> sound es"

lemma delay_day: "delay_allowed d \<Longrightarrow> 24 * 60 * 60 \<le> d" by (auto simp: delay_allowed_def)

lemma rows_ok_snoc:
  assumes "rows_ok v es" "\<And>wid. wid \<noteq> 0 \<Longrightarrow> \<not> closes wid e"
  shows "rows_ok v (es @ [e])"
  using assms by (auto simp: rows_ok_def intro: waiting_snoc)

lemma known_ok_snoc: "known_ok v es \<Longrightarrow> known_ok v (es @ [e])"
  by (auto simp: known_ok_def intro: paid_after_wait_snoc)

lemma change_ok_snoc: "change_ok v es \<Longrightarrow> change_ok v (es @ [e])"
  by (auto simp: change_ok_def)

text \<open>Fields a part of the invariant does not read.\<close>

lemma rows_ok_cong:
  "hv_pending v' = hv_pending v \<Longrightarrow> hv_next_withdrawal_id v' = hv_next_withdrawal_id v \<Longrightarrow> rows_ok v' es = rows_ok v es"
  by (simp add: rows_ok_def)

lemma known_ok_cong: "hv_known v' = hv_known v \<Longrightarrow> hv_known_len v' = hv_known_len v \<Longrightarrow> known_ok v' es = known_ok v es"
  by (simp add: known_ok_def known_keys_def)

lemma change_ok_cong: "hv_change v' = hv_change v \<Longrightarrow> change_ok v' es = change_ok v es"
  by (simp add: change_ok_def)

lemma rules_ok_cong:
  "hv_delay_secs v' = hv_delay_secs v \<Longrightarrow> hv_big_share_bps v' = hv_big_share_bps v \<Longrightarrow>
   hv_safe_address v' = hv_safe_address v \<Longrightarrow> hv_guardian v' = hv_guardian v \<Longrightarrow> hv_owner v' = hv_owner v \<Longrightarrow>
   rules_ok v' = rules_ok v"
  by (simp add: rules_ok_def)

text \<open>A record that is neither a payment nor the end of a wait keeps everything.\<close>

lemma hold_inv_note:
  assumes "hold_inv v es" "he_kind e \<notin> {2, 4, 7, 8}"
  shows "hold_inv v (es @ [e])"
  using assms
  by (auto simp: hold_inv_def closes_def sound_other intro: rows_ok_snoc known_ok_snoc change_ok_snoc)

lemma rows_ok_clear:
  assumes "rows_ok v es" "i < length (hv_pending v)" "pw_status (hv_pending v ! i) = 1"
    and "he_kind e \<noteq> 8" "he_withdrawal_id e = pw_id (hv_pending v ! i)"
  shows "rows_ok (clear_row v i) (es @ [e])"
proof -
  have "\<not> closes (pw_id (hv_pending v ! j)) e" if "j < length (hv_pending v)" "j \<noteq> i" "pw_status (hv_pending v ! j) = 1" for j
    using assms that by (auto simp: closes_def rows_ok_def)
  then show ?thesis
    using assms(1,2) by (auto simp: rows_ok_def clear_row_def zero_pending_def nth_list_update intro!: waiting_snoc split: if_splits)
qed

lemma known_keys_remember:
  assumes "known_ok v es"
  shows "set (known_keys (remember v d)) \<subseteq> insert d (set (known_keys v))"
    and "length (hv_known (remember v d)) = HOLD_KNOWN_CAPACITY"
    and "unat (hv_known_len (remember v d)) \<le> HOLD_KNOWN_CAPACITY"
proof -
  let ?n = "unat (hv_known_len v)"
  have len: "length (hv_known v) = 16" "?n \<le> 16" using assms by (simp_all add: known_ok_def HOLD_KNOWN_CAPACITY_def)
  have inc: "unat (hv_known_len v + 1) = Suc ?n" if "?n < 16" using that by (simp add: unat_word_ariths)
  have "take (Suc ?n) ((hv_known v)[?n := d]) = take ?n (hv_known v) @ [d]" if "?n < 16"
    using that len by (simp add: take_Suc_conv_app_nth)
  then show "set (known_keys (remember v d)) \<subseteq> insert d (set (known_keys v))"
    using len inc by (auto simp: remember_def known_keys_def HOLD_KNOWN_CAPACITY_def Let_def dest: in_set_takeD)
  show "length (hv_known (remember v d)) = HOLD_KNOWN_CAPACITY"
    using len by (simp add: remember_def HOLD_KNOWN_CAPACITY_def Let_def)
  show "unat (hv_known_len (remember v d)) \<le> HOLD_KNOWN_CAPACITY"
    using len inc by (simp add: remember_def HOLD_KNOWN_CAPACITY_def Let_def)
qed

lemma remember_fields [simp]:
  "hv_pending (remember v d) = hv_pending v" "hv_next_withdrawal_id (remember v d) = hv_next_withdrawal_id v"
  "hv_change (remember v d) = hv_change v" "hv_delay_secs (remember v d) = hv_delay_secs v"
  "hv_big_share_bps (remember v d) = hv_big_share_bps v" "hv_safe_address (remember v d) = hv_safe_address v"
  "hv_guardian (remember v d) = hv_guardian v" "hv_owner (remember v d) = hv_owner v"
  "hv_daily_limit (remember v d) = hv_daily_limit v"
  by (simp_all add: remember_def Let_def)

lemma clear_row_fields [simp]:
  "hv_pending (clear_row v i) = (hv_pending v)[i := zero_pending]" "hv_known (clear_row v i) = hv_known v"
  "hv_known_len (clear_row v i) = hv_known_len v" "hv_change (clear_row v i) = hv_change v"
  "hv_delay_secs (clear_row v i) = hv_delay_secs v" "hv_big_share_bps (clear_row v i) = hv_big_share_bps v"
  "hv_safe_address (clear_row v i) = hv_safe_address v" "hv_guardian (clear_row v i) = hv_guardian v"
  "hv_owner (clear_row v i) = hv_owner v" "hv_next_withdrawal_id (clear_row v i) = hv_next_withdrawal_id v"
  "hv_daily_limit (clear_row v i) = hv_daily_limit v"
  by (simp_all add: clear_row_def)

lemma known_ok_remember:
  assumes "known_ok v es" "paid_after_wait es d"
  shows "known_ok (remember v d) es"
  using known_keys_remember [OF assms(1), of d] assms by (auto simp: known_ok_def)


section \<open>Every call keeps the invariant\<close>

abbreviation keeps :: "hold_accounts \<Rightarrow> HoldEntry list \<Rightarrow> hold_accounts \<Rightarrow> bool" where
  "keeps acc es acc' \<equiv>
     hold_inv (ha_vault acc') (es @ written (ha_ledger acc) (ha_ledger acc')) \<and> ledger_ok (ha_ledger acc')"

lemma position_Some:
  "position P xs = Some i \<Longrightarrow> i < length xs \<and> P (xs ! i)"
  by (induction xs arbitrary: i) (auto split: if_splits)

lemma find_pending_row:
  "find_pending v wid = Inr i \<Longrightarrow> i < length (hv_pending v) \<and> pw_status (hv_pending v ! i) = 1 \<and> pw_id (hv_pending v ! i) = wid"
  by (auto simp: find_pending_def dest: position_Some split: option.splits)

lemma rows_ok_row:
  assumes "rows_ok v es" "i < length (hv_pending v)" "pw_status (hv_pending v ! i) = 1"
  shows "pw_id (hv_pending v ! i) \<noteq> 0"
    and "waiting es (pw_id (hv_pending v ! i)) (pw_amount (hv_pending v ! i)) (pw_destination (hv_pending v ! i)) (pw_unlock_at (hv_pending v ! i))"
  using assms by (simp_all add: rows_ok_def)

lemma rows_ok_unique:
  assumes "rows_ok v es" "i < length (hv_pending v)" "j < length (hv_pending v)" "pw_status (hv_pending v ! i) = 1"
    and "pw_status (hv_pending v ! j) = 1" "pw_id (hv_pending v ! j) = pw_id (hv_pending v ! i)"
  shows "j = i"
proof (rule ccontr)
  assume "j \<noteq> i"
  then show False using assms unfolding rows_ok_def by metis
qed

lemma close_inv:
  assumes inv: "hold_inv v es" and row: "i < length (hv_pending v)" "pw_status (hv_pending v ! i) = 1"
    and e: "e = hentry now (pw_amount (hv_pending v ! i)) (pw_destination (hv_pending v ! i)) (pw_id (hv_pending v ! i)) kind 0"
    and kind: "kind = 2 \<and> pw_unlock_at (hv_pending v ! i) \<le> now \<or> kind = 4 \<or> kind = 7"
  shows "hold_inv (clear_row v i) (es @ [e])"
proof -
  have w: "waiting es (he_withdrawal_id e) (he_amount e) (he_destination e) (pw_unlock_at (hv_pending v ! i))"
      "he_withdrawal_id e \<noteq> 0"
    using rows_ok_row [of v es, OF _ row] inv by (simp_all add: hold_inv_def e)
  have "justified es e" using w kind waiting_mono [OF w(1)] by (auto simp: justified_def e)
  moreover have "rows_ok (clear_row v i) (es @ [e])"
    using rows_ok_clear [of v es i e] inv row kind by (auto simp: hold_inv_def e)
  moreover have "known_ok (clear_row v i) (es @ [e])"
    using inv known_ok_snoc known_ok_cong [of "clear_row v i" v] by (simp add: hold_inv_def)
  moreover have "change_ok (clear_row v i) (es @ [e])"
    using inv change_ok_snoc change_ok_cong [of "clear_row v i" v] by (simp add: hold_inv_def)
  ultimately show ?thesis using inv rules_ok_cong [of "clear_row v i" v] by (simp add: hold_inv_def sound_snoc)
qed

lemma remember_inv: "hold_inv v es \<Longrightarrow> paid_after_wait es d \<Longrightarrow> hold_inv (remember v d) es"
  using known_ok_remember [of v es d] rows_ok_cong [of "remember v d" v] rules_ok_cong [of "remember v d" v]
    change_ok_cong [of "remember v d" v]
  by (simp add: hold_inv_def)

lemma buckets_inv: "hold_inv (v\<lparr>hv_daily_buckets := b\<rparr>) es = hold_inv v es"
  by (simp add: hold_inv_def rows_ok_def known_ok_def known_keys_def rules_ok_def change_ok_def)

lemma clear_remember: "clear_row (remember v d) i = remember (clear_row v i) d"
  by (simp add: clear_row_def remember_def is_known_def Let_def)

lemma pay_row_inv:
  assumes "hold_inv (ha_vault acc) es" "ledger_ok (ha_ledger acc)" "pay_row cpa xfer acc i wid kind now = Inr acc'"
    and "i < length (hv_pending (ha_vault acc))" "pw_status (hv_pending (ha_vault acc) ! i) = 1"
    and "pw_id (hv_pending (ha_vault acc) ! i) = wid"
    and "kind = 2 \<and> pw_unlock_at (hv_pending (ha_vault acc) ! i) \<le> now \<or> kind = 7"
  shows "keeps acc es acc'"
proof -
  let ?v = "ha_vault acc" let ?row = "hv_pending ?v ! i"
  let ?e = "hentry now (pw_amount ?row) (pw_destination ?row) wid kind 0"
  let ?v1 = "?v\<lparr>hv_daily_buckets := record_release (hv_daily_buckets ?v) (pw_amount ?row) now\<rparr>"
  have acc': "ha_vault acc' = clear_row (remember ?v1 (pw_destination ?row)) i" "ha_ledger acc' = hold_record (ha_ledger acc) ?e"
    using assms(3) by (auto simp: pay_row_def Let_def write_record_def split: sum.splits)
  have "hold_inv (clear_row ?v1 i) (es @ [?e])"
    by (rule close_inv [where kind = kind and now = now]) (use assms in \<open>auto simp: buckets_inv\<close>)
  moreover have "paid_after_wait (es @ [?e]) (pw_destination ?row)"
    using assms(1,4-7) rows_ok_row(1) [of ?v es i] by (auto simp: paid_after_wait_def hold_inv_def)
  ultimately show ?thesis
    using assms(2) by (simp add: acc' written_one clear_remember remember_inv)
qed

lemma execute_inv:
  assumes "hold_inv (ha_vault acc) es" "ledger_ok (ha_ledger acc)" "execute cpa xfer acc wid now = Inr acc'"
  shows "keeps acc es acc'"
proof -
  obtain i where "find_pending (ha_vault acc) wid = Inr i" "pay_row cpa xfer acc i wid 2 now = Inr acc'"
      "pw_unlock_at (hv_pending (ha_vault acc) ! i) \<le> now"
    using assms(3) by (auto simp: execute_def Let_def split: option.splits sum.splits if_splits)
  then show ?thesis using pay_row_inv [OF assms(1,2), of cpa xfer i wid 2 now] find_pending_row by blast
qed

lemma skip_inv:
  assumes "hold_inv (ha_vault acc) es" "ledger_ok (ha_ledger acc)" "skip cpa xfer acc wid now = Inr acc'"
  shows "keeps acc es acc'"
proof -
  obtain i where "find_pending (ha_vault acc) wid = Inr i" "pay_row cpa xfer acc i wid 7 now = Inr acc'"
    using assms(3) by (auto simp: skip_def Let_def split: option.splits sum.splits if_splits)
  then show ?thesis using pay_row_inv [OF assms(1,2), of cpa xfer i wid 7 now] find_pending_row by blast
qed

lemma stop_inv:
  assumes "hold_inv (ha_vault acc) es" "ledger_ok (ha_ledger acc)" "stop cpa acc wid now = Inr acc'"
  shows "keeps acc es acc'"
proof -
  let ?v = "ha_vault acc"
  obtain i where i: "find_pending ?v wid = Inr i" "ha_vault acc' = clear_row ?v i"
      "ha_ledger acc' = hold_record (ha_ledger acc) (hentry now (pw_amount (hv_pending ?v ! i)) (pw_destination (hv_pending ?v ! i)) wid 4 0)"
    using assms(3) by (auto simp: stop_def Let_def write_record_def split: option.splits sum.splits)
  then show ?thesis
    using find_pending_row [OF i(1)] close_inv [OF assms(1), of i _ now 4] assms(2) by (simp add: written_one)
qed


lemma note_keeps:
  assumes "hold_inv (ha_vault acc) es" "ledger_ok (ha_ledger acc)"
    and "rows_ok (ha_vault acc') es = rows_ok (ha_vault acc) es" "known_ok (ha_vault acc') es = known_ok (ha_vault acc) es"
    and "rules_ok (ha_vault acc')" "change_ok (ha_vault acc') es"
    and "ha_ledger acc' = hold_record (ha_ledger acc) e" "he_kind e \<notin> {2, 4, 7, 8}"
  shows "keeps acc es acc'"
proof -
  have "hold_inv (ha_vault acc') es" using assms(1,3-6) by (simp add: hold_inv_def)
  then show ?thesis using hold_inv_note [OF _ assms(8)] assms(2,7) by (simp add: written_one)
qed

lemma note_same_vault:
  assumes "hold_inv (ha_vault acc) es" "ledger_ok (ha_ledger acc)" "ha_vault acc' = ha_vault acc"
    and "ha_ledger acc' = hold_record (ha_ledger acc) e" "he_kind e \<notin> {2, 4, 7, 8}"
  shows "keeps acc es acc'"
  using note_keeps [OF assms(1,2) _ _ _ _ assms(4,5)] assms(1,3) by (simp add: hold_inv_def)

lemma deposit_inv:
  assumes "hold_inv (ha_vault acc) es" "ledger_ok (ha_ledger acc)" "deposit cpa xfer acc amount now = Inr acc'"
  shows "keeps acc es acc'"
  by (rule note_same_vault [OF assms(1,2), of _ "hentry now amount (ha_vault_key acc) 0 1 0"])
    (use assms(3) in \<open>auto simp: deposit_def Let_def write_record_def split: option.splits if_splits\<close>)

lemma paid_at_once_inv:
  assumes "hold_inv (ha_vault acc) es" "ledger_ok (ha_ledger acc)" "is_known (ha_vault acc) (t_key (ha_destination acc))"
  shows "keeps acc es (paid_at_once acc amount now src dst)"
proof -
  let ?e = "hentry now amount (t_key (ha_destination acc)) 0 2 0" and ?v = "ha_vault acc"
  have "justified es ?e"
    using assms(1,3) by (auto simp: justified_def hold_inv_def known_ok_def is_known_def known_keys_def)
  then have "hold_inv ?v (es @ [?e])"
    using assms(1) by (auto simp: hold_inv_def sound_snoc closes_def intro: rows_ok_snoc known_ok_snoc change_ok_snoc)
  then show ?thesis
    using assms(2) by (simp add: paid_at_once_def write_record_def written_one buckets_inv)
qed

lemma rows_ok_hold:
  assumes "rows_ok v es" "first_empty v = Some i" "unlock = now + hv_delay_secs v" "delay_allowed (hv_delay_secs v)"
    and "checked_add (hv_next_withdrawal_id v) 1 \<noteq> None"
  shows "rows_ok (v\<lparr>hv_next_withdrawal_id := hv_next_withdrawal_id v + 1,
      hv_pending := (hv_pending v)[i := \<lparr>pw_id = hv_next_withdrawal_id v, pw_amount = amount, pw_destination = d,
        pw_unlock_at = unlock, pw_status = 1\<rparr>]\<rparr>) (es @ [hentry now amount d (hv_next_withdrawal_id v) 3 0])"
proof -
  let ?n = "hv_next_withdrawal_id v" and ?e = "hentry now amount d (hv_next_withdrawal_id v) 3 0"
  have i: "i < length (hv_pending v)" using assms(2) position_bound by (auto simp: first_empty_def)
  have "unat ?n + 1 < 2 ^ 64" using assms(5) by (simp add: checked_add_def split: if_splits)
  then have n: "unat (?n + 1) = Suc (unat ?n)" by (simp add: unat_word_ariths)
  then have up: "x < ?n + 1" if "x < ?n" for x using that by (simp add: word_less_nat_alt)
  have n1: "?n < ?n + 1" "?n + 1 \<noteq> 0" using n by (simp_all add: word_less_nat_alt) auto
  have w: "waiting (es @ [?e]) ?n amount d unlock"
    using waiting_held [of now unlock es amount d ?n 0] delay_day [OF assms(4)] assms(3) by simp
  have keep: "waiting (es @ [?e]) wid a dd u" if "waiting es wid a dd u" for wid a dd u
    using waiting_snoc [OF that, of ?e] by (simp add: closes_def)
  have "hv_next_withdrawal_id v \<noteq> 0" using assms(1) by (simp add: rows_ok_def)
  then show ?thesis
    using assms(1) i n1 w keep up unfolding rows_ok_def
    by (auto simp: nth_list_update split: if_splits)
qed

lemma held_inv:
  assumes "hold_inv (ha_vault acc) es" "ledger_ok (ha_ledger acc)" "first_empty (ha_vault acc) = Some i"
    and "unlock = now + hv_delay_secs (ha_vault acc)" "checked_add (hv_next_withdrawal_id (ha_vault acc)) 1 \<noteq> None"
  shows "keeps acc es (held acc i amount unlock now)"
proof -
  let ?v = "ha_vault acc" let ?e = "hentry now amount (t_key (ha_destination acc)) (hv_next_withdrawal_id ?v) 3 0"
  let ?v' = "ha_vault (held acc i amount unlock now)"
  have "rows_ok ?v' (es @ [?e])"
    using rows_ok_hold [OF _ assms(3,4) _ assms(5)] assms(1) by (simp add: held_def Let_def hold_inv_def rules_ok_def)
  moreover have "known_ok ?v' (es @ [?e])"
    using assms(1) known_ok_snoc known_ok_cong [of ?v' ?v] by (simp add: held_def Let_def hold_inv_def)
  moreover have "change_ok ?v' (es @ [?e])"
    using assms(1) change_ok_snoc change_ok_cong [of ?v' ?v] by (simp add: held_def Let_def hold_inv_def)
  moreover have "rules_ok ?v'"
    using assms(1) rules_ok_cong [of ?v' ?v] by (simp add: held_def Let_def hold_inv_def)
  moreover have "sound (es @ [?e])" using assms(1) by (simp add: hold_inv_def sound_other)
  moreover have "ha_ledger (held acc i amount unlock now) = hold_record (ha_ledger acc) ?e"
    by (simp add: held_def Let_def write_record_def)
  ultimately show ?thesis using assms(2) by (simp add: hold_inv_def written_one)
qed

lemma can_pay_now_known: "can_pay_now v balance d amount now = Inr True \<Longrightarrow> is_known v d \<and> \<not> hv_frozen v"
  by (auto simp: can_pay_now_def split: if_splits)

text \<open>The four results of a withdrawal.\<close>

lemma withdraw_cases:
  assumes "withdraw cpa xfer acc amount now = Inr acc'"
  obtains (refused) reason where "acc' = refuse acc amount reason now"
  | (paid) src dst where "can_pay_now (ha_vault acc) (t_amount (ha_vault_token acc)) (t_key (ha_destination acc)) amount now = Inr True"
      "amount \<le> t_amount (ha_vault_token acc)"
      "transfer_out_parts cpa xfer acc amount = Inr (src, dst)" "acc' = paid_at_once acc amount now src dst"
  | (held) i unlock where "checked_add_i64 now (hv_delay_secs (ha_vault acc)) = Some unlock" "first_empty (ha_vault acc) = Some i"
      "checked_add (hv_next_withdrawal_id (ha_vault acc)) 1 \<noteq> None" "acc' = held acc i amount unlock now"
  using assms by (auto simp: withdraw_def Let_def split: option.splits sum.splits if_splits bool.splits prod.splits)

lemma withdraw_inv:
  assumes "hold_inv (ha_vault acc) es" "ledger_ok (ha_ledger acc)" "withdraw cpa xfer acc amount now = Inr acc'"
  shows "keeps acc es acc'"
  using assms(3)
proof (cases rule: withdraw_cases)
  case (refused reason)
  then show ?thesis
    by (intro note_same_vault [OF assms(1,2), of _ "hentry now amount (t_key (ha_destination acc)) 0 12 reason"])
      (simp_all add: refuse_def write_record_def)
next
  case (paid src dst)
  then show ?thesis using paid_at_once_inv [OF assms(1,2)] can_pay_now_known by blast
next
  case (held i unlock)
  then have "unlock = now + hv_delay_secs (ha_vault acc)" by (simp add: checked_add_i64_def split: if_splits)
  then show ?thesis using held_inv [OF assms(1,2) held(2) _ held(3)] held(4) by simp
qed


lemma freeze_inv:
  assumes "hold_inv (ha_vault acc) es" "ledger_ok (ha_ledger acc)" "freeze cpa acc now = Inr acc'"
  shows "keeps acc es acc'"
proof -
  have acc': "ha_vault acc' = (ha_vault acc)\<lparr>hv_frozen := True\<rparr>" "ha_ledger acc' = hold_record (ha_ledger acc) (hentry now 0 (ha_owner acc) 0 5 0)"
    using assms(3) by (auto simp: freeze_def write_record_def split: option.splits)
  show ?thesis
    by (rule note_keeps [OF assms(1,2) _ _ _ _ acc'(2)])
      (use assms(1) in \<open>simp_all add: acc'(1) rows_ok_def known_ok_def known_keys_def rules_ok_def change_ok_def hold_inv_def\<close>)
qed

lemma unfreeze_cases:
  assumes "unfreeze cpa acc now = Inr acc'"
  obtains (finished) "acc' = finish_unfreeze acc now"
  | (armed) u where "acc' = acc\<lparr>ha_vault := (ha_vault acc)\<lparr>hv_unfreeze_at := u\<rparr>,
        ha_ledger := write_record (ha_ledger acc) now 0 default_key 0 13 0\<rparr>"
  using assms by (auto simp: unfreeze_def Let_def split: option.splits if_splits)

lemma unfreeze_inv:
  assumes "hold_inv (ha_vault acc) es" "ledger_ok (ha_ledger acc)" "unfreeze cpa acc now = Inr acc'"
  shows "keeps acc es acc'"
  using assms(3)
proof (cases rule: unfreeze_cases)
  case finished
  then show ?thesis
    by (intro note_keeps [OF assms(1,2), where e = "hentry now 0 default_key 0 6 0"])
      (use assms(1) in \<open>simp_all add: finish_unfreeze_def write_record_def rows_ok_def known_ok_def known_keys_def rules_ok_def
        change_ok_def hold_inv_def\<close>)
next
  case (armed u)
  then show ?thesis
    by (intro note_keeps [OF assms(1,2), where e = "hentry now 0 default_key 0 13 0"])
      (use assms(1) in \<open>simp_all add: write_record_def rows_ok_def known_ok_def known_keys_def rules_ok_def
        change_ok_def hold_inv_def\<close>)
qed

lemma recover_inv:
  assumes "hold_inv (ha_vault acc) es" "ledger_ok (ha_ledger acc)" "recover cpa xfer acc now = Inr acc'"
  shows "keeps acc es acc'"
proof -
  let ?v = "ha_vault acc" let ?v1 = "?v\<lparr>hv_pending := map (\<lambda>_. zero_pending) (hv_pending ?v)\<rparr>"
  let ?e = "hentry now (t_amount (ha_vault_token acc)) (t_key (ha_destination acc)) 0 8 0"
  have acc': "ha_vault acc' = ?v1" "ha_ledger acc' = hold_record (ha_ledger acc) ?e"
    using assms(3) by (auto simp: recover_def Let_def write_record_def split: option.splits sum.splits)
  have "rows_ok ?v1 (es @ [?e])"
    using assms(1) by (simp add: hold_inv_def rows_ok_def zero_pending_def)
  moreover have "known_ok ?v1 (es @ [?e])"
    using assms(1) known_ok_snoc known_ok_cong [of ?v1 ?v] by (simp add: hold_inv_def)
  moreover have "change_ok ?v1 (es @ [?e])"
    using assms(1) change_ok_snoc change_ok_cong [of ?v1 ?v] by (simp add: hold_inv_def)
  moreover have "rules_ok ?v1" using assms(1) rules_ok_cong [of ?v1 ?v] by (simp add: hold_inv_def)
  moreover have "sound (es @ [?e])" using assms(1) by (simp add: hold_inv_def sound_other)
  ultimately show ?thesis using assms(2) by (simp add: acc' hold_inv_def written_one)
qed

lemma unat_share: "(ucast (b :: 16 word) :: u64) \<le> 10000 \<longleftrightarrow> unat b \<le> 10000"
  by (simp add: word_le_nat_alt unat_ucast16)

lemma apply_change_rules:
  assumes "apply_change cpa acc now = Inr acc'" "rules_ok (ha_vault acc)"
  shows "rules_ok (changed (ha_vault acc))"
proof -
  let ?v = "ha_vault acc" let ?p = "hv_change ?v"
  have "pc_fields ?p AND 2 = 0 \<or> delay_allowed (pc_delay_secs ?p)" "pc_fields ?p AND 4 = 0 \<or> unat (pc_big_share_bps ?p) \<le> 10000"
    "pc_fields ?p AND 8 = 0 \<or> pc_guardian ?p = default_key \<or> pc_guardian ?p \<noteq> hv_owner ?v"
    "pc_fields ?p AND 16 = 0 \<or> pc_safe_address ?p \<noteq> default_key"
    using assms(1) by (simp_all add: apply_change_def Let_def unat_share split: if_splits)
  then show ?thesis using assms(2) by (simp add: rules_ok_def changed_def Let_def) metis
qed

lemma apply_change_inv:
  assumes "hold_inv (ha_vault acc) es" "ledger_ok (ha_ledger acc)" "apply_change cpa acc now = Inr acc'"
  shows "keeps acc es acc'"
proof -
  let ?v = "ha_vault acc"
  let ?p = "hv_change ?v"
  have acc': "ha_vault acc' = changed ?v"
      and led: "ha_ledger acc' = hold_record (ha_ledger acc) (hentry now 0 (pc_safe_address ?p) 0 10 (pc_fields ?p))"
    using assms(3) by (auto simp: apply_change_def Let_def write_record_def simp del: require_all.simps split: option.splits)
  have checks: "rules_ok (changed ?v)" using apply_change_rules [OF assms(3)] assms(1) by (simp add: hold_inv_def)
  show ?thesis
    by (rule note_keeps [OF assms(1,2) _ _ _ _ led])
      (use checks in \<open>simp_all add: acc' changed_def Let_def rows_ok_def known_ok_def known_keys_def change_ok_def zero_change_def\<close>)
qed

lemma cancel_change_inv:
  assumes "hold_inv (ha_vault acc) es" "ledger_ok (ha_ledger acc)" "cancel_change cpa acc now = Inr acc'"
  shows "keeps acc es acc'"
proof -
  have acc': "ha_vault acc' = (ha_vault acc)\<lparr>hv_change := zero_change\<rparr>" "ha_ledger acc' = hold_record (ha_ledger acc) (hentry now 0 default_key 0 11 0)"
    using assms(3) by (auto simp: cancel_change_def write_record_def split: option.splits)
  show ?thesis
    by (rule note_keeps [OF assms(1,2) _ _ _ _ acc'(2)])
      (use assms(1) in \<open>simp_all add: acc'(1) rows_ok_def known_ok_def known_keys_def rules_ok_def change_ok_def hold_inv_def zero_change_def\<close>)
qed


lemma propose_change_cases:
  assumes "propose_change cpa acc c now = Inr acc'"
  defines "v \<equiv> ha_vault acc" and "l \<equiv> ha_ledger acc"
  defines "t \<equiv> tighten_bits (ha_vault acc) c" and "k \<equiv> loosen_bits (ha_vault acc) c"
  obtains (tight) "t \<noteq> 0" "k = 0" "ha_vault acc' = tightened v c t" "ha_ledger acc' = hold_record l (hentry now 0 default_key 0 10 t)"
  | (loose) at where "t = 0" "k \<noteq> 0" "\<not> pc_active (hv_change v)" "checked_add_i64 now (hv_delay_secs (tightened v c t)) = Some at"
      "ha_vault acc' = (tightened v c t)\<lparr>hv_change := proposed_change c k at\<rparr>"
      "ha_ledger acc' = hold_record l (hentry now 0 (hc_safe_address c) 0 9 k)"
  | (both) at where "t \<noteq> 0" "k \<noteq> 0" "\<not> pc_active (hv_change v)" "checked_add_i64 now (hv_delay_secs (tightened v c t)) = Some at"
      "ha_vault acc' = (tightened v c t)\<lparr>hv_change := proposed_change c k at\<rparr>"
      "ha_ledger acc' = hold_record (hold_record l (hentry now 0 default_key 0 10 t)) (hentry now 0 (hc_safe_address c) 0 9 k)"
  using assms(1) unfolding propose_change_def v_def l_def t_def k_def write_record_def Let_def
  by (auto split: option.splits if_splits)

lemma propose_change_rules:
  assumes "propose_change cpa acc c now = Inr acc'" "rules_ok (ha_vault acc)"
  shows "rules_ok (tightened (ha_vault acc) c t)"
proof -
  have "delay_allowed (hc_delay_secs c)" "unat (hc_big_share_bps c) \<le> 10000" "hc_guardian c = default_key \<or> hc_guardian c \<noteq> hv_owner (ha_vault acc)"
    using assms(1) by (simp_all add: propose_change_def owner_constraints_def require_rules_def unat_share Let_def split: if_splits)
  then show ?thesis using assms(2) by (auto simp: rules_ok_def tightened_def)
qed

lemma propose_change_inv:
  assumes "hold_inv (ha_vault acc) es" "ledger_ok (ha_ledger acc)" "propose_change cpa acc c now = Inr acc'"
  shows "keeps acc es acc'"
proof -
  let ?t = "tighten_bits (ha_vault acc) c" let ?k = "loosen_bits (ha_vault acc) c"
  let ?v = "tightened (ha_vault acc) c ?t"
  let ?a = "hentry now 0 default_key 0 10 ?t" let ?b = "hentry now 0 (hc_safe_address c) 0 9 ?k"
  have rules: "rules_ok ?v" using propose_change_rules [OF assms(3)] assms(1) by (simp add: hold_inv_def)
  have inv: "hold_inv ?v es"
    using assms(1) rules by (simp add: hold_inv_def tightened_def rows_ok_def known_ok_def known_keys_def change_ok_def)
  have pend: "hold_inv (?v\<lparr>hv_change := proposed_change c ?k at\<rparr>) (fs @ [?b])"
    if "hold_inv ?v fs" "checked_add_i64 now (hv_delay_secs ?v) = Some at" for fs at
  proof -
    have "he_ts ?b + 24 * 60 * 60 \<le> at"
      using that(2) delay_day [of "hv_delay_secs ?v"] rules by (simp add: checked_add_i64_def rules_ok_def split: if_splits)
    then have "change_ok (?v\<lparr>hv_change := proposed_change c ?k at\<rparr>) (fs @ [?b])"
      by (auto simp: change_ok_def proposed_change_def)
    moreover have "hold_inv ?v (fs @ [?b])" using hold_inv_note [OF that(1)] by simp
    ultimately show ?thesis
      by (simp add: hold_inv_def rows_ok_def known_ok_def known_keys_def rules_ok_def)
  qed
  from assms(3) show ?thesis
  proof (cases rule: propose_change_cases)
    case tight
    then show ?thesis using hold_inv_note [OF inv, of ?a] assms(2) by (simp add: written_one)
  next
    case (loose at)
    then show ?thesis using pend [OF inv loose(4)] assms(2) by (simp add: written_one)
  next
    case (both at)
    then show ?thesis using pend [OF hold_inv_note [OF inv, of ?a] both(4)] assms(2) by (simp add: written_two)
  qed
qed

lemmas call_inv = deposit_inv withdraw_inv execute_inv stop_inv freeze_inv unfreeze_inv skip_inv recover_inv
  propose_change_inv apply_change_inv cancel_change_inv

lemma hold_call_inv:
  assumes "hold_inv (ha_vault acc) es" "ledger_ok (ha_ledger acc)" "hold_call cpa xfer acc ix now = Inr acc'"
  shows "keeps acc es acc'"
  using assms(3) by (cases ix) (simp_all add: call_inv [OF assms(1,2)] del: split_paired_All)

lemma init_vault_inv:
  assumes "init_vault fpa acc args now = Inr acc'"
  shows "hold_inv (ha_vault acc') [hl_entries (ha_ledger acc') ! 0] \<and> ledger_ok (ha_ledger acc')"
proof -
  let ?e = "hentry now 0 (iv_safe_address args) 0 0 0"
  have v: "ha_vault acc' = opened_vault fpa acc args" and rules: "rules_ok (opened_vault fpa acc args)"
    using assms by (auto simp: init_vault_def require_rules_def rules_ok_def opened_vault_def unat_share split: option.splits if_splits)
  obtain l where l: "ha_ledger acc' = hold_record l ?e" "ledger_ok l" "unat (hl_head l) = 0"
    using assms by (auto simp: init_vault_def write_record_def ledger_ok_def HOLD_LEDGER_CAPACITY_def split: option.splits)
  have "hl_entries (ha_ledger acc') ! 0 = ?e"
    using l record_entries [OF l(2)] by (simp add: ledger_ok_def HOLD_LEDGER_CAPACITY_def)
  moreover have "hold_inv (opened_vault fpa acc args) [?e]"
    using rules by (simp add: hold_inv_def rows_ok_def known_ok_def change_ok_def sound_def justified_def opened_vault_def
        zero_pending_def zero_change_def known_keys_def)
  ultimately show ?thesis using v l by simp
qed

lemma hold_reach_inv: "hold_reach cpa xfer v l es now \<Longrightarrow> hold_inv v es \<and> ledger_ok l"
proof (induction rule: hold_reach.induct)
  case (opened fpa acc args now acc')
  then show ?case by (rule init_vault_inv)
next
  case (called acc es before now ix acc')
  then show ?case using hold_call_inv by blast
qed


section \<open>Rules are loosened only after a wait\<close>

definition looser :: "HoldVault \<Rightarrow> HoldVault \<Rightarrow> bool" where
  "looser v v' \<longleftrightarrow>
     hv_daily_limit v' > hv_daily_limit v \<or> hv_delay_secs v' < hv_delay_secs v \<or> hv_big_share_bps v' > hv_big_share_bps v \<or>
     hv_safe_address v' \<noteq> hv_safe_address v \<or> hv_guardian v \<noteq> default_key \<and> hv_guardian v' \<noteq> hv_guardian v"

lemma pay_row_not_looser: "pay_row cpa xfer acc i wid kind now = Inr acc' \<Longrightarrow> \<not> looser (ha_vault acc) (ha_vault acc')"
  by (auto simp: pay_row_def Let_def looser_def split: sum.splits)

lemma withdraw_not_looser: "withdraw cpa xfer acc amount now = Inr acc' \<Longrightarrow> \<not> looser (ha_vault acc) (ha_vault acc')"
  by (erule withdraw_cases) (simp_all add: looser_def refuse_def paid_at_once_def held_def Let_def)

lemma pay_row_ledger:
  "pay_row cpa xfer acc i wid kind now = Inr acc' \<Longrightarrow>
   ha_ledger acc' = hold_record (ha_ledger acc) (hentry now (pw_amount (hv_pending (ha_vault acc) ! i))
     (pw_destination (hv_pending (ha_vault acc) ! i)) wid kind 0)"
  by (auto simp: pay_row_def Let_def write_record_def split: sum.splits)

lemma execute_pays: "execute cpa xfer acc wid now = Inr acc' \<Longrightarrow>
    \<exists>i. find_pending (ha_vault acc) wid = Inr i \<and> pay_row cpa xfer acc i wid 2 now = Inr acc' \<and>
        t_key (ha_destination acc) = pw_destination (hv_pending (ha_vault acc) ! i)"
  by (auto simp: execute_def Let_def split: option.splits sum.splits if_splits)

lemma skip_pays: "skip cpa xfer acc wid now = Inr acc' \<Longrightarrow>
    \<exists>i. find_pending (ha_vault acc) wid = Inr i \<and> pay_row cpa xfer acc i wid 7 now = Inr acc' \<and>
        t_key (ha_destination acc) = pw_destination (hv_pending (ha_vault acc) ! i) \<and>
        ha_owner acc = hv_owner (ha_vault acc) \<and> ha_guardian acc = Some (hv_guardian (ha_vault acc)) \<and>
        hv_guardian (ha_vault acc) \<noteq> hv_owner (ha_vault acc)"
  by (auto simp: skip_def Let_def require_all_append split: option.splits sum.splits if_splits)

lemma tightened_not_looser: "\<not> looser v (tightened v c (tighten_bits v c))"
  by (auto simp: looser_def tightened_def tighten_bits_def split: if_splits)

lemma propose_not_looser: "propose_change cpa acc c now = Inr acc' \<Longrightarrow> \<not> looser (ha_vault acc) (ha_vault acc')"
  using tightened_not_looser [of "ha_vault acc" c]
  by (erule_tac propose_change_cases) (simp_all add: looser_def)

lemma stays_not_looser:
  "deposit cpa xfer acc amount now = Inr acc' \<Longrightarrow> \<not> looser (ha_vault acc) (ha_vault acc')"
  "stop cpa acc wid now = Inr acc' \<Longrightarrow> \<not> looser (ha_vault acc) (ha_vault acc')"
  "freeze cpa acc now = Inr acc' \<Longrightarrow> \<not> looser (ha_vault acc) (ha_vault acc')"
  "unfreeze cpa acc now = Inr acc' \<Longrightarrow> \<not> looser (ha_vault acc) (ha_vault acc')"
  "recover cpa xfer acc now = Inr acc' \<Longrightarrow> \<not> looser (ha_vault acc) (ha_vault acc')"
  "cancel_change cpa acc now = Inr acc' \<Longrightarrow> \<not> looser (ha_vault acc) (ha_vault acc')"
  by (auto simp: deposit_def stop_def freeze_def recover_def cancel_change_def Let_def finish_unfreeze_def looser_def
      elim!: unfreeze_cases split: option.splits sum.splits simp del: require_all.simps)

lemma call_not_looser:
  assumes "hold_call cpa xfer acc ix now = Inr acc'" "ix \<noteq> IxApplyChange"
  shows "\<not> looser (ha_vault acc) (ha_vault acc')"
  using assms
  by (cases ix) (auto dest: withdraw_not_looser stays_not_looser propose_not_looser execute_pays skip_pays pay_row_not_looser)

text \<open>C6: no call loosens a vault's rules at once. If the daily limit or the share grew, the delay shrank,
  the safe address changed or a guardian was removed or replaced, then the call applied a pending change,
  and that change was proposed, on the record, at least a day earlier.\<close>

theorem loosening_waits:
  assumes "hold_reach cpa xfer (ha_vault acc) (ha_ledger acc) es before"
    and "hold_call cpa xfer acc ix now = Inr acc'" "looser (ha_vault acc) (ha_vault acc')"
  shows "ix = IxApplyChange \<and>
    (\<exists>e \<in> set es. he_kind e = 9 \<and> he_reason e = pc_fields (hv_change (ha_vault acc)) \<and> he_ts e + 24 * 60 * 60 \<le> now)"
proof -
  have ix: "ix = IxApplyChange" using call_not_looser [OF assms(2)] assms(3) by blast
  then have "pc_active (hv_change (ha_vault acc))" "pc_effective_at (hv_change (ha_vault acc)) \<le> now"
    using assms(2) by (simp_all add: apply_change_def Let_def split: if_splits)
  moreover have "change_ok (ha_vault acc) es" using hold_reach_inv [OF assms(1)] by (simp add: hold_inv_def)
  ultimately show ?thesis using ix by (force simp: change_ok_def)
qed

text \<open>C4: a held withdrawal is paid late or not at all. Take any sequence of calls on a vault, by anyone. If the
  record number \<open>i\<close> is a payment of a held withdrawal, then at least a day earlier the vault recorded that it
  holds that withdrawal, with the same number, amount and destination, and between the two nobody
  stopped, skipped, paid or recovered it. If it is a payment at once, its destination had already been
  paid by a withdrawal that waited or that both keys released.\<close>

theorem payments_were_waited_for:
  assumes "hold_reach cpa xfer v l es now" "i < length es" "he_kind (es ! i) = 2"
  shows "(he_withdrawal_id (es ! i) \<noteq> 0 \<longrightarrow>
      waiting (take i es) (he_withdrawal_id (es ! i)) (he_amount (es ! i)) (he_destination (es ! i)) (he_ts (es ! i))) \<and>
    (he_withdrawal_id (es ! i) = 0 \<longrightarrow> paid_after_wait (take i es) (he_destination (es ! i)))"
  using hold_reach_inv [OF assms(1)] assms(2,3) by (auto simp: hold_inv_def sound_def justified_def)

lemma distinct_map_filter:
  assumes "\<And>i j. i < length xs \<Longrightarrow> j < length xs \<Longrightarrow> i \<noteq> j \<Longrightarrow> P (xs ! i) \<Longrightarrow> P (xs ! j) \<Longrightarrow> f (xs ! i) \<noteq> f (xs ! j)"
  shows "distinct (map f (filter P xs))"
  using assms
proof (induction xs)
  case (Cons x xs)
  have "distinct (map f (filter P xs))"
    using Cons.prems [of "Suc i" "Suc j" for i j] by (intro Cons.IH) auto
  moreover have "f x \<notin> f ` set (filter P xs)" if "P x"
    using that Cons.prems [of 0 "Suc j" for j] by (auto simp: in_set_conv_nth)
  ultimately show ?case by simp
qed simp

text \<open>C37: every vault the program can produce is well formed: eight slots that are empty or waiting, with
  distinct numbers below the next one, a share within 100 percent, one of the three delays, a safe
  address, a guardian that is not the owner, and at most sixteen remembered accounts.\<close>

theorem hold_vault_stays_valid:
  assumes "hold_reach cpa xfer v l es now"
  shows "hold_wf v \<and> delay_allowed (hv_delay_secs v) \<and> hv_safe_address v \<noteq> default_key \<and>
    (hv_guardian v = default_key \<or> hv_guardian v \<noteq> hv_owner v) \<and> unat (hv_known_len v) \<le> HOLD_KNOWN_CAPACITY \<and>
    distinct (map pw_id (filter (\<lambda>p. pw_status p = 1) (hv_pending v))) \<and> length (hl_entries l) = HOLD_LEDGER_CAPACITY"
proof -
  have inv: "hold_inv v es" "ledger_ok l" using hold_reach_inv [OF assms] by simp_all
  have "distinct (map pw_id (filter (\<lambda>p. pw_status p = 1) (hv_pending v)))"
    using inv(1) by (intro distinct_map_filter) (auto simp: hold_inv_def rows_ok_def)
  moreover have "hold_wf v" using inv(1) by (auto simp: hold_inv_def rows_ok_def rules_ok_def hold_wf_def in_set_conv_nth)
  ultimately show ?thesis using inv by (auto simp: hold_inv_def rules_ok_def known_ok_def ledger_ok_def)
qed


section \<open>Every outflow is recorded\<close>

definition paid_out :: "HoldEntry list \<Rightarrow> nat" where
  "paid_out es = sum_list (map (\<lambda>e. unat (he_amount e)) (filter (\<lambda>e. he_kind e \<in> {2, 7, 8}) es))"

definition paid_in :: "HoldEntry list \<Rightarrow> nat" where
  "paid_in es = sum_list (map (\<lambda>e. unat (he_amount e)) (filter (\<lambda>e. he_kind e = 1) es))"

text \<open>What the token program documents of a transfer: both balances change by the amount.\<close>

definition token_law :: "token_transfer \<Rightarrow> bool" where
  "token_law xfer \<longleftrightarrow>
     (\<forall>s d a s' d'. xfer s d a = Some (s', d') \<longrightarrow>
        unat (t_amount s') + unat a = unat (t_amount s) \<and> unat (t_amount d') = unat (t_amount d) + unat a)"

definition balanced :: "hold_accounts \<Rightarrow> hold_accounts \<Rightarrow> HoldEntry list \<Rightarrow> bool" where
  "balanced acc acc' new \<longleftrightarrow>
     unat (t_amount (ha_vault_token acc')) + paid_out new = unat (t_amount (ha_vault_token acc)) + paid_in new \<and>
     unat (t_amount (ha_destination acc')) = unat (t_amount (ha_destination acc)) + paid_out new \<and>
     (\<forall>e \<in> set new. he_kind e \<in> {2, 7, 8} \<longrightarrow> he_destination e = t_key (ha_destination acc)) \<and>
     (\<forall>e \<in> set new. he_kind e = 2 \<longrightarrow> he_withdrawal_id e = 0 \<longrightarrow> ha_owner acc = hv_owner (ha_vault acc)) \<and>
     (\<forall>e \<in> set new. he_kind e = 7 \<longrightarrow> ha_owner acc = hv_owner (ha_vault acc) \<and>
        ha_guardian acc = Some (hv_guardian (ha_vault acc)) \<and> hv_guardian (ha_vault acc) \<noteq> hv_owner (ha_vault acc)) \<and>
     (\<forall>e \<in> set new. he_kind e = 8 \<longrightarrow> t_owner (ha_destination acc) = hv_safe_address (ha_vault acc) \<and>
        (ha_owner acc = hv_owner (ha_vault acc) \<or> ha_owner acc = hv_guardian (ha_vault acc)))"

lemma transfer_out_xfer: "transfer_out_parts cpa xfer acc amount = Inr (s, d) \<Longrightarrow> xfer (ha_vault_token acc) (ha_destination acc) amount = Some (s, d)"
  by (auto simp: transfer_out_parts_def Let_def simp del: require_all.simps split: option.splits)

lemma balanced_note:
  assumes "ha_vault_token acc' = ha_vault_token acc" "ha_destination acc' = ha_destination acc"
    and "\<forall>e \<in> set new. he_kind e \<notin> {1, 2, 7, 8}"
  shows "balanced acc acc' new"
proof -
  have "filter (\<lambda>e. he_kind e = 2 \<or> he_kind e = 7 \<or> he_kind e = 8) new = []" "filter (\<lambda>e. he_kind e = 1) new = []"
    using assms(3) by (auto simp: filter_empty_conv)
  then show ?thesis using assms by (auto simp: balanced_def paid_out_def paid_in_def)
qed

lemma pay_row_balanced:
  assumes "token_law xfer" "pay_row cpa xfer acc i wid kind now = Inr acc'" "kind = 2 \<or> kind = 7"
    and "t_key (ha_destination acc) = pw_destination (hv_pending (ha_vault acc) ! i)" "ledger_ok (ha_ledger acc)"
    and "kind = 2 \<Longrightarrow> wid \<noteq> 0"
    and "kind = 7 \<Longrightarrow> ha_owner acc = hv_owner (ha_vault acc) \<and> ha_guardian acc = Some (hv_guardian (ha_vault acc)) \<and>
      hv_guardian (ha_vault acc) \<noteq> hv_owner (ha_vault acc)"
  shows "balanced acc acc' (written (ha_ledger acc) (ha_ledger acc'))"
proof -
  let ?row = "hv_pending (ha_vault acc) ! i"
  obtain src dst where m: "xfer (ha_vault_token acc) (ha_destination acc) (pw_amount ?row) = Some (src, dst)"
      "ha_vault_token acc' = src" "ha_destination acc' = dst"
      "ha_ledger acc' = hold_record (ha_ledger acc) (hentry now (pw_amount ?row) (pw_destination ?row) wid kind 0)"
    using assms(2) by (auto simp: pay_row_def Let_def write_record_def dest!: transfer_out_xfer split: sum.splits)
  then have "unat (t_amount src) + unat (pw_amount ?row) = unat (t_amount (ha_vault_token acc))"
      "unat (t_amount dst) = unat (t_amount (ha_destination acc)) + unat (pw_amount ?row)"
    using assms(1) by (auto simp: token_law_def)
  then show ?thesis
    using assms(3-) m by (auto simp: balanced_def written_one paid_out_def paid_in_def)
qed

lemma withdraw_balanced:
  assumes "token_law xfer" "withdraw cpa xfer acc amount now = Inr acc'" "ledger_ok (ha_ledger acc)"
  shows "balanced acc acc' (written (ha_ledger acc) (ha_ledger acc'))"
  using assms(2)
proof (cases rule: withdraw_cases)
  case (paid src dst)
  then have "xfer (ha_vault_token acc) (ha_destination acc) amount = Some (src, dst)" by (blast dest: transfer_out_xfer)
  then have "unat (t_amount src) + unat amount = unat (t_amount (ha_vault_token acc))"
      "unat (t_amount dst) = unat (t_amount (ha_destination acc)) + unat amount"
    using assms(1) by (auto simp: token_law_def)
  moreover have "ha_owner acc = hv_owner (ha_vault acc)"
    using assms(2) by (auto simp: withdraw_def withdraw_constraints_def Let_def split: option.splits if_splits)
  ultimately show ?thesis
    using assms(3) paid(4) by (auto simp: balanced_def paid_at_once_def write_record_def written_one paid_out_def paid_in_def)
qed (rule balanced_note; use assms(3) in \<open>simp add: refuse_def held_def Let_def write_record_def written_one\<close>)+

lemma deposit_balanced:
  assumes "token_law xfer" "deposit cpa xfer acc amount now = Inr acc'" "ledger_ok (ha_ledger acc)"
  shows "balanced acc acc' (written (ha_ledger acc) (ha_ledger acc'))"
proof -
  obtain src tok where m: "xfer (ha_source acc) (ha_vault_token acc) amount = Some (src, tok)"
      "acc' = acc\<lparr>ha_source := src, ha_vault_token := tok, ha_ledger := write_record (ha_ledger acc) now amount (ha_vault_key acc) 0 1 0\<rparr>"
    using assms(2) by (auto simp: deposit_def Let_def simp del: require_all.simps split: option.splits)
  then have "unat (t_amount tok) = unat (t_amount (ha_vault_token acc)) + unat amount" using assms(1) by (auto simp: token_law_def)
  then show ?thesis using assms(3) m(2) by (auto simp: balanced_def write_record_def written_one paid_out_def paid_in_def)
qed

lemma recover_balanced:
  assumes "token_law xfer" "recover cpa xfer acc now = Inr acc'" "ledger_ok (ha_ledger acc)"
  shows "balanced acc acc' (written (ha_ledger acc) (ha_ledger acc'))"
proof -
  let ?a = "t_amount (ha_vault_token acc)"
  obtain src dst where m: "xfer (ha_vault_token acc) (ha_destination acc) ?a = Some (src, dst)"
      "ha_vault_token acc' = src" "ha_destination acc' = dst"
      "ha_ledger acc' = hold_record (ha_ledger acc) (hentry now ?a (t_key (ha_destination acc)) 0 8 0)"
    using assms(2) by (auto simp: recover_def Let_def write_record_def simp del: require_all.simps
        dest!: transfer_out_xfer split: option.splits sum.splits)
  have "unat (t_amount src) + unat ?a = unat ?a" "unat (t_amount dst) = unat (t_amount (ha_destination acc)) + unat ?a"
    using m(1) assms(1) unfolding token_law_def by metis+
  moreover have "t_owner (ha_destination acc) = hv_safe_address (ha_vault acc)"
      "ha_owner acc = hv_owner (ha_vault acc) \<or> ha_owner acc = hv_guardian (ha_vault acc)"
    using assms(2) by (auto simp: recover_def Let_def split: if_splits)
  ultimately show ?thesis using assms(3) m(2-) by (auto simp: balanced_def written_one paid_out_def paid_in_def)
qed


lemma note_balanced:
  assumes "ledger_ok (ha_ledger acc)"
  shows "stop cpa acc wid now = Inr acc' \<Longrightarrow> balanced acc acc' (written (ha_ledger acc) (ha_ledger acc'))"
    and "freeze cpa acc now = Inr acc' \<Longrightarrow> balanced acc acc' (written (ha_ledger acc) (ha_ledger acc'))"
    and "unfreeze cpa acc now = Inr acc' \<Longrightarrow> balanced acc acc' (written (ha_ledger acc) (ha_ledger acc'))"
    and "apply_change cpa acc now = Inr acc' \<Longrightarrow> balanced acc acc' (written (ha_ledger acc) (ha_ledger acc'))"
    and "cancel_change cpa acc now = Inr acc' \<Longrightarrow> balanced acc acc' (written (ha_ledger acc) (ha_ledger acc'))"
  by (rule balanced_note; use assms in \<open>auto simp: stop_def freeze_def apply_change_def cancel_change_def finish_unfreeze_def Let_def
      write_record_def written_one simp del: require_all.simps elim!: unfreeze_cases split: option.splits sum.splits\<close>)+

lemma propose_balanced:
  assumes "ledger_ok (ha_ledger acc)" "propose_change cpa acc c now = Inr acc'"
  shows "balanced acc acc' (written (ha_ledger acc) (ha_ledger acc'))"
proof (rule balanced_note)
  show "ha_vault_token acc' = ha_vault_token acc" "ha_destination acc' = ha_destination acc"
    using assms(2) by (auto simp: propose_change_def Let_def simp del: require_all.simps split: option.splits if_splits)
  show "\<forall>e \<in> set (written (ha_ledger acc) (ha_ledger acc')). he_kind e \<notin> {1, 2, 7, 8}"
    using assms(2) by (cases rule: propose_change_cases) (use assms(1) in \<open>simp_all add: written_one written_two\<close>)
qed

text \<open>C5: every token that leaves a vault is on its record, and left by one of its doors. For a call on a
  reachable vault, with a token program that moves exact amounts: what the vault's account lost is the
  sum of the payments, skips and recoveries the call recorded, and what it gained is the deposit
  recorded; the recorded destination received exactly that. A payment at once was signed by the owner,
  a skip by the owner and a different guardian, and a recovery went to the safe address and was
  signed by the owner or the guardian.\<close>

theorem outflow_is_recorded:
  assumes "hold_reach cpa xfer (ha_vault acc) (ha_ledger acc) es before" "token_law xfer"
    and "hold_call cpa xfer acc ix now = Inr acc'"
  shows "balanced acc acc' (written (ha_ledger acc) (ha_ledger acc'))"
proof -
  have inv: "hold_inv (ha_vault acc) es" "ledger_ok (ha_ledger acc)" using hold_reach_inv [OF assms(1)] by simp_all
  have row: "wid \<noteq> 0" if "find_pending (ha_vault acc) wid = Inr i" for wid i
    using find_pending_row [OF that] rows_ok_row(1) [of "ha_vault acc" es i] inv(1) by (auto simp: hold_inv_def)
  have ex: "balanced acc acc' (written (ha_ledger acc) (ha_ledger acc'))" if "execute cpa xfer acc wid now = Inr acc'" for wid
    using execute_pays [OF that] row pay_row_balanced [OF assms(2) _ _ _ inv(2)] by fastforce
  have sk: "balanced acc acc' (written (ha_ledger acc) (ha_ledger acc'))" if "skip cpa xfer acc wid now = Inr acc'" for wid
    using skip_pays [OF that] pay_row_balanced [OF assms(2) _ _ _ inv(2)] by fastforce
  show ?thesis
    using assms(3) inv(2)
    by (cases ix) (simp_all add: ex sk deposit_balanced [OF assms(2)] withdraw_balanced [OF assms(2)] recover_balanced [OF assms(2)]
        note_balanced propose_balanced)
qed

section \<open>A held withdrawal can be paid\<close>

lemma position_unique:
  assumes "i < length xs" "P (xs ! i)" "\<And>j. j < length xs \<Longrightarrow> P (xs ! j) \<Longrightarrow> j = i"
  shows "position P xs = Some i"
proof (cases "position P xs")
  case None
  then show ?thesis using assms(1,2) by (auto simp: position_None)
next
  case (Some k)
  then show ?thesis using position_Some [OF Some] assms(3) by simp
qed

text \<open>C36: money is not locked in. Take a reachable vault that is not frozen and a withdrawal waiting in it
  whose time has come, with enough in the vault. Then anyone can execute it: the call succeeds, the
  tokens move as the token program moves them, the withdrawal is no longer waiting, and its
  destination is remembered unless the list is full.\<close>

theorem held_withdrawal_can_be_paid:
  assumes "hold_reach cpa xfer (ha_vault acc) (ha_ledger acc) es before"
    and "row \<in> set (hv_pending (ha_vault acc))" "pw_status row = 1" "pw_unlock_at row \<le> now" "\<not> hv_frozen (ha_vault acc)"
    and "require_all (execute_constraints cpa acc) = None" "t_mint (ha_vault_token acc) = hv_mint (ha_vault acc)"
    and "t_key (ha_destination acc) = pw_destination row" "t_key (ha_destination acc) \<noteq> t_key (ha_vault_token acc)"
    and "pw_amount row \<le> t_amount (ha_vault_token acc)"
    and "xfer (ha_vault_token acc) (ha_destination acc) (pw_amount row) = Some (src, dst)"
  shows "\<exists>acc'. hold_call cpa xfer acc (IxExecute (pw_id row)) now = Inr acc' \<and>
    ha_vault_token acc' = src \<and> ha_destination acc' = dst \<and>
    find_pending (ha_vault acc') (pw_id row) = Inl WithdrawalNotPending \<and>
    (is_known (ha_vault acc') (pw_destination row) \<or> unat (hv_known_len (ha_vault acc)) = HOLD_KNOWN_CAPACITY)"
proof -
  let ?v = "ha_vault acc"
  have inv: "hold_inv ?v es" using hold_reach_inv [OF assms(1)] by simp
  obtain i where i: "i < length (hv_pending ?v)" "hv_pending ?v ! i = row" using assms(2) by (auto simp: in_set_conv_nth)
  have only: "j = i" if "j < length (hv_pending ?v)" "pw_status (hv_pending ?v ! j) = 1" "pw_id (hv_pending ?v ! j) = pw_id row" for j
    by (rule rows_ok_unique [of ?v es]) (use inv that i assms(3) in \<open>simp_all add: hold_inv_def\<close>)
  have "position (\<lambda>r. pw_status r = 1 \<and> pw_id r = pw_id row) (hv_pending ?v) = Some i"
    by (rule position_unique [OF i(1)], unfold i(2), use assms(3) in blast, elim conjE, erule (2) only)
  then have found: "find_pending ?v (pw_id row) = Inr i" by (simp add: find_pending_def)
  let ?v1 = "?v\<lparr>hv_daily_buckets := record_release (hv_daily_buckets ?v) (pw_amount row) now\<rparr>"
  have out: "transfer_out_parts cpa xfer (acc\<lparr>ha_vault := ?v1\<rparr>) (pw_amount row) = Inr (src, dst)"
    using assms(6,7,9,11)
    by (simp add: transfer_out_parts_def require_vault_signer_def execute_constraints_def vault_seeds_def token_seeds_def
        Let_def split: if_splits)
  let ?acc = "acc\<lparr>ha_vault := clear_row (remember ?v1 (pw_destination row)) i, ha_vault_token := src, ha_destination := dst,
      ha_ledger := write_record (ha_ledger acc) now (pw_amount row) (pw_destination row) (pw_id row) 2 0\<rparr>"
  have call: "hold_call cpa xfer acc (IxExecute (pw_id row)) now = Inr ?acc"
    using assms(4-6,8,10) found out i by (simp add: execute_def pay_row_def Let_def)
  have "position (\<lambda>r. pw_status r = 1 \<and> pw_id r = pw_id row) ((hv_pending ?v)[i := zero_pending]) = None"
    unfolding position_None
  proof
    fix r assume "r \<in> set ((hv_pending ?v)[i := zero_pending])"
    then obtain j where j: "j < length (hv_pending ?v)" "r = (hv_pending ?v)[i := zero_pending] ! j" by (auto simp: in_set_conv_nth)
    show "\<not> (pw_status r = 1 \<and> pw_id r = pw_id row)"
    proof (cases "j = i")
      case False
      then have "r = hv_pending ?v ! j" using j by simp
      then show ?thesis using only [OF j(1)] False by blast
    qed (use j in \<open>simp add: zero_pending_def\<close>)
  qed
  then have gone: "find_pending (ha_vault ?acc) (pw_id row) = Inl WithdrawalNotPending" by (simp add: find_pending_def)
  have "is_known (remember ?v1 (pw_destination row)) (pw_destination row)" if "unat (hv_known_len ?v) \<noteq> HOLD_KNOWN_CAPACITY"
  proof -
    have len: "length (hv_known ?v) = 16" "unat (hv_known_len ?v) < 16"
      using that inv by (auto simp: hold_inv_def known_ok_def HOLD_KNOWN_CAPACITY_def)
    then have "unat (hv_known_len ?v + 1) = Suc (unat (hv_known_len ?v))" by (simp add: unat_word_ariths)
    with len show ?thesis
      by (auto simp: remember_def is_known_def HOLD_KNOWN_CAPACITY_def Let_def take_Suc_conv_app_nth)
  qed
  then have "is_known (ha_vault ?acc) (pw_destination row) \<or> unat (hv_known_len ?v) = HOLD_KNOWN_CAPACITY"
    by (auto simp: is_known_def)
  with call gone show ?thesis by (intro exI [of _ ?acc]) simp
qed


section \<open>Example\<close>

text \<open>A run of calls from given accounts, with the records it writes.\<close>

fun hold_run :: "cpa \<Rightarrow> token_transfer \<Rightarrow> hold_accounts \<times> HoldEntry list \<times> int \<Rightarrow> (hold_ix \<times> int) list \<Rightarrow>
    (hold_accounts \<times> HoldEntry list \<times> int) option" where
  "hold_run cpa xfer st [] = Some st"
| "hold_run cpa xfer (acc, es, before) ((ix, now) # calls) =
     (if before \<le> now then
        (case hold_call cpa xfer acc ix now of
           Inl _ \<Rightarrow> None
         | Inr acc' \<Rightarrow> hold_run cpa xfer (acc', es @ written (ha_ledger acc) (ha_ledger acc'), now) calls)
      else None)"

lemma hold_run_reach:
  assumes "hold_run cpa xfer (acc, es, before) calls = Some (acc', es', now)"
    and "hold_reach cpa xfer (ha_vault acc) (ha_ledger acc) es before"
  shows "hold_reach cpa xfer (ha_vault acc') (ha_ledger acc') es' now"
  using assms
proof (induction calls arbitrary: acc es before)
  case (Cons c calls)
  obtain ix t where c: "c = (ix, t)" by (cases c)
  then show ?case using Cons.prems Cons.IH hold_reach.called [of cpa xfer acc es before t ix]
    by (auto split: if_splits sum.splits)
qed simp

text \<open>A token program that moves exact amounts, and moves nothing that is not there.\<close>

definition demo_exact :: token_transfer where
  "demo_exact s d a =
     (if a \<le> t_amount s \<and> unat (t_amount d) + unat a < 2 ^ 64
      then Some (s\<lparr>t_amount := t_amount s - a\<rparr>, d\<lparr>t_amount := t_amount d + a\<rparr>) else None)"

lemma demo_exact_law: "token_law demo_exact"
  by (auto simp: token_law_def demo_exact_def unat_sub word_le_nat_alt unat_word_ariths)

definition demo_fpa :: "bytes list \<Rightarrow> pubkey \<times> u8" where
  "demo_fpa seeds =
     (if length seeds = 3 then (demo_key 10, 7)
      else if length (hd seeds) = 10 then (demo_key 5, 8) else (demo_key 12, 9))"

definition demo_vault_args :: InitVaultArgs where
  "demo_vault_args = \<lparr>iv_vault_id = 1, iv_guardian = demo_key 2, iv_safe_address = demo_key 3, iv_daily_limit = 100,
     iv_delay_secs = 86400, iv_big_share_bps = 2500\<rparr>"

definition demo_opened :: hold_accounts where
  "demo_opened = (case init_vault demo_fpa demo_hold demo_vault_args 1000 of Inr acc \<Rightarrow> acc | Inl _ \<Rightarrow> demo_hold)"

lemma demo_opened_ok: "init_vault demo_fpa demo_hold demo_vault_args 1000 = Inr demo_opened"
  by (simp add: demo_opened_def init_vault_def demo_fpa_def demo_vault_args_def demo_hold_def require_rules_def ascii_def
      delay_allowed_def default_key_def)


text \<open>The same vault after a deposit, after a withdrawal to an account it does not know, and after the
  day has passed.\<close>

definition demo_deposited :: hold_accounts where
  "demo_deposited = demo_opened\<lparr>ha_source := (ha_source demo_opened)\<lparr>t_amount := 0\<rparr>,
     ha_vault_token := (ha_vault_token demo_opened)\<lparr>t_amount := 500\<rparr>,
     ha_ledger := write_record (ha_ledger demo_opened) 2000 500 (demo_key 10) 0 1 0\<rparr>"

definition demo_held :: hold_accounts where
  "demo_held = held demo_deposited 0 100 91400 5000"

lemmas demo_fields = demo_opened_def init_vault_def demo_fpa_def demo_vault_args_def demo_hold_def require_rules_def ascii_def
  delay_allowed_def default_key_def opened_vault_def vault_seeds_def ledger_seeds_def token_seeds_def

lemma demo_opened_fields [simp]:
  "ha_owner demo_opened = demo_key 1" "ha_guardian demo_opened = None" "ha_vault_key demo_opened = demo_key 10"
  "ha_ledger_key demo_opened = demo_key 12" "ha_mint demo_opened = demo_key 4"
  "ha_destination demo_opened = ha_destination demo_hold" "ha_source demo_opened = ha_source demo_hold"
  "ha_vault demo_opened = opened_vault demo_fpa demo_hold demo_vault_args"
  "ha_vault_token demo_opened = (ha_vault_token demo_hold)\<lparr>t_amount := 0\<rparr>"
  by (simp_all add: demo_fields)

lemma demo_cpa_seeds [simp]:
  "demo_cpa (vault_seeds a v) = Some (demo_key 10)" "demo_cpa (token_seeds a v) = Some (demo_key 5)"
  "demo_cpa (ledger_seeds a v) = Some (demo_key 12)"
  by (simp_all add: demo_cpa_def vault_seeds_def token_seeds_def ledger_seeds_def ascii_def)

lemma demo_vault_fields [simp]:
  "hv_owner (opened_vault demo_fpa demo_hold demo_vault_args) = demo_key 1"
  "hv_mint (opened_vault demo_fpa demo_hold demo_vault_args) = demo_key 4"
  "hv_vault_token (opened_vault demo_fpa demo_hold demo_vault_args) = demo_key 5"
  "hv_frozen (opened_vault demo_fpa demo_hold demo_vault_args) = False"
  "hv_known_len (opened_vault demo_fpa demo_hold demo_vault_args) = 0"
  "hv_delay_secs (opened_vault demo_fpa demo_hold demo_vault_args) = 86400"
  "hv_next_withdrawal_id (opened_vault demo_fpa demo_hold demo_vault_args) = 1"
  "hv_pending (opened_vault demo_fpa demo_hold demo_vault_args) = replicate 8 zero_pending"
  by (simp_all add: opened_vault_def demo_hold_def demo_vault_args_def HOLD_PENDING_CAPACITY_def)

lemma demo_hold_tokens [simp]:
  "t_key (ha_vault_token demo_hold) = demo_key 5" "t_mint (ha_vault_token demo_hold) = demo_key 4"
  "t_owner (ha_vault_token demo_hold) = demo_key 10" "t_key (ha_destination demo_hold) = demo_key 6"
  "t_mint (ha_destination demo_hold) = demo_key 4" "t_owner (ha_destination demo_hold) = demo_key 11"
  "t_amount (ha_destination demo_hold) = 0" "t_mint (ha_source demo_hold) = demo_key 4"
  "t_owner (ha_source demo_hold) = demo_key 1" "t_amount (ha_source demo_hold) = 500"
  by (simp_all add: demo_hold_def)

lemma demo_deposit: "deposit demo_cpa demo_exact demo_opened 500 2000 = Inr demo_deposited"
  by (simp add: deposit_def demo_deposited_def demo_exact_def)

lemma demo_first_empty: "first_empty (opened_vault demo_fpa demo_hold demo_vault_args) = Some 0"
  using replicate_Suc [of 7 zero_pending] by (simp add: first_empty_def) (simp add: zero_pending_def)

lemma demo_withdraw: "withdraw demo_cpa demo_exact demo_deposited 100 5000 = Inr demo_held"
proof -
  have "can_pay_now (ha_vault demo_deposited) b d a t = Inr False" for b d a t
    by (simp add: can_pay_now_def is_known_def demo_deposited_def)
  then show ?thesis
    by (simp add: withdraw_def withdraw_constraints_def Let_def demo_held_def)
      (simp add: demo_deposited_def checked_add_i64_def demo_first_empty checked_add_def)
qed

definition demo_paid :: hold_accounts where
  "demo_paid = (case pay_row demo_cpa demo_exact demo_held 0 1 2 91400 of Inr acc \<Rightarrow> acc | Inl _ \<Rightarrow> demo_held)"

lemma demo_held_fields [simp]:
  "ha_owner demo_held = demo_key 1" "ha_vault_key demo_held = demo_key 10" "ha_ledger_key demo_held = demo_key 12"
  "ha_mint demo_held = demo_key 4" "ha_destination demo_held = ha_destination demo_hold"
  "ha_vault_token demo_held = (ha_vault_token demo_hold)\<lparr>t_amount := 500\<rparr>"
  "ha_vault demo_held = (opened_vault demo_fpa demo_hold demo_vault_args)\<lparr>hv_next_withdrawal_id := 2,
     hv_pending := (replicate 8 zero_pending)[0 := \<lparr>pw_id = 1, pw_amount = 100, pw_destination = demo_key 6,
       pw_unlock_at = 91400, pw_status = 1\<rparr>]\<rparr>"
  "ha_ledger demo_held = hold_record (ha_ledger demo_deposited) (hentry 5000 100 (demo_key 6) 1 3 0)"
  "ha_ledger demo_deposited = hold_record (ha_ledger demo_opened) (hentry 2000 500 (demo_key 10) 0 1 0)"
  by (simp_all add: demo_held_def held_def Let_def write_record_def) (simp_all add: demo_deposited_def write_record_def)

lemma demo_row: "hv_pending (ha_vault demo_held) ! 0 = \<lparr>pw_id = 1, pw_amount = 100, pw_destination = demo_key 6,
    pw_unlock_at = 91400, pw_status = 1\<rparr>"
  by simp

lemma demo_row_in: "hv_pending (ha_vault demo_held) ! 0 \<in> set (hv_pending (ha_vault demo_held))"
  by (rule nth_mem) simp

lemma demo_constraints: "require_all (execute_constraints demo_cpa demo_held) = None"
  by (simp add: execute_constraints_def Let_def vault_seeds_def token_seeds_def ledger_seeds_def demo_cpa_def ascii_def)

lemma demo_found: "find_pending (ha_vault demo_held) 1 = Inr 0"
  using replicate_Suc [of 7 zero_pending] by (simp add: find_pending_def)

lemma demo_pay: "pay_row demo_cpa demo_exact demo_held 0 1 2 91400 = Inr demo_paid"
  by (simp add: demo_paid_def pay_row_def Let_def transfer_out_parts_def require_vault_signer_def demo_exact_def vault_seeds_def
      token_seeds_def demo_cpa_def ascii_def)

lemma demo_execute: "execute demo_cpa demo_exact demo_held 1 91400 = Inr demo_paid"
  unfolding execute_def demo_constraints option.case demo_found sum.case Let_def demo_row
  using demo_pay by (simp add: word_le_nat_alt)

lemma demo_reach_opened:
  "hold_reach demo_cpa demo_exact (ha_vault demo_opened) (ha_ledger demo_opened) [hl_entries (ha_ledger demo_opened) ! 0] 1000"
  by (rule hold_reach.opened [OF demo_opened_ok])

lemma demo_reach_call:
  assumes "hold_reach cpa xfer (ha_vault acc) (ha_ledger acc) es before" "hold_call cpa xfer acc ix now = Inr acc'"
    and "before \<le> now" "ha_ledger acc' = hold_record (ha_ledger acc) e"
  shows "hold_reach cpa xfer (ha_vault acc') (ha_ledger acc') (es @ [e]) now"
  using hold_reach.called [OF assms(1,3,2)] hold_reach_inv [OF assms(1)] by (simp add: assms(4) written_one)

lemma demo_reach_held:
  "hold_reach demo_cpa demo_exact (ha_vault demo_held) (ha_ledger demo_held)
     [hl_entries (ha_ledger demo_opened) ! 0, hentry 2000 500 (demo_key 10) 0 1 0, hentry 5000 100 (demo_key 6) 1 3 0] 5000"
proof -
  have "hold_reach demo_cpa demo_exact (ha_vault demo_deposited) (ha_ledger demo_deposited)
      ([hl_entries (ha_ledger demo_opened) ! 0] @ [hentry 2000 500 (demo_key 10) 0 1 0]) 2000"
    by (rule demo_reach_call [OF demo_reach_opened, of "IxDeposit 500"]) (simp_all add: demo_deposit)
  from demo_reach_call [OF this, of "IxWithdraw 100" 5000 demo_held] show ?thesis by (simp add: demo_withdraw)
qed

lemma demo_paid_ledger: "ha_ledger demo_paid = hold_record (ha_ledger demo_held) (hentry 91400 100 (demo_key 6) 1 2 0)"
  using pay_row_ledger [OF demo_pay] by simp

theorem held_withdrawal_can_be_paid_witness:
  "\<exists>acc'. hold_call demo_cpa demo_exact demo_held (IxExecute 1) 91400 = Inr acc' \<and> t_amount (ha_destination acc') = 100 \<and>
     t_amount (ha_vault_token acc') = 400 \<and> find_pending (ha_vault acc') 1 = Inl WithdrawalNotPending"
proof -
  have "demo_exact (ha_vault_token demo_held) (ha_destination demo_held) (pw_amount (hv_pending (ha_vault demo_held) ! 0)) =
      Some ((ha_vault_token demo_held)\<lparr>t_amount := 400\<rparr>, (ha_destination demo_held)\<lparr>t_amount := 100\<rparr>)"
    unfolding demo_row by (simp add: demo_exact_def)
  from held_withdrawal_can_be_paid [OF demo_reach_held demo_row_in _ _ _ demo_constraints _ _ _ _ this, of 91400, unfolded demo_row]
  show ?thesis by (auto simp: word_le_nat_alt)
qed

theorem payments_were_waited_for_witness:
  "\<exists>es. hold_reach demo_cpa demo_exact (ha_vault demo_paid) (ha_ledger demo_paid) es 91400 \<and> length es = 4 \<and>
     waiting (take 3 es) 1 100 (demo_key 6) 91400"
proof -
  let ?e = "hentry 91400 100 (demo_key 6) 1 2 0"
  let ?es = "[hl_entries (ha_ledger demo_opened) ! 0, hentry 2000 500 (demo_key 10) 0 1 0, hentry 5000 100 (demo_key 6) 1 3 0]"
  from demo_reach_call [OF demo_reach_held, of "IxExecute 1" 91400, OF _ _ demo_paid_ledger] demo_execute
  have r: "hold_reach demo_cpa demo_exact (ha_vault demo_paid) (ha_ledger demo_paid) (?es @ [?e]) 91400" by simp
  from payments_were_waited_for [OF r, of 3] show ?thesis
    by (intro exI [of _ "?es @ [?e]"] conjI r) simp_all
qed

theorem hold_vault_stays_valid_witness: "hold_wf (ha_vault demo_held) \<and> hv_safe_address (ha_vault demo_held) \<noteq> default_key"
  using hold_vault_stays_valid [OF demo_reach_held] by blast

theorem outflow_is_recorded_witness:
  "balanced demo_held demo_paid [hentry 91400 100 (demo_key 6) 1 2 0] \<and> paid_out [hentry 91400 100 (demo_key 6) 1 2 0] = 100"
  using outflow_is_recorded [OF demo_reach_held demo_exact_law, of "IxExecute 1" 91400 demo_paid] demo_execute
    hold_reach_inv [OF demo_reach_held]
  by (simp add: demo_paid_ledger written_one paid_out_def)

text \<open>The owner doubles the daily limit: the change waits a day.\<close>

definition demo_change :: HoldChange where
  "demo_change = \<lparr>hc_daily_limit = 200, hc_delay_secs = 86400, hc_big_share_bps = 2500, hc_guardian = demo_key 2,
     hc_safe_address = demo_key 3\<rparr>"

definition demo_proposed :: hold_accounts where
  "demo_proposed = demo_opened\<lparr>ha_vault := (ha_vault demo_opened)\<lparr>hv_change := proposed_change demo_change 1 88400\<rparr>,
     ha_ledger := hold_record (ha_ledger demo_opened) (hentry 2000 0 (demo_key 3) 0 9 1)\<rparr>"

definition demo_changed :: hold_accounts where
  "demo_changed = demo_proposed\<lparr>ha_vault := changed (ha_vault demo_proposed),
     ha_ledger := hold_record (ha_ledger demo_proposed) (hentry 88400 0 (demo_key 3) 0 10 1)\<rparr>"

lemma demo_rule_fields [simp]:
  "hv_daily_limit (opened_vault demo_fpa demo_hold demo_vault_args) = 100"
  "hv_big_share_bps (opened_vault demo_fpa demo_hold demo_vault_args) = 2500"
  "hv_guardian (opened_vault demo_fpa demo_hold demo_vault_args) = demo_key 2"
  "hv_safe_address (opened_vault demo_fpa demo_hold demo_vault_args) = demo_key 3"
  "hv_change (opened_vault demo_fpa demo_hold demo_vault_args) = zero_change"
  by (simp_all add: opened_vault_def demo_vault_args_def)

lemma demo_bits: "tighten_bits (ha_vault demo_opened) demo_change = 0" "loosen_bits (ha_vault demo_opened) demo_change = 1"
  by (simp_all add: tighten_bits_def loosen_bits_def demo_change_def)

lemma demo_tightened: "tightened v c 0 = v"
  by (simp add: tightened_def)

lemma demo_propose: "propose_change demo_cpa demo_opened demo_change 2000 = Inr demo_proposed"
  unfolding propose_change_def Let_def demo_bits demo_tightened
  by (simp add: owner_constraints_def require_rules_def write_record_def demo_proposed_def checked_add_i64_def zero_change_def)
    (simp add: demo_change_def delay_allowed_def default_key_def)

lemma demo_apply: "apply_change demo_cpa demo_proposed 88400 = Inr demo_changed"
  by (simp add: apply_change_def Let_def demo_proposed_def proposed_change_def demo_changed_def write_record_def)
    (simp add: demo_change_def)

theorem loosening_waits_witness:
  "\<exists>es. hold_reach demo_cpa demo_exact (ha_vault demo_proposed) (ha_ledger demo_proposed) es 2000 \<and>
     (\<exists>e \<in> set es. he_kind e = 9 \<and> he_ts e + 24 * 60 * 60 \<le> 88400)"
proof -
  have r: "hold_reach demo_cpa demo_exact (ha_vault demo_proposed) (ha_ledger demo_proposed)
      ([hl_entries (ha_ledger demo_opened) ! 0] @ [hentry 2000 0 (demo_key 3) 0 9 1]) 2000"
    by (rule demo_reach_call [OF demo_reach_opened, of "IxProposeChange demo_change"])
      (simp_all add: demo_propose demo_proposed_def)
  have "looser (ha_vault demo_proposed) (ha_vault demo_changed)"
    by (simp add: looser_def demo_changed_def demo_proposed_def changed_def Let_def proposed_change_def demo_change_def)
  moreover have "hold_call demo_cpa demo_exact demo_proposed IxApplyChange 88400 = Inr demo_changed" by (simp add: demo_apply)
  ultimately show ?thesis using loosening_waits [OF r] r by blast
qed

end
