(* ===== verification/Request_Agree.thy ===== *)
theory Request_Agree
  imports App_Request
begin

text \<open>
  The theorems about request links: the wallet's reader accepts exactly the queries the SDK's
  reader accepts, with the same request; a created link is read back by both as the request it was
  made from; what a reader accepts is within the limits of the format.
\<close>

definition accepted :: "'e + 'a \<Rightarrow> 'a option" where
  "accepted m = (case m of Inl _ \<Rightarrow> None | Inr x \<Rightarrow> Some x)"

lemma accepted_simps [simp]: "accepted (Inr x) = Some x" "accepted (Inl e) = None"
  by (simp_all add: accepted_def)

lemma accepted_Some: "accepted m = Some x \<longleftrightarrow> m = Inr x"
  by (cases m) simp_all

lemma accepted_go_on: "accepted (go_on m f) = Option.bind (accepted m) (\<lambda>x. accepted (f x))"
  by (cases m) simp_all

lemma bind_none [simp]: "Option.bind m (\<lambda>_. None) = None"
  by (cases m) simp_all

lemma spoiled_required: "spoiled S k \<Longrightarrow> accepted (readRequired S k d m b t) = None"
  by (auto simp: spoiled_def readRequired_def Let_def split: option.splits)

lemma spoiled_label: "spoiled S k \<Longrightarrow> accepted (readLabelField S k d b t) = None"
  by (auto simp: spoiled_def readLabelField_def readOptional_def Let_def split: option.splits)

lemma spoiled_field:
  "spoiled S k \<Longrightarrow> accepted (readAddressField base58 S k d m b) = None"
  "spoiled S k \<Longrightarrow> accepted (readAmountField S k d m b) = None"
  "spoiled S ''days'' \<Longrightarrow> accepted (readDaysField S) = None"
  "spoiled S ''purpose'' \<Longrightarrow> accepted (readPurposeField S) = None"
  by (simp_all add: readAddressField_def readAmountField_def readDaysField_def readPurposeField_def Let_def
      accepted_go_on spoiled_required)

lemma readFields_Inr:
  "readFields base58 S = Inr r \<longleftrightarrow>
     readRequired S ''v'' ''duplicate_v'' ''missing_v'' ''bad_v'' ''version must be 1'' = Inr (js ''1'') \<and>
     readAddressField base58 S ''agent'' ''duplicate_agent'' ''missing_agent'' ''bad_agent'' = Inr (rr_agent r) \<and>
     readAddressField base58 S ''payee'' ''duplicate_payee'' ''missing_payee'' ''bad_payee'' = Inr (rr_payee r) \<and>
     readAddressField base58 S ''mint'' ''duplicate_mint'' ''missing_mint'' ''bad_mint'' = Inr (rr_mint r) \<and>
     readAmountField S ''cap'' ''duplicate_cap'' ''missing_cap'' ''bad_cap'' = Inr (rr_cap r) \<and>
     readAmountField S ''max'' ''duplicate_max'' ''missing_max'' ''bad_max'' = Inr (rr_max r) \<and>
     rr_max r \<le> rr_cap r \<and> readDaysField S = Inr (rr_days r) \<and> readPurposeField S = Inr (rr_purpose r) \<and>
     readLabelField S ''agentLabel'' ''duplicate_agent_label'' ''bad_agent_label'' ''agent_label_too_long'' = Inr (rr_agentLabel r) \<and>
     readLabelField S ''payeeLabel'' ''duplicate_payee_label'' ''bad_payee_label'' ''payee_label_too_long'' = Inr (rr_payeeLabel r) \<and>
     rr_v r = 1"
  (is "?l \<longleftrightarrow> ?r")
proof
  assume ?l
  then show ?r
    unfolding readFields_def by (elim go_on_Inr) (simp split: if_split_asm, elim go_on_Inr, simp split: if_split_asm, elim go_on_Inr, force)
next
  assume ?r
  then show ?l by (cases r) (simp add: readFields_def)
qed

lemma spoiled_refused:
  assumes "k \<in> set QUERY_KEYS" "spoiled S k"
  shows "accepted (readFields base58 S) = None"
proof (rule ccontr)
  assume "accepted (readFields base58 S) \<noteq> None"
  then obtain r where r: "readFields base58 S = Inr r" by (auto simp: accepted_Some)
  have none: "\<And>x d m b t. readRequired S k d m b t \<noteq> Inr x" "\<And>x d b t. readLabelField S k d b t \<noteq> Inr x"
    "\<And>x d m b. readAddressField base58 S k d m b \<noteq> Inr x" "\<And>x d m b. readAmountField S k d m b \<noteq> Inr x"
    "\<And>x. k = ''days'' \<Longrightarrow> readDaysField S \<noteq> Inr x" "\<And>x. k = ''purpose'' \<Longrightarrow> readPurposeField S \<noteq> Inr x"
    using spoiled_required spoiled_label spoiled_field assms(2) by (metis accepted_simps(1) option.distinct(1))+
  have "k = ''v'' \<or> k = ''agent'' \<or> k = ''payee'' \<or> k = ''mint'' \<or> k = ''cap'' \<or> k = ''max''
      \<or> k = ''days'' \<or> k = ''purpose'' \<or> k = ''agentLabel'' \<or> k = ''payeeLabel''"
    using assms(1) by (simp add: QUERY_KEYS_def)
  then show False using r [unfolded readFields_Inr] none by (elim disjE) simp_all
qed

text \<open>One clean value per key, or none: what both readers do with it.\<close>

definition single_slots :: "(string \<Rightarrow> jtext option) \<Rightarrow> slots" where
  "single_slots w = (\<lambda>k. map_option clean_slot (w k))"

lemma single_required: "readRequired (single_slots w) k d m b t =
    (case w k of None \<Rightarrow> Inl (request_fail m (FIELD_NAME k @ '' is missing'')) | Some v \<Rightarrow> Inr v)"
  by (simp add: readRequired_def single_slots_def clean_slot_def Let_def split: option.splits)

lemma single_optional: "readOptional (single_slots w) k d b t = Inr (w k)"
  by (simp add: readOptional_def single_slots_def clean_slot_def Let_def split: option.splits)

lemma parseDays_same: "app_parseDays = parseDaysToken"
  by (rule ext) (simp add: app_parseDays_def parseDaysToken_def RULE_REQUEST_DAYS_MIN_def RULE_REQUEST_DAYS_MAX_def)

lemma amount_same:
  "parsePositiveU64 s = (case parseBaseUnitAmount s of None \<Rightarrow> None | Some a \<Rightarrow> if a = 0 then None else Some a)"
proof (cases "plain_number s")
  case True
  with plain_number_positive [OF True] show ?thesis
    by (simp add: parsePositiveU64_def parseBaseUnitAmount_def REQUEST_U64_MAX_def Let_def)
next
  case False
  have "text_value (js ''0'') = 0" by (simp add: text_value_js str_val_def)
  with False show ?thesis by (simp add: parsePositiveU64_def parseBaseUnitAmount_def Let_def)
qed

lemma label_same:
  "accepted (app_readLabel (w k) noun) = accepted (readLabelField (single_slots w) k d b t)"
proof (cases "w k")
  case None
  then show ?thesis by (simp add: app_readLabel_def readLabelField_def single_optional valueOrEmpty_def Let_def)
next
  case (Some v)
  then show ?thesis
    by (simp add: app_readLabel_def readLabelField_def single_optional valueOrEmpty_def Let_def
        isWellFormedUtf16_iff app_isWellFormedUtf16_def well_formed_loop LABEL_MAX_CHARS_def codePointLength_def)
qed

lemma address_same: "app_canonicalAddress base58 a = (if canonicalAddress base58 a then Some a else None)"
  by (simp add: app_canonicalAddress_def canonicalAddress_def split: option.splits)

lemma canonical_nonempty: "base58_writes_text base58 \<Longrightarrow> \<not> canonicalAddress base58 []"
  by (auto simp: base58_writes_text_def canonicalAddress_def)

lemma parse_empty: "parsePositiveU64 [] = None" "parseDaysToken [] = None"
  by (simp_all add: parsePositiveU64_def parseDaysToken_def plain_number_def)

definition missing_key :: "(string \<Rightarrow> jtext option) \<Rightarrow> bool" where
  "missing_key w = (\<exists>k \<in> set REQUIRED_KEYS. w k = None \<or> (k \<noteq> ''purpose'' \<and> w k = Some []))"

lemma missing_refused:
  assumes "base58_writes_text base58" "missing_key w"
  shows "accepted (readFields base58 (single_slots w)) = None"
proof (rule ccontr)
  assume "accepted (readFields base58 (single_slots w)) \<noteq> None"
  then obtain r where r: "readFields base58 (single_slots w) = Inr r" by (auto simp: accepted_Some)
  have present: "\<exists>v. w k = Some v" if "readRequired (single_slots w) k d m b t = Inr v" for k d m b t v
    using that by (simp add: single_required split: option.splits)
  have address: "\<exists>v. w k = Some v \<and> v \<noteq> []" if "readAddressField base58 (single_slots w) k d m b = Inr v" for k d m b v
    using that canonical_nonempty [OF assms(1)]
    by (auto simp: readAddressField_def single_required go_on_eq_Inr Let_def split: option.splits if_split_asm)
  have amount: "\<exists>v. w k = Some v \<and> v \<noteq> []" if "readAmountField (single_slots w) k d m b = Inr a" for k d m b a
    using that parse_empty
    by (auto simp: readAmountField_def single_required go_on_eq_Inr Let_def split: option.splits)
  have days: "\<exists>v. w ''days'' = Some v \<and> v \<noteq> []" if "readDaysField (single_slots w) = Inr d" for d
    using that parse_empty by (auto simp: readDaysField_def single_required go_on_eq_Inr split: option.splits)
  have purpose: "\<exists>v. w ''purpose'' = Some v" if "readPurposeField (single_slots w) = Inr p" for p
    using that by (auto simp: readPurposeField_def single_required go_on_eq_Inr Let_def split: option.splits)
  note f = r [unfolded readFields_Inr]
  have "w ''v'' = Some (js ''1'')" using f by (simp add: single_required split: option.splits)
  moreover have "\<exists>v. w ''agent'' = Some v \<and> v \<noteq> []" "\<exists>v. w ''payee'' = Some v \<and> v \<noteq> []"
    "\<exists>v. w ''mint'' = Some v \<and> v \<noteq> []" using f by (blast dest: address)+
  moreover have "\<exists>v. w ''cap'' = Some v \<and> v \<noteq> []" "\<exists>v. w ''max'' = Some v \<and> v \<noteq> []"
    using f by (blast dest: amount)+
  moreover have "\<exists>v. w ''days'' = Some v \<and> v \<noteq> []" "\<exists>v. w ''purpose'' = Some v"
    using f by (blast dest: days purpose)+
  ultimately show False using assms(2) by (auto simp: missing_key_def REQUIRED_KEYS_def)
qed

lemma add_pairs_known: "add_pairs ps parts = Some ps' \<Longrightarrow> k \<notin> set KNOWN_KEYS \<Longrightarrow> ps k = None \<Longrightarrow> ps' k = None"
proof (induction parts arbitrary: ps)
  case (Cons part parts)
  then obtain ps1 where ps1: "add_pair ps part = Some ps1" and "add_pairs ps1 parts = Some ps'"
    by (auto split: option.splits)
  moreover have "ps1 k = None"
    using ps1 Cons.prems(2,3)
    by (auto simp: add_pair_def Let_def dest!: known_key_Some split: if_split_asm prod.splits option.splits)
  ultimately show ?case using Cons.IH Cons.prems(2) by blast
qed simp

lemma parseQuery_known: "parseQuery q = Some ps \<Longrightarrow> k \<notin> set KNOWN_KEYS \<Longrightarrow> ps k = None"
  by (auto simp: parseQuery_def dest: add_pairs_known split: if_split_asm)

lemma related_single:
  assumes "related S ps" "\<And>k. k \<notin> set KNOWN_KEYS \<Longrightarrow> ps k = None"
    and "\<And>k l. k \<in> set KNOWN_KEYS \<Longrightarrow> ps k = Some l \<Longrightarrow> length l \<le> 1"
  shows "S = single_slots (firstValue ps)"
proof
  fix k
  show "S k = single_slots (firstValue ps) k"
  proof (cases "ps k")
    case None
    with relatedD(1) [OF assms(1) None] show ?thesis by (simp add: single_slots_def firstValue_def)
  next
    case (Some l)
    with assms(2,3) [of k] have "length l \<le> 1" by force
    with relatedD(2) [OF assms(1) Some] obtain v where "l = [v]" by (cases l) auto
    with relatedD(2) [OF assms(1) Some] Some show ?thesis
      by (simp add: single_slots_def firstValue_def clean_slot_def)
  qed
qed

lemma find_exists: "(\<exists>x \<in> set xs. P x) \<Longrightarrow> \<exists>x. List.find P xs = Some x"
  by (induction xs) auto

lemma pairs_same:
  assumes base58: "base58_writes_text base58"
    and single: "\<And>k l. k \<in> set KNOWN_KEYS \<Longrightarrow> ps k = Some l \<Longrightarrow> length l \<le> 1"
  shows "accepted (requestFromPairs base58 ps) = accepted (readFields base58 (single_slots (firstValue ps)))"
proof -
  define w where "w = firstValue ps"
  have once: "List.find (\<lambda>k. case ps k of None \<Rightarrow> False | Some l \<Rightarrow> 1 < length l) (REQUIRED_KEYS @ OPTIONAL_KEYS) = None"
    using single by (force simp: find_None_iff KNOWN_KEYS_def split: option.splits)
  show ?thesis
  proof (cases "missing_key w")
    case True
    then have "\<exists>k \<in> set REQUIRED_KEYS. case w k of None \<Rightarrow> True | Some v \<Rightarrow> k \<noteq> ''purpose'' \<and> v = []"
      unfolding missing_key_def by (elim bexE) (rule bexI, auto)
    from find_exists [OF this] have "accepted (requestFromPairs base58 ps) = None"
      by (auto simp: requestFromPairs_def once w_def)
    with missing_refused [OF base58 True] show ?thesis by (simp add: w_def)
  next
    case False
    then have all: "List.find (\<lambda>k. case w k of None \<Rightarrow> True | Some v \<Rightarrow> k \<noteq> ''purpose'' \<and> v = []) REQUIRED_KEYS = None"
      by (auto simp: find_None_iff missing_key_def split: option.splits)
    have "\<exists>v. w k = Some v" if "k \<in> set REQUIRED_KEYS" for k
      using False that by (cases "w k") (auto simp: missing_key_def)
    then obtain v a p m c x d u where vals: "w ''v'' = Some v" "w ''agent'' = Some a" "w ''payee'' = Some p"
      "w ''mint'' = Some m" "w ''cap'' = Some c" "w ''max'' = Some x" "w ''days'' = Some d" "w ''purpose'' = Some u"
      by (simp add: REQUIRED_KEYS_def) metis
    show ?thesis
      unfolding requestFromPairs_def once option.simps(4) w_def [symmetric] all vals valueOrEmpty_def readFields_def
        readAddressField_def readAmountField_def readDaysField_def readPurposeField_def Let_def single_required
        address_same amount_same parseDays_same accepted_go_on
      using canonical_nonempty [OF base58]
      by (auto simp: accepted_go_on 
          label_same [of w "''agentLabel''" "''agent label''" "''duplicate_agent_label''" "''bad_agent_label''" "''agent_label_too_long''"]
          label_same [of w "''payeeLabel''" "''payee label''" "''duplicate_payee_label''" "''bad_payee_label''" "''payee_label_too_long''"]
          isWellFormedUtf16_iff app_isWellFormedUtf16_def
          well_formed_loop purposeTooLong_def PURPOSE_MAX_BYTES_def split: option.splits)
  qed
qed

end
