(* ===== verification/Request_Links.thy ===== *)
theory Request_Links
  imports Request_Agree
begin

text \<open>
  The properties of request links that join the writer, the SDK's reader and the wallet's reader.
\<close>

lemma queries_agree:
  assumes "base58_writes_text base58"
  shows "(case parseQuery q of None \<Rightarrow> None | Some ps \<Rightarrow> accepted (requestFromPairs base58 ps))
       = accepted (readFields base58 (parseSlots (question # q)))"
proof (cases "parseQuery q")
  case None
  then show ?thesis using parseQuery_related [of q] by (auto simp: spoiled_refused)
next
  case (Some ps)
  then have rel: "related (parseSlots (question # q)) ps" using parseQuery_related [of q] by simp
  show ?thesis
  proof (cases "\<exists>k \<in> set KNOWN_KEYS. \<exists>l. ps k = Some l \<and> 1 < length l")
    case True
    then obtain k l where k: "k \<in> set KNOWN_KEYS" "ps k = Some l" "1 < length l" by blast
    then have "spoiled (parseSlots (question # q)) k" using relatedD(2) [OF rel] by (simp add: spoiled_def)
    with k(1) have "accepted (readFields base58 (parseSlots (question # q))) = None"
      by (simp add: known_keys_same spoiled_refused)
    moreover have "\<exists>k \<in> set (REQUIRED_KEYS @ OPTIONAL_KEYS). case ps k of None \<Rightarrow> False | Some l \<Rightarrow> 1 < length l"
      using k by (intro bexI [of _ k]) (simp_all add: KNOWN_KEYS_def)
    from find_exists [OF this] have "accepted (requestFromPairs base58 ps) = None"
      by (auto simp: requestFromPairs_def)
    ultimately show ?thesis by (simp add: Some)
  next
    case False
    then have single: "\<And>k l. k \<in> set KNOWN_KEYS \<Longrightarrow> ps k = Some l \<Longrightarrow> length l \<le> 1"
      by (meson not_le)
    show ?thesis
      using pairs_same [OF assms single] related_single [OF rel parseQuery_known [OF Some] single]
      by (simp add: Some)
  qed
qed

text \<open>A stand-in for the key constructor that has the documented behaviour: it refuses a text that
  is empty or has another character than a letter or a digit, and writes the others back.\<close>

definition demo_base58 :: "jtext \<Rightarrow> jtext option" where
  "demo_base58 s = (if s \<noteq> [] \<and> list_all letter_or_digit s then Some s else None)"

lemma demo_base58_writes_text: "base58_writes_text demo_base58"
  by (simp add: base58_writes_text_def demo_base58_def)

text \<open>C27: the wallet and the SDK accept the same queries, with the same request, whatever the query
  holds: repeated or unknown keys, broken escapes, empty values, an empty query. The two were
  written separately and check in a different order; only the reason they give may differ.\<close>

theorem app_accepts_what_sdk_accepts:
  assumes "base58_writes_text base58"
  shows "(case parseQuery q of None \<Rightarrow> None | Some ps \<Rightarrow> accepted (requestFromPairs base58 ps))
       = accepted (readFields base58 (parseSlots (question # q)))"
  using assms by (rule queries_agree)

lemma app_accepts_what_sdk_accepts_witness:
  "(case parseQuery (js ''v=1&v=2'') of None \<Rightarrow> None | Some ps \<Rightarrow> accepted (requestFromPairs demo_base58 ps))
     = accepted (readFields demo_base58 (parseSlots (question # js ''v=1&v=2'')))"
  by (rule app_accepts_what_sdk_accepts) (rule demo_base58_writes_text)

lemma query_unit_plain: "query_unit u \<Longrightarrow> \<not> js_space u \<and> u \<noteq> unit_of (CHR ''#'') \<and> \<not> line_break u"
proof -
  assume "query_unit u"
  then have "unreserved (unat u) \<or> unat u \<in> {37, 38, 61}"
    by (auto simp: query_unit_def link_unit_def percent_unit amp_def equals_sign_def unat_unit_of)
  then have "unat u \<notin> {9, 10, 11, 12, 13, 32, 35, 160}" "unat u < 127"
    by (auto simp: unreserved_def)
  moreover from this have "unat u \<noteq> unat (unit_of (CHR ''#''))" by (simp add: unat_unit_of)
  ultimately show ?thesis by (auto simp: js_space_def line_break_def Let_def)
qed

lemma prefix_plain:
  "list_all (\<lambda>u. \<not> js_space u \<and> u \<noteq> unit_of (CHR ''#'') \<and> u \<noteq> question) (js ''veto://rule-request'')"
  by (simp add: js_def js_space_def question_def unat_unit_of)

lemma prefix_lower: "map lower_unit (js ''veto://rule-request'') = js ''veto://rule-request''"
  by (simp add: js_def lower_unit_def unat_unit_of)

lemma app_link:
  assumes "list_all query_unit q"
  defines "link \<equiv> js ''veto://rule-request?'' @ q"
  shows "js_trim link = link" "isRuleRequestUrl link" "stripHash link = link" "snd (cut_at question link) = q"
proof -
  have link: "link = js ''veto://rule-request'' @ question # q"
    by (simp add: link_def js_def question_def)
  have q: "\<not> js_space question" "question \<noteq> unit_of (CHR ''#'')"
    by (simp_all add: js_space_def question_def unat_unit_of)
  have plain: "\<not> js_space u \<and> u \<noteq> unit_of (CHR ''#'')" if "u \<in> set link" for u
  proof -
    from that consider "u \<in> set (js ''veto://rule-request'')" | "u = question" | "u \<in> set q"
      unfolding link by (auto simp del: js_inj)
    then show ?thesis
    proof cases
      case 1
      with prefix_plain show ?thesis by (simp add: list_all_iff)
    next
      case 2
      with q show ?thesis by simp
    next
      case 3
      with assms(1) show ?thesis using query_unit_plain [of u] by (simp add: list_all_iff)
    qed
  qed
  show trim: "js_trim link = link" using plain by (intro js_trim_id) blast
  show strip: "stripHash link = link" unfolding stripHash_def using plain by (intro takeWhile_eq_all_conv [THEN iffD2]) blast
  have len: "length (js ''veto://rule-request'') = 19" by (simp add: js_def)
  have "request_pattern link"
    using assms(1) query_unit_plain
    by (auto simp: request_pattern_def link len prefix_lower question_def list_all_iff simp del: js_inj)
  then show "isRuleRequestUrl link" by (simp add: isRuleRequestUrl_def trim strip)
  have "question \<notin> set (js ''veto://rule-request'')" using prefix_plain by (auto simp: list_all_iff)
  then show "snd (cut_at question link) = q" unfolding link by (simp add: cut_at_append)
qed

lemma app_parse_link:
  assumes "list_all query_unit q"
  shows "app_parseRuleRequest base58 (js ''veto://rule-request?'' @ q) =
     (case parseQuery q of None \<Rightarrow> Inl ''The request is not percent-encoded UTF-8.''
      | Some ps \<Rightarrow> requestFromPairs base58 ps)"
  using app_link [OF assms] by (simp add: app_parseRuleRequest_def)

text \<open>C26: for every input, the SDK either rejects it with the first problem of the input, or writes a
  link that the SDK's reader and the wallet's reader both turn into the request the input stands
  for: every limit, address, purpose and label arrives unchanged, and the writer never throws
  a \<open>URIError\<close>.\<close>

theorem created_request_is_read:
  assumes "base58_writes_text base58" "url_keeps_query parseUrl"
  shows "case readInput base58 inp of
           Inl e \<Rightarrow> createRuleRequest base58 inp = Inl (Rejected e)
         | Inr r \<Rightarrow> \<exists>link. createRuleRequest base58 inp = Inr link
                     \<and> parseRuleRequest base58 parseUrl link = Inr r
                     \<and> app_parseRuleRequest base58 link = Inr r
                     \<and> readScannedText base58 link = ScannedRequest link"
proof (cases "readInput base58 inp")
  case (Inr r)
  then have valid: "valid_request base58 r" by (rule readInput_valid)
  obtain q where q: "encode_query (request_pairs r) = Some q" using assms(1) valid by (rule request_query)
  note keys = request_pairs_keys [OF valid]
  have units: "list_all query_unit q" using keys q by (rule query_units)
  define link where "link = js ''veto://rule-request?'' @ q"
  have "createRuleRequest base58 inp = Inr link" by (simp add: createRuleRequest_def Inr formatRequest_def q link_def)
  moreover have read: "readFields base58 (parseSlots (question # q)) = Inr r"
    unfolding parseSlots_def slots_of_query [OF keys(1) q] using valid by (rule readFields_query)
  have "parseUrl link = Some (request_url q)"
    using assms(2) query_nonempty [OF keys(1) q] units unfolding url_keeps_query_def link_def by blast
  then have "parseRuleRequest base58 parseUrl link = Inr r"
    using read by (simp add: parseRuleRequest_def) (simp add: request_url_def)
  moreover have "app_parseRuleRequest base58 link = Inr r"
    using queries_agree [OF assms(1), of q] read
    by (auto simp: link_def app_parse_link [OF units] accepted_Some split: option.splits)
  moreover have "readScannedText base58 link = ScannedRequest link"
    using app_link [OF units] by (simp add: readScannedText_def link_def)
  ultimately show ?thesis by (simp add: Inr)
qed (simp add: createRuleRequest_def)

definition demo_parseUrl :: "jtext \<Rightarrow> Url option" where
  "demo_parseUrl s =
     (if take 20 s = js ''veto://rule-request?'' \<and> drop 20 s \<noteq> [] then Some (request_url (drop 20 s)) else None)"

lemma demo_parseUrl_keeps_query: "url_keeps_query demo_parseUrl"
proof -
  have "length (js ''veto://rule-request?'') = 20" by (simp add: js_def)
  then show ?thesis by (simp add: url_keeps_query_def demo_parseUrl_def)
qed

definition demo_input :: RuleRequestInput where
  "demo_input =
     \<lparr>in_agent = Text (js ''AgentKey''), in_payee = Text (js ''PayeeKey''), in_mint = Text (js ''MintKey''),
      in_cap = BigInt 80000000, in_max = IntegralNumber 12000000, in_days = IntegralNumber 30,
      in_purpose = Text (js ''a & b''), in_agentLabel = Text (js ''car''), in_payeeLabel = Undefined\<rparr>"

definition demo_request :: RuleRequest where
  "demo_request =
     \<lparr>rr_v = 1, rr_agent = js ''AgentKey'', rr_payee = js ''PayeeKey'', rr_mint = js ''MintKey'',
      rr_cap = 80000000, rr_max = 12000000, rr_days = 30, rr_purpose = js ''a & b'',
      rr_agentLabel = Some (js ''car''), rr_payeeLabel = None\<rparr>"

lemma code_points_plain: "(\<And>u. u \<in> set s \<Longrightarrow> \<not> hi_surrogate u) \<Longrightarrow> code_points s = map unat s"
  by (induction s rule: code_points.induct) simp_all

lemma code_points_js: "code_points (js s) = map of_char s"
proof -
  have low: "\<not> hi_surrogate (unit_of c)" for c
  proof -
    have "(of_char c :: nat) < 0xD800" using nat_of_char_less_256 [of c] by linarith
    then show ?thesis by (simp add: hi_surrogate_def unat_unit_of)
  qed
  have "code_points (js s) = map unat (js s)" by (rule code_points_plain) (auto simp: js_def low)
  then show ?thesis by (simp add: js_def unat_unit_of comp_def)
qed

definition letter_char :: "char \<Rightarrow> bool" where
  "letter_char c = (let n = (of_char c :: nat) in (48 \<le> n \<and> n \<le> 57) \<or> (65 \<le> n \<and> n \<le> 90) \<or> (97 \<le> n \<and> n \<le> 122))"

lemma demo_canonical: "s \<noteq> [] \<Longrightarrow> list_all letter_char s \<Longrightarrow> canonicalAddress demo_base58 (js s)"
  by (auto simp: canonicalAddress_def demo_base58_def js_def list_all_iff letter_or_digit_def letter_char_def unat_unit_of)

lemma ascii_byteLength: "list_all (\<lambda>c. (of_char c :: nat) < 128) s \<Longrightarrow> byteLength (js s) = length s"
proof -
  assume "list_all (\<lambda>c. (of_char c :: nat) < 128) s"
  then have "length (concat (map utf8_point (map of_char s))) = length s"
    by (induction s) (simp_all add: utf8_point_def)
  then show ?thesis by (simp add: byteLength_def code_points_js)
qed

lemma demo_addresses:
  "canonicalAddress demo_base58 (js ''AgentKey'')" "canonicalAddress demo_base58 (js ''PayeeKey'')"
  "canonicalAddress demo_base58 (js ''MintKey'')"
  by (rule demo_canonical; simp add: letter_char_def)+

lemma demo_texts:
  "\<not> purposeTooLong (js ''a & b'')" "isWellFormedUtf16 (js ''a & b'')" "isWellFormedUtf16 (js ''car'')"
  "\<not> LABEL_MAX_CHARS < codePointLength (js ''car'')"
  by (simp_all add: purposeTooLong_def ascii_byteLength PURPOSE_MAX_BYTES_def isWellFormedUtf16_iff well_formed_js
      codePointLength_def code_points_js LABEL_MAX_CHARS_def)

lemma demo_readInput: "readInput demo_base58 demo_input = Inr demo_request"
  by (simp add: readInput_def demo_input_def demo_request_def readInputAddress_def readInputAmount_def readInputDays_def
      readInputPurpose_def readInputLabel_def demo_addresses demo_texts RULE_REQUEST_DAYS_MIN_def
      RULE_REQUEST_DAYS_MAX_def REQUEST_U64_MAX_def)

lemma created_request_is_read_witness:
  "readInput demo_base58 demo_input = Inr demo_request
   \<and> (\<exists>link. createRuleRequest demo_base58 demo_input = Inr link
        \<and> parseRuleRequest demo_base58 demo_parseUrl link = Inr demo_request
        \<and> app_parseRuleRequest demo_base58 link = Inr demo_request
        \<and> readScannedText demo_base58 link = ScannedRequest link)"
  using created_request_is_read [OF demo_base58_writes_text demo_parseUrl_keeps_query, of demo_input]
  by (simp add: demo_readInput)

text \<open>The limits of the format, written out.\<close>

definition within_limits :: "(jtext \<Rightarrow> jtext option) \<Rightarrow> RuleRequest \<Rightarrow> bool" where
  "within_limits base58 r =
     (1 \<le> rr_max r \<and> rr_max r \<le> rr_cap r \<and> rr_cap r < 2 ^ 64 \<and> 1 \<le> rr_days r \<and> rr_days r \<le> 3650
      \<and> base58 (rr_agent r) = Some (rr_agent r) \<and> base58 (rr_payee r) = Some (rr_payee r)
      \<and> base58 (rr_mint r) = Some (rr_mint r)
      \<and> well_formed (rr_purpose r) \<and> byteLength (rr_purpose r) \<le> 64
      \<and> (case rr_agentLabel r of None \<Rightarrow> True | Some l \<Rightarrow> l \<noteq> [] \<and> length (code_points l) \<le> 64)
      \<and> (case rr_payeeLabel r of None \<Rightarrow> True | Some l \<Rightarrow> l \<noteq> [] \<and> length (code_points l) \<le> 64))"

lemma valid_within_limits: "valid_request base58 r \<Longrightarrow> within_limits base58 r"
  by (auto simp: valid_request_def within_limits_def valid_amount_def valid_days_def valid_purpose_def valid_label_def
      canonicalAddress_def isWellFormedUtf16_iff REQUEST_U64_MAX_def RULE_REQUEST_DAYS_MIN_def RULE_REQUEST_DAYS_MAX_def
      PURPOSE_MAX_BYTES_def LABEL_MAX_CHARS_def codePointLength_def split: option.splits)

lemma app_request_valid:
  assumes "base58_writes_text base58" "app_parseRuleRequest base58 s = Inr r"
  shows "valid_request base58 r"
proof -
  from assms(2) obtain q ps where "parseQuery q = Some ps" "requestFromPairs base58 ps = Inr r"
    by (auto simp: app_parseRuleRequest_def Let_def split: if_split_asm option.splits)
  then have "readFields base58 (parseSlots (question # q)) = Inr r"
    using queries_agree [OF assms(1), of q] by (simp add: accepted_Some [symmetric])
  then show ?thesis by (rule readFields_valid)
qed



end
