(* ===== verification/Trade_Request.thy ===== *)
theory Trade_Request
  imports Request_Links
begin

text \<open>
  The second version of the request links (\<open>sdk/src/rule-request.ts\<close>, from
  \<open>TRADE_QUERY_KEYS\<close> on): a trade rule for one pinned pool. The readers repeat those of the
  first version over other tables; the lemmas \<open>trade_reader_same\<close> identify them, so that the
  facts of Request_Read and Request_Check carry over. The properties: the reader reports the first
  problem of its own order, a created link is read back, and the reader of the first version
  stops at its version.
\<close>

definition TRADE_QUERY_KEYS :: "string list" where
  "TRADE_QUERY_KEYS =
     [''v'', ''kind'', ''agent'', ''inMint'', ''outMint'', ''pool'', ''perTrade'', ''daily'', ''cap'',
      ''floorBps'', ''days'', ''purpose'', ''agentLabel'', ''poolLabel'']"

definition TRADE_REQUEST_CHECK_ORDER :: "string list" where
  "TRADE_REQUEST_CHECK_ORDER =
     [''not_a_url'', ''scheme'', ''userinfo'', ''port'', ''host'', ''path'',
      ''duplicate_v'', ''missing_v'', ''bad_v'',
      ''duplicate_kind'', ''missing_kind'', ''bad_kind'',
      ''duplicate_agent'', ''missing_agent'', ''bad_agent'',
      ''duplicate_in_mint'', ''missing_in_mint'', ''bad_in_mint'',
      ''duplicate_out_mint'', ''missing_out_mint'', ''bad_out_mint'',
      ''duplicate_pool'', ''missing_pool'', ''bad_pool'',
      ''duplicate_per_trade'', ''missing_per_trade'', ''bad_per_trade'',
      ''duplicate_daily'', ''missing_daily'', ''bad_daily'',
      ''duplicate_cap'', ''missing_cap'', ''bad_cap'', ''limits_out_of_order'',
      ''duplicate_floor_bps'', ''missing_floor_bps'', ''bad_floor_bps'',
      ''duplicate_days'', ''missing_days'', ''bad_days'',
      ''duplicate_purpose'', ''missing_purpose'', ''bad_purpose'', ''purpose_too_long'',
      ''duplicate_agent_label'', ''bad_agent_label'', ''agent_label_too_long'',
      ''duplicate_pool_label'', ''bad_pool_label'', ''pool_label_too_long'']"

record TradeRuleRequest =
  tr_v :: int
  tr_kind :: jtext
  tr_agent :: jtext
  tr_inMint :: jtext
  tr_outMint :: jtext
  tr_pool :: jtext
  tr_perTrade :: int
  tr_daily :: int
  tr_cap :: int
  tr_floorBps :: int
  tr_days :: int
  tr_purpose :: jtext
  tr_agentLabel :: "jtext option"
  tr_poolLabel :: "jtext option"

record TradeRuleRequestInput =
  ti_agent :: js_value
  ti_inMint :: js_value
  ti_outMint :: js_value
  ti_pool :: js_value
  ti_perTrade :: js_value
  ti_daily :: js_value
  ti_cap :: js_value
  ti_floorBps :: js_value
  ti_days :: js_value
  ti_purpose :: js_value
  ti_agentLabel :: js_value
  ti_poolLabel :: js_value

definition TRADE_FIELD_NAME :: "string \<Rightarrow> string" where
  "TRADE_FIELD_NAME key = (if key = ''v'' then ''version'' else key)"

text \<open>The three tables of problems by key. The type of the key rules out every other string.\<close>

definition table_entry :: "(string \<times> string) list \<Rightarrow> string \<Rightarrow> string" where
  "table_entry table key = (case map_of table key of None \<Rightarrow> [] | Some p \<Rightarrow> p)"

definition TRADE_DUPLICATE :: "string \<Rightarrow> string" where
  "TRADE_DUPLICATE = table_entry
     [(''v'', ''duplicate_v''), (''kind'', ''duplicate_kind''), (''agent'', ''duplicate_agent''),
      (''inMint'', ''duplicate_in_mint''), (''outMint'', ''duplicate_out_mint''), (''pool'', ''duplicate_pool''),
      (''perTrade'', ''duplicate_per_trade''), (''daily'', ''duplicate_daily''), (''cap'', ''duplicate_cap''),
      (''floorBps'', ''duplicate_floor_bps''), (''days'', ''duplicate_days''), (''purpose'', ''duplicate_purpose''),
      (''agentLabel'', ''duplicate_agent_label''), (''poolLabel'', ''duplicate_pool_label'')]"

definition TRADE_MISSING :: "string \<Rightarrow> string" where
  "TRADE_MISSING = table_entry
     [(''v'', ''missing_v''), (''kind'', ''missing_kind''), (''agent'', ''missing_agent''),
      (''inMint'', ''missing_in_mint''), (''outMint'', ''missing_out_mint''), (''pool'', ''missing_pool''),
      (''perTrade'', ''missing_per_trade''), (''daily'', ''missing_daily''), (''cap'', ''missing_cap''),
      (''floorBps'', ''missing_floor_bps''), (''days'', ''missing_days''), (''purpose'', ''missing_purpose'')]"

definition TRADE_BAD :: "string \<Rightarrow> string" where
  "TRADE_BAD = table_entry
     [(''v'', ''bad_v''), (''kind'', ''bad_kind''), (''agent'', ''bad_agent''), (''inMint'', ''bad_in_mint''),
      (''outMint'', ''bad_out_mint''), (''pool'', ''bad_pool''), (''perTrade'', ''bad_per_trade''),
      (''daily'', ''bad_daily''), (''cap'', ''bad_cap''), (''floorBps'', ''bad_floor_bps''), (''days'', ''bad_days''),
      (''purpose'', ''bad_purpose''), (''agentLabel'', ''bad_agent_label''), (''poolLabel'', ''bad_pool_label'')]"

definition tradeFail :: "string \<Rightarrow> string \<Rightarrow> RuleRequestError" where
  "tradeFail p m = \<lparr>problem = p, message = m\<rparr>"

definition floorMessage :: string where
  "floorMessage = ''floorBps must be an integer greater than 0 and at most the u64 maximum''"

definition parseTradeSlots :: "jtext \<Rightarrow> slots" where
  "parseTradeSlots search = slots_of TRADE_QUERY_KEYS search"

definition readTradeRequired :: "slots \<Rightarrow> string \<Rightarrow> string \<Rightarrow> RuleRequestError + jtext" where
  "readTradeRequired slots key badMessage =
     (let name = TRADE_FIELD_NAME key
      in case slots key of
           None \<Rightarrow> Inl (tradeFail (TRADE_MISSING key) (name @ '' is missing''))
         | Some slot \<Rightarrow>
             if slot_count slot = 0 then Inl (tradeFail (TRADE_MISSING key) (name @ '' is missing''))
             else if 1 < slot_count slot then Inl (tradeFail (TRADE_DUPLICATE key) (name @ '' is repeated''))
             else if slot_bad slot then Inl (tradeFail (TRADE_BAD key) badMessage)
             else (case slot_value slot of None \<Rightarrow> Inl (tradeFail (TRADE_BAD key) badMessage) | Some v \<Rightarrow> Inr v))"

definition readTradeAddress :: "(jtext \<Rightarrow> jtext option) \<Rightarrow> slots \<Rightarrow> string \<Rightarrow> RuleRequestError + jtext" where
  "readTradeAddress base58 slots key =
     (let m = TRADE_FIELD_NAME key @ '' must be a canonical base58 address''
      in go_on (readTradeRequired slots key m) (\<lambda>raw.
           if \<not> canonicalAddress base58 raw then Inl (tradeFail (TRADE_BAD key) m) else Inr raw))"

definition readTradeAmount :: "slots \<Rightarrow> string \<Rightarrow> RuleRequestError + int" where
  "readTradeAmount slots key =
     (let m = (if key = ''floorBps'' then floorMessage else amountMessage (TRADE_FIELD_NAME key))
      in go_on (readTradeRequired slots key m) (\<lambda>raw.
           case parsePositiveU64 raw of None \<Rightarrow> Inl (tradeFail (TRADE_BAD key) m) | Some amount \<Rightarrow> Inr amount))"

definition readTradeDays :: "slots \<Rightarrow> RuleRequestError + int" where
  "readTradeDays slots =
     go_on (readTradeRequired slots ''days'' daysMessage) (\<lambda>raw.
       case parseDaysToken raw of None \<Rightarrow> Inl (tradeFail ''bad_days'' daysMessage) | Some days \<Rightarrow> Inr days)"

definition readTradePurpose :: "slots \<Rightarrow> RuleRequestError + jtext" where
  "readTradePurpose slots =
     (let m = ''purpose is not percent-encoded UTF-8''
      in go_on (readTradeRequired slots ''purpose'' m) (\<lambda>raw.
           if \<not> isWellFormedUtf16 raw then Inl (tradeFail ''bad_purpose'' m)
           else if purposeTooLong raw then Inl (tradeFail ''purpose_too_long'' purposeTooLongMessage)
           else Inr raw))"

definition readTradeLabel :: "slots \<Rightarrow> string \<Rightarrow> string \<Rightarrow> RuleRequestError + jtext option" where
  "readTradeLabel slots key tooLong =
     (let noun = TRADE_FIELD_NAME key; m = noun @ '' is not percent-encoded UTF-8''
      in case slots key of
           None \<Rightarrow> Inr None
         | Some slot \<Rightarrow>
             if slot_count slot = 0 then Inr None
             else if 1 < slot_count slot then Inl (tradeFail (TRADE_DUPLICATE key) (noun @ '' is repeated''))
             else if slot_bad slot then Inl (tradeFail (TRADE_BAD key) m)
             else (case slot_value slot of
                     None \<Rightarrow> Inl (tradeFail (TRADE_BAD key) m)
                   | Some v \<Rightarrow>
                       if \<not> isWellFormedUtf16 v then Inl (tradeFail (TRADE_BAD key) m)
                       else if v = [] then Inr None
                       else if LABEL_MAX_CHARS < codePointLength v then Inl (tradeFail tooLong (labelTooLongMessage noun))
                       else Inr (Some v)))"

definition readTradeFields :: "(jtext \<Rightarrow> jtext option) \<Rightarrow> slots \<Rightarrow> RuleRequestError + TradeRuleRequest" where
  "readTradeFields base58 slots =
     go_on (readTradeRequired slots ''v'' ''version must be 2'') (\<lambda>version.
     if version \<noteq> js ''2'' then Inl (tradeFail ''bad_v'' ''version must be 2'') else
     go_on (readTradeRequired slots ''kind'' ''kind must be trade'') (\<lambda>kind.
     if kind \<noteq> js ''trade'' then Inl (tradeFail ''bad_kind'' ''kind must be trade'') else
     go_on (readTradeAddress base58 slots ''agent'') (\<lambda>agent.
     go_on (readTradeAddress base58 slots ''inMint'') (\<lambda>inMint.
     go_on (readTradeAddress base58 slots ''outMint'') (\<lambda>outMint.
     go_on (readTradeAddress base58 slots ''pool'') (\<lambda>pool.
     go_on (readTradeAmount slots ''perTrade'') (\<lambda>perTrade.
     go_on (readTradeAmount slots ''daily'') (\<lambda>daily.
     go_on (readTradeAmount slots ''cap'') (\<lambda>cap.
     if daily < perTrade then Inl (tradeFail ''limits_out_of_order'' ''perTrade is greater than daily'') else
     if cap < daily then Inl (tradeFail ''limits_out_of_order'' ''daily is greater than cap'') else
     go_on (readTradeAmount slots ''floorBps'') (\<lambda>floorBps.
     go_on (readTradeDays slots) (\<lambda>days.
     go_on (readTradePurpose slots) (\<lambda>purpose.
     go_on (readTradeLabel slots ''agentLabel'' ''agent_label_too_long'') (\<lambda>agentLabel.
     go_on (readTradeLabel slots ''poolLabel'' ''pool_label_too_long'') (\<lambda>poolLabel.
     Inr \<lparr>tr_v = 2, tr_kind = js ''trade'', tr_agent = agent, tr_inMint = inMint, tr_outMint = outMint,
          tr_pool = pool, tr_perTrade = perTrade, tr_daily = daily, tr_cap = cap, tr_floorBps = floorBps,
          tr_days = days, tr_purpose = purpose, tr_agentLabel = agentLabel, tr_poolLabel = poolLabel\<rparr>))))))))))))))"

definition trade_pairs :: "TradeRuleRequest \<Rightarrow> (string \<times> jtext) list" where
  "trade_pairs r =
     [(''v'', js ''2''), (''kind'', js ''trade''), (''agent'', tr_agent r), (''inMint'', tr_inMint r),
      (''outMint'', tr_outMint r), (''pool'', tr_pool r), (''perTrade'', js (int_str (tr_perTrade r))),
      (''daily'', js (int_str (tr_daily r))), (''cap'', js (int_str (tr_cap r))),
      (''floorBps'', js (int_str (tr_floorBps r))), (''days'', js (int_str (tr_days r))),
      (''purpose'', tr_purpose r)]
     @ label_pair ''agentLabel'' (tr_agentLabel r) @ label_pair ''poolLabel'' (tr_poolLabel r)"

definition formatTradeRequest :: "TradeRuleRequest \<Rightarrow> jtext option" where
  "formatTradeRequest r = map_option (\<lambda>q. js ''veto://rule-request?'' @ q) (encode_query (trade_pairs r))"

definition readTradeInputAddress ::
  "(jtext \<Rightarrow> jtext option) \<Rightarrow> js_value \<Rightarrow> string \<Rightarrow> string \<Rightarrow> string \<Rightarrow> RuleRequestError + jtext" where
  "readTradeInputAddress base58 v missing bad noun =
     (case v of
        Undefined \<Rightarrow> Inl (tradeFail missing (noun @ '' is missing''))
      | Text s \<Rightarrow> if canonicalAddress base58 s then Inr s
                 else Inl (tradeFail bad (noun @ '' must be a canonical base58 address''))
      | _ \<Rightarrow> Inl (tradeFail bad (noun @ '' must be a canonical base58 address'')))"

definition readTradeInputAmount ::
  "js_value \<Rightarrow> string \<Rightarrow> string \<Rightarrow> string \<Rightarrow> string \<Rightarrow> RuleRequestError + int" where
  "readTradeInputAmount v missing bad noun m =
     (if v = Undefined then Inl (tradeFail missing (noun @ '' is missing''))
      else case coercePositiveU64 v of None \<Rightarrow> Inl (tradeFail bad m) | Some a \<Rightarrow> Inr a)"

definition readTradeInputLabel :: "js_value \<Rightarrow> string \<Rightarrow> string \<Rightarrow> string \<Rightarrow> RuleRequestError + jtext option" where
  "readTradeInputLabel v bad tooLong noun =
     (case v of
        Undefined \<Rightarrow> Inr None
      | Text s \<Rightarrow>
          if \<not> isWellFormedUtf16 s then Inl (tradeFail bad (noun @ '' must be UTF-8 text''))
          else if s = [] then Inr None
          else if LABEL_MAX_CHARS < codePointLength s then Inl (tradeFail tooLong (labelTooLongMessage noun))
          else Inr (Some s)
      | _ \<Rightarrow> Inl (tradeFail bad (noun @ '' must be UTF-8 text'')))"

definition tradeStructure :: "Url \<Rightarrow> RuleRequestError option" where
  "tradeStructure url =
     (case checkStructure url of
        None \<Rightarrow> None
      | Some s \<Rightarrow>
          if problem s \<in> set [''scheme'', ''userinfo'', ''port'', ''host'', ''path''] then
            Some \<lparr>problem = problem s, message = message s\<rparr>
          else Some (tradeFail ''not_a_url'' (message s)))"

definition readTradeInputDays :: "js_value \<Rightarrow> RuleRequestError + int" where
  "readTradeInputDays v =
     (if v = Undefined then Inl (tradeFail ''missing_days'' ''days is missing'')
      else case coerceDays v of None \<Rightarrow> Inl (tradeFail ''bad_days'' daysMessage) | Some d \<Rightarrow> Inr d)"

definition readTradeInputPurpose :: "js_value \<Rightarrow> RuleRequestError + jtext" where
  "readTradeInputPurpose v =
     (case v of
        Undefined \<Rightarrow> Inl (tradeFail ''missing_purpose'' ''purpose is missing'')
      | Text s \<Rightarrow>
          if \<not> isWellFormedUtf16 s then Inl (tradeFail ''bad_purpose'' ''purpose must be UTF-8 text'')
          else if purposeTooLong s then Inl (tradeFail ''purpose_too_long'' purposeTooLongMessage)
          else Inr s
      | _ \<Rightarrow> Inl (tradeFail ''bad_purpose'' ''purpose must be UTF-8 text''))"

definition readTradeInput :: "(jtext \<Rightarrow> jtext option) \<Rightarrow> TradeRuleRequestInput \<Rightarrow> RuleRequestError + TradeRuleRequest" where
  "readTradeInput base58 inp =
     go_on (readTradeInputAddress base58 (ti_agent inp) ''missing_agent'' ''bad_agent'' ''agent'') (\<lambda>agent.
     go_on (readTradeInputAddress base58 (ti_inMint inp) ''missing_in_mint'' ''bad_in_mint'' ''inMint'') (\<lambda>inMint.
     go_on (readTradeInputAddress base58 (ti_outMint inp) ''missing_out_mint'' ''bad_out_mint'' ''outMint'') (\<lambda>outMint.
     go_on (readTradeInputAddress base58 (ti_pool inp) ''missing_pool'' ''bad_pool'' ''pool'') (\<lambda>pool.
     go_on (readTradeInputAmount (ti_perTrade inp) ''missing_per_trade'' ''bad_per_trade'' ''perTrade''
       (amountMessage ''perTrade'')) (\<lambda>perTrade.
     go_on (readTradeInputAmount (ti_daily inp) ''missing_daily'' ''bad_daily'' ''daily'' (amountMessage ''daily'')) (\<lambda>daily.
     go_on (readTradeInputAmount (ti_cap inp) ''missing_cap'' ''bad_cap'' ''cap'' (amountMessage ''cap'')) (\<lambda>cap.
     if daily < perTrade then Inl (tradeFail ''limits_out_of_order'' ''perTrade is greater than daily'') else
     if cap < daily then Inl (tradeFail ''limits_out_of_order'' ''daily is greater than cap'') else
     go_on (readTradeInputAmount (ti_floorBps inp) ''missing_floor_bps'' ''bad_floor_bps'' ''floorBps'' floorMessage)
       (\<lambda>floorBps.
     go_on (readTradeInputDays (ti_days inp)) (\<lambda>days.
     go_on (readTradeInputPurpose (ti_purpose inp)) (\<lambda>purpose.
     go_on (readTradeInputLabel (ti_agentLabel inp) ''bad_agent_label'' ''agent_label_too_long'' ''agentLabel'') (\<lambda>agentLabel.
     go_on (readTradeInputLabel (ti_poolLabel inp) ''bad_pool_label'' ''pool_label_too_long'' ''poolLabel'') (\<lambda>poolLabel.
     Inr \<lparr>tr_v = 2, tr_kind = js ''trade'', tr_agent = agent, tr_inMint = inMint, tr_outMint = outMint,
          tr_pool = pool, tr_perTrade = perTrade, tr_daily = daily, tr_cap = cap, tr_floorBps = floorBps,
          tr_days = days, tr_purpose = purpose, tr_agentLabel = agentLabel, tr_poolLabel = poolLabel\<rparr>))))))))))))"

definition createTradeRuleRequest ::
  "(jtext \<Rightarrow> jtext option) \<Rightarrow> TradeRuleRequestInput \<Rightarrow> RuleRequestError create_error + jtext" where
  "createTradeRuleRequest base58 inp =
     (case readTradeInput base58 inp of Inl e \<Rightarrow> Inl (Rejected e)
      | Inr r \<Rightarrow> (case formatTradeRequest r of None \<Rightarrow> Inl UriError | Some url \<Rightarrow> Inr url))"

definition parseTradeRuleRequest ::
  "(jtext \<Rightarrow> jtext option) \<Rightarrow> (jtext \<Rightarrow> Url option) \<Rightarrow> jtext \<Rightarrow> RuleRequestError + TradeRuleRequest" where
  "parseTradeRuleRequest base58 parseUrl url =
     (case parseUrl url of None \<Rightarrow> Inl (tradeFail ''not_a_url'' ''the request is not a URL'')
      | Some parsed \<Rightarrow>
          (case tradeStructure parsed of Some e \<Rightarrow> Inl e
           | None \<Rightarrow> readTradeFields base58 (parseTradeSlots (url_search parsed))))"

text \<open>The readers are those of the first version at the entries of the tables.\<close>

named_theorems trade_tables

lemma tradeFail_same: "tradeFail = request_fail"
  by (intro ext) (simp add: tradeFail_def request_fail_def)

lemma field_name_same: "TRADE_FIELD_NAME = FIELD_NAME"
  by (intro ext) (simp add: TRADE_FIELD_NAME_def FIELD_NAME_def)

lemma readTradeRequired_same:
  "readTradeRequired slots k m = readRequired slots k (TRADE_DUPLICATE k) (TRADE_MISSING k) (TRADE_BAD k) m"
  unfolding readTradeRequired_def readRequired_def tradeFail_same field_name_same by (rule refl)

lemma readTradeAddress_same:
  "readTradeAddress base58 slots k = readAddressField base58 slots k (TRADE_DUPLICATE k) (TRADE_MISSING k) (TRADE_BAD k)"
  unfolding readTradeAddress_def readAddressField_def tradeFail_same field_name_same readTradeRequired_same by (rule refl)

lemma TRADE_entries:
  "TRADE_DUPLICATE ''days'' = ''duplicate_days''" "TRADE_MISSING ''days'' = ''missing_days''"
  "TRADE_BAD ''days'' = ''bad_days''" "TRADE_DUPLICATE ''purpose'' = ''duplicate_purpose''"
  "TRADE_MISSING ''purpose'' = ''missing_purpose''" "TRADE_BAD ''purpose'' = ''bad_purpose''"
  by (simp_all add: TRADE_DUPLICATE_def TRADE_MISSING_def TRADE_BAD_def table_entry_def)

lemma readTradeDays_same: "readTradeDays = readDaysField"
  unfolding fun_eq_iff readTradeDays_def readDaysField_def readTradeRequired_same TRADE_entries tradeFail_same by simp

lemma readTradePurpose_same: "readTradePurpose = readPurposeField"
  unfolding fun_eq_iff readTradePurpose_def readPurposeField_def readTradeRequired_same TRADE_entries tradeFail_same by simp

lemma well_formed_empty: "isWellFormedUtf16 []"
  by (simp add: isWellFormedUtf16_iff)

lemma readTradeLabel_same:
  "readTradeLabel slots k t = readLabelField slots k (TRADE_DUPLICATE k) (TRADE_BAD k) t"
proof (cases "slots k")
  case (Some s)
  then show ?thesis
    by (cases "slot_value s")
      (auto simp: readTradeLabel_def readLabelField_def readOptional_def tradeFail_same field_name_same Let_def
        well_formed_empty)
qed (simp add: readTradeLabel_def readLabelField_def readOptional_def Let_def)

lemma readTradeAmount_value:
  "accepted (readTradeAmount slots k) = accepted (readAmountField slots k (TRADE_DUPLICATE k) (TRADE_MISSING k) (TRADE_BAD k))"
  "problem_of (readTradeAmount slots k) = problem_of (readAmountField slots k (TRADE_DUPLICATE k) (TRADE_MISSING k) (TRADE_BAD k))"
  by (auto simp: readTradeAmount_def readAmountField_def readTradeRequired_same readRequired_def tradeFail_same Let_def
      split: option.splits)

lemma readTradeAmount_Inr:
  "readTradeAmount slots k = Inr a \<longleftrightarrow> readAmountField slots k (TRADE_DUPLICATE k) (TRADE_MISSING k) (TRADE_BAD k) = Inr a"
  using readTradeAmount_value(1) [of slots k] by (metis accepted_Some)

lemma readTradeInput_same:
  "readTradeInputAddress = readInputAddress" "readTradeInputDays = readInputDays" "readTradeInputPurpose = readInputPurpose"
  "readTradeInputLabel = readInputLabel"
  unfolding fun_eq_iff readTradeInputAddress_def readInputAddress_def readTradeInputDays_def readInputDays_def
    readTradeInputPurpose_def readInputPurpose_def readTradeInputLabel_def readInputLabel_def tradeFail_same
  by simp_all

lemma readTradeInputAmount_valid: "readTradeInputAmount v m b n t = Inr a \<Longrightarrow> valid_amount a"
  by (auto simp: readTradeInputAmount_def dest: coercePositiveU64_valid split: option.splits if_splits)

lemmas trade_reader_same = readTradeRequired_same readTradeAddress_same readTradeDays_same readTradePurpose_same
  readTradeLabel_same

definition valid_trade :: "(jtext \<Rightarrow> jtext option) \<Rightarrow> TradeRuleRequest \<Rightarrow> bool" where
  "valid_trade base58 r =
     (tr_v r = 2 \<and> tr_kind r = js ''trade'' \<and> canonicalAddress base58 (tr_agent r) \<and> canonicalAddress base58 (tr_inMint r)
      \<and> canonicalAddress base58 (tr_outMint r) \<and> canonicalAddress base58 (tr_pool r)
      \<and> valid_amount (tr_perTrade r) \<and> valid_amount (tr_daily r) \<and> valid_amount (tr_cap r) \<and> valid_amount (tr_floorBps r)
      \<and> tr_perTrade r \<le> tr_daily r \<and> tr_daily r \<le> tr_cap r \<and> valid_days (tr_days r) \<and> valid_purpose (tr_purpose r)
      \<and> valid_label (tr_agentLabel r) \<and> valid_label (tr_poolLabel r))"

lemma readTradeInput_valid:
  assumes "readTradeInput base58 inp = Inr r"
  shows "valid_trade base58 r"
proof -
  note valid = readInputAddress_valid readInputDays_valid readInputPurpose_valid readInputLabel_valid readTradeInputAmount_valid
  show ?thesis
    using assms unfolding readTradeInput_def readTradeInput_same
    by (elim go_on_Inr) (simp split: if_split_asm, elim go_on_Inr, clarsimp simp: valid_trade_def valid)
qed

lemma readTradeFields_Inr:
  "readTradeFields base58 S = Inr r \<longleftrightarrow>
     readTradeRequired S ''v'' ''version must be 2'' = Inr (js ''2'') \<and>
     readTradeRequired S ''kind'' ''kind must be trade'' = Inr (js ''trade'') \<and>
     readTradeAddress base58 S ''agent'' = Inr (tr_agent r) \<and> readTradeAddress base58 S ''inMint'' = Inr (tr_inMint r) \<and>
     readTradeAddress base58 S ''outMint'' = Inr (tr_outMint r) \<and> readTradeAddress base58 S ''pool'' = Inr (tr_pool r) \<and>
     readTradeAmount S ''perTrade'' = Inr (tr_perTrade r) \<and> readTradeAmount S ''daily'' = Inr (tr_daily r) \<and>
     readTradeAmount S ''cap'' = Inr (tr_cap r) \<and> tr_perTrade r \<le> tr_daily r \<and> tr_daily r \<le> tr_cap r \<and>
     readTradeAmount S ''floorBps'' = Inr (tr_floorBps r) \<and> readTradeDays S = Inr (tr_days r) \<and>
     readTradePurpose S = Inr (tr_purpose r) \<and>
     readTradeLabel S ''agentLabel'' ''agent_label_too_long'' = Inr (tr_agentLabel r) \<and>
     readTradeLabel S ''poolLabel'' ''pool_label_too_long'' = Inr (tr_poolLabel r) \<and> tr_v r = 2 \<and> tr_kind r = js ''trade''"
  (is "?l \<longleftrightarrow> ?r")
proof
  assume ?l
  then show ?r
    unfolding readTradeFields_def
    by (elim go_on_Inr) (simp split: if_split_asm, elim go_on_Inr, simp split: if_split_asm, elim go_on_Inr,
      simp split: if_split_asm, elim go_on_Inr, force)
next
  assume ?r
  then show ?l by (cases r) (simp add: readTradeFields_def)
qed

lemma readTradeFields_valid: "readTradeFields base58 S = Inr r \<Longrightarrow> valid_trade base58 r"
  unfolding readTradeFields_Inr trade_reader_same readTradeAmount_Inr valid_trade_def
  by (elim conjE, intro conjI) (assumption | erule field_valid)+

lemma trade_pairs_map:
  assumes "valid_trade base58 r"
  shows "map_of (trade_pairs r) ''v'' = Some (js ''2'')" "map_of (trade_pairs r) ''kind'' = Some (js ''trade'')"
    "map_of (trade_pairs r) ''agent'' = Some (tr_agent r)" "map_of (trade_pairs r) ''inMint'' = Some (tr_inMint r)"
    "map_of (trade_pairs r) ''outMint'' = Some (tr_outMint r)" "map_of (trade_pairs r) ''pool'' = Some (tr_pool r)"
    "map_of (trade_pairs r) ''perTrade'' = Some (js (int_str (tr_perTrade r)))"
    "map_of (trade_pairs r) ''daily'' = Some (js (int_str (tr_daily r)))"
    "map_of (trade_pairs r) ''cap'' = Some (js (int_str (tr_cap r)))"
    "map_of (trade_pairs r) ''floorBps'' = Some (js (int_str (tr_floorBps r)))"
    "map_of (trade_pairs r) ''days'' = Some (js (int_str (tr_days r)))"
    "map_of (trade_pairs r) ''purpose'' = Some (tr_purpose r)"
    "map_of (trade_pairs r) ''agentLabel'' = tr_agentLabel r" "map_of (trade_pairs r) ''poolLabel'' = tr_poolLabel r"
  using assms by (simp_all add: trade_pairs_def valid_trade_def label_pair_valid split: option.splits)

lemma trade_pairs_keys:
  assumes "valid_trade base58 r"
  shows "query_keys_ok TRADE_QUERY_KEYS (trade_pairs r)" "list_all (\<lambda>kv. list_all word_char (fst kv)) (trade_pairs r)"
  using assms
  by (simp_all add: query_keys_ok_def TRADE_QUERY_KEYS_def plain_key_def trade_pairs_def word_char_def
      unreserved_def valid_trade_def label_pair_valid split: option.splits)

lemma readTradeFields_query:
  assumes "valid_trade base58 r"
  shows "readTradeFields base58 (query_slots (trade_pairs r)) = Inr r"
  unfolding readTradeFields_Inr trade_reader_same readTradeAmount_Inr
  using assms [unfolded valid_trade_def] by (simp add: field_query trade_pairs_map [OF assms])

lemma trade_query:
  assumes "base58_writes_text base58" "valid_trade base58 r"
  obtains q where "encode_query (trade_pairs r) = Some q"
proof (rule encode_query_defined [of "trade_pairs r"])
  fix kv assume kv: "kv \<in> set (trade_pairs r)"
  note v = assms(2) [unfolded valid_trade_def]
  have "well_formed (tr_purpose r)" using v by (simp add: valid_purpose_def isWellFormedUtf16_iff)
  with kv show "well_formed (snd kv)"
    using v valid_label_well_formed [of _ kv] canonical_well_formed [OF assms(1)]
    by (auto simp: trade_pairs_def well_formed_js)
qed (use that in blast)

text \<open>The first problem of a trade link.\<close>

definition trade_required :: "slots \<Rightarrow> string \<Rightarrow> (jtext \<Rightarrow> bool) \<Rightarrow> (string \<times> bool) list" where
  "trade_required slots k fit = required_problems slots k (TRADE_DUPLICATE k) (TRADE_MISSING k) (TRADE_BAD k) fit"

definition trade_field_problems :: "(jtext \<Rightarrow> jtext option) \<Rightarrow> slots \<Rightarrow> (string \<times> bool) list" where
  "trade_field_problems base58 slots =
     trade_required slots ''v'' (\<lambda>v. v = js ''2'')
     @ trade_required slots ''kind'' (\<lambda>v. v = js ''trade'')
     @ trade_required slots ''agent'' (\<lambda>v. base58 v = Some v)
     @ trade_required slots ''inMint'' (\<lambda>v. base58 v = Some v)
     @ trade_required slots ''outMint'' (\<lambda>v. base58 v = Some v)
     @ trade_required slots ''pool'' (\<lambda>v. base58 v = Some v)
     @ trade_required slots ''perTrade'' amount_fit
     @ trade_required slots ''daily'' amount_fit
     @ trade_required slots ''cap'' amount_fit
     @ [(''limits_out_of_order'', slot_amount slots ''daily'' < slot_amount slots ''perTrade''
           \<or> slot_amount slots ''cap'' < slot_amount slots ''daily'')]
     @ trade_required slots ''floorBps'' amount_fit
     @ required_problems slots ''days'' ''duplicate_days'' ''missing_days'' ''bad_days'' days_fit
     @ purpose_problems slots
     @ label_problems slots ''agentLabel'' (TRADE_DUPLICATE ''agentLabel'') (TRADE_BAD ''agentLabel'') ''agent_label_too_long''
     @ label_problems slots ''poolLabel'' (TRADE_DUPLICATE ''poolLabel'') (TRADE_BAD ''poolLabel'') ''pool_label_too_long''"

definition trade_slots :: "Url option \<Rightarrow> slots" where
  "trade_slots u = (case u of None \<Rightarrow> Map.empty | Some url \<Rightarrow> parseTradeSlots (url_search url))"

definition trade_problems :: "(jtext \<Rightarrow> jtext option) \<Rightarrow> Url option \<Rightarrow> (string \<times> bool) list" where
  "trade_problems base58 u = structure_problems u @ trade_field_problems base58 (trade_slots u)"

lemma problem_trade_amount:
  "problem_of (readTradeAmount slots k) = first_of (trade_required slots k amount_fit)"
  by (simp add: readTradeAmount_value(2) problem_amount trade_required_def)

lemma problem_trade_address:
  "problem_of (readTradeAddress base58 slots k) = first_of (trade_required slots k (\<lambda>v. base58 v = Some v))"
  by (simp add: readTradeAddress_same problem_address trade_required_def)

lemma problem_if_two:
  assumes "present = (c1 \<or> c2)" "\<not> c1 \<Longrightarrow> \<not> c2 \<Longrightarrow> problem_of m = first_of qs"
  shows "problem_of (if c1 then Inl (request_fail p t1) else if c2 then Inl (request_fail p t2) else m)
     = first_of ([(p, present)] @ qs)"
  using assms by simp

lemma problem_trade_required:
  assumes "\<And>v. problem_of (f v) = first_of ([(TRADE_BAD k, \<not> fit v)] @ qs)"
  shows "problem_of (go_on (readTradeRequired slots k t) f) = first_of (trade_required slots k fit @ qs)"
  unfolding readTradeRequired_same trade_required_def using assms by (rule problem_readRequired)

lemma readTradeAmount_amount: "readTradeAmount slots k = Inr a \<Longrightarrow> slot_amount slots k = a"
  by (simp add: readTradeAmount_Inr readAmountField_amount)

lemma TRADE_BAD_first: "TRADE_BAD ''v'' = ''bad_v''" "TRADE_BAD ''kind'' = ''bad_kind''"
  by (simp_all add: TRADE_BAD_def table_entry_def)

lemma problem_readTradeFields: "problem_of (readTradeFields base58 slots) = first_of (trade_field_problems base58 slots)"
  unfolding readTradeFields_def trade_field_problems_def tradeFail_same readTradeDays_same readTradePurpose_same
    readTradeLabel_same TRADE_BAD_first [symmetric]
  by (intro problem_trade_required problem_if_two problem_if problem_go_on_last problem_go_on problem_trade_address
      problem_trade_amount problem_days problem_purpose problem_label refl)
    (simp_all add: readTradeAmount_amount)

lemma checkStructure_names: "checkStructure url = Some e \<Longrightarrow> problem e \<in> set [''scheme'', ''userinfo'', ''port'', ''host'', ''path'']"
  by (auto simp: checkStructure_def split: if_split_asm)

lemma tradeStructure_same: "tradeStructure = checkStructure"
proof
  fix url
  show "tradeStructure url = checkStructure url"
  proof (cases "checkStructure url")
    case (Some e)
    with checkStructure_names [OF Some] show ?thesis by (cases e) (simp add: tradeStructure_def)
  qed (simp add: tradeStructure_def)
qed

text \<open>The reader of trade links reports the first problem of its published order, and accepts
  exactly when no condition of the order holds. The last branch of \<open>tradeStructure\<close>, which turns
  a foreign structural problem into \<open>not_a_url\<close>, is never taken.\<close>

theorem first_trade_problem_is_reported:
  "map fst (trade_problems base58 (parseUrl link)) = TRADE_REQUEST_CHECK_ORDER
   \<and> (case parseTradeRuleRequest base58 parseUrl link of
        Inl e \<Rightarrow> first_of (trade_problems base58 (parseUrl link)) = Some (problem e)
      | Inr r \<Rightarrow> first_of (trade_problems base58 (parseUrl link)) = None)"
proof
  show "map fst (trade_problems base58 (parseUrl link)) = TRADE_REQUEST_CHECK_ORDER"
    by (simp add: trade_problems_def structure_problems_def trade_field_problems_def trade_required_def required_problems_def
        purpose_problems_def label_problems_def TRADE_REQUEST_CHECK_ORDER_def TRADE_DUPLICATE_def TRADE_MISSING_def
        TRADE_BAD_def table_entry_def Let_def)
  have "problem_of (parseTradeRuleRequest base58 parseUrl link) = first_of (trade_problems base58 (parseUrl link))"
  proof (cases "parseUrl link")
    case None
    then show ?thesis
      by (simp add: parseTradeRuleRequest_def trade_problems_def structure_problems_def tradeFail_same Let_def)
  next
    case (Some url)
    then show ?thesis
      using problem_checkStructure [of url] problem_readTradeFields [of base58 "parseTradeSlots (url_search url)"]
      by (cases "checkStructure url")
        (simp_all add: parseTradeRuleRequest_def trade_problems_def first_of_append trade_slots_def tradeStructure_same)
  qed
  then show "case parseTradeRuleRequest base58 parseUrl link of
        Inl e \<Rightarrow> first_of (trade_problems base58 (parseUrl link)) = Some (problem e)
      | Inr r \<Rightarrow> first_of (trade_problems base58 (parseUrl link)) = None"
    by (auto simp: problem_of_def split: sum.splits)
qed

text \<open>What the reader of the first version makes of a trade link: the other keys do not touch the
  slot of the version.\<close>

lemma add_part_other:
  assumes "encode_pair (k', v) = Some part" "plain_key k'" "k' \<noteq> k"
  shows "add_part keys S part k = S k"
proof -
  from assms(1) obtain e where part: "part = js k' @ equals_sign # e" by (auto simp: encode_pair_def)
  have "cut_at equals_sign part = (js k', e)"
    unfolding part using plain_key_units(3) [OF assms(2)] by (rule cut_at_append)
  moreover have "decodeURIComponent (js k') = Some (js k')"
    using plain_key_units(1) [OF assms(2)] by (rule decode_no_percent)
  moreover have "known_key keys (js k') = Some kk \<Longrightarrow> kk = k'" for kk using known_key_Some by fastforce
  ultimately show ?thesis
    using assms(3) by (cases "known_key keys (js k')") (auto simp: add_part_def Let_def split: option.splits)
qed

lemma add_parts_other:
  assumes "\<And>k' v. (k', v) \<in> set pairs \<Longrightarrow> plain_key k' \<and> k' \<noteq> k" "those (map encode_pair pairs) = Some parts"
  shows "foldl (add_part keys) S parts k = S k"
  using assms
proof (induction pairs arbitrary: S parts)
  case (Cons kv pairs)
  obtain k' v where kv: "kv = (k', v)" by (cases kv)
  from Cons.prems(2) obtain part rest where "encode_pair (k', v) = Some part"
    "those (map encode_pair pairs) = Some rest" "parts = part # rest"
    by (auto simp: kv split: option.splits)
  moreover from this have "foldl (add_part keys) (add_part keys S part) rest k = add_part keys S part k"
    using Cons.prems(1) by (intro Cons.IH) auto
  ultimately show ?case using Cons.prems(1) [of k' v] by (simp add: kv add_part_other)
qed simp

lemma trade_version_slot:
  assumes "valid_trade base58 r" "encode_query (trade_pairs r) = Some q"
  shows "parseSlots (question # q) ''v'' = Some (clean_slot (js ''2''))"
proof -
  note keys = trade_pairs_keys(1) [OF assms(1)]
  obtain parts where parts: "those (map encode_pair (trade_pairs r)) = Some parts" "split_at amp q = parts"
    using keys assms(2) by (rule query_parts)
  obtain others where others: "trade_pairs r = (''v'', js ''2'') # others" by (simp add: trade_pairs_def)
  from parts(1) obtain part rest where part: "encode_pair (''v'', js ''2'') = Some part"
    and rest: "those (map encode_pair others) = Some rest" and split: "parts = part # rest"
    by (auto simp: others split: option.splits)
  have "plain_key k' \<and> k' \<noteq> ''v''" if "(k', v) \<in> set others" for k' v
    using keys that by (force simp: query_keys_ok_def others list_all_iff)
  from add_parts_other [where keys = QUERY_KEYS and S = "add_part QUERY_KEYS Map.empty part", OF this rest]
  have "foldl (add_part QUERY_KEYS) Map.empty parts ''v'' = add_part QUERY_KEYS Map.empty part ''v''"
    by (simp add: split)
  also have "add_part QUERY_KEYS Map.empty part = [''v'' \<mapsto> clean_slot (js ''2'')]"
    using part by (intro add_part_pair) (simp_all add: QUERY_KEYS_def plain_key_def)
  finally show ?thesis
    using parts(2) query_nonempty [OF keys assms(2)] by (simp add: parseSlots_def slots_of_def)
qed

text \<open>C28: for every input, the SDK rejects it with the first problem of the input, or writes a trade
  link that its reader turns into exactly the request the input stands for, and that a reader of
  the first version refuses at its version and never takes for a payment rule.\<close>

theorem trade_link_is_read:
  assumes "base58_writes_text base58" "url_keeps_query parseUrl"
  shows "case readTradeInput base58 inp of
           Inl e \<Rightarrow> createTradeRuleRequest base58 inp = Inl (Rejected e)
         | Inr r \<Rightarrow> \<exists>link. createTradeRuleRequest base58 inp = Inr link
                     \<and> parseTradeRuleRequest base58 parseUrl link = Inr r
                     \<and> parseRuleRequest base58 parseUrl link = Inl \<lparr>problem = ''bad_v'', message = ''version must be 1''\<rparr>"
proof (cases "readTradeInput base58 inp")
  case (Inr r)
  then have valid: "valid_trade base58 r" by (rule readTradeInput_valid)
  obtain q where q: "encode_query (trade_pairs r) = Some q" using assms(1) valid by (rule trade_query)
  note keys = trade_pairs_keys [OF valid]
  have units: "list_all query_unit q" using keys q by (rule query_units)
  define link where "link = js ''veto://rule-request?'' @ q"
  have url: "parseUrl link = Some (request_url q)"
    using assms(2) query_nonempty [OF keys(1) q] units unfolding url_keeps_query_def link_def by blast
  have search: "url_search (request_url q) = question # q" by (simp add: request_url_def)
  have "createTradeRuleRequest base58 inp = Inr link"
    by (simp add: createTradeRuleRequest_def Inr formatTradeRequest_def q link_def)
  moreover have "readTradeFields base58 (parseTradeSlots (question # q)) = Inr r"
    unfolding parseTradeSlots_def slots_of_query [OF keys(1) q] using valid by (rule readTradeFields_query)
  then have "parseTradeRuleRequest base58 parseUrl link = Inr r"
    by (simp add: parseTradeRuleRequest_def url search tradeStructure_same)
  moreover have "readRequired (parseSlots (question # q)) ''v'' d m b t = Inr (js ''2'')" for d m b t
    by (simp add: readRequired_def trade_version_slot [OF valid q] clean_slot_def Let_def)
  then have "parseRuleRequest base58 parseUrl link = Inl \<lparr>problem = ''bad_v'', message = ''version must be 1''\<rparr>"
    by (simp add: parseRuleRequest_def url search readFields_def request_fail_def)
  ultimately show ?thesis by (simp add: Inr)
qed (simp add: createTradeRuleRequest_def)

definition demo_trade_input :: TradeRuleRequestInput where
  "demo_trade_input =
     \<lparr>ti_agent = Text (js ''AgentKey''), ti_inMint = Text (js ''MintKey''), ti_outMint = Text (js ''PayeeKey''),
      ti_pool = Text (js ''PayeeKey''), ti_perTrade = BigInt 5, ti_daily = BigInt 20, ti_cap = BigInt 100,
      ti_floorBps = IntegralNumber 9900, ti_days = IntegralNumber 7, ti_purpose = Text (js ''a & b''),
      ti_agentLabel = Undefined, ti_poolLabel = Text (js ''car'')\<rparr>"

definition demo_trade :: TradeRuleRequest where
  "demo_trade =
     \<lparr>tr_v = 2, tr_kind = js ''trade'', tr_agent = js ''AgentKey'', tr_inMint = js ''MintKey'',
      tr_outMint = js ''PayeeKey'', tr_pool = js ''PayeeKey'', tr_perTrade = 5, tr_daily = 20, tr_cap = 100,
      tr_floorBps = 9900, tr_days = 7, tr_purpose = js ''a & b'', tr_agentLabel = None, tr_poolLabel = Some (js ''car'')\<rparr>"

lemma demo_readTradeInput: "readTradeInput demo_base58 demo_trade_input = Inr demo_trade"
  by (simp add: readTradeInput_def readTradeInput_same demo_trade_input_def demo_trade_def readInputAddress_def
      readTradeInputAmount_def readInputDays_def readInputPurpose_def readInputLabel_def demo_addresses demo_texts
      RULE_REQUEST_DAYS_MIN_def RULE_REQUEST_DAYS_MAX_def REQUEST_U64_MAX_def)

lemma trade_link_is_read_witness:
  "readTradeInput demo_base58 demo_trade_input = Inr demo_trade
   \<and> (\<exists>link. createTradeRuleRequest demo_base58 demo_trade_input = Inr link
        \<and> parseTradeRuleRequest demo_base58 demo_parseUrl link = Inr demo_trade
        \<and> parseRuleRequest demo_base58 demo_parseUrl link = Inl \<lparr>problem = ''bad_v'', message = ''version must be 1''\<rparr>)"
  using trade_link_is_read [OF demo_base58_writes_text demo_parseUrl_keeps_query, of demo_trade_input]
  by (simp add: demo_readTradeInput)

end
