(* ===== verification/Verify_Lib.thy ===== *)
theory Verify_Lib
  imports Event_Decode
begin

text \<open>
  The shared part of the verification tools (\<open>tools/lib.ts\<close>): decision records, the tools' own
  account decoders, the rows of a ledger ring with their sequence numbers, the choice of the ring row
  that belongs to a transaction, and the binding of a charge to the one event that states its
  decision. A public key is the base58 text that names it.
\<close>

section \<open>Codes and records\<close>

definition tool_REASON_TEXT :: "(int \<times> string) list" where
  "tool_REASON_TEXT =
    [(0, ''ok''), (1, ''mandate not active''), (2, ''past expiry''), (3, ''nonce already settled''),
     (4, ''merchant not allowed''), (5, ''over per-payment maximum''), (6, ''over remaining cap''),
     (7, ''delegation withdrawn''), (8, ''insufficient funds''), (9, ''zero amount''),
     (10, ''account frozen''), (11, ''destination not allowed''), (12, ''pool account not allowed''),
     (13, ''over daily limit''), (14, ''below price floor'')]"

definition tool_reasonText :: "int \<Rightarrow> string" where
  "tool_reasonText code = lookup_or tool_REASON_TEXT code ''unknown''"

definition tool_kindName :: "int \<Rightarrow> string option" where
  "tool_kindName kind = (if kind = 1 then Some ''paid'' else if kind = 2 then Some ''refused'' else None)"

definition kindByte :: "string \<Rightarrow> int result" where
  "kindByte kind =
     (if kind = ''paid'' then Inr 1 else if kind = ''refused'' then Inr 2
      else Inl (Error (''unknown kind: '' @ kind)))"

record Limits =
  lim_cap :: int
  lim_per_tx_max :: int
  lim_expires_at :: int
  lim_merchant :: string
  lim_purpose :: string

record DecisionRecord =
  dr_schema_version :: int
  dr_cluster :: string
  dr_genesis_hash :: string
  dr_program_id :: string
  dr_mandate :: string
  dr_limits :: Limits
  dr_kind :: string
  dr_amount :: int
  dr_counterparty :: string
  dr_timestamp :: int
  dr_nonce :: int
  dr_reason_code :: int
  dr_reason_text :: string
  dr_suggested_override :: int
  dr_signature :: string

section \<open>Accounts\<close>

definition tool_readString :: "(bytes \<Rightarrow> string) \<Rightarrow> bytes \<Rightarrow> nat \<Rightarrow> (string \<times> nat) result" where
  "tool_readString utf8 data p =
     andThen (readUIntLE 4 data p) (\<lambda>len.
       let mid = p + 4; fin = mid + nat len in
       if len > 64 then Inl (Error (''purpose longer than on-chain max ('' @ int_str len @ '')''))
       else if fin > length data then Inl (Error ''purpose overruns account data'')
       else Inr (utf8 (slice data mid fin), fin))"

definition tool_u :: "nat \<Rightarrow> bytes \<Rightarrow> nat \<Rightarrow> (int \<times> nat) result" where
  "tool_u w data p = andThen (readUIntLE w data p) (\<lambda>v. Inr (v, p + w))"

definition tool_decodeMandate :: "(bytes \<Rightarrow> string) \<Rightarrow> (bytes \<Rightarrow> string) \<Rightarrow> bytes \<Rightarrow> string MandateAccount result" where
  "tool_decodeMandate pk utf8 data =
     andThen (requireDisc data MANDATE_DISCRIMINATOR ''Mandate'') (\<lambda>_.
     andThen (readPubkey pk data 8 ''pubkey'') (\<lambda>(owner, p).
     andThen (readPubkey pk data p ''pubkey'') (\<lambda>(agent, p).
     andThen (readPubkey pk data p ''pubkey'') (\<lambda>(mint, p).
     andThen (readPubkey pk data p ''pubkey'') (\<lambda>(source, p).
     andThen (readPubkey pk data p ''pubkey'') (\<lambda>(merchant, p).
     andThen (tool_u 8 data p) (\<lambda>(mandateId, p).
     andThen (tool_u 8 data p) (\<lambda>(cap, p).
     andThen (tool_u 8 data p) (\<lambda>(spent, p).
     andThen (tool_u 8 data p) (\<lambda>(perTxMax, p).
     andThen (readIntLE64 data p) (\<lambda>expiresAt.
     andThen (tool_u 8 data (p + 8)) (\<lambda>(overrideAmount, p).
     andThen (tool_u 8 data p) (\<lambda>(overrideNonce, p).
     andThen (tool_u 8 data p) (\<lambda>(lastNonce, p).
     andThen (tool_readString utf8 data p) (\<lambda>(purpose, p).
     andThen (tool_u 1 data p) (\<lambda>(status, p).
     andThen (tool_u 4 data p) (\<lambda>(spendCount, p).
     andThen (tool_u 4 data p) (\<lambda>(refusalCount, p).
     andThen (tool_u 1 data p) (\<lambda>(bump, p).
       Inr \<lparr>ma_owner = owner, ma_agent = agent, ma_mint = mint, ma_source = source, ma_merchant = merchant,
            ma_mandateId = mandateId, ma_cap = cap, ma_spent = spent, ma_perTxMax = perTxMax,
            ma_expiresAt = expiresAt, ma_overrideAmount = overrideAmount, ma_overrideNonce = overrideNonce,
            ma_lastNonce = lastNonce, ma_purpose = purpose, ma_status = status, ma_spendCount = spendCount,
            ma_refusalCount = refusalCount, ma_bump = bump\<rparr>)))))))))))))))))))"

definition tool_decodeEntry :: "(bytes \<Rightarrow> string) \<Rightarrow> bytes \<Rightarrow> nat \<Rightarrow> string LedgerEntry result" where
  "tool_decodeEntry pk data off =
     andThen (readIntLE64 data off) (\<lambda>ts.
     andThen (readUIntLE 8 data (off + 8)) (\<lambda>amount.
     andThen (readUIntLE 8 data (off + 48)) (\<lambda>nonce.
     andThen (readUIntLE 8 data (off + 56)) (\<lambda>suggested.
     andThen (readUIntLE 1 data (off + 64)) (\<lambda>kind.
     andThen (readUIntLE 1 data (off + 65)) (\<lambda>reason.
       Inr \<lparr>le_ts = ts, le_amount = amount, le_counterparty = pk (slice data (off + 16) (off + 48)),
            le_nonce = nonce, le_suggestedOverride = suggested, le_kind = kind, le_reason = reason\<rparr>))))))"

definition tool_decodeLedger :: "(bytes \<Rightarrow> string) \<Rightarrow> bytes \<Rightarrow> string LedgerAccount result" where
  "tool_decodeLedger pk data =
     andThen (requireDisc data LEDGER_DISCRIMINATOR ''Ledger'') (\<lambda>_.
     andThen (readUIntLE 4 data 40) (\<lambda>written.
     andThen (readUIntLE 2 data 44) (\<lambda>head.
     andThen (readUIntLE 1 data 46) (\<lambda>bump.
     andThen (traverse (\<lambda>i. tool_decodeEntry pk data (48 + i * 72)) [0..<32]) (\<lambda>entries.
       Inr \<lparr>la_mandate = pk (slice data 8 40), la_total = written, la_head = head, la_bump = bump,
            la_entries = entries\<rparr>)))))"

text \<open>The tools' ledger decoder gives what the SDK's gives.\<close>

lemma tool_decodeEntry_sdk:
  "off + 72 \<le> length data \<Longrightarrow> tool_decodeEntry pk data off = sdk_decodeEntry pk data off"
  by (simp add: tool_decodeEntry_def sdk_decodeEntry_def need_def ENTRY_SIZE_def)

lemma tool_decodeLedger_sdk:
  assumes "2352 \<le> length data"
  shows "tool_decodeLedger pk data = decodeLedger pk data"
proof -
  have "traverse (\<lambda>i. tool_decodeEntry pk data (48 + i * 72)) [0..<32]
      = traverse (\<lambda>i. sdk_decodeEntry pk data (48 + i * 72)) [0..<32]"
    using assms by (intro traverse_cong) (auto simp: tool_decodeEntry_sdk)
  with assms show ?thesis
    by (simp add: tool_decodeLedger_def decodeLedger_def ledger_sizes not_less)
qed

text \<open>The tools' mandate decoder reads every account the SDK reads, and alike; they differ only in how
  they refuse a short one.\<close>

lemma tool_readers:
  "readPubkey pk data p what = Inr z \<Longrightarrow> readPubkey pk data p ''pubkey'' = Inr z"
  "readU64 data p what = Inr x \<Longrightarrow> tool_u 8 data p = Inr x"
  "readU32 data p what = Inr x \<Longrightarrow> tool_u 4 data p = Inr x"
  "readU8 data p what = Inr x \<Longrightarrow> tool_u 1 data p = Inr x"
  "readI64 data p what = Inr (i, q) \<Longrightarrow> readIntLE64 data p = Inr i \<and> q = p + 8"
  "readString utf8 data p = Inr y \<Longrightarrow> tool_readString utf8 data p = Inr y"
  by (auto simp: readPubkey_def readU64_def readU32_def readU8_def readI64_def readString_def tool_readString_def tool_u_def
      need_def andThen_eq_Inr Let_def split: if_split_asm)

lemma same_step:
  "andThen r f = Inr y \<Longrightarrow> (\<And>x. r = Inr x \<Longrightarrow> r' = Inr x) \<Longrightarrow> (\<And>x. f x = Inr y \<Longrightarrow> g x = Inr y) \<Longrightarrow>
     andThen r' g = Inr y"
  by (auto simp: andThen_eq_Inr)

lemma same_step_i64:
  "andThen (readI64 data p what) f = Inr y \<Longrightarrow> (\<And>i. f (i, p + 8) = Inr y \<Longrightarrow> g i = Inr y) \<Longrightarrow>
     andThen (readIntLE64 data p) g = Inr y"
  using tool_readers(5) [of data p what] by (auto simp: andThen_eq_Inr)

lemma mandate_fields_alike:
  assumes "decodeMandate pk utf8 data = Inr m"
  shows "tool_decodeMandate pk utf8 data = Inr m"
  using assms unfolding decodeMandate_def tool_decodeMandate_def
  apply -
  apply (((erule same_step_i64 | (erule same_step, (assumption | erule tool_readers(1,2,3,4,6)))),
      (simp only: split_paired_all prod.case)?)+)
  done

section \<open>Ring rows\<close>

record IndexedEntry =
  ix_slot :: nat
  ix_sequence :: int
  ix_entry :: "string LedgerEntry"

definition indexedEntries :: "string LedgerAccount \<Rightarrow> IndexedEntry list" where
  "indexedEntries ledger =
     (if la_total ledger \<le> 32
      then map (\<lambda>slot. \<lparr>ix_slot = slot, ix_sequence = int slot, ix_entry = la_entries ledger ! slot\<rparr>)
             [0..<nat (min (la_total ledger) 32)]
      else map (\<lambda>i. let slot = nat ((la_head ledger + int i) mod 32)
                    in \<lparr>ix_slot = slot, ix_sequence = la_total ledger - 32 + int i,
                        ix_entry = la_entries ledger ! slot\<rparr>) [0..<32])"

text \<open>The rows are the ring, oldest first, and their sequence numbers are the entries' places in the
  whole history.\<close>

lemma indexedEntries_oldest_first:
  assumes "la_total l = int t" "la_head l = int h" "t \<le> 32 \<Longrightarrow> h mod 32 = t mod 32"
  shows "map ix_entry (indexedEntries l) = oldest_first 32 (la_entries l) t h"
    and "map ix_sequence (indexedEntries l) = map (\<lambda>i. int (t - 32 + i)) [0..<min t 32]"
proof -
  have m: "nat ((int h + int i) mod 32) = (h + i) mod 32" for i
    by (metis nat_int of_nat_add of_nat_numeral zmod_int)
  consider "t < 32" | "t = 32" | "32 < t" by linarith
  then have "map ix_entry (indexedEntries l) = oldest_first 32 (la_entries l) t h
    \<and> map ix_sequence (indexedEntries l) = map (\<lambda>i. int (t - 32 + i)) [0..<min t 32]"
  proof cases
    case 2
    then show ?thesis using assms by (simp add: indexedEntries_def oldest_first_def comp_def mod_simps)
  next
    case 3
    then show ?thesis using assms(1,2) m
      by (simp add: indexedEntries_def oldest_first_def comp_def Let_def mod_simps of_nat_diff)
  qed (use assms(1,2) in \<open>simp add: indexedEntries_def oldest_first_def comp_def\<close>)
  then show "map ix_entry (indexedEntries l) = oldest_first 32 (la_entries l) t h"
    "map ix_sequence (indexedEntries l) = map (\<lambda>i. int (t - 32 + i)) [0..<min t 32]" by blast+
qed

definition entryMatches :: "string LedgerEntry \<Rightarrow> int \<Rightarrow> int \<Rightarrow> int \<Rightarrow> int option \<Rightarrow> bool" where
  "entryMatches entry amount nonce kind ts =
     (if le_amount entry \<noteq> amount then False else if le_nonce entry \<noteq> nonce then False
      else if le_kind entry \<noteq> kind then False
      else (case ts of None \<Rightarrow> True | Some t \<Rightarrow> le_ts entry = t))"

definition sameComparedFields :: "string LedgerEntry \<Rightarrow> string LedgerEntry \<Rightarrow> bool" where
  "sameComparedFields a b =
     (le_kind a = le_kind b \<and> le_nonce a = le_nonce b \<and> le_ts a = le_ts b \<and> le_amount a = le_amount b
      \<and> le_counterparty a = le_counterparty b \<and> le_reason a = le_reason b
      \<and> le_suggestedOverride a = le_suggestedOverride b)"

definition ambiguous_rows :: "string \<Rightarrow> nat \<Rightarrow> string \<Rightarrow> string" where
  "ambiguous_rows signature n nonce =
     ''signature '' @ signature @ '' matches '' @ nat_str n @ '' ledger rows for nonce '' @ nonce
     @ '' equally; refusing to bind to the newest''"

definition row_distance :: "int \<Rightarrow> IndexedEntry \<Rightarrow> int" where
  "row_distance target row = (let ts = le_ts (ix_entry row) in if ts \<ge> target then ts - target else target - ts)"

text \<open>
  \<open>sort\<close> by distance, the later sequence first on a tie; it is stable, so it is two stable sorts by one
  key each. No caller passes an empty list, on which the code would throw.
\<close>

definition ranked_rows :: "int \<Rightarrow> IndexedEntry list \<Rightarrow> IndexedEntry list" where
  "ranked_rows target rows = sort_key (row_distance target) (sort_key (\<lambda>r. - ix_sequence r) rows)"

definition ringEntryForSignature ::
  "IndexedEntry list \<Rightarrow> int option \<Rightarrow> string \<Rightarrow> string + string LedgerEntry" where
  "ringEntryForSignature rows blockTime signature =
     (case rows of [] \<Rightarrow> Inl ''TypeError''
      | first # _ \<Rightarrow>
          (case blockTime of
             None \<Rightarrow>
               if 1 < length rows then Inl (ambiguous_rows signature (length rows) (int_str (le_nonce (ix_entry first))))
               else Inr (ix_entry first)
           | Some target \<Rightarrow>
               let ranked = ranked_rows target rows; best = hd ranked;
                   tied = filter (\<lambda>row. row_distance target row = row_distance target best) ranked
               in if 1 < length tied \<and> list_ex (\<lambda>row. \<not> sameComparedFields (ix_entry row) (ix_entry best)) tied
                  then Inl (ambiguous_rows signature (length tied) (int_str (le_nonce (ix_entry best))))
                  else Inr (ix_entry best)))"

definition ringRowForLogKind ::
  "string + string LedgerEntry \<Rightarrow> IndexedEntry list \<Rightarrow> int option \<Rightarrow> string \<Rightarrow> int option \<Rightarrow>
   string + string LedgerEntry" where
  "ringRowForLogKind picked rows blockTime signature logKind =
     (case picked of Inl e \<Rightarrow> picked
      | Inr entry \<Rightarrow>
          (case logKind of None \<Rightarrow> picked
           | Some kind \<Rightarrow>
               if le_kind entry = kind then picked
               else
                 let sameKind = filter (\<lambda>row. le_kind (ix_entry row) = kind) rows
                 in if sameKind = [] then picked else ringEntryForSignature sameKind blockTime signature))"

definition matchingRingEntry ::
  "string LedgerAccount \<Rightarrow> int \<Rightarrow> int \<Rightarrow> string \<Rightarrow> int option \<Rightarrow> string option \<Rightarrow> string LedgerEntry option result" where
  "matchingRingEntry ledger amount nonce kind timestamp signature =
     andThen (kindByte kind) (\<lambda>k.
       let hits = filter (\<lambda>row. entryMatches (ix_entry row) amount nonce k None) (indexedEntries ledger)
       in Inr (if hits = [] then None
               else case ringEntryForSignature hits timestamp (case signature of None \<Rightarrow> [] | Some s \<Rightarrow> s) of
                      Inl e \<Rightarrow> None | Inr entry \<Rightarrow> Some entry))"

section \<open>Binding a charge to its event\<close>

record ChargeLogDecision =
  cl_kind :: string
  cl_reasonCode :: int
  cl_reasonText :: string
  cl_amount :: int
  cl_suggestedOverride :: int

text \<open>\<open>/VETO REFUSED reason=(\d+) \(([^)]*)\) amount=(\d+).*override_to_clear=(\d+)/\<close> with its four groups.\<close>

definition tool_refused_match :: "string \<Rightarrow> (string \<times> string \<times> string \<times> string) option" where
  "tool_refused_match r =
     map_option (\<lambda>(code, amount, clear).
         (code, takeWhile (\<lambda>c. c \<noteq> CHR '')'') (drop (length code + 2) r), amount, clear)) (idx_refused_match r)"

definition charge_line :: "string \<Rightarrow> ChargeLogDecision option" where
  "charge_line line =
     (case idx_paid_amount line of
        Some amount \<Rightarrow>
          Some \<lparr>cl_kind = ''paid'', cl_reasonCode = 0, cl_reasonText = ''ok'', cl_amount = int (str_val amount),
                cl_suggestedOverride = 0\<rparr>
      | None \<Rightarrow>
          (case List.map_filter tool_refused_match (after_each ''VETO REFUSED reason='' line) of
             [] \<Rightarrow> None
           | (code, why, amount, clear) # _ \<Rightarrow>
               let reasonCode = int (str_val code)
               in Some \<lparr>cl_kind = ''refused'', cl_reasonCode = reasonCode,
                        cl_reasonText = (if why \<noteq> [] then why else tool_reasonText reasonCode),
                        cl_amount = int (str_val amount), cl_suggestedOverride = int (str_val clear)\<rparr>))"

definition chargeLogDecisions :: "string list \<Rightarrow> string \<Rightarrow> ChargeLogDecision list" where
  "chargeLogDecisions logs programId = List.map_filter charge_line (idx_linesForProgram logs programId)"

definition parseChargeLogs :: "string list \<Rightarrow> string \<Rightarrow> ChargeLogDecision option" where
  "parseChargeLogs logs programId = (case chargeLogDecisions logs programId of [] \<Rightarrow> None | d # _ \<Rightarrow> Some d)"

record DecisionTriple =
  dt_mandate :: string
  dt_nonce :: int
  dt_amount :: int

definition bindByTriple :: "'t list \<Rightarrow> DecisionTriple \<Rightarrow> ('t \<Rightarrow> DecisionTriple) \<Rightarrow> 't list" where
  "bindByTriple items want keyOf =
     filter (\<lambda>item. let key = keyOf item in dt_mandate key = dt_mandate want \<and> dt_nonce key = dt_nonce want
                      \<and> dt_amount key = dt_amount want) items"

definition vetoDecisionCountError :: "nat \<Rightarrow> int \<Rightarrow> string" where
  "vetoDecisionCountError count nonce =
     ''transaction carries '' @ nat_str count @ '' Veto decisions for nonce '' @ int_str nonce"

datatype BoundVetoDecision = BoundOne ChargeLogDecision | BoundError string | BoundNone

definition event_triple :: "IdxEvent \<Rightarrow> DecisionTriple" where
  "event_triple e = \<lparr>dt_mandate = ie_mandate e, dt_nonce = ie_nonce e, dt_amount = ie_amount e\<rparr>"

definition boundVetoDecision ::
  "(bytes \<Rightarrow> string) \<Rightarrow> (string \<Rightarrow> bytes) \<Rightarrow> string list \<Rightarrow> string \<Rightarrow> DecisionTriple \<Rightarrow> BoundVetoDecision" where
  "boundVetoDecision pk fromBase64 logs programId want =
     (let events = filter (\<lambda>e. ie_rule e = None) (idx_decodeEventsFromLogs pk fromBase64 logs (Some programId))
      in if events = [] then BoundNone
         else
           let matches = bindByTriple events want event_triple
           in (case matches of
                 [event] \<Rightarrow>
                   BoundOne \<lparr>cl_kind = kind_text (ie_kind event), cl_reasonCode = ie_reason event,
                             cl_reasonText = tool_reasonText (ie_reason event), cl_amount = ie_amount event,
                             cl_suggestedOverride = ie_suggestedOverride event\<rparr>
               | _ \<Rightarrow> BoundError (vetoDecisionCountError (length matches) (dt_nonce want))))"

lemma bindByTriple_iff: "bindByTriple items want keyOf = filter (\<lambda>item. keyOf item = want) items"
  unfolding bindByTriple_def Let_def by (rule filter_cong) auto

section \<open>The chosen row\<close>

lemma set_ranked_rows [simp]: "set (ranked_rows t rows) = set rows"
  by (simp add: ranked_rows_def)

lemma ranked_best:
  assumes "rows \<noteq> []" "row \<in> set rows"
  shows "row_distance t (hd (ranked_rows t rows)) \<le> row_distance t row"
proof -
  have "sorted (map (row_distance t) (ranked_rows t rows))" by (simp add: ranked_rows_def)
  moreover have "ranked_rows t rows \<noteq> []" using assms(1) by (metis set_empty set_ranked_rows)
  moreover have "row \<in> set (ranked_rows t rows)" using assms(2) by simp
  ultimately show ?thesis by (cases "ranked_rows t rows") auto
qed

lemma sameComparedFields_iff: "sameComparedFields a b \<longleftrightarrow> a = b"
  by (cases a; cases b) (auto simp: sameComparedFields_def)

text \<open>C15: the ring row bound to a transaction is one nearest to its block time, and every row equally near
  has the same fields, so the choice does not depend on the order of the rows or on their sequence
  numbers; when two rows equally near differ, no row is bound.
\<close>
theorem bound_row_is_the_nearest:
  assumes "rows \<noteq> []"
  shows "ringEntryForSignature rows (Some t) signature = Inr e \<longleftrightarrow>
     (\<exists>row\<in>set rows. ix_entry row = e \<and> (\<forall>r\<in>set rows. row_distance t row \<le> row_distance t r)
        \<and> (\<forall>r\<in>set rows. row_distance t r = row_distance t row \<longrightarrow> ix_entry r = e))"
proof -
  obtain first more where rows: "rows = first # more" using assms by (cases rows) auto
  define best where "best = hd (ranked_rows t rows)"
  define tied where "tied = filter (\<lambda>row. row_distance t row = row_distance t best) (ranked_rows t rows)"
  have ne: "ranked_rows t rows \<noteq> []" using assms by (metis set_empty set_ranked_rows)
  then have "best \<in> set (ranked_rows t rows)" unfolding best_def by (rule hd_in_set)
  then have best: "best \<in> set rows" "best \<in> set tied" by (simp_all add: tied_def)
  have least: "\<forall>r\<in>set rows. row_distance t best \<le> row_distance t r"
    using ranked_best [OF assms] by (simp add: best_def)
  have tied: "set tied = {r \<in> set rows. row_distance t r = row_distance t best}" by (auto simp: tied_def)
  have one: "tied = [best]" if "\<not> 1 < length tied"
    using that best(2) by (cases tied) auto
  have choice: "ringEntryForSignature rows (Some t) signature =
      (if 1 < length tied \<and> list_ex (\<lambda>row. \<not> sameComparedFields (ix_entry row) (ix_entry best)) tied
       then Inl (ambiguous_rows signature (length tied) (int_str (le_nonce (ix_entry best)))) else Inr (ix_entry best))"
    by (simp add: ringEntryForSignature_def rows best_def tied_def Let_def)
  have result: "ringEntryForSignature rows (Some t) signature = Inr e \<longleftrightarrow>
      ix_entry best = e \<and> (\<forall>r\<in>set tied. ix_entry r = ix_entry best)"
    unfolding choice using one by (auto simp: sameComparedFields_iff list_ex_iff)
  show ?thesis
  proof
    assume "ringEntryForSignature rows (Some t) signature = Inr e"
    with result best(1) least tied show "\<exists>row\<in>set rows. ix_entry row = e \<and> (\<forall>r\<in>set rows. row_distance t row \<le> row_distance t r)
        \<and> (\<forall>r\<in>set rows. row_distance t r = row_distance t row \<longrightarrow> ix_entry r = e)" by auto
  next
    assume "\<exists>row\<in>set rows. ix_entry row = e \<and> (\<forall>r\<in>set rows. row_distance t row \<le> row_distance t r)
        \<and> (\<forall>r\<in>set rows. row_distance t r = row_distance t row \<longrightarrow> ix_entry r = e)"
    then obtain row where row: "row \<in> set rows" "\<forall>r\<in>set rows. row_distance t row \<le> row_distance t r"
        "\<forall>r\<in>set rows. row_distance t r = row_distance t row \<longrightarrow> ix_entry r = e" by blast
    have "row_distance t row = row_distance t best" using row(1,2) best(1) least by (simp add: order_antisym)
    with row(3) best tied show "ringEntryForSignature rows (Some t) signature = Inr e" by (auto simp: result)
  qed
qed

definition demo_ring_row :: "nat \<Rightarrow> int \<Rightarrow> int \<Rightarrow> IndexedEntry" where
  "demo_ring_row i ts kind = \<lparr>ix_slot = i, ix_sequence = int i, ix_entry =
     \<lparr>le_ts = ts, le_amount = 50, le_counterparty = ''m'', le_nonce = 5, le_suggestedOverride = 0, le_kind = kind, le_reason = 0\<rparr>\<rparr>"

theorem bound_row_is_the_nearest_witness:
  "ringEntryForSignature [demo_ring_row 0 10 2, demo_ring_row 1 20 1] (Some 19) ''sig'' = Inr (ix_entry (demo_ring_row 1 20 1))"
  by (subst bound_row_is_the_nearest) (auto simp: demo_ring_row_def row_distance_def Let_def)

end
