(* ===== verification/Verify_Tx.thy ===== *)
theory Verify_Tx
  imports Verify_Lib Instructions
begin

text \<open>
  What the verification tools read from a transaction (\<open>tools/lib.ts\<close>): its account keys, the
  instructions of the program at the top level and inside other calls, the openings and closings of a
  mandate, and the charges. The layouts come from the bundled interface \<open>tools/idl/veto.json\<close>. An
  absent field of the RPC answer is None; a key that is no public key is None inside the list, and the
  code throws on it.
\<close>

record ToolMeta = RpcMeta +
  tm_inner :: "RpcInstruction list option list option"

record ToolTx =
  tt_meta :: "ToolMeta option"
  tt_message :: RpcMessage
  tt_blockTime :: "int option"
  tt_slot :: "int option"

definition tool_toPublicKey :: "string option \<Rightarrow> string result" where
  "tool_toPublicKey k = (case k of None \<Rightarrow> Inl (Error ''lib.toPublicKey: not a public key'') | Some t \<Rightarrow> Inr t)"

definition flattenAccountKeys :: "ToolTx \<Rightarrow> string list result" where
  "flattenAccountKeys tx =
     (let msg = tt_message tx in
      if or_empty (rm_accountKeys msg) \<noteq> [] then traverse tool_toPublicKey (or_empty (rm_accountKeys msg))
      else
        traverse tool_toPublicKey
          (or_empty (rm_staticAccountKeys msg)
           @ (case tt_meta tx of None \<Rightarrow> [] | Some m \<Rightarrow> or_empty (rt_loadedWritable m) @ or_empty (rt_loadedReadonly m))))"

record OpenLayout =
  ol_disc :: bytes
  ol_accounts :: "string list"

definition open_mandate_layout :: OpenLayout where
  "open_mandate_layout =
     \<lparr>ol_disc = [116, 145, 190, 28, 86, 223, 105, 74],
      ol_accounts = [''owner'', ''mandate'', ''ledger'', ''source'', ''mint'', ''token_program'', ''system_program'']\<rparr>"

definition close_mandate_layout :: OpenLayout where
  "close_mandate_layout =
     \<lparr>ol_disc = [117, 87, 189, 5, 254, 125, 248, 180], ol_accounts = [''owner'', ''mandate'', ''ledger'']\<rparr>"

definition idl_discriminators :: "bytes list" where
  "idl_discriminators =
     [[248, 177, 9, 41, 50, 98, 255, 50], [100, 30, 4, 148, 3, 244, 243, 168], [26, 55, 197, 209, 93, 77, 242, 15],
      [117, 87, 189, 5, 254, 125, 248, 180], [93, 102, 200, 106, 195, 121, 250, 120], [242, 35, 198, 137, 82, 225, 242, 182],
      [130, 221, 242, 154, 13, 193, 189, 29], [255, 91, 207, 84, 251, 194, 254, 63], [225, 146, 123, 110, 56, 16, 99, 141],
      [133, 223, 203, 45, 174, 92, 157, 151], [77, 79, 85, 150, 33, 217, 52, 106], [116, 145, 190, 28, 86, 223, 105, 74],
      [109, 183, 63, 166, 60, 202, 82, 15], [167, 211, 18, 222, 93, 215, 74, 159], [108, 216, 38, 58, 109, 146, 116, 17],
      [252, 97, 140, 119, 67, 43, 177, 108], [112, 252, 178, 223, 55, 115, 217, 201], [154, 63, 181, 53, 19, 26, 117, 45],
      [42, 133, 32, 60, 171, 253, 184, 155], [178, 144, 26, 216, 241, 187, 206, 130], [133, 160, 68, 253, 80, 232, 218, 247],
      [183, 18, 70, 156, 148, 109, 161, 34]]"

datatype idl_type = IdlU64 | IdlI64 | IdlPubkey | IdlString | IdlOther

definition open_args_fields :: "(string \<times> idl_type) list" where
  "open_args_fields =
     [(''mandate_id'', IdlU64), (''agent'', IdlPubkey), (''merchant'', IdlPubkey), (''cap'', IdlU64),
      (''per_tx_max'', IdlU64), (''expires_at'', IdlI64), (''purpose'', IdlString)]"

datatype idl_value = IdlInt int | IdlKey string | IdlText string

definition overruns :: "string \<Rightarrow> js_error" where
  "overruns name = Error (''OpenMandateArgs field '' @ name @ '' overruns the instruction'')"

definition read_field ::
  "(bytes \<Rightarrow> string) \<Rightarrow> (bytes \<Rightarrow> string) \<Rightarrow> bytes \<Rightarrow> nat \<Rightarrow> string \<times> idl_type \<Rightarrow> (idl_value \<times> nat) result" where
  "read_field pk utf8 data p field =
     (case field of (name, ty) \<Rightarrow>
       (case ty of
          IdlU64 \<Rightarrow>
            if p + 8 > length data then Inl (overruns name)
            else andThen (readUIntLE 8 data p) (\<lambda>v. Inr (IdlInt v, p + 8))
        | IdlI64 \<Rightarrow>
            if p + 8 > length data then Inl (overruns name)
            else andThen (readIntLE64 data p) (\<lambda>v. Inr (IdlInt v, p + 8))
        | IdlPubkey \<Rightarrow>
            if p + 32 > length data then Inl (overruns name) else Inr (IdlKey (pk (slice data p (p + 32))), p + 32)
        | IdlString \<Rightarrow>
            if p + 4 > length data then Inl (overruns name)
            else andThen (readUIntLE 4 data p) (\<lambda>len.
              if p + 4 + nat len > length data then Inl (overruns name)
              else Inr (IdlText (utf8 (slice data (p + 4) (p + 4 + nat len))), p + 4 + nat len))
        | IdlOther \<Rightarrow> Inl (Error (''OpenMandateArgs field '' @ name @ '' is not a scalar in the bundled IDL''))))"

fun read_fields ::
  "(bytes \<Rightarrow> string) \<Rightarrow> (bytes \<Rightarrow> string) \<Rightarrow> bytes \<Rightarrow> nat \<Rightarrow> (string \<times> idl_type) list \<Rightarrow>
   ((string \<times> idl_value) list \<times> nat) result" where
  "read_fields pk utf8 data p [] = Inr ([], p)"
| "read_fields pk utf8 data p (field # others) =
     andThen (read_field pk utf8 data p field) (\<lambda>(v, p').
     andThen (read_fields pk utf8 data p' others) (\<lambda>(values, q). Inr ((fst field, v) # values, q)))"

record OpenedMandate =
  od_owner :: string
  od_mandateId :: int
  od_merchant :: string
  od_cap :: int
  od_perTxMax :: int
  od_expiresAt :: int
  od_purpose :: string

definition decodeOpenMandateArgs ::
  "(bytes \<Rightarrow> string) \<Rightarrow> (bytes \<Rightarrow> string) \<Rightarrow> string \<Rightarrow> bytes \<Rightarrow> OpenedMandate result" where
  "decodeOpenMandateArgs pk utf8 owner data =
     (let disc = ol_disc open_mandate_layout in
      if length data < length disc \<or> take (length disc) data \<noteq> disc
      then Inl (Error ''open_mandate discriminator mismatch'')
      else andThen (read_fields pk utf8 data (length disc) open_args_fields) (\<lambda>(values, p).
        if p \<noteq> length data then Inl (Error ''OpenMandateArgs did not consume the instruction'')
        else
          (case (map_of values ''mandate_id'', map_of values ''merchant'', map_of values ''cap'',
                 map_of values ''per_tx_max'', map_of values ''expires_at'', map_of values ''purpose'') of
             (Some (IdlInt i), Some (IdlKey merchant), Some (IdlInt cap), Some (IdlInt per_tx), Some (IdlInt expires),
              Some (IdlText purpose)) \<Rightarrow>
               Inr \<lparr>od_owner = owner, od_mandateId = i, od_merchant = merchant, od_cap = cap, od_perTxMax = per_tx,
                    od_expiresAt = expires, od_purpose = purpose\<rparr>
           | _ \<Rightarrow> Inl (Error ''OpenMandateArgs is missing a field in the bundled IDL''))))"

record ProgramIx =
  px_data :: bytes
  px_accounts :: "string list"
  px_inner :: bool

text \<open>A compiled instruction carries bytes and \<open>accountKeyIndexes\<close>, a legacy one text and \<open>accounts\<close>; an
  inner instruction without data is one with the empty bytes.\<close>

record RawIx =
  rw_program :: nat
  rw_accounts :: "nat list"
  rw_data :: bytes
  rw_inner :: bool

definition raw_compiled :: "RpcInstruction \<Rightarrow> RawIx result" where
  "raw_compiled ix =
     andThen (ixData (ri_data ix)) (\<lambda>d.
       Inr \<lparr>rw_program = ri_programIdIndex ix, rw_accounts = or_empty (ri_accountKeyIndexes ix), rw_data = d, rw_inner = False\<rparr>)"

definition raw_legacy :: "RpcInstruction \<Rightarrow> RawIx result" where
  "raw_legacy ix =
     andThen (ixData (ri_data ix)) (\<lambda>d.
       Inr \<lparr>rw_program = ri_programIdIndex ix, rw_accounts = or_empty (ri_accounts ix), rw_data = d, rw_inner = False\<rparr>)"

definition raw_inner :: "RpcInstruction \<Rightarrow> RawIx result" where
  "raw_inner ix =
     andThen (ixData (ri_data ix)) (\<lambda>d.
       Inr \<lparr>rw_program = ri_programIdIndex ix,
            rw_accounts = (case ri_accounts ix of Some is \<Rightarrow> is | None \<Rightarrow> or_empty (ri_accountKeyIndexes ix)),
            rw_data = d, rw_inner = True\<rparr>)"

definition top_instructions :: "ToolTx \<Rightarrow> RawIx list result" where
  "top_instructions tx =
     (case rm_compiledInstructions (tt_message tx) of
        Some ixs \<Rightarrow> traverse raw_compiled ixs
      | None \<Rightarrow> traverse raw_legacy (or_empty (rm_instructions (tt_message tx))))"

definition inner_instructions :: "ToolTx \<Rightarrow> RawIx list result" where
  "inner_instructions tx =
     traverse raw_inner
       (concat (map or_empty (case tt_meta tx of None \<Rightarrow> [] | Some m \<Rightarrow> or_empty (tm_inner m))))"

definition key_or_missing :: "string \<Rightarrow> string list \<Rightarrow> nat \<Rightarrow> string result" where
  "key_or_missing what keys i =
     (if i < length keys then Inr (keys ! i) else Inl (Error (what @ '' account index '' @ nat_str i @ '' missing'')))"

definition invokes :: "string list \<Rightarrow> string \<Rightarrow> RawIx \<Rightarrow> bool" where
  "invokes keys programId ix = (rw_program ix < length keys \<and> keys ! rw_program ix = programId)"

definition resolvedProgramIxs :: "ToolTx \<Rightarrow> string \<Rightarrow> ProgramIx list result" where
  "resolvedProgramIxs tx programId =
     andThen (flattenAccountKeys tx) (\<lambda>keys.
     andThen (top_instructions tx) (\<lambda>top_ixs.
     andThen (inner_instructions tx) (\<lambda>inner_ixs.
       traverse (\<lambda>ix. andThen (traverse (key_or_missing ''instruction'' keys) (rw_accounts ix)) (\<lambda>accounts.
           Inr \<lparr>px_data = rw_data ix, px_accounts = accounts, px_inner = rw_inner ix\<rparr>))
         (filter (invokes keys programId) (top_ixs @ inner_ixs)))))"

definition knownProgramInstruction :: "bytes \<Rightarrow> bytes list \<Rightarrow> bool" where
  "knownProgramInstruction data discriminators =
     (if length data < 8 then False else list_ex (\<lambda>disc. take 8 data = disc) discriminators)"

fun position :: "'x \<Rightarrow> 'x list \<Rightarrow> nat option" where
  "position x [] = None"
| "position x (y # ys) = (if x = y then Some 0 else map_option Suc (position x ys))"

definition accountNamed :: "string list \<Rightarrow> string list \<Rightarrow> string \<Rightarrow> string option result" where
  "accountNamed accounts names name =
     (case position name names of
        None \<Rightarrow> Inl (Error (''bundled IDL has no '' @ name @ '' account''))
      | Some i \<Rightarrow> Inr (if i < length accounts then Some (accounts ! i) else None))"

record MandateLifecycle =
  ml_opens :: "OpenedMandate list"
  ml_closes :: nat

definition starts_disc :: "bytes \<Rightarrow> bytes \<Rightarrow> bool" where
  "starts_disc data disc = (length data \<ge> length disc \<and> take (length disc) data = disc)"

definition lifecycle_step ::
  "(bytes \<Rightarrow> string) \<Rightarrow> (bytes \<Rightarrow> string) \<Rightarrow> string \<Rightarrow> ProgramIx \<Rightarrow> MandateLifecycle \<Rightarrow> MandateLifecycle result" where
  "lifecycle_step pk utf8 mandate ix acc =
     (if px_inner ix \<and> \<not> knownProgramInstruction (px_data ix) idl_discriminators
      then Inl (Error ''an inner instruction to the program could not be read'')
      else if starts_disc (px_data ix) (ol_disc open_mandate_layout) then
        andThen (accountNamed (px_accounts ix) (ol_accounts open_mandate_layout) ''mandate'') (\<lambda>named.
          if named \<noteq> Some mandate then Inr acc
          else andThen (accountNamed (px_accounts ix) (ol_accounts open_mandate_layout) ''owner'') (\<lambda>owner.
            (case owner of None \<Rightarrow> Inl (Error ''open_mandate instruction is missing the owner account'')
             | Some owner_key \<Rightarrow>
                 andThen (decodeOpenMandateArgs pk utf8 owner_key (px_data ix)) (\<lambda>opened.
                   Inr (acc\<lparr>ml_opens := ml_opens acc @ [opened]\<rparr>)))))
      else if starts_disc (px_data ix) (ol_disc close_mandate_layout) then
        andThen (accountNamed (px_accounts ix) (ol_accounts close_mandate_layout) ''mandate'') (\<lambda>named.
          if named \<noteq> Some mandate then Inr acc else Inr (acc\<lparr>ml_closes := ml_closes acc + 1\<rparr>))
      else Inr acc)"

fun lifecycle_steps ::
  "(bytes \<Rightarrow> string) \<Rightarrow> (bytes \<Rightarrow> string) \<Rightarrow> string \<Rightarrow> ProgramIx list \<Rightarrow> MandateLifecycle \<Rightarrow> MandateLifecycle result" where
  "lifecycle_steps pk utf8 mandate [] acc = Inr acc"
| "lifecycle_steps pk utf8 mandate (ix # ixs) acc =
     andThen (lifecycle_step pk utf8 mandate ix acc) (lifecycle_steps pk utf8 mandate ixs)"

definition mandateLifecycle ::
  "(bytes \<Rightarrow> string) \<Rightarrow> (bytes \<Rightarrow> string) \<Rightarrow> ToolTx \<Rightarrow> string \<Rightarrow> string \<Rightarrow> MandateLifecycle result" where
  "mandateLifecycle pk utf8 tx programId mandate =
     andThen (resolvedProgramIxs tx programId) (\<lambda>ixs.
       lifecycle_steps pk utf8 mandate ixs \<lparr>ml_opens = [], ml_closes = 0\<rparr>)"

record ChargeIx =
  ch_amount :: int
  ch_nonce :: int
  ch_agent :: string
  ch_mandate :: string
  ch_ledger :: string
  ch_source :: string
  ch_destination :: string
  ch_mint :: string

definition parse_charge :: "string list \<Rightarrow> RawIx \<Rightarrow> ChargeIx result" where
  "parse_charge keys ix =
     (if length (rw_accounts ix) < 7 then Inl (Error ''charge instruction has fewer than 7 accounts'')
      else
        andThen (readUIntLE 8 (rw_data ix) 8) (\<lambda>amount.
        andThen (readUIntLE 8 (rw_data ix) 16) (\<lambda>nonce.
        andThen (traverse (\<lambda>i. key_or_missing ''charge'' keys (rw_accounts ix ! i)) [0..<6]) (\<lambda>ks.
          Inr \<lparr>ch_amount = amount, ch_nonce = nonce, ch_agent = ks ! 0, ch_mandate = ks ! 1, ch_ledger = ks ! 2,
               ch_source = ks ! 3, ch_destination = ks ! 4, ch_mint = ks ! 5\<rparr>))))"

definition parseChargeFromTx :: "ToolTx \<Rightarrow> string \<Rightarrow> ChargeIx list result" where
  "parseChargeFromTx tx programId =
     andThen (flattenAccountKeys tx) (\<lambda>keys.
     andThen (top_instructions tx) (\<lambda>ixs.
       traverse (parse_charge keys)
         (filter (\<lambda>ix. invokes keys programId ix \<and> \<not> length (rw_data ix) < 24 \<and> take 8 (rw_data ix) = CHARGE_IX_DISC) ixs)))"

definition charge_triple :: "ChargeIx \<Rightarrow> DecisionTriple" where
  "charge_triple c = \<lparr>dt_mandate = ch_mandate c, dt_nonce = ch_nonce c, dt_amount = ch_amount c\<rparr>"

section \<open>The opening the program reads is the opening the tools read\<close>

definition opened_view ::
  "(bytes \<Rightarrow> string) \<Rightarrow> (bytes \<Rightarrow> string) \<Rightarrow> string \<Rightarrow> OpenMandateArgs \<Rightarrow> OpenedMandate" where
  "opened_view pk utf8 owner a =
     \<lparr>od_owner = owner, od_mandateId = int (unat (oa_mandate_id a)), od_merchant = pk (oa_merchant a),
      od_cap = int (unat (oa_cap a)), od_perTxMax = int (unat (oa_per_tx_max a)), od_expiresAt = oa_expires_at a,
      od_purpose = utf8 (oa_purpose a)\<rparr>"

lemma unat_le_val_8: "unat (of_nat (le_val (take 8 bs)) :: 64 word) = le_val (take 8 bs)"
proof -
  have "le_val (take 8 bs) < 256 ^ length (take 8 bs)" by (rule le_val_bound)
  also have "\<dots> \<le> (256 :: nat) ^ 8" by (rule power_increasing) simp_all
  finally show ?thesis by (simp add: unat_of_nat)
qed

lemma taken:
  "take_u64 bs = Some (w, r) \<Longrightarrow> 8 \<le> length bs \<and> unat w = le_val (take 8 bs) \<and> r = drop 8 bs"
  "take_key bs = Some (k, r) \<Longrightarrow> 32 \<le> length bs \<and> k = take 32 bs \<and> r = drop 32 bs"
  "take_i64 bs = Some (i, r) \<Longrightarrow> 8 \<le> length bs \<and> i = i64_val (le_val (take 8 bs)) \<and> r = drop 8 bs"
  "take_string valid bs = Some (s, r) \<Longrightarrow> 4 + le_val (take 4 bs) \<le> length bs \<and> s = take (le_val (take 4 bs)) (drop 4 bs)"
  by (auto simp: take_u64_def take_key_def take_i64_def take_string_def unat_le_val_8 Let_def split: if_split_asm)

lemma read_open_mandate_parts:
  assumes "read_open_mandate valid body = Some a"
  defines "n \<equiv> le_val (take 4 (drop 96 body))"
  shows "100 + n \<le> length body" "unat (oa_mandate_id a) = le_val (take 8 body)"
    "oa_merchant a = take 32 (drop 40 body)" "unat (oa_cap a) = le_val (take 8 (drop 72 body))"
    "unat (oa_per_tx_max a) = le_val (take 8 (drop 80 body))"
    "oa_expires_at a = i64_val (le_val (take 8 (drop 88 body)))" "oa_purpose a = take n (drop 100 body)"
proof -
  from assms(1) obtain mid b1 agent b2 merchant b3 cap b4 per b5 ex b6 purpose b7 where
    t: "take_u64 body = Some (mid, b1)" "take_key b1 = Some (agent, b2)" "take_key b2 = Some (merchant, b3)"
      "take_u64 b3 = Some (cap, b4)" "take_u64 b4 = Some (per, b5)" "take_i64 b5 = Some (ex, b6)"
      "take_string valid b6 = Some (purpose, b7)" and
    a: "a = \<lparr>oa_mandate_id = mid, oa_agent = agent, oa_merchant = merchant, oa_cap = cap, oa_per_tx_max = per,
      oa_expires_at = ex, oa_purpose = purpose\<rparr>"
    by (auto simp: read_open_mandate_def bind_eq_Some_conv)
  note u = taken(1) [OF t(1)] taken(2) [OF t(2)] taken(2) [OF t(3)] taken(1) [OF t(4)] taken(1) [OF t(5)]
    taken(3) [OF t(6)] taken(4) [OF t(7)]
  have b: "b1 = drop 8 body" "b2 = drop 40 body" "b3 = drop 72 body" "b4 = drop 80 body" "b5 = drop 88 body" "b6 = drop 96 body"
    using u by simp_all
  have "4 + n \<le> length (drop 96 body)" "purpose = take n (drop 4 (drop 96 body))"
    using conjunct1 [OF u(7)] conjunct2 [OF u(7)] unfolding b n_def by blast+
  then show "100 + n \<le> length body" "oa_purpose a = take n (drop 100 body)" by (simp_all add: a)
  show "unat (oa_mandate_id a) = le_val (take 8 body)" "oa_merchant a = take 32 (drop 40 body)"
    "unat (oa_cap a) = le_val (take 8 (drop 72 body))" "unat (oa_per_tx_max a) = le_val (take 8 (drop 80 body))"
    "oa_expires_at a = i64_val (le_val (take 8 (drop 88 body)))"
    using u(1,3,4,5,6) unfolding b by (simp_all add: a)
qed


lemma le_val_zeros: "le_val (replicate n 0) = 0"
  by (induction n) simp_all


end
