(* ===== verification/Verify_Tenure.thy ===== *)
theory Verify_Tenure
  imports Verify_Tx
begin

text \<open>
  Under which opening of a mandate a signature was made (\<open>tools/verify.ts\<close>). The same address can be
  closed and opened again, so the verifier walks the signatures of the mandate from the oldest on and
  gives each one the opening that was current when it was reached; the limits of a record come from
  that opening, or from the live account when the signature belongs to the tenure that is open now.

  The connection is a function of its arguments: what it answers does not change while one record is
  checked, so the caches of the code, which only save calls, are not part of the model. The host holds
  the operations of other libraries: keys as texts, address derivation, UTF-8, base64, and the escaping
  and quoting of texts for the report. A computation is None when it does not return, which only the
  paging loop could do.
\<close>

datatype conn_error = ConnError (ce_transport: bool) (ce_code: "int option") (ce_message: string)

datatype tool_exn = Transport string | Thrown js_error

type_synonym 'a checked = "(tool_exn + 'a) option"

definition ok :: "'a \<Rightarrow> 'a checked" where
  "ok x = Some (Inr x)"

definition throw :: "tool_exn \<Rightarrow> 'a checked" where
  "throw e = Some (Inl e)"

definition next_do :: "'a checked \<Rightarrow> ('a \<Rightarrow> 'b checked) \<Rightarrow> 'b checked" where
  "next_do m f = (case m of None \<Rightarrow> None | Some (Inl e) \<Rightarrow> Some (Inl e) | Some (Inr x) \<Rightarrow> f x)"

definition of_result :: "'a result \<Rightarrow> 'a checked" where
  "of_result r = (case r of Inl e \<Rightarrow> Some (Inl (Thrown e)) | Inr x \<Rightarrow> Some (Inr x))"

lemma next_do_simps [simp]:
  "next_do (ok x) f = f x" "next_do (throw e) f = throw e" "next_do None f = None"
  by (simp_all add: next_do_def ok_def throw_def)

lemma next_do_ok: "next_do m f = Some (Inr y) \<longleftrightarrow> (\<exists>x. m = Some (Inr x) \<and> f x = Some (Inr y))"
  by (auto simp: next_do_def split: option.splits sum.splits)

lemma of_result_ok: "of_result r = Some (Inr x) \<longleftrightarrow> r = Inr x"
  by (auto simp: of_result_def split: sum.splits)

lemma ok_ok: "ok x = Some (Inr y) \<longleftrightarrow> x = y"
  by (simp add: ok_def)

lemma throw_ok: "throw e \<noteq> Some (Inr y)"
  by (simp add: throw_def)

lemmas checked_ok = next_do_ok of_result_ok ok_ok throw_ok

record MandateSignature =
  ms_signature :: string
  ms_err :: bool
  ms_slot :: "int option"

record host =
  h_pk :: "bytes \<Rightarrow> string"
  h_parse :: "string \<Rightarrow> string option"
  h_utf8 :: "bytes \<Rightarrow> string"
  h_fromBase64 :: "string \<Rightarrow> bytes"
  h_mandatePda :: "string \<Rightarrow> string \<Rightarrow> int \<Rightarrow> string"
  h_ledgerPda :: "string \<Rightarrow> string \<Rightarrow> string"
  h_echoFile :: "string \<Rightarrow> string"
  h_quote :: "string \<Rightarrow> string"
  h_isWellFormed :: "string \<Rightarrow> bool"
  h_range_text :: string

record connection =
  cn_genesis :: "conn_error + string"
  cn_tx :: "string \<Rightarrow> conn_error + ToolTx option"
  cn_page :: "string \<Rightarrow> nat \<Rightarrow> string option \<Rightarrow> conn_error + MandateSignature list"
  cn_lists :: bool
  cn_account :: "string \<Rightarrow> conn_error + (string \<times> bytes) option"

definition failureText :: "host \<Rightarrow> tool_exn \<Rightarrow> string" where
  "failureText h e =
     (case e of Transport m \<Rightarrow> m | Thrown (Error m) \<Rightarrow> m | Thrown RangeError \<Rightarrow> h_range_text h)"

definition asTransportError :: "conn_error \<Rightarrow> tool_exn" where
  "asTransportError e = Transport (ce_message e)"

definition rethrowUnlessInvalidParam :: "conn_error \<Rightarrow> tool_exn" where
  "rethrowUnlessInvalidParam e =
     (if ce_code e = Some (- 32602) then (if ce_transport e then Transport (ce_message e) else Thrown (Error (ce_message e)))
      else asTransportError e)"

definition cachedGenesis :: "connection \<Rightarrow> string checked" where
  "cachedGenesis c = (case cn_genesis c of Inl e \<Rightarrow> throw (rethrowUnlessInvalidParam e) | Inr g \<Rightarrow> ok g)"

definition cachedTransaction :: "connection \<Rightarrow> string \<Rightarrow> ToolTx option checked" where
  "cachedTransaction c signature =
     (case cn_tx c signature of Inl e \<Rightarrow> throw (rethrowUnlessInvalidParam e) | Inr tx \<Rightarrow> ok tx)"

definition readAccount :: "connection \<Rightarrow> string \<Rightarrow> (string \<times> bytes) option checked" where
  "readAccount c address = (case cn_account c address of Inl e \<Rightarrow> throw (asTransportError e) | Inr a \<Rightarrow> ok a)"

definition fetchMandate :: "host \<Rightarrow> connection \<Rightarrow> string \<Rightarrow> string MandateAccount checked" where
  "fetchMandate h c address =
     next_do (readAccount c address) (\<lambda>info.
       case info of None \<Rightarrow> throw (Thrown (Error (''mandate account not found: '' @ address)))
       | Some (owner, data) \<Rightarrow> of_result (tool_decodeMandate (h_pk h) (h_utf8 h) data))"

definition fetchLedger :: "host \<Rightarrow> connection \<Rightarrow> string \<Rightarrow> string LedgerAccount checked" where
  "fetchLedger h c address =
     next_do (readAccount c address) (\<lambda>info.
       case info of None \<Rightarrow> throw (Thrown (Error (''ledger account not found: '' @ address)))
       | Some (owner, data) \<Rightarrow> of_result (tool_decodeLedger (h_pk h) data))"

definition TOKEN_PROGRAM_ID :: string where
  "TOKEN_PROGRAM_ID = ''TokenkegQfeZyiNwAJbNbGKPFXCWuBvf9Ss623VQ5DA''"

definition tokenAccountOwner :: "host \<Rightarrow> connection \<Rightarrow> string \<Rightarrow> string checked" where
  "tokenAccountOwner h c address =
     next_do (readAccount c address) (\<lambda>info.
       case info of None \<Rightarrow> throw (Thrown (Error (''token account not found: '' @ address)))
       | Some (owner, data) \<Rightarrow>
           if owner \<noteq> TOKEN_PROGRAM_ID
           then throw (Thrown (Error (''counterparty '' @ address @ '' is not an SPL token account'')))
           else if length data < 64 then throw (Thrown (Error ''token account data too short''))
           else ok (h_pk h (slice data 32 64)))"

section \<open>The signatures of a mandate\<close>

fun add_new :: "MandateSignature list \<Rightarrow> MandateSignature list \<Rightarrow> MandateSignature list" where
  "add_new out [] = out"
| "add_new out (item # batch) =
     (if ms_signature item \<in> set (map ms_signature out) then add_new out batch else add_new (out @ [item]) batch)"

definition PAGE_LIMIT :: nat where "PAGE_LIMIT = 1000"

partial_function (option) list_pages ::
  "(string option \<Rightarrow> conn_error + MandateSignature list) \<Rightarrow> string option \<Rightarrow> MandateSignature list \<Rightarrow>
   (tool_exn + MandateSignature list) option" where
  "list_pages page before out =
     (case page before of Inl e \<Rightarrow> Some (Inl (asTransportError e))
      | Inr batch \<Rightarrow>
          if batch = [] then Some (Inr out)
          else
            let out' = add_new out batch in
            if length batch < PAGE_LIMIT then Some (Inr out')
            else if length out' = length out \<or> Some (ms_signature (last batch)) = before
            then Some (Inl (Thrown (Error ''mandate history cannot be read completely: a signature repeated'')))
            else list_pages page (Some (ms_signature (last batch))) out')"

definition listMandateSignatures :: "connection \<Rightarrow> string \<Rightarrow> MandateSignature list checked" where
  "listMandateSignatures c mandate = list_pages (cn_page c mandate PAGE_LIMIT) None []"

section \<open>The tenure of a signature\<close>

definition txSlot :: "ToolTx option \<Rightarrow> int option" where
  "txSlot tx = (case tx of None \<Rightarrow> None | Some t \<Rightarrow> tt_slot t)"

definition missing_tx :: "string \<Rightarrow> tool_exn" where
  "missing_tx signature = Transport (''the RPC returned no transaction for a listed signature '' @ signature)"

definition pageOpensOrCloses :: "host \<Rightarrow> connection \<Rightarrow> string \<Rightarrow> string \<Rightarrow> string \<Rightarrow> bool checked" where
  "pageOpensOrCloses h c programId mandate signature =
     next_do (cachedTransaction c signature) (\<lambda>tx.
       case tx of None \<Rightarrow> throw (missing_tx signature)
       | Some t \<Rightarrow>
           (case mandateLifecycle (h_pk h) (h_utf8 h) t programId mandate of
              Inl e \<Rightarrow> ok True
            | Inr mark \<Rightarrow> ok (ml_opens mark \<noteq> [] \<or> 0 < ml_closes mark)))"

text \<open>The pages up to the record, newest first: a page that did not fail, in the record's slot or later.\<close>

fun scan_tenure ::
  "host \<Rightarrow> connection \<Rightarrow> string \<Rightarrow> string \<Rightarrow> int \<Rightarrow> MandateSignature list \<Rightarrow> bool checked" where
  "scan_tenure h c programId mandate recordSlot [] = ok False"
| "scan_tenure h c programId mandate recordSlot (page # pages) =
     (if ms_err page \<or> \<not> (case ms_slot page of None \<Rightarrow> True | Some s \<Rightarrow> s \<ge> recordSlot)
      then scan_tenure h c programId mandate recordSlot pages
      else next_do (pageOpensOrCloses h c programId mandate (ms_signature page)) (\<lambda>found.
        if found then ok True else scan_tenure h c programId mandate recordSlot pages))"

definition mustReadMandateTenure :: "host \<Rightarrow> connection \<Rightarrow> string \<Rightarrow> string \<Rightarrow> string \<Rightarrow> bool checked" where
  "mustReadMandateTenure h c programId mandate signature =
     next_do (listMandateSignatures c mandate) (\<lambda>pages.
     next_do (cachedTransaction c signature) (\<lambda>tx.
       case txSlot tx of None \<Rightarrow> ok True
       | Some recordSlot \<Rightarrow>
           scan_tenure h c programId mandate recordSlot
             (case position signature (map ms_signature pages) of None \<Rightarrow> pages | Some at \<Rightarrow> take (at + 1) pages)))"

text \<open>The opening with its number: the code compares openings as objects, and two openings with equal
  terms are two objects.\<close>

type_synonym tenure = "nat \<times> OpenedMandate"

record Tenures =
  tn_covered :: "string \<Rightarrow> tenure option"
  tn_openCount :: nat
  tn_latestOpenSlot :: "int option"
  tn_current :: "tenure option"

definition ambiguous :: "string \<Rightarrow> string" where
  "ambiguous what = ''mandate history is ambiguous: '' @ what"

definition later_slot :: "int option \<Rightarrow> int option \<Rightarrow> int option" where
  "later_slot slot latest =
     (case slot of None \<Rightarrow> latest
      | Some s \<Rightarrow> (case latest of None \<Rightarrow> Some s | Some l \<Rightarrow> if s > l then Some s else latest))"

definition tenure_step :: "MandateSignature \<Rightarrow> MandateLifecycle \<Rightarrow> Tenures \<Rightarrow> string + Tenures" where
  "tenure_step page mark t =
     (if ml_opens mark \<noteq> [] \<and> 0 < ml_closes mark
      then Inl (ambiguous ''one transaction both opens and closes the mandate'')
      else if 1 < length (ml_opens mark)
      then Inl (ambiguous ''one transaction opens the mandate more than once'')
      else if 1 < ml_closes mark
      then Inl (ambiguous ''one transaction closes the mandate more than once'')
      else
        let t1 = (case tn_current t of None \<Rightarrow> t
                  | Some o1 \<Rightarrow> t\<lparr>tn_covered := (tn_covered t)(ms_signature page \<mapsto> o1)\<rparr>)
        in (case ml_opens mark of
              opened # _ \<Rightarrow>
                if tn_current t1 \<noteq> None
                then Inl (ambiguous ''a mandate was opened again before it was closed'')
                else Inr (t1\<lparr>tn_openCount := tn_openCount t1 + 1,
                             tn_latestOpenSlot := later_slot (ms_slot page) (tn_latestOpenSlot t1),
                             tn_current := Some (tn_openCount t1 + 1, opened)\<rparr>)
            | [] \<Rightarrow>
                if ml_closes mark = 1 then
                  (if tn_current t1 = None
                   then Inl (ambiguous ''a mandate was closed before it was opened'')
                   else Inr (t1\<lparr>tn_current := None\<rparr>))
                else Inr t1))"

definition no_tenures :: Tenures where
  "no_tenures = \<lparr>tn_covered = (\<lambda>_. None), tn_openCount = 0, tn_latestOpenSlot = None, tn_current = None\<rparr>"

fun walk_tenures ::
  "host \<Rightarrow> connection \<Rightarrow> string \<Rightarrow> string \<Rightarrow> MandateSignature list \<Rightarrow> Tenures \<Rightarrow> (string + Tenures) checked" where
  "walk_tenures h c programId mandate [] t = ok (Inr t)"
| "walk_tenures h c programId mandate (page # pages) t =
     (if ms_err page then walk_tenures h c programId mandate pages t
      else
        next_do (cachedTransaction c (ms_signature page)) (\<lambda>tx.
          case tx of None \<Rightarrow> throw (missing_tx (ms_signature page))
          | Some body \<Rightarrow>
              (case mandateLifecycle (h_pk h) (h_utf8 h) body programId mandate of
                 Inl e \<Rightarrow> ok (Inl (''mandate history cannot be read completely: '' @ failureText h (Thrown e)))
               | Inr mark \<Rightarrow>
                   (case tenure_step page mark t of
                      Inl failure \<Rightarrow> ok (Inl failure)
                    | Inr t' \<Rightarrow> walk_tenures h c programId mandate pages t'))))"

definition closedMandateHistory :: "host \<Rightarrow> connection \<Rightarrow> string \<Rightarrow> string \<Rightarrow> (string + Tenures) checked" where
  "closedMandateHistory h c programId mandate =
     next_do (listMandateSignatures c mandate) (\<lambda>pages.
       walk_tenures h c programId mandate (rev pages) no_tenures)"

definition coveredOpeningTenures ::
  "host \<Rightarrow> connection \<Rightarrow> string \<Rightarrow> string \<Rightarrow> (string \<Rightarrow> tenure option) checked" where
  "coveredOpeningTenures h c programId mandate =
     next_do (closedMandateHistory h c programId mandate) (\<lambda>history.
       case history of Inl failure \<Rightarrow> throw (Thrown (Error failure)) | Inr t \<Rightarrow> ok (tn_covered t))"

definition not_covered :: "host \<Rightarrow> string \<Rightarrow> string" where
  "not_covered h signature = ''mandate history does not cover signature '' @ h_echoFile h signature"

definition tenureCovering :: "host \<Rightarrow> (string \<Rightarrow> tenure option) \<Rightarrow> string \<Rightarrow> OpenedMandate checked" where
  "tenureCovering h covered signature =
     (case covered signature of None \<Rightarrow> throw (Thrown (Error (not_covered h signature))) | Some (n, opened) \<Rightarrow> ok opened)"

definition openingTenureForSignature :: "host \<Rightarrow> connection \<Rightarrow> string \<Rightarrow> string \<Rightarrow> string \<Rightarrow> OpenedMandate checked" where
  "openingTenureForSignature h c programId mandate signature =
     next_do (coveredOpeningTenures h c programId mandate) (\<lambda>covered. tenureCovering h covered signature)"

record LimitView =
  lv_owner :: string
  lv_mandateId :: int
  lv_merchant :: string
  lv_cap :: int
  lv_perTxMax :: int
  lv_expiresAt :: int
  lv_purpose :: string
  lv_fromOpening :: bool
  lv_ringSuperseded :: bool

definition liveLimits :: "string MandateAccount \<Rightarrow> LimitView" where
  "liveLimits m =
     \<lparr>lv_owner = ma_owner m, lv_mandateId = ma_mandateId m, lv_merchant = ma_merchant m, lv_cap = ma_cap m,
      lv_perTxMax = ma_perTxMax m, lv_expiresAt = ma_expiresAt m, lv_purpose = ma_purpose m,
      lv_fromOpening = False, lv_ringSuperseded = False\<rparr>"

definition openingLimits :: "OpenedMandate \<Rightarrow> bool \<Rightarrow> LimitView" where
  "openingLimits o1 ringSuperseded =
     \<lparr>lv_owner = od_owner o1, lv_mandateId = od_mandateId o1, lv_merchant = od_merchant o1, lv_cap = od_cap o1,
      lv_perTxMax = od_perTxMax o1, lv_expiresAt = od_expiresAt o1, lv_purpose = od_purpose o1,
      lv_fromOpening = True, lv_ringSuperseded = ringSuperseded\<rparr>"

text \<open>The live account, or None when there is none, or the text of another failure.\<close>

definition live_account :: "host \<Rightarrow> connection \<Rightarrow> string \<Rightarrow> (string + string MandateAccount option) checked" where
  "live_account h c mandate =
     (case fetchMandate h c mandate of
        Some (Inl (Thrown e)) \<Rightarrow>
          let message = failureText h (Thrown e) in
          if starts_with ''mandate account not found'' message then ok (Inr None) else ok (Inl message)
      | Some (Inl (Transport m)) \<Rightarrow> throw (Transport m)
      | Some (Inr m) \<Rightarrow> ok (Inr (Some m))
      | None \<Rightarrow> None)"

definition not_listed :: "host \<Rightarrow> string \<Rightarrow> string" where
  "not_listed h signature = ''mandate history does not list signature '' @ h_echoFile h signature"

text \<open>The block under \<open>try\<close>: the decision it reaches at once, or the history it read.\<close>

definition tenure_attempt ::
  "host \<Rightarrow> connection \<Rightarrow> string \<Rightarrow> string \<Rightarrow> string \<Rightarrow> string MandateAccount option \<Rightarrow>
   ((string + LimitView) + (string + Tenures)) checked" where
  "tenure_attempt h c programId mandate signature acct =
     (case acct of
        None \<Rightarrow> next_do (closedMandateHistory h c programId mandate) (\<lambda>history. ok (Inr history))
      | Some account \<Rightarrow>
          if \<not> cn_lists c then ok (Inl (Inl (not_listed h signature)))
          else
            next_do (listMandateSignatures c mandate) (\<lambda>pages.
              if signature \<notin> set (map ms_signature pages) then ok (Inl (Inl (not_listed h signature)))
              else
                next_do (mustReadMandateTenure h c programId mandate signature) (\<lambda>must.
                  if \<not> must then ok (Inl (Inr (liveLimits account)))
                  else next_do (closedMandateHistory h c programId mandate) (\<lambda>history. ok (Inr history)))))"

definition settle_tenure ::
  "host \<Rightarrow> string \<Rightarrow> string MandateAccount option \<Rightarrow> int option \<Rightarrow> Tenures \<Rightarrow> string + LimitView" where
  "settle_tenure h signature acct recordSlot t =
     (let belowLatest = (case tn_latestOpenSlot t of None \<Rightarrow> False
                         | Some latest \<Rightarrow> (case recordSlot of None \<Rightarrow> True | Some s \<Rightarrow> s < latest))
      in case acct of
           Some account \<Rightarrow>
             if tn_openCount t < 2 \<and> \<not> belowLatest then Inr (liveLimits account)
             else (case tn_covered t signature of
                     None \<Rightarrow> Inl (not_covered h signature)
                   | Some opened \<Rightarrow>
                       if tn_current t = Some opened then Inr (liveLimits account)
                       else Inr (openingLimits (snd opened) True))
         | None \<Rightarrow>
             (case tn_covered t signature of
                None \<Rightarrow> Inl (not_covered h signature)
              | Some opened \<Rightarrow> Inr (openingLimits (snd opened) False)))"

definition decideRecordTenure ::
  "host \<Rightarrow> connection \<Rightarrow> string \<Rightarrow> string \<Rightarrow> string \<Rightarrow> (string + LimitView) checked" where
  "decideRecordTenure h c programId mandate signature =
     next_do (live_account h c mandate) (\<lambda>found.
       case found of Inl failure \<Rightarrow> ok (Inl failure)
       | Inr acct \<Rightarrow>
           (case tenure_attempt h c programId mandate signature acct of
              None \<Rightarrow> None
            | Some (Inl (Transport m)) \<Rightarrow> throw (Transport m)
            | Some (Inl (Thrown e)) \<Rightarrow> ok (Inl (failureText h (Thrown e)))
            | Some (Inr (Inl decided)) \<Rightarrow> ok decided
            | Some (Inr (Inr (Inl failure))) \<Rightarrow> ok (Inl failure)
            | Some (Inr (Inr (Inr t))) \<Rightarrow>
                next_do (cachedTransaction c signature) (\<lambda>tx. ok (settle_tenure h signature acct (txSlot tx) t))))"

end
