(* ===== verification/Verify_Walk.thy ===== *)
theory Verify_Walk
  imports Verify_Tenure
begin

text \<open>
  What the walk over a mandate's signatures establishes: the paging reads the whole listing when the
  node answers as documented, and a signature is covered by the last opening before it, with neither
  an opening nor a closing between the two.
\<close>

section \<open>Paging\<close>

text \<open>\<open>getSignaturesForAddress\<close> as the RPC documents it: the signatures of the address, newest first, each
  once; a page is the first \<open>limit\<close> of those after \<open>before\<close>.\<close>

definition documented_listing ::
  "(string option \<Rightarrow> conn_error + MandateSignature list) \<Rightarrow> MandateSignature list \<Rightarrow> bool" where
  "documented_listing page whole_list =
     (distinct (map ms_signature whole_list) \<and>
      (\<forall>before shown left. whole_list = shown @ left \<longrightarrow>
         before = (if shown = [] then None else Some (ms_signature (last shown))) \<longrightarrow>
         page before = Inr (take PAGE_LIMIT left)))"

lemma add_new_fresh:
  assumes "distinct (map ms_signature (out @ batch))"
  shows "add_new out batch = out @ batch"
  using assms by (induction batch arbitrary: out) auto

lemma list_pages_from:
  assumes "documented_listing page (shown @ left)"
  shows "list_pages page (if shown = [] then None else Some (ms_signature (last shown))) shown = Some (Inr (shown @ left))"
  using assms
proof (induction "length left" arbitrary: shown left rule: less_induct)
  case less
  let ?before = "if shown = [] then None else Some (ms_signature (last shown))"
  define batch where "batch = take PAGE_LIMIT left"
  have d: "distinct (map ms_signature (shown @ left))" using less.prems by (simp add: documented_listing_def)
  have page: "page ?before = Inr batch"
    using less.prems unfolding documented_listing_def batch_def by blast
  have left: "left = batch @ drop PAGE_LIMIT left" by (simp add: batch_def)
  have db: "distinct (map ms_signature (shown @ batch))"
    using d by (subst (asm) left) (simp add: append_assoc [symmetric] del: append_assoc)
  have new: "add_new shown batch = shown @ batch" using db by (rule add_new_fresh)
  show ?case
  proof (cases "length batch < PAGE_LIMIT")
    case True
    then have "drop PAGE_LIMIT left = []" by (simp add: batch_def min_def split: if_split_asm)
    with left have whole: "batch = left" by simp
    show ?thesis
      using page new True whole by (subst list_pages.simps) (simp add: Let_def)
  next
    case False
    then have ne: "batch \<noteq> []" by (auto simp: PAGE_LIMIT_def)
    have diff: "Some (ms_signature (last batch)) \<noteq> ?before"
    proof
      assume "Some (ms_signature (last batch)) = ?before"
      then have "shown \<noteq> []" "ms_signature (last batch) = ms_signature (last shown)" by (auto split: if_split_asm)
      with db ne show False by (metis (no_types, lifting) disjoint_iff distinct_append imageI last_in_set list.set_map map_append)
    qed
    have rest: "(shown @ batch) @ drop PAGE_LIMIT left = shown @ left" using left by simp
    have "length (drop PAGE_LIMIT left) < length left" using ne by (auto simp: batch_def PAGE_LIMIT_def)
    from less.hyps [OF this, of "shown @ batch"] less.prems rest ne
    have "list_pages page (Some (ms_signature (last batch))) (shown @ batch) = Some (Inr (shown @ left))" by simp
    then show ?thesis
      using page new False ne diff by (subst list_pages.simps) (simp add: Let_def)
  qed
qed

text \<open>C13: when the node answers as documented, reading the signatures of a mandate ends and gives every
  one of them, in the node's order, however many pages it takes.
\<close>
theorem listing_reads_every_signature:
  assumes "documented_listing (cn_page c mandate PAGE_LIMIT) whole_list"
  shows "listMandateSignatures c mandate = Some (Inr whole_list)"
  using list_pages_from [of "cn_page c mandate PAGE_LIMIT" "[]" whole_list] assms by (simp add: listMandateSignatures_def)

definition demo_connection :: connection where
  "demo_connection =
     \<lparr>cn_genesis = Inr ''g'', cn_tx = (\<lambda>_. Inr None),
      cn_page = (\<lambda>address limit before. case before of None \<Rightarrow> Inr [\<lparr>ms_signature = ''s'', ms_err = False, ms_slot = None\<rparr>]
                                                     | Some b \<Rightarrow> Inr []),
      cn_lists = True, cn_account = (\<lambda>_. Inr None)\<rparr>"

theorem listing_reads_every_signature_witness:
  "listMandateSignatures demo_connection ''m'' = Some (Inr [\<lparr>ms_signature = ''s'', ms_err = False, ms_slot = None\<rparr>])"
proof (rule listing_reads_every_signature)
  let ?all = "[\<lparr>ms_signature = ''s'', ms_err = False, ms_slot = None\<rparr>]"
  show "documented_listing (cn_page demo_connection ''m'' PAGE_LIMIT) ?all"
    by (auto simp: documented_listing_def demo_connection_def PAGE_LIMIT_def Cons_eq_append_conv)
qed

section \<open>Coverage\<close>

definition page_mark :: "host \<Rightarrow> connection \<Rightarrow> string \<Rightarrow> string \<Rightarrow> MandateSignature \<Rightarrow> MandateLifecycle option" where
  "page_mark h c programId mandate page =
     (case cn_tx c (ms_signature page) of
        Inr (Some body) \<Rightarrow>
          (case mandateLifecycle (h_pk h) (h_utf8 h) body programId mandate of Inr mark \<Rightarrow> Some mark | Inl _ \<Rightarrow> None)
      | _ \<Rightarrow> None)"

text \<open>The state after the pages walked so far: the opening that is current, or that covers a signature,
  is the last one before, and the pages since then neither open nor close.\<close>

definition quiet :: "(MandateSignature \<Rightarrow> MandateLifecycle option) \<Rightarrow> MandateSignature list \<Rightarrow> bool" where
  "quiet mark pages = list_all (\<lambda>p. mark p = Some \<lparr>ml_opens = [], ml_closes = 0\<rparr>) pages"

definition opened_by ::
  "(MandateSignature \<Rightarrow> MandateLifecycle option) \<Rightarrow> OpenedMandate \<Rightarrow> MandateSignature list \<Rightarrow> bool" where
  "opened_by mark opened pages =
     (\<exists>earlier op between. pages = earlier @ op # between
        \<and> mark op = Some \<lparr>ml_opens = [opened], ml_closes = 0\<rparr> \<and> quiet mark between)"

definition covers ::
  "(MandateSignature \<Rightarrow> MandateLifecycle option) \<Rightarrow> MandateSignature list \<Rightarrow> OpenedMandate \<Rightarrow> string \<Rightarrow> bool" where
  "covers mark pages opened signature =
     (\<exists>before page later. pages = before @ page # later \<and> ms_signature page = signature \<and> opened_by mark opened before)"

definition walked :: "(MandateSignature \<Rightarrow> MandateLifecycle option) \<Rightarrow> MandateSignature list \<Rightarrow> Tenures \<Rightarrow> bool" where
  "walked mark pages t =
     ((\<forall>k opened. tn_current t = Some (k, opened) \<longrightarrow> opened_by mark opened pages)
      \<and> (\<forall>s k opened. tn_covered t s = Some (k, opened) \<longrightarrow> covers mark pages opened s))"

lemma opened_by_now:
  "mark page = Some \<lparr>ml_opens = [opened], ml_closes = 0\<rparr> \<Longrightarrow> opened_by mark opened (pages @ [page])"
  unfolding opened_by_def quiet_def
  by (rule exI [of _ pages], rule exI [of _ page], rule exI [of _ "[]"]) simp

lemma opened_by_later:
  "opened_by mark opened pages \<Longrightarrow> mark page = Some \<lparr>ml_opens = [], ml_closes = 0\<rparr> \<Longrightarrow> opened_by mark opened (pages @ [page])"
  unfolding opened_by_def quiet_def by (elim exE conjE) (intro exI conjI, simp, assumption, simp)

lemma covers_later: "covers mark pages opened s \<Longrightarrow> covers mark (pages @ [page]) opened s"
  unfolding covers_def by (elim exE conjE) (intro exI conjI, simp, assumption, assumption)

lemma covers_now: "opened_by mark opened pages \<Longrightarrow> covers mark (pages @ [page]) opened (ms_signature page)"
  unfolding covers_def by (intro exI conjI, rule refl, rule refl)

lemma tenure_step_walked:
  assumes "walked mark pages t" "mark page = Some m" "tenure_step page m t = Inr t'"
  shows "walked mark (pages @ [page]) t'"
proof -
  let ?t1 = "case tn_current t of None \<Rightarrow> t | Some o1 \<Rightarrow> t\<lparr>tn_covered := (tn_covered t)(ms_signature page \<mapsto> o1)\<rparr>"
  have cov: "covers mark (pages @ [page]) opened s" if "tn_covered ?t1 s = Some (k, opened)" for s k opened
    using assms(1) that covers_later covers_now unfolding walked_def
    by (fastforce split: option.splits if_split_asm)
  have cur: "tn_current ?t1 = tn_current t" by (simp split: option.splits)
  obtain opens closes where m: "m = \<lparr>ml_opens = opens, ml_closes = closes\<rparr>" by (cases m) auto
  show ?thesis
  proof (cases opens)
    case Nil
    have "\<not> 1 < closes" using assms(3) Nil m by (auto simp: tenure_step_def split: if_split_asm)
    then consider "closes = 0" | "closes = 1" by linarith
    then show ?thesis
    proof cases
      case 1
      then have t': "t' = ?t1" using assms(3) Nil m by (auto simp: tenure_step_def Let_def)
      have "mark page = Some \<lparr>ml_opens = [], ml_closes = 0\<rparr>" using assms(2) m Nil 1 by simp
      with assms(1) cur cov show ?thesis unfolding walked_def t' by (auto intro: opened_by_later)
    next
      case 2
      then have "tn_covered t' = tn_covered ?t1" "tn_current t' = None"
        using assms(3) Nil m by (auto simp: tenure_step_def Let_def split: if_split_asm)
      with cov show ?thesis by (simp add: walked_def)
    qed
  next
    case (Cons opened left)
    then have one: "left = []" "closes = 0" using assms(3) m by (auto simp: tenure_step_def split: if_split_asm)
    then have t': "tn_covered t' = tn_covered ?t1" "\<exists>k. tn_current t' = Some (k, opened)"
      using assms(3) Cons m by (auto simp: tenure_step_def Let_def split: if_split_asm)
    have "mark page = Some \<lparr>ml_opens = [opened], ml_closes = 0\<rparr>" using assms(2) m Cons one by simp
    then have "opened_by mark opened (pages @ [page])" by (rule opened_by_now)
    with t' cov show ?thesis by (auto simp: walked_def)
  qed
qed

lemma walk_tenures_walked:
  assumes "walk_tenures h c programId mandate pages t = Some (Inr (Inr t'))"
    and "walked (page_mark h c programId mandate) before t"
  shows "walked (page_mark h c programId mandate) (before @ filter (\<lambda>p. \<not> ms_err p) pages) t'"
  using assms
proof (induction pages arbitrary: t before)
  case Nil
  then show ?case by (simp add: ok_def)
next
  case (Cons page pages)
  show ?case
  proof (cases "ms_err page")
    case True
    with Cons show ?thesis by simp
  next
    case False
    from Cons.prems(1) False obtain body mark t1 where
      b: "cn_tx c (ms_signature page) = Inr (Some body)"
        "mandateLifecycle (h_pk h) (h_utf8 h) body programId mandate = Inr mark" "tenure_step page mark t = Inr t1"
        "walk_tenures h c programId mandate pages t1 = Some (Inr (Inr t'))"
      by (auto simp: cachedTransaction_def ok_def throw_def next_do_def split: sum.splits option.splits)
    then have "page_mark h c programId mandate page = Some mark" by (simp add: page_mark_def)
    with Cons.prems(2) b(3) have "walked (page_mark h c programId mandate) (before @ [page]) t1"
      by (intro tenure_step_walked)
    from Cons.IH [OF b(4) this] False show ?thesis by simp
  qed
qed

lemma covering_opening:
  assumes "listMandateSignatures c mandate = Some (Inr pages)"
    and "coveredOpeningTenures h c programId mandate = Some (Inr covered)" "covered signature = Some (k, opened)"
  shows "covers (page_mark h c programId mandate) (filter (\<lambda>p. \<not> ms_err p) (rev pages)) opened signature"
proof -
  from assms(2) obtain t where t: "walk_tenures h c programId mandate (rev pages) no_tenures = Some (Inr (Inr t))"
      "covered = tn_covered t"
    using assms(1)
    by (auto simp: coveredOpeningTenures_def closedMandateHistory_def checked_ok next_do_def split: sum.splits option.splits)
  have "walked (page_mark h c programId mandate) [] no_tenures"
    by (simp add: walked_def no_tenures_def)
  from walk_tenures_walked [OF t(1) this] assms(3) t(2) show ?thesis by (simp add: walked_def)
qed

end
