(* ===== verification/Verify_Record.thy ===== *)
theory Verify_Record
  imports Verify_Walk Event_Flow
begin

text \<open>
  The verdict on one decision record (\<open>checkRecord\<close> of \<open>tools/verify.ts\<close>): the failures and the notes
  the verifier collects while it compares the record with the transaction, its charge, the limits of
  the tenure, the destination account, the ledger ring and the decision event of the log. A record is
  confirmed when no failure was collected. \<open>shown_rpc\<close> is the list of endpoints with its secrets removed.
\<close>

type_synonym report = "string list \<times> string list"

section \<open>The parts of the check\<close>

definition base58_text :: "string \<Rightarrow> bool" where
  "base58_text s = list_all (\<lambda>ch. index_of ch B58 \<noteq> None) s"

definition requireString :: "string \<Rightarrow> string \<Rightarrow> string result" where
  "requireString value_text field =
     (if value_text = [] then Inl (Error (field @ '' must be a non-empty string'')) else Inr value_text)"

definition not_signature :: "string \<Rightarrow> js_error" where
  "not_signature field = Error (field @ '' is not a signature'')"

definition requireSignature :: "string \<Rightarrow> string \<Rightarrow> string result" where
  "requireSignature value_text field =
     andThen (requireString value_text field) (\<lambda>s.
       if 88 < length s then Inl (not_signature field)
       else if \<not> base58_text s then Inl (not_signature field)
       else andThen (decodeBase58 s) (\<lambda>decoded.
         if length decoded \<noteq> 64 then Inl (not_signature field) else Inr s))"

definition fileSignature :: "host \<Rightarrow> string \<Rightarrow> string \<Rightarrow> string result" where
  "fileSignature h value_text field =
     andThen (requireString value_text field) (\<lambda>s.
       if \<not> h_isWellFormed h s then Inl (not_signature field)
       else if 64 \<le> length s \<or> 32 \<le> length s \<and> base58_text s then requireSignature s field
       else Inr s)"

definition loadedSignature :: "host \<Rightarrow> string \<Rightarrow> string \<Rightarrow> string result" where
  "loadedSignature h value_text field =
     (if \<not> h_isWellFormed h value_text then Inl (not_signature field)
      else if 64 \<le> length value_text then requireSignature value_text field
      else Inr value_text)"

definition CLUSTER_BY_GENESIS :: "(string \<times> string) list" where
  "CLUSTER_BY_GENESIS =
     [(''5eykt4UsFv8P8NJdTREpY1vzqKqZKvdpKuc147dw2N9d'', ''mainnet-beta''),
      (''EtWTRABZaYq6iMfeYKouRu166VU2xqa1wcaWoxPkrZBG'', ''devnet''),
      (''4uhcVJyU9pJkvQyS88uRDiswHXSCkY3zQawwpjk2NsNY'', ''testnet'')]"

definition clusterForGenesis :: "string \<Rightarrow> string" where
  "clusterForGenesis genesis = (case map_of CLUSTER_BY_GENESIS genesis of None \<Rightarrow> ''localnet'' | Some c \<Rightarrow> c)"

definition eq_text :: "host \<Rightarrow> string \<Rightarrow> string \<Rightarrow> string \<Rightarrow> string list" where
  "eq_text h field a b =
     (if a \<noteq> b then [field @ '': record has '' @ h_echoFile h a @ '', chain has '' @ h_echoFile h b] else [])"

definition eq_int :: "host \<Rightarrow> string \<Rightarrow> int \<Rightarrow> int \<Rightarrow> string list" where
  "eq_int h field a b = eq_text h field (int_str a) (int_str b)"

definition failing :: "bool \<Rightarrow> string \<Rightarrow> string list" where
  "failing c text_line = (if c then [text_line] else [])"

definition quoted_text :: "host \<Rightarrow> string \<Rightarrow> string" where
  "quoted_text h s = h_echoFile h (h_quote h s)"

definition envelope_failures :: "host \<Rightarrow> DecisionRecord \<Rightarrow> string \<Rightarrow> string list" where
  "envelope_failures h r genesis =
     (let code = dr_reason_code r; derivedCluster = clusterForGenesis genesis in
      eq_text h ''genesis_hash'' (dr_genesis_hash r) genesis
      @ failing (dr_cluster r \<noteq> derivedCluster)
          (''cluster: record has '' @ h_echoFile h (dr_cluster r) @ '', genesis '' @ genesis @ '' is '' @ derivedCluster)
      @ failing (dr_reason_text r \<noteq> tool_reasonText code)
          (''reason_text: record has '' @ quoted_text h (dr_reason_text r) @ '', canonical text for code '' @ int_str code
           @ '' is '' @ quoted_text h (tool_reasonText code))
      @ failing (dr_kind r = ''paid'' \<and> code \<noteq> 0) (''kind is paid but reason_code is '' @ int_str code)
      @ failing (dr_kind r = ''refused'' \<and> code = 0) ''kind is refused but reason_code is 0 (ok)''
      @ failing (tool_reasonText code = ''unknown'') (''reason_code '' @ int_str code @ '' is not a code the program emits''))"

definition charge_failures :: "host \<Rightarrow> DecisionRecord \<Rightarrow> ChargeIx \<Rightarrow> string \<Rightarrow> string list" where
  "charge_failures h r c expectedLedger =
     eq_int h ''amount (instruction)'' (dr_amount r) (ch_amount c)
     @ eq_int h ''nonce (instruction)'' (dr_nonce r) (ch_nonce c)
     @ eq_text h ''mandate (instruction)'' (dr_mandate r) (ch_mandate c)
     @ eq_text h ''counterparty (destination)'' (dr_counterparty r) (ch_destination c)
     @ eq_text h ''ledger PDA'' (ch_ledger c) expectedLedger"

definition limit_failures :: "host \<Rightarrow> DecisionRecord \<Rightarrow> LimitView \<Rightarrow> string \<Rightarrow> string \<Rightarrow> string list" where
  "limit_failures h r lv derived mandatePk =
     (let lim = dr_limits r in
      eq_int h ''limits.cap'' (lim_cap lim) (lv_cap lv)
      @ eq_int h ''limits.per_tx_max'' (lim_per_tx_max lim) (lv_perTxMax lv)
      @ eq_int h ''limits.expires_at'' (lim_expires_at lim) (lv_expiresAt lv)
      @ eq_text h ''limits.merchant'' (lim_merchant lim) (lv_merchant lv)
      @ failing (lim_purpose lim \<noteq> lv_purpose lv)
          (''limits.purpose: record has '' @ quoted_text h (lim_purpose lim) @ '', chain has '' @ quoted_text h (lv_purpose lv))
      @ failing (derived \<noteq> mandatePk)
          (''mandate PDA re-derived from on-chain owner+mandate_id is '' @ derived @ '', record has ''
           @ h_echoFile h (dr_mandate r)))"

text \<open>\<open>accountOrFailure\<close> around \<open>tokenAccountOwner\<close>, and the comparison with the payee.\<close>

definition owner_failures :: "host \<Rightarrow> connection \<Rightarrow> string \<Rightarrow> string \<Rightarrow> string list checked" where
  "owner_failures h c destination merchant =
     (case tokenAccountOwner h c destination of
        None \<Rightarrow> None
      | Some (Inl (Transport m)) \<Rightarrow> throw (Transport m)
      | Some (Inl (Thrown e)) \<Rightarrow> ok [failureText h (Thrown e)]
      | Some (Inr destOwner) \<Rightarrow>
          ok (failing (destOwner \<noteq> merchant)
            (''destination token account owner is '' @ destOwner @ '', mandate merchant is '' @ merchant)))"

text \<open>The ledger: the account, or None when it went with the closed mandate, or a failure that ends the check.\<close>

definition ledger_source :: "host \<Rightarrow> connection \<Rightarrow> string \<Rightarrow> bool \<Rightarrow> (string + string LedgerAccount option) checked" where
  "ledger_source h c expectedLedger fromOpening =
     (case fetchLedger h c expectedLedger of
        None \<Rightarrow> None
      | Some (Inl (Transport m)) \<Rightarrow> throw (Transport m)
      | Some (Inl (Thrown e)) \<Rightarrow>
          let message = failureText h (Thrown e) in
          if fromOpening \<and> starts_with ''ledger account not found'' message then ok (Inr None) else ok (Inl message)
      | Some (Inr ledger) \<Rightarrow> ok (Inr (Some ledger)))"

definition SAME_CHARGE_CLOCK_SKEW_S :: int where "SAME_CHARGE_CLOCK_SKEW_S = 2"

definition log_failures :: "host \<Rightarrow> DecisionRecord \<Rightarrow> ChargeLogDecision \<Rightarrow> int option \<Rightarrow> string list" where
  "log_failures h r d blockTime =
     eq_text h ''kind (logs)'' (dr_kind r) (cl_kind d)
     @ eq_int h ''reason_code (logs)'' (dr_reason_code r) (cl_reasonCode d)
     @ eq_int h ''amount (logs)'' (dr_amount r) (cl_amount d)
     @ eq_int h ''suggested_override (logs)'' (dr_suggested_override r) (cl_suggestedOverride d)
     @ failing (dr_reason_text r \<noteq> cl_reasonText d)
         (''reason_text: record has '' @ quoted_text h (dr_reason_text r) @ '', logs have '' @ quoted_text h (cl_reasonText d))
     @ (case blockTime of None \<Rightarrow> [] | Some t \<Rightarrow> eq_int h ''timestamp (transaction)'' (dr_timestamp r) t)"

definition row_failures :: "host \<Rightarrow> DecisionRecord \<Rightarrow> string LedgerEntry \<Rightarrow> int option \<Rightarrow> string list" where
  "row_failures h r entry blockTime =
     eq_int h ''amount (ledger)'' (dr_amount r) (le_amount entry)
     @ eq_int h ''nonce (ledger)'' (dr_nonce r) (le_nonce entry)
     @ eq_int h ''timestamp (ledger)'' (dr_timestamp r) (le_ts entry)
     @ eq_text h ''counterparty (ledger)'' (dr_counterparty r) (le_counterparty entry)
     @ eq_int h ''suggested_override (ledger)'' (dr_suggested_override r) (le_suggestedOverride entry)
     @ eq_int h ''reason_code (ledger)'' (dr_reason_code r) (le_reason entry)
     @ eq_text h ''kind (ledger)'' (dr_kind r)
         (if le_kind entry = 1 then ''paid'' else if le_kind entry = 2 then ''refused'' else int_str (le_kind entry))
     @ (case blockTime of None \<Rightarrow> []
        | Some landed \<Rightarrow>
            let delta = (if le_ts entry \<ge> landed then le_ts entry - landed else landed - le_ts entry)
            in failing (delta > SAME_CHARGE_CLOCK_SKEW_S)
                 (''timestamp (transaction): ledger row is at '' @ int_str (le_ts entry) @ '', transaction landed at ''
                  @ int_str landed))"

text \<open>The decision: from the ring row while the ring still has one of the event's kind, else from the
  event alone. A kind of an event is one of the two, so \<open>kindByte\<close> does not throw on it.\<close>

definition decision_report ::
  "host \<Rightarrow> DecisionRecord \<Rightarrow> IndexedEntry list \<Rightarrow> BoundVetoDecision \<Rightarrow> int option \<Rightarrow> report result" where
  "decision_report h r rows bound blockTime =
     andThen (case bound of BoundOne d \<Rightarrow> andThen (kindByte (cl_kind d)) (\<lambda>k. Inr (Some k)) | _ \<Rightarrow> Inr None) (\<lambda>logKind.
       let sameKind = (case logKind of None \<Rightarrow> rows | Some k \<Rightarrow> filter (\<lambda>row. le_kind (ix_entry row) = k) rows);
           rolledOff = (logKind \<noteq> None \<and> rows \<noteq> [] \<and> sameKind = [])
       in if rows = [] \<or> rolledOff then
            (case bound of
               BoundNone \<Rightarrow>
                 Inr ([''ledger ring has no matching row and the transaction log carries no Veto event to bind''], [])
             | BoundError e \<Rightarrow> Inr ([e], [])
             | BoundOne d \<Rightarrow>
                 Inr (log_failures h r d blockTime, [''ledger ring no longer holds this decision; checking transaction logs'']))
          else
            let picked = ringRowForLogKind (ringEntryForSignature rows blockTime (dr_signature r)) rows blockTime
                           (dr_signature r) logKind;
                from_row = (case picked of Inl e \<Rightarrow> [e] | Inr entry \<Rightarrow> row_failures h r entry blockTime)
            in (case bound of
                  BoundNone \<Rightarrow>
                    Inr (from_row @ [''ledger ring row cannot be tied to this transaction: its log carries no decision''],
                         [''transaction log carries no Veto event; decision taken from the ledger row''])
                | BoundError e \<Rightarrow> Inr (from_row @ [e], [])
                | BoundOne d \<Rightarrow>
                    Inr (from_row @ eq_text h ''kind (logs)'' (dr_kind r) (cl_kind d)
                         @ eq_int h ''reason_code (logs)'' (dr_reason_code r) (cl_reasonCode d), [])))"

definition CLOSED_MANDATE_LIMITS_NOTE :: string where
  "CLOSED_MANDATE_LIMITS_NOTE = ''mandate account is closed and the limits came from the opening transaction''"

section \<open>The whole check\<close>

definition tool_logs :: "ToolTx \<Rightarrow> string list" where
  "tool_logs tx = (case tt_meta tx of None \<Rightarrow> [] | Some m \<Rightarrow> or_empty (rt_logMessages m))"

text \<open>From the charge on: the limits, the destination, the ledger and the decision.\<close>

definition check_charge ::
  "host \<Rightarrow> connection \<Rightarrow> string \<Rightarrow> DecisionRecord \<Rightarrow> string \<Rightarrow> ToolTx \<Rightarrow> ChargeIx \<Rightarrow> string list \<Rightarrow> report checked" where
  "check_charge h c programId r mandatePk tx charge_ix failures0 =
     (let expectedLedger = h_ledgerPda h programId mandatePk;
          failures1 = failures0 @ charge_failures h r charge_ix expectedLedger
      in next_do (decideRecordTenure h c programId mandatePk (dr_signature r)) (\<lambda>decided.
           case decided of
             Inl failure \<Rightarrow> ok (failures1 @ [failure], [])
           | Inr lv \<Rightarrow>
               let notes1 = (if lv_fromOpening lv then [CLOSED_MANDATE_LIMITS_NOTE] else []);
                   failures2 = failures1 @ limit_failures h r lv (h_mandatePda h programId (lv_owner lv) (lv_mandateId lv)) mandatePk
               in next_do (owner_failures h c (ch_destination charge_ix) (lv_merchant lv)) (\<lambda>of_owner.
                  next_do (ledger_source h c expectedLedger (lv_fromOpening lv)) (\<lambda>found.
                    let failures3 = failures2 @ of_owner in
                    case found of
                      Inl message \<Rightarrow> ok (failures3 @ [message], notes1)
                    | Inr loaded \<Rightarrow>
                        let of_ledger = (case loaded of None \<Rightarrow> []
                              | Some l \<Rightarrow> failing (la_mandate l \<noteq> mandatePk)
                                  (''ledger.mandate is '' @ la_mandate l @ '', expected '' @ h_echoFile h (dr_mandate r)));
                            rows = (case loaded of None \<Rightarrow> []
                              | Some l \<Rightarrow> if lv_ringSuperseded lv then []
                                  else bindByTriple (indexedEntries l) (charge_triple charge_ix)
                                    (\<lambda>row. \<lparr>dt_mandate = la_mandate l, dt_nonce = le_nonce (ix_entry row),
                                            dt_amount = le_amount (ix_entry row)\<rparr>));
                            bound = boundVetoDecision (h_pk h) (h_fromBase64 h) (tool_logs tx) programId (charge_triple charge_ix)
                        in next_do (of_result (decision_report h r rows bound (tt_blockTime tx))) (\<lambda>(failures4, notes2).
                             ok (failures3 @ of_ledger @ failures4, notes1 @ notes2))))))"

definition checkRecord :: "host \<Rightarrow> connection \<Rightarrow> string \<Rightarrow> string \<Rightarrow> DecisionRecord \<Rightarrow> report checked" where
  "checkRecord h c shown_rpc programId r =
     (case loadedSignature h (dr_signature r) ''signature'' of
        Inl e \<Rightarrow> ok ([failureText h (Thrown e)], [])
      | Inr _ \<Rightarrow>
          if dr_program_id r \<noteq> programId then
            ok ([''program_id: record has '' @ h_echoFile h (dr_program_id r) @ '', this tool checks '' @ programId], [])
          else
            (case h_parse h (dr_mandate r) of
               None \<Rightarrow> throw (Thrown (Error ''Invalid public key input''))
             | Some mandatePk \<Rightarrow>
                 next_do (cachedGenesis c) (\<lambda>genesis.
                   let failures1 = envelope_failures h r genesis in
                   next_do (cachedTransaction c (dr_signature r)) (\<lambda>found.
                     case found of
                       None \<Rightarrow>
                         ok (failures1 @ [''signature '' @ h_echoFile h (dr_signature r) @ '' not found on '' @ shown_rpc
                               @ '' (wrong cluster, tampered signature, or history pruned)''], [])
                     | Some tx \<Rightarrow>
                         let failures2 = failures1
                               @ failing (case tt_meta tx of None \<Rightarrow> False | Some m \<Rightarrow> rt_err m) ''transaction failed on chain''
                         in next_do (of_result (parseChargeFromTx tx programId)) (\<lambda>charges.
                              if charges = [] then
                                ok (failures2 @ [''transaction does not invoke charge on '' @ programId], [])
                              else
                                let matched = bindByTriple charges
                                      \<lparr>dt_mandate = dr_mandate r, dt_nonce = dr_nonce r, dt_amount = dr_amount r\<rparr> charge_triple
                                in if length matched \<noteq> 1 \<and> length charges \<noteq> 1 then
                                     ok (failures2 @ [''transaction carries '' @ nat_str (length matched)
                                           @ '' charges matching mandate, nonce, and amount''], [])
                                   else
                                     check_charge h c programId r mandatePk tx
                                       (case matched of m # _ \<Rightarrow> m | [] \<Rightarrow> hd charges) failures2)))))"

section \<open>What a confirmed record says\<close>

lemma failing_Nil: "failing b t = [] \<longleftrightarrow> \<not> b"
  by (simp add: failing_def)

lemma nat_str_minus: "nat_str n \<noteq> CHR ''-'' # s" "CHR ''-'' # s \<noteq> nat_str n"
  using all_digits_nat_str [of n] by (auto simp: all_digits_def is_digit_def dest: sym)

lemma eq_Nil: "eq_text h f a b = [] \<longleftrightarrow> a = b" "eq_int h f i j = [] \<longleftrightarrow> i = j"
  by (auto simp: eq_text_def eq_int_def int_str_eq)

lemmas no_failures = failing_Nil eq_Nil append_is_Nil_conv

lemma charge_failures_Nil:
  "charge_failures h r c l = [] \<longleftrightarrow>
     dr_amount r = ch_amount c \<and> dr_nonce r = ch_nonce c \<and> dr_mandate r = ch_mandate c
     \<and> dr_counterparty r = ch_destination c \<and> ch_ledger c = l"
  by (simp add: charge_failures_def no_failures)

lemma limit_failures_Nil:
  "limit_failures h r lv derived pk = [] \<longleftrightarrow>
     dr_limits r = \<lparr>lim_cap = lv_cap lv, lim_per_tx_max = lv_perTxMax lv, lim_expires_at = lv_expiresAt lv,
       lim_merchant = lv_merchant lv, lim_purpose = lv_purpose lv\<rparr> \<and> derived = pk"
  by (cases "dr_limits r") (auto simp: limit_failures_def no_failures Let_def)

text \<open>Both paths of the decision, the ring row and the event alone, tie the record to the one event.\<close>

lemma decision_report_Nil:
  assumes "decision_report h r rows bound blockTime = Inr ([], notes)"
  obtains d where "bound = BoundOne d" "dr_kind r = cl_kind d" "dr_reason_code r = cl_reasonCode d"
    "cl_kind d = ''paid'' \<or> cl_kind d = ''refused''"
  using assms
  by (cases bound)
    (auto simp: decision_report_def log_failures_def no_failures kindByte_def Let_def andThen_eq_Inr split: if_split_asm)

lemma bound_one:
  assumes "boundVetoDecision pk fromBase64 logs programId want = BoundOne d"
  obtains e where "filter (\<lambda>e. ie_rule e = None \<and> event_triple e = want) (idx_decodeEventsFromLogs pk fromBase64 logs (Some programId)) = [e]"
    "cl_kind d = kind_text (ie_kind e)" "cl_reasonCode d = ie_reason e" "cl_suggestedOverride d = ie_suggestedOverride e"
  using assms
  by (auto simp: boundVetoDecision_def bindByTriple_iff Let_def conj_commute split: list.split_asm if_split_asm)

text \<open>What the verifier found on the chain when it confirms a record.\<close>

definition confirmed_by ::
  "host \<Rightarrow> connection \<Rightarrow> string \<Rightarrow> DecisionRecord \<Rightarrow> string \<Rightarrow> ToolTx \<Rightarrow> ChargeIx \<Rightarrow> IdxEvent \<Rightarrow> LimitView \<Rightarrow> bool" where
  "confirmed_by h c programId r mandatePk tx charge_ix e lv =
     (cn_tx c (dr_signature r) = Inr (Some tx) \<and> \<not> (case tt_meta tx of None \<Rightarrow> False | Some m \<Rightarrow> rt_err m)
      \<and> (\<exists>charges. parseChargeFromTx tx programId = Inr charges \<and> charge_ix \<in> set charges)
      \<and> dr_amount r = ch_amount charge_ix \<and> dr_nonce r = ch_nonce charge_ix \<and> dr_mandate r = ch_mandate charge_ix
      \<and> dr_counterparty r = ch_destination charge_ix
      \<and> filter (\<lambda>e. ie_rule e = None \<and> event_triple e = charge_triple charge_ix)
          (idx_decodeEventsFromLogs (h_pk h) (h_fromBase64 h) (tool_logs tx) (Some programId)) = [e]
      \<and> dr_kind r = kind_text (ie_kind e) \<and> dr_reason_code r = ie_reason e
      \<and> (dr_kind r = ''paid'' \<or> dr_kind r = ''refused'')
      \<and> decideRecordTenure h c programId mandatePk (dr_signature r) = Some (Inr (Inr lv))
      \<and> dr_limits r = \<lparr>lim_cap = lv_cap lv, lim_per_tx_max = lv_perTxMax lv, lim_expires_at = lv_expiresAt lv,
          lim_merchant = lv_merchant lv, lim_purpose = lv_purpose lv\<rparr>
      \<and> h_mandatePda h programId (lv_owner lv) (lv_mandateId lv) = mandatePk
      \<and> tokenAccountOwner h c (dr_counterparty r) = Some (Inr (lv_merchant lv)))"

lemma owner_failures_Nil:
  "owner_failures h c destination merchant = Some (Inr []) \<Longrightarrow> tokenAccountOwner h c destination = Some (Inr merchant)"
  by (auto simp: owner_failures_def checked_ok no_failures Let_def split: option.split_asm sum.split_asm tool_exn.split_asm)

lemma check_charge_Nil:
  assumes "check_charge h c programId r mandatePk tx charge_ix failures0 = Some (Inr ([], notes))"
  obtains lv d where "failures0 = []" "charge_failures h r charge_ix (h_ledgerPda h programId mandatePk) = []"
    "decideRecordTenure h c programId mandatePk (dr_signature r) = Some (Inr (Inr lv))"
    "limit_failures h r lv (h_mandatePda h programId (lv_owner lv) (lv_mandateId lv)) mandatePk = []"
    "owner_failures h c (ch_destination charge_ix) (lv_merchant lv) = Some (Inr [])"
    "boundVetoDecision (h_pk h) (h_fromBase64 h) (tool_logs tx) programId (charge_triple charge_ix) = BoundOne d"
    "dr_kind r = cl_kind d" "dr_reason_code r = cl_reasonCode d" "cl_kind d = ''paid'' \<or> cl_kind d = ''refused''"
proof -
  from assms obtain decided where dec: "decideRecordTenure h c programId mandatePk (dr_signature r) = Some (Inr decided)"
    by (auto simp: check_charge_def checked_ok Let_def)
  then obtain lv where lv: "decided = Inr lv"
    using assms by (cases decided) (auto simp: check_charge_def checked_ok Let_def next_do_def)
  from assms dec lv obtain of_owner found where
    o1: "owner_failures h c (ch_destination charge_ix) (lv_merchant lv) = Some (Inr of_owner)"
    and l1: "ledger_source h c (h_ledgerPda h programId mandatePk) (lv_fromOpening lv) = Some (Inr found)"
    by (auto simp: check_charge_def checked_ok Let_def)
  then obtain loaded where found: "found = Inr loaded"
    using assms dec lv by (cases found) (auto simp: check_charge_def checked_ok Let_def)
  let ?rows = "case loaded of None \<Rightarrow> []
      | Some l \<Rightarrow> if lv_ringSuperseded lv then []
          else bindByTriple (indexedEntries l) (charge_triple charge_ix)
            (\<lambda>row. \<lparr>dt_mandate = la_mandate l, dt_nonce = le_nonce (ix_entry row), dt_amount = le_amount (ix_entry row)\<rparr>)"
  let ?bound = "boundVetoDecision (h_pk h) (h_fromBase64 h) (tool_logs tx) programId (charge_triple charge_ix)"
  let ?f3 = "(failures0 @ charge_failures h r charge_ix (h_ledgerPda h programId mandatePk))
      @ limit_failures h r lv (h_mandatePda h programId (lv_owner lv) (lv_mandateId lv)) mandatePk"
  obtain f4 n2 of_ledger n1 where report: "decision_report h r ?rows ?bound (tt_blockTime tx) = Inr (f4, n2)"
    and sum: "(?f3 @ of_owner) @ of_ledger @ f4 = []"
    using assms dec lv o1 l1 found
    by (cases "decision_report h r ?rows ?bound (tt_blockTime tx)") (auto simp: check_charge_def Let_def next_do_def of_result_def ok_def)
  from sum have f: "failures0 = []" "charge_failures h r charge_ix (h_ledgerPda h programId mandatePk) = []"
      "limit_failures h r lv (h_mandatePda h programId (lv_owner lv) (lv_mandateId lv)) mandatePk = []" "of_owner = []" "f4 = []"
    by simp_all
  from report [unfolded f(5)] obtain d where
    "boundVetoDecision (h_pk h) (h_fromBase64 h) (tool_logs tx) programId (charge_triple charge_ix) = BoundOne d"
    "dr_kind r = cl_kind d" "dr_reason_code r = cl_reasonCode d" "cl_kind d = ''paid'' \<or> cl_kind d = ''refused''"
    by (rule decision_report_Nil)
  with f o1 dec lv show thesis by (intro that) auto
qed

lemma checkRecord_Nil:
  assumes "checkRecord h c shown_rpc programId r = Some (Inr ([], notes))"
  obtains mandatePk tx charges charge_ix where "h_parse h (dr_mandate r) = Some mandatePk"
    "cn_tx c (dr_signature r) = Inr (Some tx)" "\<not> (case tt_meta tx of None \<Rightarrow> False | Some m \<Rightarrow> rt_err m)"
    "parseChargeFromTx tx programId = Inr charges" "charge_ix \<in> set charges"
    "check_charge h c programId r mandatePk tx charge_ix [] = Some (Inr ([], notes))"
proof -
  from assms have sig: "\<not> (\<exists>e. loadedSignature h (dr_signature r) ''signature'' = Inl e)"
    and pid: "dr_program_id r = programId"
    by (auto simp: checkRecord_def ok_def split: if_split_asm sum.split_asm)
  then obtain s where s: "loadedSignature h (dr_signature r) ''signature'' = Inr s"
    by (cases "loadedSignature h (dr_signature r) ''signature''") auto
  from assms s pid obtain mandatePk where pk: "h_parse h (dr_mandate r) = Some mandatePk"
    by (cases "h_parse h (dr_mandate r)") (auto simp: checkRecord_def throw_ok)
  from assms s pid pk obtain genesis found where g: "cachedGenesis c = Some (Inr genesis)"
    and found: "cachedTransaction c (dr_signature r) = Some (Inr found)"
    by (auto simp: checkRecord_def checked_ok Let_def)
  with assms s pid pk obtain tx where tx: "found = Some tx"
    by (cases found) (auto simp: checkRecord_def checked_ok Let_def)
  from assms s pid pk g found tx obtain charges where ch: "parseChargeFromTx tx programId = Inr charges"
    by (auto simp: checkRecord_def checked_ok Let_def)
  have "charges \<noteq> []" using assms s pid pk g found tx ch by (auto simp: checkRecord_def Let_def next_do_def of_result_def ok_def)
  define matched where "matched = bindByTriple charges
      \<lparr>dt_mandate = dr_mandate r, dt_nonce = dr_nonce r, dt_amount = dr_amount r\<rparr> charge_triple"
  define charge_ix where "charge_ix = (case matched of m # _ \<Rightarrow> m | [] \<Rightarrow> hd charges)"
  define failures2 where "failures2 = envelope_failures h r genesis
      @ failing (case tt_meta tx of None \<Rightarrow> False | Some m \<Rightarrow> rt_err m) ''transaction failed on chain''"
  have "check_charge h c programId r mandatePk tx charge_ix failures2 = Some (Inr ([], notes))"
    using assms s pid pk g found tx ch \<open>charges \<noteq> []\<close>
    by (auto simp: checkRecord_def Let_def next_do_def of_result_def ok_def matched_def [symmetric] charge_ix_def [symmetric]
        failures2_def [symmetric] split: if_split_asm)
  moreover from this have "failures2 = []" by (rule check_charge_Nil)
  moreover have "set matched \<subseteq> set charges" by (auto simp: matched_def bindByTriple_def)
  then have "charge_ix \<in> set charges" using \<open>charges \<noteq> []\<close> by (cases matched) (auto simp: charge_ix_def)
  moreover have "cn_tx c (dr_signature r) = Inr (Some tx)"
    using found tx by (auto simp: cachedTransaction_def ok_def throw_def split: sum.split_asm)
  ultimately show thesis using pk ch by (intro that [of mandatePk tx charges charge_ix]) (auto simp: failures2_def failing_def)
qed

lemma confirmed_record_is_true_lemma:
  assumes "checkRecord h c shown_rpc programId r = Some (Inr ([], notes))"
  shows "\<exists>mandatePk tx charge_ix e lv. h_parse h (dr_mandate r) = Some mandatePk
     \<and> confirmed_by h c programId r mandatePk tx charge_ix e lv"
proof -
  from assms obtain mandatePk tx charges charge_ix where a: "h_parse h (dr_mandate r) = Some mandatePk"
      "cn_tx c (dr_signature r) = Inr (Some tx)" "\<not> (case tt_meta tx of None \<Rightarrow> False | Some m \<Rightarrow> rt_err m)"
      "parseChargeFromTx tx programId = Inr charges" "charge_ix \<in> set charges"
      "check_charge h c programId r mandatePk tx charge_ix [] = Some (Inr ([], notes))" by (rule checkRecord_Nil)
  from a(6) obtain lv d where b: "charge_failures h r charge_ix (h_ledgerPda h programId mandatePk) = []"
      "decideRecordTenure h c programId mandatePk (dr_signature r) = Some (Inr (Inr lv))"
      "limit_failures h r lv (h_mandatePda h programId (lv_owner lv) (lv_mandateId lv)) mandatePk = []"
      "owner_failures h c (ch_destination charge_ix) (lv_merchant lv) = Some (Inr [])"
      "boundVetoDecision (h_pk h) (h_fromBase64 h) (tool_logs tx) programId (charge_triple charge_ix) = BoundOne d"
      "dr_kind r = cl_kind d" "dr_reason_code r = cl_reasonCode d" "cl_kind d = ''paid'' \<or> cl_kind d = ''refused''"
    by (rule check_charge_Nil)
  from b(5) obtain e where "filter (\<lambda>e. ie_rule e = None \<and> event_triple e = charge_triple charge_ix)
      (idx_decodeEventsFromLogs (h_pk h) (h_fromBase64 h) (tool_logs tx) (Some programId)) = [e]"
    "cl_kind d = kind_text (ie_kind e)" "cl_reasonCode d = ie_reason e" by (rule bound_one)
  with a b owner_failures_Nil [OF b(4)] have "confirmed_by h c programId r mandatePk tx charge_ix e lv"
    by (simp add: confirmed_by_def charge_failures_Nil limit_failures_Nil)
  with a(1) show ?thesis by blast
qed

text \<open>C9: a record the verifier confirms is true of the chain. Its transaction exists and did not fail and
  carries a charge of the program with the record's amount, nonce, mandate and destination; exactly one
  decision event of the program's own frames is about that charge, and the record's kind and reason are
  that event's; the record's limits are those of the tenure of its signature, the mandate's address
  derives from that tenure's owner, and the destination account belongs to its payee.
\<close>
theorem confirmed_record_is_true:
  assumes "checkRecord h c shown_rpc programId r = Some (Inr ([], notes))"
  shows "\<exists>mandatePk tx charge_ix e lv. h_parse h (dr_mandate r) = Some mandatePk
     \<and> confirmed_by h c programId r mandatePk tx charge_ix e lv"
  using assms by (rule confirmed_record_is_true_lemma)

text \<open>C10: what a confirmed record says of a transaction in which the program decided a charge is the
  program's decision: the mandate, the amount, the nonce, the kind and the reason of the entry it put
  into the ledger, whatever other programs wrote into the same log and whatever the file claims.
\<close>
theorem confirmed_record_is_the_programs_decision:
  assumes "checkRecord h c shown_rpc programId r = Some (Inr ([], notes))"
    and "cn_tx c (dr_signature r) = Inr (Some tx)" "transaction_ok calls" "tool_logs tx = transaction_logs calls"
    and "program_data programId calls = [b]" "b64_text b" "h_fromBase64 h b = charge_event acc acc' amount nonce now"
    and "length (ca_mandate_key acc) = 32"
  shows "dr_mandate r = h_pk h (ca_mandate_key acc) \<and> dr_amount r = int (unat amount) \<and> dr_nonce r = int (unat nonce)
     \<and> dr_kind r = kindName (int (unat (en_kind (charge_entry acc amount nonce now))))
     \<and> dr_reason_code r = int (unat (en_reason (charge_entry acc amount nonce now)))"
proof -
  from confirmed_record_is_true_lemma [OF assms(1)] obtain mandatePk tx' charge_ix e lv where
    "confirmed_by h c programId r mandatePk tx' charge_ix e lv" by blast
  then have k: "cn_tx c (dr_signature r) = Inr (Some tx')" "dr_amount r = ch_amount charge_ix" "dr_nonce r = ch_nonce charge_ix"
      "dr_mandate r = ch_mandate charge_ix" "dr_kind r = kind_text (ie_kind e)" "dr_reason_code r = ie_reason e"
    and one: "filter (\<lambda>e. ie_rule e = None \<and> event_triple e = charge_triple charge_ix)
          (idx_decodeEventsFromLogs (h_pk h) (h_fromBase64 h) (tool_logs tx') (Some programId)) = [e]"
    by (simp_all add: confirmed_by_def)
  have tx: "tx' = tx" using k(1) assms(2) by simp
  let ?d = "charge_decoded (h_pk h) acc amount nonce now"
  have "idx_decodeEventsFromLogs (h_pk h) (h_fromBase64 h) (tool_logs tx') (Some programId) =
      [\<lparr>ie_rule = None, ie_amountIn = None, ie_amountOut = None, ie_minOut = None, ie_kind = ev_kind ?d,
           ie_kindCode = (if ev_kind ?d = dk_paid then 1 else 2), ie_mandate = ev_mandate ?d, ie_amount = ev_amount ?d,
           ie_nonce = ev_nonce ?d, ie_reason = ev_reason ?d, ie_suggestedOverride = ev_suggestedOverride ?d\<rparr>]"
    using assms(5,6,7) idx_decodes_charge_event [OF assms(8) refl]
    by (simp add: idx_decodeEventsFromLogs_def tx assms(4) events_of_transaction [OF assms(3)] List.map_filter_def)
  with one have e: "ie_kind e = ev_kind ?d" "ie_reason e = ev_reason ?d" "event_triple e = charge_triple charge_ix"
    "ie_mandate e = ev_mandate ?d" "ie_amount e = ev_amount ?d" "ie_nonce e = ev_nonce ?d"
    by (auto split: if_split_asm)
  from e(3-6) have "ch_mandate charge_ix = ev_mandate ?d" "ch_amount charge_ix = ev_amount ?d" "ch_nonce charge_ix = ev_nonce ?d"
    by (simp_all add: event_triple_def charge_triple_def)
  then show ?thesis
    by (simp add: k e charge_decoded_def charge_entry_def Let_def kindName_def KIND_NAME_def lookup_or_def kind_defs kind_text_def)
qed

section \<open>A world in which records are confirmed\<close>

text \<open>A mandate that was opened, charged once and closed: the limits come from the opening, the decision
  from the event.\<close>

definition demo_host :: host where
  "demo_host =
     \<lparr>h_pk = (\<lambda>_. ''M''), h_parse = Some, h_utf8 = (\<lambda>_. ''rent''),
      h_fromBase64 = (\<lambda>_. charge_event demo_acc3 demo_acc4 50 5 3), h_mandatePda = (\<lambda>_ _ _. ''M''), h_ledgerPda = (\<lambda>_ _. ''L''),
      h_echoFile = (\<lambda>s. s), h_quote = (\<lambda>s. s), h_isWellFormed = (\<lambda>_. True), h_range_text = ''range''\<rparr>"

definition demo_message :: "nat list \<Rightarrow> bytes \<Rightarrow> RpcMessage" where
  "demo_message accounts data =
     \<lparr>rm_header = None, rm_accountKeys = Some (map Some [''P'', ''A'', ''M'', ''L'', ''S'', ''D'', ''T'']),
      rm_staticAccountKeys = None, rm_instructions = None,
      rm_compiledInstructions = Some [\<lparr>ri_programIdIndex = 0, ri_accounts = None, ri_accountKeyIndexes = Some accounts,
        ri_data = IxBytes data\<rparr>]\<rparr>"

definition demo_open_tx :: ToolTx where
  "demo_open_tx = \<lparr>tt_meta = None, tt_message = demo_message [1, 2, 3] (ol_disc open_mandate_layout @ replicate 100 0),
     tt_blockTime = Some 1, tt_slot = Some 1\<rparr>"

definition demo_charge_tx :: ToolTx where
  "demo_charge_tx =
     \<lparr>tt_meta = Some \<lparr>rt_err = False, rt_logMessages = Some (transaction_logs [Invoke ''P'' [Data ''AA==''] None]),
        rt_loadedWritable = None, rt_loadedReadonly = None, tm_inner = None\<rparr>,
      tt_message = demo_message [1, 2, 3, 4, 5, 6, 6] (CHARGE_IX_DISC @ le_bytes 8 50 @ le_bytes 8 5),
      tt_blockTime = Some 3, tt_slot = Some 3\<rparr>"

definition demo_world :: connection where
  "demo_world =
     \<lparr>cn_genesis = Inr ''g'', cn_tx = (\<lambda>s. Inr (if s = ''s1'' then Some demo_open_tx else if s = ''s2'' then Some demo_charge_tx else None)),
      cn_page = (\<lambda>address limit before. Inr [\<lparr>ms_signature = ''s2'', ms_err = False, ms_slot = Some 3\<rparr>,
                                            \<lparr>ms_signature = ''s1'', ms_err = False, ms_slot = Some 1\<rparr>]),
      cn_lists = True,
      cn_account = (\<lambda>a. Inr (if a = ''D'' then Some (TOKEN_PROGRAM_ID, replicate 64 0) else None))\<rparr>"

definition demo_record :: DecisionRecord where
  "demo_record =
     \<lparr>dr_schema_version = 1, dr_cluster = ''localnet'', dr_genesis_hash = ''g'', dr_program_id = ''P'', dr_mandate = ''M'',
      dr_limits = \<lparr>lim_cap = 0, lim_per_tx_max = 0, lim_expires_at = 0, lim_merchant = ''M'', lim_purpose = ''rent''\<rparr>,
      dr_kind = ''paid'', dr_amount = 50, dr_counterparty = ''D'', dr_timestamp = 3, dr_nonce = 5, dr_reason_code = 0,
      dr_reason_text = ''ok'', dr_suggested_override = 0, dr_signature = ''s2''\<rparr>"

lemma demo_listing:
  "listMandateSignatures demo_world m = Some (Inr [\<lparr>ms_signature = ''s2'', ms_err = False, ms_slot = Some 3\<rparr>,
     \<lparr>ms_signature = ''s1'', ms_err = False, ms_slot = Some 1\<rparr>])"
  by (simp add: listMandateSignatures_def list_pages.simps demo_world_def PAGE_LIMIT_def)

lemma demo_open_args:
  "decodeOpenMandateArgs (\<lambda>_. ''M'') (\<lambda>_. ''rent'') ''A'' (ol_disc open_mandate_layout @ replicate 100 0) =
     Inr \<lparr>od_owner = ''A'', od_mandateId = 0, od_merchant = ''M'', od_cap = 0, od_perTxMax = 0, od_expiresAt = 0, od_purpose = ''rent''\<rparr>"
  by (simp add: decodeOpenMandateArgs_def open_mandate_layout_def open_args_fields_def read_field_def readUIntLE_def
      readIntLE64_def le_val_zeros i64_val_def slice_def Let_def)

lemma demo_keys_flat:
  "flattenAccountKeys \<lparr>tt_meta = m, tt_message = demo_message accounts data, tt_blockTime = t, tt_slot = sl\<rparr> =
     Inr [''P'', ''A'', ''M'', ''L'', ''S'', ''D'', ''T'']"
  by (simp add: flattenAccountKeys_def demo_message_def tool_toPublicKey_def or_empty_def Let_def)

lemma demo_top:
  "top_instructions \<lparr>tt_meta = m, tt_message = demo_message accounts data, tt_blockTime = t, tt_slot = sl\<rparr> =
     Inr [\<lparr>rw_program = 0, rw_accounts = accounts, rw_data = data, rw_inner = False\<rparr>]"
  by (simp add: top_instructions_def demo_message_def raw_compiled_def ixData_def or_empty_def)

lemma demo_inner:
  "(case m of None \<Rightarrow> True | Some x \<Rightarrow> tm_inner x = None) \<Longrightarrow>
     inner_instructions \<lparr>tt_meta = m, tt_message = msg, tt_blockTime = t, tt_slot = sl\<rparr> = Inr []"
  by (cases m) (simp_all add: inner_instructions_def or_empty_def)

lemma demo_heads:
  "take 8 (ol_disc open_mandate_layout @ xs) = ol_disc open_mandate_layout" "take 8 (CHARGE_IX_DISC @ xs) = CHARGE_IX_DISC"
  "length (ol_disc open_mandate_layout) = 8" "length (ol_disc close_mandate_layout) = 8" "length CHARGE_IX_DISC = 8"
  "CHARGE_IX_DISC \<noteq> ol_disc open_mandate_layout" "CHARGE_IX_DISC \<noteq> ol_disc close_mandate_layout"
  "ol_disc open_mandate_layout \<noteq> CHARGE_IX_DISC"
  by (simp_all add: open_mandate_layout_def close_mandate_layout_def CHARGE_IX_DISC_def)

lemma demo_named:
  "accountNamed [''A'', ''M'', ''L''] (ol_accounts open_mandate_layout) ''mandate'' = Inr (Some ''M'')"
  "accountNamed [''A'', ''M'', ''L''] (ol_accounts open_mandate_layout) ''owner'' = Inr (Some ''A'')"
  by (simp_all add: accountNamed_def open_mandate_layout_def)

lemma demo_lifecycles:
  "mandateLifecycle (\<lambda>_. ''M'') (\<lambda>_. ''rent'') demo_open_tx ''P'' ''M'' =
     Inr \<lparr>ml_opens = [\<lparr>od_owner = ''A'', od_mandateId = 0, od_merchant = ''M'', od_cap = 0, od_perTxMax = 0, od_expiresAt = 0,
       od_purpose = ''rent''\<rparr>], ml_closes = 0\<rparr>"
  "mandateLifecycle (\<lambda>_. ''M'') (\<lambda>_. ''rent'') demo_charge_tx ''P'' ''M'' = Inr \<lparr>ml_opens = [], ml_closes = 0\<rparr>"
  by (simp_all add: mandateLifecycle_def resolvedProgramIxs_def demo_open_tx_def demo_charge_tx_def demo_keys_flat demo_top
      demo_inner invokes_def key_or_missing_def lifecycle_step_def starts_disc_def demo_heads demo_named demo_open_args)

lemma demo_charges:
  "parseChargeFromTx demo_charge_tx ''P'' =
     Inr [\<lparr>ch_amount = 50, ch_nonce = 5, ch_agent = ''A'', ch_mandate = ''M'', ch_ledger = ''L'', ch_source = ''S'',
           ch_destination = ''D'', ch_mint = ''T''\<rparr>]"
proof -
  have v: "le_val (le_bytes 8 50) = 50" "le_val (le_bytes 8 5) = 5" by (simp_all add: le_val_le_bytes)
  have r: "readUIntLE 8 (CHARGE_IX_DISC @ le_bytes 8 50 @ le_bytes 8 5) 8 = Inr 50"
    "readUIntLE 8 (CHARGE_IX_DISC @ le_bytes 8 50 @ le_bytes 8 5) 16 = Inr 5"
    using v by (simp_all add: readUIntLE_def demo_heads)
  have six: "[0..<6] = [0, 1, 2, 3, 4, 5 :: nat]" by (simp add: upt_rec)
  show ?thesis
    by (simp add: parseChargeFromTx_def demo_charge_tx_def demo_keys_flat demo_top invokes_def parse_charge_def demo_heads r six
        key_or_missing_def)
qed

definition demo_opened :: OpenedMandate where
  "demo_opened = \<lparr>od_owner = ''A'', od_mandateId = 0, od_merchant = ''M'', od_cap = 0, od_perTxMax = 0, od_expiresAt = 0,
     od_purpose = ''rent''\<rparr>"

lemma demo_transactions:
  "cachedTransaction demo_world ''s1'' = ok (Some demo_open_tx)" "cachedTransaction demo_world ''s2'' = ok (Some demo_charge_tx)"
  by (simp_all add: cachedTransaction_def demo_world_def)

lemma demo_history:
  "closedMandateHistory demo_host demo_world ''P'' ''M'' = ok (Inr
      \<lparr>tn_covered = [''s2'' \<mapsto> (1, demo_opened)], tn_openCount = 1, tn_latestOpenSlot = Some 1,
       tn_current = Some (1, demo_opened)\<rparr>)"
proof -
  have host: "h_pk demo_host = (\<lambda>_. ''M'')" "h_utf8 demo_host = (\<lambda>_. ''rent'')" by (simp_all add: demo_host_def)
  show ?thesis
    by (simp add: closedMandateHistory_def demo_listing ok_def [symmetric] demo_transactions host demo_lifecycles tenure_step_def
        no_tenures_def later_slot_def demo_opened_def Let_def)
qed

lemma demo_tenure:
  "decideRecordTenure demo_host demo_world ''P'' ''M'' ''s2'' =
     Some (Inr (Inr \<lparr>lv_owner = ''A'', lv_mandateId = 0, lv_merchant = ''M'', lv_cap = 0, lv_perTxMax = 0, lv_expiresAt = 0,
       lv_purpose = ''rent'', lv_fromOpening = True, lv_ringSuperseded = False\<rparr>))"
proof -
  have acct: "live_account demo_host demo_world ''M'' = ok (Inr None)"
    by (simp add: live_account_def fetchMandate_def readAccount_def demo_world_def demo_host_def failureText_def
        throw_def Let_def)
  show ?thesis
    by (simp add: decideRecordTenure_def acct tenure_attempt_def demo_history ok_def [of "Inr (Inr _)"] demo_transactions settle_tenure_def demo_opened_def txSlot_def
        demo_charge_tx_def openingLimits_def Let_def) (simp add: ok_def)
qed

definition demo_notes :: "string list" where
  "demo_notes = [CLOSED_MANDATE_LIMITS_NOTE, ''ledger ring no longer holds this decision; checking transaction logs'']"

lemma demo_calls:
  "transaction_ok [Invoke ''P'' [Data ''AA==''] None]" "program_data ''P'' [Invoke ''P'' [Data ''AA==''] None] = [''AA=='']"
  "b64_text ''AA==''" "tool_logs demo_charge_tx = transaction_logs [Invoke ''P'' [Data ''AA==''] None]"
  by (simp_all add: transaction_ok_def pid_ok_def b58_char_def program_data_def b64_text_def b64_char_def tool_logs_def
      demo_charge_tx_def or_empty_def)

lemma demo_decided:
  "ca_mandate_key demo_acc3 = demo_key 9" "length (ca_mandate_key demo_acc3) = 32"
  "charge_entry demo_acc3 50 5 3 = \<lparr>en_ts = 3, en_amount = 50, en_counterparty = demo_key 6, en_nonce = 5,
     en_suggested_override = 0, en_kind = KIND_PAID, en_reason = 0\<rparr>"
proof -
  show k: "ca_mandate_key demo_acc3 = demo_key 9" by (simp add: demo_acc0_def demo_acc1_def demo_acc2_def demo_acc3_def)
  then show "length (ca_mandate_key demo_acc3) = 32" by simp
  have "t_key (ca_destination demo_acc3) = demo_key 6" by (simp add: demo_acc0_def demo_acc1_def demo_acc2_def demo_acc3_def)
  then show "charge_entry demo_acc3 50 5 3 = \<lparr>en_ts = 3, en_amount = 50, en_counterparty = demo_key 6, en_nonce = 5,
     en_suggested_override = 0, en_kind = KIND_PAID, en_reason = 0\<rparr>"
    using demo_evaluate(3) by (simp add: charge_entry_def Let_def k REASON_OK_def)
qed

lemma demo_bound:
  "boundVetoDecision (h_pk demo_host) (h_fromBase64 demo_host) (tool_logs demo_charge_tx) ''P''
     \<lparr>dt_mandate = ''M'', dt_nonce = 5, dt_amount = 50\<rparr> =
   BoundOne \<lparr>cl_kind = ''paid'', cl_reasonCode = 0, cl_reasonText = ''ok'', cl_amount = 50, cl_suggestedOverride = 0\<rparr>"
proof -
  have "idx_decodeEventsFromLogs (\<lambda>_. ''M'') (\<lambda>_. charge_event demo_acc3 demo_acc4 50 5 3) (tool_logs demo_charge_tx) (Some ''P'') =
      [\<lparr>ie_rule = None, ie_amountIn = None, ie_amountOut = None, ie_minOut = None, ie_kind = dk_paid, ie_kindCode = 1,
        ie_mandate = ''M'', ie_amount = 50, ie_nonce = 5, ie_reason = 0, ie_suggestedOverride = 0\<rparr>]"
    using idx_decodes_charge_event [OF demo_decided(2) refl, of "\<lambda>_. ''M''" demo_acc4 50 5 3]
    by (simp add: idx_decodeEventsFromLogs_def demo_calls events_of_transaction List.map_filter_def charge_decoded_def demo_decided(3)
        REASON_OK_def)
  then show ?thesis
    by (simp add: boundVetoDecision_def demo_host_def bindByTriple_def event_triple_def kind_text_def tool_reasonText_def
        lookup_or_def tool_REASON_TEXT_def)
qed

lemma demo_confirmed: "checkRecord demo_host demo_world ''rpc'' ''P'' demo_record = Some (Inr ([], demo_notes))"
proof -
  have sig: "loadedSignature demo_host ''s2'' ''signature'' = Inr ''s2''" by (simp add: loadedSignature_def demo_host_def)
  have parse: "h_parse demo_host ''M'' = Some ''M''" by (simp add: demo_host_def)
  have genesis: "cachedGenesis demo_world = ok ''g''" by (simp add: cachedGenesis_def demo_world_def)
  have env: "envelope_failures demo_host demo_record ''g'' = []"
    by (simp add: envelope_failures_def demo_record_def no_failures clusterForGenesis_def CLUSTER_BY_GENESIS_def tool_reasonText_def
        lookup_or_def tool_REASON_TEXT_def Let_def)
  have tx: "cachedTransaction demo_world ''s2'' = ok (Some demo_charge_tx)"
    by (simp add: cachedTransaction_def demo_world_def)
  have meta: "\<not> (case tt_meta demo_charge_tx of None \<Rightarrow> False | Some m \<Rightarrow> rt_err m)" "tt_blockTime demo_charge_tx = Some 3"
    by (simp_all add: demo_charge_tx_def)
  have pda: "h_ledgerPda demo_host ''P'' ''M'' = ''L''" "h_mandatePda demo_host ''P'' ''A'' 0 = ''M''" by (simp_all add: demo_host_def)
  have "tokenAccountOwner demo_host demo_world ''D'' = ok ''M''"
    by (simp add: tokenAccountOwner_def readAccount_def demo_world_def) (simp add: demo_host_def)
  then have owner: "owner_failures demo_host demo_world ''D'' ''M'' = ok []"
    by (simp add: owner_failures_def ok_def failing_def)
  have "fetchLedger demo_host demo_world ''L'' = throw (Thrown (Error ''ledger account not found: L''))"
    by (simp add: fetchLedger_def readAccount_def demo_world_def)
  then have ledger: "ledger_source demo_host demo_world ''L'' True = ok (Inr None)"
    by (simp add: ledger_source_def throw_def failureText_def Let_def)
  have report: "decision_report demo_host demo_record []
      (BoundOne \<lparr>cl_kind = ''paid'', cl_reasonCode = 0, cl_reasonText = ''ok'', cl_amount = 50, cl_suggestedOverride = 0\<rparr>) (Some 3)
      = Inr ([], [''ledger ring no longer holds this decision; checking transaction logs''])"
    by (simp add: decision_report_def kindByte_def log_failures_def no_failures demo_record_def)
  have r: "dr_signature demo_record = ''s2''" "dr_program_id demo_record = ''P''" "dr_mandate demo_record = ''M''"
    "dr_nonce demo_record = 5" "dr_amount demo_record = 50" by (simp_all add: demo_record_def)
  have tenure: "decideRecordTenure demo_host demo_world ''P'' ''M'' ''s2'' =
     ok (Inr \<lparr>lv_owner = ''A'', lv_mandateId = 0, lv_merchant = ''M'', lv_cap = 0, lv_perTxMax = 0, lv_expiresAt = 0,
       lv_purpose = ''rent'', lv_fromOpening = True, lv_ringSuperseded = False\<rparr>)"
    using demo_tenure by (simp add: ok_def)
  let ?charge = "\<lparr>ch_amount = 50, ch_nonce = 5, ch_agent = ''A'', ch_mandate = ''M'', ch_ledger = ''L'', ch_source = ''S'',
           ch_destination = ''D'', ch_mint = ''T''\<rparr>"
  have fs: "charge_failures demo_host demo_record ?charge ''L'' = []"
    "limit_failures demo_host demo_record \<lparr>lv_owner = ''A'', lv_mandateId = 0, lv_merchant = ''M'', lv_cap = 0, lv_perTxMax = 0,
       lv_expiresAt = 0, lv_purpose = ''rent'', lv_fromOpening = True, lv_ringSuperseded = False\<rparr> ''M'' ''M'' = []"
    by (simp_all add: charge_failures_Nil limit_failures_Nil demo_record_def)
  have "check_charge demo_host demo_world ''P'' demo_record ''M'' demo_charge_tx ?charge [] = ok ([], demo_notes)"
    by (simp add: check_charge_def pda r tenure owner ledger fs charge_triple_def demo_bound meta report of_result_def
        ok_def [symmetric] demo_notes_def Let_def)
  then show ?thesis
    by (simp add: checkRecord_def r sig parse genesis env tx meta failing_def demo_charges of_result_def ok_def [symmetric]
        bindByTriple_def charge_triple_def Let_def)
qed

theorem confirmed_record_is_true_witness:
  "\<exists>tx charge_ix e lv. confirmed_by demo_host demo_world ''P'' demo_record ''M'' tx charge_ix e lv"
proof -
  have "h_parse demo_host (dr_mandate demo_record) = Some ''M''" by (simp add: demo_host_def demo_record_def)
  with confirmed_record_is_true [OF demo_confirmed] show ?thesis by auto
qed

theorem confirmed_record_is_the_programs_decision_witness:
  "dr_kind demo_record = kindName (int (unat (en_kind (charge_entry demo_acc3 50 5 3))))"
proof -
  have tx: "cn_tx demo_world (dr_signature demo_record) = Inr (Some demo_charge_tx)"
    by (simp add: demo_world_def demo_record_def)
  have b: "h_fromBase64 demo_host ''AA=='' = charge_event demo_acc3 demo_acc4 50 5 3" by (simp add: demo_host_def)
  from confirmed_record_is_the_programs_decision [OF demo_confirmed tx demo_calls(1,4,2,3) b demo_decided(2)]
  show ?thesis by blast
qed


lemma demo_covered:
  "coveredOpeningTenures demo_host demo_world ''P'' ''M'' = Some (Inr [''s2'' \<mapsto> (1, demo_opened)])"
  using demo_history by (simp add: coveredOpeningTenures_def) (simp add: ok_def)


end
