(* ===== verification/Verify_Bundle.thy ===== *)
theory Verify_Bundle
  imports Verify_Record
begin

text \<open>
  The verdict on an export of many decisions (\<open>tools/verify.ts\<close>, \<open>tools/bulk.ts\<close>): the envelope, the
  population of the scope, and every row. The history of the indexer for a range of dates is an
  argument, as \<open>fetchDecisionHistory\<close> gives it. The text of the report is not modelled, its verdict,
  failures and exit code are.
\<close>

record IndexedDecision =
  xd_signature :: string
  xd_timestamp :: "int option"
  xd_mandate :: string
  xd_amount :: int
  xd_nonce :: int
  xd_counterparty :: string
  xd_kind :: string
  xd_reason :: int
  xd_suggestedOverride :: int

record ScopeFilter =
  sf_mandate :: "string option"
  sf_from :: "int option"
  sf_to :: "int option"
  sf_kind :: "string option"
  sf_nonce :: "int option"

datatype scope_type = RuleScope | DateRange

record ExportScope =
  es_type :: scope_type
  es_mandate :: "string option"
  es_from :: "int option"
  es_to :: "int option"

record DecisionBundle =
  db_completeness :: string
  db_completeness_note :: string
  db_cluster :: string
  db_genesis_hash :: string
  db_program_id :: string
  db_scope :: ExportScope
  db_decisions :: "DecisionRecord list"

definition COMPLETENESS :: string where "COMPLETENESS = ''payments''"

definition or_none :: "string option \<Rightarrow> string option" where
  "or_none s = (case s of None \<Rightarrow> None | Some t \<Rightarrow> if t = [] then None else Some t)"

definition buildScope :: "ScopeFilter \<Rightarrow> ExportScope result" where
  "buildScope f =
     (if sf_from f \<noteq> None \<or> sf_to f \<noteq> None
      then Inr \<lparr>es_type = DateRange, es_mandate = sf_mandate f, es_from = sf_from f, es_to = sf_to f\<rparr>
      else if or_none (sf_mandate f) = None
      then Inl (Error ''bulk export needs --mandate, or a date range via --from / --to'')
      else Inr \<lparr>es_type = RuleScope, es_mandate = sf_mandate f, es_from = None, es_to = None\<rparr>)"

definition inTimeRange :: "int option \<Rightarrow> int option \<Rightarrow> int option \<Rightarrow> bool" where
  "inTimeRange ts from_t to_t =
     (if from_t = None \<and> to_t = None then True
      else (case ts of None \<Rightarrow> False
            | Some t \<Rightarrow> (case from_t of None \<Rightarrow> True | Some a \<Rightarrow> \<not> t < a) \<and> (case to_t of None \<Rightarrow> True | Some b \<Rightarrow> \<not> b < t)))"

definition filterIndexed :: "IndexedDecision list \<Rightarrow> ScopeFilter \<Rightarrow> IndexedDecision list" where
  "filterIndexed rows f =
     filter (\<lambda>row. \<not> filtered (sf_mandate f) (xd_mandate row) \<and> \<not> filtered (sf_kind f) (xd_kind row)
        \<and> (case sf_nonce f of None \<Rightarrow> True | Some n \<Rightarrow> xd_nonce row = n)
        \<and> inTimeRange (xd_timestamp row) (sf_from f) (sf_to f)) rows"

definition inScope :: "int \<Rightarrow> ExportScope \<Rightarrow> bool" where
  "inScope ts sc =
     (if es_type sc \<noteq> DateRange then True
      else (case es_from sc of None \<Rightarrow> True | Some a \<Rightarrow> \<not> ts < a) \<and> (case es_to sc of None \<Rightarrow> True | Some b \<Rightarrow> \<not> b < ts))"

section \<open>Rows of the ledger\<close>

fun join_bar :: "string list \<Rightarrow> string" where
  "join_bar [] = []"
| "join_bar [x] = x"
| "join_bar (x # xs) = x @ CHR ''|'' # join_bar xs"

definition recordKey :: "DecisionRecord \<Rightarrow> string" where
  "recordKey r =
     join_bar [dr_kind r, int_str (dr_nonce r), int_str (dr_timestamp r), int_str (dr_amount r), dr_counterparty r,
               int_str (dr_reason_code r), int_str (dr_suggested_override r)]"

definition entryKey :: "string LedgerEntry \<Rightarrow> string" where
  "entryKey e =
     join_bar [if le_kind e = 1 then ''paid'' else ''refused'', int_str (le_nonce e), int_str (le_ts e), int_str (le_amount e),
               le_counterparty e, int_str (le_reason e), int_str (le_suggestedOverride e)]"

definition describeKey :: "string \<Rightarrow> string" where
  "describeKey key =
     (let part = (\<lambda>i. let ps = split_on (CHR ''|'') key in if i < length ps then ps ! i else ''undefined'')
      in part 0 @ '' amount='' @ part 3 @ '' nonce='' @ part 1 @ '' timestamp='' @ part 2)"

definition times_text :: "nat \<Rightarrow> string" where
  "times_text n = nat_str n @ '' '' @ (if n = 1 then ''time'' else ''times'')"

text \<open>The keys of a \<open>Map\<close> in the order of their first insertion.\<close>

definition first_seen :: "string list \<Rightarrow> string list" where
  "first_seen keys = rev (remdups (rev keys))"

definition chain_rows :: "ExportScope \<Rightarrow> string LedgerAccount \<Rightarrow> IndexedEntry list" where
  "chain_rows sc ledger =
     filter (\<lambda>row. (le_kind (ix_entry row) = 1 \<or> le_kind (ix_entry row) = 2) \<and> inScope (le_ts (ix_entry row)) sc)
       (indexedEntries ledger)"

definition ledgerRowFailures :: "DecisionBundle \<Rightarrow> string LedgerAccount \<Rightarrow> string list" where
  "ledgerRowFailures b ledger =
     (let chainKeys = map (\<lambda>row. entryKey (ix_entry row)) (chain_rows (db_scope b) ledger);
          fileKeys = map recordKey (db_decisions b)
      in concat (map (\<lambda>key.
           let chainCount = count_list chainKeys key; fileCount = count_list fileKeys key
           in failing (fileCount \<noteq> chainCount)
                (''ledger row '' @ describeKey key @ '' appears '' @ times_text fileCount @ '' in the file and ''
                 @ times_text chainCount @ '' on the ledger'')) (first_seen chainKeys)))"

section \<open>The population of a scope\<close>

definition missingAccountMessage :: "host \<Rightarrow> tool_exn \<Rightarrow> string option" where
  "missingAccountMessage h e =
     (let message = failureText h e in
      if starts_with ''mandate account not found'' message \<or> starts_with ''ledger account not found'' message
      then Some message else None)"

text \<open>A load whose missing account is a failure of the report.\<close>

definition or_missing :: "host \<Rightarrow> 'a checked \<Rightarrow> (string + 'a) checked" where
  "or_missing h m =
     (case m of None \<Rightarrow> None
      | Some (Inl e) \<Rightarrow> (case missingAccountMessage h e of None \<Rightarrow> throw e | Some message \<Rightarrow> ok (Inl message))
      | Some (Inr x) \<Rightarrow> ok (Inr x))"

definition not_a_pubkey :: "host \<Rightarrow> string \<Rightarrow> string" where
  "not_a_pubkey h mandate = ''scope.mandate '' @ h_echoFile h mandate @ '' is not a pubkey''"

definition rows_of_kind :: "string \<Rightarrow> DecisionBundle \<Rightarrow> nat" where
  "rows_of_kind kind b = length (filter (\<lambda>r. dr_kind r = kind) (db_decisions b))"

definition rulePopulationFailures :: "host \<Rightarrow> connection \<Rightarrow> string \<Rightarrow> DecisionBundle \<Rightarrow> string list checked" where
  "rulePopulationFailures h c programId b =
     (case or_none (es_mandate (db_scope b)) of
        None \<Rightarrow> ok [''rule scope names no mandate, so completeness cannot be checked against a ledger'']
      | Some mandate \<Rightarrow>
          (case h_parse h mandate of
             None \<Rightarrow> ok [not_a_pubkey h mandate]
           | Some mandatePk \<Rightarrow>
               next_do (or_missing h (fetchMandate h c mandatePk)) (\<lambda>found.
                 case found of Inl message \<Rightarrow> ok [message]
                 | Inr account \<Rightarrow>
                     next_do (or_missing h (fetchLedger h c (h_ledgerPda h programId mandatePk))) (\<lambda>found_ledger.
                       case found_ledger of Inl message \<Rightarrow> ok [message]
                       | Inr ledger \<Rightarrow>
                           let n_paid = rows_of_kind ''paid'' b; n_refused = rows_of_kind ''refused'' b in
                           ok (ledgerRowFailures b ledger
                             @ failing (int n_paid \<noteq> ma_spendCount account)
                                 (''paid rows: file has '' @ nat_str n_paid @ '', mandate spend_count is '' @ int_str (ma_spendCount account))
                             @ failing (int n_refused \<noteq> ma_refusalCount account)
                                 (''refused rows: file has '' @ nat_str n_refused @ '', mandate refusal_count is ''
                                  @ int_str (ma_refusalCount account)))))))"

text \<open>What \<open>fetchDecisionHistory\<close> answers: the decisions, the signatures whose log was cut, and the
  fetched transactions in their order; or one of the two errors that name signatures.\<close>

record History =
  hy_decisions :: "IdxDecision list"
  hy_truncated :: "string list"
  hy_transactions :: "(string \<times> ToolTx option) list"

datatype history_answer = HistoryRead History | ListedMissing "string list" | LogBodyMissing "string list" | HistoryThrew tool_exn

record FailureSplit =
  fs_failures :: "string list"
  fs_unread :: "string list"
  fs_nullLogs :: "string list"

definition charge_prefixes :: "js_error \<Rightarrow> bool" where
  "charge_prefixes e =
     (case e of Error m \<Rightarrow> starts_with ''charge instruction'' m \<or> starts_with ''charge account index'' m | RangeError \<Rightarrow> False)"

definition no_decision_text :: "string \<Rightarrow> string \<Rightarrow> string" where
  "no_decision_text signature programId =
     ''signature '' @ signature @ '' invokes charge on '' @ programId @ '' but carries no attributable Veto decision''"

text \<open>\<open>sort\<close> of the signatures by code units, which all are ASCII.\<close>

definition string_less :: "string \<Rightarrow> string \<Rightarrow> bool" where
  "string_less a b = ((a, b) \<in> lexord {(x :: char, y). (of_char x :: nat) < of_char y})"

fun insert_text :: "string \<Rightarrow> string list \<Rightarrow> string list" where
  "insert_text x [] = [x]"
| "insert_text x (y # ys) = (if string_less y x then y # insert_text x ys else x # y # ys)"

definition sort_texts :: "string list \<Rightarrow> string list" where
  "sort_texts xs = foldr insert_text xs []"

fun undecodable_charges ::
  "string option \<Rightarrow> string \<Rightarrow> string list \<Rightarrow> (string \<times> ToolTx option) list \<Rightarrow> string list \<Rightarrow>
   (string list \<times> string list) checked" where
  "undecodable_charges scope_mandate programId population txs [] = ok ([], [])"
| "undecodable_charges scope_mandate programId population txs (signature # signatures) =
     (let later = undecodable_charges scope_mandate programId population txs signatures;
          fail_here = next_do later (\<lambda>(fs, us). ok (no_decision_text signature programId # fs, us))
      in if signature \<in> set population then later
         else (case map_of txs signature of
            Some (Some tx) \<Rightarrow>
              (case parseChargeFromTx tx programId of
                 Inl e \<Rightarrow> if \<not> charge_prefixes e then throw (Thrown e) else fail_here
               | Inr charges \<Rightarrow>
                   if charges = [] then later
                   else if (case or_none scope_mandate of None \<Rightarrow> False | Some m \<Rightarrow> list_all (\<lambda>c. ch_mandate c \<noteq> m) charges) then later
                   else fail_here)
          | _ \<Rightarrow> next_do later (\<lambda>(fs, us). ok (fs, signature # us))))"

definition transactionNamesAccount :: "ToolTx option \<Rightarrow> string \<Rightarrow> bool" where
  "transactionNamesAccount tx account =
     (case tx of None \<Rightarrow> True
      | Some t \<Rightarrow>
          let msg = tt_message t;
              keys = (if or_empty (rm_accountKeys msg) \<noteq> [] then or_empty (rm_accountKeys msg) else or_empty (rm_staticAccountKeys msg))
                @ (case tt_meta t of None \<Rightarrow> [] | Some m \<Rightarrow> or_empty (rt_loadedWritable m) @ or_empty (rt_loadedReadonly m))
          in keys = [] \<or> Some account \<in> set keys)"

definition truncatedForScope :: "string option \<Rightarrow> History \<Rightarrow> string list" where
  "truncatedForScope scope_mandate hy =
     (case or_none scope_mandate of None \<Rightarrow> hy_truncated hy
      | Some m \<Rightarrow>
          filter (\<lambda>s. transactionNamesAccount (case map_of (hy_transactions hy) s of None \<Rightarrow> None | Some tx \<Rightarrow> tx) m) (hy_truncated hy))"

definition indexed_view :: "IdxDecision \<Rightarrow> IndexedDecision" where
  "indexed_view d =
     \<lparr>xd_signature = d_signature d, xd_timestamp = d_timestamp d, xd_mandate = d_mandate d, xd_amount = d_amount d,
      xd_nonce = d_nonce d, xd_counterparty = d_counterparty d, xd_kind = kind_text (d_kind d), xd_reason = d_reason d,
      xd_suggestedOverride = d_suggestedOverride d\<rparr>"

definition range_end :: "int option \<Rightarrow> string" where
  "range_end t = (case t of None \<Rightarrow> ''none'' | Some n \<Rightarrow> int_str n)"

definition range_failures :: "host \<Rightarrow> DecisionBundle \<Rightarrow> string list \<Rightarrow> string list" where
  "range_failures h b population =
     (let sc = db_scope b; inside = filter (\<lambda>r. inScope (dr_timestamp r) sc) (db_decisions b);
          fileSigs = first_seen (map dr_signature inside)
      in concat (map (\<lambda>r. failing (\<not> inScope (dr_timestamp r) sc)
             (''signature '' @ h_echoFile h (dr_signature r) @ '' has timestamp '' @ int_str (dr_timestamp r)
              @ '' outside scope '' @ range_end (es_from sc) @ ''..'' @ range_end (es_to sc))) (db_decisions b))
         @ concat (map (\<lambda>s. failing (s \<notin> set fileSigs)
             (''signature '' @ s @ '' is in the indexed date_range and missing from the file'')) (sort_texts population))
         @ concat (map (\<lambda>s. failing (s \<notin> set population)
             (''signature '' @ h_echoFile h s @ '' is in the file and not in the indexed date_range'')) (sort_texts fileSigs)))"

definition split_failed :: "string list \<Rightarrow> FailureSplit" where
  "split_failed fs = \<lparr>fs_failures = fs, fs_unread = [], fs_nullLogs = []\<rparr>"

definition dateRangePopulationFailures ::
  "host \<Rightarrow> connection \<Rightarrow> string \<Rightarrow> history_answer \<Rightarrow> DecisionBundle \<Rightarrow> FailureSplit checked" where
  "dateRangePopulationFailures h c programId answer b =
     (let sc = db_scope b; named = or_none (es_mandate sc) in
      next_do (case named of
          None \<Rightarrow> ok (Inr None)
        | Some mandate \<Rightarrow>
            (case h_parse h mandate of None \<Rightarrow> ok (Inl (not_a_pubkey h mandate))
             | Some pk \<Rightarrow>
                 next_do (or_missing h (fetchMandate h c pk)) (\<lambda>found.
                   case found of Inl message \<Rightarrow> ok (Inl message) | Inr account \<Rightarrow> ok (Inr (Some pk))))) (\<lambda>mandate_found.
        case mandate_found of Inl message \<Rightarrow> ok (split_failed [message])
        | Inr mandatePk \<Rightarrow>
            (case answer of
               HistoryThrew e \<Rightarrow> throw e
             | ListedMissing sigs \<Rightarrow> ok \<lparr>fs_failures = [], fs_unread = sigs, fs_nullLogs = []\<rparr>
             | LogBodyMissing sigs \<Rightarrow> ok \<lparr>fs_failures = [], fs_unread = [], fs_nullLogs = sigs\<rparr>
             | HistoryRead hy \<Rightarrow>
                 let payments = filter (\<lambda>d. di_rule d = None \<and> d_kind d \<noteq> dk_traded) (hy_decisions hy);
                     indexed = filterIndexed (map indexed_view payments)
                       \<lparr>sf_mandate = es_mandate sc, sf_from = es_from sc, sf_to = es_to sc, sf_kind = None, sf_nonce = None\<rparr>;
                     population = first_seen (map xd_signature indexed)
                 in next_do (case mandatePk of None \<Rightarrow> ok []
                      | Some pk \<Rightarrow>
                          next_do (or_missing h (fetchLedger h c (h_ledgerPda h programId pk))) (\<lambda>found.
                            case found of Inl message \<Rightarrow> ok [message] | Inr ledger \<Rightarrow> ok (ledgerRowFailures b ledger))) (\<lambda>of_ledger.
                    next_do (undecodable_charges (es_mandate sc) programId population (hy_transactions hy)
                        (sort_texts (map fst (hy_transactions hy)))) (\<lambda>(fs, us).
                      ok \<lparr>fs_failures =
                            range_failures h b population @ of_ledger
                            @ map (\<lambda>s. ''signature '' @ s @ '' log ends with \"Log truncated\" and is not a complete decision list'')
                                (truncatedForScope (es_mandate sc) hy)
                            @ fs,
                          fs_unread = us, fs_nullLogs = []\<rparr>)))))"

section \<open>The verdict\<close>

definition row_envelope_failures :: "host \<Rightarrow> DecisionBundle \<Rightarrow> string list \<Rightarrow> DecisionRecord \<Rightarrow> string list" where
  "row_envelope_failures h b seen r =
     (let sig = h_echoFile h (dr_signature r) in
      failing (dr_signature r \<in> set seen) (''signature '' @ sig @ '' appears more than once'')
      @ failing (dr_program_id r \<noteq> db_program_id b)
          (''program_id: row '' @ sig @ '' has '' @ h_echoFile h (dr_program_id r) @ '', envelope has '' @ h_echoFile h (db_program_id b))
      @ failing (dr_genesis_hash r \<noteq> db_genesis_hash b)
          (''genesis_hash: row '' @ sig @ '' has '' @ h_echoFile h (dr_genesis_hash r) @ '', envelope has ''
           @ h_echoFile h (db_genesis_hash b))
      @ failing (dr_cluster r \<noteq> db_cluster b)
          (''cluster: row '' @ sig @ '' has '' @ h_echoFile h (dr_cluster r) @ '', envelope has '' @ h_echoFile h (db_cluster b))
      @ (case or_none (es_mandate (db_scope b)) of None \<Rightarrow> []
         | Some m \<Rightarrow> failing (dr_mandate r \<noteq> m)
             (''mandate: row '' @ sig @ '' has '' @ h_echoFile h (dr_mandate r) @ '', scope has '' @ h_echoFile h m)))"

fun rows_envelope_failures :: "host \<Rightarrow> DecisionBundle \<Rightarrow> string list \<Rightarrow> DecisionRecord list \<Rightarrow> string list" where
  "rows_envelope_failures h b seen [] = []"
| "rows_envelope_failures h b seen (r # rs) =
     row_envelope_failures h b seen r @ rows_envelope_failures h b (dr_signature r # seen) rs"

definition bundleFailures ::
  "host \<Rightarrow> connection \<Rightarrow> string \<Rightarrow> history_answer \<Rightarrow> DecisionBundle \<Rightarrow> FailureSplit checked" where
  "bundleFailures h c programId answer b =
     next_do (cachedGenesis c) (\<lambda>genesis.
       let cluster = clusterForGenesis genesis;
           failures1 =
             failing (db_program_id b \<noteq> programId)
               (''program_id: envelope has '' @ h_echoFile h (db_program_id b) @ '', this tool checks '' @ programId)
             @ failing (db_genesis_hash b \<noteq> genesis)
               (''genesis_hash: envelope has '' @ h_echoFile h (db_genesis_hash b) @ '', chain has '' @ h_echoFile h genesis)
             @ failing (db_cluster b \<noteq> cluster)
               (''cluster: envelope has '' @ h_echoFile h (db_cluster b) @ '', genesis '' @ genesis @ '' is '' @ cluster)
             @ rows_envelope_failures h b [] (db_decisions b)
       in if es_type (db_scope b) = RuleScope then
            next_do (rulePopulationFailures h c programId b) (\<lambda>fs. ok (split_failed (failures1 @ fs)))
          else
            next_do (dateRangePopulationFailures h c programId answer b) (\<lambda>population.
              ok (population\<lparr>fs_failures := failures1 @ fs_failures population\<rparr>)))"

record Verdict =
  vd_ok :: bool
  vd_failures :: "string list"
  vd_code :: int

text \<open>The rows one after another: a transport failure ends the run, any other throw rejects the row.\<close>

fun check_rows ::
  "host \<Rightarrow> connection \<Rightarrow> string \<Rightarrow> string \<Rightarrow> nat \<Rightarrow> DecisionRecord list \<Rightarrow> (string + string list list) checked" where
  "check_rows h c shown_rpc programId i [] = ok (Inr [])"
| "check_rows h c shown_rpc programId i (r # rs) =
     (case checkRecord h c shown_rpc programId r of
        None \<Rightarrow> None
      | Some (Inl (Transport detail)) \<Rightarrow>
          ok (Inl (''verify failed: row '' @ nat_str (i + 1) @ '' signature='' @ h_echoFile h (dr_signature r)
            @ '' was not checked: '' @ detail))
      | Some (Inl (Thrown e)) \<Rightarrow>
          next_do (check_rows h c shown_rpc programId (i + 1) rs) (\<lambda>later.
            ok (case later of Inl line \<Rightarrow> Inl line | Inr fss \<Rightarrow> Inr ([failureText h (Thrown e)] # fss)))
      | Some (Inr (failures, notes)) \<Rightarrow>
          next_do (check_rows h c shown_rpc programId (i + 1) rs) (\<lambda>later.
            ok (case later of Inl line \<Rightarrow> Inl line | Inr fss \<Rightarrow> Inr (failures # fss))))"

definition assessRecord :: "host \<Rightarrow> connection \<Rightarrow> string \<Rightarrow> string \<Rightarrow> DecisionRecord \<Rightarrow> Verdict checked" where
  "assessRecord h c shown_rpc programId r =
     next_do (checkRecord h c shown_rpc programId r) (\<lambda>(failures, notes).
       ok (if failures \<noteq> [] then \<lparr>vd_ok = False, vd_failures = failures, vd_code = 1\<rparr>
           else \<lparr>vd_ok = True, vd_failures = [], vd_code = 0\<rparr>))"

definition assessBundle ::
  "host \<Rightarrow> connection \<Rightarrow> string \<Rightarrow> string \<Rightarrow> history_answer \<Rightarrow> DecisionBundle \<Rightarrow> Verdict checked" where
  "assessBundle h c shown_rpc programId answer b =
     (if db_completeness b \<noteq> COMPLETENESS then
        ok \<lparr>vd_ok = False,
            vd_failures = [''completeness must be \"payments\" (complete over payments, never over attempts); file has ''
              @ quoted_text h (db_completeness b)], vd_code = 1\<rparr>
      else
        next_do (bundleFailures h c programId answer b) (\<lambda>report.
          let gaps = map (\<lambda>s. ''signature '' @ s @ '' was not checked: the RPC returned no transaction for a listed signature'')
                (fs_unread report)
              @ map (\<lambda>s. ''signature '' @ s
                  @ '' was not checked: the RPC returned a null log body for a transaction that invokes the program'')
                (fs_nullLogs report)
          in if gaps \<noteq> [] then ok \<lparr>vd_ok = False, vd_failures = gaps, vd_code = 3\<rparr>
             else
               next_do (check_rows h c shown_rpc programId 0 (db_decisions b)) (\<lambda>checked_rows.
                 ok (case checked_rows of
                   Inl line \<Rightarrow> \<lparr>vd_ok = False, vd_failures = [line], vd_code = 3\<rparr>
                 | Inr fss \<Rightarrow>
                     if fs_failures report = [] then
                       let all_ok = list_all (\<lambda>fs. fs = []) fss
                       in \<lparr>vd_ok = all_ok, vd_failures = concat fss, vd_code = (if all_ok then 0 else 1)\<rparr>
                     else \<lparr>vd_ok = False, vd_failures = fs_failures report @ concat fss, vd_code = 1\<rparr>))))"

section \<open>What a confirmed export says\<close>

lemma set_first_seen [simp]: "set (first_seen keys) = set keys"
  by (simp add: first_seen_def)

lemma concat_failing_Nil: "concat (map (\<lambda>x. failing (P x) (t x)) xs) = [] \<longleftrightarrow> (\<forall>x\<in>set xs. \<not> P x)"
  by (auto simp: no_failures)

lemma ledgerRowFailures_Nil:
  "ledgerRowFailures b ledger = [] \<longleftrightarrow>
     (\<forall>row\<in>set (chain_rows (db_scope b) ledger).
        count_list (map recordKey (db_decisions b)) (entryKey (ix_entry row)) =
        count_list (map (\<lambda>row. entryKey (ix_entry row)) (chain_rows (db_scope b) ledger)) (entryKey (ix_entry row)))"
  unfolding ledgerRowFailures_def Let_def concat_failing_Nil by auto

lemma rows_envelope_failures_Nil:
  assumes "rows_envelope_failures h b seen rs = []"
  shows "distinct (map dr_signature rs) \<and> set (map dr_signature rs) \<inter> set seen = {}
     \<and> (\<forall>r\<in>set rs. dr_program_id r = db_program_id b \<and> dr_genesis_hash r = db_genesis_hash b \<and> dr_cluster r = db_cluster b
          \<and> (\<forall>m. or_none (es_mandate (db_scope b)) = Some m \<longrightarrow> dr_mandate r = m))"
  using assms
proof (induction rs arbitrary: seen)
  case (Cons r rs)
  from Cons.prems have here: "row_envelope_failures h b seen r = []" and later: "rows_envelope_failures h b (dr_signature r # seen) rs = []"
    by simp_all
  from here have "dr_signature r \<notin> set seen" "dr_program_id r = db_program_id b" "dr_genesis_hash r = db_genesis_hash b"
    "dr_cluster r = db_cluster b" "\<forall>m. or_none (es_mandate (db_scope b)) = Some m \<longrightarrow> dr_mandate r = m"
    by (auto simp: row_envelope_failures_def Let_def no_failures)
  with Cons.IH [OF later] show ?case by auto
qed simp

lemma check_rows_all:
  assumes "check_rows h c shown_rpc programId i rs = Some (Inr (Inr fss))" "list_all (\<lambda>fs. fs = []) fss"
  shows "\<forall>r\<in>set rs. \<exists>notes. checkRecord h c shown_rpc programId r = Some (Inr ([], notes))"
  using assms
proof (induction rs arbitrary: i fss)
  case (Cons r rs)
  obtain x where x: "checkRecord h c shown_rpc programId r = Some x"
    using Cons.prems(1) by (cases "checkRecord h c shown_rpc programId r") auto
  show ?case
  proof (cases x)
    case (Inl e)
    with Cons.prems x show ?thesis by (cases e) (auto simp: checked_ok split_sum_ex)
  next
    case (Inr fn)
    then obtain failures nts where fn: "x = Inr (failures, nts)" by (cases fn) auto
    from Cons.prems x fn obtain later where
      l: "check_rows h c shown_rpc programId (i + 1) rs = Some (Inr (Inr later))" "fss = failures # later"
      by (auto simp: checked_ok split_sum_ex)
    with Cons.prems(2) have "failures = []" "list_all (\<lambda>fs. fs = []) later" by simp_all
    with Cons.IH [OF l(1)] x fn show ?thesis by auto
  qed
qed simp

text \<open>What a confirmed export of one mandate establishes.\<close>

definition complete_export :: "host \<Rightarrow> connection \<Rightarrow> string \<Rightarrow> string \<Rightarrow> DecisionBundle \<Rightarrow> string MandateAccount \<Rightarrow> string LedgerAccount \<Rightarrow> bool" where
  "complete_export h c shown_rpc programId b account ledger =
     ((\<forall>r\<in>set (db_decisions b). \<exists>notes. checkRecord h c shown_rpc programId r = Some (Inr ([], notes)))
      \<and> distinct (map dr_signature (db_decisions b))
      \<and> (\<forall>r\<in>set (db_decisions b). Some (dr_mandate r) = es_mandate (db_scope b))
      \<and> (\<forall>row\<in>set (indexedEntries ledger). le_kind (ix_entry row) = 1 \<or> le_kind (ix_entry row) = 2 \<longrightarrow>
           count_list (map recordKey (db_decisions b)) (entryKey (ix_entry row)) =
           length (filter (\<lambda>r. (le_kind (ix_entry r) = 1 \<or> le_kind (ix_entry r) = 2) \<and> entryKey (ix_entry r) = entryKey (ix_entry row))
             (indexedEntries ledger)))
      \<and> int (rows_of_kind ''paid'' b) = ma_spendCount account \<and> int (rows_of_kind ''refused'' b) = ma_refusalCount account)"

lemma count_list_filter: "count_list (map f xs) y = length (filter (\<lambda>x. f x = y) xs)"
  by (induction xs) auto

lemma or_missing_ok: "or_missing h m = Some (Inr (Inr x)) \<longleftrightarrow> m = Some (Inr x)"
  by (auto simp: or_missing_def checked_ok split: option.splits sum.splits)

lemma rulePopulationFailures_Nil:
  assumes "rulePopulationFailures h c programId b = Some (Inr [])"
  obtains m pk account ledger where "or_none (es_mandate (db_scope b)) = Some m" "h_parse h m = Some pk"
    "fetchMandate h c pk = Some (Inr account)" "fetchLedger h c (h_ledgerPda h programId pk) = Some (Inr ledger)"
    "ledgerRowFailures b ledger = []" "int (rows_of_kind ''paid'' b) = ma_spendCount account"
    "int (rows_of_kind ''refused'' b) = ma_refusalCount account"
  using assms
  by (auto simp: rulePopulationFailures_def checked_ok or_missing_ok no_failures split_sum_ex Let_def split: option.split_asm)

text \<open>
  A confirmed export of a mandate is complete. Every row of the file is confirmed, no signature is
  in it twice, all rows are of that mandate; every payment and refusal in the ledger ring is in the
  file, as many times as the ring has it; and the file has exactly as many payments and refusals as
  the mandate's account counts. Leaving a refusal out of the file is never confirmed.
\<close>
lemma confirmed_export_complete:
  assumes "assessBundle h c shown_rpc programId answer b = Some (Inr v)" "vd_ok v" "es_type (db_scope b) = RuleScope"
  shows "\<exists>m pk account ledger. es_mandate (db_scope b) = Some m \<and> h_parse h m = Some pk
     \<and> fetchMandate h c pk = Some (Inr account) \<and> fetchLedger h c (h_ledgerPda h programId pk) = Some (Inr ledger)
     \<and> complete_export h c shown_rpc programId b account ledger"
proof -
  from assms(1,2) obtain report fss where report: "bundleFailures h c programId answer b = Some (Inr report)"
    and rows: "check_rows h c shown_rpc programId 0 (db_decisions b) = Some (Inr (Inr fss))"
    and none: "fs_failures report = []" and all: "list_all (\<lambda>fs. fs = []) fss"
    by (auto simp: assessBundle_def checked_ok split_sum_ex Let_def split: if_split_asm)
  from report assms(3) none have envelope: "rows_envelope_failures h b [] (db_decisions b) = []"
    and population: "rulePopulationFailures h c programId b = Some (Inr [])"
    by (auto simp: bundleFailures_def checked_ok Let_def split_failed_def)
  from population obtain m pk account ledger where p: "or_none (es_mandate (db_scope b)) = Some m" "h_parse h m = Some pk"
    "fetchMandate h c pk = Some (Inr account)" "fetchLedger h c (h_ledgerPda h programId pk) = Some (Inr ledger)"
    "ledgerRowFailures b ledger = []" "int (rows_of_kind ''paid'' b) = ma_spendCount account"
    "int (rows_of_kind ''refused'' b) = ma_refusalCount account" by (rule rulePopulationFailures_Nil)
  have m: "es_mandate (db_scope b) = Some m" using p(1) by (auto simp: or_none_def split: option.split_asm if_split_asm)
  have chain: "chain_rows (db_scope b) ledger =
      filter (\<lambda>row. le_kind (ix_entry row) = 1 \<or> le_kind (ix_entry row) = 2) (indexedEntries ledger)"
    using assms(3) by (simp add: chain_rows_def inScope_def)
  have "complete_export h c shown_rpc programId b account ledger"
    using rows_envelope_failures_Nil [OF envelope] check_rows_all [OF rows all] p(5) p(1,6,7) m
    unfolding complete_export_def ledgerRowFailures_Nil chain
    by (auto simp: count_list_filter conj_commute)
  with p m show ?thesis by blast
qed

end
