(* ===== verification/Verify_Export.thy ===== *)
theory Verify_Export
  imports Verify_Bundle
begin

text \<open>
  What a confirmed export says of the program: the file against the whole history of a mandate that the
  on-chain program recorded, through the accounts the verifier reads.
\<close>

section \<open>The counters of the mandate\<close>

definition of_kind :: "u8 \<Rightarrow> Entry list \<Rightarrow> nat" where
  "of_kind k es = length (filter (\<lambda>e. en_kind e = k) es)"

lemma of_kind_snoc [simp]: "of_kind k (es @ [e]) = of_kind k es + (if en_kind e = k then 1 else 0)"
  by (simp add: of_kind_def)

lemma of_kind_Nil [simp]: "of_kind k [] = 0"
  by (simp add: of_kind_def)

definition counted :: "Mandate \<Rightarrow> Entry list \<Rightarrow> bool" where
  "counted m es =
     (unat (m_spend_count m) = min 4294967295 (of_kind KIND_PAID es)
      \<and> unat (m_refusal_count m) = min 4294967295 (of_kind KIND_REFUSED es))"

lemma counts_after:
  "m_spend_count (paid_mandate m t a n) = saturating_add32 (m_spend_count m) 1"
  "m_refusal_count (paid_mandate m t a n) = m_refusal_count m"
  "m_spend_count (refused_mandate m r) = m_spend_count m"
  "m_refusal_count (refused_mandate m r) = saturating_add32 (m_refusal_count m) 1"
  by (simp_all add: paid_mandate_def refused_mandate_def Let_def)

lemma recorded_kinds:
  "en_kind (opened_entry args now) = KIND_OPENED" "en_kind (override_entry m a n now) = KIND_OVERRIDE"
  "en_kind (revoked_entry m now) = KIND_REVOKED"
  by (simp_all add: opened_entry_def override_entry_def revoked_entry_def)

lemma reach_counted: "reach pda xfer approve revoke args m l es \<Longrightarrow> counted m es"
proof (induction rule: reach.induct)
  case (opened acc bump lbump now acc')
  then have "ca_mandate acc' = opened_mandate acc args bump" by (simp add: open_ok)
  then show ?case by (simp add: counted_def opened_mandate_def of_kind_def recorded_kinds kind_defs)
next
  case (charged acc es amount nonce now acc')
  from charged.hyps(2) show ?case
  proof (cases rule: charge_cases)
    case (paid src dst t)
    with charged.IH show ?thesis
      by (simp add: counted_def counts_after unat_saturating_add32 kind_defs del: of_nat_unat)
  next
    case (refused r)
    with charged.IH show ?thesis
      by (simp add: counted_def counts_after unat_saturating_add32 kind_defs del: of_nat_unat)
  qed
next
  case (granted acc es amount nonce now acc')
  then show ?case by (simp add: grant_ok counted_def recorded_kinds kind_defs)
next
  case (revoked acc es now acc')
  then show ?case by (simp add: revoke_ok counted_def recorded_kinds kind_defs)
qed

section \<open>The ring as the verifier reads it\<close>

definition decisions_of :: "Entry list \<Rightarrow> Entry list" where
  "decisions_of es = filter (\<lambda>e. en_kind e = KIND_PAID \<or> en_kind e = KIND_REFUSED) es"

definition program_key :: "(bytes \<Rightarrow> string) \<Rightarrow> Entry \<Rightarrow> string" where
  "program_key pk e = entryKey (sdk_entry_view pk e)"

lemma length_decisions_of: "length (decisions_of es) = of_kind KIND_PAID es + of_kind KIND_REFUSED es"
  by (induction es) (auto simp: decisions_of_def of_kind_def kind_defs)

lemma uint_kind: "uint (k :: u8) = 1 \<longleftrightarrow> k = KIND_PAID" "uint (k :: u8) = 2 \<longleftrightarrow> k = KIND_REFUSED"
  by (auto simp: kind_defs word_uint_eq_iff)

lemma decision_kind:
  "le_kind (sdk_entry_view pk e) = 1 \<or> le_kind (sdk_entry_view pk e) = 2 \<longleftrightarrow> en_kind e = KIND_PAID \<or> en_kind e = KIND_REFUSED"
  by (simp add: sdk_entry_view_def uint_kind)

lemma fetched_ring:
  assumes "reach pda xfer approve revoke args m l es" "ledger_wf l"
    and "cn_account c a = Inr (Some (own, ledger_image l @ post))"
  obtains ledger where "fetchLedger h c a = Some (Inr ledger)" "la_mandate ledger = h_pk h (l_mandate l)"
    "map ix_entry (indexedEntries ledger) = map (sdk_entry_view (h_pk h)) (drop (length es - 32) es)"
proof -
  have n: "length (l_entries l) = 32" and key: "length (l_mandate l) = 32" using assms(2) by (simp_all add: ledger_wf_def LEDGER_CAPACITY_def)
  have len: "2352 \<le> length (ledger_image l @ post)"
    using length_entries_image [OF assms(2)] key by (simp add: ledger_image_def)
  let ?ledger = "\<lparr>la_mandate = h_pk h (l_mandate l), la_total = int (unat (l_total l)), la_head = int (unat (l_head l)),
         la_bump = int (unat (l_bump l)), la_entries = map (sdk_entry_view (h_pk h)) (l_entries l)\<rparr>"
  have "fetchLedger h c a = Some (Inr ?ledger)"
    using decodeLedger_image [OF assms(2), of "h_pk h" post]
    by (simp add: fetchLedger_def readAccount_def assms(3) tool_decodeLedger_sdk [OF len] of_result_def del: of_nat_unat)
  moreover have hold: "unat (l_head l) = length es mod 32" "unat (l_total l) = min 4294967295 (length es)"
    using reach_ledger_holds [OF assms(1)] unfolding ledger.holds_def by (simp_all add: LEDGER_CAPACITY_def del: of_nat_unat)
  have "map ix_entry (indexedEntries ?ledger) =
      oldest_first 32 (map (sdk_entry_view (h_pk h)) (l_entries l)) (unat (l_total l)) (unat (l_head l))"
    using hold by (subst indexedEntries_oldest_first(1) [of _ "unat (l_total l)" "unat (l_head l)"])
      (auto simp del: of_nat_unat split: if_split_asm)
  then have "map ix_entry (indexedEntries ?ledger) = map (sdk_entry_view (h_pk h)) (drop (length es - 32) es)"
    by (simp only: oldest_first_map [OF n] reach_window [OF assms(1), unfolded LEDGER_CAPACITY_def])
  moreover have "la_mandate ?ledger = h_pk h (l_mandate l)" by simp
  ultimately show thesis by (intro that)
qed

lemma fetched_mandate:
  assumes "mandate_wf m" "cn_account c a = Inr (Some (own, mandate_image m @ post))"
  shows "fetchMandate h c a = Some (Inr (mandate_view (h_pk h) (h_utf8 h) m))"
  using mandate_fields_alike [OF decodeMandate_image [OF assms(1)]]
  by (simp add: fetchMandate_def readAccount_def assms(2) of_result_def)

section \<open>The export against the program's history\<close>

lemma count_le_mset: "(\<And>x. x \<in> set xs \<Longrightarrow> count_list ys x = count_list xs x) \<Longrightarrow> mset xs \<subseteq># mset ys"
proof (rule mset_subset_eqI)
  fix x
  assume same: "\<And>x. x \<in> set xs \<Longrightarrow> count_list ys x = count_list xs x"
  show "count (mset xs) x \<le> count (mset ys) x"
    unfolding count_mset using same [of x] by (cases "x \<in> set xs") (simp_all only: order_refl count_notin le0 not_False_eq_True)
qed

lemma two_kinds: "x \<noteq> y \<Longrightarrow> \<forall>r\<in>set rs. f r = x \<or> f r = y \<Longrightarrow>
    length rs = length (filter (\<lambda>r. f r = x) rs) + length (filter (\<lambda>r. f r = y) rs)"
  by (induction rs) auto

lemma rows_by_kind:
  assumes "\<forall>r\<in>set (db_decisions b). dr_kind r = ''paid'' \<or> dr_kind r = ''refused''"
  shows "length (db_decisions b) = rows_of_kind ''paid'' b + rows_of_kind ''refused'' b"
  unfolding rows_of_kind_def using two_kinds [OF _ assms] by simp

text \<open>C11: a confirmed export of a mandate is the program's history. Take any sequence of successful
  instructions that led to the mandate and the ledger the verifier reads. A confirmed file has exactly
  as many payments and as many refusals as the program recorded over that whole history; each decision
  that is still in the ring is in the file, as many times as it was made; and as long as nothing has
  rolled out of the ring, the file's rows are exactly the decisions of the program, none left out, none
  made up, none twice.
\<close>
theorem confirmed_export_is_the_programs_history:
  assumes "assessBundle h c shown_rpc programId answer b = Some (Inr v)" "vd_ok v"
    and "es_type (db_scope b) = RuleScope" "es_mandate (db_scope b) = Some mandate" "h_parse h mandate = Some pk"
    and "reach pda xfer approve revoke args m l es" "mandate_wf m" "ledger_wf l"
    and "cn_account c pk = Inr (Some (own, mandate_image m @ post))"
    and "cn_account c (h_ledgerPda h programId pk) = Inr (Some (own', ledger_image l @ post'))"
    and "of_kind KIND_PAID es < 4294967295" "of_kind KIND_REFUSED es < 4294967295"
  shows "rows_of_kind ''paid'' b = of_kind KIND_PAID es \<and> rows_of_kind ''refused'' b = of_kind KIND_REFUSED es
     \<and> mset (map (program_key (h_pk h)) (decisions_of (drop (length es - 32) es))) \<subseteq># mset (map recordKey (db_decisions b))
     \<and> (length es \<le> 32 \<longrightarrow> mset (map recordKey (db_decisions b)) = mset (map (program_key (h_pk h)) (decisions_of es)))"
proof -
  from confirmed_export_complete [OF assms(1,2,3)] assms(4,5) obtain account ledger where
    read: "fetchMandate h c pk = Some (Inr account)" "fetchLedger h c (h_ledgerPda h programId pk) = Some (Inr ledger)"
    and all: "complete_export h c shown_rpc programId b account ledger" by auto
  from fetched_ring [OF assms(6,8,10), of h] read(2)
  have ring: "map ix_entry (indexedEntries ledger) = map (sdk_entry_view (h_pk h)) (drop (length es - 32) es)" by auto
  have account: "account = mandate_view (h_pk h) (h_utf8 h) m" using fetched_mandate [OF assms(7,9), of h] read(1) by simp
  from reach_counted [OF assms(6)] assms(11,12) all
  have counts: "rows_of_kind ''paid'' b = of_kind KIND_PAID es" "rows_of_kind ''refused'' b = of_kind KIND_REFUSED es"
    by (simp_all add: account mandate_view_def complete_export_def counted_def del: of_nat_unat)
  let ?file = "map recordKey (db_decisions b)"
  let ?ring = "map (program_key (h_pk h)) (decisions_of (drop (length es - 32) es))"
  have ring_keys: "?ring = map entryKey (filter (\<lambda>e. le_kind e = 1 \<or> le_kind e = 2) (map ix_entry (indexedEntries ledger)))"
    by (simp add: ring decisions_of_def program_key_def filter_map comp_def decision_kind)
  have "count_list ?file key = count_list ?ring key" if "key \<in> set ?ring" for key
    using that all unfolding ring_keys complete_export_def
    by (auto simp: count_list_filter filter_map comp_def conj_commute)
  then have sub: "mset ?ring \<subseteq># mset ?file" by (rule count_le_mset)
  have "dr_kind r = ''paid'' \<or> dr_kind r = ''refused''" if "r \<in> set (db_decisions b)" for r
  proof -
    from all that obtain noted where "checkRecord h c shown_rpc programId r = Some (Inr ([], noted))"
      by (auto simp: complete_export_def)
    from confirmed_record_is_true_lemma [OF this] show ?thesis by (auto simp: confirmed_by_def)
  qed
  then have rows: "length (db_decisions b) = length (decisions_of es)"
    using rows_by_kind counts by (simp add: length_decisions_of)
  have "mset ?file = mset ?ring" if "length es \<le> 32"
  proof (rule ccontr)
    assume "mset ?file \<noteq> mset ?ring"
    with sub have "size (mset ?ring) < size (mset ?file)" by (metis mset_subset_size subset_mset.le_imp_less_or_eq)
    with rows that show False by simp
  qed
  with counts sub show ?thesis by simp
qed

section \<open>A confirmed export\<close>

text \<open>The mandate that was opened and refused one charge, with its file of one row.\<close>

definition fair_host :: host where
  "fair_host = demo_host\<lparr>h_pk := (\<lambda>b. if b = demo_key 6 then ''D'' else ''M''),
     h_fromBase64 := (\<lambda>_. charge_event demo_acc1 demo_acc2 50 5 1)\<rparr>"

definition fair_world :: connection where
  "fair_world = demo_world\<lparr>cn_account := (\<lambda>a. Inr (
     if a = ''M'' then Some (''P'', mandate_image (ca_mandate demo_acc2))
     else if a = ''L'' then Some (''P'', ledger_image (ca_ledger demo_acc2))
     else if a = ''D'' then Some (TOKEN_PROGRAM_ID, replicate 64 0) else None))\<rparr>"

definition fair_record :: DecisionRecord where
  "fair_record = demo_record\<lparr>dr_limits := \<lparr>lim_cap = 100, lim_per_tx_max = 10, lim_expires_at = 1000, lim_merchant = ''M'',
     lim_purpose = ''rent''\<rparr>, dr_kind := ''refused'', dr_reason_code := 5, dr_reason_text := ''over per-payment maximum'',
     dr_timestamp := 1, dr_suggested_override := 50\<rparr>"

definition fair_export :: DecisionBundle where
  "fair_export = \<lparr>db_completeness = ''payments'', db_completeness_note = '''', db_cluster = ''localnet'', db_genesis_hash = ''g'',
     db_program_id = ''P'', db_scope = \<lparr>es_type = RuleScope, es_mandate = Some ''M'', es_from = None, es_to = None\<rparr>,
     db_decisions = [fair_record]\<rparr>"

definition fair_history :: "Entry list" where
  "fair_history = [opened_entry demo_args 0, charge_entry demo_acc1 50 5 1]"

lemma fair_reach:
  "reach demo_pda demo_xfer demo_approve demo_revoke demo_args (ca_mandate demo_acc2) (ca_ledger demo_acc2) fair_history"
proof -
  have "length (l_entries (ca_ledger demo_acc0)) = LEDGER_CAPACITY"
    by (simp add: demo_acc0_def LEDGER_CAPACITY_def)
  from reach.opened [OF demo_steps(1) this]
  have "reach demo_pda demo_xfer demo_approve demo_revoke demo_args (ca_mandate demo_acc1) (ca_ledger demo_acc1)
      [opened_entry demo_args 0]" by simp
  from reach.charged [OF this demo_steps(2)] show ?thesis by (simp add: fair_history_def)
qed

lemma fair_accounts: "mandate_wf (ca_mandate demo_acc2)" "ledger_wf (ca_ledger demo_acc2)"
proof -
  show "mandate_wf (ca_mandate demo_acc2)"
    by (simp add: mandate_wf_def demo_acc2_def demo_acc1_def demo_acc0_def opened_mandate_def refused_mandate_def demo_args_def
        reason_defs status_defs)
  have "ledger_wf ((ca_ledger demo_acc0)\<lparr>l_mandate := demo_key 9, l_head := 0, l_total := 0, l_bump := 8\<rparr>)"
    by (simp add: ledger_wf_def demo_acc0_def LEDGER_CAPACITY_def list_all_iff entry_wf_def demo_entry0_def)
  then have "ledger_wf (ca_ledger demo_acc1)" by (simp add: demo_acc1_def ledger_wf_record demo_entries_wf)
  then show "ledger_wf (ca_ledger demo_acc2)" using ledger_wf_record demo_entries_wf(2) by (simp add: demo_acc2_def)
qed

lemma fair_entry:
  "charge_entry demo_acc1 50 5 1 = \<lparr>en_ts = 1, en_amount = 50, en_counterparty = demo_key 6, en_nonce = 5,
     en_suggested_override = 50, en_kind = KIND_REFUSED, en_reason = 5\<rparr>"
proof -
  have "t_key (ca_destination demo_acc1) = demo_key 6" by (simp add: demo_acc0_def demo_acc1_def)
  moreover have "suggested_override (ca_mandate demo_acc1) REASON_OVER_PER_TX_MAX 50 = 50"
    by (simp add: demo_acc0_def demo_acc1_def opened_mandate_def suggested_override_def demo_args_def remaining_def saturating_sub_def
        reason_defs)
  ultimately show ?thesis
    using demo_evaluate(1) by (simp add: charge_entry_def Let_def) (simp add: reason_defs)
qed

lemma fair_live: "fetchMandate fair_host fair_world ''M'' = Some (Inr (mandate_view (h_pk fair_host) (\<lambda>_. ''rent'') (ca_mandate demo_acc2)))"
  using fetched_mandate [OF fair_accounts(1), of fair_world "''M''" "''P''" "[]" fair_host]
  by (simp add: fair_world_def) (simp add: fair_host_def demo_host_def)

lemma fair_lifecycle:
  "mandateLifecycle (h_pk fair_host) (\<lambda>_. ''rent'') demo_charge_tx ''P'' ''M'' = Inr \<lparr>ml_opens = [], ml_closes = 0\<rparr>"
  by (simp add: mandateLifecycle_def resolvedProgramIxs_def demo_charge_tx_def demo_keys_flat demo_top
      demo_inner invokes_def key_or_missing_def lifecycle_step_def starts_disc_def demo_heads)

definition fair_limits :: LimitView where
  "fair_limits = \<lparr>lv_owner = ''M'', lv_mandateId = 1, lv_merchant = ''M'', lv_cap = 100, lv_perTxMax = 10, lv_expiresAt = 1000,
     lv_purpose = ''rent'', lv_fromOpening = False, lv_ringSuperseded = False\<rparr>"

lemma fair_mandate:
  "liveLimits (mandate_view (h_pk fair_host) (\<lambda>_. ''rent'') (ca_mandate demo_acc2)) = fair_limits"
  by (simp add: liveLimits_def mandate_view_def fair_limits_def fair_host_def demo_acc2_def demo_acc1_def demo_acc0_def
      opened_mandate_def refused_mandate_def demo_args_def reason_defs status_defs)

lemma fair_tenure: "decideRecordTenure fair_host fair_world ''P'' ''M'' ''s2'' = ok (Inr fair_limits)"
proof -
  have pages: "listMandateSignatures fair_world m = ok [\<lparr>ms_signature = ''s2'', ms_err = False, ms_slot = Some 3\<rparr>,
     \<lparr>ms_signature = ''s1'', ms_err = False, ms_slot = Some 1\<rparr>]" for m
    by (simp add: listMandateSignatures_def list_pages.simps fair_world_def demo_world_def PAGE_LIMIT_def ok_def)
  have tx: "cachedTransaction fair_world ''s2'' = ok (Some demo_charge_tx)"
    by (simp add: cachedTransaction_def fair_world_def demo_world_def)
  have utf8: "h_utf8 fair_host = (\<lambda>_. ''rent'')" by (simp add: fair_host_def demo_host_def)
  have slot: "txSlot (Some demo_charge_tx) = Some 3" by (simp add: txSlot_def demo_charge_tx_def)
  have must: "mustReadMandateTenure fair_host fair_world ''P'' ''M'' ''s2'' = ok False"
    by (simp add: mustReadMandateTenure_def pages tx slot pageOpensOrCloses_def utf8 fair_lifecycle)
  have lists: "cn_lists fair_world" by (simp add: fair_world_def demo_world_def)
  show ?thesis
    by (simp add: decideRecordTenure_def live_account_def fair_live tenure_attempt_def lists pages must fair_mandate)
      (simp add: ok_def)
qed

lemma fair_bound:
  "boundVetoDecision (h_pk fair_host) (h_fromBase64 fair_host) (tool_logs demo_charge_tx) ''P''
     \<lparr>dt_mandate = ''M'', dt_nonce = 5, dt_amount = 50\<rparr> =
   BoundOne \<lparr>cl_kind = ''refused'', cl_reasonCode = 5, cl_reasonText = ''over per-payment maximum'', cl_amount = 50,
     cl_suggestedOverride = 50\<rparr>"
proof -
  have key: "ca_mandate_key demo_acc1 = demo_key 9" "length (ca_mandate_key demo_acc1) = 32" by simp_all
  have "idx_decodeEventsFromLogs (h_pk fair_host) (\<lambda>_. charge_event demo_acc1 demo_acc2 50 5 1) (tool_logs demo_charge_tx) (Some ''P'') =
      [\<lparr>ie_rule = None, ie_amountIn = None, ie_amountOut = None, ie_minOut = None, ie_kind = dk_refused, ie_kindCode = 2,
        ie_mandate = ''M'', ie_amount = 50, ie_nonce = 5, ie_reason = 5, ie_suggestedOverride = 50\<rparr>]"
    using idx_decodes_charge_event [OF key(2) refl, of "h_pk fair_host" demo_acc2 50 5 1]
    by (simp add: idx_decodeEventsFromLogs_def demo_calls events_of_transaction List.map_filter_def charge_decoded_def fair_entry
        fair_host_def kind_defs reason_defs)
  then show ?thesis
    by (simp add: boundVetoDecision_def fair_host_def bindByTriple_def event_triple_def kind_text_def tool_reasonText_def
        lookup_or_def tool_REASON_TEXT_def)
qed

definition fair_row :: "string LedgerEntry" where
  "fair_row = \<lparr>le_ts = 1, le_amount = 50, le_counterparty = ''D'', le_nonce = 5, le_suggestedOverride = 50, le_kind = 2,
     le_reason = 5\<rparr>"

definition fair_opened :: "string LedgerEntry" where
  "fair_opened = \<lparr>le_ts = 0, le_amount = 100, le_counterparty = ''M'', le_nonce = 0, le_suggestedOverride = 0, le_kind = 0,
     le_reason = 0\<rparr>"

lemma fair_ring:
  obtains ledger where "fetchLedger fair_host fair_world ''L'' = Some (Inr ledger)" "la_mandate ledger = ''M''"
    "map ix_entry (indexedEntries ledger) = [fair_opened, fair_row]"
proof -
  have "cn_account fair_world ''L'' = Inr (Some (''P'', ledger_image (ca_ledger demo_acc2) @ []))" by (simp add: fair_world_def)
  from fetched_ring [OF fair_reach fair_accounts(2) this, of fair_host] obtain ledger where
    ledger: "fetchLedger fair_host fair_world ''L'' = Some (Inr ledger)"
    "la_mandate ledger = h_pk fair_host (l_mandate (ca_ledger demo_acc2))"
    "map ix_entry (indexedEntries ledger) = map (sdk_entry_view (h_pk fair_host)) fair_history" by (auto simp: fair_history_def)
  have rows: "map (sdk_entry_view (h_pk fair_host)) fair_history = [fair_opened, fair_row]"
    by (simp add: fair_history_def fair_entry sdk_entry_view_def fair_host_def fair_row_def fair_opened_def opened_entry_def demo_args_def
        kind_defs reason_defs)
  have "l_mandate (ca_ledger demo_acc2) = demo_key 9"
    by (simp add: demo_acc2_def demo_acc1_def ledger_record_def Let_def)
  then have "la_mandate ledger = ''M''" using ledger(2) by (simp add: fair_host_def)
  with ledger rows show thesis by (intro that) simp_all
qed

lemma fair_rows:
  assumes "map ix_entry rows = [fair_opened, fair_row]"
  obtains x where "bindByTriple rows \<lparr>dt_mandate = ''M'', dt_nonce = 5, dt_amount = 50\<rparr>
      (\<lambda>row. \<lparr>dt_mandate = ''M'', dt_nonce = le_nonce (ix_entry row), dt_amount = le_amount (ix_entry row)\<rparr>) = [x]"
    "ix_entry x = fair_row"
proof -
  from assms obtain a x where rows: "rows = [a, x]" "ix_entry a = fair_opened" "ix_entry x = fair_row"
    by (cases rows) auto
  show thesis by (rule that [of x]) (simp_all add: rows bindByTriple_def fair_opened_def fair_row_def)
qed

lemma fair_confirmed: "checkRecord fair_host fair_world ''rpc'' ''P'' fair_record = ok ([], [])"
proof -
  have sig: "loadedSignature fair_host ''s2'' ''signature'' = Inr ''s2''" by (simp add: loadedSignature_def fair_host_def demo_host_def)
  have parse: "h_parse fair_host ''M'' = Some ''M''" by (simp add: fair_host_def demo_host_def)
  have genesis: "cachedGenesis fair_world = ok ''g''" by (simp add: cachedGenesis_def fair_world_def demo_world_def)
  have env: "envelope_failures fair_host fair_record ''g'' = []"
    by (simp add: envelope_failures_def fair_record_def demo_record_def no_failures clusterForGenesis_def CLUSTER_BY_GENESIS_def
        tool_reasonText_def lookup_or_def tool_REASON_TEXT_def Let_def)
  have tx: "cachedTransaction fair_world ''s2'' = ok (Some demo_charge_tx)"
    by (simp add: cachedTransaction_def fair_world_def demo_world_def)
  have meta: "\<not> (case tt_meta demo_charge_tx of None \<Rightarrow> False | Some m \<Rightarrow> rt_err m)" "tt_blockTime demo_charge_tx = Some 3"
    by (simp_all add: demo_charge_tx_def)
  have pda: "h_ledgerPda fair_host ''P'' ''M'' = ''L''" "h_mandatePda fair_host ''P'' ''M'' 1 = ''M''"
    by (simp_all add: fair_host_def demo_host_def)
  have "h_pk fair_host (replicate 32 0) = ''M''" using demo_key_simps(1) [of 0 6] by (simp add: fair_host_def demo_key_def)
  then have "tokenAccountOwner fair_host fair_world ''D'' = ok ''M''"
    by (simp add: tokenAccountOwner_def readAccount_def fair_world_def slice_def)
  then have owner: "owner_failures fair_host fair_world ''D'' ''M'' = ok []"
    by (simp add: owner_failures_def ok_def failing_def)
  obtain ledger where ring: "fetchLedger fair_host fair_world ''L'' = Some (Inr ledger)" "la_mandate ledger = ''M''"
    "map ix_entry (indexedEntries ledger) = [fair_opened, fair_row]" by (rule fair_ring)
  obtain x where bound_row: "bindByTriple (indexedEntries ledger) \<lparr>dt_mandate = ''M'', dt_nonce = 5, dt_amount = 50\<rparr>
      (\<lambda>row. \<lparr>dt_mandate = ''M'', dt_nonce = le_nonce (ix_entry row), dt_amount = le_amount (ix_entry row)\<rparr>) = [x]"
    "ix_entry x = fair_row" using fair_rows [OF ring(3)] .
  have ledger: "ledger_source fair_host fair_world ''L'' False = ok (Inr (Some ledger))"
    by (simp add: ledger_source_def ring)
  have picked: "ringEntryForSignature [x] (Some 3) ''s2'' = Inr fair_row"
    by (simp add: ringEntryForSignature_def ranked_rows_def bound_row Let_def)
  have report: "decision_report fair_host fair_record [x]
      (BoundOne \<lparr>cl_kind = ''refused'', cl_reasonCode = 5, cl_reasonText = ''over per-payment maximum'', cl_amount = 50,
         cl_suggestedOverride = 50\<rparr>) (Some 3) = Inr ([], [])"
    using picked
    by (simp add: decision_report_def kindByte_def bound_row fair_record_def demo_record_def ringRowForLogKind_def row_failures_def
        no_failures SAME_CHARGE_CLOCK_SKEW_S_def fair_row_def Let_def)
  have r: "dr_signature fair_record = ''s2''" "dr_program_id fair_record = ''P''" "dr_mandate fair_record = ''M''"
    "dr_nonce fair_record = 5" "dr_amount fair_record = 50" by (simp_all add: fair_record_def demo_record_def)
  let ?charge = "\<lparr>ch_amount = 50, ch_nonce = 5, ch_agent = ''A'', ch_mandate = ''M'', ch_ledger = ''L'', ch_source = ''S'',
           ch_destination = ''D'', ch_mint = ''T''\<rparr>"
  have fs: "charge_failures fair_host fair_record ?charge ''L'' = []" "limit_failures fair_host fair_record fair_limits ''M'' ''M'' = []"
    by (simp_all add: charge_failures_Nil limit_failures_Nil fair_record_def demo_record_def fair_limits_def)
  have lv: "lv_owner fair_limits = ''M''" "lv_mandateId fair_limits = 1" "lv_merchant fair_limits = ''M''"
    "\<not> lv_fromOpening fair_limits" "\<not> lv_ringSuperseded fair_limits" by (simp_all add: fair_limits_def)
  have "check_charge fair_host fair_world ''P'' fair_record ''M'' demo_charge_tx ?charge [] = ok ([], [])"
    by (simp add: check_charge_def pda r fair_tenure owner ledger fs lv charge_triple_def fair_bound meta report of_result_def
        ok_def [symmetric] ring(2) bound_row(1) failing_def Let_def)
  then show ?thesis
    by (simp add: checkRecord_def r sig parse genesis env tx meta failing_def demo_charges of_result_def ok_def [symmetric]
        bindByTriple_def charge_triple_def Let_def)
qed

lemma fair_population: "rulePopulationFailures fair_host fair_world ''P'' fair_export = ok []"
proof -
  obtain ledger where ring: "fetchLedger fair_host fair_world ''L'' = Some (Inr ledger)"
    "map ix_entry (indexedEntries ledger) = [fair_opened, fair_row]" by (rule fair_ring)
  have scope: "es_mandate (db_scope fair_export) = Some ''M''" "es_type (db_scope fair_export) = RuleScope"
    "db_decisions fair_export = [fair_record]" by (simp_all add: fair_export_def)
  have key: "recordKey fair_record = entryKey fair_row"
    by (simp add: recordKey_def entryKey_def fair_record_def demo_record_def fair_row_def)
  have "map (\<lambda>row. entryKey (ix_entry row)) (chain_rows (db_scope fair_export) ledger) =
      map entryKey (filter (\<lambda>e. le_kind e = 1 \<or> le_kind e = 2) (map ix_entry (indexedEntries ledger)))"
    by (simp add: chain_rows_def inScope_def scope filter_map comp_def)
  also have "\<dots> = [entryKey fair_row]" by (simp add: ring fair_opened_def fair_row_def)
  finally have keys: "ledgerRowFailures fair_export ledger = []"
    by (simp add: ledgerRowFailures_def scope key first_seen_def failing_def Let_def)
  have counts: "ma_spendCount (mandate_view (h_pk fair_host) (\<lambda>_. ''rent'') (ca_mandate demo_acc2)) = 0"
    "ma_refusalCount (mandate_view (h_pk fair_host) (\<lambda>_. ''rent'') (ca_mandate demo_acc2)) = 1"
    by (simp_all add: mandate_view_def demo_acc2_def demo_acc1_def demo_acc0_def opened_mandate_def counts_after
        saturating_add32_def)
  have rows: "rows_of_kind ''paid'' fair_export = 0" "rows_of_kind ''refused'' fair_export = 1"
    by (simp_all add: rows_of_kind_def scope fair_record_def)
  have h: "h_parse fair_host ''M'' = Some ''M''" "h_ledgerPda fair_host ''P'' ''M'' = ''L''"
    by (simp_all add: fair_host_def demo_host_def)
  show ?thesis
    by (simp add: rulePopulationFailures_def scope or_none_def h fair_live ring or_missing_def keys counts rows failing_def ok_def next_do_def
        Let_def)
qed

lemma fair_assessed: "\<exists>v. assessBundle fair_host fair_world ''rpc'' ''P'' answer fair_export = Some (Inr v) \<and> vd_ok v"
proof -
  have genesis: "cachedGenesis fair_world = ok ''g''" by (simp add: cachedGenesis_def fair_world_def demo_world_def)
  have envelope: "row_envelope_failures fair_host fair_export [] fair_record = []"
    by (simp add: row_envelope_failures_def fair_export_def fair_record_def demo_record_def no_failures or_none_def Let_def)
  have report: "bundleFailures fair_host fair_world ''P'' answer fair_export = ok (split_failed [])"
  proof -
    have "db_program_id fair_export = ''P''" "db_genesis_hash fair_export = ''g''" "db_cluster fair_export = ''localnet''"
      "db_decisions fair_export = [fair_record]" "es_type (db_scope fair_export) = RuleScope" by (simp_all add: fair_export_def)
    moreover have "clusterForGenesis ''g'' = ''localnet''" by (simp add: clusterForGenesis_def CLUSTER_BY_GENESIS_def)
    ultimately show ?thesis by (simp add: bundleFailures_def genesis envelope fair_population failing_def Let_def)
  qed
  have "db_decisions fair_export = [fair_record]" "db_completeness fair_export = COMPLETENESS"
    by (simp_all add: fair_export_def COMPLETENESS_def)
  then show ?thesis
    by (simp add: assessBundle_def report split_failed_def fair_confirmed ok_def [of "([], [])"] Let_def) (simp add: ok_def)
qed

theorem confirmed_export_is_the_programs_history_witness:
  "mset (map recordKey (db_decisions fair_export)) =
     mset (map (program_key (h_pk fair_host)) (decisions_of [opened_entry demo_args 0, charge_entry demo_acc1 50 5 1]))"
proof -
  obtain v where v: "assessBundle fair_host fair_world ''rpc'' ''P'' (HistoryThrew (Transport '''')) fair_export = Some (Inr v)" "vd_ok v"
    using fair_assessed by blast
  have scope: "es_type (db_scope fair_export) = RuleScope" "es_mandate (db_scope fair_export) = Some ''M''"
    "h_parse fair_host ''M'' = Some ''M''" by (simp_all add: fair_export_def fair_host_def demo_host_def)
  have accounts: "cn_account fair_world ''M'' = Inr (Some (''P'', mandate_image (ca_mandate demo_acc2) @ []))"
    "cn_account fair_world (h_ledgerPda fair_host ''P'' ''M'') = Inr (Some (''P'', ledger_image (ca_ledger demo_acc2) @ []))"
    by (simp_all add: fair_world_def fair_host_def demo_host_def)
  have few: "of_kind KIND_PAID fair_history < 4294967295" "of_kind KIND_REFUSED fair_history < 4294967295"
    by (simp_all add: fair_history_def of_kind_def)
  from confirmed_export_is_the_programs_history [OF v scope fair_reach fair_accounts accounts few]
  show ?thesis by (simp add: fair_history_def)
qed

end
