(* ===== verification/Watch_Rpc.thy ===== *)
theory Watch_Rpc
  imports Watch_Chain
begin

text \<open>
  The watcher's RPC layer (\<^verbatim>\<open>watcher/src/rpc.ts\<close>) and the backoff of its run loop
  (\<^verbatim>\<open>watcher/src/run.ts\<close>, \<open>withRpcBackoff\<close>): endpoint lists, redaction of endpoint addresses, the failover
  over endpoints and passes, and the retry that has no bound. \<open>parseUrl\<close> is the platform's \<open>URL\<close> constructor
  (\<open>None\<close> when it throws). A call reads and changes a world \<open>'w\<close>, so it may answer differently each time.
  The retry loop may run for ever, so it is a partial function: \<open>None\<close> is not returning.
\<close>

section \<open>Endpoints\<close>

record JsUrl =
  url_protocol :: string
  url_host :: string
  url_hostname :: string

definition redactRpcUrl :: "(string \<Rightarrow> JsUrl option) \<Rightarrow> string \<Rightarrow> string" where
  "redactRpcUrl parseUrl raw =
     (case parseUrl raw of
        None \<Rightarrow> ''invalid-rpc-url''
      | Some url \<Rightarrow>
          if url_protocol url \<noteq> ''http:'' \<and> url_protocol url \<noteq> ''https:'' then ''invalid-rpc-url''
          else url_protocol url @ ''//'' @ url_host url)"

fun join_with :: "string \<Rightarrow> string list \<Rightarrow> string" where
  "join_with sep [] = []"
| "join_with sep [x] = x"
| "join_with sep (x # y # ys) = x @ sep @ join_with sep (y # ys)"

definition redactRpcUrls :: "(string \<Rightarrow> JsUrl option) \<Rightarrow> string list \<Rightarrow> string" where
  "redactRpcUrls parseUrl urls = join_with '','' (map (redactRpcUrl parseUrl) urls)"

text \<open>\<open>/https?:\/\/[^\s]+/\<close> at a place: the length of its scheme, when a character that is not space follows.\<close>

definition url_scheme :: "string \<Rightarrow> nat option" where
  "url_scheme s =
     (let n = (if starts_with ''http://'' s then 7 else if starts_with ''https://'' s then 8 else 0) in
      if n = 0 then None
      else case drop n s of [] \<Rightarrow> None | c # _ \<Rightarrow> if is_space c then None else Some n)"

definition strip_tail :: "string \<Rightarrow> string" where
  "strip_tail s = rev (dropWhile (\<lambda>c. c \<in> {CHR '')'', CHR '','', CHR ''.'', CHR '';''}) (rev s))"

fun redact_from :: "(string \<Rightarrow> JsUrl option) \<Rightarrow> nat \<Rightarrow> string \<Rightarrow> string" where
  "redact_from parseUrl skip [] = []"
| "redact_from parseUrl (Suc skip) (c # cs) = redact_from parseUrl skip cs"
| "redact_from parseUrl 0 (c # cs) =
     (case url_scheme (c # cs) of
        None \<Rightarrow> c # redact_from parseUrl 0 cs
      | Some _ \<Rightarrow>
          let match = takeWhile (\<lambda>d. \<not> is_space d) (c # cs); trimmed = strip_tail match
          in redactRpcUrl parseUrl trimmed @ drop (length trimmed) match @ redact_from parseUrl (length match - 1) cs)"

definition redactRpcUrlsInText :: "(string \<Rightarrow> JsUrl option) \<Rightarrow> string \<Rightarrow> string" where
  "redactRpcUrlsInText parseUrl message = redact_from parseUrl 0 message"

definition assertHttpUrl :: "(string \<Rightarrow> JsUrl option) \<Rightarrow> string \<Rightarrow> bool" where
  "assertHttpUrl parseUrl part =
     (case parseUrl part of
        None \<Rightarrow> False
      | Some url \<Rightarrow> (url_protocol url = ''http:'' \<or> url_protocol url = ''https:'') \<and> url_hostname url \<noteq> [])"

text \<open>\<open>split(/[\s,]+/)\<close>, then the empty parts dropped: the runs of characters that are neither space nor comma.\<close>

definition list_sep :: "char \<Rightarrow> bool" where
  "list_sep c \<longleftrightarrow> is_space c \<or> c = CHR '',''"

fun runs :: "string \<Rightarrow> string list" where
  "runs [] = []"
| "runs (c # cs) =
     (if list_sep c then runs cs
      else case cs of
          [] \<Rightarrow> [[c]]
        | d # _ \<Rightarrow> if list_sep d then [c] # runs cs
                  else (case runs cs of [] \<Rightarrow> [[c]] | r # rs \<Rightarrow> (c # r) # rs))"

fun rpc_list_from :: "(string \<Rightarrow> JsUrl option) \<Rightarrow> nat \<Rightarrow> string list \<Rightarrow> string list \<Rightarrow> string list result" where
  "rpc_list_from parseUrl i acc [] = Inr acc"
| "rpc_list_from parseUrl i acc (part # parts) =
     (if part \<in> set acc then rpc_list_from parseUrl (i + 1) acc parts
      else if \<not> assertHttpUrl parseUrl part then Inl (Error (''invalid rpc endpoint at position '' @ nat_str (i + 1)))
      else rpc_list_from parseUrl (i + 1) (acc @ [part]) parts)"

definition parseRpcList :: "(string \<Rightarrow> JsUrl option) \<Rightarrow> string option \<Rightarrow> string list result" where
  "parseRpcList parseUrl raw = (case raw of None \<Rightarrow> Inr [] | Some s \<Rightarrow> rpc_list_from parseUrl 0 [] (runs s))"

section \<open>Failover\<close>

definition nextDelay :: "int \<Rightarrow> int \<Rightarrow> int" where
  "nextDelay delay cap =
     (if delay \<le> 0 then delay else let doubled = delay * 2 in if doubled > cap then cap else doubled)"

definition rateLimited :: "string \<Rightarrow> js_exn" where
  "rateLimited m = \<lparr>ex_name = ''RateLimitedError'', ex_message = m\<rparr>"

text \<open>
  What a run of the failover holds: the world, the next delay, the last error, the addresses fetched
  and the sleeps so far. An error is a \<open>RateLimitedError\<close> when its name says so.
\<close>

record 'w failover =
  fo_world :: 'w
  fo_delay :: int
  fo_err :: "js_exn option"
  fo_fetched :: "string list"
  fo_slept :: "int list"

definition fo_wait :: "int \<Rightarrow> js_exn \<Rightarrow> 'w failover \<Rightarrow> 'w failover" where
  "fo_wait cap e st =
     st\<lparr>fo_err := Some e, fo_slept := fo_slept st @ (if fo_delay st > 0 then [fo_delay st] else []),
        fo_delay := nextDelay (fo_delay st) cap\<rparr>"

text \<open>One attempt: \<open>Some\<close> ends the call with an answer or an error, \<open>None\<close> goes on to the next endpoint.\<close>

definition fo_try ::
  "(string \<Rightarrow> JsUrl option) \<Rightarrow> (string \<Rightarrow> 'w \<Rightarrow> (js_exn + 'r) \<times> 'w) \<Rightarrow> ('r \<Rightarrow> int) \<Rightarrow> int \<Rightarrow> string \<Rightarrow> string \<Rightarrow> bool \<Rightarrow>
   'w failover \<Rightarrow> (js_exn + 'r) option \<times> 'w failover" where
  "fo_try parseUrl doFetch status cap endpoint url hasMore st =
     (case doFetch url (fo_world st) of (answer, w) \<Rightarrow>
        let st' = st\<lparr>fo_world := w, fo_fetched := fo_fetched st @ [url]\<rparr> in
        case answer of
          Inr res \<Rightarrow>
            if status res = 429 then
              let e = rateLimited (''rpc rate limited on '' @ redactRpcUrl parseUrl endpoint) in
              if hasMore then (None, fo_wait cap e st') else (Some (Inl e), st'\<lparr>fo_err := Some e\<rparr>)
            else (Some (Inr res), st')
        | Inl e \<Rightarrow>
            if isRateLimitError e then
              if hasMore then (None, fo_wait cap e st')
              else (Some (Inl (if ex_name e = ''RateLimitedError'' then e
                               else rateLimited ''rpc rate limited on all endpoints'')), st'\<lparr>fo_err := Some e\<rparr>)
            else (Some (Inl e), st'))"

fun fo_pass ::
  "(bool \<Rightarrow> bool \<Rightarrow> string \<Rightarrow> 'w failover \<Rightarrow> (js_exn + 'r) option \<times> 'w failover) \<Rightarrow> bool \<Rightarrow> string list \<Rightarrow>
   'w failover \<Rightarrow> (js_exn + 'r) option \<times> 'w failover" where
  "fo_pass try_at first [] st = (None, st)"
| "fo_pass try_at first (endpoint # endpoints) st =
     (case try_at first (endpoints \<noteq> []) endpoint st of
        (Some r, st') \<Rightarrow> (Some r, st')
      | (None, st') \<Rightarrow> fo_pass try_at False endpoints st')"

fun fo_passes ::
  "(bool \<Rightarrow> bool \<Rightarrow> bool \<Rightarrow> string \<Rightarrow> 'w failover \<Rightarrow> (js_exn + 'r) option \<times> 'w failover) \<Rightarrow> string list \<Rightarrow> nat \<Rightarrow>
   'w failover \<Rightarrow> (js_exn + 'r) option \<times> 'w failover" where
  "fo_passes try_at endpoints 0 st = (None, st)"
| "fo_passes try_at endpoints (Suc n) st =
     (case fo_pass (try_at (n > 0)) True endpoints st of
        (Some r, st') \<Rightarrow> (Some r, st')
      | (None, st') \<Rightarrow> fo_passes try_at endpoints n st')"

text \<open>
  The first endpoint is fetched at the address of the request itself, the others at their own. The call
  with no endpoint throws when it is made; the result here is \<open>None\<close> then.
\<close>

definition makeFailoverFetch ::
  "(string \<Rightarrow> JsUrl option) \<Rightarrow> (string \<Rightarrow> 'w \<Rightarrow> (js_exn + 'r) \<times> 'w) \<Rightarrow> ('r \<Rightarrow> int) \<Rightarrow> int \<Rightarrow> int \<Rightarrow> nat \<Rightarrow> string list \<Rightarrow>
   string \<Rightarrow> 'w \<Rightarrow> ((js_exn + 'r) \<times> 'w failover) option" where
  "makeFailoverFetch parseUrl doFetch status initialDelayMs maxDelayMs maxPasses endpoints input w =
     (if endpoints = [] then None
      else
        let try_at = (\<lambda>morePasses first moreHere endpoint.
              fo_try parseUrl doFetch status maxDelayMs endpoint (if first then input else endpoint) (moreHere \<or> morePasses))
        in case fo_passes try_at endpoints maxPasses
             \<lparr>fo_world = w, fo_delay = initialDelayMs, fo_err = None, fo_fetched = [], fo_slept = []\<rparr> of
            (Some r, st) \<Rightarrow> Some (r, st)
          | (None, st) \<Rightarrow>
              Some (Inl (case fo_err st of Some e \<Rightarrow> e | None \<Rightarrow> rateLimited ''rpc rate limited on all endpoints''), st))"

section \<open>Backoff\<close>

definition isLedgerDecodeError :: "js_exn \<Rightarrow> bool" where
  "isLedgerDecodeError e \<longleftrightarrow> ex_name e = ''LedgerDecodeError''"

definition RPC_INITIAL_MS :: int where "RPC_INITIAL_MS = 1000"
definition RPC_MAX_MS :: int where "RPC_MAX_MS = 60000"

text \<open>What the loop does with a failure: rethrow it (\<open>Some\<close>) or sleep and try again (\<open>None\<close>).\<close>

definition given_up :: "(string \<Rightarrow> JsUrl option) \<Rightarrow> string \<Rightarrow> js_exn \<Rightarrow> js_exn option" where
  "given_up parseUrl label e =
     (if isLedgerDecodeError e then Some e
      else if isRateLimitError e
        then Some (if ex_name e = ''RateLimitedError'' then e
                   else rateLimited (label @ '': '' @ redactRpcUrlsInText parseUrl (ex_message e)))
      else None)"

definition backoff_next :: "int \<Rightarrow> int" where
  "backoff_next delay = (if delay * 2 > RPC_MAX_MS then RPC_MAX_MS else delay * 2)"

partial_function (option) backoff_from ::
  "(js_exn \<Rightarrow> js_exn option) \<Rightarrow> ('s \<Rightarrow> (js_exn + 'a) \<times> 's) \<Rightarrow> int \<Rightarrow> int list \<Rightarrow> 's \<Rightarrow>
   ((js_exn + 'a) \<times> int list \<times> 's) option" where
  "backoff_from stop call delay slept s =
     (case call s of (answer, s') \<Rightarrow>
        (case answer of
           Inr a \<Rightarrow> Some (Inr a, slept, s')
         | Inl e \<Rightarrow>
             (case stop e of
                Some e' \<Rightarrow> Some (Inl e', slept, s')
              | None \<Rightarrow> backoff_from stop call (backoff_next delay) (slept @ [delay]) s')))"

definition withRpcBackoff ::
  "(string \<Rightarrow> JsUrl option) \<Rightarrow> string \<Rightarrow> ('s \<Rightarrow> (js_exn + 'a) \<times> 's) \<Rightarrow> 's \<Rightarrow> ((js_exn + 'a) \<times> int list \<times> 's) option" where
  "withRpcBackoff parseUrl label call s = backoff_from (given_up parseUrl label) call RPC_INITIAL_MS [] s"

section \<open>The failover is bounded\<close>

lemma rateLimited_limited [simp]: "isRateLimitError (rateLimited m)"
  by (simp add: rateLimited_def isRateLimitError_def)

definition fo_ok :: "int \<Rightarrow> 'w failover \<Rightarrow> bool" where
  "fo_ok m st \<longleftrightarrow> fo_delay st \<le> m \<and> (\<forall>d \<in> set (fo_slept st). 0 < d \<and> d \<le> m)"

lemma fo_wait_ok: "fo_ok m st \<Longrightarrow> cap \<le> m \<Longrightarrow> fo_ok m (fo_wait cap e st)" "fo_fetched (fo_wait cap e st) = fo_fetched st"
  by (auto simp: fo_ok_def fo_wait_def nextDelay_def Let_def)

definition answers_right :: "('r \<Rightarrow> int) \<Rightarrow> bool \<Rightarrow> (js_exn + 'r) option \<Rightarrow> bool" where
  "answers_right status at_end res =
     (case res of
        Some (Inr r) \<Rightarrow> status r \<noteq> 429
      | Some (Inl e) \<Rightarrow> isRateLimitError e \<longrightarrow> at_end
      | None \<Rightarrow> \<not> at_end)"

lemma fo_try_facts:
  assumes "fo_try parseUrl doFetch status cap endpoint url hasMore st = (res, st')" "fo_ok m st" "cap \<le> m"
  shows "fo_fetched st' = fo_fetched st @ [url] \<and> fo_ok m st' \<and> answers_right status (\<not> hasMore) res"
proof -
  obtain answer w where a: "doFetch url (fo_world st) = (answer, w)" by fastforce
  have ok: "fo_ok m (st\<lparr>fo_world := w, fo_fetched := fo_fetched st @ [url]\<rparr>)"
    "\<And>e. fo_ok m (st\<lparr>fo_world := w, fo_fetched := fo_fetched st @ [url], fo_err := e\<rparr>)"
    using assms(2) by (simp_all add: fo_ok_def)
  show ?thesis
    using assms(1) a ok fo_wait_ok(1) [OF ok(1) assms(3)]
    by (auto simp: fo_try_def Let_def answers_right_def fo_wait_ok(2) split: sum.splits if_splits)
qed

text \<open>What a pass from the first endpoint or a later one would fetch, in order.\<close>

definition pass_urls :: "string \<Rightarrow> bool \<Rightarrow> string list \<Rightarrow> string list" where
  "pass_urls input first endpoints = (if first \<and> endpoints \<noteq> [] then input # tl endpoints else endpoints)"

lemma length_pass_urls [simp]: "length (pass_urls input first endpoints) = length endpoints"
  by (simp add: pass_urls_def)

lemma fo_pass_facts:
  assumes one_try: "\<And>first more endpoint st res st'. try_at first more endpoint st = (res, st') \<Longrightarrow> fo_ok m st \<Longrightarrow>
      fo_fetched st' = fo_fetched st @ [if first then input else endpoint] \<and> fo_ok m st' \<and>
      answers_right status (\<not> (more \<or> later)) res"
  shows "fo_pass try_at first endpoints st = (res, st') \<Longrightarrow> fo_ok m st \<Longrightarrow>
    \<exists>k \<le> length endpoints. fo_fetched st' = fo_fetched st @ take k (pass_urls input first endpoints) \<and> fo_ok m st' \<and>
      (case res of
         Some (Inr r) \<Rightarrow> status r \<noteq> 429
       | Some (Inl e) \<Rightarrow> isRateLimitError e \<longrightarrow> \<not> later \<and> k = length endpoints
       | None \<Rightarrow> (later \<or> endpoints = []) \<and> k = length endpoints)"
proof (induction endpoints arbitrary: first st)
  case (Cons e es)
  obtain res1 st1 where one: "try_at first (es \<noteq> []) e st = (res1, st1)" by fastforce
  note f = one_try [OF one Cons.prems(2)]
  show ?case
  proof (cases res1)
    case (Some r)
    then have "res = Some r" "st' = st1" using Cons.prems(1) one by simp_all
    then show ?thesis using f Some
      by (intro exI [of _ 1]) (auto simp: pass_urls_def answers_right_def split: sum.splits)
  next
    case None
    then have rest: "fo_pass try_at False es st1 = (res, st')" using Cons.prems(1) one by simp
    obtain k where k: "k \<le> length es" "fo_fetched st' = fo_fetched st1 @ take k (pass_urls input False es)" "fo_ok m st'"
        "case res of Some (Inr r) \<Rightarrow> status r \<noteq> 429
         | Some (Inl e) \<Rightarrow> isRateLimitError e \<longrightarrow> \<not> later \<and> k = length es
         | None \<Rightarrow> (later \<or> es = []) \<and> k = length es"
      using Cons.IH [OF rest] f by blast
    have "later \<or> es \<noteq> []" using f None by (auto simp: answers_right_def)
    then show ?thesis using k f
      by (intro exI [of _ "Suc k"]) (auto simp: pass_urls_def split: option.splits sum.splits)
  qed
qed (simp add: pass_urls_def)

lemma fo_passes_facts:
  assumes one_try: "\<And>later first more endpoint st res st'. try_at later first more endpoint st = (res, st') \<Longrightarrow> fo_ok m st \<Longrightarrow>
      fo_fetched st' = fo_fetched st @ [if first then input else endpoint] \<and> fo_ok m st' \<and>
      answers_right status (\<not> (more \<or> later)) res"
    and "endpoints \<noteq> []"
  shows "fo_passes try_at endpoints n st = (res, st') \<Longrightarrow> fo_ok m st \<Longrightarrow>
    \<exists>k \<le> n * length endpoints.
      fo_fetched st' = fo_fetched st @ take k (concat (replicate n (pass_urls input True endpoints))) \<and> fo_ok m st' \<and>
      (case res of
         Some (Inr r) \<Rightarrow> status r \<noteq> 429
       | Some (Inl e) \<Rightarrow> isRateLimitError e \<longrightarrow> k = n * length endpoints
       | None \<Rightarrow> n = 0)"
proof (induction n arbitrary: st)
  case (Suc n)
  obtain res1 st1 where one: "fo_pass (try_at (n > 0)) True endpoints st = (res1, st1)" by fastforce
  obtain k1 where k1: "k1 \<le> length endpoints" "fo_fetched st1 = fo_fetched st @ take k1 (pass_urls input True endpoints)" "fo_ok m st1"
      "case res1 of Some (Inr r) \<Rightarrow> status r \<noteq> 429
       | Some (Inl e) \<Rightarrow> isRateLimitError e \<longrightarrow> \<not> n > 0 \<and> k1 = length endpoints
       | None \<Rightarrow> (n > 0 \<or> endpoints = []) \<and> k1 = length endpoints"
    using fo_pass_facts [OF one_try one Suc.prems(2)] by blast
  show ?case
  proof (cases res1)
    case (Some r)
    then have "res = Some r" "st' = st1" using Suc.prems(1) one by simp_all
    then show ?thesis using k1 Some by (intro exI [of _ k1]) (auto split: sum.splits)
  next
    case None
    then have rest: "fo_passes try_at endpoints n st1 = (res, st')" using Suc.prems(1) one by simp
    obtain k where k: "k \<le> n * length endpoints"
        "fo_fetched st' = fo_fetched st1 @ take k (concat (replicate n (pass_urls input True endpoints)))" "fo_ok m st'"
        "case res of Some (Inr r) \<Rightarrow> status r \<noteq> 429
         | Some (Inl e) \<Rightarrow> isRateLimitError e \<longrightarrow> k = n * length endpoints
         | None \<Rightarrow> n = 0"
      using Suc.IH [OF rest k1(3)] by blast
    have "n > 0" using k1(4) None assms(2) by simp
    then show ?thesis using k k1 None
      by (intro exI [of _ "length endpoints + k"]) (auto split: option.splits sum.splits)
  qed
qed simp

text \<open>The failover asks at most each endpoint once per pass. The addresses fetched are the first of
  the sequence request address, second endpoint, and so on, repeated once per pass; every sleep is
  positive and at most the larger of the first delay and the cap; an answer handed back is never a
  429; and when the call ends in a rate limit, every endpoint was asked in every pass.\<close>

theorem failover_is_bounded:
  assumes "makeFailoverFetch parseUrl doFetch status initialDelayMs maxDelayMs maxPasses endpoints input w = Some (r, st)"
  shows "length (fo_fetched st) \<le> maxPasses * length endpoints \<and>
    fo_fetched st = take (length (fo_fetched st)) (concat (replicate maxPasses (input # tl endpoints))) \<and>
    (\<forall>d \<in> set (fo_slept st). 0 < d \<and> d \<le> max initialDelayMs maxDelayMs) \<and>
    (case r of Inr res \<Rightarrow> status res \<noteq> 429
     | Inl e \<Rightarrow> isRateLimitError e \<longrightarrow> length (fo_fetched st) = maxPasses * length endpoints)"
proof -
  define try_at where "try_at = (\<lambda>morePasses first moreHere endpoint.
      fo_try parseUrl doFetch status maxDelayMs endpoint (if first then input else endpoint) (moreHere \<or> morePasses))"
  define st0 where "st0 = \<lparr>fo_world = w, fo_delay = initialDelayMs, fo_err = None, fo_fetched = [], fo_slept = []\<rparr>"
  define m where "m = max initialDelayMs maxDelayMs"
  have ne: "endpoints \<noteq> []" using assms by (auto simp: makeFailoverFetch_def)
  obtain res where res: "fo_passes try_at endpoints maxPasses st0 = (res, st)"
      "r = (case res of Some a \<Rightarrow> a | None \<Rightarrow> Inl (case fo_err st of Some e \<Rightarrow> e | None \<Rightarrow> rateLimited ''rpc rate limited on all endpoints''))"
    using assms ne unfolding makeFailoverFetch_def try_at_def [symmetric] st0_def [symmetric] Let_def
    by (auto split: prod.splits option.splits)
  have one_try: "fo_fetched st' = fo_fetched st @ [if first then input else endpoint] \<and> fo_ok m st' \<and>
      answers_right status (\<not> (more \<or> later)) res"
    if "try_at later first more endpoint st = (res, st')" "fo_ok m st" for later first more endpoint st res st'
    using fo_try_facts [OF that(1) [unfolded try_at_def] that(2)] by (simp add: m_def)
  have "fo_ok m st0" by (simp add: fo_ok_def st0_def m_def)
  then obtain k where k: "k \<le> maxPasses * length endpoints"
      "fo_fetched st = take k (concat (replicate maxPasses (input # tl endpoints)))" "fo_ok m st"
      "case res of Some (Inr r) \<Rightarrow> status r \<noteq> 429
       | Some (Inl e) \<Rightarrow> isRateLimitError e \<longrightarrow> k = maxPasses * length endpoints
       | None \<Rightarrow> maxPasses = 0"
    using fo_passes_facts [OF one_try ne res(1)] ne by (auto simp: st0_def pass_urls_def)
  have "length (concat (replicate maxPasses (input # tl endpoints))) = maxPasses * length endpoints"
    using ne by (simp add: length_concat sum_list_replicate)
  then have "length (fo_fetched st) = k" using k(1,2) by simp
  then show ?thesis
    using k res(2) unfolding fo_ok_def m_def [symmetric] by (auto split: option.splits sum.splits)
qed


section \<open>The backoff returns when the call does\<close>

text \<open>The world after \<open>k\<close> attempts, and the answer of the attempt after them.\<close>

definition world_after :: "('s \<Rightarrow> (js_exn + 'a) \<times> 's) \<Rightarrow> nat \<Rightarrow> 's \<Rightarrow> 's" where
  "world_after call k s = ((\<lambda>s. snd (call s)) ^^ k) s"

definition answer_at :: "('s \<Rightarrow> (js_exn + 'a) \<times> 's) \<Rightarrow> nat \<Rightarrow> 's \<Rightarrow> js_exn + 'a" where
  "answer_at call k s = fst (call (world_after call k s))"

definition retried :: "(js_exn \<Rightarrow> js_exn option) \<Rightarrow> js_exn + 'a \<Rightarrow> bool" where
  "retried stop answer \<longleftrightarrow> (case answer of Inl e \<Rightarrow> stop e = None | Inr _ \<Rightarrow> False)"

definition handed_on :: "(js_exn \<Rightarrow> js_exn option) \<Rightarrow> js_exn + 'a \<Rightarrow> js_exn + 'a" where
  "handed_on stop answer = (case answer of Inl e \<Rightarrow> Inl (the (stop e)) | Inr a \<Rightarrow> Inr a)"

lemma world_after_0 [simp]: "world_after call 0 s = s"
  by (simp add: world_after_def)

lemma world_after_Suc: "world_after call (Suc k) s = world_after call k (snd (call s))"
  by (simp only: world_after_def funpow_Suc_right o_apply)

lemma answer_at_Suc: "answer_at call (Suc k) s = answer_at call k (snd (call s))"
  by (simp add: answer_at_def world_after_Suc)

lemma answer_at_0: "answer_at call 0 s = fst (call s)"
  by (simp add: answer_at_def)

lemma all_less_Suc: "(\<forall>j < Suc k. P j) \<longleftrightarrow> P 0 \<and> (\<forall>j < k. P (Suc j))"
  by (metis less_Suc_eq_0_disj old.nat.exhaust Suc_less_eq zero_less_Suc)

lemma delays_Suc: "map (\<lambda>j. (f ^^ j) d) [0..<Suc k] = d # map (\<lambda>j. (f ^^ j) (f d)) [0..<k]"
proof -
  have "[0..<Suc k] = 0 # map Suc [0..<k]" by (simp add: map_Suc_upt upt_conv_Cons)
  then show ?thesis by (simp add: funpow_swap1 del: upt_Suc)
qed

lemma backoff_steps:
  "\<forall>j < k. retried stop (answer_at call j s) \<Longrightarrow> \<not> retried stop (answer_at call k s) \<Longrightarrow>
   backoff_from stop call d slept s =
     Some (handed_on stop (answer_at call k s), slept @ map (\<lambda>j. (backoff_next ^^ j) d) [0..<k], world_after call (Suc k) s)"
proof (induction k arbitrary: d slept s)
  case 0
  then show ?case
    by (subst backoff_from.simps)
      (auto simp: answer_at_0 retried_def handed_on_def world_after_Suc split: prod.splits sum.splits option.splits)
next
  case (Suc k)
  have first: "retried stop (fst (call s))" and rest: "\<forall>j < k. retried stop (answer_at call j (snd (call s)))"
    using Suc.prems(1) by (simp_all add: all_less_Suc answer_at_Suc answer_at_0)
  have step: "backoff_from stop call d slept s = backoff_from stop call (backoff_next d) (slept @ [d]) (snd (call s))"
    using first by (subst backoff_from.simps) (auto simp: retried_def split: prod.splits sum.splits)
  show ?case
    unfolding step delays_Suc world_after_Suc [of call "Suc k"] answer_at_Suc
    using Suc.IH [OF rest] Suc.prems(2) by (simp add: answer_at_Suc)
qed

lemma backoff_returned:
  "backoff_from stop call d slept s = Some y \<Longrightarrow>
   \<exists>k. (\<forall>j < k. retried stop (answer_at call j s)) \<and> \<not> retried stop (answer_at call k s)"
proof (rule backoff_from.raw_induct
    [where P = "\<lambda>stop call d slept s y. \<exists>k. (\<forall>j < k. retried stop (answer_at call j s)) \<and> \<not> retried stop (answer_at call k s)"])
  fix rec :: "(js_exn \<Rightarrow> js_exn option) \<Rightarrow> ('s \<Rightarrow> (js_exn + 'a) \<times> 's) \<Rightarrow> int \<Rightarrow> int list \<Rightarrow> 's \<Rightarrow> ((js_exn + 'a) \<times> int list \<times> 's) option"
    and stop call d slept s y
  assume IH: "\<And>stop call d slept s y. rec stop call d slept s = Some y \<Longrightarrow>
      \<exists>k. (\<forall>j < k. retried stop (answer_at call j s)) \<and> \<not> retried stop (answer_at call k s)"
    and body: "(case call s of (answer, s') \<Rightarrow>
        (case answer of
           Inr a \<Rightarrow> Some (Inr a, slept, s')
         | Inl e \<Rightarrow>
             (case stop e of
                Some e' \<Rightarrow> Some (Inl e', slept, s')
              | None \<Rightarrow> rec stop call (backoff_next d) (slept @ [d]) s'))) = Some y"
  obtain answer s' where c: "call s = (answer, s')" by fastforce
  show "\<exists>k. (\<forall>j < k. retried stop (answer_at call j s)) \<and> \<not> retried stop (answer_at call k s)"
  proof (cases "retried stop answer")
    case False
    then show ?thesis using c by (intro exI [of _ 0]) (simp add: answer_at_0)
  next
    case True
    then have "rec stop call (backoff_next d) (slept @ [d]) s' = Some y"
      using body c by (auto simp: retried_def split: sum.splits)
    then obtain k where "\<forall>j < k. retried stop (answer_at call j s')" "\<not> retried stop (answer_at call k s')"
      using IH by blast
    then show ?thesis
      using True c by (intro exI [of _ "Suc k"]) (simp add: all_less_Suc answer_at_Suc answer_at_0)
  qed
qed

lemma delay_power: "(backoff_next ^^ j) RPC_INITIAL_MS = min 60000 (1000 * 2 ^ j)"
  by (induction j) (simp_all add: RPC_INITIAL_MS_def backoff_next_def RPC_MAX_MS_def min_def)

text \<open>C24: the backoff returns exactly when the call stops failing in a way worth a retry, and it returns
  what that attempt gave: its value, or its rate limit or unreadable ledger as an error. Before it come
  the failed attempts, one sleep after each, of 1, 2, 4, \<open>\<dots>\<close> seconds and never more than a minute.
  A call that fails so for ever is never given up.\<close>

theorem backoff_returns_when_the_call_settles:
  "withRpcBackoff parseUrl label call s = Some (r, slept, s') \<longleftrightarrow>
   (\<exists>k. (\<forall>j < k. retried (given_up parseUrl label) (answer_at call j s)) \<and>
      \<not> retried (given_up parseUrl label) (answer_at call k s) \<and>
      r = handed_on (given_up parseUrl label) (answer_at call k s) \<and>
      slept = map (\<lambda>j. min 60000 (1000 * 2 ^ j)) [0..<k] \<and> s' = world_after call (Suc k) s)"
proof
  assume run: "withRpcBackoff parseUrl label call s = Some (r, slept, s')"
  obtain k where k: "\<forall>j < k. retried (given_up parseUrl label) (answer_at call j s)"
      "\<not> retried (given_up parseUrl label) (answer_at call k s)"
    using backoff_returned [OF run [unfolded withRpcBackoff_def]] by blast
  then show "\<exists>k. (\<forall>j < k. retried (given_up parseUrl label) (answer_at call j s)) \<and>
      \<not> retried (given_up parseUrl label) (answer_at call k s) \<and>
      r = handed_on (given_up parseUrl label) (answer_at call k s) \<and>
      slept = map (\<lambda>j. min 60000 (1000 * 2 ^ j)) [0..<k] \<and> s' = world_after call (Suc k) s"
    using run backoff_steps [OF k, of RPC_INITIAL_MS "[]"]
    by (intro exI [of _ k]) (simp add: withRpcBackoff_def delay_power)
next
  assume "\<exists>k. (\<forall>j < k. retried (given_up parseUrl label) (answer_at call j s)) \<and>
      \<not> retried (given_up parseUrl label) (answer_at call k s) \<and>
      r = handed_on (given_up parseUrl label) (answer_at call k s) \<and>
      slept = map (\<lambda>j. min 60000 (1000 * 2 ^ j)) [0..<k] \<and> s' = world_after call (Suc k) s"
  then show "withRpcBackoff parseUrl label call s = Some (r, slept, s')"
    using backoff_steps [of _ "given_up parseUrl label" call s RPC_INITIAL_MS "[]"]
    by (auto simp: withRpcBackoff_def delay_power)
qed

theorem backoff_returns_when_the_call_settles_witness:
  "withRpcBackoff (\<lambda>_. None) ''charge'' (\<lambda>n :: nat. (if n < 7 then Inl (plainError ''socket'') else Inr n, n + 1)) 0 =
     Some (Inr 7, [1000, 2000, 4000, 8000, 16000, 32000, 60000], 8)"
proof -
  define call :: "nat \<Rightarrow> (js_exn + nat) \<times> nat" where
    "call = (\<lambda>n. (if n < 7 then Inl (plainError ''socket'') else Inr n, n + 1))"
  have step: "call n = (if n < 7 then Inl (plainError ''socket'') else Inr n, n + 1)" for n by (simp add: call_def)
  have world: "world_after call k n = n + k" for k n by (induction k arbitrary: n) (simp_all add: world_after_Suc step)
  have "given_up (\<lambda>_. None) ''charge'' (plainError ''socket'') = None" by code_simp
  then have again: "retried (given_up (\<lambda>_. None) ''charge'') (Inl (plainError ''socket''))" by (simp add: retried_def)
  have settles: "\<not> retried stop (Inr x)" for stop :: "js_exn \<Rightarrow> js_exn option" and x :: nat by (simp add: retried_def)
  show ?thesis
    unfolding call_def [symmetric] backoff_returns_when_the_call_settles
    by (intro exI [of _ 7])
      (simp add: world answer_at_def again settles handed_on_def step upt_rec [of _ "7 :: nat"] min_def)
qed

end
