(* ===== verification/Watch_Repair.thy ===== *)
theory Watch_Repair
  imports Watch_Chain "HOL-Library.AList"
begin

text \<open>
  The watcher's journal (\<^verbatim>\<open>watcher/src/journal.ts\<close>), its nonces (\<^verbatim>\<open>watcher/src/nonce.ts\<close>), the staleness
  check (\<^verbatim>\<open>watcher/src/stale.ts\<close>) and the repair from the chain (\<^verbatim>\<open>watcher/src/journalRepair.ts\<close>).
  The journal is its list of rows: the file they are kept in, one JSON line each, is input and
  output. \<open>dateParse\<close> is \<open>Date.parse\<close> (\<open>None\<close> is \<open>NaN\<close>) and \<open>toIso\<close> is \<open>Date.prototype.toISOString\<close>; times
  are milliseconds.
\<close>

section \<open>Rows\<close>

datatype Decision = paid | refused | gap | skipped

record FxFields =
  fx_quote_currency :: string
  fx_rate :: "string option"
  fx_date :: "string option"
  fx_source :: "string option"

text \<open>The four exchange-rate fields are written together or left out.\<close>

record JournalRow =
  jr_ts :: string
  jr_window_start :: string
  jr_window_end :: "string option"
  jr_sek_per_kwh :: "string option"
  jr_kwh_milli :: string
  jr_amount :: string
  jr_nonce :: string
  jr_decision :: Decision
  jr_reason :: string
  jr_reason_code :: "int option"
  jr_signature :: "string option"
  jr_suggested_override :: "string option"
  jr_fx :: "FxFields option"

definition TERMINAL :: "Decision set" where "TERMINAL = {paid, refused, skipped}"

definition hasNonce :: "JournalRow list \<Rightarrow> int \<Rightarrow> bool" where
  "hasNonce rows nonce = list_ex (\<lambda>row. jr_nonce row = int_str nonce \<and> jr_decision row \<in> TERMINAL) rows"

definition hasGap :: "JournalRow list \<Rightarrow> int \<Rightarrow> string option \<Rightarrow> bool" where
  "hasGap rows nonce reason =
     list_ex (\<lambda>row. jr_nonce row = int_str nonce \<and> jr_decision row = gap \<and>
       (case reason of None \<Rightarrow> True | Some r \<Rightarrow> jr_reason row = r)) rows"

text \<open>\<open>BigInt(text)\<close> on decimal text, with a sign or none; the empty text is zero. The radix prefixes
  are kept as parse failures: no row of the watcher holds one.\<close>

definition bigint_of :: "string \<Rightarrow> js_exn + int" where
  "bigint_of raw =
     (let s = trim raw; bad = \<lparr>ex_name = ''SyntaxError'', ex_message = ''Cannot convert '' @ raw @ '' to a BigInt''\<rparr> in
      if s = [] then Inr 0
      else if all_digits s then Inr (int (str_val s))
      else if hd s = CHR ''-'' \<and> tl s \<noteq> [] \<and> all_digits (tl s) then Inr (- int (str_val (tl s)))
      else if hd s = CHR ''+'' \<and> tl s \<noteq> [] \<and> all_digits (tl s) then Inr (int (str_val (tl s)))
      else Inl bad)"

fun maxSettled_from :: "int \<Rightarrow> JournalRow list \<Rightarrow> js_exn + int" where
  "maxSettled_from m [] = Inr m"
| "maxSettled_from m (row # rows) =
     (if jr_signature row \<noteq> None \<and> jr_decision row = paid
      then (case bigint_of (jr_nonce row) of
              Inl e \<Rightarrow> Inl e
            | Inr n \<Rightarrow> maxSettled_from (if n > m then n else m) rows)
      else maxSettled_from m rows)"

definition maxSettledNonce :: "JournalRow list \<Rightarrow> js_exn + int" where
  "maxSettledNonce rows = maxSettled_from 0 rows"

definition counts :: "JournalRow list \<Rightarrow> nat \<times> nat \<times> nat \<times> nat \<times> nat" where
  "counts rows =
     foldl (\<lambda>(p, r, g, s, t) row.
        (case jr_decision row of
           paid \<Rightarrow> (p + 1, r, g, s, t)
         | refused \<Rightarrow> (p, r + 1, g, s, t)
         | gap \<Rightarrow> (p, r, g + 1, s, t)
         | skipped \<Rightarrow> (p, r, g, s + 1, t))) (0, 0, 0, 0, length rows) rows"

section \<open>Nonces and staleness\<close>

definition nonceFromWindowStart :: "(string \<Rightarrow> int option) \<Rightarrow> string \<Rightarrow> js_exn + int" where
  "nonceFromWindowStart dateParse timeStartIso =
     (case dateParse timeStartIso of
        None \<Rightarrow> Inl (plainError (''nonce.nonceFromWindowStart: bad window start: '' @ timeStartIso))
      | Some ms \<Rightarrow>
          if ms < 0 then Inl (plainError (''nonce.nonceFromWindowStart: window start before epoch: '' @ timeStartIso))
          else Inr (ms div 1000))"

definition QUARTER_MS :: int where "QUARTER_MS = 15 * 60 * 1000"

text \<open>JavaScript's \<open>%\<close> takes the sign of the dividend.\<close>

definition js_rem :: "int \<Rightarrow> int \<Rightarrow> int" where
  "js_rem a b = (if a \<ge> 0 then a mod b else - ((- a) mod b))"

definition nonceFromSlot :: "(string \<Rightarrow> int option) \<Rightarrow> (int \<Rightarrow> string) \<Rightarrow> int \<Rightarrow> js_exn + int" where
  "nonceFromSlot dateParse toIso ms =
     (let remainder = js_rem (js_rem ms QUARTER_MS + QUARTER_MS) QUARTER_MS;
          start = ms - remainder
      in if start < 0 then Inl (plainError (''nonce.nonceFromSlot: instant before epoch: '' @ toIso ms))
         else nonceFromWindowStart dateParse (toIso start))"

definition STALE_AFTER_MS :: int where "STALE_AFTER_MS = (6 * 60 * 60 * 1000 * 3) div 2"

fun lastDecision_from :: "(string \<Rightarrow> int option) \<Rightarrow> int option \<Rightarrow> JournalRow list \<Rightarrow> int option" where
  "lastDecision_from dateParse m [] = m"
| "lastDecision_from dateParse m (row # rows) =
     (case dateParse (jr_ts row) of
        None \<Rightarrow> lastDecision_from dateParse m rows
      | Some ms \<Rightarrow>
          lastDecision_from dateParse (case m of None \<Rightarrow> Some ms | Some x \<Rightarrow> Some (if ms > x then ms else x)) rows)"

definition lastDecisionAt :: "(string \<Rightarrow> int option) \<Rightarrow> JournalRow list \<Rightarrow> int option" where
  "lastDecisionAt dateParse rows = lastDecision_from dateParse None rows"

definition isJournalStale :: "(string \<Rightarrow> int option) \<Rightarrow> JournalRow list \<Rightarrow> int \<Rightarrow> int option \<Rightarrow> bool" where
  "isJournalStale dateParse rows now emptySince =
     (case (case lastDecisionAt dateParse rows of Some l \<Rightarrow> Some l | None \<Rightarrow> emptySince) of
        None \<Rightarrow> True
      | Some origin \<Rightarrow> now - origin > STALE_AFTER_MS)"

section \<open>The charge in a transaction\<close>

record 'k wtx =
  wt_keys :: "'k list"
  wt_instructions :: "(nat \<times> bytes) list"
  wt_logs :: "string list"
  wt_blockTime :: "int option"

definition CHARGE_DISCRIMINATOR :: bytes where "CHARGE_DISCRIMINATOR = [26, 55, 197, 209, 93, 77, 242, 15]"

fun charge_in :: "'k list \<Rightarrow> 'k \<Rightarrow> (nat \<times> bytes) list \<Rightarrow> (int \<times> int) option" where
  "charge_in keys programId [] = None"
| "charge_in keys programId ((index, data) # rest) =
     (if \<not> (index < length keys \<and> keys ! index = programId) then charge_in keys programId rest
      else if length data < 24 then charge_in keys programId rest
      else if slice data 0 8 \<noteq> CHARGE_DISCRIMINATOR then charge_in keys programId rest
      else Some (watch_U64 data 8, watch_U64 data 16))"

definition chargeFromTx :: "'k wtx \<Rightarrow> 'k \<Rightarrow> (int \<times> int) option" where
  "chargeFromTx tx programId = charge_in (wt_keys tx) programId (wt_instructions tx)"

section \<open>Walking a mandate's transactions\<close>

record SignaturePage =
  sg_signature :: string
  sg_err :: bool
  sg_blockTime :: "int option"

text \<open>What the walk holds: the decisions found, newest first, and the nonces still looked for.\<close>

type_synonym walk = "ChainDecision list \<times> int list option"

definition all_found :: "walk \<Rightarrow> bool" where
  "all_found st \<longleftrightarrow> snd st = Some []"

definition found_decision :: "int \<times> int \<Rightarrow> ChargeOutcome \<Rightarrow> string \<Rightarrow> int option \<Rightarrow> ChainDecision" where
  "found_decision chg outcome sig blockTime =
     \<lparr>hd_nonce = snd chg, hd_decision = co_decision outcome, hd_amount = fst chg,
      hd_ts = (case blockTime of Some t \<Rightarrow> t * 1000 | None \<Rightarrow> snd chg * 1000), hd_reason = co_reasonCode outcome,
      hd_suggestedOverride = (case co_suggestedOverride outcome of None \<Rightarrow> 0 | Some s \<Rightarrow> s), hd_signature = Some sig\<rparr>"

definition walk_one :: "(string \<Rightarrow> js_exn + 'k wtx option) \<Rightarrow> 'k \<Rightarrow> SignaturePage \<Rightarrow> walk \<Rightarrow> walk" where
  "walk_one getTx programId info st =
     (if sg_err info then st
      else case getTx (sg_signature info) of
          Inl _ \<Rightarrow> st
        | Inr None \<Rightarrow> st
        | Inr (Some tx) \<Rightarrow>
            (case chargeFromTx tx programId of
               None \<Rightarrow> st
             | Some chg \<Rightarrow>
                 if snd chg \<in> hd_nonce ` set (fst st) then st
                 else (case parseChargeLogs (wt_logs tx) of
                         Inl _ \<Rightarrow> st
                       | Inr outcome \<Rightarrow>
                           (fst st @ [found_decision chg outcome (sg_signature info)
                              (case wt_blockTime tx of Some t \<Rightarrow> Some t | None \<Rightarrow> sg_blockTime info)],
                            map_option (removeAll (snd chg)) (snd st)))))"

fun walk_page :: "(string \<Rightarrow> js_exn + 'k wtx option) \<Rightarrow> 'k \<Rightarrow> SignaturePage list \<Rightarrow> walk \<Rightarrow> walk" where
  "walk_page getTx programId [] st = st"
| "walk_page getTx programId (info # infos) st =
     (if all_found st then st else walk_page getTx programId infos (walk_one getTx programId info st))"

fun walk_pages ::
  "nat \<Rightarrow> (string option \<Rightarrow> js_exn + SignaturePage list) \<Rightarrow> (string \<Rightarrow> js_exn + 'k wtx option) \<Rightarrow> 'k \<Rightarrow>
   string option \<Rightarrow> walk \<Rightarrow> walk" where
  "walk_pages 0 getSigs getTx programId before st = st"
| "walk_pages (Suc n) getSigs getTx programId before st =
     (if all_found st then st
      else case getSigs before of
          Inl _ \<Rightarrow> st
        | Inr sigs \<Rightarrow>
            if sigs = [] then st
            else
              let st' = walk_page getTx programId sigs st in
              if all_found st' \<or> length sigs < 200 then st'
              else walk_pages n getSigs getTx programId (Some (sg_signature (last sigs))) st')"

definition decisionsFromMandateHistory ::
  "(string option \<Rightarrow> js_exn + SignaturePage list) \<Rightarrow> (string \<Rightarrow> js_exn + 'k wtx option) \<Rightarrow> 'k \<Rightarrow> int list option \<Rightarrow>
   ChainDecision list" where
  "decisionsFromMandateHistory getSigs getTx programId missing =
     fst (walk_pages 50 getSigs getTx programId None ([], missing))"

text \<open>A \<open>Map\<close> keeps the place of a key's first entry and the value of its last; the result is sorted by nonce.\<close>

definition mergeChainDecisions :: "ChainDecision list \<Rightarrow> ChainDecision list \<Rightarrow> ChainDecision list" where
  "mergeChainDecisions ring walked =
     sort_key hd_nonce (map snd (foldl (\<lambda>m row. AList.update (hd_nonce row) row m) [] (ring @ walked)))"

text \<open>\<open>info\<close> is the data of the ledger account, \<open>history\<close> the two history calls when the connection has
  them, \<open>held\<close> the caller's \<open>hasNonce\<close>.\<close>

definition fetchChainDecisions ::
  "bytes option \<Rightarrow> string \<Rightarrow>
   ((string option \<Rightarrow> js_exn + SignaturePage list) \<times> (string \<Rightarrow> js_exn + 'k wtx option)) option \<Rightarrow> 'k \<Rightarrow>
   (int \<Rightarrow> bool) option \<Rightarrow> js_exn + ChainDecision list" where
  "fetchChainDecisions info account history programId held =
     (case (case info of None \<Rightarrow> Inr [] | Some data \<Rightarrow> decodeLedgerDecisions data account) of
        Inl e \<Rightarrow> Inl e
      | Inr ring \<Rightarrow>
          (case history of
             None \<Rightarrow> Inr (mergeChainDecisions ring [])
           | Some (getSigs, getTx) \<Rightarrow>
               if (case held of None \<Rightarrow> False | Some h \<Rightarrow> list_all (\<lambda>row. h (hd_nonce row)) ring)
               then Inr (mergeChainDecisions ring [])
               else
                 let missing = (case held of
                       None \<Rightarrow> None
                     | Some h \<Rightarrow> if list_all (\<lambda>row. \<not> h (hd_nonce row)) ring then None
                                else Some (map hd_nonce (filter (\<lambda>row. \<not> h (hd_nonce row)) ring)))
                 in Inr (mergeChainDecisions ring (decisionsFromMandateHistory getSigs getTx programId missing))))"

section \<open>Repair\<close>

definition decision_row_of :: "charge_decision \<Rightarrow> Decision" where
  "decision_row_of d = (case d of cd_paid \<Rightarrow> paid | cd_refused \<Rightarrow> refused)"

definition chainDecisionToRow :: "(int \<Rightarrow> string) \<Rightarrow> ChainDecision \<Rightarrow> JournalRow" where
  "chainDecisionToRow toIso entry =
     \<lparr>jr_ts = toIso (hd_ts entry), jr_window_start = toIso (hd_nonce entry * 1000), jr_window_end = None, jr_sek_per_kwh = None,
      jr_kwh_milli = ''0'', jr_amount = int_str (hd_amount entry), jr_nonce = int_str (hd_nonce entry),
      jr_decision = decision_row_of (hd_decision entry), jr_reason = watcher_reasonText (hd_reason entry),
      jr_reason_code = Some (hd_reason entry),
      jr_signature = (case hd_signature entry of Some s \<Rightarrow> Some (if s \<noteq> [] then s else RECOVERED_SIGNATURE)
                      | None \<Rightarrow> Some RECOVERED_SIGNATURE),
      jr_suggested_override = (if hd_suggestedOverride entry = 0 then None else Some (int_str (hd_suggestedOverride entry))),
      jr_fx = None\<rparr>"

fun repairJournalFromChain :: "(int \<Rightarrow> string) \<Rightarrow> JournalRow list \<Rightarrow> ChainDecision list \<Rightarrow> JournalRow list \<times> nat" where
  "repairJournalFromChain toIso rows [] = (rows, 0)"
| "repairJournalFromChain toIso rows (entry # entries) =
     (if hasNonce rows (hd_nonce entry) then repairJournalFromChain toIso rows entries
      else
        let (rows', n) = repairJournalFromChain toIso (rows @ [chainDecisionToRow toIso entry]) entries
        in (rows', n + 1))"


section \<open>Nonces of slots\<close>

lemma js_rem_quarter: "js_rem (js_rem ms QUARTER_MS + QUARTER_MS) QUARTER_MS = ms mod QUARTER_MS"
proof (cases "ms \<ge> 0")
  case True
  have "0 \<le> ms mod QUARTER_MS + QUARTER_MS" using pos_mod_sign [of QUARTER_MS ms] by (simp add: QUARTER_MS_def)
  then show ?thesis using True by (simp add: js_rem_def)
next
  case False
  have "0 \<le> - ((- ms) mod QUARTER_MS) + QUARTER_MS" using pos_mod_bound [of QUARTER_MS "- ms"] by (simp add: QUARTER_MS_def)
  then have "js_rem (js_rem ms QUARTER_MS + QUARTER_MS) QUARTER_MS = (- ((- ms) mod QUARTER_MS) + QUARTER_MS) mod QUARTER_MS"
    using False by (simp add: js_rem_def)
  also have "\<dots> = (- ((- ms) mod QUARTER_MS)) mod QUARTER_MS" by (rule mod_add_self2)
  also have "\<dots> = ms mod QUARTER_MS" using mod_minus_eq [of "- ms" QUARTER_MS] by simp
  finally show ?thesis .
qed

lemma slot_start: "ms - ms mod QUARTER_MS = 900000 * (ms div 900000)"
  by (simp add: QUARTER_MS_def minus_mod_eq_mult_div)

lemma nonceFromSlot_neg:
  "ms < 0 \<Longrightarrow> nonceFromSlot dateParse toIso ms = Inl (plainError (''nonce.nonceFromSlot: instant before epoch: '' @ toIso ms))"
proof -
  assume "ms < 0"
  then have "ms div 900000 < 0" by (simp add: neg_imp_zdiv_neg_iff)
  then show ?thesis unfolding nonceFromSlot_def Let_def js_rem_quarter slot_start by simp
qed

lemma nonceFromSlot_pos:
  assumes "\<And>t. 0 \<le> t \<Longrightarrow> dateParse (toIso t) = Some t" "0 \<le> ms"
  shows "nonceFromSlot dateParse toIso ms = Inr (900 * (ms div 900000))"
proof -
  have pos: "0 \<le> ms div 900000" using assms(2) by (simp add: pos_imp_zdiv_nonneg_iff)
  have "(900000 * (ms div 900000)) div 1000 = 900 * (ms div 900000)" by simp
  then show ?thesis
    using assms(1) [of "900000 * (ms div 900000)"] pos
    unfolding nonceFromSlot_def Let_def js_rem_quarter slot_start nonceFromWindowStart_def by simp
qed

section \<open>The repaired journal\<close>

lemma hasNonce_append: "hasNonce (xs @ ys) n \<longleftrightarrow> hasNonce xs n \<or> hasNonce ys n"
  by (simp add: hasNonce_def)

lemma chain_row_nonce: "jr_nonce (chainDecisionToRow toIso d) = int_str (hd_nonce d)" "jr_decision (chainDecisionToRow toIso d) \<in> TERMINAL"
  by (simp_all add: chainDecisionToRow_def decision_row_of_def TERMINAL_def split: charge_decision.splits)

lemma hasNonce_chain_row [simp]: "hasNonce [chainDecisionToRow toIso d] (hd_nonce d)"
  by (simp add: hasNonce_def chain_row_nonce)

lemma repair_appends:
  "repairJournalFromChain toIso rows ds = (rows', n) \<Longrightarrow>
   \<exists>new. rows' = rows @ new \<and> length new = n \<and> distinct (map jr_nonce new) \<and>
     (\<forall>row \<in> set new. \<exists>d \<in> set ds. row = chainDecisionToRow toIso d \<and> \<not> hasNonce rows (hd_nonce d))"
proof (induction ds arbitrary: rows n)
  case (Cons d ds)
  show ?case
  proof (cases "hasNonce rows (hd_nonce d)")
    case True
    then show ?thesis using Cons.IH [of rows n] Cons.prems by fastforce
  next
    case False
    let ?row = "chainDecisionToRow toIso d"
    obtain m where m: "repairJournalFromChain toIso (rows @ [?row]) ds = (rows', m)" "n = m + 1"
      using Cons.prems False by (auto split: prod.splits)
    obtain new where new: "rows' = (rows @ [?row]) @ new" "length new = m" "distinct (map jr_nonce new)"
        "\<forall>row \<in> set new. \<exists>e \<in> set ds. row = chainDecisionToRow toIso e \<and> \<not> hasNonce (rows @ [?row]) (hd_nonce e)"
      using Cons.IH [OF m(1)] by blast
    have "jr_nonce ?row \<noteq> jr_nonce row" if row: "row \<in> set new" for row
    proof -
      obtain e where "row = chainDecisionToRow toIso e" "\<not> hasNonce [?row] (hd_nonce e)"
        using new(4) row by (auto simp: hasNonce_append)
      then show ?thesis by (auto simp: hasNonce_def chain_row_nonce)
    qed
    then have "distinct (map jr_nonce (?row # new))" using new(3) by auto
    moreover have "\<forall>row \<in> set (?row # new). \<exists>e \<in> set (d # ds). row = chainDecisionToRow toIso e \<and> \<not> hasNonce rows (hd_nonce e)"
      using new(4) False by (auto simp: hasNonce_append)
    ultimately show ?thesis using new(1,2) m(2) by (intro exI [of _ "?row # new"]) simp
  qed
qed simp

lemma repair_fills:
  "repairJournalFromChain toIso rows ds = (rows', n) \<Longrightarrow> d \<in> set ds \<Longrightarrow> hasNonce rows' (hd_nonce d)"
proof (induction ds arbitrary: rows n)
  case (Cons e ds)
  have grows: "hasNonce rows' k" if "repairJournalFromChain toIso rs es = (rows', j)" "hasNonce rs k" for rs es j k
    using repair_appends [OF that(1)] that(2) by (auto simp: hasNonce_append)
  show ?case
  proof (cases "hasNonce rows (hd_nonce e)")
    case True
    then have "repairJournalFromChain toIso rows ds = (rows', n)" using Cons.prems(1) by simp
    then show ?thesis using Cons.IH Cons.prems(2) grows True by auto
  next
    case False
    obtain m where m: "repairJournalFromChain toIso (rows @ [chainDecisionToRow toIso e]) ds = (rows', m)"
      using Cons.prems(1) False by (auto split: prod.splits)
    then show ?thesis using Cons.IH [OF m] Cons.prems(2) grows [OF m, of "hd_nonce e"] by (auto simp: hasNonce_append)
  qed
qed simp

lemma repair_nothing: "(\<forall>d \<in> set ds. hasNonce rows (hd_nonce d)) \<Longrightarrow> repairJournalFromChain toIso rows ds = (rows, 0)"
  by (induction ds) simp_all

section \<open>The repair list\<close>

definition keyed :: "(int \<times> ChainDecision) list \<Rightarrow> bool" where
  "keyed m \<longleftrightarrow> distinct (map fst m) \<and> (\<forall>p \<in> set m. fst p = hd_nonce (snd p))"

lemma keyed_update: "keyed m \<Longrightarrow> keyed (AList.update (hd_nonce r) r m)"
proof -
  assume k: "keyed m"
  have "fst p = hd_nonce (snd p)" if "p \<in> set (AList.update (hd_nonce r) r m)" for p
    using k that unfolding keyed_def by (induction m) (auto split: if_splits)
  then show ?thesis using k by (simp add: keyed_def distinct_update)
qed

lemma keyed_foldl:
  "keyed m \<Longrightarrow> keyed (foldl (\<lambda>m row. AList.update (hd_nonce row) row m) m rs) \<and>
     fst ` set (foldl (\<lambda>m row. AList.update (hd_nonce row) row m) m rs) = fst ` set m \<union> hd_nonce ` set rs"
  by (induction rs arbitrary: m) (auto simp: keyed_update dom_update)

lemma merge_nonces:
  "sorted (map hd_nonce (mergeChainDecisions ring walked))" "distinct (map hd_nonce (mergeChainDecisions ring walked))"
  "hd_nonce ` set (mergeChainDecisions ring walked) = hd_nonce ` (set ring \<union> set walked)"
proof -
  define m where "m = foldl (\<lambda>m row. AList.update (hd_nonce row) row m) [] (ring @ walked)"
  have all: "keyed m \<and> fst ` set m = fst ` set ([] :: (int \<times> ChainDecision) list) \<union> hd_nonce ` set (ring @ walked)"
    unfolding m_def by (rule keyed_foldl) (simp add: keyed_def)
  have merged: "mergeChainDecisions ring walked = sort_key hd_nonce (map snd m)"
    unfolding mergeChainDecisions_def m_def ..
  have same: "map hd_nonce (map snd m) = map fst m" using all by (simp add: keyed_def)
  have dist: "distinct (map hd_nonce (map snd m))" unfolding same using all by (simp add: keyed_def)
  show "sorted (map hd_nonce (mergeChainDecisions ring walked))" unfolding merged by simp
  have "distinct (map snd m) \<and> inj_on hd_nonce (set (map snd m))" using dist unfolding distinct_map by simp
  then show "distinct (map hd_nonce (mergeChainDecisions ring walked))"
    unfolding merged distinct_map [of hd_nonce] set_sort distinct_sort .
  have "hd_nonce ` set (map snd m) = set (map fst m)" unfolding same [symmetric] by (rule set_map [symmetric])
  then show "hd_nonce ` set (mergeChainDecisions ring walked) = hd_nonce ` (set ring \<union> set walked)"
    unfolding merged set_sort using all by (simp add: image_Un)
qed

lemma fetch_covers:
  assumes "fetchChainDecisions (Some data) account history programId held = Inr ds" "decodeLedgerDecisions data account = Inr ring"
  shows "hd_nonce ` set ring \<subseteq> hd_nonce ` set ds"
proof -
  obtain walked where "ds = mergeChainDecisions ring walked"
    using assms by (auto simp: fetchChainDecisions_def Let_def split: option.splits prod.splits if_splits)
  then show ?thesis using merge_nonces(3) [of ring walked] by auto
qed

text \<open>C30: after a repair the journal knows every decision of the ring. Whatever the history calls answer or
  throw, when the repair list was read and the journal repaired from it, every payment and refusal of
  the ring has a row that settles its nonce; the old rows are kept and only appended to, each appended row
  is a listed decision the journal did not hold, no nonce is appended twice, the count is the number of
  appended rows, and repairing again appends nothing.\<close>

theorem repaired_journal_covers_ring:
  assumes "fetchChainDecisions (Some data) account history programId held = Inr ds" "decodeLedgerDecisions data account = Inr ring"
    and "repairJournalFromChain toIso rows ds = (rows', n)"
  shows "(\<forall>r \<in> set ring. hasNonce rows' (hd_nonce r)) \<and>
    (\<exists>new. rows' = rows @ new \<and> length new = n \<and> distinct (map jr_nonce new) \<and>
       (\<forall>row \<in> set new. \<exists>d \<in> set ds. row = chainDecisionToRow toIso d \<and> \<not> hasNonce rows (hd_nonce d))) \<and>
    repairJournalFromChain toIso rows' ds = (rows', 0)"
proof (intro conjI ballI)
  fix r assume "r \<in> set ring"
  then obtain d where "d \<in> set ds" "hd_nonce d = hd_nonce r" using fetch_covers [OF assms(1,2)] by auto
  then show "hasNonce rows' (hd_nonce r)" using repair_fills [OF assms(3), of d] by simp
next
  show "repairJournalFromChain toIso rows' ds = (rows', 0)" using repair_nothing repair_fills [OF assms(3)] by blast
qed (rule repair_appends [OF assms(3)])

theorem repaired_journal_covers_ring_witness:
  "\<exists>ds. fetchChainDecisions (Some (ledger_image demo_ledger)) ''L'' None (0 :: nat) None = Inr ds \<and>
     hasNonce (fst (repairJournalFromChain int_str [] ds)) 5"
proof -
  have nonces: "en_nonce (charge_entry demo_acc1 50 5 1) = 5" "en_nonce (charge_entry demo_acc3 50 5 3) = 5"
    by (simp_all add: charge_entry_def Let_def)
  obtain ring where ring: "decodeLedgerDecisions (ledger_image demo_ledger) ''L'' = Inr ring" "hd_nonce ` set ring = {5}"
    using decodeLedgerDecisions_image [OF demo_reach, folded demo_ledger_def, OF demo_ledger_wf, of "[]" "''L''"] nonces
    by (simp add: demo_history_def demo_entry_kinds kind_defs decision_of_def opened_entry_def override_entry_def)
  obtain r where r: "r \<in> set ring" "hd_nonce r = 5" using ring(2) by (metis imageE singletonI)
  have ds: "fetchChainDecisions (Some (ledger_image demo_ledger)) ''L'' None (0 :: nat) None = Inr (mergeChainDecisions ring [])"
    by (simp add: fetchChainDecisions_def ring(1))
  show ?thesis
    using repaired_journal_covers_ring [OF ds ring(1), of int_str "[]" "fst (repairJournalFromChain int_str [] (mergeChainDecisions ring []))"] r ds
    by (auto simp: prod_eq_iff)
qed

end
