(* ===== verification/Watch_Fx.thy ===== *)
theory Watch_Fx
  imports Watch_Repair Money
begin

text \<open>
  Prices and exchange rates as the watcher reads them: the expansion of scientific notation
  (\<^verbatim>\<open>watcher/src/feed.ts\<close>, \<open>plainDecimal\<close>), the ECB reference document and its calendar
  (\<^verbatim>\<open>watcher/src/fx.ts\<close>). \<open>stockholmYmd\<close> is the platform's calendar in the zone of Stockholm, given as
  the three texts of a date. The downloads are answers that are given.
\<close>

section \<open>Plain decimals\<close>

text \<open>\<open>/^([+-]?)(\d+)(?:\.(\d+))?[eE]([+-]?\d+)$/\<close>: sign, whole digits, fraction digits and exponent.\<close>

definition signed_digits :: "string \<Rightarrow> int option" where
  "signed_digits s =
     (let body = (if s \<noteq> [] \<and> (hd s = CHR ''+'' \<or> hd s = CHR ''-'') then tl s else s) in
      if body = [] \<or> \<not> all_digits body then None
      else Some (if hd s = CHR ''-'' then - int (str_val body) else int (str_val body)))"

definition fraction_at :: "string \<Rightarrow> string \<times> string" where
  "fraction_at s =
     (if s \<noteq> [] \<and> hd s = CHR ''.'' \<and> takeWhile is_digit (tl s) \<noteq> []
      then (takeWhile is_digit (tl s), dropWhile is_digit (tl s)) else ([], s))"

definition scientific :: "string \<Rightarrow> (bool \<times> string \<times> string \<times> int) option" where
  "scientific t =
     (let signed = t \<noteq> [] \<and> (hd t = CHR ''+'' \<or> hd t = CHR ''-'');
          body = (if signed then tl t else t);
          intPart = takeWhile is_digit body;
          (fracPart, rest) = fraction_at (dropWhile is_digit body)
      in if intPart = [] \<or> rest = [] then None
         else if hd rest = CHR ''e'' \<or> hd rest = CHR ''E''
           then map_option (\<lambda>e. (signed \<and> hd t = CHR ''-'', intPart, fracPart, e)) (signed_digits (tl rest))
         else None)"

text \<open>An exponent so large that the text cannot be built throws in JavaScript; texts here have no bound.\<close>

definition plainDecimal :: "string \<Rightarrow> string" where
  "plainDecimal raw =
     (let t = trim raw in
      case scientific t of
        None \<Rightarrow> t
      | Some (negative, intPart, fracPart, e) \<Rightarrow>
          let digits = intPart @ fracPart; pointAt = int (length intPart) + e;
              out = (if pointAt \<le> 0 then ''0.'' @ replicate (nat (- pointAt)) (CHR ''0'') @ digits
                     else if pointAt \<ge> int (length digits)
                       then digits @ replicate (nat (pointAt - int (length digits))) (CHR ''0'')
                     else take (nat pointAt) digits @ CHR ''.'' # drop (nat pointAt) digits)
          in (if negative then [CHR ''-''] else []) @ out)"

definition sekPerKwhToScaled :: "string \<Rightarrow> int result" where
  "sekPerKwhToScaled sekPerKwh = parseDecimalToScaled (plainDecimal sekPerKwh) PRICE_SCALE"

section \<open>The calendar\<close>

definition FX_RATE_SCALE :: nat where "FX_RATE_SCALE = 6"
definition FX_MAX_CALENDAR_DAYS :: int where "FX_MAX_CALENDAR_DAYS = 4"
definition ECB_FX_URL :: string where "ECB_FX_URL = ''https://www.ecb.europa.eu/stats/eurofxref/eurofxref-daily.xml''"

record Ymd =
  ymd_y :: int
  ymd_m :: int
  ymd_d :: int

definition fx_digits :: "string \<Rightarrow> int" where
  "fx_digits s = foldl (\<lambda>n c. n * 10 + (int (of_char c) - 48)) 0 s"

definition js_div :: "int \<Rightarrow> int \<Rightarrow> int" where
  "js_div n d = (n - js_rem n d) div d"

definition isLeap :: "int \<Rightarrow> bool" where
  "isLeap y = (if js_rem y 400 = 0 then True else if js_rem y 100 = 0 then False else js_rem y 4 = 0)"

definition daysInMonth :: "int \<Rightarrow> int \<Rightarrow> int" where
  "daysInMonth y m =
     (if m = 2 then (if isLeap y then 29 else 28) else if m = 4 \<or> m = 6 \<or> m = 9 \<or> m = 11 then 30 else 31)"

definition parseCalendarDate :: "string \<Rightarrow> Ymd option" where
  "parseCalendarDate ymd =
     (if length ymd = 10 \<and> all_digits (take 4 ymd) \<and> ymd ! 4 = CHR ''-'' \<and> all_digits (take 2 (drop 5 ymd)) \<and>
         ymd ! 7 = CHR ''-'' \<and> all_digits (drop 8 ymd)
      then
        let y = fx_digits (take 4 ymd); month = fx_digits (take 2 (drop 5 ymd)); d = fx_digits (drop 8 ymd) in
        if month < 1 \<or> month > 12 then None
        else if d < 1 \<or> d > daysInMonth y month then None
        else Some \<lparr>ymd_y = y, ymd_m = month, ymd_d = d\<rparr>
      else None)"

definition julianDay :: "int \<Rightarrow> int \<Rightarrow> int \<Rightarrow> int" where
  "julianDay y m d =
     (let a = js_div (14 - m) 12; yy = y + 4800 - a; mm = m + 12 * a - 3
      in d + js_div (153 * mm + 2) 5 + 365 * yy + js_div yy 4 - js_div yy 100 + js_div yy 400 - 32045)"

definition calendarDaysBetween :: "string \<Rightarrow> string \<Rightarrow> int option" where
  "calendarDaysBetween earlierYmd laterYmd =
     (case (parseCalendarDate earlierYmd, parseCalendarDate laterYmd) of
        (Some earlier, Some later) \<Rightarrow>
          Some (julianDay (ymd_y later) (ymd_m later) (ymd_d later) - julianDay (ymd_y earlier) (ymd_m earlier) (ymd_d earlier))
      | _ \<Rightarrow> None)"

definition fxFixingIsFresh :: "(int \<Rightarrow> string \<times> string \<times> string) \<Rightarrow> string \<Rightarrow> int \<Rightarrow> bool" where
  "fxFixingIsFresh stockholmYmd fixingDate slot =
     (case stockholmYmd slot of (yyyy, mm, dd) \<Rightarrow>
        (case calendarDaysBetween fixingDate (yyyy @ ''-'' @ mm @ ''-'' @ dd) of
           None \<Rightarrow> False
         | Some age \<Rightarrow> age \<ge> 0 \<and> age \<le> FX_MAX_CALENDAR_DAYS))"

section \<open>The reference document\<close>

datatype FxFailureKind = unreachable | http_error | malformed | missing_currency

record FxQuote =
  fq_usd :: int
  fq_sek :: int
  fq_fixingDate :: string
  fq_sourceUrl :: string

text \<open>\<open>Inl\<close> is a failure with its kind, address and HTTP status.\<close>

type_synonym FxRead = "(FxFailureKind \<times> string \<times> int option) + FxQuote"

definition name_start :: "char \<Rightarrow> bool" where
  "name_start c \<longleftrightarrow> word_char c \<and> \<not> is_digit c \<or> c = CHR '':''"

definition name_char :: "char \<Rightarrow> bool" where
  "name_char c \<longleftrightarrow> word_char c \<or> c = CHR '':'' \<or> c = CHR ''.'' \<or> c = CHR ''-''"

text \<open>
  \<open>/([A-Za-z_:][\w:.-]*)\s*=\s*(?:'([^']*)'|"([^"]*)")/\<close> at a place: the name, the value and how much
  it takes. A shorter name never helps, since a name is followed by no name character.
\<close>

definition attribute_at :: "string \<Rightarrow> (string \<times> string \<times> nat) option" where
  "attribute_at s =
     (if s = [] \<or> \<not> name_start (hd s) then None
      else
        let name = takeWhile name_char s; r = dropWhile is_space (dropWhile name_char s) in
        if r = [] \<or> hd r \<noteq> CHR ''='' then None
        else
          let v = dropWhile is_space (tl r) in
          if v = [] \<or> (hd v \<noteq> CHR 0x27 \<and> hd v \<noteq> CHR 0x22) then None
          else
            let content = takeWhile (\<lambda>c. c \<noteq> hd v) (tl v); after = dropWhile (\<lambda>c. c \<noteq> hd v) (tl v) in
            if after = [] then None else Some (name, content, length s - length after + 1))"

fun attributes_from :: "nat \<Rightarrow> string \<Rightarrow> (string \<times> string) list" where
  "attributes_from skip [] = []"
| "attributes_from (Suc skip) (c # cs) = attributes_from skip cs"
| "attributes_from 0 (c # cs) =
     (case attribute_at (c # cs) of
        None \<Rightarrow> attributes_from 0 cs
      | Some (name, content, n) \<Rightarrow> (name, content) # attributes_from (n - 1) cs)"

text \<open>A \<open>Map\<close>: the last value of a name counts.\<close>

definition attributeMap :: "string \<Rightarrow> string \<Rightarrow> string option" where
  "attributeMap body = map_of (rev (attributes_from 0 body))"

text \<open>\<open>/<Cube\b([^>]*)>/gi\<close> at a place: the text before the closing angle bracket.\<close>

definition cube_at :: "string \<Rightarrow> string option" where
  "cube_at s =
     (if \<not> starts_with ''<cube'' (map lower (take 5 s)) then None
      else
        let r = drop 5 s in
        if r = [] \<or> word_char (hd r) \<or> CHR ''>'' \<notin> set r then None
        else Some (takeWhile (\<lambda>c. c \<noteq> CHR ''>'') r))"

fun cubes_from :: "nat \<Rightarrow> string \<Rightarrow> string list" where
  "cubes_from skip [] = []"
| "cubes_from (Suc skip) (c # cs) = cubes_from skip cs"
| "cubes_from 0 (c # cs) =
     (case cube_at (c # cs) of
        None \<Rightarrow> cubes_from 0 cs
      | Some body \<Rightarrow> body # cubes_from (length body + 5) cs)"

definition cubeTags :: "string \<Rightarrow> (string \<Rightarrow> string option) list" where
  "cubeTags xml = map attributeMap (cubes_from 0 xml)"

datatype rate_text = rate_missing | rate_bad | rate_is string

fun rate_from :: "string option \<Rightarrow> (string \<Rightarrow> string option) list \<Rightarrow> string \<Rightarrow> rate_text" where
  "rate_from found [] currency = (case found of None \<Rightarrow> rate_missing | Some r \<Rightarrow> rate_is r)"
| "rate_from found (tag # tags) currency =
     (if tag ''currency'' \<noteq> Some currency then rate_from found tags currency
      else case tag ''rate'' of
          None \<Rightarrow> rate_bad
        | Some rate \<Rightarrow>
            if rate = [] then rate_bad
            else if found \<noteq> None \<and> found \<noteq> Some rate then rate_bad
            else rate_from (Some rate) tags currency)"

definition currencyRate :: "(string \<Rightarrow> string option) list \<Rightarrow> string \<Rightarrow> rate_text" where
  "currencyRate tags currency = rate_from None tags currency"

definition scaledRate :: "string \<Rightarrow> int option" where
  "scaledRate raw =
     (case parseDecimalToScaled raw FX_RATE_SCALE of
        Inl _ \<Rightarrow> None
      | Inr scaled \<Rightarrow> if scaled \<le> 0 then None else Some scaled)"

definition parseEcbDailyXml :: "string \<Rightarrow> string \<Rightarrow> FxRead" where
  "parseEcbDailyXml xml sourceUrl =
     (let tags = cubeTags xml;
          dates = remdups (List.map_filter (\<lambda>tag. tag ''time'') tags);
          bad = Inl (malformed, sourceUrl, None)
      in if length dates \<noteq> 1 then bad
         else if parseCalendarDate (hd dates) = None then bad
         else
           let usdRaw = currencyRate tags ''USD''; sekRaw = currencyRate tags ''SEK'' in
           if usdRaw = rate_bad \<or> sekRaw = rate_bad then bad
           else (case (usdRaw, sekRaw) of
              (rate_is usd, rate_is sek) \<Rightarrow>
                (case (scaledRate usd, scaledRate sek) of
                   (Some u, Some k) \<Rightarrow> Inr \<lparr>fq_usd = u, fq_sek = k, fq_fixingDate = hd dates, fq_sourceUrl = sourceUrl\<rparr>
                 | _ \<Rightarrow> bad)
            | _ \<Rightarrow> Inl (missing_currency, sourceUrl, None)))"

text \<open>The answer of the download: whether it succeeded, its status and its text, each of which may throw.\<close>

definition EcbFxFeed_read :: "js_exn + (bool \<times> int \<times> (js_exn + string)) \<Rightarrow> FxRead" where
  "EcbFxFeed_read fetched =
     (case fetched of
        Inl _ \<Rightarrow> Inl (unreachable, ECB_FX_URL, None)
      | Inr (succeeded, status, body) \<Rightarrow>
          if \<not> succeeded then Inl (http_error, ECB_FX_URL, Some status)
          else (case body of Inl _ \<Rightarrow> Inl (unreachable, ECB_FX_URL, None) | Inr xml \<Rightarrow> parseEcbDailyXml xml ECB_FX_URL))"

definition readFxOrUnreachable :: "(int \<Rightarrow> 'w \<Rightarrow> (js_exn + FxRead) \<times> 'w) option \<Rightarrow> int \<Rightarrow> 'w \<Rightarrow> FxRead \<times> 'w" where
  "readFxOrUnreachable fx at w =
     (case fx of
        None \<Rightarrow> (Inl (unreachable, ECB_FX_URL, None), w)
      | Some read \<Rightarrow>
          (case read at w of
             (Inr quote, w') \<Rightarrow> (quote, w')
           | (Inl _, w') \<Rightarrow> (Inl (unreachable, ECB_FX_URL, None), w')))"

section \<open>Prices in scientific notation\<close>

text \<open>A number of units times a power of ten, rounded down.\<close>

definition shifted :: "nat \<Rightarrow> int \<Rightarrow> int" where
  "shifted n k = (if 0 \<le> k then int n * 10 ^ nat k else int n div 10 ^ nat (- k))"

definition sign_of :: "bool \<Rightarrow> int" where
  "sign_of negative = (if negative then - 1 else 1)"

lemma truncated_digits:
  assumes "all_digits b"
  shows "int (str_val a * 10 ^ scale + str_val (if length b > scale then take scale b else padEnd scale (CHR ''0'') b)) =
    shifted (str_val (a @ b)) (int scale - int (length b))"
proof (cases "length b > scale")
  case True
  have b: "a @ b = (a @ take scale b) @ drop scale b" by simp
  have "all_digits (drop scale b)" using assms by (auto simp: all_digits_def list_all_iff dest: in_set_dropD)
  then have small: "str_val (drop scale b) < 10 ^ (length b - scale)" using str_val_less [of "drop scale b"] by simp
  have "str_val (a @ b) = str_val (a @ take scale b) * 10 ^ (length b - scale) + str_val (drop scale b)"
    unfolding b str_val_append [of "a @ take scale b"] by simp
  then have "str_val (a @ b) div 10 ^ (length b - scale) = str_val (a @ take scale b)" using small by simp
  moreover have "str_val (a @ take scale b) = str_val a * 10 ^ scale + str_val (take scale b)"
    using True by (simp add: str_val_append)
  moreover have "nat (- (int scale - int (length b))) = length b - scale" "\<not> 0 \<le> int scale - int (length b)" using True by simp_all
  moreover have "int (str_val (a @ b)) div 10 ^ (length b - scale) = int (str_val (a @ b) div 10 ^ (length b - scale))"
    by (simp add: zdiv_int)
  ultimately show ?thesis using True unfolding shifted_def by simp
next
  case False
  then have k: "nat (int scale - int (length b)) = scale - length b" "0 \<le> int scale - int (length b)" by simp_all
  have "str_val (padEnd scale (CHR ''0'') b) = str_val b * 10 ^ (scale - length b)" by (simp add: padEnd_def str_val_append)
  moreover have "(10 :: nat) ^ scale = 10 ^ length b * 10 ^ (scale - length b)" using False by (simp flip: power_add)
  ultimately show ?thesis using False k unfolding shifted_def by (simp add: str_val_append algebra_simps)
qed

lemma digits_no_mark:
  assumes "all_digits s"
  shows "CHR ''.'' \<notin> set s" "CHR ''e'' \<notin> set s" "CHR ''E'' \<notin> set s"
  using assms by (auto simp: all_digits_def list_all_iff is_digit_def)

lemma digits_hd: "all_digits s \<Longrightarrow> s \<noteq> [] \<Longrightarrow> is_digit (hd s)"
  by (simp add: all_digits_def list_all_iff)

lemma digits_last: "all_digits s \<Longrightarrow> s \<noteq> [] \<Longrightarrow> is_digit (last s)"
  by (simp add: all_digits_def list_all_iff)

lemma signed_trim:
  assumes "s \<noteq> []" "is_digit (hd s)" "\<not> is_space (last s)"
  shows "trim (sign_text neg @ s) = sign_text neg @ s"
  using assms by (intro trim_id) (auto simp: sign_text_def is_space_def [of "CHR ''-''"] dest: is_digit_not_special)

lemma signed_body:
  assumes "s \<noteq> []" "is_digit (hd s)"
  shows "starts_minus (sign_text neg @ s) = neg"
    and "(if neg \<or> hd (sign_text neg @ s) = CHR ''+'' then tl (sign_text neg @ s) else sign_text neg @ s) = s"
  using assms is_digit_not_special(2,3) [OF assms(2)]
  by (cases s; auto simp: sign_text_def starts_minus_def)+

text \<open>The strict parser on plain text: it scales the digits, rounding down.\<close>

lemma parse_plain_decimal:
  assumes "all_digits a" "a \<noteq> []" "all_digits b"
  shows "parseDecimalToScaled (sign_text neg @ a @ CHR ''.'' # b) scale =
    Inr (sign_of neg * shifted (str_val (a @ b)) (int scale - int (length b)))"
proof -
  let ?s = "a @ CHR ''.'' # b"
  have last: "\<not> is_space (last ?s)"
    using is_digit_not_special(5) [OF digits_last [OF assms(3)]] by (cases "b = []") (simp_all add: is_space_def)
  have s: "?s \<noteq> []" "is_digit (hd ?s)" using assms digits_hd by simp_all
  have e: "CHR ''e'' \<notin> set (sign_text neg @ ?s)" "CHR ''E'' \<notin> set (sign_text neg @ ?s)"
    using digits_no_mark [OF assms(1)] digits_no_mark [OF assms(3)] by (simp_all add: sign_text_def)
  have parts: "split_on (CHR ''.'') ?s = [a, b]"
    using digits_no_mark(1) assms by (simp add: split_on_append split_on_notin)
  show ?thesis
    unfolding parseDecimalToScaled_def Let_def signed_trim [OF s last] signed_body [OF s]
    using e parts assms truncated_digits [OF assms(3), of a scale]
    by (cases "length b > scale") (simp_all add: whole_part_def frac_part_def sign_of_def)
qed

lemma parse_plain_whole:
  assumes "all_digits a" "a \<noteq> []"
  shows "parseDecimalToScaled (sign_text neg @ a) scale = Inr (sign_of neg * (int (str_val a) * 10 ^ scale))"
proof -
  have last: "\<not> is_space (last a)" using digits_last [OF assms] by (rule is_digit_not_special)
  have s: "a \<noteq> []" "is_digit (hd a)" using assms digits_hd by simp_all
  have e: "CHR ''e'' \<notin> set (sign_text neg @ a)" "CHR ''E'' \<notin> set (sign_text neg @ a)"
    using digits_no_mark [OF assms(1)] by (simp_all add: sign_text_def)
  have parts: "split_on (CHR ''.'') a = [a]" using digits_no_mark(1) assms by (simp add: split_on_notin)
  show ?thesis
    unfolding parseDecimalToScaled_def Let_def signed_trim [OF s last] signed_body [OF s]
    using e parts assms by (simp add: whole_part_def frac_part_def sign_of_def padEnd_def all_digits_def)
qed

section \<open>Reading scientific text\<close>

definition fraction_text :: "string \<Rightarrow> string" where
  "fraction_text f = (if f = [] then [] else CHR ''.'' # f)"

lemma takeWhile_digits: "all_digits s \<Longrightarrow> rest = [] \<or> \<not> is_digit (hd rest) \<Longrightarrow> takeWhile is_digit (s @ rest) = s"
  by (cases rest) (simp_all add: all_digits_def list_all_iff)

lemma dropWhile_digits: "all_digits s \<Longrightarrow> rest = [] \<or> \<not> is_digit (hd rest) \<Longrightarrow> dropWhile is_digit (s @ rest) = rest"
  by (cases rest) (simp_all add: all_digits_def list_all_iff dropWhile_append2)

lemma not_digit_marks [simp]: "\<not> is_digit (CHR ''.'')" "\<not> is_digit (CHR ''e'')" "\<not> is_digit (CHR ''-'')"
  by (simp_all add: is_digit_def)

lemma fraction_reads: "all_digits f \<Longrightarrow> fraction_at (fraction_text f @ CHR ''e'' # r) = (f, CHR ''e'' # r)"
  using takeWhile_digits [of f "CHR ''e'' # r"] dropWhile_digits [of f "CHR ''e'' # r"]
  by (simp add: fraction_at_def fraction_text_def)

lemma signed_digits_reads: "signed_digits (int_str e) = Some e"
proof -
  have d: "hd (nat_str n) \<noteq> CHR ''-''" "hd (nat_str n) \<noteq> CHR ''+''" for n
    using is_digit_not_special(2,3) [OF digits_hd [OF all_digits_nat_str nat_str_nonempty]] by auto
  show ?thesis using d by (simp add: signed_digits_def int_str_def Let_def)
qed

lemma scientific_reads:
  assumes "all_digits w" "w \<noteq> []" "all_digits f"
  shows "scientific (sign_text neg @ w @ fraction_text f @ CHR ''e'' # int_str e) = Some (neg, w, f, e)"
proof -
  let ?r = "fraction_text f @ CHR ''e'' # int_str e"
  have r: "?r = [] \<or> \<not> is_digit (hd ?r)" by (simp add: fraction_text_def)
  have h: "hd (w @ ?r) \<noteq> CHR ''+''" "hd (w @ ?r) \<noteq> CHR ''-''"
    using is_digit_not_special(2,3) [OF digits_hd [OF assms(1,2)]] assms(2) by simp_all
  have body: "takeWhile is_digit (w @ ?r) = w" "dropWhile is_digit (w @ ?r) = ?r"
    using takeWhile_digits [OF assms(1) r] dropWhile_digits [OF assms(1) r] by simp_all
  show ?thesis
    using h body fraction_reads [OF assms(3)] signed_digits_reads [of e] assms(2)
    by (cases neg) (simp_all add: scientific_def sign_text_def Let_def)
qed

lemma int_str_last: "is_digit (last (int_str e))"
  using digits_last [OF all_digits_nat_str nat_str_nonempty] by (simp add: int_str_def)

text \<open>A price in scientific notation is read exactly. Whatever the digits and the exponent, the text
  is read as its sign times the number its digits name, times ten to the exponent, in units of
  10^-8 rounded toward zero: no float comes in between.\<close>

theorem scientific_price_is_exact:
  assumes "all_digits w" "w \<noteq> []" "all_digits f"
  shows "sekPerKwhToScaled (sign_text neg @ w @ fraction_text f @ CHR ''e'' # int_str e) =
    Inr (sign_of neg * shifted (str_val (w @ f)) (e - int (length f) + 8))"
proof -
  define t where "t = w @ fraction_text f @ CHR ''e'' # int_str e"
  have t: "t \<noteq> []" "is_digit (hd t)" "\<not> is_space (last t)"
    using assms digits_hd is_digit_not_special(5) [OF int_str_last [of e]] by (simp_all add: t_def int_str_def)
  have sci: "scientific (sign_text neg @ t) = Some (neg, w, f, e)"
    unfolding t_def by (rule scientific_reads [OF assms])
  define p where "p = int (length w) + e"
  define d where "d = w @ f"
  have d: "all_digits d" "d \<noteq> []" "length d = length w + length f" using assms by (simp_all add: d_def)
  have read: "plainDecimal (sign_text neg @ t) = sign_text neg @
      (if p \<le> 0 then ''0.'' @ replicate (nat (- p)) (CHR ''0'') @ d
       else if p \<ge> int (length d) then d @ replicate (nat (p - int (length d))) (CHR ''0'')
       else take (nat p) d @ CHR ''.'' # drop (nat p) d)"
    unfolding plainDecimal_def signed_trim [OF t] Let_def sci by (simp add: p_def d_def sign_text_def)
  have "parseDecimalToScaled (plainDecimal (sign_text neg @ t)) 8 =
      Inr (sign_of neg * shifted (str_val d) (e - int (length f) + 8))"
  proof -
    consider (small) "p \<le> 0" | (large) "0 < p" "p \<ge> int (length d)" | (inside) "0 < p" "p < int (length d)" by linarith
    then show ?thesis
    proof cases
      case small
      define z where "z = replicate (nat (- p)) (CHR ''0'') @ d"
      have z: "all_digits z" "str_val (''0'' @ z) = str_val d" "e - int (length f) + 8 = int 8 - int (length z)"
        using d small str_val_append [of "''0''" z] by (simp_all add: z_def str_val_append p_def str_val_snoc [of "[]", simplified])
      have "plainDecimal (sign_text neg @ t) = sign_text neg @ ''0'' @ CHR ''.'' # z"
        using small unfolding read z_def by simp
      then show ?thesis
        using parse_plain_decimal [of "''0''" z neg 8] z(1,2) unfolding z(3) by (simp add: all_digits_def)
    next
      case large
      have "int (str_val (d @ replicate (nat (p - int (length d))) (CHR ''0''))) * 10 ^ 8 = shifted (str_val d) (e - int (length f) + 8)"
      proof -
        have n: "nat (e - int (length f) + 8) = nat (p - int (length d)) + 8" "0 \<le> e - int (length f) + 8"
          using large d(3) by (simp_all add: p_def)
        show ?thesis unfolding shifted_def n(1) using n(2) by (simp add: str_val_append power_add)
      qed
      then show ?thesis
        using parse_plain_whole [of "d @ replicate (nat (p - int (length d))) (CHR ''0'')" neg 8] d large
        unfolding read by simp
    next
      case inside
      have "all_digits (take (nat p) d)" "all_digits (drop (nat p) d)"
        using d(1) by (auto simp: all_digits_def list_all_iff dest: in_set_takeD in_set_dropD)
      moreover have "take (nat p) d \<noteq> []" using inside d by simp
      moreover have k: "e - int (length f) + 8 = int 8 - int (length (drop (nat p) d))" using inside d(3) by (simp add: p_def)
      ultimately show ?thesis
        using parse_plain_decimal [of "take (nat p) d" "drop (nat p) d" neg 8] inside unfolding read k by simp
    qed
  qed
  then show ?thesis by (simp add: sekPerKwhToScaled_def PRICE_SCALE_def t_def d_def)
qed


section \<open>Consecutive days\<close>

definition valid_day :: "Ymd \<Rightarrow> bool" where
  "valid_day t \<longleftrightarrow> 0 \<le> ymd_y t \<and> 1 \<le> ymd_m t \<and> ymd_m t \<le> 12 \<and> 1 \<le> ymd_d t \<and> ymd_d t \<le> daysInMonth (ymd_y t) (ymd_m t)"

definition next_day :: "Ymd \<Rightarrow> Ymd" where
  "next_day t =
     (if ymd_d t < daysInMonth (ymd_y t) (ymd_m t) then t\<lparr>ymd_d := ymd_d t + 1\<rparr>
      else if ymd_m t < 12 then t\<lparr>ymd_m := ymd_m t + 1, ymd_d := 1\<rparr>
      else \<lparr>ymd_y = ymd_y t + 1, ymd_m = 1, ymd_d = 1\<rparr>)"

definition day_number :: "Ymd \<Rightarrow> int" where
  "day_number t = julianDay (ymd_y t) (ymd_m t) (ymd_d t)"

definition leap_days :: "int \<Rightarrow> int" where
  "leap_days y = y div 4 - y div 100 + y div 400"

text \<open>Days of the year before a month.\<close>

definition days_before :: "int \<Rightarrow> int \<Rightarrow> int" where
  "days_before y m = [0, 31, 59, 90, 120, 151, 181, 212, 243, 273, 304, 334] ! nat (m - 1) + (if m > 2 \<and> isLeap y then 1 else 0)"

lemma month_cases:
  assumes "(1 :: int) \<le> m" "m \<le> 12"
  obtains "m = 1" | "m = 2" | "m = 3" | "m = 4" | "m = 5" | "m = 6" | "m = 7" | "m = 8" | "m = 9" | "m = 10" | "m = 11" | "m = 12"
proof -
  have "m = 1 \<or> m = 2 \<or> m = 3 \<or> m = 4 \<or> m = 5 \<or> m = 6 \<or> m = 7 \<or> m = 8 \<or> m = 9 \<or> m = 10 \<or> m = 11 \<or> m = 12"
    using assms by arith
  then show thesis using that by blast
qed

lemma isLeap_nonneg: "0 \<le> y \<Longrightarrow> isLeap y \<longleftrightarrow> y mod 400 = 0 \<or> y mod 100 \<noteq> 0 \<and> y mod 4 = 0"
  by (simp add: isLeap_def js_rem_def)

lemma div_step: "0 < k \<Longrightarrow> (y :: int) div k - (y - 1) div k = (if y mod k = 0 then 1 else 0)"
proof -
  assume k: "0 < k"
  show ?thesis
  proof (cases "y mod k = 0")
    case True
    then obtain q where q: "y = k * q" by (auto simp: mod_eq_0_iff_dvd)
    have "(k * q - 1) div k = q - 1"
      using k by (intro int_div_pos_eq [of _ _ _ "k - 1"]) (simp_all add: algebra_simps)
    then show ?thesis using q k by simp
  next
    case False
    have "y - 1 = k * (y div k) + (y mod k - 1)" by simp
    moreover have "0 \<le> y mod k - 1" "y mod k - 1 < k" using False k pos_mod_sign [of k y] pos_mod_bound [of k y] by linarith+
    ultimately have "(y - 1) div k = y div k" using int_div_pos_eq by blast
    then show ?thesis using False by simp
  qed
qed

lemma leap_days_step: "0 \<le> y \<Longrightarrow> leap_days y - leap_days (y - 1) = (if isLeap y then 1 else 0)"
proof -
  assume y: "0 \<le> y"
  have h: "y mod 100 = 0" if "y mod 400 = 0"
    using dvd_trans [of 100 400 y] that by (simp add: dvd_eq_mod_eq_0)
  have f: "y mod 4 = 0" if "y mod 100 = 0"
    using dvd_trans [of 4 100 y] that by (simp add: dvd_eq_mod_eq_0)
  have "leap_days y - leap_days (y - 1) =
      (if y mod 4 = 0 then 1 else 0) - (if y mod 100 = 0 then 1 else 0) + (if y mod 400 = 0 then 1 else 0)"
    unfolding div_step [of 4 y, simplified, symmetric] div_step [of 100 y, simplified, symmetric]
      div_step [of 400 y, simplified, symmetric] leap_days_def by linarith
  then show ?thesis unfolding isLeap_nonneg [OF y] using h f by presburger
qed

lemma leap_days_shift: "leap_days (y + 4800) = leap_days y + 1164"
proof -
  have "(y + 4 * 1200) div 4 = y div 4 + 1200" "(y + 100 * 48) div 100 = y div 100 + 48" "(y + 400 * 12) div 400 = y div 400 + 12"
    by (simp_all only: div_mult_self2 [of 4] div_mult_self2 [of 100] div_mult_self2 [of 400])
  then show ?thesis by (simp add: leap_days_def)
qed

lemma julian_form:
  assumes "0 \<le> y" "1 \<le> m" "m \<le> 12"
  shows "julianDay y m d = d + days_before y m + 365 * y + leap_days (y - 1) + 1721060"
proof -
  have early: "julianDay y m d = d + (153 * (m + 9) + 2) div 5 + 365 * (y + 4799) + leap_days (y + 4799) - 32045"
    if "m \<le> 2"
  proof -
    have "js_div (14 - m) 12 = 1" using that assms by (auto simp: js_div_def js_rem_def elim!: month_cases)
    then show ?thesis using that assms by (simp add: julianDay_def Let_def js_div_def js_rem_def minus_mod_eq_mult_div leap_days_def add.commute)
  qed
  have late: "julianDay y m d = d + (153 * (m - 3) + 2) div 5 + 365 * (y + 4800) + leap_days (y + 4800) - 32045"
    if "2 < m"
  proof -
    have "js_div (14 - m) 12 = 0" using that assms by (auto simp: js_div_def js_rem_def)
    then show ?thesis using that assms by (simp add: julianDay_def Let_def js_div_def js_rem_def minus_mod_eq_mult_div leap_days_def add.commute)
  qed
  have shift: "leap_days (y + 4799) = leap_days (y - 1) + 1164" using leap_days_shift [of "y - 1"] by (simp add: add.commute)
  show ?thesis
  proof (cases "m \<le> 2")
    case True
    then have "m = 1 \<or> m = 2" using assms by linarith
    then show ?thesis using early [OF True] shift by (auto simp: days_before_def)
  next
    case False
    have leap: "leap_days (y + 4800) = leap_days (y - 1) + 1164 + (if isLeap y then 1 else 0)"
      using leap_days_shift [of y] leap_days_step [OF assms(1)] by simp
    show ?thesis
      by (rule month_cases [OF assms(2,3)]) (use late leap False in \<open>simp_all add: days_before_def\<close>)
  qed
qed

lemma day_number_form:
  "valid_day t \<Longrightarrow> day_number t = ymd_d t + days_before (ymd_y t) (ymd_m t) + 365 * ymd_y t + leap_days (ymd_y t - 1) + 1721060"
  by (simp add: day_number_def valid_day_def julian_form)

lemma days_before_step:
  assumes "1 \<le> m" "m < 12"
  shows "days_before y (m + 1) = days_before y m + daysInMonth y m"
proof -
  have "m \<le> 12" using assms(2) by simp
  then show ?thesis
    by (rule month_cases [OF assms(1)]) (use assms(2) in \<open>simp_all add: days_before_def daysInMonth_def\<close>)
qed

lemma year_ends: "days_before y 12 + 31 = 365 + (if isLeap y then 1 else 0)" "days_before y 1 = 0" "daysInMonth y 12 = 31"
  by (simp_all add: days_before_def daysInMonth_def)

lemma next_day_number: "valid_day t \<Longrightarrow> valid_day (next_day t) \<and> day_number (next_day t) = day_number t + 1"
proof -
  assume t: "valid_day t"
  have positive: "1 \<le> daysInMonth y m" for y m by (simp add: daysInMonth_def)
  have valid: "valid_day (next_day t)" using t positive by (auto simp: valid_day_def next_day_def)
  consider (day) "ymd_d t < daysInMonth (ymd_y t) (ymd_m t)"
    | (month) "ymd_d t = daysInMonth (ymd_y t) (ymd_m t)" "ymd_m t < 12"
    | (year) "ymd_d t = daysInMonth (ymd_y t) (ymd_m t)" "ymd_m t = 12"
    using t by (fastforce simp: valid_day_def)
  then have "day_number (next_day t) = day_number t + 1"
  proof cases
    case month
    then show ?thesis
      using days_before_step [of "ymd_m t" "ymd_y t"] t valid
      unfolding day_number_form [OF t] day_number_form [OF valid] by (simp add: next_day_def valid_day_def)
  next
    case year
    have "0 \<le> ymd_y t" using t by (simp add: valid_day_def)
    then show ?thesis
      using leap_days_step [of "ymd_y t"] year_ends [of "ymd_y t"] year_ends(2) [of "ymd_y t + 1"] year t valid
      unfolding day_number_form [OF t] day_number_form [OF valid] by (simp add: next_day_def)
  qed (simp_all add: day_number_form [OF t] day_number_form [OF valid], simp add: next_day_def)
  with valid show ?thesis ..
qed

lemma days_later: "valid_day t \<Longrightarrow> valid_day ((next_day ^^ k) t) \<and> day_number ((next_day ^^ k) t) = day_number t + int k"
  by (induction k) (auto simp: next_day_number)

text \<open>Two days with the same number are the same day.\<close>

lemma days_before_mono:
  assumes "1 \<le> m" "m < n" "n \<le> 12"
  shows "days_before y m + daysInMonth y m \<le> days_before y n"
  using assms(2,3)
proof (induction n rule: int_gr_induct)
  case base
  then show ?case using days_before_step assms(1) by simp
next
  case (step n)
  have "days_before y (n + 1) = days_before y n + daysInMonth y n" using days_before_step [of n y] assms(1) step by simp
  moreover have "0 \<le> daysInMonth y n" by (simp add: daysInMonth_def)
  ultimately show ?case using step by simp
qed

definition year_start :: "int \<Rightarrow> int" where
  "year_start y = 365 * y + leap_days (y - 1)"

lemma year_start_step: "0 \<le> y \<Longrightarrow> year_start (y + 1) = year_start y + 365 + (if isLeap y then 1 else 0)"
  using leap_days_step [of y] by (simp add: year_start_def)

lemma year_start_mono:
  assumes "0 \<le> y" "y < z"
  shows "year_start (y + 1) \<le> year_start z"
  using assms(2)
proof (induction z rule: int_gr_induct)
  case (step z)
  then show ?case using year_start_step [of z] assms(1) by (simp split: if_splits)
qed simp

lemma day_in_year:
  assumes "valid_day t"
  shows "1 \<le> ymd_d t + days_before (ymd_y t) (ymd_m t)"
    and "ymd_d t + days_before (ymd_y t) (ymd_m t) \<le> 365 + (if isLeap (ymd_y t) then 1 else 0)"
proof -
  have m: "1 \<le> ymd_m t" "ymd_m t \<le> 12" and d: "1 \<le> ymd_d t" "ymd_d t \<le> daysInMonth (ymd_y t) (ymd_m t)"
    using assms by (simp_all add: valid_day_def)
  have "0 \<le> days_before (ymd_y t) (ymd_m t)" by (rule month_cases [OF m]) (simp_all add: days_before_def)
  then show "1 \<le> ymd_d t + days_before (ymd_y t) (ymd_m t)" using d by simp
  have "days_before (ymd_y t) (ymd_m t) + daysInMonth (ymd_y t) (ymd_m t) \<le> days_before (ymd_y t) 12 + 31"
    using days_before_mono [of "ymd_m t" 12 "ymd_y t"] year_ends [of "ymd_y t"] m by (cases "ymd_m t = 12") auto
  then show "ymd_d t + days_before (ymd_y t) (ymd_m t) \<le> 365 + (if isLeap (ymd_y t) then 1 else 0)"
    using d year_ends(1) [of "ymd_y t"] by linarith
qed

lemma earlier_number:
  assumes "valid_day s" "valid_day t" "ymd_y s < ymd_y t"
  shows "day_number s < day_number t"
proof -
  have "0 \<le> ymd_y s" using assms(1) by (simp add: valid_day_def)
  then show ?thesis
    using year_start_mono [OF _ assms(3)] year_start_step [of "ymd_y s"] day_in_year(2) [OF assms(1)] day_in_year(1) [OF assms(2)]
    unfolding day_number_form [OF assms(1)] day_number_form [OF assms(2)] year_start_def by linarith
qed

lemma earlier_month:
  assumes "valid_day s" "valid_day t" "ymd_y s = ymd_y t" "ymd_m s < ymd_m t"
  shows "day_number s < day_number t"
proof -
  have "days_before (ymd_y s) (ymd_m s) + daysInMonth (ymd_y s) (ymd_m s) \<le> days_before (ymd_y s) (ymd_m t)"
    using days_before_mono [of "ymd_m s" "ymd_m t" "ymd_y s"] assms by (simp add: valid_day_def)
  moreover have "ymd_d s \<le> daysInMonth (ymd_y s) (ymd_m s)" "1 \<le> ymd_d t" using assms(1,2) by (simp_all add: valid_day_def)
  ultimately show ?thesis
    unfolding day_number_form [OF assms(1)] day_number_form [OF assms(2)] assms(3) by simp
qed

lemma day_number_inj:
  assumes "valid_day s" "valid_day t" "day_number s = day_number t"
  shows "s = t"
proof -
  have y: "ymd_y s = ymd_y t"
    using earlier_number [OF assms(1,2)] earlier_number [OF assms(2,1)] assms(3) by linarith
  moreover have m: "ymd_m s = ymd_m t"
    using earlier_month [OF assms(1,2)] earlier_month [OF assms(2,1)] assms(3) y by linarith
  moreover have "ymd_d s = ymd_d t"
    using assms(3) unfolding day_number_form [OF assms(1)] day_number_form [OF assms(2)] y m by simp
  ultimately show ?thesis by simp
qed

lemma parsed_day_valid: "parseCalendarDate s = Some t \<Longrightarrow> valid_day t"
proof -
  have go: "0 \<le> n \<Longrightarrow> list_all is_digit s \<Longrightarrow> 0 \<le> foldl (\<lambda>n c. n * 10 + (int (of_char c) - 48)) n s" for n s
    by (induction s arbitrary: n) (auto simp: is_digit_def)
  assume "parseCalendarDate s = Some t"
  then show ?thesis
    using go [of 0 "take 4 s"]
    by (auto simp: parseCalendarDate_def valid_day_def Let_def fx_digits_def all_digits_def split: if_splits)
qed

lemma days_between_count:
  assumes "valid_day s" "valid_day t"
  shows "0 \<le> day_number t - day_number s \<and> day_number t - day_number s \<le> int n \<longleftrightarrow> (\<exists>k \<le> n. (next_day ^^ k) s = t)"
proof
  assume h: "0 \<le> day_number t - day_number s \<and> day_number t - day_number s \<le> int n"
  define k where "k = nat (day_number t - day_number s)"
  have "day_number ((next_day ^^ k) s) = day_number t" using days_later [OF assms(1), of k] h by (simp add: k_def)
  then have "(next_day ^^ k) s = t" using day_number_inj days_later [OF assms(1)] assms(2) by blast
  then show "\<exists>k \<le> n. (next_day ^^ k) s = t" using h by (intro exI [of _ k]) (simp add: k_def nat_le_iff)
next
  assume "\<exists>k \<le> n. (next_day ^^ k) s = t"
  then show "0 \<le> day_number t - day_number s \<and> day_number t - day_number s \<le> int n"
    using days_later [OF assms(1)] by auto
qed

text \<open>C35: a fixing is fresh exactly when counting on from its date for at most four days, over month ends
  and leap days, reaches the date of the slot in Stockholm. A fixing dated after the slot is not, nor is
  one more than four days old.\<close>

theorem fixing_is_fresh_within_four_days:
  assumes "parseCalendarDate fixingDate = Some f" "stockholmYmd slot = (yyyy, mm, dd)"
    and "parseCalendarDate (yyyy @ ''-'' @ mm @ ''-'' @ dd) = Some t"
  shows "fxFixingIsFresh stockholmYmd fixingDate slot \<longleftrightarrow> (\<exists>k \<le> 4. (next_day ^^ k) f = t)"
  using days_between_count [OF parsed_day_valid [OF assms(1)] parsed_day_valid [OF assms(3)], of 4] assms
  by (simp add: fxFixingIsFresh_def calendarDaysBetween_def FX_MAX_CALENDAR_DAYS_def day_number_def)

theorem fixing_is_fresh_within_four_days_witness:
  "fxFixingIsFresh (\<lambda>_. (''2028'', ''03'', ''02'')) ''2028-02-27'' 0 \<and> \<not> fxFixingIsFresh (\<lambda>_. (''2028'', ''03'', ''02'')) ''2028-02-26'' 0"
proof -
  have parse: "parseCalendarDate ''2028-02-27'' = Some \<lparr>ymd_y = 2028, ymd_m = 2, ymd_d = 27\<rparr>"
    "parseCalendarDate ''2028-02-26'' = Some \<lparr>ymd_y = 2028, ymd_m = 2, ymd_d = 26\<rparr>"
    "parseCalendarDate (''2028'' @ ''-'' @ ''03'' @ ''-'' @ ''02'') = Some \<lparr>ymd_y = 2028, ymd_m = 3, ymd_d = 2\<rparr>"
    by code_simp+
  have near: "(next_day ^^ 4) \<lparr>ymd_y = 2028, ymd_m = 2, ymd_d = 27\<rparr> = \<lparr>ymd_y = 2028, ymd_m = 3, ymd_d = 2\<rparr>" by code_simp
  have "list_all (\<lambda>k. (next_day ^^ k) \<lparr>ymd_y = 2028, ymd_m = 2, ymd_d = 26\<rparr> \<noteq> \<lparr>ymd_y = 2028, ymd_m = 3, ymd_d = 2\<rparr>) [0, 1, 2, 3, 4]"
    by code_simp
  moreover have "k \<in> set [0, 1, 2, 3, 4]" if "k \<le> 4" for k :: nat using that by auto
  ultimately have far: "\<not> (\<exists>k \<le> 4. (next_day ^^ k) \<lparr>ymd_y = 2028, ymd_m = 2, ymd_d = 26\<rparr> = \<lparr>ymd_y = 2028, ymd_m = 3, ymd_d = 2\<rparr>)"
    unfolding list_all_iff by blast
  show ?thesis
    using fixing_is_fresh_within_four_days [OF parse(1) _ parse(3), of "\<lambda>_. (''2028'', ''03'', ''02'')"]
      fixing_is_fresh_within_four_days [OF parse(2) _ parse(3), of "\<lambda>_. (''2028'', ''03'', ''02'')"] near far
    by blast
qed

end
