(* ===== verification/Watch_Run.thy ===== *)
theory Watch_Run
  imports Watch_Rpc Watch_Fx
begin

text \<open>
  The charging of one cadence slot (\<^verbatim>\<open>watcher/src/run.ts\<close>, \<open>processWindow\<close>). The feed, the chain reader,
  the submission and the exchange rates are calls that read and change a world \<open>'w\<close> and may throw;
  \<open>toIso\<close>, \<open>dateParse\<close>, \<open>parseUrl\<close> and \<open>stockholmYmd\<close> are the platform's. A step takes the state of the run
  to an error or a value with the state after it; \<open>None\<close> is not returning, which only the unbounded
  backoff can do. Log lines are output and are left out.
\<close>

section \<open>State and steps\<close>

record PriceWindow =
  pw_timeStart :: string
  pw_timeEnd :: string
  pw_sekPerKwh :: string

record 'w ChainReader =
  rd_chainLastNonce :: "'w \<Rightarrow> (js_exn + int) \<times> 'w"
  rd_recoverSettled :: "int \<Rightarrow> 'w \<Rightarrow> (js_exn + RecoveredCharge option) \<times> 'w"
  rd_recordedCharge :: "int \<Rightarrow> 'w \<Rightarrow> (js_exn + RecoveredCharge option) \<times> 'w"

record 'w platform =
  pf_parseUrl :: "string \<Rightarrow> JsUrl option"
  pf_dateParse :: "string \<Rightarrow> int option"
  pf_toIso :: "int \<Rightarrow> string"
  pf_now :: "'w \<Rightarrow> string"
  pf_stockholmYmd :: "int \<Rightarrow> string \<times> string \<times> string"

record 'w ProcessWindowArgs =
  pa_at :: int
  pa_getWindow :: "int \<Rightarrow> 'w \<Rightarrow> (js_exn + PriceWindow option) \<times> 'w"
  pa_submit :: "int \<Rightarrow> int \<Rightarrow> 'w \<Rightarrow> (js_exn + ChargeReceipt) \<times> 'w"
  pa_kwhMilli :: int
  pa_mintDecimals :: nat
  pa_feedAttempts :: "nat option"
  pa_feedRetryMs :: "int option"
  pa_quoteCurrency :: "SpotQuoteCurrency option"
  pa_fx :: "(int \<Rightarrow> 'w \<Rightarrow> (js_exn + FxRead) \<times> 'w) option"
  pa_reader :: "'w ChainReader option"

text \<open>The journal's rows, every charge sent (amount and nonce, one per attempt) and every sleep.\<close>

record 'w run =
  rn_world :: 'w
  rn_journal :: "JournalRow list"
  rn_sent :: "(int \<times> int) list"
  rn_slept :: "int list"

datatype ProcessResult = pr_submitted | pr_skipped | pr_gap | pr_deferred

type_synonym ('w, 'a) step = "'w run \<Rightarrow> ((js_exn + 'a) \<times> 'w run) option"

definition give :: "'a \<Rightarrow> ('w, 'a) step" where
  "give a s = Some (Inr a, s)"

definition fail :: "js_exn \<Rightarrow> ('w, 'a) step" where
  "fail e s = Some (Inl e, s)"

definition next_step :: "('w, 'a) step \<Rightarrow> ('a \<Rightarrow> ('w, 'b) step) \<Rightarrow> ('w, 'b) step" where
  "next_step m f s =
     (case m s of
        None \<Rightarrow> None
      | Some (Inl e, s') \<Rightarrow> Some (Inl e, s')
      | Some (Inr a, s') \<Rightarrow> f a s')"

definition on_error :: "('w, 'a) step \<Rightarrow> (js_exn \<Rightarrow> ('w, 'a) step) \<Rightarrow> ('w, 'a) step" where
  "on_error m h s =
     (case m s of
        None \<Rightarrow> None
      | Some (Inl e, s') \<Rightarrow> h e s'
      | Some (Inr a, s') \<Rightarrow> Some (Inr a, s'))"

definition call :: "('w \<Rightarrow> (js_exn + 'a) \<times> 'w) \<Rightarrow> ('w, 'a) step" where
  "call f s = (case f (rn_world s) of (r, w) \<Rightarrow> Some (r, s\<lparr>rn_world := w\<rparr>))"

definition pure :: "'a result \<Rightarrow> ('w, 'a) step" where
  "pure r s = (case r of Inl (Error m) \<Rightarrow> Some (Inl (plainError m), s)
     | Inl RangeError \<Rightarrow> Some (Inl \<lparr>ex_name = ''RangeError'', ex_message = []\<rparr>, s)
     | Inr a \<Rightarrow> Some (Inr a, s))"

definition attempt_on :: "('w \<Rightarrow> (js_exn + 'a) \<times> 'w) \<Rightarrow> (int \<times> int) list \<Rightarrow> 'w run \<Rightarrow> (js_exn + 'a) \<times> 'w run" where
  "attempt_on f charges s =
     (case f (rn_world s) of (r, w) \<Rightarrow> (r, s\<lparr>rn_world := w, rn_sent := rn_sent s @ charges\<rparr>))"

text \<open>\<open>withRpcBackoff\<close> on a call; the charges are what one attempt of it sends.\<close>

definition backed :: "'w platform \<Rightarrow> string \<Rightarrow> (int \<times> int) list \<Rightarrow> ('w \<Rightarrow> (js_exn + 'a) \<times> 'w) \<Rightarrow> ('w, 'a) step" where
  "backed p label charges f s =
     (case withRpcBackoff (pf_parseUrl p) label (attempt_on f charges) s of
        None \<Rightarrow> None
      | Some (r, slept, s') \<Rightarrow> Some (r, s'\<lparr>rn_slept := rn_slept s' @ slept\<rparr>))"

section \<open>Rows\<close>

definition RATE_LIMIT_GAP_REASON :: string where "RATE_LIMIT_GAP_REASON = ''rpc rate limited on all endpoints''"
definition FEED_GAP_REASON :: string where "FEED_GAP_REASON = ''feed unavailable''"
definition SLOT_MISMATCH_REASON :: string where "SLOT_MISMATCH_REASON = ''window start does not match slot''"
definition PAID_UNRECOVERED_REASON :: string where
  "PAID_UNRECOVERED_REASON = ''chain shows this window paid; signature could not be recovered''"
definition STALE_UNCONFIRMED_REASON :: string where
  "STALE_UNCONFIRMED_REASON = ''stale nonce; chain did not confirm this window paid''"
definition OVERTAKEN_REASON :: string where "OVERTAKEN_REASON = ''window overtaken by a later settled charge''"
definition watcher_REASON_STALE_NONCE :: int where "watcher_REASON_STALE_NONCE = 3"

definition journalSignature :: "string option \<Rightarrow> string option" where
  "journalSignature signature = (case signature of None \<Rightarrow> None | Some s \<Rightarrow> if s = [] then None else Some s)"

definition decided :: "charge_decision \<Rightarrow> Decision" where
  "decided d = (case d of cd_paid \<Rightarrow> paid | cd_refused \<Rightarrow> refused)"

text \<open>\<open>rowBase\<close>, with the start of the slot when there is no window, as every writer but one puts it.\<close>

definition rowBase ::
  "'w platform \<Rightarrow> 'w ProcessWindowArgs \<Rightarrow> PriceWindow option \<Rightarrow> int \<Rightarrow> int \<Rightarrow> Decision \<Rightarrow> string \<Rightarrow> int option \<Rightarrow>
   string option \<Rightarrow> int option \<Rightarrow> FxFields option \<Rightarrow> 'w \<Rightarrow> JournalRow" where
  "rowBase p a window nonce amount decision reason code signature override fx w =
     \<lparr>jr_ts = pf_now p w,
      jr_window_start = (case window of None \<Rightarrow> pf_toIso p (pa_at a) | Some win \<Rightarrow> pw_timeStart win),
      jr_window_end = map_option pw_timeEnd window, jr_sek_per_kwh = map_option pw_sekPerKwh window,
      jr_kwh_milli = int_str (pa_kwhMilli a), jr_amount = int_str amount, jr_nonce = int_str nonce,
      jr_decision = decision, jr_reason = reason, jr_reason_code = code, jr_signature = signature,
      jr_suggested_override = map_option int_str override, jr_fx = fx\<rparr>"

definition write_row :: "('w \<Rightarrow> JournalRow) \<Rightarrow> ProcessResult \<Rightarrow> ('w, ProcessResult) step" where
  "write_row row r s = Some (Inr r, s\<lparr>rn_journal := rn_journal s @ [row (rn_world s)]\<rparr>)"

text \<open>One outage row for each window and reason.\<close>

definition gap_once :: "int \<Rightarrow> string \<Rightarrow> ('w \<Rightarrow> JournalRow) \<Rightarrow> ProcessResult \<Rightarrow> ('w, ProcessResult) step" where
  "gap_once nonce reason row r s =
     (if hasGap (rn_journal s) nonce (Some reason) then Some (Inr r, s) else write_row row r s)"

definition deferRateLimit :: "'w platform \<Rightarrow> 'w ProcessWindowArgs \<Rightarrow> PriceWindow option \<Rightarrow> int \<Rightarrow> ('w, ProcessResult) step" where
  "deferRateLimit p a window nonce =
     gap_once nonce RATE_LIMIT_GAP_REASON
       (rowBase p a window nonce 0 gap RATE_LIMIT_GAP_REASON None None None None) pr_deferred"

definition deferring :: "'w platform \<Rightarrow> 'w ProcessWindowArgs \<Rightarrow> PriceWindow option \<Rightarrow> int \<Rightarrow>
   ('w, ProcessResult) step \<Rightarrow> js_exn \<Rightarrow> ('w, ProcessResult) step" where
  "deferring p a window nonce other e =
     (if isRateLimitError e then deferRateLimit p a window nonce else other)"

definition writeRecovered :: "'w platform \<Rightarrow> 'w ProcessWindowArgs \<Rightarrow> PriceWindow option \<Rightarrow> int \<Rightarrow> RecoveredCharge \<Rightarrow>
   ('w, ProcessResult) step" where
  "writeRecovered p a window nonce recovered =
     write_row (rowBase p a window nonce (rc_amount recovered) (decided (co_decision recovered)) (co_reason recovered)
         (Some (co_reasonCode recovered)) (journalSignature (Some (cr_signature recovered)))
         (co_suggestedOverride recovered) None)
       (case co_decision recovered of cd_paid \<Rightarrow> pr_submitted | cd_refused \<Rightarrow> pr_skipped)"

section \<open>The chain's answers\<close>

definition readSettled :: "'w platform \<Rightarrow> 'w ProcessWindowArgs \<Rightarrow> ('w, int) step" where
  "readSettled p a s =
     (case pa_reader a of
        None \<Rightarrow> Some (maxSettledNonce (rn_journal s), s)
      | Some rd \<Rightarrow> backed p ''chain last_nonce'' [] (rd_chainLastNonce rd) s)"

definition recoverPaid :: "'w platform \<Rightarrow> 'w ProcessWindowArgs \<Rightarrow> int \<Rightarrow> ('w, RecoveredCharge option) step" where
  "recoverPaid p a nonce =
     (case pa_reader a of
        None \<Rightarrow> give None
      | Some rd \<Rightarrow> backed p ''recover settled'' [] (rd_recoverSettled rd nonce))"

text \<open>What is written when no payment could be read back for a settled or refused nonce.\<close>

definition closeUnrecovered :: "'w platform \<Rightarrow> 'w ProcessWindowArgs \<Rightarrow> PriceWindow option \<Rightarrow> int \<Rightarrow> int \<Rightarrow> string option \<Rightarrow>
   ('w, ProcessResult) step" where
  "closeUnrecovered p a window nonce settled seenSignature =
     (if nonce < settled
      then write_row (rowBase p a window nonce 0 skipped OVERTAKEN_REASON None (journalSignature seenSignature) None None) pr_skipped
      else if nonce \<le> settled
        then write_row (rowBase p a window nonce 0 paid PAID_UNRECOVERED_REASON (Some 0) None None None) pr_submitted
      else gap_once nonce STALE_UNCONFIRMED_REASON
        (rowBase p a window nonce 0 gap STALE_UNCONFIRMED_REASON None (journalSignature seenSignature) None None) pr_gap)"

definition closeAlreadySettled :: "'w platform \<Rightarrow> 'w ProcessWindowArgs \<Rightarrow> PriceWindow option \<Rightarrow> int \<Rightarrow> int \<Rightarrow> string option \<Rightarrow>
   ('w, ProcessResult) step" where
  "closeAlreadySettled p a window nonce settled seenSignature =
     next_step (recoverPaid p a nonce) (\<lambda>recovered.
       case recovered of
         Some r \<Rightarrow> if co_decision r = cd_paid then writeRecovered p a window nonce r
                    else closeUnrecovered p a window nonce settled seenSignature
       | None \<Rightarrow> closeUnrecovered p a window nonce settled seenSignature)"

section \<open>Pricing and sending\<close>

definition windowStartsAtSlot :: "'w platform \<Rightarrow> PriceWindow \<Rightarrow> int \<Rightarrow> bool" where
  "windowStartsAtSlot p window at =
     (case (nonceFromWindowStart (pf_dateParse p) (pw_timeStart window), nonceFromSlot (pf_dateParse p) (pf_toIso p) at) of
        (Inr m, Inr n) \<Rightarrow> m = n
      | _ \<Rightarrow> False)"

definition fxFields :: "FxQuote option \<Rightarrow> FxFields option result" where
  "fxFields quote =
     (case quote of
        None \<Rightarrow> Inr None
      | Some q \<Rightarrow> andThen (usdPerSekDecimal (fq_usd q) (fq_sek q)) (\<lambda>rate.
          Inr (Some \<lparr>fx_quote_currency = ''USD'', fx_rate = Some rate, fx_date = Some (fq_fixingDate q),
                     fx_source = Some (fq_sourceUrl q)\<rparr>)))"

definition writeReceipt :: "'w platform \<Rightarrow> 'w ProcessWindowArgs \<Rightarrow> PriceWindow \<Rightarrow> int \<Rightarrow> int \<Rightarrow> FxQuote option \<Rightarrow> ChargeReceipt \<Rightarrow>
   ('w, ProcessResult) step" where
  "writeReceipt p a window nonce amount quote receipt =
     next_step (pure (fxFields quote)) (\<lambda>fx.
       write_row (rowBase p a (Some window) nonce amount (decided (co_decision receipt)) (co_reason receipt)
         (Some (co_reasonCode receipt)) (journalSignature (Some (cr_signature receipt))) (co_suggestedOverride receipt) fx)
         pr_submitted)"

definition submitAmount :: "'w platform \<Rightarrow> 'w ProcessWindowArgs \<Rightarrow> PriceWindow \<Rightarrow> int \<Rightarrow> int \<Rightarrow> FxQuote option \<Rightarrow>
   ('w, ProcessResult) step" where
  "submitAmount p a window nonce amount quote s =
     (case backed p ''charge'' [(amount, nonce)] (pa_submit a amount nonce) s of
        None \<Rightarrow> None
      | Some (Inl e, s') \<Rightarrow> deferring p a (Some window) nonce (fail e) e s'
      | Some (Inr receipt, s') \<Rightarrow>
          if co_decision receipt = cd_refused \<and> co_reasonCode receipt = watcher_REASON_STALE_NONCE
          then on_error
                 (next_step (readSettled p a) (\<lambda>latest.
                    closeAlreadySettled p a (Some window) nonce latest (Some (cr_signature receipt))))
                 (\<lambda>e. deferring p a (Some window) nonce (fail e) e) s'
          else writeReceipt p a window nonce amount quote receipt s')"

definition quoteAndSubmit :: "'w platform \<Rightarrow> 'w ProcessWindowArgs \<Rightarrow> PriceWindow \<Rightarrow> int \<Rightarrow> int \<Rightarrow> FxQuote option \<Rightarrow>
   ('w, ProcessResult) step" where
  "quoteAndSubmit p a window nonce scaled quote =
     next_step
       (pure (amountBaseUnitsQuoted (pa_kwhMilli a) scaled (pa_mintDecimals a)
          (Some (case pa_quoteCurrency a of None \<Rightarrow> SEK | Some c \<Rightarrow> c)) (map_option fq_usd quote) (map_option fq_sek quote)))
       (\<lambda>amount.
          if amount = 0
          then write_row (rowBase p a (Some window) nonce amount skipped ''zero amount'' None None None None) pr_skipped
          else submitAmount p a window nonce amount quote)"

definition fxGap :: "'w platform \<Rightarrow> 'w ProcessWindowArgs \<Rightarrow> PriceWindow \<Rightarrow> int \<Rightarrow> string \<Rightarrow> string option \<Rightarrow> string option \<Rightarrow> string \<Rightarrow>
   ('w, ProcessResult) step" where
  "fxGap p a window nonce reason rate date source =
     gap_once nonce reason
       (rowBase p a (Some window) nonce 0 gap reason None None None
          (Some \<lparr>fx_quote_currency = ''USD'', fx_rate = rate, fx_date = date, fx_source = Some source\<rparr>)) pr_gap"

definition convert :: "'w platform \<Rightarrow> 'w ProcessWindowArgs \<Rightarrow> PriceWindow \<Rightarrow> int \<Rightarrow> int \<Rightarrow> ('w, ProcessResult) step" where
  "convert p a window nonce scaled s =
     (if (case pa_quoteCurrency a of None \<Rightarrow> SEK | Some c \<Rightarrow> c) \<noteq> USD
      then quoteAndSubmit p a window nonce scaled None s
      else
        (case readFxOrUnreachable (pa_fx a) (pa_at a) (rn_world s) of
           (Inl (kind, source, status), w) \<Rightarrow> fxGap p a window nonce ''fx unavailable'' None None source (s\<lparr>rn_world := w\<rparr>)
         | (Inr quote, w) \<Rightarrow>
             if \<not> fxFixingIsFresh (pf_stockholmYmd p) (fq_fixingDate quote) (pa_at a)
             then next_step (pure (usdPerSekDecimal (fq_usd quote) (fq_sek quote))) (\<lambda>rate.
                    fxGap p a window nonce (''fx rate stale ('' @ fq_fixingDate quote @ '')'') (Some rate)
                      (Some (fq_fixingDate quote)) (fq_sourceUrl quote)) (s\<lparr>rn_world := w\<rparr>)
             else quoteAndSubmit p a window nonce scaled (Some quote) (s\<lparr>rn_world := w\<rparr>)))"

definition error_text :: "js_error \<Rightarrow> string" where
  "error_text e = (case e of Error m \<Rightarrow> m | RangeError \<Rightarrow> [])"

definition priceWindow :: "'w platform \<Rightarrow> 'w ProcessWindowArgs \<Rightarrow> PriceWindow option \<Rightarrow> int \<Rightarrow> ('w, ProcessResult) step" where
  "priceWindow p a found nonce =
     (case found of
        None \<Rightarrow>
          gap_once nonce FEED_GAP_REASON (rowBase p a None nonce 0 gap FEED_GAP_REASON None None None None) pr_gap
      | Some window \<Rightarrow>
          if \<not> windowStartsAtSlot p window (pa_at a)
          then gap_once nonce SLOT_MISMATCH_REASON
                 (rowBase p a (Some window) nonce 0 gap SLOT_MISMATCH_REASON None None None None) pr_gap
          else
            (case sekPerKwhToScaled (pw_sekPerKwh window) of
               Inl e \<Rightarrow>
                 let reason = ''unreadable price: '' @ error_text e in
                 gap_once nonce reason (rowBase p a (Some window) nonce 0 gap reason None None None None) pr_gap
             | Inr scaled \<Rightarrow>
                 if scaled < 0
                 then write_row (rowBase p a (Some window) nonce 0 skipped ''negative price'' None None None None) pr_skipped
                 else convert p a window nonce scaled))"

section \<open>The window\<close>

fun feed_loop :: "'w ProcessWindowArgs \<Rightarrow> nat \<Rightarrow> ('w, PriceWindow option) step" where
  "feed_loop a 0 s = Some (Inr None, s)"
| "feed_loop a (Suc n) s =
     (case pa_getWindow a (pa_at a) (rn_world s) of
        (Inl e, w) \<Rightarrow> Some (Inl e, s\<lparr>rn_world := w\<rparr>)
      | (Inr (Some window), w) \<Rightarrow> Some (Inr (Some window), s\<lparr>rn_world := w\<rparr>)
      | (Inr None, w) \<Rightarrow>
          feed_loop a n
            (s\<lparr>rn_world := w,
               rn_slept := rn_slept s @ (if n > 0 then [case pa_feedRetryMs a of None \<Rightarrow> 2000 | Some ms \<Rightarrow> ms] else [])\<rparr>))"

text \<open>After the settlement read: the recorded charge of the nonce, when there is a reader.\<close>

definition chargeUnsettled :: "'w platform \<Rightarrow> 'w ProcessWindowArgs \<Rightarrow> PriceWindow option \<Rightarrow> int \<Rightarrow> ('w, ProcessResult) step" where
  "chargeUnsettled p a window nonce s =
     (case pa_reader a of
        None \<Rightarrow> priceWindow p a window nonce s
      | Some rd \<Rightarrow>
          (case backed p ''recorded charge'' [] (rd_recordedCharge rd nonce) s of
             None \<Rightarrow> None
           | Some (Inl e, s') \<Rightarrow> deferring p a window nonce (fail e) e s'
           | Some (Inr (Some recorded), s') \<Rightarrow> writeRecovered p a window nonce recorded s'
           | Some (Inr None, s') \<Rightarrow> priceWindow p a window nonce s'))"

definition decideWindow :: "'w platform \<Rightarrow> 'w ProcessWindowArgs \<Rightarrow> PriceWindow option \<Rightarrow> int \<Rightarrow> ('w, ProcessResult) step" where
  "decideWindow p a window nonce s =
     (if hasNonce (rn_journal s) nonce then Some (Inr pr_skipped, s)
      else
        (case readSettled p a s of
           None \<Rightarrow> None
         | Some (Inl e, s') \<Rightarrow> deferring p a window nonce (fail e) e s'
         | Some (Inr settled, s') \<Rightarrow>
             if nonce \<le> settled
             then on_error (closeAlreadySettled p a window nonce settled None) (\<lambda>e. deferring p a window nonce (fail e) e) s'
             else chargeUnsettled p a window nonce s'))"

definition processWindow :: "'w platform \<Rightarrow> 'w ProcessWindowArgs \<Rightarrow> ('w, ProcessResult) step" where
  "processWindow p a =
     next_step (feed_loop a (case pa_feedAttempts a of None \<Rightarrow> 5 | Some n \<Rightarrow> n)) (\<lambda>window s.
       case nonceFromSlot (pf_dateParse p) (pf_toIso p) (pa_at a) of
         Inl e \<Rightarrow> Some (Inl e, s)
       | Inr nonce \<Rightarrow> decideWindow p a window nonce s)"

end
