(* ===== verification/Watch_Safety.thy ===== *)
theory Watch_Safety
  imports Watch_Run
begin

text \<open>
  What a run of the watcher may write and send. Every row it adds is for the nonce of its slot, at most
  one is added, an outage is noted once for each reason, a payment row has a payment the chain or the program's
  log showed, and a charge is sent only when it is due.
\<close>

section \<open>Taking steps apart\<close>

lemma next_step_eq:
  "next_step m f s = Some (r, s') \<longleftrightarrow>
     (\<exists>a s1. m s = Some (Inr a, s1) \<and> f a s1 = Some (r, s')) \<or> (\<exists>e. m s = Some (Inl e, s') \<and> r = Inl e)"
  by (auto simp: next_step_def split: option.splits prod.splits sum.splits)

lemma on_error_eq:
  "on_error m h s = Some (r, s') \<longleftrightarrow>
     (\<exists>e s1. m s = Some (Inl e, s1) \<and> h e s1 = Some (r, s')) \<or> (\<exists>a. m s = Some (Inr a, s') \<and> r = Inr a)"
  by (auto simp: on_error_def split: option.splits prod.splits sum.splits)

lemma pure_eq: "pure x s = Some (r, s') \<Longrightarrow> s' = s \<and> (\<forall>a. r = Inr a \<longrightarrow> x = Inr a)"
  by (auto simp: pure_def split: sum.splits js_error.splits)

section \<open>Calls\<close>

lemma backoff_result:
  "withRpcBackoff parseUrl label f s = Some (r, slept, s') \<Longrightarrow>
   \<exists>k. r = handed_on (given_up parseUrl label) (answer_at f k s) \<and> s' = world_after f (Suc k) s"
  using backoff_returned [of "given_up parseUrl label" f RPC_INITIAL_MS "[]" s]
    backoff_steps [of _ "given_up parseUrl label" f s RPC_INITIAL_MS "[]"]
  unfolding withRpcBackoff_def by fastforce

lemma attempts_keep:
  "rn_journal (world_after (attempt_on f charges) k s) = rn_journal s \<and>
   rn_sent (world_after (attempt_on f charges) k s) = rn_sent s @ concat (replicate k charges)"
proof (induction k arbitrary: s)
  case (Suc k)
  then show ?case by (simp add: world_after_Suc attempt_on_def split: prod.splits)
qed simp

text \<open>A backed call keeps the journal, sends what each attempt sends, and its value is a value the call gave.\<close>

lemma backed_result:
  assumes "backed p label charges f s = Some (r, s')"
  shows "rn_journal s' = rn_journal s"
    and "\<exists>k. rn_sent s' = rn_sent s @ concat (replicate (Suc k) charges)"
    and "\<And>a. r = Inr a \<Longrightarrow> \<exists>w w'. f w = (Inr a, w')"
proof -
  obtain slept s1 where b: "withRpcBackoff (pf_parseUrl p) label (attempt_on f charges) s = Some (r, slept, s1)"
      and s': "s' = s1\<lparr>rn_slept := rn_slept s1 @ slept\<rparr>"
    using assms by (auto simp: backed_def split: option.splits)
  obtain k where k: "r = handed_on (given_up (pf_parseUrl p) label) (answer_at (attempt_on f charges) k s)"
      "s1 = world_after (attempt_on f charges) (Suc k) s"
    using backoff_result [OF b] by blast
  show "rn_journal s' = rn_journal s" "\<exists>k. rn_sent s' = rn_sent s @ concat (replicate (Suc k) charges)"
    using attempts_keep [of f charges "Suc k" s] k(2) s' by auto
  fix a assume "r = Inr a"
  then have "answer_at (attempt_on f charges) k s = Inr a" using k(1) by (simp add: handed_on_def split: sum.splits)
  then show "\<exists>w w'. f w = (Inr a, w')"
    unfolding answer_at_def attempt_on_def by (auto split: prod.splits)
qed

lemma feed_loop_result:
  "feed_loop a n s = Some (r, s') \<Longrightarrow>
   rn_journal s' = rn_journal s \<and> rn_sent s' = rn_sent s \<and>
   (\<forall>window. r = Inr (Some window) \<longrightarrow> (\<exists>w w'. pa_getWindow a (pa_at a) w = (Inr (Some window), w')))"
proof (induction n arbitrary: s)
  case (Suc n)
  obtain answer w where c: "pa_getWindow a (pa_at a) (rn_world s) = (answer, w)" by fastforce
  then show ?case using Suc by (cases answer) (auto split: option.splits)
qed auto

section \<open>What may be written\<close>

definition settled_read :: "'w ProcessWindowArgs \<Rightarrow> JournalRow list \<Rightarrow> int \<Rightarrow> bool" where
  "settled_read a rows settled \<longleftrightarrow>
     (case pa_reader a of
        None \<Rightarrow> maxSettledNonce rows = Inr settled
      | Some rd \<Rightarrow> \<exists>w w'. rd_chainLastNonce rd w = (Inr settled, w'))"

text \<open>Why a row may say that a window was paid.\<close>

definition payment_shown :: "'w ProcessWindowArgs \<Rightarrow> JournalRow list \<Rightarrow> int \<Rightarrow> JournalRow \<Rightarrow> bool" where
  "payment_shown a rows nonce row \<longleftrightarrow>
     (\<exists>rd found w w'. pa_reader a = Some rd \<and>
        (rd_recoverSettled rd nonce w = (Inr (Some found), w') \<or> rd_recordedCharge rd nonce w = (Inr (Some found), w')) \<and>
        co_decision found = cd_paid \<and> jr_amount row = int_str (rc_amount found)) \<or>
     settled_read a rows nonce \<or>
     (\<exists>amount receipt w w'. pa_submit a amount nonce w = (Inr receipt, w') \<and> co_decision receipt = cd_paid \<and>
        jr_amount row = int_str amount)"

definition row_justified :: "'w ProcessWindowArgs \<Rightarrow> JournalRow list \<Rightarrow> int \<Rightarrow> JournalRow \<Rightarrow> bool" where
  "row_justified a rows nonce row \<longleftrightarrow>
     jr_nonce row = int_str nonce \<and>
     (jr_decision row = gap \<longrightarrow> \<not> hasGap rows nonce (Some (jr_reason row))) \<and>
     (jr_decision row = paid \<longrightarrow> payment_shown a rows nonce row)"

definition adds_row :: "'w ProcessWindowArgs \<Rightarrow> JournalRow list \<Rightarrow> int \<Rightarrow> JournalRow list \<Rightarrow> bool" where
  "adds_row a rows nonce rows' \<longleftrightarrow> rows' = rows \<or> (\<exists>row. rows' = rows @ [row] \<and> row_justified a rows nonce row)"

lemma adds_none [intro]: "rows' = rows \<Longrightarrow> adds_row a rows nonce rows'"
  by (simp add: adds_row_def)

lemma rowBase_fields [simp]:
  "jr_nonce (rowBase p a window nonce amount d reason code sig override fx w) = int_str nonce"
  "jr_decision (rowBase p a window nonce amount d reason code sig override fx w) = d"
  "jr_reason (rowBase p a window nonce amount d reason code sig override fx w) = reason"
  "jr_amount (rowBase p a window nonce amount d reason code sig override fx w) = int_str amount"
  by (simp_all add: rowBase_def)

lemma write_row_result:
  "write_row row r s = Some (r', s') \<Longrightarrow> row_justified a (rn_journal s) nonce (row (rn_world s)) \<Longrightarrow>
   adds_row a (rn_journal s) nonce (rn_journal s') \<and> rn_sent s' = rn_sent s"
  by (auto simp: write_row_def adds_row_def)

lemma gap_once_result:
  "gap_once nonce reason (rowBase p a window nonce 0 gap reason code sig override fx) r s = Some (r', s') \<Longrightarrow>
   adds_row b (rn_journal s) nonce (rn_journal s') \<and> rn_sent s' = rn_sent s"
  by (auto simp: gap_once_def write_row_def adds_row_def row_justified_def split: if_splits)

lemma deferring_result:
  "deferring p a window nonce (fail e') e s = Some (r, s') \<Longrightarrow>
   adds_row b (rn_journal s) nonce (rn_journal s') \<and> rn_sent s' = rn_sent s"
  by (auto simp: deferring_def deferRateLimit_def fail_def dest: gap_once_result split: if_splits)

lemma writeRecovered_result:
  assumes "writeRecovered p a window nonce found s = Some (r, s')"
    and "pa_reader a = Some rd"
    and "rd_recoverSettled rd nonce w = (Inr (Some found), w') \<or> rd_recordedCharge rd nonce w = (Inr (Some found), w')"
  shows "adds_row a (rn_journal s) nonce (rn_journal s') \<and> rn_sent s' = rn_sent s"
  using assms(2,3)
  by (intro write_row_result [OF assms(1) [unfolded writeRecovered_def]])
    (auto simp: row_justified_def payment_shown_def decided_def split: charge_decision.splits)

lemma closeUnrecovered_result:
  assumes "closeUnrecovered p a window nonce settled seen s = Some (r, s')" "settled_read a (rn_journal s) settled"
  shows "adds_row a (rn_journal s) nonce (rn_journal s') \<and> rn_sent s' = rn_sent s"
proof -
  consider (overtaken) "nonce < settled" | (same) "nonce = settled" | (above) "settled < nonce" by linarith
  then show ?thesis
  proof cases
    case overtaken
    then show ?thesis using assms(1) unfolding closeUnrecovered_def
      by (auto simp: row_justified_def dest: write_row_result [of _ _ _ _ _ a nonce])
  next
    case same
    then show ?thesis using assms unfolding closeUnrecovered_def
      by (auto simp: row_justified_def payment_shown_def dest: write_row_result [of _ _ _ _ _ a nonce])
  next
    case above
    then show ?thesis using assms(1) unfolding closeUnrecovered_def by (auto dest: gap_once_result)
  qed
qed

lemma recoverPaid_result:
  assumes "recoverPaid p a nonce s = Some (r, s')"
  shows "rn_journal s' = rn_journal s \<and> rn_sent s' = rn_sent s \<and>
    (\<forall>found. r = Inr (Some found) \<longrightarrow> (\<exists>rd w w'. pa_reader a = Some rd \<and> rd_recoverSettled rd nonce w = (Inr (Some found), w')))"
  using assms backed_result [of p "''recover settled''" "[]" _ s r s']
  by (auto simp: recoverPaid_def give_def split: option.splits)

lemma closeAlreadySettled_result:
  assumes "closeAlreadySettled p a window nonce settled seen s = Some (r, s')" "settled_read a (rn_journal s) settled"
  shows "adds_row a (rn_journal s) nonce (rn_journal s') \<and> rn_sent s' = rn_sent s"
proof -
  consider (lost) e where "recoverPaid p a nonce s = Some (Inl e, s')"
    | (read) found s1 where "recoverPaid p a nonce s = Some (Inr found, s1)"
        "(case found of
            Some r \<Rightarrow> if co_decision r = cd_paid then writeRecovered p a window nonce r
                       else closeUnrecovered p a window nonce settled seen
          | None \<Rightarrow> closeUnrecovered p a window nonce settled seen) s1 = Some (r, s')"
    using assms(1) unfolding closeAlreadySettled_def next_step_eq by blast
  then show ?thesis
  proof cases
    case lost
    then show ?thesis using recoverPaid_result by blast
  next
    case read
    note keeps = recoverPaid_result [OF read(1)]
    show ?thesis
    proof (cases "\<exists>c. found = Some c \<and> co_decision c = cd_paid")
      case True
      then obtain c where c: "found = Some c" "co_decision c = cd_paid" by blast
      then have w: "writeRecovered p a window nonce c s1 = Some (r, s')" using read(2) by simp
      show ?thesis using keeps c(1) writeRecovered_result [OF w] by metis
    next
      case False
      then have "closeUnrecovered p a window nonce settled seen s1 = Some (r, s')" using read(2) by (cases found) auto
      then show ?thesis using keeps closeUnrecovered_result assms(2) by metis
    qed
  qed
qed

lemma closing_error:
  assumes "closeAlreadySettled p a window nonce settled seen s = Some (Inl e, s')"
  shows "rn_journal s' = rn_journal s \<and> rn_sent s' = rn_sent s"
  using assms recoverPaid_result
  unfolding closeAlreadySettled_def next_step_eq closeUnrecovered_def writeRecovered_def write_row_def gap_once_def
  by (fastforce split: option.split_asm if_split_asm)

lemma readSettled_result:
  assumes "readSettled p a s = Some (r, s')"
  shows "rn_journal s' = rn_journal s \<and> rn_sent s' = rn_sent s \<and>
    (\<forall>settled. r = Inr settled \<longrightarrow> settled_read a (rn_journal s) settled)"
  using assms backed_result [of p "''chain last_nonce''" "[]" _ s r s']
  by (auto simp: readSettled_def settled_read_def split: option.splits)

lemma on_error_result:
  assumes "on_error m (\<lambda>e. deferring p a window nonce (fail e) e) s = Some (r, s')"
    and "\<And>x s2. m s = Some (Inr x, s2) \<Longrightarrow> adds_row b (rn_journal s) nonce (rn_journal s2) \<and> rn_sent s2 = rn_sent s"
    and "\<And>e s2. m s = Some (Inl e, s2) \<Longrightarrow> rn_journal s2 = rn_journal s \<and> rn_sent s2 = rn_sent s"
  shows "adds_row b (rn_journal s) nonce (rn_journal s') \<and> rn_sent s' = rn_sent s"
proof -
  consider (fine) x where "m s = Some (Inr x, s')"
    | (thrown) e s2 where "m s = Some (Inl e, s2)" "deferring p a window nonce (fail e) e s2 = Some (r, s')"
    using assms(1) unfolding on_error_eq by blast
  then show ?thesis
  proof cases
    case thrown
    then show ?thesis using assms(3) [OF thrown(1)] deferring_result [OF thrown(2), of b] by simp
  qed (rule assms(2))
qed

section \<open>What may be sent\<close>

definition priced :: "'w platform \<Rightarrow> 'w ProcessWindowArgs \<Rightarrow> PriceWindow \<Rightarrow> int \<Rightarrow> bool" where
  "priced p a window amount \<longleftrightarrow>
     (\<exists>scaled quote. sekPerKwhToScaled (pw_sekPerKwh window) = Inr scaled \<and> 0 \<le> scaled \<and>
        (case quote of
           None \<Rightarrow> pa_quoteCurrency a \<noteq> Some USD
         | Some q \<Rightarrow> pa_quoteCurrency a = Some USD \<and>
             fxFixingIsFresh (pf_stockholmYmd p) (fq_fixingDate q) (pa_at a) \<and>
             (\<exists>read w w'. pa_fx a = Some read \<and> read (pa_at a) w = (Inr (Inr q), w'))) \<and>
        amountBaseUnitsQuoted (pa_kwhMilli a) scaled (pa_mintDecimals a)
          (Some (case pa_quoteCurrency a of None \<Rightarrow> SEK | Some c \<Rightarrow> c)) (map_option fq_usd quote) (map_option fq_sek quote) =
          Inr amount)"

definition charge_is_due :: "'w platform \<Rightarrow> 'w ProcessWindowArgs \<Rightarrow> JournalRow list \<Rightarrow> int \<Rightarrow> int \<Rightarrow> bool" where
  "charge_is_due p a rows nonce amount \<longleftrightarrow>
     0 < amount \<and> \<not> hasNonce rows nonce \<and>
     (\<exists>settled. settled_read a rows settled \<and> settled < nonce) \<and>
     (\<forall>rd. pa_reader a = Some rd \<longrightarrow> (\<exists>w w'. rd_recordedCharge rd nonce w = (Inr None, w'))) \<and>
     (\<exists>window w w'. pa_getWindow a (pa_at a) w = (Inr (Some window), w') \<and> windowStartsAtSlot p window (pa_at a) \<and>
        priced p a window amount)"

text \<open>The rows added and the charges sent by a step, from the rows and charges before it.\<close>

definition fair ::
  "('w ProcessWindowArgs \<Rightarrow> JournalRow list \<Rightarrow> int \<Rightarrow> int \<Rightarrow> bool) \<Rightarrow> 'w ProcessWindowArgs \<Rightarrow> int \<Rightarrow> 'w run \<Rightarrow> 'w run \<Rightarrow> bool" where
  "fair due a nonce s s' \<longleftrightarrow>
     adds_row a (rn_journal s) nonce (rn_journal s') \<and>
     (\<exists>amount k. rn_sent s' = rn_sent s @ replicate k (amount, nonce) \<and> (k > 0 \<longrightarrow> due a (rn_journal s) nonce amount))"

lemma fair_unsent:
  "adds_row a (rn_journal s) nonce (rn_journal s') \<and> rn_sent s' = rn_sent s \<Longrightarrow> fair due a nonce s s'"
  unfolding fair_def by (intro conjI exI [of _ 0]) simp_all

lemma fair_from: "rn_journal s1 = rn_journal s \<Longrightarrow> rn_sent s1 = rn_sent s \<Longrightarrow> fair due a nonce s1 s' \<Longrightarrow> fair due a nonce s s'"
  by (simp add: fair_def)

lemma charges_replicate: "concat (replicate k [c]) = replicate k c"
  by (induction k) simp_all

lemma quoted_nonneg: "amountBaseUnitsQuoted kwh scaled d c usd sek = Inr amount \<Longrightarrow> 0 \<le> amount"
  by (auto simp: amountBaseUnitsQuoted_def amountBaseUnits_def amountBaseUnitsUsd_def pos_imp_zdiv_nonneg_iff
      split: if_splits option.splits)

lemma receipt_shown:
  "pa_submit a amount nonce w = (Inr receipt, w') \<Longrightarrow> co_decision receipt = cd_paid \<Longrightarrow> jr_amount row = int_str amount \<Longrightarrow>
   payment_shown a rows nonce row"
  unfolding payment_shown_def by blast

lemma writeReceipt_result:
  assumes "writeReceipt p a window nonce amount quote receipt s = Some (r, s')"
    and "pa_submit a amount nonce w = (Inr receipt, w')"
  shows "adds_row a (rn_journal s) nonce (rn_journal s') \<and> rn_sent s' = rn_sent s"
proof -
  consider (failed) e where "pure (fxFields quote) s = Some (Inl e, s')"
    | (written) fx where "write_row (rowBase p a (Some window) nonce amount (decided (co_decision receipt)) (co_reason receipt)
         (Some (co_reasonCode receipt)) (journalSignature (Some (cr_signature receipt))) (co_suggestedOverride receipt) fx)
         pr_submitted s = Some (r, s')"
    using assms(1) unfolding writeReceipt_def next_step_eq by (auto dest: pure_eq)
  then show ?thesis
  proof cases
    case failed
    then show ?thesis using pure_eq by blast
  next
    case written
    show ?thesis
      by (rule write_row_result [OF written])
        (use receipt_shown [OF assms(2)] in \<open>auto simp: row_justified_def decided_def split: charge_decision.splits\<close>)
  qed
qed

lemma submitAmount_result:
  assumes "submitAmount p a window nonce amount quote s = Some (r, s')" "due a (rn_journal s) nonce amount"
  shows "fair due a nonce s s'"
proof -
  obtain answer s1 where b: "backed p ''charge'' [(amount, nonce)] (pa_submit a amount nonce) s = Some (answer, s1)"
    using assms(1) by (auto simp: submitAmount_def split: option.splits)
  note calls = backed_result [OF b]
  obtain k where sent: "rn_sent s1 = rn_sent s @ replicate (Suc k) (amount, nonce)"
    using calls(2) unfolding charges_replicate by blast
  have after: "adds_row a (rn_journal s1) nonce (rn_journal s') \<and> rn_sent s' = rn_sent s1"
  proof (cases answer)
    case (Inl e)
    then show ?thesis using assms(1) b by (auto simp: submitAmount_def dest: deferring_result)
  next
    case (Inr receipt)
    obtain w w' where w: "pa_submit a amount nonce w = (Inr receipt, w')" using calls(3) [OF Inr] by blast
    show ?thesis
    proof (cases "co_decision receipt = cd_refused \<and> co_reasonCode receipt = watcher_REASON_STALE_NONCE")
      case False
      then have "writeReceipt p a window nonce amount quote receipt s1 = Some (r, s')"
        using assms(1) b Inr by (auto simp: submitAmount_def)
      then show ?thesis by (rule writeReceipt_result [OF _ w])
    next
      case True
      let ?close = "\<lambda>latest. closeAlreadySettled p a (Some window) nonce latest (Some (cr_signature receipt))"
      have again: "on_error (next_step (readSettled p a) ?close) (\<lambda>e. deferring p a (Some window) nonce (fail e) e) s1 = Some (r, s')"
        using assms(1) b Inr True by (simp add: submitAmount_def)
      show ?thesis
      proof (rule on_error_result [OF again])
        fix x s2 assume "next_step (readSettled p a) ?close s1 = Some (Inr x, s2)"
        then obtain latest s3 where r: "readSettled p a s1 = Some (Inr latest, s3)" and c: "?close latest s3 = Some (Inr x, s2)"
          unfolding next_step_eq by blast
        show "adds_row a (rn_journal s1) nonce (rn_journal s2) \<and> rn_sent s2 = rn_sent s1"
          using readSettled_result [OF r] closeAlreadySettled_result [OF c] by simp
      next
        fix e s2 assume "next_step (readSettled p a) ?close s1 = Some (Inl e, s2)"
        then consider (lost) "readSettled p a s1 = Some (Inl e, s2)"
          | (closing) latest s3 where "readSettled p a s1 = Some (Inr latest, s3)" "?close latest s3 = Some (Inl e, s2)"
          unfolding next_step_eq by blast
        then show "rn_journal s2 = rn_journal s1 \<and> rn_sent s2 = rn_sent s1"
        proof cases
          case lost
          then show ?thesis using readSettled_result [OF lost] by simp
        next
          case closing
          then show ?thesis using readSettled_result [OF closing(1)] closing_error [OF closing(2)] by simp
        qed
      qed
    qed
  qed
  then show ?thesis
    using calls(1) sent assms(2) unfolding fair_def by (intro conjI exI [of _ amount] exI [of _ "Suc k"]) simp_all
qed

lemma quoteAndSubmit_result:
  assumes "quoteAndSubmit p a window nonce scaled quote s = Some (r, s')"
    and "\<And>amount. amountBaseUnitsQuoted (pa_kwhMilli a) scaled (pa_mintDecimals a)
          (Some (case pa_quoteCurrency a of None \<Rightarrow> SEK | Some c \<Rightarrow> c)) (map_option fq_usd quote) (map_option fq_sek quote) =
          Inr amount \<Longrightarrow> 0 < amount \<Longrightarrow> due a (rn_journal s) nonce amount"
  shows "fair due a nonce s s'"
proof -
  let ?quoted = "amountBaseUnitsQuoted (pa_kwhMilli a) scaled (pa_mintDecimals a)
          (Some (case pa_quoteCurrency a of None \<Rightarrow> SEK | Some c \<Rightarrow> c)) (map_option fq_usd quote) (map_option fq_sek quote)"
  consider (failed) e where "pure ?quoted s = Some (Inl e, s')"
    | (amount) amount s1 where "pure ?quoted s = Some (Inr amount, s1)"
        "(if amount = 0
          then write_row (rowBase p a (Some window) nonce amount skipped ''zero amount'' None None None None) pr_skipped
          else submitAmount p a window nonce amount quote) s1 = Some (r, s')"
    using assms(1) unfolding quoteAndSubmit_def next_step_eq by blast
  then show ?thesis
  proof cases
    case failed
    then show ?thesis using pure_eq [OF failed] by (intro fair_unsent) auto
  next
    case amount
    have q: "s1 = s" "?quoted = Inr amount" using pure_eq [OF amount(1)] by auto
    show ?thesis
    proof (cases "amount = 0")
      case True
      then have "write_row (rowBase p a (Some window) nonce amount skipped ''zero amount'' None None None None) pr_skipped s = Some (r, s')"
        using amount(2) q(1) by simp
      then show ?thesis by (rule fair_unsent [OF write_row_result]) (simp add: row_justified_def)
    next
      case False
      then have "0 < amount" using quoted_nonneg [OF q(2)] by simp
      then show ?thesis using submitAmount_result [of p a window nonce amount quote s r s' due] amount(2) False assms(2) [OF q(2)] q(1)
        by simp
    qed
  qed
qed

lemma gap_fair:
  "gap_once nonce reason (rowBase p a window nonce 0 gap reason code sig override fx) r s = Some (r', s') \<Longrightarrow> fair due b nonce s s'"
  by (rule fair_unsent) (rule gap_once_result)

lemma fxGap_result: "fxGap p a window nonce reason rate date source s = Some (r, s') \<Longrightarrow> fair due a nonce s s'"
  unfolding fxGap_def by (rule gap_fair)

lemma convert_result:
  assumes run: "convert p a window nonce scaled s = Some (r, s')"
    and price: "sekPerKwhToScaled (pw_sekPerKwh window) = Inr scaled" "0 \<le> scaled"
    and due: "\<And>amount. priced p a window amount \<Longrightarrow> 0 < amount \<Longrightarrow> due a (rn_journal s) nonce amount"
  shows "fair due a nonce s s'"
proof (cases "pa_quoteCurrency a = Some USD")
  case False
  then have "quoteAndSubmit p a window nonce scaled None s = Some (r, s')"
    using run by (auto simp: convert_def split: option.splits SpotQuoteCurrency.splits)
  then show ?thesis
  proof (rule quoteAndSubmit_result)
    fix amount assume "0 < amount" and "amountBaseUnitsQuoted (pa_kwhMilli a) scaled (pa_mintDecimals a)
          (Some (case pa_quoteCurrency a of None \<Rightarrow> SEK | Some c \<Rightarrow> c)) (map_option fq_usd None) (map_option fq_sek None) = Inr amount"
    then show "due a (rn_journal s) nonce amount"
      using price False by (intro due) (auto simp: priced_def intro!: exI [of _ scaled] exI [of _ None])
  qed
next
  case True
  obtain quote w where f: "readFxOrUnreachable (pa_fx a) (pa_at a) (rn_world s) = (quote, w)" by fastforce
  let ?s = "s\<lparr>rn_world := w\<rparr>"
  show ?thesis
  proof (cases quote)
    case (Inl failure)
    then have "fxGap p a window nonce ''fx unavailable'' None None (fst (snd failure)) ?s = Some (r, s')"
      using run True f by (auto simp: convert_def split: prod.splits)
    then show ?thesis by (rule fair_from [OF _ _ fxGap_result, rotated 2]) simp_all
  next
    case (Inr q)
    show ?thesis
    proof (cases "fxFixingIsFresh (pf_stockholmYmd p) (fq_fixingDate q) (pa_at a)")
      case False
      then have "next_step (pure (usdPerSekDecimal (fq_usd q) (fq_sek q))) (\<lambda>rate.
          fxGap p a window nonce (''fx rate stale ('' @ fq_fixingDate q @ '')'') (Some rate) (Some (fq_fixingDate q)) (fq_sourceUrl q))
          ?s = Some (r, s')"
        using run True f Inr by (simp add: convert_def)
      then consider (lost) e where "pure (usdPerSekDecimal (fq_usd q) (fq_sek q)) ?s = Some (Inl e, s')"
        | (rate) rate s1 where "pure (usdPerSekDecimal (fq_usd q) (fq_sek q)) ?s = Some (Inr rate, s1)"
            "fxGap p a window nonce (''fx rate stale ('' @ fq_fixingDate q @ '')'') (Some rate) (Some (fq_fixingDate q))
              (fq_sourceUrl q) s1 = Some (r, s')"
        unfolding next_step_eq by blast
      then have "fair due a nonce ?s s'"
      proof cases
        case lost
        then show ?thesis using pure_eq [OF lost] by (intro fair_unsent) auto
      next
        case rate
        then show ?thesis using pure_eq [OF rate(1)] fxGap_result [OF rate(2)] by simp
      qed
      then show ?thesis by (rule fair_from [rotated 2]) simp_all
    next
      case fresh: True
      have read: "\<exists>read w w'. pa_fx a = Some read \<and> read (pa_at a) w = (Inr (Inr q), w')"
        using f Inr by (auto simp: readFxOrUnreachable_def split: option.splits prod.splits sum.splits)
      have "quoteAndSubmit p a window nonce scaled (Some q) ?s = Some (r, s')"
        using run True f Inr fresh by (simp add: convert_def)
      then have "fair due a nonce ?s s'"
      proof (rule quoteAndSubmit_result)
        fix amount assume "0 < amount" and "amountBaseUnitsQuoted (pa_kwhMilli a) scaled (pa_mintDecimals a)
          (Some (case pa_quoteCurrency a of None \<Rightarrow> SEK | Some c \<Rightarrow> c)) (map_option fq_usd (Some q)) (map_option fq_sek (Some q)) = Inr amount"
        then have "priced p a window amount" unfolding priced_def
          using price True fresh read by (intro exI [of _ scaled] exI [of _ "Some q"]) simp
        then show "due a (rn_journal ?s) nonce amount" using due \<open>0 < amount\<close> by simp
      qed
      then show ?thesis by (rule fair_from [rotated 2]) simp_all
    qed
  qed
qed

lemma priceWindow_result:
  assumes run: "priceWindow p a found nonce s = Some (r, s')"
    and due: "\<And>window amount. found = Some window \<Longrightarrow> windowStartsAtSlot p window (pa_at a) \<Longrightarrow> priced p a window amount \<Longrightarrow>
      0 < amount \<Longrightarrow> due a (rn_journal s) nonce amount"
  shows "fair due a nonce s s'"
proof (cases found)
  case None
  then show ?thesis using run unfolding priceWindow_def by (auto intro: gap_fair)
next
  case (Some window)
  show ?thesis
  proof (cases "windowStartsAtSlot p window (pa_at a)")
    case False
    then show ?thesis using run Some unfolding priceWindow_def by (auto intro: gap_fair)
  next
    case starts: True
    show ?thesis
    proof (cases "sekPerKwhToScaled (pw_sekPerKwh window)")
      case (Inl e)
      then show ?thesis using run Some starts unfolding priceWindow_def Let_def by (auto intro: gap_fair)
    next
      case (Inr scaled)
      show ?thesis
      proof (cases "scaled < 0")
        case True
        then have "write_row (rowBase p a (Some window) nonce 0 skipped ''negative price'' None None None None) pr_skipped s = Some (r, s')"
          using run Some starts Inr by (simp add: priceWindow_def)
        then show ?thesis by (rule fair_unsent [OF write_row_result]) (simp add: row_justified_def)
      next
        case False
        then have "convert p a window nonce scaled s = Some (r, s')"
          using run Some starts Inr by (simp add: priceWindow_def)
        then show ?thesis
          by (rule convert_result [OF _ Inr]) (use False due [OF Some starts] in simp_all)
      qed
    qed
  qed
qed

lemma chargeUnsettled_result:
  assumes run: "chargeUnsettled p a found nonce s = Some (r, s')"
    and due: "\<And>window amount. found = Some window \<Longrightarrow> windowStartsAtSlot p window (pa_at a) \<Longrightarrow> priced p a window amount \<Longrightarrow>
      0 < amount \<Longrightarrow> (\<forall>rd. pa_reader a = Some rd \<longrightarrow> (\<exists>w w'. rd_recordedCharge rd nonce w = (Inr None, w'))) \<Longrightarrow>
      due a (rn_journal s) nonce amount"
  shows "fair due a nonce s s'"
proof (cases "pa_reader a")
  case None
  then have "priceWindow p a found nonce s = Some (r, s')" using run by (simp add: chargeUnsettled_def)
  then show ?thesis by (rule priceWindow_result) (use due None in simp)
next
  case (Some rd)
  then obtain answer s1 where b: "backed p ''recorded charge'' [] (rd_recordedCharge rd nonce) s = Some (answer, s1)"
    using run by (auto simp: chargeUnsettled_def split: option.splits)
  have same: "rn_journal s1 = rn_journal s" "rn_sent s1 = rn_sent s" using backed_result(1,2) [OF b] by auto
  have "fair due a nonce s1 s'"
  proof (cases answer)
    case (Inl e)
    then have "deferring p a found nonce (fail e) e s1 = Some (r, s')" using run Some b by (simp add: chargeUnsettled_def)
    then show ?thesis by (intro fair_unsent) (rule deferring_result)
  next
    case (Inr recorded)
    have read: "\<exists>w w'. rd_recordedCharge rd nonce w = (Inr recorded, w')" by (rule backed_result(3) [OF b Inr])
    show ?thesis
    proof (cases recorded)
      case None
      then have "priceWindow p a found nonce s1 = Some (r, s')" using run Some b Inr by (simp add: chargeUnsettled_def)
      then show ?thesis by (rule priceWindow_result) (use due read None Some same in auto)
    next
      case (Some c)
      then have "writeRecovered p a found nonce c s1 = Some (r, s')"
        using run \<open>pa_reader a = Some rd\<close> b Inr by (simp add: chargeUnsettled_def)
      then show ?thesis using read Some by (intro fair_unsent) (metis writeRecovered_result \<open>pa_reader a = Some rd\<close>)
    qed
  qed
  then show ?thesis by (rule fair_from [OF same])
qed

lemma decideWindow_result:
  assumes run: "decideWindow p a found nonce s = Some (r, s')"
    and window: "\<And>window. found = Some window \<Longrightarrow> \<exists>w w'. pa_getWindow a (pa_at a) w = (Inr (Some window), w')"
  shows "fair (charge_is_due p) a nonce s s' \<and> (hasNonce (rn_journal s) nonce \<longrightarrow> s' = s)"
proof (cases "hasNonce (rn_journal s) nonce")
  case True
  then have "s' = s" using run by (simp add: decideWindow_def)
  then show ?thesis by (simp add: fair_unsent adds_none)
next
  case new: False
  obtain answer s1 where b: "readSettled p a s = Some (answer, s1)"
    using run new by (auto simp: decideWindow_def split: option.splits)
  note settled = readSettled_result [OF b]
  then have same: "rn_journal s1 = rn_journal s" "rn_sent s1 = rn_sent s" by simp_all
  have "fair (charge_is_due p) a nonce s1 s'"
  proof (cases answer)
    case (Inl e)
    then have "deferring p a found nonce (fail e) e s1 = Some (r, s')" using run new b by (simp add: decideWindow_def)
    then show ?thesis by (intro fair_unsent) (rule deferring_result)
  next
    case (Inr latest)
    then have read: "settled_read a (rn_journal s1) latest" using settled by simp
    show ?thesis
    proof (cases "nonce \<le> latest")
      case True
      then have "on_error (closeAlreadySettled p a found nonce latest None) (\<lambda>e. deferring p a found nonce (fail e) e) s1 = Some (r, s')"
        using run new b Inr by (simp add: decideWindow_def)
      then show ?thesis
        by (intro fair_unsent, rule on_error_result) (use closeAlreadySettled_result closing_error read in blast)+
    next
      case False
      then have "chargeUnsettled p a found nonce s1 = Some (r, s')" using run new b Inr by (simp add: decideWindow_def)
      then show ?thesis
        by (rule chargeUnsettled_result) (use window False read new same in \<open>auto simp: charge_is_due_def\<close>)
    qed
  qed
  then show ?thesis using new by (simp add: fair_from [OF same])
qed

lemma processWindow_result:
  assumes run: "processWindow p a s = Some (r, s')"
  shows "rn_journal s' = rn_journal s \<and> rn_sent s' = rn_sent s \<or>
    (\<exists>nonce. nonceFromSlot (pf_dateParse p) (pf_toIso p) (pa_at a) = Inr nonce \<and>
       fair (charge_is_due p) a nonce s s' \<and> \<not> hasNonce (rn_journal s) nonce)"
proof -
  let ?feed = "feed_loop a (case pa_feedAttempts a of None \<Rightarrow> 5 | Some n \<Rightarrow> n)"
  consider (lost) e where "?feed s = Some (Inl e, s')"
    | (read) found s1 where "?feed s = Some (Inr found, s1)"
        "(case nonceFromSlot (pf_dateParse p) (pf_toIso p) (pa_at a) of
            Inl e \<Rightarrow> Some (Inl e, s1) | Inr nonce \<Rightarrow> decideWindow p a found nonce s1) = Some (r, s')"
    using run unfolding processWindow_def next_step_eq by blast
  then show ?thesis
  proof cases
    case lost
    then show ?thesis using feed_loop_result [OF lost] by blast
  next
    case read
    note feed = feed_loop_result [OF read(1)]
    show ?thesis
    proof (cases "nonceFromSlot (pf_dateParse p) (pf_toIso p) (pa_at a)")
      case (Inl e)
      then show ?thesis using read(2) feed by simp
    next
      case (Inr nonce)
      then have "decideWindow p a found nonce s1 = Some (r, s')" using read(2) by simp
      then have "fair (charge_is_due p) a nonce s1 s' \<and> (hasNonce (rn_journal s1) nonce \<longrightarrow> s' = s1)"
        by (rule decideWindow_result) (use feed in blast)
      then show ?thesis using feed Inr fair_from [of s1 s] by metis
    qed
  qed
qed

end
