(* ===== verification/Watch_Due.thy ===== *)
theory Watch_Due
  imports Watch_Safety "HOL-Library.Sublist"
begin

text \<open>
  A pass of the watcher over the slots that are due (\<^verbatim>\<open>watcher/src/cadence.ts\<close>, \<^verbatim>\<open>watcher/src/index.ts\<close>,
  \<open>withJournalAndFeed\<close> and \<open>processDue\<close>): the repair of the journal, then one \<open>processWindow\<close> for every
  slot without a decision, and what holds of the journal and of the charges afterwards. The clock of
  Stockholm is a parameter; the repair list and the upload of the journal are calls.
\<close>

section \<open>Cadence\<close>

definition CADENCE_HOURS :: "int list" where "CADENCE_HOURS = [0, 6, 12, 18]"

record Wall =
  wl_year :: int
  wl_month :: int
  wl_day :: int
  wl_hour :: int
  wl_minute :: int
  wl_second :: int

text \<open>\<open>Date.UTC\<close>, months counted from one: milliseconds since 1970 of a civil time.\<close>

definition date_utc :: "int \<Rightarrow> int \<Rightarrow> int \<Rightarrow> int \<Rightarrow> int \<Rightarrow> int \<Rightarrow> int" where
  "date_utc y m d h mi s =
     ((((d + days_before y m + 365 * y + leap_days (y - 1) - 719528) * 24 + h) * 60 + mi) * 60 + s) * 1000"

definition zoneOffsetMs :: "(int \<Rightarrow> Wall) \<Rightarrow> int \<Rightarrow> int" where
  "zoneOffsetMs wallInZone instant =
     (let wall = wallInZone instant in
      date_utc (wl_year wall) (wl_month wall) (wl_day wall) (wl_hour wall) (wl_minute wall) (wl_second wall) - instant)"

definition zonedLocalToDate :: "(int \<Rightarrow> Wall) \<Rightarrow> int \<Rightarrow> int \<Rightarrow> int \<Rightarrow> int \<Rightarrow> int \<Rightarrow> int" where
  "zonedLocalToDate wallInZone year month day hour minute =
     (let utcGuess = date_utc year month day hour minute 0;
          offset = zoneOffsetMs wallInZone utcGuess;
          offset2 = zoneOffsetMs wallInZone (utcGuess - offset)
      in if offset2 \<noteq> offset then utcGuess - offset2 else utcGuess - offset)"

definition slot_at :: "(int \<Rightarrow> Wall) \<Rightarrow> Wall \<Rightarrow> int \<Rightarrow> int" where
  "slot_at wallInZone wall hour = zonedLocalToDate wallInZone (wl_year wall) (wl_month wall) (wl_day wall) hour 0"

definition dueSlots :: "(int \<Rightarrow> Wall) \<Rightarrow> int \<Rightarrow> int list" where
  "dueSlots wallInZone now = filter (\<lambda>slot. slot \<le> now) (map (slot_at wallInZone (wallInZone now)) CADENCE_HOURS)"

definition nextSlot :: "(int \<Rightarrow> Wall) \<Rightarrow> int \<Rightarrow> int" where
  "nextSlot wallInZone now =
     (case filter (\<lambda>slot. slot > now) (map (slot_at wallInZone (wallInZone now)) CADENCE_HOURS) of
        slot # _ \<Rightarrow> slot
      | [] \<Rightarrow>
          let tomorrow = slot_at wallInZone (wallInZone now) 0 + 36 * 60 * 60 * 1000
          in slot_at wallInZone (wallInZone tomorrow) 0)"

definition msUntil :: "int \<Rightarrow> int \<Rightarrow> int" where
  "msUntil later now = (let delta = later - now in if delta > 0 then delta else 0)"

section \<open>A pass\<close>

definition persistFailureLine :: "JournalRow option \<Rightarrow> string" where
  "persistFailureLine row =
     (case row of
        None \<Rightarrow> ''could not record journal: no local row after the chain decision''
      | Some r \<Rightarrow>
          ''could not record '' @
          (case jr_decision r of paid \<Rightarrow> ''paid'' | refused \<Rightarrow> ''refused'' | gap \<Rightarrow> ''gap'' | skipped \<Rightarrow> ''skipped'') @
          '' nonce='' @ jr_nonce r @ '' sig='' @ (case jr_signature r of None \<Rightarrow> ''-'' | Some sig \<Rightarrow> sig))"

text \<open>\<open>store\<close> uploads the rows of the journal, when a remote journal is configured.\<close>

definition persistRecordedDecision ::
  "(JournalRow list \<Rightarrow> 'w \<Rightarrow> (js_exn + unit) \<times> 'w) option \<Rightarrow> JournalRow option \<Rightarrow> ('w, unit) step" where
  "persistRecordedDecision store row s =
     (case store of
        None \<Rightarrow> Some (Inr (), s)
      | Some upload \<Rightarrow>
          (case upload (rn_journal s) (rn_world s) of
             (Inr _, w) \<Rightarrow> Some (Inr (), s\<lparr>rn_world := w\<rparr>)
           | (Inl _, w) \<Rightarrow> Some (Inl (plainError (persistFailureLine row)), s\<lparr>rn_world := w\<rparr>)))"

definition lastAppendedAfter :: "('w, 'a) step \<Rightarrow> ('w, 'a \<times> JournalRow option) step" where
  "lastAppendedAfter m s =
     next_step m (\<lambda>r s'. Some (Inr (r, if length (rn_journal s') > length (rn_journal s) then Some (last (rn_journal s')) else None), s')) s"

record 'w journal_calls =
  jc_fetch :: "(int \<Rightarrow> bool) \<Rightarrow> 'w \<Rightarrow> (js_exn + ChainDecision list) \<times> 'w"
  jc_store :: "(JournalRow list \<Rightarrow> 'w \<Rightarrow> (js_exn + unit) \<times> 'w) option"

definition slot_nonce :: "'w platform \<Rightarrow> int \<Rightarrow> js_exn + int" where
  "slot_nonce p slot = nonceFromSlot (pf_dateParse p) (pf_toIso p) slot"

text \<open>\<open>some\<close> over the due slots: whether one is not decided. A slot before the epoch throws.\<close>

fun some_undecided :: "'w platform \<Rightarrow> int list \<Rightarrow> ('w, bool) step" where
  "some_undecided p [] s = Some (Inr False, s)"
| "some_undecided p (slot # slots) s =
     (case slot_nonce p slot of
        Inl e \<Rightarrow> Some (Inl e, s)
      | Inr nonce \<Rightarrow> if hasNonce (rn_journal s) nonce then some_undecided p slots s else Some (Inr True, s))"

definition apply_repair :: "'w platform \<Rightarrow> 'w journal_calls \<Rightarrow> ChainDecision list \<Rightarrow> ('w, unit) step" where
  "apply_repair p c entries s =
     (let (rows, repaired) = repairJournalFromChain (pf_toIso p) (rn_journal s) entries; s' = s\<lparr>rn_journal := rows\<rparr> in
      if repaired > 0 then persistRecordedDecision (jc_store c) (Some (last rows)) s' else Some (Inr (), s'))"

definition repair_journal :: "'w platform \<Rightarrow> 'w journal_calls \<Rightarrow> ('w, unit) step" where
  "repair_journal p c s =
     (case backed p ''journal repair'' [] (jc_fetch c (hasNonce (rn_journal s))) s of
        None \<Rightarrow> None
      | Some (Inl e, s') \<Rightarrow> if isRateLimitError e then apply_repair p c [] s' else Some (Inl e, s')
      | Some (Inr entries, s') \<Rightarrow> apply_repair p c entries s')"

definition withJournalAndFeed :: "'w platform \<Rightarrow> 'w journal_calls \<Rightarrow> int list \<Rightarrow> ('w, unit) step" where
  "withJournalAndFeed p c slots =
     next_step (some_undecided p slots) (\<lambda>missing. if missing then repair_journal p c else give ())"

fun process_slots :: "'w platform \<Rightarrow> 'w journal_calls \<Rightarrow> 'w ProcessWindowArgs \<Rightarrow> int list \<Rightarrow> bool \<Rightarrow> ('w, bool) step" where
  "process_slots p c a [] deferred s = Some (Inr deferred, s)"
| "process_slots p c a (slot # slots) deferred s =
     (case slot_nonce p slot of
        Inl e \<Rightarrow> Some (Inl e, s)
      | Inr nonce \<Rightarrow>
          if hasNonce (rn_journal s) nonce then process_slots p c a slots deferred s
          else
            next_step (lastAppendedAfter (processWindow p (a\<lparr>pa_at := slot\<rparr>))) (\<lambda>(result, row).
              next_step (persistRecordedDecision (jc_store c) row) (\<lambda>_.
                process_slots p c a slots (deferred \<or> result = pr_deferred))) s)"

text \<open>The value is whether a slot was put off by a rate limit.\<close>

definition processDue :: "(int \<Rightarrow> Wall) \<Rightarrow> 'w platform \<Rightarrow> 'w journal_calls \<Rightarrow> 'w ProcessWindowArgs \<Rightarrow> int \<Rightarrow> ('w, bool) step" where
  "processDue wallInZone p c a now =
     next_step (withJournalAndFeed p c (dueSlots wallInZone now)) (\<lambda>_. process_slots p c a (dueSlots wallInZone now) False)"

section \<open>One decision for each slot\<close>

definition clean :: "JournalRow list \<Rightarrow> bool" where
  "clean rows \<longleftrightarrow>
     distinct (map jr_nonce (filter (\<lambda>row. jr_decision row \<in> TERMINAL) rows)) \<and>
     distinct (map (\<lambda>row. (jr_nonce row, jr_reason row)) (filter (\<lambda>row. jr_decision row = gap) rows))"

lemma not_terminal: "d \<notin> TERMINAL \<longleftrightarrow> d = gap"
  by (cases d) (simp_all add: TERMINAL_def)

lemma hasNonce_terminal: "hasNonce rows nonce \<longleftrightarrow> int_str nonce \<in> jr_nonce ` set (filter (\<lambda>row. jr_decision row \<in> TERMINAL) rows)"
  by (force simp: hasNonce_def list_ex_iff)

lemma hasGap_reason:
  "hasGap rows nonce (Some reason) \<longleftrightarrow>
     (int_str nonce, reason) \<in> (\<lambda>row. (jr_nonce row, jr_reason row)) ` set (filter (\<lambda>row. jr_decision row = gap) rows)"
  by (force simp: hasGap_def list_ex_iff)

lemma clean_snoc:
  assumes "clean rows" "jr_nonce row = int_str nonce"
    and "jr_decision row \<in> TERMINAL \<longrightarrow> \<not> hasNonce rows nonce"
    and "jr_decision row = gap \<longrightarrow> \<not> hasGap rows nonce (Some (jr_reason row))"
  shows "clean (rows @ [row])"
proof (cases "jr_decision row = gap")
  case True
  then have "jr_decision row \<notin> TERMINAL" by (simp add: not_terminal)
  then show ?thesis using True assms by (simp add: clean_def hasGap_reason)
next
  case False
  then have "jr_decision row \<in> TERMINAL" using not_terminal by blast
  then show ?thesis using False assms by (simp add: clean_def hasNonce_terminal)
qed

lemma fair_clean:
  assumes "fair due a nonce s s'" "\<not> hasNonce (rn_journal s) nonce" "clean (rn_journal s)"
  shows "clean (rn_journal s')"
  using assms clean_snoc by (auto simp: fair_def adds_row_def row_justified_def)

lemma repair_clean: "clean rows \<Longrightarrow> clean (fst (repairJournalFromChain toIso rows ds))"
proof (induction ds arbitrary: rows)
  case (Cons d ds)
  have new: "clean (rows @ [chainDecisionToRow toIso d])" if "\<not> hasNonce rows (hd_nonce d)"
    using that Cons.prems chain_row_nonce [of toIso d] not_terminal by (intro clean_snoc [of _ _ "hd_nonce d"]) auto
  show ?case
  proof (cases "hasNonce rows (hd_nonce d)")
    case False
    then show ?thesis using Cons.IH [OF new] by (auto split: prod.splits)
  qed (simp add: Cons)
qed simp

section \<open>Steps of a pass\<close>

text \<open>A pass keeps every row, stays clean, and sends only what is due when it is sent.\<close>

definition charges_due :: "'w platform \<Rightarrow> 'w ProcessWindowArgs \<Rightarrow> int list \<Rightarrow> 'w run \<Rightarrow> 'w run \<Rightarrow> bool" where
  "charges_due p a slots s s' \<longleftrightarrow>
     (\<exists>new. rn_sent s' = rn_sent s @ new \<and>
        (\<forall>c \<in> set new. \<exists>slot \<in> set slots. slot_nonce p slot = Inr (snd c) \<and>
           (\<exists>rows. prefix (rn_journal s) rows \<and> prefix rows (rn_journal s') \<and>
              charge_is_due p (a\<lparr>pa_at := slot\<rparr>) rows (snd c) (fst c))))"

definition good_pass :: "'w platform \<Rightarrow> 'w ProcessWindowArgs \<Rightarrow> int list \<Rightarrow> 'w run \<Rightarrow> 'w run \<Rightarrow> bool" where
  "good_pass p a slots s s' \<longleftrightarrow>
     prefix (rn_journal s) (rn_journal s') \<and> (clean (rn_journal s) \<longrightarrow> clean (rn_journal s')) \<and> charges_due p a slots s s'"

lemma good_same: "rn_journal s' = rn_journal s \<Longrightarrow> rn_sent s' = rn_sent s \<Longrightarrow> good_pass p a slots s s'"
  by (simp add: good_pass_def charges_due_def)

lemma good_trans:
  assumes "good_pass p a slots s s1" "good_pass p a slots' s1 s'" "set slots \<subseteq> set all" "set slots' \<subseteq> set all"
  shows "good_pass p a all s s'"
proof -
  have pre: "prefix (rn_journal s) (rn_journal s1)" "prefix (rn_journal s1) (rn_journal s')"
    using assms(1,2) by (simp_all add: good_pass_def)
  obtain new new' where sent: "rn_sent s1 = rn_sent s @ new" "rn_sent s' = rn_sent s1 @ new'"
    and due: "\<forall>c \<in> set new. \<exists>slot \<in> set slots. slot_nonce p slot = Inr (snd c) \<and>
        (\<exists>rows. prefix (rn_journal s) rows \<and> prefix rows (rn_journal s1) \<and> charge_is_due p (a\<lparr>pa_at := slot\<rparr>) rows (snd c) (fst c))"
      "\<forall>c \<in> set new'. \<exists>slot \<in> set slots'. slot_nonce p slot = Inr (snd c) \<and>
        (\<exists>rows. prefix (rn_journal s1) rows \<and> prefix rows (rn_journal s') \<and> charge_is_due p (a\<lparr>pa_at := slot\<rparr>) rows (snd c) (fst c))"
    using assms(1,2) unfolding good_pass_def charges_due_def by blast
  have "charges_due p a all s s'"
    unfolding charges_due_def
  proof (intro exI [of _ "new @ new'"] conjI ballI)
    fix c assume "c \<in> set (new @ new')"
    then consider "c \<in> set new" | "c \<in> set new'" by auto
    then show "\<exists>slot \<in> set all. slot_nonce p slot = Inr (snd c) \<and>
        (\<exists>rows. prefix (rn_journal s) rows \<and> prefix rows (rn_journal s') \<and> charge_is_due p (a\<lparr>pa_at := slot\<rparr>) rows (snd c) (fst c))"
      using due assms(3,4) pre by cases (meson prefix_order.trans subsetD)+
  qed (simp add: sent)
  then show ?thesis using assms(1,2) pre unfolding good_pass_def by (auto intro: prefix_order.trans)
qed

lemma persist_result:
  "persistRecordedDecision store row s = Some (r, s') \<Longrightarrow> rn_journal s' = rn_journal s \<and> rn_sent s' = rn_sent s"
  by (auto simp: persistRecordedDecision_def split: option.splits prod.splits sum.splits)

lemma some_undecided_result: "some_undecided p slots s = Some (r, s') \<Longrightarrow> s' = s"
  by (induction slots) (auto split: sum.splits if_splits)

lemma apply_repair_good:
  assumes "apply_repair p c entries s = Some (r, s')"
  shows "good_pass p a slots s s'"
proof -
  obtain rows n where rep: "repairJournalFromChain (pf_toIso p) (rn_journal s) entries = (rows, n)" by fastforce
  then have "rn_journal s' = rows \<and> rn_sent s' = rn_sent s"
    using assms by (auto simp: apply_repair_def Let_def dest: persist_result split: if_splits)
  moreover have "prefix (rn_journal s) rows" using repair_appends [OF rep] by auto
  moreover have "clean (rn_journal s) \<longrightarrow> clean rows" using repair_clean [of "rn_journal s" "pf_toIso p" entries] rep by simp
  ultimately show ?thesis by (simp add: good_pass_def charges_due_def)
qed

lemma repair_journal_good:
  assumes "repair_journal p c s = Some (r, s')"
  shows "good_pass p a slots s s'"
proof -
  obtain answer s1 where b: "backed p ''journal repair'' [] (jc_fetch c (hasNonce (rn_journal s))) s = Some (answer, s1)"
    using assms by (auto simp: repair_journal_def split: option.splits)
  have same: "good_pass p a slots s s1" using backed_result(1,2) [OF b] by (intro good_same) auto
  have "good_pass p a slots s1 s'"
  proof (cases answer)
    case (Inl e)
    then show ?thesis using assms b by (auto simp: repair_journal_def intro: apply_repair_good good_same split: if_splits)
  next
    case (Inr entries)
    then show ?thesis using assms b by (auto simp: repair_journal_def intro: apply_repair_good)
  qed
  then show ?thesis using good_trans [OF same] by blast
qed

lemma withJournalAndFeed_good:
  assumes "withJournalAndFeed p c slots' s = Some (r, s')"
  shows "good_pass p a slots s s'"
  using assms some_undecided_result repair_journal_good good_same
  unfolding withJournalAndFeed_def next_step_eq give_def by (fastforce split: if_splits)

lemma window_good:
  assumes "processWindow p (a\<lparr>pa_at := slot\<rparr>) s = Some (r, s')"
  shows "good_pass p a [slot] s s'"
  using processWindow_result [OF assms]
proof
  assume "rn_journal s' = rn_journal s \<and> rn_sent s' = rn_sent s"
  then show ?thesis by (intro good_same) simp_all
next
  assume "\<exists>nonce. nonceFromSlot (pf_dateParse p) (pf_toIso p) (pa_at (a\<lparr>pa_at := slot\<rparr>)) = Inr nonce \<and>
       fair (charge_is_due p) (a\<lparr>pa_at := slot\<rparr>) nonce s s' \<and> \<not> hasNonce (rn_journal s) nonce"
  then obtain nonce where n: "slot_nonce p slot = Inr nonce" "fair (charge_is_due p) (a\<lparr>pa_at := slot\<rparr>) nonce s s'"
      "\<not> hasNonce (rn_journal s) nonce"
    by (auto simp: slot_nonce_def)
  have "prefix (rn_journal s) (rn_journal s')" using n(2) by (auto simp: fair_def adds_row_def)
  moreover obtain amount k where sent: "rn_sent s' = rn_sent s @ replicate k (amount, nonce)"
      "k > 0 \<longrightarrow> charge_is_due p (a\<lparr>pa_at := slot\<rparr>) (rn_journal s) nonce amount"
    using n(2) by (auto simp: fair_def)
  ultimately have "charges_due p a [slot] s s'"
    unfolding charges_due_def using n(1) by (intro exI [of _ "replicate k (amount, nonce)"]) auto
  then show ?thesis using \<open>prefix _ _\<close> fair_clean [OF n(2,3)] by (simp add: good_pass_def)
qed

lemma process_slots_good:
  "process_slots p c a slots deferred s = Some (r, s') \<Longrightarrow> good_pass p a slots s s'"
proof (induction slots arbitrary: deferred s)
  case Nil
  then show ?case by (simp add: good_same)
next
  case (Cons slot slots)
  show ?case
  proof (cases "slot_nonce p slot")
    case (Inl e)
    then show ?thesis using Cons.prems by (simp add: good_same)
  next
    case (Inr nonce)
    show ?thesis
    proof (cases "hasNonce (rn_journal s) nonce")
      case True
      then have "good_pass p a slots s s'" using Cons Inr by simp
      then show ?thesis using good_trans [OF good_same [OF refl refl]] by (metis set_subset_Cons)
    next
      case False
      let ?window = "processWindow p (a\<lparr>pa_at := slot\<rparr>)"
      let ?after = "\<lambda>(result, row). next_step (persistRecordedDecision (jc_store c) row) (\<lambda>_.
                process_slots p c a slots (deferred \<or> result = pr_deferred))"
      have run: "next_step (lastAppendedAfter ?window) ?after s = Some (r, s')" using Cons.prems Inr False by simp
      consider (lost) e where "?window s = Some (Inl e, s')"
        | (decided) v s1 row where "?window s = Some (Inr v, s1)"
            "next_step (persistRecordedDecision (jc_store c) row) (\<lambda>_. process_slots p c a slots (deferred \<or> v = pr_deferred)) s1 = Some (r, s')"
        using run unfolding next_step_eq [of "lastAppendedAfter ?window"] lastAppendedAfter_def next_step_eq [of ?window] by auto
      then show ?thesis
      proof cases
        case lost
        show ?thesis by (rule good_trans [OF window_good [OF lost] good_same [OF refl refl, where slots = slots]]) auto
      next
        case decided
        have to: "good_pass p a (slot # slots) s s2" if "rn_journal s2 = rn_journal s1 \<and> rn_sent s2 = rn_sent s1" for s2
          by (rule good_trans [OF window_good [OF decided(1)] good_same [where slots = slots]]) (use that in auto)
        from decided(2) consider e where "persistRecordedDecision (jc_store c) row s1 = Some (Inl e, s')"
          | u s2 where "persistRecordedDecision (jc_store c) row s1 = Some (Inr u, s2)"
              "process_slots p c a slots (deferred \<or> v = pr_deferred) s2 = Some (r, s')"
          unfolding next_step_eq by blast
        then show ?thesis
        proof cases
          case 1
          then show ?thesis by (intro to) (rule persist_result)
        next
          case 2
          show ?thesis
            by (rule good_trans [OF to [OF persist_result [OF 2(1)]] Cons.IH [OF 2(2)]]) auto
        qed
      qed
    qed
  qed
qed

lemma processDue_good:
  assumes "processDue wallInZone p c a now s = Some (r, s')"
  shows "good_pass p a (dueSlots wallInZone now) s s'"
proof -
  consider (lost) e where "withJournalAndFeed p c (dueSlots wallInZone now) s = Some (Inl e, s')"
    | (ready) u s1 where "withJournalAndFeed p c (dueSlots wallInZone now) s = Some (Inr u, s1)"
        "process_slots p c a (dueSlots wallInZone now) False s1 = Some (r, s')"
    using assms unfolding processDue_def next_step_eq by blast
  then show ?thesis
  proof cases
    case lost
    then show ?thesis by (rule withJournalAndFeed_good)
  next
    case ready
    then show ?thesis
      using good_trans [OF withJournalAndFeed_good [OF ready(1)] process_slots_good [OF ready(2)]] by blast
  qed
qed

section \<open>Every slot is accounted for\<close>

definition accounted :: "int \<Rightarrow> ProcessResult \<Rightarrow> JournalRow list \<Rightarrow> bool" where
  "accounted nonce r rows \<longleftrightarrow>
     (case r of
        pr_gap \<Rightarrow> hasGap rows nonce None
      | pr_deferred \<Rightarrow> hasGap rows nonce (Some RATE_LIMIT_GAP_REASON)
      | _ \<Rightarrow> hasNonce rows nonce)"

definition accounts :: "int \<Rightarrow> ('w, ProcessResult) step \<Rightarrow> bool" where
  "accounts nonce m \<longleftrightarrow> (\<forall>s r s'. m s = Some (Inr r, s') \<longrightarrow> accounted nonce r (rn_journal s'))"

lemma accountsD: "accounts nonce m \<Longrightarrow> m s = Some (Inr r, s') \<Longrightarrow> accounted nonce r (rn_journal s')"
  by (simp add: accounts_def)

lemma accounts_next: "(\<And>x. accounts nonce (f x)) \<Longrightarrow> accounts nonce (next_step m f)"
  unfolding accounts_def next_step_eq by blast

lemma accounts_error: "accounts nonce m \<Longrightarrow> (\<And>e. accounts nonce (h e)) \<Longrightarrow> accounts nonce (on_error m h)"
  unfolding accounts_def on_error_eq by blast

lemma accounts_write:
  "d \<in> TERMINAL \<Longrightarrow> r = pr_submitted \<or> r = pr_skipped \<Longrightarrow>
   accounts nonce (write_row (rowBase p a window nonce amount d reason code sig override fx) r)"
  by (auto simp: accounts_def accounted_def write_row_def hasNonce_def)

lemma accounts_gap:
  "accounts nonce (gap_once nonce reason (rowBase p a window nonce amount gap reason code sig override fx) pr_gap)"
  by (auto simp: accounts_def accounted_def gap_once_def write_row_def hasGap_def list_ex_iff)

lemma accounts_deferring: "accounts nonce (deferring p a window nonce (fail e') e)"
  by (auto simp: accounts_def accounted_def deferring_def deferRateLimit_def fail_def gap_once_def write_row_def hasGap_def)

lemma accounts_recovered: "accounts nonce (writeRecovered p a window nonce found)"
  unfolding writeRecovered_def
  by (intro accounts_write) (auto simp: decided_def TERMINAL_def split: charge_decision.splits)

lemma accounts_unrecovered: "accounts nonce (closeUnrecovered p a window nonce settled seen)"
  unfolding closeUnrecovered_def by (auto intro!: accounts_write accounts_gap simp: TERMINAL_def)

lemma accounts_closing: "accounts nonce (closeAlreadySettled p a window nonce settled seen)"
  unfolding closeAlreadySettled_def
  by (intro accounts_next) (auto intro: accounts_recovered accounts_unrecovered split: option.splits)

lemma accounts_receipt: "accounts nonce (writeReceipt p a window nonce amount quote receipt)"
  unfolding writeReceipt_def
  by (intro accounts_next accounts_write) (auto simp: decided_def TERMINAL_def split: charge_decision.splits)

lemma accounts_submit: "accounts nonce (submitAmount p a window nonce amount quote)"
proof -
  have again: "accounts nonce (on_error (next_step (readSettled p a) (\<lambda>latest. closeAlreadySettled p a (Some window) nonce latest sig))
      (\<lambda>e. deferring p a (Some window) nonce (fail e) e))" for sig
    by (intro accounts_error accounts_next accounts_closing accounts_deferring)
  show ?thesis
    unfolding accounts_def submitAmount_def
    by (auto split: option.split_asm prod.split_asm sum.split_asm if_split_asm
        intro: accountsD [OF again] accountsD [OF accounts_deferring] accountsD [OF accounts_receipt])
qed

lemma accounts_quote: "accounts nonce (quoteAndSubmit p a window nonce scaled quote)"
  unfolding quoteAndSubmit_def
  by (intro accounts_next) (auto intro: accounts_submit accounts_write simp: TERMINAL_def)

lemma accounts_convert: "accounts nonce (convert p a window nonce scaled)"
proof -
  have stale: "accounts nonce (next_step (pure x) (\<lambda>rate. fxGap p a window nonce reason (Some rate) date source))" for x reason date source
    by (intro accounts_next) (simp add: fxGap_def accounts_gap)
  have out: "accounts nonce (fxGap p a window nonce reason rate date source)" for reason rate date source
    by (simp add: fxGap_def accounts_gap)
  show ?thesis
    unfolding accounts_def convert_def
    by (auto split: prod.split_asm sum.split_asm if_split_asm
        intro: accountsD [OF stale] accountsD [OF out] accountsD [OF accounts_quote])
qed

lemma accounts_price: "accounts nonce (priceWindow p a found nonce)"
  unfolding priceWindow_def Let_def
  by (auto split: option.splits sum.splits intro: accounts_gap accounts_convert accounts_write simp: TERMINAL_def)

lemma accounts_unsettled: "accounts nonce (chargeUnsettled p a found nonce)"
  unfolding accounts_def chargeUnsettled_def
  by (auto split: option.split_asm prod.split_asm sum.split_asm
      intro: accountsD [OF accounts_price] accountsD [OF accounts_deferring] accountsD [OF accounts_recovered])

lemma accounts_decide: "accounts nonce (decideWindow p a found nonce)"
proof -
  have settled: "accounts nonce (on_error (closeAlreadySettled p a found nonce latest None) (\<lambda>e. deferring p a found nonce (fail e) e))" for latest
    by (intro accounts_error accounts_closing accounts_deferring)
  have known: "accounted nonce pr_skipped rows" if "hasNonce rows nonce" for rows using that by (simp add: accounted_def)
  show ?thesis
    unfolding accounts_def decideWindow_def
    by (auto split: option.split_asm prod.split_asm sum.split_asm if_split_asm
        intro: known accountsD [OF settled] accountsD [OF accounts_unsettled] accountsD [OF accounts_deferring])
qed

lemma accounts_window:
  "nonceFromSlot (pf_dateParse p) (pf_toIso p) (pa_at a) = Inr nonce \<Longrightarrow> accounts nonce (processWindow p a)"
  unfolding processWindow_def by (intro accounts_next) (simp add: accounts_def accountsD [OF accounts_decide])

lemma kept_rows:
  "prefix rows rows' \<Longrightarrow> hasNonce rows nonce \<Longrightarrow> hasNonce rows' nonce"
  "prefix rows rows' \<Longrightarrow> hasGap rows nonce reason \<Longrightarrow> hasGap rows' nonce reason"
  by (auto simp: hasNonce_def hasGap_def elim!: prefixE)

definition noted :: "int \<Rightarrow> JournalRow list \<Rightarrow> bool" where
  "noted nonce rows \<longleftrightarrow> hasNonce rows nonce \<or> hasGap rows nonce None"

lemma accounted_noted: "accounted nonce r rows \<Longrightarrow> noted nonce rows"
  by (auto simp: accounted_def noted_def hasGap_def list_ex_iff split: ProcessResult.splits)

lemma process_slots_notes:
  "process_slots p c a slots deferred s = Some (Inr d, s') \<Longrightarrow>
   \<forall>slot \<in> set slots. \<exists>nonce. slot_nonce p slot = Inr nonce \<and> noted nonce (rn_journal s')"
proof (induction slots arbitrary: deferred s)
  case (Cons slot slots)
  obtain nonce where nonce: "slot_nonce p slot = Inr nonce" using Cons.prems by (auto split: sum.splits)
  show ?case
  proof (cases "hasNonce (rn_journal s) nonce")
    case True
    then have run: "process_slots p c a slots deferred s = Some (Inr d, s')" using Cons.prems nonce by simp
    then have "noted nonce (rn_journal s')"
      using process_slots_good [OF run] kept_rows(1) True by (auto simp: good_pass_def noted_def)
    then show ?thesis using Cons.IH [OF run] nonce by simp
  next
    case False
    let ?window = "processWindow p (a\<lparr>pa_at := slot\<rparr>)"
    have "next_step (lastAppendedAfter ?window) (\<lambda>(result, row). next_step (persistRecordedDecision (jc_store c) row) (\<lambda>_.
                process_slots p c a slots (deferred \<or> result = pr_deferred))) s = Some (Inr d, s')"
      using Cons.prems nonce False by simp
    then obtain v s1 row where w: "?window s = Some (Inr v, s1)"
        "next_step (persistRecordedDecision (jc_store c) row) (\<lambda>_. process_slots p c a slots (deferred \<or> v = pr_deferred)) s1 = Some (Inr d, s')"
      unfolding next_step_eq [of "lastAppendedAfter ?window"] lastAppendedAfter_def next_step_eq [of ?window] by auto
    then obtain u s2 where p: "persistRecordedDecision (jc_store c) row s1 = Some (Inr u, s2)"
        "process_slots p c a slots (deferred \<or> v = pr_deferred) s2 = Some (Inr d, s')"
      unfolding next_step_eq by blast
    have "accounts nonce ?window" using nonce by (intro accounts_window) (simp add: slot_nonce_def)
    then have "noted nonce (rn_journal s2)"
      using accountsD [of nonce ?window, OF _ w(1)] persist_result [OF p(1)] accounted_noted by metis
    then have "noted nonce (rn_journal s')"
      using process_slots_good [OF p(2)] kept_rows by (auto simp: good_pass_def noted_def)
    then show ?thesis using Cons.IH [OF p(2)] nonce by simp
  qed
qed simp

section \<open>What a pass guarantees\<close>



text \<open>C22: no due slot is passed over in silence. When a pass ends without throwing, every slot that was due
  has a row: a decision that settles its nonce, or the note of the outage that keeps it due.\<close>

theorem every_due_slot_is_noted:
  assumes "processDue wallInZone p c a now s = Some (Inr d, s')" "slot \<in> set (dueSlots wallInZone now)"
  shows "\<exists>nonce. slot_nonce p slot = Inr nonce \<and> (hasNonce (rn_journal s') nonce \<or> hasGap (rn_journal s') nonce None)"
  using assms process_slots_notes unfolding processDue_def next_step_eq noted_def by (metis Inl_Inr_False)

section \<open>A concrete pass\<close>

text \<open>One slot is due in a zone an hour west of Greenwich; the first send fails and is retried.\<close>

definition demo_wall :: "int \<Rightarrow> Wall" where
  "demo_wall t = \<lparr>wl_year = 1970, wl_month = 1, wl_day = 1, wl_hour = t div 3600000 - 1, wl_minute = 0, wl_second = 0\<rparr>"

definition demo_platform :: "nat platform" where
  "demo_platform =
     \<lparr>pf_parseUrl = \<lambda>_. None, pf_dateParse = \<lambda>_. Some 3600000, pf_toIso = \<lambda>_. ''1970-01-01T01:00:00.000Z'', pf_now = \<lambda>_. ''now'',
      pf_stockholmYmd = \<lambda>_. (''1970'', ''01'', ''01'')\<rparr>"

definition demo_receipt :: ChargeReceipt where
  "demo_receipt = \<lparr>co_decision = cd_paid, co_reason = ''ok'', co_reasonCode = 0, co_suggestedOverride = None, cr_signature = ''sig''\<rparr>"

definition demo_window :: PriceWindow where
  "demo_window = \<lparr>pw_timeStart = ''1970-01-01T00:00:00-01:00'', pw_timeEnd = ''1970-01-01T00:15:00-01:00'', pw_sekPerKwh = ''1.5''\<rparr>"

definition demo_submit :: "int \<Rightarrow> int \<Rightarrow> nat \<Rightarrow> (js_exn + ChargeReceipt) \<times> nat" where
  "demo_submit amount nonce w = (if w = 0 then Inl (plainError ''socket'') else Inr demo_receipt, w + 1)"

definition demo_window_args :: "nat ProcessWindowArgs" where
  "demo_window_args =
     \<lparr>pa_at = 0, pa_getWindow = \<lambda>at w. (Inr (Some demo_window), w), pa_submit = demo_submit, pa_kwhMilli = 50000, pa_mintDecimals = 6,
      pa_feedAttempts = None, pa_feedRetryMs = None, pa_quoteCurrency = None, pa_fx = None,
      pa_reader = Some \<lparr>rd_chainLastNonce = \<lambda>w. (Inr 0, w), rd_recoverSettled = \<lambda>n w. (Inr None, w),
        rd_recordedCharge = \<lambda>n w. (Inr None, w)\<rparr>\<rparr>"

definition demo_calls :: "nat journal_calls" where
  "demo_calls = \<lparr>jc_fetch = \<lambda>held w. (Inr [], w), jc_store = None\<rparr>"

definition demo_start :: "nat run" where
  "demo_start = \<lparr>rn_world = 0, rn_journal = [], rn_sent = [], rn_slept = []\<rparr>"

lemma demo_slots: "dueSlots demo_wall 3600000 = [3600000]"
  by code_simp

lemma demo_nonce: "slot_nonce demo_platform 3600000 = Inr 3600"
  by (simp add: slot_nonce_def nonceFromSlot_def js_rem_def QUARTER_MS_def nonceFromWindowStart_def demo_platform_def)

lemma demo_price: "sekPerKwhToScaled ''1.5'' = Inr 150000000"
proof -
  have "plainDecimal ''1.5'' = ''1.5''" by code_simp
  then show ?thesis
    using parse_plain_decimal [of "''1''" "''5''" False 8]
    by (simp add: sekPerKwhToScaled_def PRICE_SCALE_def all_digits_def is_digit_def sign_text_def sign_of_def shifted_def str_val_def digit_val_def)
qed

lemma demo_window_price: "sekPerKwhToScaled (pw_sekPerKwh demo_window) = Inr 150000000"
  by (simp add: demo_window_def demo_price)

lemma demo_amount: "amountBaseUnitsQuoted 50000 150000000 6 (Some SEK) None None = Inr 75000000"
  by (simp add: amountBaseUnitsQuoted_def amountBaseUnits_def KWH_MILLI_SCALE_def PRICE_SCALE_def)

lemma backed_at_once:
  "f (rn_world s) = (Inr v, w) \<Longrightarrow>
   backed p label charges f s = Some (Inr v, s\<lparr>rn_world := w, rn_sent := rn_sent s @ charges\<rparr>)"
  by (simp add: backed_def withRpcBackoff_def attempt_on_def backoff_from.simps [of _ _ RPC_INITIAL_MS])

lemma demo_send:
  assumes "rn_world s = 0"
  shows "backed demo_platform ''charge'' [c] (demo_submit amount nonce) s =
    Some (Inr demo_receipt, s\<lparr>rn_world := 2, rn_sent := rn_sent s @ [c, c], rn_slept := rn_slept s @ [1000]\<rparr>)"
proof -
  have stop: "given_up (pf_parseUrl demo_platform) ''charge'' (plainError ''socket'') = None" by code_simp
  show ?thesis
    unfolding backed_def withRpcBackoff_def
    apply (subst backoff_from.simps)
    apply (subst backoff_from.simps)
    by (simp add: attempt_on_def demo_submit_def assms stop RPC_INITIAL_MS_def numeral_2_eq_2)
qed

lemma demo_pass:
  "\<exists>s'. processDue demo_wall demo_platform demo_calls demo_window_args 3600000 demo_start = Some (Inr False, s') \<and>
     rn_sent s' = [(75000000, 3600), (75000000, 3600)] \<and> rn_slept s' = [1000] \<and> map jr_decision (rn_journal s') = [paid]"
proof -
  note nonce = demo_nonce [unfolded slot_nonce_def]
  have starts: "windowStartsAtSlot demo_platform demo_window 3600000"
    using nonce by (simp add: windowStartsAtSlot_def nonceFromWindowStart_def demo_platform_def)
  have ready: "withJournalAndFeed demo_platform demo_calls [3600000] demo_start = Some (Inr (), demo_start)"
    by (simp add: withJournalAndFeed_def next_step_def demo_nonce demo_start_def hasNonce_def repair_journal_def
        backed_at_once demo_calls_def apply_repair_def)
  define a where "a = demo_window_args\<lparr>pa_at := 3600000\<rparr>"
  have args: "pa_at a = 3600000" "pa_getWindow a = (\<lambda>at w. (Inr (Some demo_window), w))" "pa_submit a = demo_submit"
      "pa_kwhMilli a = 50000" "pa_mintDecimals a = 6" "pa_feedAttempts a = None" "pa_quoteCurrency a = None"
      "pa_reader a = Some \<lparr>rd_chainLastNonce = \<lambda>w. (Inr 0, w), rd_recoverSettled = \<lambda>n w. (Inr None, w), rd_recordedCharge = \<lambda>n w. (Inr None, w)\<rparr>"
    by (simp_all add: a_def demo_window_args_def)
  define sent :: "nat run" where
    "sent = demo_start\<lparr>rn_world := 2, rn_sent := [(75000000, 3600), (75000000, 3600)], rn_slept := [1000]\<rparr>"
  have start: "rn_world demo_start = 0" "rn_sent demo_start = []" "rn_slept demo_start = []" "rn_journal demo_start = []"
    by (simp_all add: demo_start_def)
  have unchanged: "demo_start\<lparr>rn_world := 0, rn_sent := []\<rparr> = demo_start" "demo_start\<lparr>rn_world := 0\<rparr> = demo_start"
    "demo_start\<lparr>rn_sent := []\<rparr> = demo_start" by (simp_all add: demo_start_def)
  define row where "row = rowBase demo_platform a (Some demo_window) 3600 75000000 paid ''ok'' (Some 0) (Some ''sig'') None None 2"
  have submit: "submitAmount demo_platform a demo_window 3600 75000000 None demo_start = Some (Inr pr_submitted, sent\<lparr>rn_journal := [row]\<rparr>)"
    using demo_send [OF start(1), of "(75000000, 3600)"] start
    by (simp add: submitAmount_def args demo_receipt_def writeReceipt_def fxFields_def next_step_def pure_def write_row_def decided_def
        journalSignature_def sent_def row_def)
  have price: "priceWindow demo_platform a (Some demo_window) 3600 demo_start = Some (Inr pr_submitted, sent\<lparr>rn_journal := [row]\<rparr>)"
    by (simp add: priceWindow_def args starts convert_def quoteAndSubmit_def next_step_def pure_def demo_amount submit
        demo_window_price)
  have decide: "decideWindow demo_platform a (Some demo_window) 3600 demo_start = Some (Inr pr_submitted, sent\<lparr>rn_journal := [row]\<rparr>)"
    by (simp add: decideWindow_def start hasNonce_def readSettled_def args backed_at_once unchanged chargeUnsettled_def price)
  have "feed_loop a (Suc 4) demo_start = Some (Inr (Some demo_window), demo_start)"
    unfolding feed_loop.simps by (simp add: args start unchanged)
  then have feed: "feed_loop a 5 demo_start = Some (Inr (Some demo_window), demo_start)" by simp
  have "processWindow demo_platform a demo_start = Some (Inr pr_submitted, sent\<lparr>rn_journal := [row]\<rparr>)"
    by (simp add: processWindow_def next_step_def args feed nonce decide)
  moreover have "jr_decision row = paid" by (simp add: row_def)
  ultimately have window: "processWindow demo_platform (demo_window_args\<lparr>pa_at := 3600000\<rparr>) demo_start =
      Some (Inr pr_submitted, sent\<lparr>rn_journal := [row]\<rparr>)" "jr_decision row = paid"
    by (simp_all add: a_def)
  have "processDue demo_wall demo_platform demo_calls demo_window_args 3600000 demo_start = Some (Inr False, sent\<lparr>rn_journal := [row]\<rparr>)"
    using ready by (simp add: processDue_def next_step_def demo_slots demo_nonce lastAppendedAfter_def persistRecordedDecision_def demo_calls_def
        start hasNonce_def window(1))
  then show ?thesis using window(2) by (simp add: sent_def)
qed



theorem every_due_slot_is_noted_witness:
  "\<exists>s'. processDue demo_wall demo_platform demo_calls demo_window_args 3600000 demo_start = Some (Inr False, s') \<and>
     (hasNonce (rn_journal s') 3600 \<or> hasGap (rn_journal s') 3600 None)"
proof -
  obtain s' where run: "processDue demo_wall demo_platform demo_calls demo_window_args 3600000 demo_start = Some (Inr False, s')"
    using demo_pass by auto
  show ?thesis using every_due_slot_is_noted [OF run, of 3600000] run by (auto simp: demo_slots demo_nonce)
qed

end
