(* ===== verification/Watch_Live.thy ===== *)
theory Watch_Live
  imports Watch_Due
begin

text \<open>
  A pass of the watcher comes to an end. The retry without a bound is the only loop that may run for ever,
  so a pass returns, with a value or an error, when each call that is retried settles sooner or later.
\<close>

section \<open>Calls that settle\<close>

text \<open>From every world, after finitely many failures that are retried comes an answer that is not.\<close>

definition settles :: "'w platform \<Rightarrow> ('w \<Rightarrow> (js_exn + 'a) \<times> 'w) \<Rightarrow> bool" where
  "settles p f \<longleftrightarrow> (\<forall>w. \<exists>k. \<not> retried (given_up (pf_parseUrl p) []) (answer_at f k w))"

definition returns :: "('w, 'a) step \<Rightarrow> bool" where
  "returns m \<longleftrightarrow> (\<forall>s. m s \<noteq> None)"

lemma retried_label: "retried (given_up u label) answer \<longleftrightarrow> retried (given_up u []) answer"
  by (auto simp: retried_def given_up_def split: sum.splits)

lemma world_of_attempts: "rn_world (world_after (attempt_on f charges) k s) = world_after f k (rn_world s)"
  by (induction k arbitrary: s) (simp_all add: world_after_Suc attempt_on_def split: prod.splits)

lemma answer_of_attempts: "answer_at (attempt_on f charges) k s = answer_at f k (rn_world s)"
  by (simp add: answer_at_def attempt_on_def world_of_attempts split: prod.splits)

lemma returns_backed: "settles p f \<Longrightarrow> returns (backed p label charges f)"
  unfolding returns_def
proof
  fix s assume "settles p f"
  let ?stop = "given_up (pf_parseUrl p) label" and ?f = "attempt_on f charges"
  have ex: "\<exists>k. \<not> retried ?stop (answer_at ?f k s)"
    using \<open>settles p f\<close> unfolding settles_def answer_of_attempts retried_label [of _ label] by blast
  define k where "k = (LEAST k. \<not> retried ?stop (answer_at ?f k s))"
  have "\<not> retried ?stop (answer_at ?f k s)" "\<forall>j < k. retried ?stop (answer_at ?f j s)"
    using LeastI_ex [OF ex] not_less_Least unfolding k_def by blast+
  then show "backed p label charges f s \<noteq> None"
    using backoff_steps [of k ?stop ?f s RPC_INITIAL_MS "[]"] by (simp add: backed_def withRpcBackoff_def)
qed

section \<open>Steps that return\<close>

lemma returnsD: "returns m \<Longrightarrow> m s \<noteq> None"
  by (simp add: returns_def)

lemma returns_next: "returns m \<Longrightarrow> (\<And>x. returns (f x)) \<Longrightarrow> returns (next_step m f)"
  unfolding returns_def next_step_def by (auto split: option.splits prod.splits sum.splits)

lemma returns_error: "returns m \<Longrightarrow> (\<And>e. returns (h e)) \<Longrightarrow> returns (on_error m h)"
  unfolding returns_def on_error_def by (auto split: option.splits prod.splits sum.splits)

text \<open>A step written out as a case distinction on what another step gave.\<close>

lemma case_returns:
  assumes "m s \<noteq> None" "\<And>e s'. h e s' \<noteq> None" "\<And>x s'. f x s' \<noteq> None"
  shows "(case m s of None \<Rightarrow> None | Some (Inl e, s') \<Rightarrow> h e s' | Some (Inr x, s') \<Rightarrow> f x s') \<noteq> None"
proof -
  obtain answer s' where "m s = Some (answer, s')" using assms(1) by auto
  then show ?thesis using assms(2,3) by (cases answer) simp_all
qed

lemma returns_pure: "returns (pure x)"
  by (auto simp: returns_def pure_def split: sum.splits js_error.splits)

lemma returns_write: "returns (write_row row r)"
  by (simp add: returns_def write_row_def)

lemma returns_gap: "returns (gap_once nonce reason row r)"
  by (simp add: returns_def gap_once_def write_row_def)

lemma returns_deferring: "returns (deferring p a window nonce (fail e') e)"
  by (simp add: returns_def deferring_def deferRateLimit_def fail_def gap_once_def write_row_def)

lemma returns_fxGap: "returns (fxGap p a window nonce reason rate date source)"
  unfolding fxGap_def by (rule returns_gap)

lemma returns_feed: "feed_loop a n s \<noteq> None"
  by (induction n arbitrary: s) (auto split: prod.splits sum.splits option.splits)

lemmas returning = returns_write returns_gap returns_deferring returns_fxGap returns_pure

text \<open>The calls of one slot that are retried.\<close>

definition window_settles :: "'w platform \<Rightarrow> 'w ProcessWindowArgs \<Rightarrow> bool" where
  "window_settles p a \<longleftrightarrow>
     (\<forall>amount nonce. settles p (pa_submit a amount nonce)) \<and>
     (case pa_reader a of
        None \<Rightarrow> True
      | Some rd \<Rightarrow> settles p (rd_chainLastNonce rd) \<and> (\<forall>nonce. settles p (rd_recoverSettled rd nonce)) \<and>
          (\<forall>nonce. settles p (rd_recordedCharge rd nonce)))"

lemma returns_settled:
  assumes "window_settles p a"
  shows "returns (readSettled p a)"
proof (cases "pa_reader a")
  case None
  then show ?thesis by (simp add: returns_def readSettled_def)
next
  case (Some rd)
  then have "returns (backed p ''chain last_nonce'' [] (rd_chainLastNonce rd))"
    using assms by (auto simp: window_settles_def intro: returns_backed)
  then show ?thesis by (simp add: returns_def readSettled_def Some del: not_None_eq)
qed

lemma returns_recover: "window_settles p a \<Longrightarrow> returns (recoverPaid p a nonce)"
  unfolding recoverPaid_def
  by (cases "pa_reader a") (auto simp: window_settles_def give_def returns_def [of "give None"] intro: returns_backed)

lemma returns_closing: "window_settles p a \<Longrightarrow> returns (closeAlreadySettled p a window nonce settled seen)"
  unfolding closeAlreadySettled_def
  by (intro returns_next returns_recover)
    (auto simp: closeUnrecovered_def writeRecovered_def intro: returning split: option.splits)

lemma returns_submit:
  assumes "window_settles p a"
  shows "returns (submitAmount p a window nonce amount quote)"
proof -
  have send: "returns (backed p ''charge'' [(amount, nonce)] (pa_submit a amount nonce))"
    using assms by (auto simp: window_settles_def intro: returns_backed)
  have again: "returns (on_error (next_step (readSettled p a) (\<lambda>latest. closeAlreadySettled p a (Some window) nonce latest sig))
      (\<lambda>e. deferring p a (Some window) nonce (fail e) e))" for sig
    by (intro returns_error returns_next returns_settled returns_closing returns_deferring assms)
  have receipt: "returns (writeReceipt p a window nonce amount quote r)" for r
    unfolding writeReceipt_def by (intro returns_next returning)
  show ?thesis
    unfolding returns_def submitAmount_def
    by (intro allI case_returns returnsD [OF send] returnsD [OF returns_deferring])
      (simp add: returnsD [OF again] returnsD [OF receipt] del: not_None_eq)
qed

lemma returns_quote: "window_settles p a \<Longrightarrow> returns (quoteAndSubmit p a window nonce scaled quote)"
  unfolding quoteAndSubmit_def by (intro returns_next returns_pure) (simp add: returns_write returns_submit)

lemma returns_convert:
  assumes "window_settles p a"
  shows "returns (convert p a window nonce scaled)"
proof -
  have stale: "returns (next_step (pure x) (\<lambda>rate. fxGap p a window nonce reason (Some rate) date source))" for x reason date source
    by (intro returns_next returning)
  show ?thesis
    unfolding returns_def convert_def
    by (simp add: returnsD [OF stale] returnsD [OF returns_fxGap] returnsD [OF returns_quote [OF assms]]
        del: not_None_eq split: prod.split sum.split)
qed

lemma returns_price: "window_settles p a \<Longrightarrow> returns (priceWindow p a found nonce)"
  unfolding priceWindow_def Let_def
  by (auto split: option.splits sum.splits intro: returning returns_convert)

lemma returns_unsettled:
  assumes "window_settles p a"
  shows "returns (chargeUnsettled p a found nonce)"
proof (cases "pa_reader a")
  case None
  then show ?thesis using returns_price [OF assms] by (simp add: returns_def chargeUnsettled_def)
next
  case (Some rd)
  have read: "returns (backed p ''recorded charge'' [] (rd_recordedCharge rd nonce))"
    using assms Some by (auto simp: window_settles_def intro: returns_backed)
  have recovered: "returns (writeRecovered p a found nonce c)" for c unfolding writeRecovered_def by (rule returns_write)
  have shape: "chargeUnsettled p a found nonce s =
      (case backed p ''recorded charge'' [] (rd_recordedCharge rd nonce) s of
         None \<Rightarrow> None
       | Some (Inl e, s') \<Rightarrow> deferring p a found nonce (fail e) e s'
       | Some (Inr recorded, s') \<Rightarrow>
           (case recorded of Some c \<Rightarrow> writeRecovered p a found nonce c | None \<Rightarrow> priceWindow p a found nonce) s')" for s
    by (simp add: chargeUnsettled_def Some split: option.split prod.split sum.split)
  show ?thesis
    unfolding returns_def shape
    by (intro allI case_returns returnsD [OF read] returnsD [OF returns_deferring])
      (simp add: returnsD [OF recovered] returnsD [OF returns_price [OF assms]] del: not_None_eq split: option.split)
qed

lemma returns_decide:
  assumes "window_settles p a"
  shows "returns (decideWindow p a found nonce)"
proof -
  have settled: "returns (on_error (closeAlreadySettled p a found nonce latest None) (\<lambda>e. deferring p a found nonce (fail e) e))" for latest
    by (intro returns_error returns_closing returns_deferring assms)
  show ?thesis
    unfolding returns_def
  proof
    fix s
    have "(case readSettled p a s of None \<Rightarrow> None
       | Some (Inl e, s') \<Rightarrow> deferring p a found nonce (fail e) e s'
       | Some (Inr latest, s') \<Rightarrow>
           if nonce \<le> latest
           then on_error (closeAlreadySettled p a found nonce latest None) (\<lambda>e. deferring p a found nonce (fail e) e) s'
           else chargeUnsettled p a found nonce s') \<noteq> None"
      by (intro case_returns returnsD [OF returns_settled [OF assms]] returnsD [OF returns_deferring])
        (simp add: returnsD [OF settled] returnsD [OF returns_unsettled [OF assms]] del: not_None_eq)
    then show "decideWindow p a found nonce s \<noteq> None" by (simp add: decideWindow_def del: not_None_eq)
  qed
qed

lemma returns_window:
  assumes "window_settles p a"
  shows "returns (processWindow p a)"
  unfolding processWindow_def
proof (rule returns_next)
  show "returns (feed_loop a n)" for n unfolding returns_def using returns_feed by blast
  fix found
  show "returns (\<lambda>s. case nonceFromSlot (pf_dateParse p) (pf_toIso p) (pa_at a) of
      Inl e \<Rightarrow> Some (Inl e, s) | Inr nonce \<Rightarrow> decideWindow p a found nonce s)"
    unfolding returns_def
    by (simp add: returnsD [OF returns_decide [OF assms]] del: not_None_eq split: sum.split)
qed

section \<open>Passes that return\<close>

lemma returns_persist: "returns (persistRecordedDecision store row)"
  by (auto simp: returns_def persistRecordedDecision_def split: option.splits prod.splits sum.splits)

lemma returns_undecided: "some_undecided p slots s \<noteq> None"
  by (induction slots) (auto split: sum.splits)

lemma returns_repair:
  assumes "\<And>held. settles p (jc_fetch c held)"
  shows "returns (repair_journal p c)"
proof -
  have applied: "returns (apply_repair p c entries)" for entries
    unfolding returns_def apply_repair_def Let_def
    by (simp add: returnsD [OF returns_persist] del: not_None_eq split: prod.split)
  show ?thesis
    unfolding returns_def repair_journal_def
    by (rule allI, rule case_returns, rule returnsD [OF returns_backed [OF assms]])
      (simp_all add: returnsD [OF applied] del: not_None_eq)
qed

lemma returns_slots:
  assumes "window_settles p a"
  shows "process_slots p c a slots deferred s \<noteq> None"
proof (induction slots arbitrary: deferred s)
  case (Cons slot slots)
  have settled: "window_settles p (a\<lparr>pa_at := slot\<rparr>)" using assms by (simp add: window_settles_def)
  have window: "returns (lastAppendedAfter (processWindow p (a\<lparr>pa_at := slot\<rparr>)))"
    unfolding returns_def lastAppendedAfter_def next_step_def
    by (rule allI, rule case_returns, rule returnsD [OF returns_window [OF settled]]) simp_all
  have "returns (\<lambda>s. process_slots p c a slots d s)" for d using Cons by (simp add: returns_def)
  then have "returns (next_step (lastAppendedAfter (processWindow p (a\<lparr>pa_at := slot\<rparr>))) (\<lambda>(result, row).
              next_step (persistRecordedDecision (jc_store c) row) (\<lambda>_.
                process_slots p c a slots (deferred \<or> result = pr_deferred))))"
    using window returns_persist by (intro returns_next) (auto intro: returns_next)
  then show ?case using Cons by (auto simp: returns_def split: sum.splits)
qed simp

text \<open>C23: a pass of the watcher comes to an end. If from every state of the network the reads of the chain,
  the history and the send each give, after finitely many failures, an answer the retry does not repeat, then the
  pass returns: with its result or with an error, but never by retrying for ever.\<close>

theorem pass_returns:
  assumes "window_settles p a" "\<And>held. settles p (jc_fetch c held)"
  shows "\<exists>r s'. processDue wallInZone p c a now s = Some (r, s')"
proof -
  have "returns (withJournalAndFeed p c slots)" for slots
    unfolding withJournalAndFeed_def
    using returns_repair [OF assms(2)]
    by (intro returns_next) (simp_all add: returns_def give_def returns_undecided del: not_None_eq)
  then have "returns (processDue wallInZone p c a now)"
    unfolding processDue_def
    by (intro returns_next) (simp_all add: returns_def returns_slots [OF assms(1)] del: not_None_eq)
  then have "processDue wallInZone p c a now s \<noteq> None" by (rule returnsD)
  then show ?thesis by auto
qed

theorem pass_returns_witness:
  "window_settles demo_platform demo_window_args \<and>
   (\<exists>r s'. processDue demo_wall demo_platform demo_calls demo_window_args 3600000 demo_start = Some (r, s'))"
proof -
  have at_once: "settles demo_platform f" if "\<And>w. \<exists>v w'. f w = (Inr v, w')" for f :: "nat \<Rightarrow> (js_exn + 'b) \<times> nat"
    unfolding settles_def
  proof
    fix w
    obtain v w' where "f w = (Inr v, w')" using \<open>\<And>w. \<exists>v w'. f w = (Inr v, w')\<close> by blast
    then show "\<exists>k. \<not> retried (given_up (pf_parseUrl demo_platform) []) (answer_at f k w)"
      by (intro exI [of _ 0]) (simp add: answer_at_0 retried_def)
  qed
  have send: "settles demo_platform (demo_submit amount nonce)" for amount nonce
    unfolding settles_def
    by (intro allI exI [of _ 1]) (simp add: answer_at_def world_after_Suc [of _ 0, simplified] demo_submit_def retried_def)
  have "window_settles demo_platform demo_window_args"
    using send by (auto simp: window_settles_def demo_window_args_def intro!: at_once)
  moreover have "settles demo_platform (jc_fetch demo_calls held)" for held
    by (rule at_once) (simp add: demo_calls_def)
  ultimately show ?thesis using pass_returns by blast
qed

end
