(* ===== verification/Watch_Recover.thy ===== *)
theory Watch_Recover
  imports Watch_Repair
begin

text \<open>
  Reading back a settled charge (\<^verbatim>\<open>watcher/src/chain.ts\<close>): the last settled nonce, the recorded charge of
  a nonce and the recovery of a payment from the ring or from the history of the mandate. \<open>info\<close> is what
  the account read gave, \<open>getSigs\<close> and \<open>getTx\<close> are the two history calls; unlike the repair, this walk lets a
  failed call through.
\<close>

section \<open>Account reads\<close>

definition readLastNonceFromAccount :: "string \<Rightarrow> js_exn + bytes option \<Rightarrow> js_exn + int" where
  "readLastNonceFromAccount mandate info =
     (case info of
        Inl e \<Rightarrow> Inl e
      | Inr None \<Rightarrow> Inl (plainError (''mandate '' @ mandate @ '' not found''))
      | Inr (Some data) \<Rightarrow> decodeMandateLastNonce data)"

definition readRecordedCharge :: "js_exn + bytes option \<Rightarrow> int \<Rightarrow> js_exn + RecoveredCharge option" where
  "readRecordedCharge info nonce =
     (case info of
        Inl e \<Rightarrow> Inl e
      | Inr None \<Rightarrow> Inr None
      | Inr (Some data) \<Rightarrow> Inr (recordedFromLedgerBytes data nonce))"

section \<open>The payment of a nonce in the history\<close>

text \<open>A payment this transaction made for the nonce, with the amount charged.\<close>

definition paid_by :: "'k wtx \<Rightarrow> 'k \<Rightarrow> int \<Rightarrow> (ChargeOutcome \<times> int) option" where
  "paid_by tx programId nonce =
     (case chargeFromTx tx programId of
        None \<Rightarrow> None
      | Some (amount, n) \<Rightarrow>
          if n \<noteq> nonce then None
          else (case parseChargeLogs (wt_logs tx) of
              Inl _ \<Rightarrow> None
            | Inr outcome \<Rightarrow> if co_decision outcome \<noteq> cd_paid then None else Some (outcome, amount)))"

definition recovered :: "ChargeOutcome \<Rightarrow> string \<Rightarrow> int \<Rightarrow> RecoveredCharge" where
  "recovered outcome sig amount =
     \<lparr>co_decision = co_decision outcome, co_reason = co_reason outcome, co_reasonCode = co_reasonCode outcome,
      co_suggestedOverride = co_suggestedOverride outcome, cr_signature = sig, rc_amount = amount\<rparr>"

fun find_in_page ::
  "(string \<Rightarrow> js_exn + 'k wtx option) \<Rightarrow> 'k \<Rightarrow> int \<Rightarrow> SignaturePage list \<Rightarrow> js_exn + RecoveredCharge option" where
  "find_in_page getTx programId nonce [] = Inr None"
| "find_in_page getTx programId nonce (info # infos) =
     (if sg_err info then find_in_page getTx programId nonce infos
      else case getTx (sg_signature info) of
          Inl e \<Rightarrow> Inl e
        | Inr None \<Rightarrow> find_in_page getTx programId nonce infos
        | Inr (Some tx) \<Rightarrow>
            (case paid_by tx programId nonce of
               None \<Rightarrow> find_in_page getTx programId nonce infos
             | Some (outcome, amount) \<Rightarrow> Inr (Some (recovered outcome (sg_signature info) amount))))"

fun find_in_pages ::
  "nat \<Rightarrow> (string option \<Rightarrow> js_exn + SignaturePage list) \<Rightarrow> (string \<Rightarrow> js_exn + 'k wtx option) \<Rightarrow> 'k \<Rightarrow> int \<Rightarrow>
   string option \<Rightarrow> js_exn + RecoveredCharge option" where
  "find_in_pages 0 getSigs getTx programId nonce before = Inr None"
| "find_in_pages (Suc n) getSigs getTx programId nonce before =
     (case getSigs before of
        Inl e \<Rightarrow> Inl e
      | Inr sigs \<Rightarrow>
          if sigs = [] then Inr None
          else
            (case find_in_page getTx programId nonce sigs of
               Inl e \<Rightarrow> Inl e
             | Inr (Some c) \<Rightarrow> Inr (Some c)
             | Inr None \<Rightarrow>
                 if length sigs < 200 then Inr None
                 else find_in_pages n getSigs getTx programId nonce (Some (sg_signature (last sigs)))))"

definition findPaidInHistory ::
  "(string option \<Rightarrow> js_exn + SignaturePage list) \<Rightarrow> (string \<Rightarrow> js_exn + 'k wtx option) \<Rightarrow> 'k \<Rightarrow> int \<Rightarrow>
   js_exn + RecoveredCharge option" where
  "findPaidInHistory getSigs getTx programId nonce = find_in_pages 50 getSigs getTx programId nonce None"

definition recoverFromConnection ::
  "js_exn + bytes option \<Rightarrow> (string option \<Rightarrow> js_exn + SignaturePage list) \<Rightarrow> (string \<Rightarrow> js_exn + 'k wtx option) \<Rightarrow> 'k \<Rightarrow> int \<Rightarrow>
   js_exn + RecoveredCharge option" where
  "recoverFromConnection info getSigs getTx programId nonce =
     (case info of
        Inl e \<Rightarrow> Inl e
      | Inr account \<Rightarrow>
          (case (case account of None \<Rightarrow> None | Some data \<Rightarrow> findPaidInLedgerBytes data nonce) of
             None \<Rightarrow> findPaidInHistory getSigs getTx programId nonce
           | Some (amount, suggested) \<Rightarrow>
               let hit = (\<lambda>sig. Inr (Some \<lparr>co_decision = cd_paid, co_reason = ''ok'', co_reasonCode = 0,
                     co_suggestedOverride = zero_none suggested, cr_signature = sig, rc_amount = amount\<rparr>)) in
               (case findPaidInHistory getSigs getTx programId nonce of
                  Inl e \<Rightarrow> if isRateLimitError e then hit [] else Inl e
                | Inr None \<Rightarrow> hit []
                | Inr (Some c) \<Rightarrow> hit (cr_signature c))))"

section \<open>What is recovered is a payment of that nonce\<close>

definition payment_in :: "(string \<Rightarrow> js_exn + 'k wtx option) \<Rightarrow> 'k \<Rightarrow> int \<Rightarrow> RecoveredCharge \<Rightarrow> bool" where
  "payment_in getTx programId nonce c \<longleftrightarrow>
     (\<exists>tx outcome. getTx (cr_signature c) = Inr (Some tx) \<and> chargeFromTx tx programId = Some (rc_amount c, nonce) \<and>
        parseChargeLogs (wt_logs tx) = Inr outcome \<and> co_decision outcome = cd_paid) \<and> co_decision c = cd_paid"

lemma paid_by_payment:
  "paid_by tx programId nonce = Some (outcome, amount) \<Longrightarrow> getTx sig = Inr (Some tx) \<Longrightarrow>
   payment_in getTx programId nonce (recovered outcome sig amount)"
  by (auto simp: paid_by_def payment_in_def recovered_def split: option.splits prod.splits sum.splits if_splits)

lemma find_in_page_payment:
  "find_in_page getTx programId nonce infos = Inr (Some c) \<Longrightarrow> payment_in getTx programId nonce c"
  by (induction infos) (auto split: if_splits sum.splits option.splits prod.splits dest: paid_by_payment)

lemma find_in_pages_payment:
  "find_in_pages n getSigs getTx programId nonce before = Inr (Some c) \<Longrightarrow> payment_in getTx programId nonce c"
  by (induction n arbitrary: before) (auto split: if_splits sum.splits option.splits dest: find_in_page_payment)

text \<open>A recovered charge is a payment of the nonce that a transaction made, or that the ring records.\<close>

lemma recovered_is_a_payment:
  assumes "recoverFromConnection (Inr account) getSigs getTx programId nonce = Inr (Some c)"
  shows "payment_in getTx programId nonce c \<or>
    co_decision c = cd_paid \<and> (\<exists>data suggested. account = Some data \<and> findPaidInLedgerBytes data nonce = Some (rc_amount c, suggested))"
  using assms find_in_pages_payment [of 50 getSigs getTx programId nonce None]
  by (auto simp: recoverFromConnection_def findPaidInHistory_def Let_def split: option.splits prod.splits sum.splits if_splits)

text \<open>A payment in the ring is recovered even when every endpoint is rate limited.\<close>

lemma ring_payment_survives_rate_limit:
  assumes "findPaidInLedgerBytes data nonce = Some (amount, suggested)"
    and "\<And>e. findPaidInHistory getSigs getTx programId nonce = Inl e \<Longrightarrow> isRateLimitError e"
  shows "\<exists>c. recoverFromConnection (Inr (Some data)) getSigs getTx programId nonce = Inr (Some c) \<and> rc_amount c = amount \<and>
    co_decision c = cd_paid"
  using assms by (auto simp: recoverFromConnection_def Let_def split: sum.splits option.splits)

end
