(* ===== verification/Spec2Isabelle.thy ===== *)
theory Spec2Isabelle
  imports Prelude Layout Ring_Store Mandate_Program Decision_Codes Ledger_Decode Money Tokens
    Mandate_Decode Override Grade Rolling_Window Hold Hold_Decode Trade_Decode Hold_Read
    Instructions Hold_Tx App_Request Event_Compare Event_Decode Event_Flow Event_Log
    Hold_Program Hold_Safety Js_Text Request_Agree Request_Check Request_Links Request_Read
    Rule_Request Trade_Request Verify_Bundle Verify_Export Verify_Lib Verify_Record
    Verify_Tenure Verify_Tx Verify_Walk Watch_Chain Watch_Due Watch_Fx Watch_Live
    Watch_Recover Watch_Repair Watch_Rpc Watch_Run Watch_Safety
begin

text \<open>
  \<^bold>\<open>Veto: spending rules on chain and the programs around them.\<close>

  An owner opens a \<^emph>\<open>mandate\<close>: an agent may spend up to a cap, up to a limit per payment, to one
  merchant, until a date. The on-chain program decides every charge and keeps both payments
  and refusals in a ring of records; a refused charge moves nothing and leaves a record with its
  reason and the override that would clear it. A \<^emph>\<open>Hold\<close> vault pays known accounts at once within a
  rolling day and makes every other withdrawal wait. A \<^emph>\<open>trade rule\<close> bounds what an agent may swap.
  Around the program stand the phone app (\<^verbatim>\<open>app/\<close>), the agent SDK (\<^verbatim>\<open>sdk/\<close>), the indexer
  (\<^verbatim>\<open>indexer/\<close>), the electricity watcher that charges by the hour (\<^verbatim>\<open>watcher/\<close>), the merchant's
  terminal (\<^verbatim>\<open>terminal/\<close>) and a command line (\<^verbatim>\<open>cli/\<close>). They share the byte layouts of the
  accounts and instructions and the meaning of the codes, each with its own implementation.

  \<^bold>\<open>Theories and sources.\<close>

  \<^item> \<open>Prelude\<close>: results with thrown errors, sequencing and traversal, byte lists, decimal numerals,
    the string helpers of JavaScript; \<open>Layout\<close>: typed-array views and the little-endian readers and
    writers of the three TypeScript packages (\<^verbatim>\<open>app/lib/constants.ts\<close>, \<^verbatim>\<open>indexer/src/constants.ts\<close>,
    \<^verbatim>\<open>sdk/src/layout.ts\<close>), related to the words they encode.
  \<^item> \<open>Ring_Store\<close>: the locale of a bounded decision ring and the law that a reader sees the most
    recent entries, oldest first. It is interpreted for the mandate ledger, the Hold ledger and the
    trade ledger.
  \<^item> \<open>Mandate_Program\<close>: \<^verbatim>\<open>programs/veto/src/lib.rs\<close> and \<^verbatim>\<open>state.rs\<close> for mandates. Handlers are
    functions from the accounts to an error or the changed accounts; words keep their width. The
    reachable mandates are an inductive set.
  \<^item> \<open>Decision_Codes\<close>, \<open>Ledger_Decode\<close>, \<open>Mandate_Decode\<close>: how each package names and decodes what the
    program wrote, and how \<^verbatim>\<open>app/lib/ring.ts\<close> pairs ring entries with transaction signatures.
  \<^item> \<open>Money\<close>, \<open>Tokens\<close>, \<open>Override\<close>, \<open>Grade\<close>: the app's amounts, labels, override flow and agent
    record (\<^verbatim>\<open>app/lib/format.ts\<close>, \<^verbatim>\<open>tokens.ts\<close>, \<^verbatim>\<open>reasons.ts\<close>, \<^verbatim>\<open>override.ts\<close>, \<^verbatim>\<open>grade.ts\<close>) with the money
    conversions of \<^verbatim>\<open>cli/src/money.ts\<close> and \<^verbatim>\<open>watcher/src/money.ts\<close>.
  \<^item> \<open>Rolling_Window\<close>, \<open>Hold\<close>, \<open>Hold_Decode\<close>, \<open>Hold_Read\<close>, \<open>Hold_Tx\<close>: the Hold vault. The program's
    rolling day and withdrawal (\<^verbatim>\<open>rolling_window.rs\<close>, \<^verbatim>\<open>hold.rs\<close>, \<^verbatim>\<open>hold_state.rs\<close>), the previews and
    decoders of \<^verbatim>\<open>sdk/src/hold.ts\<close> and \<^verbatim>\<open>app/lib/holdRead.ts\<close>, and the instruction builders of both.
  \<^item> \<open>Trade_Decode\<close>, \<open>Instructions\<close>: the trade accounts and their decoders, and the instructions of
    \<^verbatim>\<open>app/lib/instructions.ts\<close> with the argument structures the program reads from them.

  \<^bold>\<open>What the lemmas show.\<close> The mandate group: spending stays within the cap, a nonce is paid at
  most once, a payment above the limit has its own override, a refusal moves nothing and is recorded,
  a suggested override clears its refusal. The decoding groups: every client reads back exactly what
  the program stored, and clients with different code agree. The instruction groups: the program
  reads from the bytes a client builds the arguments the caller gave. The app groups: amounts
  printed and parsed again are unchanged, the app offers an override only when the program takes it,
  a refusal never improves an agent's grade. The Hold groups: the preview of a withdrawal is the
  program's decision, and instant payments stay within the day's limit.

  \<^bold>\<open>Conventions and bounds.\<close> Rust integers are words of their width, with checked and saturating
  operations written out; JavaScript bigints and numbers are \<^typ>\<open>int\<close>, and a guard of the source
  that rejects an unsafe number is a branch of the model. A JavaScript \<open>throw\<close> is the left side of a
  sum. Strings are character lists; every modelled text is within one byte per code unit. All
  definitions are total recursive functions: no fuel is used. Addresses
  (\<open>PublicKey\<close>, base58), the derivation of program addresses, UTF-8 and the token program's
  transfers are parameters.

  \<^bold>\<open>Not modelled.\<close> User-interface components and screens, RPC and wallet access, timers and
  notifications, HTTP servers, the tools that read live data, the calendar and \<open>Intl\<close> formatting,
  the swap call of the trade handler and the generated interface \<^verbatim>\<open>watcher/src/idl.ts\<close>.
\<close>

end
